(* ===== verification/Kirby_Prelude.thy ===== *)
theory Kirby_Prelude
  imports Main "HOL-Library.Char_ord" "HOL-Library.List_Lexorder" "HOL-Library.Word" "HOL-Library.Code_Target_Numeral"
begin

text \<open>
  Shared vocabulary of the development: the machine and library types the Rust code uses, the
  iterator functions of Rust's standard library (\<open>position\<close>, \<open>min_by_key\<close>, \<open>max_by_key\<close>,
  \<open>windows(2)\<close>), the results of fallible code, and the generic lemmas on lists and options that
  the component theories share.

  Conventions.  An instant (\<open>DateTime<Utc>\<close>) is an integer count of nanoseconds since the epoch
  and a \<open>Duration\<close> a natural number of nanoseconds; only differences and comparisons of instants
  are used.  A text is a \<^typ>\<open>string\<close> whose characters stand for Unicode scalar values, so
  \<^const>\<open>length\<close> is \<open>chars().count()\<close>.  An \<open>i32\<close> or \<open>i64\<close> that is only stored and compared is
  an \<^typ>\<open>int\<close>; an unsigned counter whose wrap-around the code names is a word.
\<close>

type_synonym instant = int
type_synonym duration = nat
type_synonym text_str = string
type_synonym i32 = int
type_synonym i64 = int
type_synonym u32 = nat
type_synonym u64 = nat

text \<open>Nanoseconds per millisecond and per second.\<close>

definition ns_per_ms :: int where "ns_per_ms = 1000000"
definition ns_per_s :: int where "ns_per_s = 1000000000"

definition i32_max :: int where "i32_max = 2147483647"
definition i64_max :: int where "i64_max = 9223372036854775807"
definition u32_max :: nat where "u32_max = 4294967295"
definition u64_max :: nat where "u64_max = 18446744073709551615"

named_theorems rust_defs \<open>definitions of the modelled Rust functions, for unfolding\<close>
named_theorems wf_intros \<open>preservation of the well-formedness invariants\<close>

subsection \<open>Options\<close>

text \<open>\<open>Option::is_some_and\<close>, \<open>is_none_or\<close>, \<open>or\<close>, \<open>filter\<close>.\<close>

primrec is_some_and :: "'a option \<Rightarrow> ('a \<Rightarrow> bool) \<Rightarrow> bool" where
  "is_some_and None P = False"
| "is_some_and (Some x) P = P x"

primrec is_none_or :: "'a option \<Rightarrow> ('a \<Rightarrow> bool) \<Rightarrow> bool" where
  "is_none_or None P = True"
| "is_none_or (Some x) P = P x"

primrec option_or :: "'a option \<Rightarrow> 'a option \<Rightarrow> 'a option" where
  "option_or None y = y"
| "option_or (Some x) y = Some x"

primrec unwrap_or :: "'a option \<Rightarrow> 'a \<Rightarrow> 'a" where
  "unwrap_or None d = d"
| "unwrap_or (Some x) d = x"

primrec option_filter :: "('a \<Rightarrow> bool) \<Rightarrow> 'a option \<Rightarrow> 'a option" where
  "option_filter P None = None"
| "option_filter P (Some x) = (if P x then Some x else None)"

lemma is_some_and_iff: "is_some_and o1 P \<longleftrightarrow> (\<exists>x. o1 = Some x \<and> P x)"
  by (cases o1) auto

lemma is_none_or_iff: "is_none_or o1 P \<longleftrightarrow> (\<forall>x. o1 = Some x \<longrightarrow> P x)"
  by (cases o1) auto

lemma option_filter_eq_Some: "option_filter P o1 = Some x \<longleftrightarrow> o1 = Some x \<and> P x"
  by (cases o1) auto

lemma option_filter_eq_None: "option_filter P o1 = None \<longleftrightarrow> (\<forall>x. o1 = Some x \<longrightarrow> \<not> P x)"
  by (cases o1) auto

lemma option_or_eq_None [simp]: "option_or a b = None \<longleftrightarrow> a = None \<and> b = None"
  by (cases a) auto

lemma option_or_None2 [simp]: "option_or a None = a"
  by (cases a) auto

subsection \<open>Iterators\<close>

text \<open>\<open>iter().position(P)\<close>: the first index whose element satisfies \<open>P\<close>.\<close>

fun position :: "('a \<Rightarrow> bool) \<Rightarrow> 'a list \<Rightarrow> nat option" where
  "position P [] = None"
| "position P (x # xs) = (if P x then Some 0 else map_option Suc (position P xs))"

lemma position_None: "position P xs = None \<longleftrightarrow> (\<forall>x\<in>set xs. \<not> P x)"
  by (induction xs) auto

lemma position_SomeD:
  "position P xs = Some i \<Longrightarrow> i < length xs \<and> P (xs ! i) \<and> (\<forall>j<i. \<not> P (xs ! j))"
proof (induction xs arbitrary: i)
  case (Cons x xs)
  show ?case
  proof (cases "P x")
    case False
    with Cons.prems obtain k where "i = Suc k" "position P xs = Some k" by auto
    with Cons.IH [of k] False show ?thesis by (auto simp: less_Suc_eq_0_disj)
  qed (use Cons.prems in auto)
qed simp

lemma position_Some_iff:
  "position P xs = Some i \<longleftrightarrow> i < length xs \<and> P (xs ! i) \<and> (\<forall>j<i. \<not> P (xs ! j))"
proof
  assume r: "i < length xs \<and> P (xs ! i) \<and> (\<forall>j<i. \<not> P (xs ! j))"
  then have "position P xs \<noteq> None" by (auto simp: position_None)
  then obtain k where k: "position P xs = Some k" by auto
  from position_SomeD [OF k] r have "k = i" by (metis linorder_neqE_nat)
  with k show "position P xs = Some i" by simp
qed (rule position_SomeD)

lemma position_map: "position P (map f xs) = position (P \<circ> f) xs"
  by (induction xs) auto

lemma position_cong:
  "(\<And>x. x \<in> set xs \<Longrightarrow> P x = Q x) \<Longrightarrow> position P xs = position Q xs"
  by (induction xs) auto

text \<open>\<open>iter().min_by_key(key)\<close>: the first element with a least key.\<close>

fun min_by_key :: "('a \<Rightarrow> 'k::linorder) \<Rightarrow> 'a list \<Rightarrow> 'a option" where
  "min_by_key f [] = None"
| "min_by_key f (x # xs) =
     (case min_by_key f xs of None \<Rightarrow> Some x | Some y \<Rightarrow> Some (if f x \<le> f y then x else y))"

lemma min_by_key_None [simp]: "min_by_key f xs = None \<longleftrightarrow> xs = []"
  by (cases xs) (auto split: option.splits)

lemma min_by_key_SomeD:
  "min_by_key f xs = Some m \<Longrightarrow> m \<in> set xs \<and> (\<forall>y\<in>set xs. f m \<le> f y)"
  by (induction xs arbitrary: m) (auto split: option.splits if_splits)

text \<open>\<open>iter().max_by_key(key)\<close>: the last element with a greatest key.\<close>

fun max_by_key :: "('a \<Rightarrow> 'k::linorder) \<Rightarrow> 'a list \<Rightarrow> 'a option" where
  "max_by_key f [] = None"
| "max_by_key f (x # xs) =
     (case max_by_key f xs of None \<Rightarrow> Some x | Some y \<Rightarrow> Some (if f y < f x then x else y))"

lemma max_by_key_None [simp]: "max_by_key f xs = None \<longleftrightarrow> xs = []"
  by (cases xs) (auto split: option.splits)

lemma max_by_key_SomeD:
  "max_by_key f xs = Some m \<Longrightarrow> m \<in> set xs \<and> (\<forall>y\<in>set xs. f y \<le> f m)"
  by (induction xs arbitrary: m) (auto split: option.splits if_splits)

text \<open>\<open>slice.windows(2)\<close>: the adjacent pairs.\<close>

definition windows2 :: "'a list \<Rightarrow> ('a \<times> 'a) list" where
  "windows2 xs = zip xs (tl xs)"

lemma windows2_Nil [simp]: "windows2 [] = []"
  by (simp add: windows2_def)

lemma windows2_single [simp]: "windows2 [x] = []"
  by (simp add: windows2_def)

lemma windows2_Cons2 [simp]: "windows2 (x # y # zs) = (x, y) # windows2 (y # zs)"
  by (simp add: windows2_def)

lemma windows2_sorted:
  assumes "\<forall>(x, y) \<in> set (windows2 xs). R x y" and "transp R"
  shows "sorted_wrt R xs"
  using assms
proof (induction xs rule: induct_list012)
  case (3 x y zs)
  then have yz: "sorted_wrt R (y # zs)" and xy: "R x y" by auto
  have "R x z" if "z \<in> set zs" for z
    using that yz xy \<open>transp R\<close> by (auto dest: transpD)
  with yz xy show ?case by auto
qed auto

subsection \<open>Updating one element\<close>

text \<open>\<open>iter_mut().find(P)\<close> followed by an update of the element found.\<close>

fun update_first :: "('a \<Rightarrow> bool) \<Rightarrow> ('a \<Rightarrow> 'a) \<Rightarrow> 'a list \<Rightarrow> 'a list" where
  "update_first P f [] = []"
| "update_first P f (x # xs) = (if P x then f x # xs else x # update_first P f xs)"

lemma length_update_first [simp]: "length (update_first P f xs) = length xs"
  by (induction xs) auto

lemma update_first_id: "\<forall>x\<in>set xs. \<not> P x \<Longrightarrow> update_first P f xs = xs"
  by (induction xs) auto

lemma map_update_first:
  "(\<And>x. g (f x) = g x) \<Longrightarrow> map g (update_first P f xs) = map g xs"
  by (induction xs) auto

lemma in_update_firstD:
  "y \<in> set (update_first P f xs) \<Longrightarrow> y \<in> set xs \<or> (\<exists>x\<in>set xs. P x \<and> y = f x)"
  by (induction xs) (auto split: if_splits)

lemma find_update_first:
  "(\<And>x. P (f x) = P x) \<Longrightarrow> find P (update_first P f xs) = map_option f (find P xs)"
  by (induction xs) auto

lemma find_update_first_other:
  "(\<And>x. P x \<Longrightarrow> \<not> Q x) \<Longrightarrow> (\<And>x. P x \<Longrightarrow> \<not> Q (f x)) \<Longrightarrow>
   find Q (update_first P f xs) = find Q xs"
  by (induction xs) auto

text \<open>\<open>Vec::remove(i)\<close>.\<close>

definition remove_nth :: "nat \<Rightarrow> 'a list \<Rightarrow> 'a list" where
  "remove_nth i xs = take i xs @ drop (Suc i) xs"

lemma length_remove_nth: "i < length xs \<Longrightarrow> length (remove_nth i xs) = length xs - 1"
  by (simp add: remove_nth_def)

lemma remove_nth_perm:
  "i < length xs \<Longrightarrow> xs = take i xs @ xs ! i # drop (Suc i) xs"
  by (simp add: id_take_nth_drop)

lemma set_remove_nth_subset: "set (remove_nth i xs) \<subseteq> set xs"
  by (auto simp: remove_nth_def dest: in_set_takeD in_set_dropD)

lemma distinct_map_remove_nth: "distinct (map f xs) \<Longrightarrow> distinct (map f (remove_nth i xs))"
proof -
  assume d: "distinct (map f xs)"
  show ?thesis
  proof (cases "i < length xs")
    case True
    from d have "distinct (map f (take i xs @ xs ! i # drop (Suc i) xs))"
      using remove_nth_perm [OF True] by simp
    then show ?thesis by (auto simp: remove_nth_def)
  next
    case False
    with d show ?thesis by (simp add: remove_nth_def)
  qed
qed

lemma set_list_update_cases: "y \<in> set (xs[i := v]) \<Longrightarrow> y \<in> set xs \<or> y = v"
  using set_update_subset_insert [of xs i v] by auto

subsection \<open>Integer arithmetic of Rust\<close>

text \<open>Division truncating towards zero, and the Euclidean operations for a positive divisor.\<close>

definition trunc_div :: "int \<Rightarrow> int \<Rightarrow> int" where
  "trunc_div a b = (if a < 0 then - ((- a) div b) else a div b)"

lemma trunc_div_nonneg: "0 \<le> a \<Longrightarrow> trunc_div a b = a div b"
  by (simp add: trunc_div_def)

lemma trunc_div_mono:
  assumes "0 < b" and "x \<le> y" shows "trunc_div x b \<le> trunc_div y b"
proof (cases "y < 0")
  case True
  with assms show ?thesis by (auto simp: trunc_div_def intro: zdiv_mono1)
next
  case False
  show ?thesis
  proof (cases "x < 0")
    case True
    have "0 \<le> (- x) div b" and "0 \<le> y div b"
      using True False assms by (simp_all add: pos_imp_zdiv_nonneg_iff)
    with True False show ?thesis by (simp add: trunc_div_def)
  qed (use assms False in \<open>auto simp: trunc_div_def intro: zdiv_mono1\<close>)
qed

end
