(* ===== verification/Ocpp_Types.thy ===== *)
theory Ocpp_Types
  imports Kirby_Prelude
begin

text \<open>
  The identifiers of \<open>ids.rs\<close> and the wire enumerations of \<open>ocpp/types.rs\<close> and
  \<open>ocpp/messages\<close> that the station logic branches on.  A constructor that several enumerations
  share carries the enumeration as a prefix (\<open>Auth_Accepted\<close>, \<open>Rsv_Accepted\<close>).
\<close>

subsection \<open>Identifiers\<close>

type_synonym connector_id = u32
type_synonym reservation_id = i32
type_synonym id_tag = string

definition STATION :: connector_id where
  "STATION = 0"

definition is_station :: "connector_id \<Rightarrow> bool" where
  "is_station c = (c = 0)"

text \<open>A transaction id: assigned by the central system, or a local placeholder.\<close>

datatype tx_id = Csms i32 | Local u64

fun wire :: "tx_id \<Rightarrow> i32 option" where
  "wire (Csms i) = Some i"
| "wire (Local _) = None"

fun require_wire :: "tx_id \<Rightarrow> tx_id + i32" where
  "require_wire t = (case wire t of Some i \<Rightarrow> Inr i | None \<Rightarrow> Inl t)"

fun is_local :: "tx_id \<Rightarrow> bool" where
  "is_local (Csms _) = False"
| "is_local (Local _) = True"

definition ID_TAG_MAX_LEN :: nat where
  "ID_TAG_MAX_LEN = 20"

text \<open>\<open>IdTag::new\<close>: the text, or its length when it is too long.\<close>

definition id_tag_new :: "string \<Rightarrow> nat + id_tag" where
  "id_tag_new v = (if length v > ID_TAG_MAX_LEN then Inl (length v) else Inr v)"

lemma wire_None_iff: "wire t = None \<longleftrightarrow> is_local t"
  by (cases t) auto

lemma wire_SomeD: "wire t = Some i \<Longrightarrow> t = Csms i"
  by (cases t) auto

lemma is_localE: "is_local t \<Longrightarrow> (\<And>k. t = Local k \<Longrightarrow> P) \<Longrightarrow> P"
  by (cases t) auto

subsection \<open>Enumerations\<close>

datatype connector_status =
  Available | Preparing | Charging | SuspendedEVSE | SuspendedEV
| Finishing | Reserved | Unavailable | Faulted

datatype charge_point_error_code =
  ConnectorLockFailure | EVCommunicationError | GroundFailure | HighTemperature | InternalError
| LocalListConflict | NoError | OtherError | OverCurrentFailure | PowerMeterFailure
| PowerSwitchFailure | ReaderFailure | ResetFailure | UnderVoltage | OverVoltage | WeakSignal

datatype availability_type = Operative | Inoperative

datatype registration_status = Reg_Accepted | Reg_Pending | Reg_Rejected

datatype authorization_status =
  Auth_Accepted | Auth_Blocked | Auth_Expired | Auth_Invalid | Auth_ConcurrentTx

datatype stop_reason =
  EmergencyStop | EVDisconnected | HardReset | Stop_Local | Stop_Other | PowerLoss
| Reboot | Remote | SoftReset | UnlockCommand | DeAuthorized

datatype configuration_status =
  Conf_Accepted | Conf_Rejected | Conf_RebootRequired | Conf_NotSupported

datatype charging_profile_purpose = ChargePointMaxProfile | TxDefaultProfile | TxProfile

datatype charging_profile_kind = Absolute | Recurring | Relative

datatype recurrency_kind = Daily | Weekly

datatype charging_rate_unit = Unit_A | Unit_W

datatype update_type = Differential | Full

datatype reservation_status =
  Rsv_Accepted | Rsv_Faulted | Rsv_Occupied | Rsv_Rejected | Rsv_Unavailable

datatype update_status = Upd_Accepted | Upd_Failed | Upd_NotSupported | Upd_VersionMismatch

datatype charging_profile_status = Prof_Accepted | Prof_Rejected | Prof_NotSupported

datatype clear_profile_status = Clear_Accepted | Clear_Unknown

text \<open>The verdict of the central system on an idTag.\<close>

record id_tag_info =
  ti_status :: authorization_status
  ti_expiry_date :: "instant option"
  ti_parent_id_tag :: "id_tag option"

definition with_status :: "authorization_status \<Rightarrow> id_tag_info" where
  "with_status s = \<lparr>ti_status = s, ti_expiry_date = None, ti_parent_id_tag = None\<rparr>"

lemmas enum_splits =
  connector_status.splits availability_type.splits registration_status.splits
  authorization_status.splits stop_reason.splits

end
