(* ===== verification/Rust_Strings.thy ===== *)
theory Rust_Strings
  imports Kirby_Prelude
begin

text \<open>
  The functions of Rust's \<open>str\<close> that the station uses: white-space trimming, splitting, ASCII case
  folding, and decimal printing and parsing of integers with their range checks.
\<close>

subsection \<open>Characters\<close>

definition char_code :: "char \<Rightarrow> nat" where
  "char_code c = of_char c"

text \<open>The Unicode \<open>White_Space\<close> scalars below 256 (\<open>str::trim\<close>).\<close>

definition is_space :: "char \<Rightarrow> bool" where
  "is_space c = (let n = char_code c in (9 \<le> n \<and> n \<le> 13) \<or> n = 32 \<or> n = 0x85 \<or> n = 0xA0)"

definition is_ascii_digit :: "char \<Rightarrow> bool" where
  "is_ascii_digit c = (let n = char_code c in 48 \<le> n \<and> n \<le> 57)"

definition is_ascii_graphic :: "char \<Rightarrow> bool" where
  "is_ascii_graphic c = (let n = char_code c in 33 \<le> n \<and> n \<le> 126)"

definition to_ascii_lowercase :: "char \<Rightarrow> char" where
  "to_ascii_lowercase c =
     (let n = char_code c in if 65 \<le> n \<and> n \<le> 90 then char_of (n + 32) else c)"

definition lower :: "string \<Rightarrow> string" where
  "lower s = map to_ascii_lowercase s"

definition eq_ignore_ascii_case :: "string \<Rightarrow> string \<Rightarrow> bool" where
  "eq_ignore_ascii_case a b = (lower a = lower b)"

subsection \<open>Trimming and splitting\<close>

definition trim :: "string \<Rightarrow> string" where
  "trim s = rev (dropWhile is_space (rev (dropWhile is_space s)))"

fun split :: "char \<Rightarrow> string \<Rightarrow> string list" where
  "split d [] = [[]]"
| "split d (c # s) =
     (if c = d then [] # split d s
      else (case split d s of [] \<Rightarrow> [[c]] | p # ps \<Rightarrow> (c # p) # ps))"

fun split_once :: "char \<Rightarrow> string \<Rightarrow> (string \<times> string) option" where
  "split_once d [] = None"
| "split_once d (c # s) =
     (if c = d then Some ([], s)
      else map_option (\<lambda>(a, b). (c # a, b)) (split_once d s))"

fun join :: "string \<Rightarrow> string list \<Rightarrow> string" where
  "join sep [] = []"
| "join sep [x] = x"
| "join sep (x # y # zs) = x @ sep @ join sep (y # zs)"

lemma split_not_Nil [simp]: "split d s \<noteq> []"
  by (induction s) (auto split: list.split)

lemma split_no_sep: "d \<notin> set s \<Longrightarrow> split d s = [s]"
  by (induction s) auto

lemma split_append_sep: "d \<notin> set a \<Longrightarrow> split d (a @ d # b) = a # split d b"
  by (induction a) auto

lemma split_join:
  "xs \<noteq> [] \<Longrightarrow> \<forall>x\<in>set xs. d \<notin> set x \<Longrightarrow> split d (join [d] xs) = xs"
  by (induction "[d]" xs rule: join.induct) (auto simp: split_no_sep split_append_sep)

lemma split_parts_no_sep: "p \<in> set (split d s) \<Longrightarrow> d \<notin> set p"
  by (induction s arbitrary: p) (auto split: if_splits list.splits)

lemma set_trim: "set (trim s) \<subseteq> set s"
  unfolding trim_def by (metis set_dropWhileD set_rev subsetI)

lemma dropWhile_rev_dropWhile_hd:
  assumes "s = [] \<or> \<not> P (hd s)" shows "t = rev (dropWhile P (rev s)) \<Longrightarrow> t = [] \<or> \<not> P (hd t)"
proof (cases s)
  case (Cons c r)
  with assms have "\<not> P c" by simp
  then have "dropWhile P (rev s) = dropWhile P (rev r) @ [c]"
    using Cons by (induction "rev r" rule: rev_induct) (auto simp: dropWhile_append)
  then show "t = rev (dropWhile P (rev s)) \<Longrightarrow> t = [] \<or> \<not> P (hd t)"
    using \<open>\<not> P c\<close> by simp
qed simp

lemma dropWhile_id: "s = [] \<or> \<not> P (hd s) \<Longrightarrow> dropWhile P s = s"
  by (cases s) auto

lemma dropWhile_twice: "dropWhile P (dropWhile P s) = dropWhile P s"
  by (rule dropWhile_id) (use hd_dropWhile in blast)

lemma trim_trim [simp]: "trim (trim s) = trim s"
proof -
  let ?a = "dropWhile is_space s"
  have a: "?a = [] \<or> \<not> is_space (hd ?a)" using hd_dropWhile by blast
  have b: "dropWhile is_space (trim s) = trim s"
    by (rule dropWhile_id)
      (use dropWhile_rev_dropWhile_hd [where P = is_space and s = ?a and t = "trim s", OF a] in \<open>simp add: trim_def\<close>)
  have "dropWhile is_space (rev (trim s)) = rev (trim s)"
    by (simp add: trim_def dropWhile_twice)
  then show ?thesis unfolding trim_def [of "trim s"] b by simp
qed

subsection \<open>Integers\<close>

definition digit_val :: "char \<Rightarrow> nat" where
  "digit_val c = char_code c - 48"

definition digits_val :: "string \<Rightarrow> nat" where
  "digits_val s = foldl (\<lambda>n c. 10 * n + digit_val c) 0 s"

definition parse_digits :: "string \<Rightarrow> nat option" where
  "parse_digits s = (if s = [] \<or> \<not> list_all is_ascii_digit s then None else Some (digits_val s))"

text \<open>\<open>str::parse::<u32>\<close>: an optional plus sign, digits, and the range check.\<close>

definition parse_u32 :: "string \<Rightarrow> u32 option" where
  "parse_u32 s =
     (let digits = (case s of c # r \<Rightarrow> if c = CHR ''+'' then r else s | [] \<Rightarrow> s)
      in option_filter (\<lambda>n. n \<le> u32_max) (parse_digits digits))"

fun show_nat :: "nat \<Rightarrow> string" where
  "show_nat n = (if n < 10 then [char_of (48 + n)] else show_nat (n div 10) @ [char_of (48 + n mod 10)])"

declare show_nat.simps [simp del]

lemma char_code_char_of: "n < 256 \<Longrightarrow> char_code (char_of n) = n"
  by (simp add: char_code_def)

lemma show_nat_not_Nil [simp]: "show_nat n \<noteq> []"
  by (subst show_nat.simps) simp

lemma show_nat_digits: "list_all is_ascii_digit (show_nat n)"
proof (induction n rule: show_nat.induct)
  case (1 n)
  have d: "is_ascii_digit (char_of (48 + k))" if "k < 10" for k :: nat
    using that by (simp add: is_ascii_digit_def char_code_char_of)
  show ?case
    using 1 by (subst show_nat.simps) (auto simp: d)
qed

lemma digits_val_snoc: "digits_val (s @ [c]) = 10 * digits_val s + digit_val c"
  by (simp add: digits_val_def)

lemma digits_val_show_nat: "digits_val (show_nat n) = n"
proof (induction n rule: show_nat.induct)
  case (1 n)
  have d: "digit_val (char_of (48 + k)) = k" if "k < 10" for k :: nat
    using that by (simp add: digit_val_def char_code_char_of)
  show ?case
  proof (cases "n < 10")
    case True
    then show ?thesis by (subst show_nat.simps) (simp add: digits_val_def d)
  next
    case False
    with 1 show ?thesis by (subst show_nat.simps) (simp add: digits_val_snoc d)
  qed
qed

lemma digit_not_plus: "is_ascii_digit c \<Longrightarrow> c \<noteq> CHR ''+''"
  by (auto simp: is_ascii_digit_def char_code_def)

lemma digit_not_comma: "is_ascii_digit c \<Longrightarrow> c \<noteq> CHR '',''"
  by (auto simp: is_ascii_digit_def char_code_def)

lemma digit_not_dot: "is_ascii_digit c \<Longrightarrow> c \<noteq> CHR ''.''"
  by (auto simp: is_ascii_digit_def char_code_def)

lemma digit_not_space: "is_ascii_digit c \<Longrightarrow> \<not> is_space c"
  by (auto simp: is_ascii_digit_def is_space_def Let_def)

lemma parse_digits_show_nat: "parse_digits (show_nat n) = Some n"
  by (simp add: parse_digits_def show_nat_digits digits_val_show_nat)

lemma parse_u32_show_nat: "n \<le> u32_max \<Longrightarrow> parse_u32 (show_nat n) = Some n"
proof -
  assume n: "n \<le> u32_max"
  obtain c r where s: "show_nat n = c # r" by (cases "show_nat n") auto
  with show_nat_digits [of n] have "c \<noteq> CHR ''+''" by (auto dest: digit_not_plus)
  with s n parse_digits_show_nat [of n] show ?thesis by (simp add: parse_u32_def)
qed

end
