(* ===== verification/Connector.thy ===== *)
theory Connector
  imports Ocpp_Types Rust_Strings
begin

text \<open>
  The state of one connector: the transaction state machine of \<open>station/transaction.rs\<close>, the
  connector record of \<open>station/snapshot.rs\<close>, and the pure status rules of
  \<open>station/connector.rs\<close>.  The reservation record lives here because the connector owns it;
  the reservation rules are in theory \<open>Reservation\<close>.
\<close>

subsection \<open>Transaction state\<close>

record pending_start =
  ps_tx_id :: tx_id
  ps_id_tag :: id_tag
  ps_started_at :: instant
  ps_meter_start_wh :: u64
  ps_reservation_id :: "reservation_id option"

record active_transaction =
  at_tx_id :: tx_id
  at_id_tag :: id_tag
  at_started_at :: instant
  at_meter_start_wh :: u64

record stopping_transaction =
  st_tx_id :: tx_id
  st_id_tag :: "id_tag option"
  st_reason :: stop_reason
  st_stopped_at :: "instant option"
  st_meter_stop_wh :: "u64 option"

datatype transaction_state =
  Idle
| PendingStart pending_start
| Active active_transaction
| Stopping stopping_transaction

fun is_idle :: "transaction_state \<Rightarrow> bool" where
  "is_idle Idle = True"
| "is_idle _ = False"

fun state_tx_id :: "transaction_state \<Rightarrow> tx_id option" where
  "state_tx_id Idle = None"
| "state_tx_id (PendingStart t) = Some (ps_tx_id t)"
| "state_tx_id (Active t) = Some (at_tx_id t)"
| "state_tx_id (Stopping t) = Some (st_tx_id t)"

fun state_id_tag :: "transaction_state \<Rightarrow> id_tag option" where
  "state_id_tag Idle = None"
| "state_id_tag (PendingStart t) = Some (ps_id_tag t)"
| "state_id_tag (Active t) = Some (at_id_tag t)"
| "state_id_tag (Stopping t) = st_id_tag t"

definition blocks_new_transaction :: "transaction_state \<Rightarrow> bool" where
  "blocks_new_transaction t = (\<not> is_idle t)"

definition state_after_stop ::
  "stop_reason \<Rightarrow> bool \<Rightarrow> availability_type \<Rightarrow> bool \<times> connector_status" where
  "state_after_stop reason ev_connected availability =
     (let still_connected = (reason \<noteq> EVDisconnected \<and> ev_connected);
          status = (if still_connected then Finishing
                    else if availability = Inoperative then Unavailable
                    else Available)
      in (still_connected, status))"

lemma is_idle_iff: "is_idle t \<longleftrightarrow> t = Idle"
  by (cases t) auto

lemma state_tx_id_None_iff: "state_tx_id t = None \<longleftrightarrow> is_idle t"
  by (cases t) auto

subsection \<open>The connector record\<close>

record reservation =
  r_id :: reservation_id
  r_id_tag :: id_tag
  r_parent_id_tag :: "id_tag option"
  r_expiry :: instant

record connector =
  c_id :: connector_id
  c_status :: connector_status
  c_error_code :: charge_point_error_code
  c_info :: "string option"
  c_vendor_id :: "string option"
  c_vendor_error_code :: "string option"
  c_ev_connected :: bool
  c_availability :: availability_type
  c_pending_availability :: "availability_type option"
  c_transaction :: transaction_state
  c_last_id_tag :: "id_tag option"
  c_meter_wh :: u64
  c_reservation :: "reservation option"

definition new_connector :: "connector_id \<Rightarrow> connector" where
  "new_connector i =
     \<lparr>c_id = i, c_status = Available, c_error_code = NoError, c_info = None,
      c_vendor_id = None, c_vendor_error_code = None, c_ev_connected = False,
      c_availability = Operative, c_pending_availability = None, c_transaction = Idle,
      c_last_id_tag = None, c_meter_wh = 0, c_reservation = None\<rparr>"

definition c_tx_id :: "connector \<Rightarrow> tx_id option" where
  "c_tx_id c = state_tx_id (c_transaction c)"

lemma c_tx_id_None_iff: "c_tx_id c = None \<longleftrightarrow> is_idle (c_transaction c)"
  by (simp add: c_tx_id_def state_tx_id_None_iff)

subsection \<open>Status rules\<close>

definition STATUS_TEXT_MAX :: nat where
  "STATUS_TEXT_MAX = 50"

definition STATUS_SEQUENCE :: "connector_status list" where
  "STATUS_SEQUENCE = [Available, Preparing, Charging, SuspendedEVSE, SuspendedEV,
     Finishing, Reserved, Unavailable, Faulted]"

definition next_status :: "connector_status \<Rightarrow> connector_status" where
  "next_status s =
     STATUS_SEQUENCE !
       (case position (\<lambda>c. c = s) STATUS_SEQUENCE of
          None \<Rightarrow> 0 | Some i \<Rightarrow> (i + 1) mod length STATUS_SEQUENCE)"

definition trim_text :: "string \<Rightarrow> nat \<Rightarrow> string option" where
  "trim_text v m = (let t = trim v in if t = [] then None else Some (take m t))"

definition fault_error_code :: "charge_point_error_code \<Rightarrow> charge_point_error_code" where
  "fault_error_code requested = (if requested = NoError then OtherError else requested)"

definition status_after_fault_clear :: "connector \<Rightarrow> connector_status" where
  "status_after_fault_clear c =
     (if c_availability c = Inoperative then Unavailable
      else if \<not> is_idle (c_transaction c) then Charging
      else if c_ev_connected c then Preparing
      else if c_reservation c \<noteq> None then Reserved
      else Available)"

definition status_after_availability_change ::
  "connector \<Rightarrow> availability_type \<Rightarrow> connector_status" where
  "status_after_availability_change c availability =
     (if c_status c = Faulted then Faulted
      else if availability = Inoperative then Unavailable
      else if c_status c = Finishing then Finishing
      else if c_reservation c \<noteq> None then Reserved
      else if c_ev_connected c then Preparing
      else Available)"

definition status_after_unplug :: "connector \<Rightarrow> connector_status" where
  "status_after_unplug c =
     (if c_availability c = Inoperative \<or> c_status c = Unavailable then Unavailable
      else if c_reservation c \<noteq> None then Reserved
      else Available)"

fun charge_point_status :: "availability_type \<Rightarrow> connector_status \<Rightarrow> connector_status" where
  "charge_point_status availability current =
     (if current = Faulted then Faulted
      else if availability = Inoperative then Unavailable
      else Available)"

lemma STATUS_SEQUENCE_all: "s \<in> set STATUS_SEQUENCE"
  by (cases s) (auto simp: STATUS_SEQUENCE_def)

text \<open>
  The "cycle status" action is a single cycle through all nine statuses: nine steps lead
  back to the start from every status, and the first nine states of the walk are all statuses.
\<close>

theorem next_status_cycle:
  "(next_status ^^ 9) s = s \<and> (\<lambda>n. (next_status ^^ n) s) ` {..<9} = UNIV"
proof -
  have step: "next_status Available = Preparing" "next_status Preparing = Charging"
    "next_status Charging = SuspendedEVSE" "next_status SuspendedEVSE = SuspendedEV"
    "next_status SuspendedEV = Finishing" "next_status Finishing = Reserved"
    "next_status Reserved = Unavailable" "next_status Unavailable = Faulted"
    "next_status Faulted = Available"
    by (simp_all add: next_status_def STATUS_SEQUENCE_def)
  have univ: "(UNIV :: connector_status set) = set STATUS_SEQUENCE"
    using STATUS_SEQUENCE_all by auto
  show ?thesis
    unfolding univ
    by (cases s) (auto simp: step STATUS_SEQUENCE_def eval_nat_numeral lessThan_Suc)
qed

lemma trim_text_bound: "trim_text v m = Some t \<Longrightarrow> length t \<le> m"
  by (auto simp: trim_text_def Let_def split: if_splits)

end
