(* ===== verification/F64.thy ===== *)
theory F64
  imports Complex_Main Kirby_Prelude
begin

text \<open>
  IEEE 754 double precision as the Rust code uses it: the values, the exact comparisons, and the
  arithmetic with rounding to nearest, ties to even.  A finite value keeps its sign apart from its
  magnitude, so that \<open>-0.0\<close> and \<open>0.0\<close> differ as bit patterns and compare equal; NaN payloads are
  not distinguished.
\<close>

datatype f64 = NaN | Inf bool | Fin bool rat

text \<open>The sign flag is set for negative values; the magnitude of a finite value is not negative.\<close>

fun f64_wf :: "f64 \<Rightarrow> bool" where
  "f64_wf (Fin s m) = (0 \<le> m)"
| "f64_wf _ = True"

fun fval :: "f64 \<Rightarrow> rat" where
  "fval (Fin s m) = (if s then - m else m)"
| "fval _ = 0"

fun is_finite :: "f64 \<Rightarrow> bool" where
  "is_finite (Fin s m) = True"
| "is_finite _ = False"

subsection \<open>Comparison\<close>

fun f_lt :: "f64 \<Rightarrow> f64 \<Rightarrow> bool" where
  "f_lt NaN y = False"
| "f_lt x NaN = False"
| "f_lt (Inf n) (Inf k) = (n \<and> \<not> k)"
| "f_lt (Inf n) (Fin s m) = n"
| "f_lt (Fin s m) (Inf n) = (\<not> n)"
| "f_lt (Fin s m) (Fin t k) = (fval (Fin s m) < fval (Fin t k))"

fun f_eq :: "f64 \<Rightarrow> f64 \<Rightarrow> bool" where
  "f_eq (Inf n) (Inf k) = (n = k)"
| "f_eq (Fin s m) (Fin t k) = (fval (Fin s m) = fval (Fin t k))"
| "f_eq x y = False"

definition f_le :: "f64 \<Rightarrow> f64 \<Rightarrow> bool" where
  "f_le x y = (f_lt x y \<or> f_eq x y)"

datatype ordering = Less | Equal | Greater

text \<open>\<open>partial_cmp\<close>: \<open>None\<close> when a NaN is involved.\<close>

definition partial_cmp :: "f64 \<Rightarrow> f64 \<Rightarrow> ordering option" where
  "partial_cmp x y =
     (if f_lt x y then Some Less else if f_lt y x then Some Greater
      else if f_eq x y then Some Equal else None)"

text \<open>\<open>x.to_bits() == y.to_bits()\<close>.\<close>

definition same_bits :: "f64 \<Rightarrow> f64 \<Rightarrow> bool" where
  "same_bits x y = (x = y)"

subsection \<open>Rounding\<close>

definition pow2 :: "int \<Rightarrow> rat" where
  "pow2 e = (if 0 \<le> e then 2 ^ nat e else 1 / 2 ^ nat (- e))"

fun bits :: "nat \<Rightarrow> nat" where
  "bits n = (if n = 0 then 0 else Suc (bits (n div 2)))"

declare bits.simps [simp del]

text \<open>The binary exponent of a positive number.\<close>

definition ilog2 :: "rat \<Rightarrow> int" where
  "ilog2 q =
     (case quotient_of q of (n, d) \<Rightarrow>
        let e = int (bits (nat n)) - int (bits (nat d)) in if pow2 e \<le> q then e else e - 1)"

definition ties_even :: "rat \<Rightarrow> int" where
  "ties_even q =
     (let f = \<lfloor>q\<rfloor>; r = q - of_int f in
      if r < 1 / 2 then f else if 1 / 2 < r then f + 1 else if even f then f else f + 1)"

text \<open>A magnitude rounded to 53 significant bits, subnormals and overflow included.\<close>

definition rnd :: "bool \<Rightarrow> rat \<Rightarrow> f64" where
  "rnd s q =
     (if q = 0 then Fin s 0
      else
        let e = max (ilog2 q) (- 1022);
            u = pow2 (e - 52);
            n = ties_even (q / u)
        in if 1023 < e \<or> (e = 1023 \<and> 2 ^ 53 \<le> n) then Inf s else Fin s (of_int n * u))"

subsection \<open>Arithmetic\<close>

text \<open>\<open>f64::from\<close> of a 32-bit integer, exact; and of a 64-bit one, rounded.\<close>

definition f64_from :: "int \<Rightarrow> f64" where
  "f64_from i = Fin (i < 0) (of_int \<bar>i\<bar>)"

definition f64_of_u64 :: "u64 \<Rightarrow> f64" where
  "f64_of_u64 n = rnd False (of_nat n)"

fun f_mul :: "f64 \<Rightarrow> f64 \<Rightarrow> f64" where
  "f_mul NaN y = NaN"
| "f_mul x NaN = NaN"
| "f_mul (Inf s) (Inf t) = Inf (s \<noteq> t)"
| "f_mul (Inf s) (Fin t m) = (if m = 0 then NaN else Inf (s \<noteq> t))"
| "f_mul (Fin t m) (Inf s) = (if m = 0 then NaN else Inf (s \<noteq> t))"
| "f_mul (Fin s m) (Fin t k) = rnd (s \<noteq> t) (m * k)"

fun f_div :: "f64 \<Rightarrow> f64 \<Rightarrow> f64" where
  "f_div NaN y = NaN"
| "f_div x NaN = NaN"
| "f_div (Inf s) (Inf t) = NaN"
| "f_div (Inf s) (Fin t m) = Inf (s \<noteq> t)"
| "f_div (Fin s m) (Inf t) = Fin (s \<noteq> t) 0"
| "f_div (Fin s m) (Fin t k) =
     (if k = 0 then if m = 0 then NaN else Inf (s \<noteq> t) else rnd (s \<noteq> t) (m / k))"

fun f_add :: "f64 \<Rightarrow> f64 \<Rightarrow> f64" where
  "f_add NaN y = NaN"
| "f_add x NaN = NaN"
| "f_add (Inf s) (Inf t) = (if s = t then Inf s else NaN)"
| "f_add (Inf s) (Fin t m) = Inf s"
| "f_add (Fin s m) (Inf t) = Inf t"
| "f_add (Fin s m) (Fin t k) =
     (let v = fval (Fin s m) + fval (Fin t k) in
      if v = 0 then Fin (s \<and> t) 0 else rnd (v < 0) \<bar>v\<bar>)"

fun f_neg :: "f64 \<Rightarrow> f64" where
  "f_neg NaN = NaN"
| "f_neg (Inf s) = Inf (\<not> s)"
| "f_neg (Fin s m) = Fin (\<not> s) m"

definition f_sub :: "f64 \<Rightarrow> f64 \<Rightarrow> f64" where
  "f_sub x y = f_add x (f_neg y)"

text \<open>\<open>round\<close> (half away from zero) and \<open>floor\<close>; both exact.\<close>

fun f_round :: "f64 \<Rightarrow> f64" where
  "f_round (Fin s m) = Fin s (of_int \<lfloor>m + 1 / 2\<rfloor>)"
| "f_round x = x"

fun f_floor :: "f64 \<Rightarrow> f64" where
  "f_floor (Fin s m) = Fin s (if s then of_int \<lceil>m\<rceil> else of_int \<lfloor>m\<rfloor>)"
| "f_floor x = x"

text \<open>\<open>clamp\<close> and \<open>max\<close>.\<close>

definition f_clamp :: "f64 \<Rightarrow> f64 \<Rightarrow> f64 \<Rightarrow> f64" where
  "f_clamp x lo hi = (let y = (if f_lt x lo then lo else x) in if f_lt hi y then hi else y)"

definition f_max :: "f64 \<Rightarrow> f64 \<Rightarrow> f64" where
  "f_max x y = (if x = NaN then y else if y = NaN then x else if f_lt x y then y else x)"

text \<open>\<open>as u64\<close>: truncation towards zero, saturating, NaN to zero.\<close>

fun as_u64 :: "f64 \<Rightarrow> u64" where
  "as_u64 NaN = 0"
| "as_u64 (Inf s) = (if s then 0 else u64_max)"
| "as_u64 (Fin s m) = (if s then 0 else min (nat \<lfloor>m\<rfloor>) u64_max)"

definition f_zero :: f64 where
  "f_zero = Fin False 0"

subsection \<open>Laws\<close>

text \<open>A value that is a number at least zero (infinity included).\<close>

definition nonneg :: "f64 \<Rightarrow> bool" where
  "nonneg x = (f64_wf x \<and> f_le f_zero x)"

lemma nonneg_iff:
  "nonneg x \<longleftrightarrow> x = Inf False \<or> (\<exists>m\<ge>0. x = Fin False m) \<or> x = Fin True 0"
  by (cases x) (auto simp: nonneg_def f_le_def f_zero_def)

lemma pow2_pos: "0 < pow2 e"
  by (simp add: pow2_def)

lemma ties_even_nonneg: "0 \<le> q \<Longrightarrow> 0 \<le> ties_even q"
  by (simp add: ties_even_def Let_def)

lemma rnd_cases: "0 \<le> q \<Longrightarrow> rnd s q = Inf s \<or> (\<exists>m\<ge>0. rnd s q = Fin s m)"
proof -
  assume q: "0 \<le> q"
  let ?u = "pow2 (max (ilog2 q) (- 1022) - 52)"
  have "0 \<le> of_int (ties_even (q / ?u)) * ?u"
    using q pow2_pos [of "max (ilog2 q) (- 1022) - 52"]
    by (simp add: ties_even_nonneg)
  then show ?thesis by (auto simp: rnd_def Let_def)
qed

lemma rnd_nonneg: "0 \<le> q \<Longrightarrow> nonneg (rnd False q)"
  using rnd_cases [of q False] by (auto simp: nonneg_iff)

lemma f64_from_nonneg: "0 \<le> i \<Longrightarrow> nonneg (f64_from i)"
  by (simp add: f64_from_def nonneg_iff)

lemma f_le_trans: "f_le x y \<Longrightarrow> f_le y z \<Longrightarrow> f_le x z"
  by (cases x; cases y; cases z) (auto simp: f_le_def split: if_splits)

lemma f_le_refl: "x \<noteq> NaN \<Longrightarrow> f_le x x"
  by (cases x) (auto simp: f_le_def)

lemma f_not_lt: "x \<noteq> NaN \<Longrightarrow> y \<noteq> NaN \<Longrightarrow> \<not> f_lt x y \<longleftrightarrow> f_le y x"
  by (cases x; cases y) (auto simp: f_le_def)

lemma f_le_not_NaN: "f_le x y \<Longrightarrow> x \<noteq> NaN \<and> y \<noteq> NaN"
  by (cases x; cases y) (auto simp: f_le_def)

lemma nonneg_not_NaN: "nonneg x \<Longrightarrow> x \<noteq> NaN"
  by (auto simp: nonneg_iff)

lemma f_clamp_between:
  assumes "x \<noteq> NaN" and "f_le lo hi"
  shows "f_le lo (f_clamp x lo hi) \<and> f_le (f_clamp x lo hi) hi"
proof -
  have n: "lo \<noteq> NaN" "hi \<noteq> NaN" using f_le_not_NaN [OF assms(2)] by auto
  let ?y = "if f_lt x lo then lo else x"
  have y: "?y \<noteq> NaN" "f_le lo ?y" using assms n f_not_lt [of x lo] f_le_refl by auto
  show ?thesis
    using assms y n f_not_lt [of hi ?y] f_le_refl [of hi] by (auto simp: f_clamp_def Let_def)
qed

text \<open>Small products and quotients, evaluated.\<close>

lemma f64_examples:
  "f_mul (f64_from 16) (f64_from 230) = f64_from 3680"
  "f_div (f64_from 1) (f64_from 4) = Fin False (1 / 4)"
  "f_round (Fin False (5 / 2)) = f64_from 3"
  "f_div (f64_from 1) (f64_from 10) = Fin False (3602879701896397 / 36028797018963968)"
  by code_simp+

end
