(* ===== verification/Bounded_Store.thy ===== *)
theory Bounded_Store
  imports Kirby_Prelude
begin

text \<open>
  Several components (local list, authorization cache, profile store, offline queue) promise that
  no operation takes them past a bound.  What that promise gives over any sequence of operations is
  proved once.
\<close>

locale bounded_store =
  fixes step :: "'s \<Rightarrow> 'op \<Rightarrow> 's"
    and wf :: "'s \<Rightarrow> bool"
    and sz :: "'s \<Rightarrow> nat"
    and bound :: "'s \<Rightarrow> nat"
  assumes wf_step: "wf s \<Longrightarrow> wf (step s q)"
    and sz_step: "wf s \<Longrightarrow> sz s \<le> bound s \<Longrightarrow> sz (step s q) \<le> bound s"
    and bound_step: "wf s \<Longrightarrow> bound (step s q) = bound s"
begin

lemma run_wf: "wf s \<Longrightarrow> wf (foldl step s qs)"
  by (induction qs arbitrary: s) (auto simp: wf_step)

lemma run_bound: "wf s \<Longrightarrow> bound (foldl step s qs) = bound s"
  by (induction qs arbitrary: s) (auto simp: wf_step bound_step)

lemma run_bounded: "wf s \<Longrightarrow> sz s \<le> bound s \<Longrightarrow> sz (foldl step s qs) \<le> bound s"
  by (induction qs arbitrary: s) (auto simp: wf_step, metis bound_step sz_step wf_step)

end

end
