(* ===== verification/Charging_Profiles.thy ===== *)
theory Charging_Profiles
  imports Connector F64 Bounded_Store
begin

text \<open>
  The charging profile store (\<open>station/charging_profiles.rs\<close>) with the structural checks and the
  validity window it takes from \<open>station/smart_charging.rs\<close>: admission, replacement, the bound on
  installed profiles, clearing by filter, expiry and the binding of TxProfiles to transactions.
\<close>

subsection \<open>Profiles\<close>

record schedule_period =
  sp_start :: i32
  sp_limit :: f64
  sp_phases :: "i32 option"

record charging_schedule =
  sch_duration :: "i32 option"
  sch_start :: "instant option"
  sch_unit :: charging_rate_unit
  sch_periods :: "schedule_period list"
  sch_min_rate :: "f64 option"

record charging_profile =
  cp_id :: i32
  cp_transaction_id :: "i32 option"
  cp_stack_level :: i32
  cp_purpose :: charging_profile_purpose
  cp_kind :: charging_profile_kind
  cp_recurrency :: "recurrency_kind option"
  cp_valid_from :: "instant option"
  cp_valid_to :: "instant option"
  cp_schedule :: charging_schedule

datatype shape_error =
  NegativeStackLevel | NoPeriods | FirstPeriodNotZero | PeriodsNotIncreasing | InvalidLimit
| Shape_NonPositiveDuration

definition shape_error_of :: "charging_profile \<Rightarrow> shape_error option" where
  "shape_error_of p =
     (let schedule = cp_schedule p; periods = sch_periods schedule in
      if cp_stack_level p < 0 then Some NegativeStackLevel
      else if is_some_and (sch_duration schedule) (\<lambda>d. d \<le> 0) then Some Shape_NonPositiveDuration
      else
        (case periods of
           [] \<Rightarrow> Some NoPeriods
         | first # _ \<Rightarrow>
             if sp_start first \<noteq> 0 then Some FirstPeriodNotZero
             else if \<exists>(a, b)\<in>set (windows2 periods). sp_start b \<le> sp_start a
             then Some PeriodsNotIncreasing
             else if \<exists>q\<in>set periods. \<not> is_finite (sp_limit q) \<or> f_lt (sp_limit q) f_zero
             then Some InvalidLimit
             else None))"

definition is_valid_at :: "charging_profile \<Rightarrow> instant \<Rightarrow> bool" where
  "is_valid_at p t =
     (is_none_or (cp_valid_from p) (\<lambda>from. from \<le> t) \<and> is_none_or (cp_valid_to p) (\<lambda>to. t \<le> to))"

definition is_expired :: "charging_profile \<Rightarrow> instant \<Rightarrow> bool" where
  "is_expired p t = is_some_and (cp_valid_to p) (\<lambda>to. to < t)"

definition is_known_connector :: "connector_id \<Rightarrow> u32 \<Rightarrow> bool" where
  "is_known_connector c count = (is_station c \<or> (1 \<le> c \<and> c \<le> count))"

subsection \<open>The store\<close>

record store_limits =
  lim_max_stack_level :: i32
  lim_max_installed :: nat
  lim_max_periods :: nat
  lim_allowed_units :: "charging_rate_unit list"

definition allows_unit :: "store_limits \<Rightarrow> charging_rate_unit \<Rightarrow> bool" where
  "allows_unit l u = (u \<in> set (lim_allowed_units l))"

record profile_context =
  ctx_now :: instant
  ctx_connector_count :: u32
  ctx_active_tx :: "tx_id option"
  ctx_limits :: store_limits

record stored_profile =
  pf_connector :: connector_id
  pf_profile :: charging_profile
  pf_bound_tx :: "tx_id option"
  pf_installed_at :: "instant option"

type_synonym profile_store = "stored_profile list"

definition prune_expired :: "profile_store \<Rightarrow> instant \<Rightarrow> profile_store \<times> nat" where
  "prune_expired s now =
     (let s' = filter (\<lambda>e. \<not> is_expired (pf_profile e) now) s in (s', length s - length s'))"

definition admit ::
  "connector_id \<Rightarrow> charging_profile \<Rightarrow> profile_context \<Rightarrow> charging_profile_status + tx_id option" where
  "admit c p ctx =
     (if \<not> is_known_connector c (ctx_connector_count ctx) then Inl Prof_Rejected
      else
        let bound =
              (case cp_purpose p of
                 ChargePointMaxProfile \<Rightarrow> if \<not> is_station c then Inl Prof_Rejected else Inr None
               | TxProfile \<Rightarrow>
                   if is_station c then Inl Prof_Rejected
                   else
                     (case ctx_active_tx ctx of
                        None \<Rightarrow> Inl Prof_Rejected
                      | Some tx \<Rightarrow>
                          if is_some_and (cp_transaction_id p) (\<lambda>i. wire tx \<noteq> Some i)
                          then Inl Prof_Rejected else Inr (Some tx))
               | TxDefaultProfile \<Rightarrow> Inr None)
        in (case bound of
              Inl st \<Rightarrow> Inl st
            | Inr bound_tx \<Rightarrow>
                if shape_error_of p \<noteq> None then Inl Prof_Rejected
                else if \<not> allows_unit (ctx_limits ctx) (sch_unit (cp_schedule p)) then Inl Prof_NotSupported
                else if cp_stack_level p > lim_max_stack_level (ctx_limits ctx)
                     \<or> length (sch_periods (cp_schedule p)) > lim_max_periods (ctx_limits ctx)
                then Inl Prof_Rejected
                else Inr bound_tx))"

definition replaces :: "connector_id \<Rightarrow> charging_profile \<Rightarrow> stored_profile \<Rightarrow> bool" where
  "replaces c p e =
     (cp_id (pf_profile e) = cp_id p
      \<or> (pf_connector e = c \<and> cp_stack_level (pf_profile e) = cp_stack_level p
         \<and> cp_purpose (pf_profile e) = cp_purpose p))"

definition profile_set ::
  "profile_store \<Rightarrow> connector_id \<Rightarrow> charging_profile \<Rightarrow> profile_context
     \<Rightarrow> profile_store \<times> charging_profile_status" where
  "profile_set s c p ctx =
     (let s1 = fst (prune_expired s (ctx_now ctx)) in
      case admit c p ctx of
        Inl st \<Rightarrow> (s1, st)
      | Inr bound_tx \<Rightarrow>
          let remaining = filter (\<lambda>e. \<not> replaces c p e) s1 in
          if length remaining \<ge> lim_max_installed (ctx_limits ctx) then (s1, Prof_Rejected)
          else (remaining @ [\<lparr>pf_connector = c, pf_profile = p, pf_bound_tx = bound_tx,
                              pf_installed_at = Some (ctx_now ctx)\<rparr>], Prof_Accepted))"

definition backfill_installed_at :: "profile_store \<Rightarrow> instant \<Rightarrow> profile_store \<times> nat" where
  "backfill_installed_at s now =
     (map (\<lambda>e. if pf_installed_at e = None then e\<lparr>pf_installed_at := Some now\<rparr> else e) s,
      length (filter (\<lambda>e. pf_installed_at e = None) s))"

record clear_filter =
  cf_id :: "i32 option"
  cf_connector :: "connector_id option"
  cf_purpose :: "charging_profile_purpose option"
  cf_stack_level :: "i32 option"

definition matches_filter :: "stored_profile \<Rightarrow> clear_filter \<Rightarrow> bool" where
  "matches_filter e f =
     (is_none_or (cf_id f) (\<lambda>i. cp_id (pf_profile e) = i)
      \<and> is_none_or (cf_connector f) (\<lambda>c. pf_connector e = c)
      \<and> is_none_or (cf_purpose f) (\<lambda>p. cp_purpose (pf_profile e) = p)
      \<and> is_none_or (cf_stack_level f) (\<lambda>l. cp_stack_level (pf_profile e) = l))"

definition profile_clear ::
  "profile_store \<Rightarrow> clear_filter \<Rightarrow> instant \<Rightarrow> profile_store \<times> clear_profile_status" where
  "profile_clear s f now =
     (let s1 = fst (prune_expired s now); s2 = filter (\<lambda>e. \<not> matches_filter e f) s1 in
      (s2, if length s2 < length s1 then Clear_Accepted else Clear_Unknown))"

definition on_transaction_ended :: "profile_store \<Rightarrow> tx_id \<Rightarrow> profile_store \<times> nat" where
  "on_transaction_ended s tx =
     (let s' = filter (\<lambda>e. \<not> (cp_purpose (pf_profile e) = TxProfile \<and> pf_bound_tx e = Some tx)) s
      in (s', length s - length s'))"

subsection \<open>The invariant\<close>

definition slot :: "stored_profile \<Rightarrow> connector_id \<times> i32 \<times> charging_profile_purpose" where
  "slot e = (pf_connector e, cp_stack_level (pf_profile e), cp_purpose (pf_profile e))"

definition entry_ok :: "stored_profile \<Rightarrow> bool" where
  "entry_ok e =
     (shape_error_of (pf_profile e) = None
      \<and> (cp_purpose (pf_profile e) = ChargePointMaxProfile \<longrightarrow> is_station (pf_connector e))
      \<and> (cp_purpose (pf_profile e) = TxProfile \<longleftrightarrow> pf_bound_tx e \<noteq> None)
      \<and> (cp_purpose (pf_profile e) = TxProfile \<longrightarrow> \<not> is_station (pf_connector e)))"

text \<open>
  One profile per id, one per connector, stack level and purpose, and every entry sound.
\<close>

definition store_wf :: "profile_store \<Rightarrow> bool" where
  "store_wf s = (distinct (map (cp_id \<circ> pf_profile) s) \<and> distinct (map slot s) \<and> list_all entry_ok s)"

lemma store_wf_filter [wf_intros]: "store_wf s \<Longrightarrow> store_wf (filter P s)"
  by (auto simp: store_wf_def list_all_iff intro: distinct_map_filter)

lemma fst_prune: "fst (prune_expired s now) = filter (\<lambda>e. \<not> is_expired (pf_profile e) now) s"
  by (simp add: prune_expired_def Let_def)

lemma fst_ended: "fst (on_transaction_ended s tx)
    = filter (\<lambda>e. \<not> (cp_purpose (pf_profile e) = TxProfile \<and> pf_bound_tx e = Some tx)) s"
  by (simp add: on_transaction_ended_def Let_def)

lemma admit_entry_ok:
  "admit c p ctx = Inr b \<Longrightarrow>
   entry_ok \<lparr>pf_connector = c, pf_profile = p, pf_bound_tx = b, pf_installed_at = t\<rparr>"
  by (auto simp: admit_def entry_ok_def Let_def dest: sym
      split: if_splits sum.splits charging_profile_purpose.splits option.splits)

lemma store_wf_snoc:
  assumes "store_wf s" and "entry_ok e" and "\<forall>x\<in>set s. \<not> replaces (pf_connector e) (pf_profile e) x"
  shows "store_wf (s @ [e])"
  using assms by (auto simp: store_wf_def replaces_def slot_def)

lemma profile_set_cases:
  obtains (refused) st where "profile_set s c p ctx = (fst (prune_expired s (ctx_now ctx)), st)"
      "st \<noteq> Prof_Accepted"
  | (stored) b where "admit c p ctx = Inr b"
      "profile_set s c p ctx =
         (filter (\<lambda>e. \<not> replaces c p e) (fst (prune_expired s (ctx_now ctx)))
            @ [\<lparr>pf_connector = c, pf_profile = p, pf_bound_tx = b, pf_installed_at = Some (ctx_now ctx)\<rparr>],
          Prof_Accepted)"
      "length (filter (\<lambda>e. \<not> replaces c p e) (fst (prune_expired s (ctx_now ctx))))
         < lim_max_installed (ctx_limits ctx)"
proof (cases "admit c p ctx")
  case (Inl st)
  then have "st \<noteq> Prof_Accepted"
    by (auto simp: admit_def Let_def
        split: if_splits sum.splits charging_profile_purpose.splits option.splits)
  with Inl refused show ?thesis by (simp add: profile_set_def Let_def)
next
  case (Inr b)
  let ?rest = "filter (\<lambda>e. \<not> replaces c p e) (fst (prune_expired s (ctx_now ctx)))"
  show ?thesis
  proof (cases "length ?rest < lim_max_installed (ctx_limits ctx)")
    case True
    with Inr show ?thesis by (intro stored [of b]) (simp_all add: profile_set_def Let_def)
  next
    case False
    with Inr show ?thesis by (intro refused [of Prof_Rejected]) (simp_all add: profile_set_def Let_def)
  qed
qed

lemma store_wf_set [wf_intros]:
  assumes "store_wf s" shows "store_wf (fst (profile_set s c p ctx))"
proof (cases rule: profile_set_cases [of s c p ctx])
  case (stored b)
  have "store_wf (filter (\<lambda>e. \<not> replaces c p e) (fst (prune_expired s (ctx_now ctx)))
      @ [\<lparr>pf_connector = c, pf_profile = p, pf_bound_tx = b, pf_installed_at = Some (ctx_now ctx)\<rparr>])"
    using assms admit_entry_ok [OF stored(1)] by (intro store_wf_snoc) (auto simp: fst_prune intro: wf_intros)
  with stored show ?thesis by simp
qed (use assms in \<open>simp add: fst_prune wf_intros\<close>)

lemma store_wf_backfill [wf_intros]: "store_wf s \<Longrightarrow> store_wf (fst (backfill_installed_at s now))"
proof -
  let ?f = "\<lambda>e. if pf_installed_at e = None then e\<lparr>pf_installed_at := Some now\<rparr> else e"
  have "map slot (map ?f s) = map slot s" "map (cp_id \<circ> pf_profile) (map ?f s) = map (cp_id \<circ> pf_profile) s"
    by (auto simp: slot_def)
  moreover have "list_all entry_ok (map ?f s) = list_all entry_ok s"
    by (induction s) (auto simp: entry_ok_def)
  ultimately show "store_wf s \<Longrightarrow> store_wf (fst (backfill_installed_at s now))"
    by (simp only: store_wf_def backfill_installed_at_def fst_conv)
qed

text \<open>The operations of the store, under one set of limits.\<close>

datatype store_op =
  Op_Set connector_id charging_profile profile_context
| Op_Clear clear_filter instant
| Op_Prune instant
| Op_Ended tx_id
| Op_Backfill instant

fun store_step :: "store_limits \<Rightarrow> profile_store \<Rightarrow> store_op \<Rightarrow> profile_store" where
  "store_step l s (Op_Set c p ctx) = fst (profile_set s c p (ctx\<lparr>ctx_limits := l\<rparr>))"
| "store_step l s (Op_Clear f now) = fst (profile_clear s f now)"
| "store_step l s (Op_Prune now) = fst (prune_expired s now)"
| "store_step l s (Op_Ended tx) = fst (on_transaction_ended s tx)"
| "store_step l s (Op_Backfill now) = fst (backfill_installed_at s now)"

lemma store_wf_step: "store_wf s \<Longrightarrow> store_wf (store_step l s q)"
  by (cases q) (auto simp: profile_clear_def fst_prune fst_ended Let_def intro: wf_intros)

lemma store_step_length:
  "length s \<le> lim_max_installed l \<Longrightarrow> length (store_step l s q) \<le> lim_max_installed l"
proof (cases q)
  case (Op_Set c p ctx)
  assume s: "length s \<le> lim_max_installed l"
  show ?thesis
  proof (cases rule: profile_set_cases [of s c p "ctx\<lparr>ctx_limits := l\<rparr>"])
    case (refused st)
    with Op_Set s show ?thesis by (simp add: fst_prune) (meson length_filter_le order_trans)
  qed (use Op_Set in simp)
qed (auto simp: profile_clear_def fst_prune fst_ended backfill_installed_at_def Let_def
    intro: order_trans [OF length_filter_le] order_trans [OF length_filter_le order_trans [OF length_filter_le]])

interpretation profiles: bounded_store "store_step l" store_wf length "\<lambda>_. lim_max_installed l" for l
  by unfold_locales (simp_all add: store_wf_step store_step_length)

subsection \<open>Properties\<close>

text \<open>
  C33: whatever is set, cleared, pruned or ended, the store holds at most
  \<open>MaxChargingProfilesInstalled\<close> profiles, at most one per profile id and at most one per connector,
  stack level and purpose; every stored profile has a sound shape, a ChargePointMaxProfile sits on
  connector 0 only, and exactly the TxProfiles are bound to a transaction.
\<close>

theorem profile_store_invariant:
  assumes "s = foldl (store_step l) [] ops"
  shows "store_wf s \<and> length s \<le> lim_max_installed l"
proof -
  have "store_wf []" by (simp add: store_wf_def)
  from profiles.run_wf [OF this] profiles.run_bounded [OF this] assms show ?thesis by simp
qed


text \<open>
  The end of a transaction removes exactly the TxProfiles bound to it, says how many, and leaves no
  profile of a well-formed store bound to that transaction.
\<close>

theorem transaction_end_unbinds:
  assumes "store_wf s" and "on_transaction_ended s tx = (s', n)"
  shows "(\<forall>e\<in>set s'. pf_bound_tx e \<noteq> Some tx)
    \<and> set s' = {e \<in> set s. pf_bound_tx e \<noteq> Some tx} \<and> length s' + n = length s \<and> store_wf s'"
proof -
  have s': "s' = filter (\<lambda>e. \<not> (cp_purpose (pf_profile e) = TxProfile \<and> pf_bound_tx e = Some tx)) s"
    and n: "n = length s - length s'"
    using assms(2) by (auto simp: on_transaction_ended_def Let_def)
  have "cp_purpose (pf_profile e) = TxProfile" if "e \<in> set s" "pf_bound_tx e = Some tx" for e
    using assms(1) that by (auto simp: store_wf_def list_all_iff entry_ok_def)
  then show ?thesis
    using assms(1) n by (auto simp: s' store_wf_filter)
qed

text \<open>
  \<open>ClearChargingProfile\<close> removes exactly the live profiles that satisfy every criterion given, and
  answers \<open>Accepted\<close> exactly when there was one; without criteria it empties the store.
\<close>

theorem profile_clear_correct:
  assumes "profile_clear s f now = (s', st)"
  shows "s' = filter (\<lambda>e. \<not> is_expired (pf_profile e) now \<and> \<not> matches_filter e f) s
    \<and> (st = Clear_Accepted \<longleftrightarrow> (\<exists>e\<in>set s. \<not> is_expired (pf_profile e) now \<and> matches_filter e f))
    \<and> (cf_id f = None \<and> cf_connector f = None \<and> cf_purpose f = None \<and> cf_stack_level f = None \<longrightarrow> s' = [])"
proof -
  let ?s = "filter (\<lambda>e. \<not> is_expired (pf_profile e) now) s"
  have s': "s' = filter (\<lambda>e. \<not> matches_filter e f) ?s"
    and st: "st = Clear_Accepted \<longleftrightarrow> length s' < length ?s"
    using assms by (auto simp: profile_clear_def fst_prune Let_def split: if_splits)
  have "length (filter P xs) < length xs \<longleftrightarrow> (\<exists>e\<in>set xs. \<not> P e)" for P and xs :: profile_store
    using length_filter_less [of _ xs P] filter_id_conv [of P xs] by (metis less_irrefl)
  from this [of "\<lambda>e. \<not> matches_filter e f" ?s]
  have "length (filter (\<lambda>e. \<not> matches_filter e f) ?s) < length ?s \<longleftrightarrow> (\<exists>e\<in>set ?s. matches_filter e f)"
    by simp
  then show ?thesis
    using st s' by (auto simp: matches_filter_def filter_empty_conv)
qed

definition demo_profile :: charging_profile where
  "demo_profile = \<lparr>cp_id = 1, cp_transaction_id = Some 9, cp_stack_level = 0, cp_purpose = TxProfile,
     cp_kind = Relative, cp_recurrency = None, cp_valid_from = None, cp_valid_to = None,
     cp_schedule = \<lparr>sch_duration = None, sch_start = None, sch_unit = Unit_A,
       sch_periods = [\<lparr>sp_start = 0, sp_limit = f64_from 16, sp_phases = None\<rparr>], sch_min_rate = None\<rparr>\<rparr>"

definition demo_ctx :: profile_context where
  "demo_ctx = \<lparr>ctx_now = 0, ctx_connector_count = 1, ctx_active_tx = Some (Csms 9),
     ctx_limits = \<lparr>lim_max_stack_level = 3, lim_max_installed = 2, lim_max_periods = 4,
       lim_allowed_units = [Unit_A]\<rparr>\<rparr>"

definition demo_store :: profile_store where
  "demo_store = [\<lparr>pf_connector = 1, pf_profile = demo_profile, pf_bound_tx = Some (Csms 9),
     pf_installed_at = Some 0\<rparr>]"

lemma demo_set: "profile_set [] 1 demo_profile demo_ctx = (demo_store, Prof_Accepted)"
  by code_simp

lemma demo_store_wf: "store_wf demo_store"
proof -
  have "store_wf (fst (profile_set [] 1 demo_profile demo_ctx))"
    by (rule store_wf_set) (simp add: store_wf_def)
  then show ?thesis unfolding demo_set by simp
qed

theorem profile_store_invariant_witness:
  "length (foldl (store_step (ctx_limits demo_ctx)) [] [Op_Set 1 demo_profile demo_ctx, Op_Prune 5]) \<le> 2"
  using profile_store_invariant [OF refl, of "ctx_limits demo_ctx" "[Op_Set 1 demo_profile demo_ctx, Op_Prune 5]"]
  by (simp add: demo_ctx_def)


theorem transaction_end_unbinds_witness:
  "fst (on_transaction_ended demo_store (Csms 9)) = []"
proof -
  have "set (fst (on_transaction_ended demo_store (Csms 9)))
      = {e \<in> set demo_store. pf_bound_tx e \<noteq> Some (Csms 9)}"
    using transaction_end_unbinds [OF demo_store_wf prod.collapse [symmetric]] by blast
  also have "\<dots> = {}" by (auto simp: demo_store_def)
  finally show ?thesis by simp
qed

theorem profile_clear_correct_witness:
  "fst (profile_clear demo_store \<lparr>cf_id = None, cf_connector = None, cf_purpose = None, cf_stack_level = None\<rparr> 7) = []"
  using profile_clear_correct [OF prod.collapse [symmetric], of demo_store
      "\<lparr>cf_id = None, cf_connector = None, cf_purpose = None, cf_stack_level = None\<rparr>" 7]
  by auto

end
