(* ===== verification/Smart_Charging.thy ===== *)
theory Smart_Charging
  imports Charging_Profiles "HOL-Library.Product_Lexorder"
begin

text \<open>
  Smart charging (\<open>station/smart_charging.rs\<close>) and the power model of \<open>station/metering.rs\<close>: which
  period of a profile is in force at an instant, where that can change, the precedence between
  profiles, the composite schedule, and the power and energy of a charging connector.

  Instants are nanoseconds.  The date library is not part of the program: its checked addition of a
  number of milliseconds is the parameter \<open>add\<close> (\<open>TimeDelta::try_milliseconds\<close> followed by
  \<open>checked_add_signed\<close>), and \<open>TimeDelta::as_seconds_f64\<close> is the parameter \<open>secs_f64\<close>.
\<close>

definition DAY_SECONDS :: i64 where
  "DAY_SECONDS = 86400"

definition WEEK_SECONDS :: i64 where
  "WEEK_SECONDS = 604800"

definition MAX_COMPOSITE_DURATION_S :: i32 where
  "MAX_COMPOSITE_DURATION_S = 604800"

definition MAX_COMPOSITE_PERIODS :: nat where
  "MAX_COMPOSITE_PERIODS = 1000"

text \<open>\<open>TimeDelta::num_milliseconds\<close>: whole milliseconds, towards zero.\<close>

definition num_ms :: "int \<Rightarrow> i64" where
  "num_ms d = trunc_div d ns_per_ms"

definition sat_i64 :: "int \<Rightarrow> i64" where
  "sat_i64 i = max (- i64_max - 1) (min i i64_max)"

subsection \<open>One profile\<close>

definition recurrence_period_ms :: "charging_profile \<Rightarrow> i64 option" where
  "recurrence_period_ms p =
     (if cp_kind p \<noteq> Recurring then None
      else Some ((case cp_recurrency p of Some Weekly \<Rightarrow> WEEK_SECONDS | _ \<Rightarrow> DAY_SECONDS) * 1000))"

definition schedule_base ::
  "charging_profile \<Rightarrow> instant option \<Rightarrow> instant option \<Rightarrow> instant \<Rightarrow> instant" where
  "schedule_base p relative_start installed_at fallback_start =
     (case cp_kind p of
        Relative \<Rightarrow> unwrap_or relative_start fallback_start
      | _ \<Rightarrow> unwrap_or (option_or (option_or (sch_start (cp_schedule p)) (cp_valid_from p)) installed_at)
               fallback_start)"

definition period_at :: "charging_profile \<Rightarrow> instant \<Rightarrow> instant \<Rightarrow> schedule_period option" where
  "period_at p t base =
     (if \<not> is_valid_at p t \<or> t < base then None
      else
        let elapsed = num_ms (t - base);
            elapsed_ms = (case recurrence_period_ms p of None \<Rightarrow> elapsed | Some cycle \<Rightarrow> elapsed mod cycle)
        in if is_some_and (sch_duration (cp_schedule p)) (\<lambda>d. d * 1000 \<le> elapsed_ms) then None
           else max_by_key sp_start
                  (filter (\<lambda>q. sp_start q * 1000 \<le> elapsed_ms) (sch_periods (cp_schedule p))))"

definition cycle_candidates ::
  "(instant \<Rightarrow> i64 \<Rightarrow> instant option) \<Rightarrow> charging_schedule \<Rightarrow> instant \<Rightarrow> instant option list" where
  "cycle_candidates add schedule start =
     map (\<lambda>q. add start (sp_start q * 1000)) (sch_periods schedule)
     @ [Option.bind (sch_duration schedule) (\<lambda>d. add start (d * 1000))]"

definition change_instants ::
  "(instant \<Rightarrow> i64 \<Rightarrow> instant option) \<Rightarrow> charging_profile \<Rightarrow> instant \<Rightarrow> instant \<Rightarrow> instant \<Rightarrow> instant list" where
  "change_instants add p base from until =
     (let schedule = cp_schedule p;
          candidates = [cp_valid_from p, cp_valid_to p, Some base] @
            (case recurrence_period_ms p of
               Some cycle_ms \<Rightarrow>
                 concat (map (\<lambda>cycle.
                     case add base (sat_i64 (cycle * cycle_ms)) of
                       None \<Rightarrow> []
                     | Some cycle_start \<Rightarrow> cycle_candidates add schedule cycle_start)
                   [num_ms (from - base) div cycle_ms - 1 .. num_ms (until - base) div cycle_ms + 1])
             | None \<Rightarrow> cycle_candidates add schedule base)
      in filter (\<lambda>i. from \<le> i \<and> i \<le> until) (List.map_filter id candidates))"

subsection \<open>Precedence\<close>

record resolved =
  rs_limit :: f64
  rs_phases :: "i32 option"
  rs_min_rate :: "f64 option"

record candidate =
  cd_entry :: stored_profile
  cd_period :: schedule_period
  cd_limit :: f64
  cd_rank :: "i32 \<times> bool"

definition keep_higher :: "candidate option \<Rightarrow> candidate \<Rightarrow> candidate" where
  "keep_higher best c =
     (case best of Some b \<Rightarrow> if cd_rank c \<le> cd_rank b then b else c | None \<Rightarrow> c)"

definition max_option :: "f64 option \<Rightarrow> f64 option \<Rightarrow> f64 option" where
  "max_option left right =
     (case (left, right) of
        (Some a, Some b) \<Rightarrow> Some (if f_le b a then a else b)
      | (a, None) \<Rightarrow> a
      | (None, b) \<Rightarrow> b)"

definition min_option :: "i32 option \<Rightarrow> i32 option \<Rightarrow> i32 option" where
  "min_option left right =
     (case (left, right) of (Some a, Some b) \<Rightarrow> Some (min a b) | (a, None) \<Rightarrow> a | (None, b) \<Rightarrow> b)"

type_synonym usable = "(stored_profile \<times> instant) list"
type_synonym limit_of = "stored_profile \<Rightarrow> schedule_period \<Rightarrow> f64"

text \<open>The candidate an entry contributes at an instant, and the three running winners.\<close>

definition candidate_at ::
  "connector_id \<Rightarrow> instant \<Rightarrow> limit_of \<Rightarrow> stored_profile \<times> instant \<Rightarrow> candidate option" where
  "candidate_at c t limit_of eb =
     map_option (\<lambda>period.
         \<lparr>cd_entry = fst eb, cd_period = period, cd_limit = limit_of (fst eb) period,
          cd_rank = (cp_stack_level (pf_profile (fst eb)), pf_connector (fst eb) = c)\<rparr>)
       (period_at (pf_profile (fst eb)) t (snd eb))"

definition resolve_step ::
  "connector_id \<Rightarrow> tx_id option \<Rightarrow> instant \<Rightarrow> limit_of
   \<Rightarrow> candidate option \<times> candidate option \<times> candidate option \<Rightarrow> stored_profile \<times> instant
   \<Rightarrow> candidate option \<times> candidate option \<times> candidate option" where
  "resolve_step c active_tx t limit_of best eb =
     (case best of (tx_best, default_best, cap_best) \<Rightarrow>
        (case candidate_at c t limit_of eb of
           None \<Rightarrow> best
         | Some cand \<Rightarrow>
             (case cp_purpose (pf_profile (fst eb)) of
                TxProfile \<Rightarrow>
                  if pf_connector (fst eb) = c \<and> active_tx \<noteq> None \<and> pf_bound_tx (fst eb) = active_tx
                  then (Some (keep_higher tx_best cand), default_best, cap_best) else best
              | TxDefaultProfile \<Rightarrow> (tx_best, Some (keep_higher default_best cand), cap_best)
              | ChargePointMaxProfile \<Rightarrow>
                  if is_station (pf_connector (fst eb))
                  then (tx_best, default_best, Some (keep_higher cap_best cand)) else best)))"

definition min_rate_of :: "candidate \<Rightarrow> f64 option" where
  "min_rate_of cand = sch_min_rate (cp_schedule (pf_profile (cd_entry cand)))"

definition combine :: "candidate option \<Rightarrow> candidate option \<Rightarrow> resolved option" where
  "combine selected cap_best =
     (let min_rate = foldl (\<lambda>acc cand. max_option acc (min_rate_of cand)) None
            ((case selected of None \<Rightarrow> [] | Some x \<Rightarrow> [x]) @ (case cap_best of None \<Rightarrow> [] | Some x \<Rightarrow> [x]))
      in (case (selected, cap_best) of
            (None, None) \<Rightarrow> None
          | (Some only, None) \<Rightarrow>
              Some \<lparr>rs_limit = cd_limit only, rs_phases = sp_phases (cd_period only), rs_min_rate = min_rate\<rparr>
          | (None, Some only) \<Rightarrow>
              Some \<lparr>rs_limit = cd_limit only, rs_phases = sp_phases (cd_period only), rs_min_rate = min_rate\<rparr>
          | (Some profile, Some cap) \<Rightarrow>
              Some (case partial_cmp (cd_limit profile) (cd_limit cap) of
                 Some Less \<Rightarrow> \<lparr>rs_limit = cd_limit profile, rs_phases = sp_phases (cd_period profile),
                                rs_min_rate = min_rate\<rparr>
               | Some Greater \<Rightarrow> \<lparr>rs_limit = cd_limit cap, rs_phases = sp_phases (cd_period cap),
                                   rs_min_rate = min_rate\<rparr>
               | _ \<Rightarrow> \<lparr>rs_limit = cd_limit profile,
                        rs_phases = min_option (sp_phases (cd_period profile)) (sp_phases (cd_period cap)),
                        rs_min_rate = min_rate\<rparr>)))"

definition resolve_at ::
  "usable \<Rightarrow> connector_id \<Rightarrow> tx_id option \<Rightarrow> instant \<Rightarrow> limit_of \<Rightarrow> resolved option" where
  "resolve_at usable c active_tx t limit_of =
     (case foldl (resolve_step c active_tx t limit_of) (None, None, None) usable of
        (tx_best, default_best, cap_best) \<Rightarrow> combine (option_or tx_best default_best) cap_best)"

subsection \<open>The power model\<close>

record power_model =
  pm_nominal_w :: f64
  pm_voltage_v :: f64
  pm_phases :: nat

definition period_phases :: "power_model \<Rightarrow> i32 option \<Rightarrow> f64" where
  "period_phases m number_phases =
     (let station = int (pm_phases m) in
      f64_from (case number_phases of None \<Rightarrow> station | Some n \<Rightarrow> max 1 (min n station)))"

definition amps_to_watts :: "power_model \<Rightarrow> f64 \<Rightarrow> i32 option \<Rightarrow> f64" where
  "amps_to_watts m amps number_phases = f_mul (f_mul amps (pm_voltage_v m)) (period_phases m number_phases)"

definition watts_to_amps :: "power_model \<Rightarrow> f64 \<Rightarrow> f64" where
  "watts_to_amps m watts = f_div watts (f_mul (pm_voltage_v m) (f64_from (int (pm_phases m))))"

definition effective_w :: "power_model \<Rightarrow> f64 option \<Rightarrow> f64" where
  "effective_w m limit_w =
     (case limit_w of None \<Rightarrow> pm_nominal_w m | Some limit \<Rightarrow> f_clamp limit f_zero (pm_nominal_w m))"

definition round_tenth :: "f64 \<Rightarrow> f64" where
  "round_tenth v = f_div (f_round (f_mul v (f64_from 10))) (f64_from 10)"

subsection \<open>The composite schedule\<close>

record composite_request =
  cq_connector :: connector_id
  cq_duration_s :: i32
  cq_unit :: "charging_rate_unit option"
  cq_now :: instant
  cq_connector_count :: u32
  cq_active_tx :: "tx_id option"
  cq_tx_started_at :: "instant option"
  cq_model :: power_model

record composite =
  cc_connector :: connector_id
  cc_schedule_start :: instant
  cc_schedule :: charging_schedule

datatype composite_error = UnknownConnector connector_id | NonPositiveDuration | NoSchedule

text \<open>\<open>timestamp_subsec_millis\<close> is the millisecond part of the instant.\<close>

definition truncate_to_second :: "instant \<Rightarrow> instant" where
  "truncate_to_second t = t - ((t mod ns_per_s) div ns_per_ms) * ns_per_ms"

definition unit_priority :: "composite_request \<Rightarrow> instant \<Rightarrow> stored_profile \<Rightarrow> (nat \<times> i32) option" where
  "unit_priority req start e =
     (let cls =
        (case cp_purpose (pf_profile e) of
           TxProfile \<Rightarrow>
             if pf_connector e \<noteq> cq_connector req \<or> \<not> (cq_active_tx req \<noteq> None \<and> pf_bound_tx e = cq_active_tx req)
             then None else Some 2
         | TxDefaultProfile \<Rightarrow>
             if pf_connector e \<noteq> cq_connector req \<and> \<not> is_station (pf_connector e) then None else Some 1
         | ChargePointMaxProfile \<Rightarrow> if \<not> is_station (pf_connector e) then None else Some 0)
      in (case cls of
            None \<Rightarrow> None
          | Some k \<Rightarrow> if is_valid_at (pf_profile e) start then Some (k, cp_stack_level (pf_profile e)) else None))"

definition default_unit :: "profile_store \<Rightarrow> composite_request \<Rightarrow> instant \<Rightarrow> charging_rate_unit" where
  "default_unit entries req start =
     (case max_by_key fst
             (List.map_filter (\<lambda>e. map_option (\<lambda>k. (k, e)) (unit_priority req start e)) entries) of
        None \<Rightarrow> Unit_A
      | Some (_, e) \<Rightarrow> sch_unit (cp_schedule (pf_profile e)))"

definition usable_profiles ::
  "profile_store \<Rightarrow> composite_request \<Rightarrow> charging_rate_unit \<Rightarrow> instant \<Rightarrow> usable" where
  "usable_profiles entries req unit start =
     map (\<lambda>e. (e, schedule_base (pf_profile e) (cq_tx_started_at req) (pf_installed_at e) start))
       (filter (\<lambda>e. pf_connector e = cq_connector req \<or> is_station (pf_connector e))
         (filter (\<lambda>e. sch_unit (cp_schedule (pf_profile e)) = unit) entries))"

text \<open>The whole seconds, relative to the start, at which the state may change.\<close>

definition change_offsets ::
  "(instant \<Rightarrow> i64 \<Rightarrow> instant option) \<Rightarrow> usable \<Rightarrow> instant \<Rightarrow> i32 \<Rightarrow> i64 list" where
  "change_offsets add usable start duration_s =
     sort (remdups (filter (\<lambda>o'. 0 \<le> o' \<and> o' * 1000 < duration_s * 1000)
       (0 # concat (map (\<lambda>(e, base).
          concat (map (\<lambda>i. let ms = num_ms (i - start) in [(ms + 999) div 1000, ms div 1000 + 1])
            (change_instants add (pf_profile e) base start (start + duration_s * ns_per_s)))) usable))))"

definition shown :: "f64 \<Rightarrow> resolved option \<Rightarrow> f64 \<times> i32 option" where
  "shown station_limit r =
     (case r of Some x \<Rightarrow> (rs_limit x, rs_phases x) | None \<Rightarrow> (station_limit, None))"

definition push_period ::
  "schedule_period list \<Rightarrow> i64 \<times> f64 \<times> i32 option \<Rightarrow> schedule_period list" where
  "push_period periods point =
     (case point of (offset, limit, number_phases) \<Rightarrow>
        if periods \<noteq> [] \<and> same_bits (sp_limit (last periods)) limit
           \<and> sp_phases (last periods) = number_phases
        then periods
        else periods @ [\<lparr>sp_start = min offset i32_max, sp_limit = limit, sp_phases = number_phases\<rparr>])"

definition station_limit :: "power_model \<Rightarrow> charging_rate_unit \<Rightarrow> f64" where
  "station_limit m unit =
     (case unit of
        Unit_W \<Rightarrow> pm_nominal_w m
      | Unit_A \<Rightarrow> round_tenth (watts_to_amps m (pm_nominal_w m)))"

definition composite_schedule ::
  "(instant \<Rightarrow> i64 \<Rightarrow> instant option) \<Rightarrow> profile_store \<Rightarrow> composite_request \<Rightarrow> composite_error + composite" where
  "composite_schedule add entries req =
     (if \<not> is_known_connector (cq_connector req) (cq_connector_count req)
      then Inl (UnknownConnector (cq_connector req))
      else if cq_duration_s req \<le> 0 then Inl NonPositiveDuration
      else
        let duration_s = min (cq_duration_s req) MAX_COMPOSITE_DURATION_S;
            start = truncate_to_second (cq_now req);
            unit = (case cq_unit req of Some u \<Rightarrow> u | None \<Rightarrow> default_unit entries req start);
            usable = usable_profiles entries req unit start
        in if usable = [] then Inl NoSchedule
           else
             let points = map (\<lambda>o'. (o', resolve_at usable (cq_connector req) (cq_active_tx req)
                                (start + o' * ns_per_s) (\<lambda>_ p. sp_limit p)))
                            (change_offsets add usable start duration_s)
             in if \<forall>pt\<in>set points. snd pt = None then Inl NoSchedule
                else
                  let limit = station_limit (cq_model req) unit;
                      periods = foldl push_period [] (map (\<lambda>(o', r). (o', shown limit r)) points);
                      min_rate = foldl (\<lambda>acc pt. case snd pt of
                          None \<Rightarrow> acc | Some r \<Rightarrow> max_option acc (rs_min_rate r)) None points;
                      duration = (if length periods > MAX_COMPOSITE_PERIODS
                                  then min (sp_start (periods ! MAX_COMPOSITE_PERIODS)) duration_s
                                  else duration_s)
                  in Inr \<lparr>cc_connector = cq_connector req, cc_schedule_start = start,
                          cc_schedule = \<lparr>sch_duration = Some duration, sch_start = Some start,
                            sch_unit = unit, sch_periods = take MAX_COMPOSITE_PERIODS periods,
                            sch_min_rate = min_rate\<rparr>\<rparr>)"

text \<open>The store's entry point: expired profiles are pruned first.\<close>

definition store_composite_schedule ::
  "(instant \<Rightarrow> i64 \<Rightarrow> instant option) \<Rightarrow> profile_store \<Rightarrow> composite_request
     \<Rightarrow> profile_store \<times> (composite_error + composite)" where
  "store_composite_schedule add s req =
     (let s' = fst (prune_expired s (cq_now req)) in (s', composite_schedule add s' req))"

subsection \<open>Power and energy\<close>

record power_request =
  pq_connector :: connector_id
  pq_active_tx :: "tx_id option"
  pq_tx_started_at :: "instant option"
  pq_model :: power_model
  pq_charging_connectors :: u32

definition power_profiles :: "profile_store \<Rightarrow> power_request \<Rightarrow> instant \<Rightarrow> usable" where
  "power_profiles entries req fallback_start =
     map (\<lambda>e. (e, schedule_base (pf_profile e) (pq_tx_started_at req) (pf_installed_at e) fallback_start))
       (filter (\<lambda>e. pf_connector e = pq_connector req \<or> is_station (pf_connector e)) entries)"

definition power_limit_of :: "power_request \<Rightarrow> limit_of" where
  "power_limit_of req e period =
     (let share = f64_from (int (max (pq_charging_connectors req) 1));
          watts = (case sch_unit (cp_schedule (pf_profile e)) of
                     Unit_W \<Rightarrow> sp_limit period
                   | Unit_A \<Rightarrow> amps_to_watts (pq_model req) (sp_limit period) (sp_phases period))
      in if cp_purpose (pf_profile e) = ChargePointMaxProfile then f_div watts share else watts)"

definition limit_w_resolved :: "usable \<Rightarrow> power_request \<Rightarrow> instant \<Rightarrow> f64 option" where
  "limit_w_resolved usable req t =
     map_option rs_limit (resolve_at usable (pq_connector req) (pq_active_tx req) t (power_limit_of req))"

definition limit_w_at :: "profile_store \<Rightarrow> power_request \<Rightarrow> instant \<Rightarrow> f64 option" where
  "limit_w_at entries req t = limit_w_resolved (power_profiles entries req t) req t"

definition energy_wh ::
  "(instant \<Rightarrow> i64 \<Rightarrow> instant option) \<Rightarrow> (int \<Rightarrow> f64) \<Rightarrow> profile_store \<Rightarrow> power_request
     \<Rightarrow> instant \<Rightarrow> instant \<Rightarrow> f64" where
  "energy_wh add secs_f64 entries req from to =
     (if to \<le> from then f_zero
      else
        let usable = power_profiles entries req from;
            cuts = sort (remdups ([from, to] @ concat (map (\<lambda>(e, base).
                     change_instants add (pf_profile e) base from to) usable)))
        in foldl f_add (Fin True 0)
             (map (\<lambda>(a, b).
                let span = b - a;
                    middle = a + trunc_div span 2;
                    power = effective_w (pq_model req) (limit_w_resolved usable req middle)
                in f_div (f_mul power (secs_f64 span)) (f64_from 3600)) (windows2 cuts)))"

end
