(* ===== verification/Btree_Map.thy ===== *)
theory Btree_Map
  imports Kirby_Prelude
begin

text \<open>
  The maps of Rust's standard library (\<open>BTreeMap\<close>) as association lists ordered by key, with the
  operations the station uses: \<open>new\<close>, \<open>get\<close>, \<open>contains_key\<close>, \<open>insert\<close>, \<open>remove\<close>, \<open>len\<close>
  and iteration in key order.  The locale \<open>keyed_store\<close> states what a client may rely on; it is
  interpreted on these operations, and the clients' lemmas (a sequence of edits in which the
  last edit of a key wins) are proved once inside it.
\<close>

type_synonym ('k, 'v) btree = "('k \<times> 'v) list"

definition bt_empty :: "('k, 'v) btree" where
  "bt_empty = []"

fun bt_get :: "('k::linorder, 'v) btree \<Rightarrow> 'k \<Rightarrow> 'v option" where
  "bt_get [] k = None"
| "bt_get ((a, b) # m) k = (if k = a then Some b else bt_get m k)"

fun bt_insert :: "'k::linorder \<Rightarrow> 'v \<Rightarrow> ('k, 'v) btree \<Rightarrow> ('k, 'v) btree" where
  "bt_insert k v [] = [(k, v)]"
| "bt_insert k v ((a, b) # m) =
     (if k < a then (k, v) # (a, b) # m
      else if k = a then (k, v) # m
      else (a, b) # bt_insert k v m)"

fun bt_remove :: "'k::linorder \<Rightarrow> ('k, 'v) btree \<Rightarrow> ('k, 'v) btree" where
  "bt_remove k [] = []"
| "bt_remove k ((a, b) # m) = (if k = a then m else (a, b) # bt_remove k m)"

definition bt_contains :: "('k::linorder, 'v) btree \<Rightarrow> 'k \<Rightarrow> bool" where
  "bt_contains m k = (bt_get m k \<noteq> None)"

definition bt_wf :: "('k::linorder, 'v) btree \<Rightarrow> bool" where
  "bt_wf m = sorted_wrt (<) (map fst m)"

lemma bt_wf_Nil [simp]: "bt_wf []"
  by (simp add: bt_wf_def)

lemma bt_wf_Cons [simp]: "bt_wf ((a, b) # m) \<longleftrightarrow> (\<forall>x\<in>set m. a < fst x) \<and> bt_wf m"
  by (auto simp: bt_wf_def)

lemma bt_get_None_iff: "bt_get m k = None \<longleftrightarrow> k \<notin> fst ` set m"
  by (induction m) force+

lemma bt_get_SomeD: "bt_get m k = Some v \<Longrightarrow> (k, v) \<in> set m"
  by (induction m) (auto split: if_splits)

lemma bt_get_in_set: "bt_wf m \<Longrightarrow> (k, v) \<in> set m \<Longrightarrow> bt_get m k = Some v"
  by (induction m) force+

lemma bt_get_insert: "bt_get (bt_insert k v m) q = (if q = k then Some v else bt_get m q)"
  by (induction m) auto

lemma bt_get_remove: "bt_wf m \<Longrightarrow> bt_get (bt_remove k m) q = (if q = k then None else bt_get m q)"
proof (induction m)
  case (Cons ab m)
  obtain a b where ab: "ab = (a, b)" by force
  from Cons.prems ab have "a \<notin> fst ` set m" by auto
  then have "bt_get m a = None" by (simp add: bt_get_None_iff)
  with Cons ab show ?case by auto
qed simp

lemma set_bt_insert: "set (bt_insert k v m) \<subseteq> insert (k, v) (set m)"
  by (induction m) (auto split: if_splits)

lemma set_bt_remove: "set (bt_remove k m) \<subseteq> set m"
  by (induction m) (auto split: if_splits)

lemma bt_wf_insert [wf_intros]: "bt_wf m \<Longrightarrow> bt_wf (bt_insert k v m)"
proof (induction m)
  case (Cons ab m)
  obtain a b where ab: "ab = (a, b)" by force
  from Cons.prems ab show ?case using Cons.IH set_bt_insert [of k v m] by fastforce
qed simp

lemma bt_wf_remove [wf_intros]: "bt_wf m \<Longrightarrow> bt_wf (bt_remove k m)"
proof (induction m)
  case (Cons ab m)
  obtain a b where ab: "ab = (a, b)" by force
  from Cons.prems ab show ?case using Cons.IH set_bt_remove [of k m] by auto
qed simp

lemma length_bt_insert:
  "bt_wf m \<Longrightarrow> length (bt_insert k v m) = (if bt_contains m k then length m else Suc (length m))"
proof (induction m)
  case (Cons ab m)
  obtain a b where ab: "ab = (a, b)" by force
  show ?case
  proof (cases "k < a")
    case True
    with Cons.prems ab have "k \<notin> fst ` set (ab # m)" by auto
    then have "\<not> bt_contains (ab # m) k" by (simp add: bt_contains_def bt_get_None_iff)
    with ab True show ?thesis by simp
  qed (use Cons ab in \<open>auto simp: bt_contains_def\<close>)
qed (simp add: bt_contains_def)

lemma length_bt_remove:
  "length (bt_remove k m) = (if bt_contains m k then length m - 1 else length m)"
proof (induction m)
  case (Cons ab m)
  obtain a b where ab: "ab = (a, b)" by force
  have "bt_contains m k \<Longrightarrow> 0 < length m" by (cases m) (auto simp: bt_contains_def)
  with Cons ab show ?case by (auto simp: bt_contains_def)
qed (simp add: bt_contains_def)

subsection \<open>The interface\<close>

locale keyed_store =
  fixes get :: "'m \<Rightarrow> 'k \<Rightarrow> 'v option"
    and ins :: "'k \<Rightarrow> 'v \<Rightarrow> 'm \<Rightarrow> 'm"
    and del :: "'k \<Rightarrow> 'm \<Rightarrow> 'm"
    and wf :: "'m \<Rightarrow> bool"
  assumes get_ins: "wf m \<Longrightarrow> get (ins k v m) q = (if q = k then Some v else get m q)"
    and get_del: "wf m \<Longrightarrow> get (del k m) q = (if q = k then None else get m q)"
    and wf_ins: "wf m \<Longrightarrow> wf (ins k v m)"
    and wf_del: "wf m \<Longrightarrow> wf (del k m)"
begin

lemma edit_wf: "wf m \<Longrightarrow> wf (case v of None \<Rightarrow> del k m | Some x \<Rightarrow> ins k x m)"
  by (auto simp: wf_ins wf_del split: option.split)

lemma edits_wf:
  "wf m \<Longrightarrow> wf (foldl (\<lambda>m (k, v). case v of None \<Rightarrow> del k m | Some x \<Rightarrow> ins k x m) m es)"
  by (induction es arbitrary: m) (auto simp: wf_ins wf_del split: option.split)

text \<open>After a sequence of edits the last edit of a key decides; other keys keep their value.\<close>

lemma edits_get:
  "wf m \<Longrightarrow>
   get (foldl (\<lambda>m (k, v). case v of None \<Rightarrow> del k m | Some x \<Rightarrow> ins k x m) m es) q =
   (case map_of (rev es) q of None \<Rightarrow> get m q | Some v \<Rightarrow> v)"
proof (induction es arbitrary: m)
  case (Cons e es)
  obtain k v where e: "e = (k, v)" by force
  let ?m = "case v of None \<Rightarrow> del k m | Some x \<Rightarrow> ins k x m"
  have "wf ?m" using Cons.prems by (rule edit_wf)
  moreover have "get ?m q = (if q = k then v else get m q)"
    using Cons.prems by (auto simp: get_ins get_del split: option.split)
  ultimately show ?case
    using Cons.IH [of ?m] e by (auto simp: map_add_def split: option.split)
qed simp

end

interpretation bt: keyed_store bt_get bt_insert bt_remove bt_wf
  by unfold_locales (auto simp: bt_get_insert bt_get_remove intro: wf_intros)

end
