(* ===== verification/Ocpp_Frame.thy ===== *)
theory Ocpp_Frame
  imports Connector F64 Btree_Map
begin

text \<open>
  OCPP-J frames (\<open>ocpp/frame.rs\<close>): the message types, the error codes, encoding a frame as a JSON
  array and the strict decoding of one, the FormationViolation reply to a broken CALL, and the
  redaction of secrets in recorded frames.  \<open>json\<close> is \<open>serde_json::Value\<close>; its text form is
  \<open>serde_json\<close>'s and enters as the functions \<open>parse_json\<close> and \<open>print_json\<close>.
\<close>

subsection \<open>JSON values\<close>

datatype number = PosInt u64 | NegInt i64 | Float f64

datatype json =
  JNull
| JBool bool
| JNumber number
| JString string
| JArray "json list"
| JObject "(string \<times> json) list"

fun as_str :: "json \<Rightarrow> string option" where
  "as_str (JString s) = Some s"
| "as_str _ = None"

fun json_u64 :: "json \<Rightarrow> u64 option" where
  "json_u64 (JNumber (PosInt n)) = Some n"
| "json_u64 _ = None"

fun as_object :: "json \<Rightarrow> (string \<times> json) list option" where
  "as_object (JObject m) = Some m"
| "as_object _ = None"

fun is_object :: "json \<Rightarrow> bool" where
  "is_object (JObject _) = True"
| "is_object _ = False"

subsection \<open>Error codes\<close>

datatype error_code =
  NotImplemented | Err_NotSupported | Err_InternalError | ProtocolError | SecurityError
| FormationViolation | PropertyConstraintViolation | OccurenceConstraintViolation
| TypeConstraintViolation | GenericError | Err_Other string

definition STANDARD :: "error_code list" where
  "STANDARD =
     [NotImplemented, Err_NotSupported, Err_InternalError, ProtocolError, SecurityError,
      FormationViolation, PropertyConstraintViolation, OccurenceConstraintViolation,
      TypeConstraintViolation, GenericError]"

fun code_str :: "error_code \<Rightarrow> string" where
  "code_str NotImplemented = ''NotImplemented''"
| "code_str Err_NotSupported = ''NotSupported''"
| "code_str Err_InternalError = ''InternalError''"
| "code_str ProtocolError = ''ProtocolError''"
| "code_str SecurityError = ''SecurityError''"
| "code_str FormationViolation = ''FormationViolation''"
| "code_str PropertyConstraintViolation = ''PropertyConstraintViolation''"
| "code_str OccurenceConstraintViolation = ''OccurenceConstraintViolation''"
| "code_str TypeConstraintViolation = ''TypeConstraintViolation''"
| "code_str GenericError = ''GenericError''"
| "code_str (Err_Other c) = c"

definition from_wire :: "string \<Rightarrow> error_code" where
  "from_wire s = unwrap_or (find (\<lambda>known. code_str known = s) STANDARD) (Err_Other s)"

fun is_standard :: "error_code \<Rightarrow> bool" where
  "is_standard (Err_Other _) = False"
| "is_standard _ = True"

text \<open>A code in the form \<open>from_wire\<close> gives: \<open>Other\<close> only for what is not one of the ten.\<close>

definition code_wf :: "error_code \<Rightarrow> bool" where
  "code_wf c = (case c of Err_Other s \<Rightarrow> s \<notin> set (map code_str STANDARD) | _ \<Rightarrow> True)"

lemma code_str_from_wire: "code_str (from_wire s) = s"
proof (cases "find (\<lambda>known. code_str known = s) STANDARD")
  case (Some c)
  then have "code_str c = s" by (auto simp: find_Some_iff)
  with Some show ?thesis by (simp add: from_wire_def)
qed (simp add: from_wire_def)

lemma from_wire_code_str: "code_wf c \<Longrightarrow> from_wire (code_str c) = c"
  by (cases c) (auto simp: from_wire_def STANDARD_def code_wf_def)

lemma from_wire_wf: "code_wf (from_wire s)"
proof (cases "find (\<lambda>known. code_str known = s) STANDARD")
  case None
  then have "s \<notin> set (map code_str STANDARD)" by (auto simp: find_None_iff)
  with None show ?thesis by (simp add: from_wire_def code_wf_def)
next
  case (Some c)
  then have "c \<in> set STANDARD" by (auto simp: find_Some_iff)
  with Some show ?thesis by (auto simp: from_wire_def code_wf_def STANDARD_def)
qed

subsection \<open>Frames\<close>

definition MESSAGE_TYPE_CALL :: nat where "MESSAGE_TYPE_CALL = 2"
definition MESSAGE_TYPE_CALL_RESULT :: nat where "MESSAGE_TYPE_CALL_RESULT = 3"
definition MESSAGE_TYPE_CALL_ERROR :: nat where "MESSAGE_TYPE_CALL_ERROR = 4"

type_synonym message_id = string

datatype frame =
  Frame_Call message_id string json
| Frame_Result message_id json
| Frame_Error message_id error_code string json

fun frame_id :: "frame \<Rightarrow> message_id" where
  "frame_id (Frame_Call i _ _) = i"
| "frame_id (Frame_Result i _) = i"
| "frame_id (Frame_Error i _ _ _) = i"

fun message_type :: "frame \<Rightarrow> nat" where
  "message_type (Frame_Call _ _ _) = MESSAGE_TYPE_CALL"
| "message_type (Frame_Result _ _) = MESSAGE_TYPE_CALL_RESULT"
| "message_type (Frame_Error _ _ _ _) = MESSAGE_TYPE_CALL_ERROR"

fun frame_action :: "frame \<Rightarrow> string option" where
  "frame_action (Frame_Call _ a _) = Some a"
| "frame_action _ = None"

definition frame_call_error :: "message_id \<Rightarrow> error_code \<Rightarrow> string \<Rightarrow> frame" where
  "frame_call_error i c d = Frame_Error i c d (JObject [])"

fun to_value :: "frame \<Rightarrow> json" where
  "to_value (Frame_Call i a p) =
     JArray [JNumber (PosInt MESSAGE_TYPE_CALL), JString i, JString a, p]"
| "to_value (Frame_Result i p) =
     JArray [JNumber (PosInt MESSAGE_TYPE_CALL_RESULT), JString i, p]"
| "to_value (Frame_Error i c d x) =
     JArray [JNumber (PosInt MESSAGE_TYPE_CALL_ERROR), JString i, JString (code_str c), JString d, x]"

datatype frame_error_kind =
  InvalidJson string
| NotAnArray
| EmptyArray
| UnknownMessageType json
| WrongLength nat nat
| InvalidField string string

record frame_error =
  fe_kind :: frame_error_kind
  fe_type :: "nat option"
  fe_id :: "message_id option"

definition frame_error_new :: "frame_error_kind \<Rightarrow> frame_error" where
  "frame_error_new kind = \<lparr>fe_kind = kind, fe_type = None, fe_id = None\<rparr>"

definition decode_type :: "json \<Rightarrow> nat option" where
  "decode_type v =
     (case json_u64 v of
        Some n \<Rightarrow>
          if n = 2 then Some MESSAGE_TYPE_CALL
          else if n = 3 then Some MESSAGE_TYPE_CALL_RESULT
          else if n = 4 then Some MESSAGE_TYPE_CALL_ERROR else None
      | None \<Rightarrow> None)"

definition expected_length :: "nat \<Rightarrow> nat" where
  "expected_length t =
     (if t = MESSAGE_TYPE_CALL then 4 else if t = MESSAGE_TYPE_CALL_RESULT then 3 else 5)"

definition take_string :: "(frame_error_kind \<Rightarrow> frame_error) \<Rightarrow> json list \<Rightarrow> nat \<Rightarrow> string \<Rightarrow> frame_error + string" where
  "take_string fail items n field =
     (case items ! n of JString s \<Rightarrow> Inr s | _ \<Rightarrow> Inl (fail (InvalidField field ''a string'')))"

definition take_object :: "(frame_error_kind \<Rightarrow> frame_error) \<Rightarrow> json list \<Rightarrow> nat \<Rightarrow> string \<Rightarrow> frame_error + json" where
  "take_object fail items n field =
     (case items ! n of JObject m \<Rightarrow> Inr (JObject m) | _ \<Rightarrow> Inl (fail (InvalidField field ''a JSON object'')))"

definition and_then :: "'e + 'a \<Rightarrow> ('a \<Rightarrow> 'e + 'b) \<Rightarrow> 'e + 'b" where
  "and_then r f = (case r of Inl e \<Rightarrow> Inl e | Inr a \<Rightarrow> f a)"

definition decode_fields :: "nat \<Rightarrow> (frame_error_kind \<Rightarrow> frame_error) \<Rightarrow> json list \<Rightarrow> frame_error + frame" where
  "decode_fields t fail items =
     and_then (take_string fail items 1 ''messageId'') (\<lambda>i.
       if t = MESSAGE_TYPE_CALL then
         and_then (take_string fail items 2 ''action'') (\<lambda>a.
         and_then (take_object fail items 3 ''payload'') (\<lambda>p. Inr (Frame_Call i a p)))
       else if t = MESSAGE_TYPE_CALL_RESULT then
         and_then (take_object fail items 2 ''payload'') (\<lambda>p. Inr (Frame_Result i p))
       else
         and_then (take_string fail items 2 ''errorCode'') (\<lambda>c.
         and_then (take_string fail items 3 ''errorDescription'') (\<lambda>d.
         and_then (take_object fail items 4 ''errorDetails'') (\<lambda>x.
           Inr (Frame_Error i (from_wire c) d x)))))"

definition nth_str :: "json list \<Rightarrow> nat \<Rightarrow> string option" where
  "nth_str items n = (if n < length items then as_str (items ! n) else None)"

definition frame_of_value :: "json \<Rightarrow> frame_error + frame" where
  "frame_of_value v =
     (case v of
        JArray items \<Rightarrow>
          if items = [] then Inl (frame_error_new EmptyArray)
          else
            (case decode_type (items ! 0) of
               None \<Rightarrow> Inl \<lparr>fe_kind = UnknownMessageType (items ! 0), fe_type = None,
                             fe_id = nth_str items 1\<rparr>
             | Some t \<Rightarrow>
                 let fail = (\<lambda>kind. \<lparr>fe_kind = kind, fe_type = Some t, fe_id = nth_str items 1\<rparr>);
                     expected = expected_length t
                 in if length items \<noteq> expected then Inl (fail (WrongLength expected (length items)))
                    else decode_fields t fail items)
      | _ \<Rightarrow> Inl (frame_error_new NotAnArray))"

definition parse_frame :: "(string \<Rightarrow> string + json) \<Rightarrow> string \<Rightarrow> frame_error + frame" where
  "parse_frame parse_json text =
     (case parse_json text of
        Inl e \<Rightarrow> Inl (frame_error_new (InvalidJson e))
      | Inr v \<Rightarrow> frame_of_value v)"

fun kind_text :: "(json \<Rightarrow> string) \<Rightarrow> frame_error_kind \<Rightarrow> string" where
  "kind_text print_json (InvalidJson e) = ''not valid JSON: '' @ e"
| "kind_text print_json NotAnArray = ''expected a JSON array''"
| "kind_text print_json EmptyArray = ''empty array''"
| "kind_text print_json (UnknownMessageType v) = ''unsupported message type '' @ print_json v"
| "kind_text print_json (WrongLength e a) =
     ''wrong number of elements: expected '' @ show_nat e @ '', got '' @ show_nat a"
| "kind_text print_json (InvalidField f e) = f @ '' must be '' @ e"

definition frame_error_reply :: "(json \<Rightarrow> string) \<Rightarrow> frame_error \<Rightarrow> frame option" where
  "frame_error_reply print_json e =
     (case (fe_type e, fe_id e) of
        (Some t, Some i) \<Rightarrow>
          if t = MESSAGE_TYPE_CALL
          then Some (frame_call_error i FormationViolation (kind_text print_json (fe_kind e)))
          else None
      | _ \<Rightarrow> None)"

subsection \<open>Redaction\<close>

definition REDACTED :: string where "REDACTED = ''***''"

definition set_field :: "string \<Rightarrow> json \<Rightarrow> (string \<times> json) list \<Rightarrow> (string \<times> json) list" where
  "set_field k v m = map (\<lambda>(a, b). (a, if a = k then v else b)) m"

definition redact_secrets :: "frame \<Rightarrow> frame" where
  "redact_secrets f =
     (case f of
        Frame_Call i a (JObject m) \<Rightarrow>
          if a = ''ChangeConfiguration''
             \<and> is_some_and (Option.bind (map_of m ''key'') as_str)
                 (\<lambda>key. eq_ignore_ascii_case key ''AuthorizationKey'')
          then Frame_Call i a (JObject (set_field ''value'' (JString REDACTED) m))
          else f
      | _ \<Rightarrow> f)"

subsection \<open>Laws\<close>

text \<open>What a frame may hold: payloads are objects, and a code is written the way it is read.\<close>

fun frame_wf :: "frame \<Rightarrow> bool" where
  "frame_wf (Frame_Call _ _ p) = is_object p"
| "frame_wf (Frame_Result _ p) = is_object p"
| "frame_wf (Frame_Error _ c _ x) = (code_wf c \<and> is_object x)"

lemmas type_defs = MESSAGE_TYPE_CALL_def MESSAGE_TYPE_CALL_RESULT_def MESSAGE_TYPE_CALL_ERROR_def

lemma is_objectE: "is_object p \<Longrightarrow> (\<And>m. p = JObject m \<Longrightarrow> P) \<Longrightarrow> P"
  by (cases p) auto

lemma frame_of_to_value: "frame_wf f \<Longrightarrow> frame_of_value (to_value f) = Inr f"
  by (cases f)
     (auto simp: frame_of_value_def decode_type_def expected_length_def decode_fields_def and_then_def
       take_string_def take_object_def from_wire_code_str type_defs nth_Cons' elim!: is_objectE)

lemma take_string_Inr: "take_string fail items n field = Inr s \<longleftrightarrow> items ! n = JString s"
  by (cases "items ! n") (auto simp: take_string_def)

lemma take_object_Inr: "take_object fail items n field = Inr p \<longleftrightarrow> items ! n = p \<and> is_object p"
  by (cases "items ! n") (auto simp: take_object_def)

lemma and_then_Inr: "and_then r f = Inr b \<longleftrightarrow> (\<exists>a. r = Inr a \<and> f a = Inr b)"
  by (cases r) (auto simp: and_then_def)

lemma decode_type_Some: "decode_type v = Some t \<longleftrightarrow> v = JNumber (PosInt t) \<and> t \<in> {2, 3, 4}"
  by (cases v rule: json_u64.cases) (auto simp: decode_type_def type_defs)

lemma list_of_length:
  "length xs = 3 \<Longrightarrow> xs = [xs ! 0, xs ! 1, xs ! 2]"
  "length xs = 4 \<Longrightarrow> xs = [xs ! 0, xs ! 1, xs ! 2, xs ! 3]"
  "length xs = 5 \<Longrightarrow> xs = [xs ! 0, xs ! 1, xs ! 2, xs ! 3, xs ! 4]"
  by (auto simp: numeral_eq_Suc length_Suc_conv)

lemma frame_of_value_Inr:
  assumes "frame_of_value v = Inr f"
  shows "to_value f = v \<and> frame_wf f"
proof -
  obtain items t where v: "v = JArray items" and t: "decode_type (items ! 0) = Some t"
    and l: "length items = expected_length t"
    and d: "\<exists>fail. decode_fields t fail items = Inr f"
    using assms by (auto simp: frame_of_value_def Let_def split: json.splits if_splits option.splits)
  from t have hd: "items ! 0 = JNumber (PosInt t)" "t \<in> {2, 3, 4}" by (auto simp: decode_type_Some)
  from d obtain fail where d: "decode_fields t fail items = Inr f" ..
  from hd(2) consider "t = 2" | "t = 3" | "t = 4" by auto
  then show ?thesis
  proof cases
    case 1
    with l list_of_length(2) [of items] hd d show ?thesis
      by (auto simp: v expected_length_def type_defs decode_fields_def and_then_Inr take_string_Inr take_object_Inr)
  next
    case 2
    with l list_of_length(1) [of items] hd d show ?thesis
      by (auto simp: v expected_length_def type_defs decode_fields_def and_then_Inr take_string_Inr take_object_Inr)
  next
    case 3
    with l list_of_length(3) [of items] hd d show ?thesis
      by (auto simp: v expected_length_def type_defs decode_fields_def and_then_Inr take_string_Inr
          take_object_Inr code_str_from_wire from_wire_wf)
  qed
qed

text \<open>
  C24: frames round trip and nothing else is accepted.  A JSON value decodes to a frame exactly if
  it is the encoding of that frame, so the integer type, the exact length, the string fields and the
  object payload are all required, and a received CALLERROR with an unknown code is written back
  unchanged.
\<close>

theorem frame_codec:
  "frame_of_value v = Inr f \<longleftrightarrow> frame_wf f \<and> to_value f = v"
  using frame_of_value_Inr frame_of_to_value by blast

text \<open>
  The answer to a broken frame.  Only a value that starts with the type of a CALL and carries a
  readable message id is answered, with a FormationViolation for that id; whatever the broken frame
  was, the answer itself is a well-formed frame.
\<close>

theorem broken_frame_reply:
  assumes "frame_of_value v = Inl e" and "frame_error_reply print_json e = Some reply"
  shows "\<exists>items i. v = JArray items \<and> items ! 0 = JNumber (PosInt 2) \<and> items ! 1 = JString i
    \<and> reply = Frame_Error i FormationViolation (kind_text print_json (fe_kind e)) (JObject [])
    \<and> frame_of_value (to_value reply) = Inr reply"
proof -
  obtain i where e: "fe_type e = Some 2" "fe_id e = Some i"
    and r: "reply = frame_call_error i FormationViolation (kind_text print_json (fe_kind e))"
    using assms(2) by (auto simp: frame_error_reply_def type_defs split: option.splits if_splits)
  have typed: "fe_type e' = Some t \<and> fe_id e' = nth_str items 1"
    if "decode_fields t (\<lambda>k. \<lparr>fe_kind = k, fe_type = Some t, fe_id = nth_str items 1\<rparr>) items = Inl e'" for t items e'
    using that by (auto simp: decode_fields_def and_then_def take_string_def take_object_def
        split: sum.splits if_splits json.splits)
  obtain items where v: "v = JArray items" "items \<noteq> []" "decode_type (items ! 0) = Some 2" "nth_str items 1 = Some i"
    using assms(1) e typed
    by (fastforce simp: frame_of_value_def frame_error_new_def Let_def split: json.splits if_splits option.splits)
  moreover have "items ! 1 = JString i"
    using v(4) by (cases "items ! 1") (auto simp: nth_str_def split: if_splits)
  moreover have "frame_of_value (to_value reply) = Inr reply"
    by (rule frame_of_to_value) (simp add: r frame_call_error_def code_wf_def)
  ultimately show ?thesis by (auto simp: r frame_call_error_def decode_type_Some)
qed

theorem broken_frame_reply_witness:
  "frame_error_reply (\<lambda>_. []) \<lparr>fe_kind = WrongLength 4 2, fe_type = Some 2, fe_id = Some ''7''\<rparr>
     = Some (Frame_Error ''7'' FormationViolation ''wrong number of elements: expected 4, got 2'' (JObject []))"
proof -
  let ?e = "\<lparr>fe_kind = WrongLength 4 2, fe_type = Some 2, fe_id = Some ''7''\<rparr>"
  have e: "frame_of_value (JArray [JNumber (PosInt 2), JString ''7'']) = Inl ?e" by code_simp
  obtain reply where r: "frame_error_reply (\<lambda>_. []) ?e = Some reply"
    by (simp add: frame_error_reply_def type_defs)
  have k: "kind_text (\<lambda>_. []) (WrongLength 4 2) = ''wrong number of elements: expected 4, got 2''"
    by code_simp
  from broken_frame_reply [OF e r] show ?thesis by (simp add: r k del: kind_text.simps)
qed

text \<open>
  Redaction.  The recorded copy of a frame keeps its type, id, action and well-formedness, and
  a ChangeConfiguration of the authorization key, however it is spelled, never shows its value; no
  other frame is changed.
\<close>

theorem redaction:
  "frame_id (redact_secrets f) = frame_id f \<and> message_type (redact_secrets f) = message_type f
   \<and> frame_action (redact_secrets f) = frame_action f
   \<and> (frame_wf f \<longrightarrow> frame_wf (redact_secrets f))
   \<and> (\<forall>i key m. f = Frame_Call i ''ChangeConfiguration'' (JObject m) \<longrightarrow> map_of m ''key'' = Some (JString key)
        \<longrightarrow> lower key = ''authorizationkey''
        \<longrightarrow> (\<exists>m'. redact_secrets f = Frame_Call i ''ChangeConfiguration'' (JObject m')
              \<and> map_of m' ''value'' = map_option (\<lambda>_. JString ''***'') (map_of m ''value'')
              \<and> (\<forall>k. k \<noteq> ''value'' \<longrightarrow> map_of m' k = map_of m k)))
   \<and> (redact_secrets f \<noteq> f \<longrightarrow> frame_action f = Some ''ChangeConfiguration'')"
proof -
  have low: "lower ''AuthorizationKey'' = ''authorizationkey''" by code_simp
  have get: "map_of (set_field k v m) q = (if q = k then map_option (\<lambda>_. v) (map_of m k) else map_of m q)" for k v m q
    by (induction m) (auto simp: set_field_def)
  show ?thesis
    by (auto simp: redact_secrets_def eq_ignore_ascii_case_def is_some_and_def low get REDACTED_def
        split: frame.split json.split option.split)
qed

theorem redaction_witness:
  "\<exists>m'. redact_secrets (Frame_Call ''1'' ''ChangeConfiguration''
        (JObject [(''key'', JString ''authorizationKEY''), (''value'', JString ''hunter2'')]))
      = Frame_Call ''1'' ''ChangeConfiguration'' (JObject m')
    \<and> map_of m' ''value'' = Some (JString ''***'')"
proof -
  let ?m = "[(''key'', JString ''authorizationKEY''), (''value'', JString ''hunter2'')]"
  have low: "lower ''authorizationKEY'' = ''authorizationkey''" by code_simp
  have "map_of ?m ''key'' = Some (JString ''authorizationKEY'')" "map_of ?m ''value'' = Some (JString ''hunter2'')"
    by simp_all
  with redaction [of "Frame_Call ''1'' ''ChangeConfiguration'' (JObject ?m)"] low show ?thesis by auto
qed

end
