(* ===== verification/Response_Rules.thy ===== *)
theory Response_Rules
  imports Ocpp_Frame
begin

text \<open>
  Response rules (\<open>station/response_rules.rs\<close>, \<open>station/handlers/rules.rs\<close>): how a station is made to
  misbehave on purpose.  The text form with its parser and printer, the list of rules, and what a rule
  does to a CALL before its handler runs.
\<close>

subsection \<open>Text\<close>

definition trim_end :: "string \<Rightarrow> string" where
  "trim_end s = rev (dropWhile is_space (rev s))"

definition rsplit_once :: "char \<Rightarrow> string \<Rightarrow> (string \<times> string) option" where
  "rsplit_once d s = map_option (\<lambda>(a, b). (rev b, rev a)) (split_once d (rev s))"

definition u64_bound :: nat where "u64_bound = 2 ^ 64 - 1"

text \<open>\<open>str::parse::<u64>\<close>.\<close>

definition parse_u64 :: "string \<Rightarrow> u64 option" where
  "parse_u64 s =
     (let digits = (case s of c # r \<Rightarrow> if c = CHR ''+'' then r else s | [] \<Rightarrow> s)
      in option_filter (\<lambda>n. n \<le> u64_bound) (parse_digits digits))"

definition INBOUND_ACTIONS :: "string list" where
  "INBOUND_ACTIONS =
     [''CancelReservation'', ''CertificateSigned'', ''ChangeAvailability'', ''ChangeConfiguration'',
      ''ClearCache'', ''ClearChargingProfile'', ''DataTransfer'', ''DeleteCertificate'',
      ''ExtendedTriggerMessage'', ''GetCompositeSchedule'', ''GetConfiguration'', ''GetDiagnostics'',
      ''GetInstalledCertificateIds'', ''GetLocalListVersion'', ''GetLog'', ''InstallCertificate'',
      ''RemoteStartTransaction'', ''RemoteStopTransaction'', ''ReserveNow'', ''Reset'', ''SendLocalList'',
      ''SetChargingProfile'', ''SignedUpdateFirmware'', ''TriggerMessage'', ''UnlockConnector'',
      ''UpdateFirmware'']"

definition MAX_DELAY_MS :: nat where "MAX_DELAY_MS = 3600000"

subsection \<open>Rules\<close>

datatype behavior =
  Beh_Reject
| Beh_Delay u64
| Beh_Error error_code "string option"
| Beh_Drop
| Beh_Ignore

record response_rule =
  ru_action :: string
  ru_behavior :: behavior
  ru_remaining :: "u32 option"

datatype rule_error =
  Rule_Format
| UnknownAction string
| UnknownBehavior string
| BadDelay
| UnknownErrorCode string
| BadCount

definition canonical_action :: "string \<Rightarrow> rule_error + string" where
  "canonical_action name =
     (case find (\<lambda>known. eq_ignore_ascii_case known (trim name)) INBOUND_ACTIONS of
        None \<Rightarrow> Inl (UnknownAction (trim name)) | Some known \<Rightarrow> Inr known)"

definition parse_error :: "string \<Rightarrow> rule_error + behavior" where
  "parse_error arg =
     (let (code, description) =
        (case split_once CHR '':'' arg of
           Some (c, t) \<Rightarrow> (trim c, Some (trim t)) | None \<Rightarrow> (trim arg, None))
      in case find (\<lambda>known. eq_ignore_ascii_case (code_str known) code) STANDARD of
           None \<Rightarrow> Inl (UnknownErrorCode code)
         | Some known \<Rightarrow> Inr (Beh_Error known (option_filter (\<lambda>t. t \<noteq> []) description)))"

definition parse_behavior :: "string \<Rightarrow> rule_error + behavior" where
  "parse_behavior s =
     (let (name, arg) =
        (case split_once CHR '':'' s of Some (n, a) \<Rightarrow> (trim n, Some a) | None \<Rightarrow> (trim s, None));
          key = lower name
      in case arg of
           None \<Rightarrow>
             if key = ''reject'' then Inr Beh_Reject
             else if key = ''drop'' then Inr Beh_Drop
             else if key = ''ignore'' then Inr Beh_Ignore
             else if key = ''delay'' then Inl BadDelay
             else if key = ''error'' then Inl (UnknownErrorCode [])
             else Inl (UnknownBehavior (trim s))
         | Some a \<Rightarrow>
             if key = ''delay''
             then (case parse_u64 (trim a) of
                     None \<Rightarrow> Inl BadDelay
                   | Some ms \<Rightarrow> if ms > MAX_DELAY_MS then Inl BadDelay else Inr (Beh_Delay ms))
             else if key = ''error'' then parse_error a
             else Inl (UnknownBehavior (trim s)))"

text \<open>The trailing count, if what follows the last star is digits.\<close>

definition star_count :: "string \<Rightarrow> (string \<times> string) option" where
  "star_count rest =
     option_filter (\<lambda>(head, tail). tail \<noteq> [] \<and> list_all is_ascii_digit tail) (rsplit_once CHR ''*'' rest)"

definition parse_rule :: "string \<Rightarrow> rule_error + response_rule" where
  "parse_rule s =
     (case split_once CHR ''='' s of
        None \<Rightarrow> Inl Rule_Format
      | Some (action_text, rest_text) \<Rightarrow>
          and_then (canonical_action action_text) (\<lambda>action.
            let rest = trim rest_text in
            and_then
              (case star_count rest of
                 None \<Rightarrow> Inr (rest, None)
               | Some (head, tail) \<Rightarrow>
                   (case parse_u32 tail of
                      None \<Rightarrow> Inl BadCount
                    | Some count \<Rightarrow> if count = 0 then Inl BadCount else Inr (trim_end head, Some count)))
              (\<lambda>(behavior_text, remaining).
                 and_then (parse_behavior behavior_text) (\<lambda>b.
                   Inr \<lparr>ru_action = action, ru_behavior = b, ru_remaining = remaining\<rparr>))))"

fun show_behavior :: "behavior \<Rightarrow> string" where
  "show_behavior Beh_Reject = ''reject''"
| "show_behavior (Beh_Delay ms) = ''delay:'' @ show_nat ms"
| "show_behavior (Beh_Error code description) =
     ''error:'' @ code_str code @ (case description of None \<Rightarrow> [] | Some t \<Rightarrow> '':'' @ t)"
| "show_behavior Beh_Drop = ''drop''"
| "show_behavior Beh_Ignore = ''ignore''"

definition show_rule :: "response_rule \<Rightarrow> string" where
  "show_rule r = ru_action r @ ''='' @ show_behavior (ru_behavior r)
     @ (case ru_remaining r of None \<Rightarrow> [] | Some count \<Rightarrow> ''*'' @ show_nat count)"

subsection \<open>The list\<close>

definition set_rule :: "response_rule \<Rightarrow> response_rule list \<Rightarrow> response_rule list" where
  "set_rule rule rules =
     (if find (\<lambda>r. ru_action r = ru_action rule) rules = None then rules @ [rule]
      else update_first (\<lambda>r. ru_action r = ru_action rule) (\<lambda>_. rule) rules)"

definition clear_rules :: "string option \<Rightarrow> response_rule list \<Rightarrow> response_rule list \<times> nat" where
  "clear_rules action rules =
     (let kept = filter (\<lambda>r. is_some_and action (\<lambda>a. ru_action r \<noteq> a)) rules
      in (kept, length rules - length kept))"

definition take_rule :: "string \<Rightarrow> response_rule list \<Rightarrow> behavior option \<times> response_rule list" where
  "take_rule action rules =
     (case position (\<lambda>r. ru_action r = action) rules of
        None \<Rightarrow> (None, rules)
      | Some i \<Rightarrow>
          let rule = rules ! i;
              left = map_option (\<lambda>n. n - 1) (ru_remaining rule)
          in (Some (ru_behavior rule),
              if left = Some 0 then remove_nth i rules else rules[i := rule\<lparr>ru_remaining := left\<rparr>]))"

definition reject_payload :: "string \<Rightarrow> json option" where
  "reject_payload action =
     map_option (\<lambda>status. JObject [(''status'', JString status)])
       (if action \<in> {''CancelReservation'', ''ChangeAvailability'', ''ChangeConfiguration'', ''ClearCache'',
            ''DataTransfer'', ''GetCompositeSchedule'', ''RemoteStartTransaction'', ''RemoteStopTransaction'',
            ''ReserveNow'', ''Reset'', ''SetChargingProfile'', ''TriggerMessage'', ''ExtendedTriggerMessage'',
            ''GetLog'', ''SignedUpdateFirmware''} then Some ''Rejected''
        else if action \<in> {''SendLocalList'', ''UnlockConnector''} then Some ''NotSupported''
        else if action \<in> {''InstallCertificate'', ''CertificateSigned''} then Some ''Rejected''
        else if action = ''DeleteCertificate'' then Some ''Failed''
        else if action = ''GetInstalledCertificateIds'' then Some ''NotFound''
        else None)"

text \<open>
  \<open>apply_response_rule\<close>: what becomes of the reply, and whether the handler runs.  \<open>Rule_Close\<close> and
  \<open>Rule_Silent\<close> abandon the reply; the former closes the connection too.
\<close>

datatype rule_outcome =
  Run_Handler "u64 option"
| Rule_Accept json
| Rule_Reject error_code string
| Rule_Close
| Rule_Silent

fun behavior_outcome :: "string \<Rightarrow> behavior \<Rightarrow> rule_outcome" where
  "behavior_outcome action (Beh_Delay ms) = Run_Handler (Some ms)"
| "behavior_outcome action Beh_Reject =
     (case reject_payload action of
        Some payload \<Rightarrow> Rule_Accept payload
      | None \<Rightarrow> Rule_Reject Err_NotSupported (action @ '' rejected by a response rule''))"
| "behavior_outcome action (Beh_Error code description) =
     Rule_Reject code (unwrap_or description ''response rule'')"
| "behavior_outcome action Beh_Drop = Rule_Close"
| "behavior_outcome action Beh_Ignore = Rule_Silent"

definition apply_response_rule :: "string \<Rightarrow> response_rule list \<Rightarrow> rule_outcome \<times> response_rule list" where
  "apply_response_rule action rules =
     (case take_rule action rules of
        (None, rules') \<Rightarrow> (Run_Handler None, rules')
      | (Some b, rules') \<Rightarrow> (behavior_outcome action b, rules'))"

end
