(* ===== verification/Config_Registry.thy ===== *)
theory Config_Registry
  imports Connector Btree_Map Response_Rules
begin

text \<open>
  The configuration keys of one station (\<open>station/config_registry.rs\<close>): the typed registry behind
  \<open>GetConfiguration\<close> and \<open>ChangeConfiguration\<close>, with its validation, its read-only and secret
  keys, the snapshot that is persisted and its restore, and the typed accessors.
\<close>

subsection \<open>Measurands\<close>

datatype measurand =
  CurrentExport | CurrentImport | CurrentOffered | EnergyActiveExportRegister
| EnergyActiveImportRegister | EnergyReactiveExportRegister | EnergyReactiveImportRegister
| EnergyActiveExportInterval | EnergyActiveImportInterval | EnergyReactiveExportInterval
| EnergyReactiveImportInterval | Frequency | PowerActiveExport | PowerActiveImport | PowerFactor
| PowerOffered | PowerReactiveExport | PowerReactiveImport | Rpm | SoC | Temperature | Voltage

definition MEASURANDS :: "measurand list" where
  "MEASURANDS =
     [CurrentExport, CurrentImport, CurrentOffered, EnergyActiveExportRegister,
      EnergyActiveImportRegister, EnergyReactiveExportRegister, EnergyReactiveImportRegister,
      EnergyActiveExportInterval, EnergyActiveImportInterval, EnergyReactiveExportInterval,
      EnergyReactiveImportInterval, Frequency, PowerActiveExport, PowerActiveImport, PowerFactor,
      PowerOffered, PowerReactiveExport, PowerReactiveImport, Rpm, SoC, Temperature, Voltage]"

primrec measurand_as_str :: "measurand \<Rightarrow> string" where
  "measurand_as_str CurrentExport = ''Current.Export''"
| "measurand_as_str CurrentImport = ''Current.Import''"
| "measurand_as_str CurrentOffered = ''Current.Offered''"
| "measurand_as_str EnergyActiveExportRegister = ''Energy.Active.Export.Register''"
| "measurand_as_str EnergyActiveImportRegister = ''Energy.Active.Import.Register''"
| "measurand_as_str EnergyReactiveExportRegister = ''Energy.Reactive.Export.Register''"
| "measurand_as_str EnergyReactiveImportRegister = ''Energy.Reactive.Import.Register''"
| "measurand_as_str EnergyActiveExportInterval = ''Energy.Active.Export.Interval''"
| "measurand_as_str EnergyActiveImportInterval = ''Energy.Active.Import.Interval''"
| "measurand_as_str EnergyReactiveExportInterval = ''Energy.Reactive.Export.Interval''"
| "measurand_as_str EnergyReactiveImportInterval = ''Energy.Reactive.Import.Interval''"
| "measurand_as_str Frequency = ''Frequency''"
| "measurand_as_str PowerActiveExport = ''Power.Active.Export''"
| "measurand_as_str PowerActiveImport = ''Power.Active.Import''"
| "measurand_as_str PowerFactor = ''Power.Factor''"
| "measurand_as_str PowerOffered = ''Power.Offered''"
| "measurand_as_str PowerReactiveExport = ''Power.Reactive.Export''"
| "measurand_as_str PowerReactiveImport = ''Power.Reactive.Import''"
| "measurand_as_str Rpm = ''RPM''"
| "measurand_as_str SoC = ''SoC''"
| "measurand_as_str Temperature = ''Temperature''"
| "measurand_as_str Voltage = ''Voltage''"

definition measurand_from_str :: "string \<Rightarrow> measurand option" where
  "measurand_from_str s = find (\<lambda>m. measurand_as_str m = s) MEASURANDS"

subsection \<open>Values\<close>

text \<open>Trimmed, non-empty items of a comma-separated list value.\<close>

definition list_items :: "string \<Rightarrow> string list" where
  "list_items v = filter (\<lambda>i. i \<noteq> []) (map trim (split CHR '','' v))"

definition parse_int :: "string \<Rightarrow> i32 option" where
  "parse_int v =
     (if v = [] \<or> \<not> list_all is_ascii_digit v then None
      else if int (digits_val v) \<le> i32_max then Some (int (digits_val v)) else None)"

definition PHASE_ROTATIONS :: "string list" where
  "PHASE_ROTATIONS = [''NotApplicable'', ''Unknown'', ''RST'', ''RTS'', ''SRT'', ''STR'', ''TRS'', ''TSR'']"

definition is_phase_rotation_item :: "string \<Rightarrow> bool" where
  "is_phase_rotation_item item =
     (case split_once CHR ''.'' item of
        Some (connector, rotation) \<Rightarrow>
          if connector = [] \<or> \<not> list_all is_ascii_digit connector then False
          else rotation \<in> set PHASE_ROTATIONS
      | None \<Rightarrow> item \<in> set PHASE_ROTATIONS)"

datatype kind =
  Text | Boolean | NonNegativeInt | PositiveInt | Measurands | PhaseRotations
| SecurityProfile | Secret | Name

fun kind_accepts :: "kind \<Rightarrow> string \<Rightarrow> bool" where
  "kind_accepts Text v = True"
| "kind_accepts Boolean v = (v = ''true'' \<or> v = ''false'')"
| "kind_accepts NonNegativeInt v = is_some_and (parse_int v) (\<lambda>n. 0 \<le> n)"
| "kind_accepts PositiveInt v = is_some_and (parse_int v) (\<lambda>n. 1 \<le> n)"
| "kind_accepts Measurands v =
     (list_items v \<noteq> [] \<and> list_all (\<lambda>i. measurand_from_str i \<noteq> None) (list_items v))"
| "kind_accepts PhaseRotations v =
     (list_items v \<noteq> [] \<and> list_all is_phase_rotation_item (list_items v))"
| "kind_accepts SecurityProfile v = is_some_and (parse_int v) (\<lambda>n. 0 \<le> n \<and> n \<le> 3)"
| "kind_accepts Secret v = (16 \<le> length v \<and> length v \<le> 40 \<and> list_all is_ascii_graphic v)"
| "kind_accepts Name v = (length v \<le> 50)"

subsection \<open>The registry\<close>

record config_entry =
  ce_key :: string
  ce_readonly :: bool
  ce_value :: string
  ce_kind :: kind
  ce_max_items_key :: "string option"

definition secret :: "config_entry \<Rightarrow> bool" where
  "secret e = (ce_kind e = Secret)"

definition display_value :: "config_entry \<Rightarrow> string" where
  "display_value e = (if secret e \<and> ce_value e \<noteq> [] then ''********'' else ce_value e)"

record registry =
  rg_entries :: "config_entry list"
  rg_connector_count :: u32

definition index_of :: "registry \<Rightarrow> string \<Rightarrow> nat option" where
  "index_of r name = position (\<lambda>e. eq_ignore_ascii_case (ce_key e) name) (rg_entries r)"

definition cfg_get :: "registry \<Rightarrow> string \<Rightarrow> config_entry option" where
  "cfg_get r name = map_option ((!) (rg_entries r)) (index_of r name)"

definition cfg_value :: "registry \<Rightarrow> string \<Rightarrow> string option" where
  "cfg_value r name = map_option ce_value (cfg_get r name)"

definition set_internal :: "registry \<Rightarrow> string \<Rightarrow> string \<Rightarrow> registry" where
  "set_internal r name v =
     (case index_of r name of
        None \<Rightarrow> r
      | Some i \<Rightarrow>
          r\<lparr>rg_entries := (rg_entries r)[i := (rg_entries r ! i)\<lparr>ce_value := v\<rparr>]\<rparr>)"

definition cfg_number :: "registry \<Rightarrow> string \<Rightarrow> u32" where
  "cfg_number r name = unwrap_or (Option.bind (cfg_value r name) parse_u32) 0"

definition cfg_boolean :: "registry \<Rightarrow> string \<Rightarrow> bool" where
  "cfg_boolean r name = (cfg_value r name = Some ''true'')"

definition count_limit :: "registry \<Rightarrow> string \<Rightarrow> nat" where
  "count_limit r max_key = cfg_number r max_key"

definition cfg_check :: "registry \<Rightarrow> string \<Rightarrow> string \<Rightarrow> configuration_status" where
  "cfg_check r name v =
     (case cfg_get r name of
        None \<Rightarrow> Conf_NotSupported
      | Some e \<Rightarrow>
          let fits = is_none_or (ce_max_items_key e)
                (\<lambda>max_key. length (list_items v) \<le> count_limit r max_key)
          in if ce_readonly e \<or> \<not> kind_accepts (ce_kind e) v \<or> \<not> fits
             then Conf_Rejected else Conf_Accepted)"

definition cfg_change :: "registry \<Rightarrow> string \<Rightarrow> string \<Rightarrow> registry \<times> configuration_status" where
  "cfg_change r name v =
     (let status = cfg_check r name v in
      (if status = Conf_Accepted then
         (case index_of r name of
            None \<Rightarrow> r
          | Some i \<Rightarrow> r\<lparr>rg_entries := (rg_entries r)[i := (rg_entries r ! i)\<lparr>ce_value := v\<rparr>]\<rparr>)
       else r,
       status))"

record configuration_report =
  rep_configuration_key :: "config_entry list"
  rep_unknown_key :: "string list"

definition GET_CONFIGURATION_MAX_KEYS :: string where
  "GET_CONFIGURATION_MAX_KEYS = ''GetConfigurationMaxKeys''"

text \<open>\<open>get_configuration\<close>; the error carries the number requested and the limit.\<close>

definition get_configuration ::
  "registry \<Rightarrow> string list \<Rightarrow> (nat \<times> nat) + configuration_report" where
  "get_configuration r requested =
     (if requested = [] then
        Inr \<lparr>rep_configuration_key = rg_entries r, rep_unknown_key = []\<rparr>
      else
        let mx = cfg_number r GET_CONFIGURATION_MAX_KEYS in
        if length requested > mx then Inl (length requested, mx)
        else Inr \<lparr>rep_configuration_key = List.map_filter (cfg_get r) requested,
                  rep_unknown_key = filter (\<lambda>n. cfg_get r n = None) requested\<rparr>)"

type_synonym config_snapshot = "(string, string) btree"

definition snapshot :: "registry \<Rightarrow> config_snapshot" where
  "snapshot r =
     foldl (\<lambda>m e. bt_insert (ce_key e) (ce_value e) m) bt_empty
       (filter (\<lambda>e. \<not> ce_readonly e \<and> \<not> secret e) (rg_entries r))"

fun restore_values :: "registry \<Rightarrow> (string \<times> string) list \<Rightarrow> registry \<times> string list" where
  "restore_values r [] = (r, [])"
| "restore_values r ((name, v) # rest) =
     (let (r1, status) = cfg_change r name v;
          (r2, skipped) = restore_values r1 rest
      in (r2, if status \<noteq> Conf_Accepted then name # skipped else skipped))"

definition restore :: "registry \<Rightarrow> config_snapshot \<Rightarrow> registry \<times> string list" where
  "restore r snap = restore_values r snap"

definition NUMBER_OF_CONNECTORS :: string where
  "NUMBER_OF_CONNECTORS = ''NumberOfConnectors''"
definition CONNECTOR_PHASE_ROTATION :: string where
  "CONNECTOR_PHASE_ROTATION = ''ConnectorPhaseRotation''"
definition CONNECTOR_PHASE_ROTATION_MAX_LENGTH :: string where
  "CONNECTOR_PHASE_ROTATION_MAX_LENGTH = ''ConnectorPhaseRotationMaxLength''"

text \<open>The default rotation entry of connector \<open>i\<close>.\<close>

definition unknown_rotation :: "nat \<Rightarrow> string" where
  "unknown_rotation i = show_nat i @ ''.Unknown''"

definition covered_connectors :: "string \<Rightarrow> u32 list" where
  "covered_connectors v =
     List.map_filter (\<lambda>(c, _). parse_u32 c) (List.map_filter (split_once CHR ''.'') (list_items v))"

definition set_connector_count :: "registry \<Rightarrow> u32 \<Rightarrow> registry" where
  "set_connector_count r count =
     (if count \<le> rg_connector_count r then r
      else
        let r1 = r\<lparr>rg_connector_count := count\<rparr>;
            r2 = set_internal r1 NUMBER_OF_CONNECTORS (show_nat count);
            r3 = set_internal r2 CONNECTOR_PHASE_ROTATION_MAX_LENGTH (show_nat (count + 1))
        in (case cfg_value r3 CONNECTOR_PHASE_ROTATION of
              None \<Rightarrow> r3
            | Some current \<Rightarrow>
                let covered = covered_connectors current in
                if covered = [] then r3
                else set_internal r3 CONNECTOR_PHASE_ROTATION
                       (join '','' (list_items current @
                          map unknown_rotation
                            (filter (\<lambda>i. i \<notin> set covered) [1..<count + 1])))))"

subsection \<open>Defaults and accessors\<close>

text \<open>The fields of \<open>StationConfig\<close> the registry and the connection read.\<close>

record station_config =
  sc_charge_point_id :: string
  sc_vendor :: string
  sc_model :: string
  sc_connector_count :: u32
  sc_initial_connector :: u32
  sc_heartbeat_interval_secs :: u32
  sc_ws_ping_interval_secs :: u32
  sc_additional_root_certificate_check :: bool
  sc_url :: string
  sc_tls_cert_file :: bool
  sc_tls_skip_verify :: bool
  sc_response_rules :: "response_rule list"

definition writable :: "string \<Rightarrow> kind \<Rightarrow> string \<Rightarrow> config_entry" where
  "writable n k v =
     \<lparr>ce_key = n, ce_readonly = False, ce_value = v, ce_kind = k, ce_max_items_key = None\<rparr>"

definition writable_list :: "string \<Rightarrow> kind \<Rightarrow> string \<Rightarrow> string \<Rightarrow> config_entry" where
  "writable_list n k max_key v = (writable n k v)\<lparr>ce_max_items_key := Some max_key\<rparr>"

definition read_only :: "string \<Rightarrow> string \<Rightarrow> config_entry" where
  "read_only n v =
     \<lparr>ce_key = n, ce_readonly = True, ce_value = v, ce_kind = Text, ce_max_items_key = None\<rparr>"

definition DEFAULT_SAMPLED_DATA :: "measurand list" where
  "DEFAULT_SAMPLED_DATA =
     [EnergyActiveImportRegister, PowerActiveImport, CurrentImport, Voltage, Temperature, SoC]"

definition default_measurands :: string where
  "default_measurands = join '','' (map measurand_as_str DEFAULT_SAMPLED_DATA)"

definition FEATURE_PROFILES :: "string list" where
  "FEATURE_PROFILES =
     [''Core'', ''FirmwareManagement'', ''LocalAuthListManagement'', ''Reservation'',
      ''RemoteTrigger'', ''SmartCharging'']"

definition show_bool :: "bool \<Rightarrow> string" where
  "show_bool b = (if b then ''true'' else ''false'')"

definition first_half_entries :: "station_config \<Rightarrow> u32 \<Rightarrow> config_entry list" where
  "first_half_entries config connectors =
     [writable ''AllowCentralSystemTLSWildcards'' Boolean ''false'',
      writable ''AllowOfflineTxForUnknownId'' Boolean ''true'',
      writable ''AllowSecurityProfileDowngrade'' Boolean ''false'',
      read_only ''AdditionalRootCertificateCheck'' (show_bool (sc_additional_root_certificate_check config)),
      writable ''AuthorizationCacheEnabled'' Boolean ''true'',
      writable ''AuthorizationKey'' Secret '''',
      writable ''AuthorizeRemoteTxRequests'' Boolean ''false'',
      writable ''BlinkRepeat'' NonNegativeInt ''0'',
      read_only ''CertificateSignedMaxChainSize'' ''10000'',
      read_only ''CertificateStoreMaxLength'' ''8'',
      writable ''CertSigningRepeatTimes'' NonNegativeInt ''5'',
      writable ''CertSigningWaitMinimum'' NonNegativeInt ''20'',
      read_only ''ChargePointModel'' (sc_model config),
      read_only ''ChargePointSerialNumber'' (sc_charge_point_id config),
      read_only ''ChargePointVendor'' (sc_vendor config),
      read_only ''ChargeProfileMaxStackLevel'' ''10'',
      read_only ''ChargingScheduleAllowedChargingRateUnit'' ''Current,Power'',
      read_only ''ChargingScheduleMaxPeriods'' ''24'',
      writable ''ClockAlignedDataInterval'' NonNegativeInt ''0'',
      writable ''ConnectionTimeOut'' PositiveInt ''60'',
      writable_list ''ConnectorPhaseRotation'' PhaseRotations ''ConnectorPhaseRotationMaxLength'' (join '','' (map unknown_rotation [1..<connectors + 1])),
      read_only ''ConnectorPhaseRotationMaxLength'' (show_nat (connectors + 1)),
      writable ''ConnectorSwitch3to1PhaseSupported'' Boolean ''false'',
      read_only ''GetConfigurationMaxKeys'' ''50'',
      writable ''HeartbeatInterval'' PositiveInt (show_nat (sc_heartbeat_interval_secs config)),
      writable ''CpoName'' Name '''',
      writable ''LightIntensity'' NonNegativeInt ''0'',
      writable ''LocalAuthListEnabled'' Boolean ''true'',
      read_only ''LocalAuthListMaxLength'' ''1000'',
      writable ''LocalAuthorizeOffline'' Boolean ''true'',
      writable ''LocalPreAuthorize'' Boolean ''false'']"

definition second_half_entries :: "station_config \<Rightarrow> u32 \<Rightarrow> config_entry list" where
  "second_half_entries config connectors =
     (let measurand_max = show_nat (length MEASURANDS) in
     [read_only ''MaxChargingProfilesInstalled'' ''10'',
      writable ''MaxEnergyOnInvalidId'' NonNegativeInt ''0'',
      writable_list ''MeterValuesAlignedData'' Measurands ''MeterValuesAlignedDataMaxLength'' default_measurands,
      read_only ''MeterValuesAlignedDataMaxLength'' measurand_max,
      writable_list ''MeterValuesSampledData'' Measurands ''MeterValuesSampledDataMaxLength'' default_measurands,
      read_only ''MeterValuesSampledDataMaxLength'' measurand_max,
      writable ''MeterValueSampleInterval'' NonNegativeInt ''60'',
      writable ''MinimumStatusDuration'' NonNegativeInt ''0'',
      read_only ''NumberOfConnectors'' (show_nat connectors),
      read_only ''ReserveConnectorZeroSupported'' ''true'',
      writable ''ResetRetries'' NonNegativeInt ''0'',
      writable ''SecurityProfile'' SecurityProfile ''0'',
      read_only ''SendLocalListMaxLength'' ''1000'',
      writable ''StopTransactionOnEVSideDisconnect'' Boolean ''true'',
      writable ''StopTransactionOnInvalidId'' Boolean ''true'',
      writable_list ''StopTxnAlignedData'' Measurands ''StopTxnAlignedDataMaxLength'' default_measurands,
      read_only ''StopTxnAlignedDataMaxLength'' measurand_max,
      writable_list ''StopTxnSampledData'' Measurands ''StopTxnSampledDataMaxLength'' default_measurands,
      read_only ''StopTxnSampledDataMaxLength'' measurand_max,
      read_only ''SupportedFeatureProfiles'' (join '','' FEATURE_PROFILES),
      read_only ''SupportedFeatureProfilesMaxLength'' (show_nat (length FEATURE_PROFILES)),
      writable ''TransactionMessageAttempts'' PositiveInt ''1'',
      writable ''TransactionMessageRetryInterval'' PositiveInt ''30'',
      writable ''UnlockConnectorOnEVSideDisconnect'' Boolean ''false'',
      writable ''WebSocketPingInterval'' NonNegativeInt (show_nat (sc_ws_ping_interval_secs config))])"

definition default_entries :: "station_config \<Rightarrow> u32 \<Rightarrow> config_entry list" where
  "default_entries config connectors =
     first_half_entries config connectors @ second_half_entries config connectors"

definition registry_new :: "station_config \<Rightarrow> registry" where
  "registry_new config =
     (let n = max (max (sc_connector_count config) (sc_initial_connector config)) 1
      in \<lparr>rg_entries = default_entries config n, rg_connector_count = n\<rparr>)"

text \<open>Typed accessors the other components call; durations are in nanoseconds.\<close>

definition secs :: "nat \<Rightarrow> duration" where
  "secs n = n * 1000000000"

definition heartbeat_interval_secs :: "registry \<Rightarrow> u32" where
  "heartbeat_interval_secs r = cfg_number r ''HeartbeatInterval''"
definition local_auth_list_max_length :: "registry \<Rightarrow> u32" where
  "local_auth_list_max_length r = cfg_number r ''LocalAuthListMaxLength''"
definition send_local_list_max_length :: "registry \<Rightarrow> u32" where
  "send_local_list_max_length r = cfg_number r ''SendLocalListMaxLength''"
definition max_energy_on_invalid_id :: "registry \<Rightarrow> u32" where
  "max_energy_on_invalid_id r = cfg_number r ''MaxEnergyOnInvalidId''"
definition charge_profile_max_stack_level :: "registry \<Rightarrow> u32" where
  "charge_profile_max_stack_level r = cfg_number r ''ChargeProfileMaxStackLevel''"
definition charging_schedule_max_periods :: "registry \<Rightarrow> u32" where
  "charging_schedule_max_periods r = cfg_number r ''ChargingScheduleMaxPeriods''"
definition max_charging_profiles_installed :: "registry \<Rightarrow> u32" where
  "max_charging_profiles_installed r = cfg_number r ''MaxChargingProfilesInstalled''"
definition meter_value_sample_interval_secs :: "registry \<Rightarrow> u32" where
  "meter_value_sample_interval_secs r = cfg_number r ''MeterValueSampleInterval''"
definition clock_aligned_data_interval_secs :: "registry \<Rightarrow> u32" where
  "clock_aligned_data_interval_secs r = cfg_number r ''ClockAlignedDataInterval''"
definition reset_retries :: "registry \<Rightarrow> u32" where
  "reset_retries r = cfg_number r ''ResetRetries''"
definition local_auth_list_enabled :: "registry \<Rightarrow> bool" where
  "local_auth_list_enabled r = cfg_boolean r ''LocalAuthListEnabled''"
definition local_authorize_offline :: "registry \<Rightarrow> bool" where
  "local_authorize_offline r = cfg_boolean r ''LocalAuthorizeOffline''"
definition local_pre_authorize :: "registry \<Rightarrow> bool" where
  "local_pre_authorize r = cfg_boolean r ''LocalPreAuthorize''"
definition authorization_cache_enabled :: "registry \<Rightarrow> bool" where
  "authorization_cache_enabled r = cfg_boolean r ''AuthorizationCacheEnabled''"
definition allow_offline_tx_for_unknown_id :: "registry \<Rightarrow> bool" where
  "allow_offline_tx_for_unknown_id r = cfg_boolean r ''AllowOfflineTxForUnknownId''"
definition authorize_remote_tx_requests :: "registry \<Rightarrow> bool" where
  "authorize_remote_tx_requests r = cfg_boolean r ''AuthorizeRemoteTxRequests''"
definition stop_transaction_on_invalid_id :: "registry \<Rightarrow> bool" where
  "stop_transaction_on_invalid_id r = cfg_boolean r ''StopTransactionOnInvalidId''"
definition stop_transaction_on_ev_side_disconnect :: "registry \<Rightarrow> bool" where
  "stop_transaction_on_ev_side_disconnect r = cfg_boolean r ''StopTransactionOnEVSideDisconnect''"
definition unlock_connector_on_ev_side_disconnect :: "registry \<Rightarrow> bool" where
  "unlock_connector_on_ev_side_disconnect r = cfg_boolean r ''UnlockConnectorOnEVSideDisconnect''"
definition reserve_connector_zero_supported :: "registry \<Rightarrow> bool" where
  "reserve_connector_zero_supported r = cfg_boolean r ''ReserveConnectorZeroSupported''"
definition allow_security_profile_downgrade :: "registry \<Rightarrow> bool" where
  "allow_security_profile_downgrade r = cfg_boolean r ''AllowSecurityProfileDowngrade''"
definition transaction_message_attempts :: "registry \<Rightarrow> u32" where
  "transaction_message_attempts r = max (cfg_number r ''TransactionMessageAttempts'') 1"
definition transaction_message_retry_interval :: "registry \<Rightarrow> duration" where
  "transaction_message_retry_interval r = secs (cfg_number r ''TransactionMessageRetryInterval'')"
definition minimum_status_duration :: "registry \<Rightarrow> duration" where
  "minimum_status_duration r = secs (cfg_number r ''MinimumStatusDuration'')"
definition authorization_key :: "registry \<Rightarrow> string option" where
  "authorization_key r = option_filter (\<lambda>v. v \<noteq> []) (cfg_value r ''AuthorizationKey'')"
definition security_profile :: "registry \<Rightarrow> nat" where
  "security_profile r = (let n = cfg_number r ''SecurityProfile'' in if n \<le> 255 then n else 0)"
definition allow_central_system_tls_wildcards :: "registry \<Rightarrow> bool" where
  "allow_central_system_tls_wildcards r = cfg_boolean r ''AllowCentralSystemTLSWildcards''"
definition cert_signing_wait_minimum_secs :: "registry \<Rightarrow> u64" where
  "cert_signing_wait_minimum_secs r = max (cfg_number r ''CertSigningWaitMinimum'') 1"
definition cert_signing_repeat_times :: "registry \<Rightarrow> u32" where
  "cert_signing_repeat_times r = cfg_number r ''CertSigningRepeatTimes''"
definition cpo_name :: "registry \<Rightarrow> string" where
  "cpo_name r = unwrap_or (cfg_value r ''CpoName'') []"
definition additional_root_certificate_check :: "registry \<Rightarrow> bool" where
  "additional_root_certificate_check r = (cfg_value r ''AdditionalRootCertificateCheck'' = Some ''true'')"
definition certificate_store_max_length :: "registry \<Rightarrow> nat" where
  "certificate_store_max_length r = cfg_number r ''CertificateStoreMaxLength''"
definition certificate_signed_max_chain_size :: "registry \<Rightarrow> nat" where
  "certificate_signed_max_chain_size r = cfg_number r ''CertificateSignedMaxChainSize''"

definition set_authorization_key :: "registry \<Rightarrow> string \<Rightarrow> registry" where
  "set_authorization_key r key = set_internal r ''AuthorizationKey'' key"

definition charging_rate_unit_allowed :: "registry \<Rightarrow> charging_rate_unit \<Rightarrow> bool" where
  "charging_rate_unit_allowed r unit =
     is_some_and (cfg_value r ''ChargingScheduleAllowedChargingRateUnit'')
       (\<lambda>v. (case unit of Unit_A \<Rightarrow> ''Current'' | Unit_W \<Rightarrow> ''Power'') \<in> set (list_items v))"

definition cfg_measurands :: "registry \<Rightarrow> string \<Rightarrow> measurand list" where
  "cfg_measurands r name =
     (let ms = (case cfg_value r name of
                  None \<Rightarrow> []
                | Some v \<Rightarrow> List.map_filter measurand_from_str (list_items v))
      in if ms = [] then DEFAULT_SAMPLED_DATA else ms)"

subsection \<open>The \<open>GetConfiguration\<close> handler\<close>

record configuration_key =
  ck_key :: string
  ck_readonly :: bool
  ck_value :: "string option"

record get_configuration_response =
  gr_configuration_key :: "configuration_key list option"
  gr_unknown_key :: "string list option"

definition then_some_list :: "'a list \<Rightarrow> 'a list option" where
  "then_some_list xs = (if xs = [] then None else Some xs)"

text \<open>The answer to the CALL: a CALLERROR with its code and the two counts it names, or the report.\<close>

definition get_configuration_handler ::
  "registry \<Rightarrow> string list option \<Rightarrow> (error_code \<times> nat \<times> nat) + get_configuration_response" where
  "get_configuration_handler r key =
     (case get_configuration r (unwrap_or key []) of
        Inl (requested, mx) \<Rightarrow> Inl (OccurenceConstraintViolation, requested, mx)
      | Inr report \<Rightarrow>
          Inr \<lparr>gr_configuration_key = then_some_list
                 (map (\<lambda>e. \<lparr>ck_key = ce_key e, ck_readonly = ce_readonly e,
                             ck_value = (if \<not> secret e then Some (ce_value e) else None)\<rparr>)
                   (rep_configuration_key report)),
               gr_unknown_key = then_some_list (rep_unknown_key report)\<rparr>)"

end
