(* ===== verification/Metering.thy ===== *)
theory Metering
  imports Smart_Charging Config_Registry
begin

text \<open>
  The pure half of metering (\<open>station/metering.rs\<close>): the readings derived from the register and
  the power model, the sampled values with their texts, the meter values of a stopped transaction,
  the parser of measurand lists and the clock-aligned schedule.
\<close>

subsection \<open>Wire enumerations and records\<close>

datatype phase = L1 | L2 | L3 | Phase_N | L1N | L2N | L3N | L1L2 | L2L3 | L3L1

datatype location = Cable | EV | Inlet | Outlet | Body

datatype unit_of_measure =
  Wh | KWh | Varh | Kvarh | Watt | KW | VA | KVA | Var | Kvar | Ampere | Volt | Kelvin
| Celcius | Celsius | Fahrenheit | Percent

datatype reading_context =
  InterruptionBegin | InterruptionEnd | SampleClock | SamplePeriodic
| TransactionBegin | TransactionEnd | Trigger | Ctx_Other

datatype value_format = Raw | SignedData

record sampled_value =
  sv_value :: string
  sv_context :: "reading_context option"
  sv_format :: "value_format option"
  sv_measurand :: "measurand option"
  sv_phase :: "phase option"
  sv_location :: "location option"
  sv_unit :: "unit_of_measure option"

record meter_value =
  mv_timestamp :: instant
  mv_sampled_value :: "sampled_value list"

text \<open>The electrical fields of \<open>StationConfig\<close>.\<close>

record electrical_config =
  el_nominal_power_w :: u32
  el_voltage_v :: u32
  el_phases :: nat

definition power_model_from_config :: "electrical_config \<Rightarrow> power_model" where
  "power_model_from_config c =
     \<lparr>pm_nominal_w = f64_from (int (el_nominal_power_w c)),
      pm_voltage_v = f64_from (int (el_voltage_v c)), pm_phases = max (el_phases c) 1\<rparr>"

definition energy_wh_for :: "(int \<Rightarrow> f64) \<Rightarrow> f64 \<Rightarrow> duration \<Rightarrow> f64" where
  "energy_wh_for secs_f64 power_w elapsed =
     f_div (f_mul power_w (secs_f64 (int elapsed))) (f64_from 3600)"

record meter_reading =
  mr_energy_wh :: f64
  mr_charging :: bool
  mr_power_w :: f64
  mr_offered_w :: f64
  mr_interval_wh :: f64

subsection \<open>Numbers and texts\<close>

text \<open>\<open>as i64\<close>: truncation towards zero, saturating, NaN to zero.\<close>

fun as_i64 :: "f64 \<Rightarrow> i64" where
  "as_i64 NaN = 0"
| "as_i64 (Inf s) = (if s then - i64_max - 1 else i64_max)"
| "as_i64 (Fin s m) =
     (if s then max (- \<lfloor>m\<rfloor>) (- i64_max - 1) else min \<lfloor>m\<rfloor> i64_max)"

definition floor_i64 :: "f64 \<Rightarrow> i64" where
  "floor_i64 v = as_i64 (f_floor v)"

definition round_half_up :: "f64 \<Rightarrow> i64" where
  "round_half_up v = as_i64 (f_floor (f_add v (Fin False (1 / 2))))"

definition show_int :: "int \<Rightarrow> string" where
  "show_int i = (if i < 0 then CHR ''-'' # show_nat (nat (- i)) else show_nat (nat i))"

text \<open>Rust's \<open>{:.1}\<close>: the exact value with one decimal, halves to the even digit.\<close>

fun fixed1 :: "f64 \<Rightarrow> string" where
  "fixed1 NaN = ''NaN''"
| "fixed1 (Inf s) = (if s then ''-inf'' else ''inf'')"
| "fixed1 (Fin s m) =
     (let n = nat (ties_even (m * 10)) in
      (if s then ''-'' else '''') @ show_nat (n div 10) @ ''.'' @ show_nat (n mod 10))"

definition strip_suffix :: "string \<Rightarrow> string \<Rightarrow> string option" where
  "strip_suffix suffix v =
     (let n = length v - length suffix in
      if length suffix \<le> length v \<and> drop n v = suffix then Some (take n v) else None)"

definition format_decimal :: "f64 \<Rightarrow> string" where
  "format_decimal v = (let fixed = fixed1 v in unwrap_or (strip_suffix ''.0'' fixed) fixed)"

subsection \<open>Readings\<close>

record readings =
  rd_charging :: bool
  rd_energy_wh :: f64
  rd_interval_wh :: f64
  rd_power_w :: f64
  rd_offered_w :: f64
  rd_voltage_v :: f64
  rd_current_a :: f64
  rd_offered_a :: f64
  rd_temperature_c :: i64
  rd_soc_percent :: i64

definition compute_readings :: "power_model \<Rightarrow> meter_reading \<Rightarrow> readings" where
  "compute_readings m r =
     (let energy = mr_energy_wh r; charging = mr_charging r;
          cycle = \<bar>round_half_up (f_div energy (f64_from 120))\<bar> mod 8;
          power = (if charging then mr_power_w r else f_zero);
          temperature = (if charging
            then 29 + cycle + min (floor_i64 (f_div energy (f64_from 3000))) 8 else 25);
          soc = (if charging
            then max 18 (min (18 + floor_i64 (f_div energy (f64_from 450))) 96) else 0)
      in \<lparr>rd_charging = charging, rd_energy_wh = energy, rd_interval_wh = mr_interval_wh r,
          rd_power_w = power, rd_offered_w = mr_offered_w r, rd_voltage_v = pm_voltage_v m,
          rd_current_a = watts_to_amps m power, rd_offered_a = watts_to_amps m (mr_offered_w r),
          rd_temperature_c = temperature, rd_soc_percent = soc\<rparr>)"

text \<open>Text, unit, location and phase of one measurand.\<close>

fun measured ::
  "readings \<Rightarrow> measurand \<Rightarrow> string \<times> unit_of_measure option \<times> location option \<times> phase option" where
  "measured r EnergyActiveImportRegister =
     (show_int (round_half_up (rd_energy_wh r)), Some Wh, Some Outlet, None)"
| "measured r EnergyActiveExportRegister = (''0'', Some Wh, Some Outlet, None)"
| "measured r EnergyActiveExportInterval = (''0'', Some Wh, Some Outlet, None)"
| "measured r EnergyReactiveImportRegister = (''0'', Some Varh, Some Outlet, None)"
| "measured r EnergyReactiveExportRegister = (''0'', Some Varh, Some Outlet, None)"
| "measured r EnergyReactiveImportInterval = (''0'', Some Varh, Some Outlet, None)"
| "measured r EnergyReactiveExportInterval = (''0'', Some Varh, Some Outlet, None)"
| "measured r EnergyActiveImportInterval =
     (show_int (round_half_up (rd_interval_wh r)), Some Wh, Some Outlet, None)"
| "measured r PowerActiveImport = (format_decimal (rd_power_w r), Some Watt, Some Outlet, None)"
| "measured r PowerActiveExport = (''0'', Some Watt, Some Outlet, None)"
| "measured r PowerOffered = (format_decimal (rd_offered_w r), Some Watt, Some Outlet, None)"
| "measured r PowerReactiveImport = (''0'', Some Var, Some Outlet, None)"
| "measured r PowerReactiveExport = (''0'', Some Var, Some Outlet, None)"
| "measured r PowerFactor = (if rd_charging r then ''1'' else ''0'', None, Some Outlet, None)"
| "measured r CurrentImport = (format_decimal (rd_current_a r), Some Ampere, Some Outlet, Some L1)"
| "measured r CurrentExport = (''0'', Some Ampere, Some Outlet, Some L1)"
| "measured r CurrentOffered = (format_decimal (rd_offered_a r), Some Ampere, Some Outlet, Some L1)"
| "measured r Voltage = (format_decimal (rd_voltage_v r), Some Volt, Some Outlet, Some L1N)"
| "measured r Frequency = (''50'', None, Some Outlet, None)"
| "measured r Temperature = (show_int (rd_temperature_c r), Some Celsius, Some Body, None)"
| "measured r SoC = (show_int (rd_soc_percent r), Some Percent, Some EV, None)"
| "measured r Rpm = (''0'', None, Some Body, None)"

definition sampled_value_of :: "readings \<Rightarrow> reading_context \<Rightarrow> measurand \<Rightarrow> sampled_value" where
  "sampled_value_of r context m =
     (case measured r m of (value, unit, location, phase) \<Rightarrow>
        \<lparr>sv_value = value, sv_context = Some context, sv_format = Some Raw, sv_measurand = Some m,
         sv_phase = phase, sv_location = location, sv_unit = unit\<rparr>)"

definition meter_value_of ::
  "power_model \<Rightarrow> meter_reading \<Rightarrow> instant \<Rightarrow> measurand list \<Rightarrow> reading_context \<Rightarrow> meter_value" where
  "meter_value_of m r t measurands context =
     \<lparr>mv_timestamp = t,
      mv_sampled_value = map (sampled_value_of (compute_readings m r) context) measurands\<rparr>"

definition stop_transaction_data ::
  "power_model \<Rightarrow> meter_reading \<Rightarrow> instant \<Rightarrow> measurand list \<Rightarrow> measurand list \<Rightarrow> meter_value list" where
  "stop_transaction_data m r t sampled_data aligned_data =
     (if sampled_data \<noteq> [] then [meter_value_of m r t sampled_data TransactionEnd] else [])
     @ (if aligned_data \<noteq> [] then [meter_value_of m r t aligned_data SampleClock] else [])"

subsection \<open>Measurand lists\<close>

datatype sampled_data_error = Empty_list | Unknown_items "string list"

definition parse_sampled_data :: "string \<Rightarrow> sampled_data_error + measurand list" where
  "parse_sampled_data v =
     (let items = list_items v;
          unknown = filter (\<lambda>i. measurand_from_str i = None) items
      in if items = [] then Inl Empty_list
         else if unknown = [] then Inr (List.map_filter measurand_from_str items)
         else Inl (Unknown_items unknown))"

definition configured_measurands :: "string option \<Rightarrow> measurand list" where
  "configured_measurands v =
     (let ms = List.map_filter measurand_from_str (list_items (unwrap_or v ''''))
      in if ms = [] then DEFAULT_SAMPLED_DATA else ms)"

subsection \<open>Clock alignment\<close>

definition timestamp_millis :: "instant \<Rightarrow> i64" where
  "timestamp_millis t = t div ns_per_ms"

text \<open>The delay is a \<open>TimeDelta\<close>, in nanoseconds.\<close>

definition clock_aligned_delay :: "instant \<Rightarrow> u32 \<Rightarrow> int option" where
  "clock_aligned_delay now interval_s =
     (if interval_s = 0 then None
      else
        let period_ms = int interval_s * 1000;
            remainder = timestamp_millis now mod period_ms;
            delay_ms = (if remainder = 0 then period_ms else period_ms - remainder)
        in Some (delay_ms * ns_per_ms))"

definition next_clock_aligned ::
  "(instant \<Rightarrow> i64 \<Rightarrow> instant option) \<Rightarrow> instant \<Rightarrow> u32 \<Rightarrow> instant option" where
  "next_clock_aligned add now interval_s =
     Option.bind (clock_aligned_delay now interval_s) (\<lambda>d. add now (d div ns_per_ms))"

subsection \<open>Laws\<close>

text \<open>
  The clock-aligned timer.  The delay is positive and at most one interval; it ends in the
  millisecond at which the next multiple of the interval since the epoch begins, and no such
  multiple is skipped.
\<close>

theorem clock_aligned_delay_correct:
  "0 < interval_s \<Longrightarrow>
   (\<exists>d. clock_aligned_delay now interval_s = Some d
      \<and> 0 < d \<and> d \<le> int interval_s * ns_per_s
      \<and> (int interval_s * 1000) dvd timestamp_millis (now + d)
      \<and> (\<forall>t. timestamp_millis now < t \<and> t < timestamp_millis (now + d) \<longrightarrow> \<not> (int interval_s * 1000) dvd t))"
proof -
  assume pos: "0 < interval_s"
  define p where "p = int interval_s * 1000"
  define ms where "ms = timestamp_millis now"
  define r where "r = ms mod p"
  define d where "d = (if r = 0 then p else p - r)"
  have p: "0 < p" using pos by (simp add: p_def)
  have r: "0 \<le> r" "r < p" using p by (simp_all add: r_def)
  have d: "0 < d" "d \<le> p" using r p by (auto simp: d_def)
  have eq: "clock_aligned_delay now interval_s = Some (d * ns_per_ms)"
    using pos by (simp add: clock_aligned_delay_def Let_def d_def r_def ms_def p_def)
  have tm: "timestamp_millis (now + d * ns_per_ms) = ms + d"
    by (simp add: timestamp_millis_def ms_def ns_per_ms_def)
  have ms: "ms = p * (ms div p) + r" by (simp add: r_def)
  have "ms + d = p * (ms div p + 1)"
    using ms by (cases "r = 0") (simp_all add: d_def algebra_simps)
  then have dvd: "p dvd ms + d" by simp
  have none: "\<not> p dvd t" if "ms < t" "t < ms + d" for t
  proof
    assume "p dvd t"
    then obtain k where k: "t = p * k" by blast
    have "p * (ms div p) \<le> ms" using ms r by linarith
    with k that have "p * (ms div p) < p * k" by linarith
    with p have "ms div p < k" by simp
    then have "ms div p + 1 \<le> k" by simp
    with p have "p * (ms div p + 1) \<le> p * k" by (intro mult_left_mono) auto
    with \<open>ms + d = p * (ms div p + 1)\<close> k that show False by simp
  qed
  show ?thesis
  proof (intro exI [of _ "d * ns_per_ms"] conjI)
    show "0 < d * ns_per_ms" using d by (simp add: ns_per_ms_def)
    show "d * ns_per_ms \<le> int interval_s * ns_per_s"
      using d by (simp add: p_def ns_per_ms_def ns_per_s_def)
    show "int interval_s * 1000 dvd timestamp_millis (now + d * ns_per_ms)"
      using dvd tm by (simp add: p_def)
    show "\<forall>t. timestamp_millis now < t \<and> t < timestamp_millis (now + d * ns_per_ms) \<longrightarrow> \<not> int interval_s * 1000 dvd t"
      using none tm by (simp add: p_def ms_def)
  qed (rule eq)
qed

lemma map_filter_all:
  "\<forall>x\<in>set xs. f x \<noteq> None \<Longrightarrow> List.map_filter f xs = map (\<lambda>x. the (f x)) xs"
  by (induction xs) (auto simp: List.map_filter_def)

text \<open>
  A measurand list that \<open>parse_sampled_data\<close> accepts is used as it is: the sampler takes
  its items, in order, and none is dropped or replaced by the defaults.
\<close>

theorem accepted_measurands_used:
  "parse_sampled_data v = Inr ms \<Longrightarrow>
   ms \<noteq> [] \<and> configured_measurands (Some v) = ms
   \<and> map (Some \<circ> Some) ms = map (\<lambda>i. Some (measurand_from_str i)) (list_items v)"
proof -
  assume p: "parse_sampled_data v = Inr ms"
  then have items: "list_items v \<noteq> []"
    and known: "\<forall>i\<in>set (list_items v). measurand_from_str i \<noteq> None"
    and ms: "ms = List.map_filter measurand_from_str (list_items v)"
    by (auto simp: parse_sampled_data_def Let_def filter_empty_conv split: if_splits)
  have eq: "ms = map (\<lambda>x. the (measurand_from_str x)) (list_items v)"
    using ms known by (simp add: map_filter_all)
  then have "ms \<noteq> []" using items by simp
  with eq ms known show ?thesis
    by (simp add: configured_measurands_def Let_def)
qed

text \<open>
  The transaction data of a \<open>StopTransaction\<close>: at most two meter values, none of them
  without samples, all taken at the instant of the stop, one sample per configured measurand and in
  the configured order, the end-of-transaction values first.
\<close>

theorem stop_transaction_data_shape:
  "(\<forall>mv\<in>set (stop_transaction_data m r t sampled aligned). mv_timestamp mv = t \<and> mv_sampled_value mv \<noteq> [])
   \<and> concat (map mv_sampled_value (stop_transaction_data m r t sampled aligned))
     = map (sampled_value_of (compute_readings m r) TransactionEnd) sampled
       @ map (sampled_value_of (compute_readings m r) SampleClock) aligned
   \<and> length (stop_transaction_data m r t sampled aligned) \<le> 2"
  by (auto simp: stop_transaction_data_def meter_value_of_def)

lemma as_i64_nonneg: "nonneg x \<Longrightarrow> 0 \<le> as_i64 x"
  by (auto simp: nonneg_iff i64_max_def)

lemma f_floor_nonneg: "nonneg x \<Longrightarrow> nonneg (f_floor x)"
  by (auto simp: nonneg_iff)

lemma f_div_nonneg_from: "nonneg x \<Longrightarrow> 0 < n \<Longrightarrow> nonneg (f_div x (f64_from n))"
  unfolding f64_from_def
  by (auto simp: nonneg_iff) (use rnd_cases in \<open>metis divide_nonneg_pos of_int_0_less_iff rnd_nonneg nonneg_iff\<close>,
      simp add: rnd_def)

text \<open>
  The decorative readings stay in range: while charging the state of charge is between 18
  and 96 percent, otherwise zero; an idle connector reports no power and 25 degrees; a
  charging one with a non-negative register between 29 and 44 degrees.
\<close>

theorem readings_in_range:
  "nonneg (mr_energy_wh r) \<Longrightarrow>
   (if mr_charging r
    then 18 \<le> rd_soc_percent (compute_readings m r) \<and> rd_soc_percent (compute_readings m r) \<le> 96
       \<and> 29 \<le> rd_temperature_c (compute_readings m r) \<and> rd_temperature_c (compute_readings m r) \<le> 44
       \<and> rd_power_w (compute_readings m r) = mr_power_w r
    else rd_soc_percent (compute_readings m r) = 0 \<and> rd_temperature_c (compute_readings m r) = 25
       \<and> rd_power_w (compute_readings m r) = f_zero)"
proof -
  assume e: "nonneg (mr_energy_wh r)"
  have "0 \<le> floor_i64 (f_div (mr_energy_wh r) (f64_from 3000))"
    unfolding floor_i64_def by (intro as_i64_nonneg f_floor_nonneg f_div_nonneg_from e) simp
  moreover have "0 \<le> \<bar>x\<bar> mod 8 \<and> \<bar>x\<bar> mod 8 \<le> 7" for x :: int
    using pos_mod_bound [of 8 "\<bar>x\<bar>"] by auto
  ultimately show ?thesis
    by (auto simp: compute_readings_def Let_def min_def max_def add_nonneg_nonneg intro: add_mono)
qed

subsection \<open>Concrete readings\<close>

definition demo_meter :: "f64 \<Rightarrow> bool \<Rightarrow> meter_reading" where
  "demo_meter wh charging =
     \<lparr>mr_energy_wh = wh, mr_charging = charging, mr_power_w = Fin False 11000,
      mr_offered_w = Fin False 22000, mr_interval_wh = f_zero\<rparr>"

definition demo_model :: power_model where
  "demo_model = \<lparr>pm_nominal_w = Fin False 22000, pm_voltage_v = Fin False 230, pm_phases = 3\<rparr>"

theorem clock_aligned_delay_correct_witness:
  "\<exists>d. clock_aligned_delay 1500000000 900 = Some d \<and> 0 < d
     \<and> (int 900 * 1000) dvd timestamp_millis (1500000000 + d)"
  using clock_aligned_delay_correct [of 900 1500000000] by (auto simp del: dvd_add_left_iff)

theorem accepted_measurands_used_witness:
  "configured_measurands (Some ''SoC, Voltage'') = [SoC, Voltage]"
proof -
  have "parse_sampled_data ''SoC, Voltage'' = Inr [SoC, Voltage]" by code_simp
  from accepted_measurands_used [OF this] show ?thesis by simp
qed

theorem stop_transaction_data_shape_witness:
  "map mv_timestamp (stop_transaction_data demo_model (demo_meter f_zero False) 7 [SoC] [Voltage]) = [7, 7]"
proof -
  have "stop_transaction_data demo_model (demo_meter f_zero False) 7 [SoC] [Voltage] =
      [meter_value_of demo_model (demo_meter f_zero False) 7 [SoC] TransactionEnd,
       meter_value_of demo_model (demo_meter f_zero False) 7 [Voltage] SampleClock]"
    by (simp add: stop_transaction_data_def)
  then show ?thesis
    using stop_transaction_data_shape [of demo_model "demo_meter f_zero False" 7 "[SoC]" "[Voltage]"] by simp
qed

theorem readings_in_range_witness:
  "rd_temperature_c (compute_readings demo_model (demo_meter (Fin False 9000) True)) \<le> 44"
  using readings_in_range [of "demo_meter (Fin False 9000) True" demo_model]
  by (simp add: demo_meter_def nonneg_iff)

end
