(* ===== verification/Offline_Queue.thy ===== *)
theory Offline_Queue
  imports Connector Metering Bounded_Store
begin

text \<open>
  The queue of transactions the central system has not fully seen (\<open>station/offline.rs\<close>): the
  entries, the bounded \<open>push\<close> with its choice of a victim, lookup, update and removal.  The
  interpretation \<open>queue\<close> gives the bound and the distinctness of the keys for any sequence of
  operations.
\<close>

definition MAX_QUEUED_TRANSACTIONS :: nat where
  "MAX_QUEUED_TRANSACTIONS = 1000"

record stop_info =
  si_id_tag :: "id_tag option"
  si_meter_stop_wh :: u64
  si_timestamp :: instant
  si_reason :: stop_reason
  si_transaction_data :: "meter_value list"

record offline_tx =
  ox_key :: u64
  ox_connector :: connector_id
  ox_tx_id :: tx_id
  ox_id_tag :: id_tag
  ox_started_at :: instant
  ox_meter_start_wh :: u64
  ox_reservation_id :: "reservation_id option"
  ox_start_pending :: bool
  ox_stop :: "stop_info option"

type_synonym offline_queue = "offline_tx list"

definition oq_push :: "offline_queue \<Rightarrow> offline_tx \<Rightarrow> offline_queue \<times> offline_tx option" where
  "oq_push q e =
     (let q1 = q @ [e] in
      if length q1 \<le> MAX_QUEUED_TRANSACTIONS then (q1, None)
      else let index = unwrap_or (position (\<lambda>x. \<not> ox_start_pending x) q1) 0
           in (remove_nth index q1, Some (q1 ! index)))"

definition oq_get :: "offline_queue \<Rightarrow> u64 \<Rightarrow> offline_tx option" where
  "oq_get q k = find (\<lambda>e. ox_key e = k) q"

text \<open>\<open>get_mut\<close> and \<open>find_by_tx_on\<close> hand out a reference; the update made through it is an argument.\<close>

definition oq_update :: "u64 \<Rightarrow> (offline_tx \<Rightarrow> offline_tx) \<Rightarrow> offline_queue \<Rightarrow> offline_queue" where
  "oq_update k f q = update_first (\<lambda>e. ox_key e = k) f q"

definition oq_find_by_tx :: "offline_queue \<Rightarrow> tx_id \<Rightarrow> offline_tx option" where
  "oq_find_by_tx q tx = find (\<lambda>e. ox_tx_id e = tx) q"

definition on_tx :: "connector_id \<Rightarrow> tx_id \<Rightarrow> offline_tx \<Rightarrow> bool" where
  "on_tx c tx e = (ox_tx_id e = tx \<and> ox_connector e = c)"

definition oq_find_by_tx_on :: "offline_queue \<Rightarrow> connector_id \<Rightarrow> tx_id \<Rightarrow> offline_tx option" where
  "oq_find_by_tx_on q c tx = find (on_tx c tx) q"

definition oq_remove :: "offline_queue \<Rightarrow> u64 \<Rightarrow> offline_queue \<times> offline_tx option" where
  "oq_remove q k =
     (case position (\<lambda>e. ox_key e = k) q of
        None \<Rightarrow> (q, None)
      | Some index \<Rightarrow> (remove_nth index q, Some (q ! index)))"

definition oq_keys :: "offline_queue \<Rightarrow> u64 list" where
  "oq_keys q = map ox_key q"

definition oq_is_empty :: "offline_queue \<Rightarrow> bool" where
  "oq_is_empty q = (q = [])"

definition pending_messages :: "offline_queue \<Rightarrow> u32" where
  "pending_messages q =
     (let count = sum_list (map (\<lambda>e. of_bool (ox_start_pending e) + of_bool (ox_stop e \<noteq> None)) q)
      in if count \<le> u32_max then count else u32_max)"

subsection \<open>Removing one element\<close>

lemma remove_nth_app: "i < length xs \<Longrightarrow> remove_nth i (xs @ ys) = remove_nth i xs @ ys"
  by (simp add: remove_nth_def)

lemma set_remove_nth:
  "i < length xs \<Longrightarrow> set xs = insert (xs ! i) (set (remove_nth i xs))"
  by (subst remove_nth_perm, assumption) (auto simp: remove_nth_def)

lemma remove_nth_filter:
  assumes "distinct (map f xs)" and "i < length xs"
  shows "remove_nth i xs = filter (\<lambda>x. f x \<noteq> f (xs ! i)) xs"
proof -
  have split: "xs = take i xs @ xs ! i # drop (Suc i) xs" by (rule remove_nth_perm [OF assms(2)])
  have "distinct (map f (take i xs @ xs ! i # drop (Suc i) xs))" using assms(1) split by simp
  then have a: "\<forall>x\<in>set (take i xs). f x \<noteq> f (xs ! i)"
    and b: "\<forall>x\<in>set (drop (Suc i) xs). f x \<noteq> f (xs ! i)"
    by (auto simp: image_iff)
  have "filter (\<lambda>x. f x \<noteq> f (xs ! i)) xs
      = filter (\<lambda>x. f x \<noteq> f (xs ! i)) (take i xs @ xs ! i # drop (Suc i) xs)"
    using split by simp
  also have "\<dots> = remove_nth i xs" using a b by (simp add: remove_nth_def)
  finally show ?thesis by simp
qed

lemma remove_nth_Cons: "remove_nth (Suc i) (x # xs) = x # remove_nth i xs" "remove_nth 0 (x # xs) = xs"
  by (simp_all add: remove_nth_def)

subsection \<open>Laws of the queue\<close>

text \<open>The keys are distinct; the length stays within the bound.\<close>

definition queue_wf :: "offline_queue \<Rightarrow> bool" where
  "queue_wf q = distinct (oq_keys q)"

lemma oq_push_cases:
  obtains (room) "length q < MAX_QUEUED_TRANSACTIONS" "oq_push q e = (q @ [e], None)"
  | (full) i where "MAX_QUEUED_TRANSACTIONS \<le> length q" "i < length (q @ [e])"
      "oq_push q e = (remove_nth i (q @ [e]), Some ((q @ [e]) ! i))"
      "\<And>x. ox_start_pending ((q @ [e]) ! i) \<Longrightarrow> x \<in> set (q @ [e]) \<Longrightarrow> ox_start_pending x"
proof (cases "length q < MAX_QUEUED_TRANSACTIONS")
  case True
  then show thesis by (intro room) (auto simp: oq_push_def Let_def)
next
  case False
  let ?p = "position (\<lambda>x. \<not> ox_start_pending x) (q @ [e])"
  have r: "oq_push q e = (remove_nth (unwrap_or ?p 0) (q @ [e]), Some ((q @ [e]) ! unwrap_or ?p 0))"
    using False by (simp add: oq_push_def Let_def)
  show thesis
  proof (cases ?p)
    case None
    with r False show thesis by (intro full [of 0]) (auto simp: position_None)
  next
    case (Some i)
    from position_SomeD [OF this] r False Some show thesis by (intro full [of i]) auto
  qed
qed

lemma oq_push_room: "length q < MAX_QUEUED_TRANSACTIONS \<Longrightarrow> oq_push q e = (q @ [e], None)"
  by (simp add: oq_push_def Let_def)

lemma oq_push_set:
  "set (fst (oq_push q e)) \<subseteq> insert e (set q)
   \<and> insert e (set q) = set (fst (oq_push q e)) \<union> set_option (snd (oq_push q e))"
proof (cases rule: oq_push_cases [of q e])
  case (full i)
  then show ?thesis
    using set_remove_nth [OF full(2)] set_remove_nth_subset [of i "q @ [e]"] by auto
qed auto

lemma oq_push_wf: "queue_wf q \<Longrightarrow> ox_key e \<notin> set (oq_keys q) \<Longrightarrow> queue_wf (fst (oq_push q e))"
  by (cases rule: oq_push_cases [of q e])
     (auto simp: queue_wf_def oq_keys_def intro!: distinct_map_remove_nth)

lemma oq_push_length: "length (fst (oq_push q e)) \<le> max MAX_QUEUED_TRANSACTIONS (length q)"
  by (cases rule: oq_push_cases [of q e]) (auto simp: length_remove_nth)

lemma find_key_distinct: "queue_wf q \<Longrightarrow> e \<in> set q \<Longrightarrow> oq_get q (ox_key e) = Some e"
  by (induction q) (auto simp: queue_wf_def oq_keys_def oq_get_def)

lemma oq_get_SomeD: "oq_get q k = Some e \<Longrightarrow> e \<in> set q \<and> ox_key e = k"
  by (induction q) (auto simp: oq_get_def split: if_splits)

lemma oq_find_by_tx_onD: "oq_find_by_tx_on q c tx = Some e \<Longrightarrow> e \<in> set q \<and> ox_tx_id e = tx \<and> ox_connector e = c"
  by (induction q) (auto simp: oq_find_by_tx_on_def on_tx_def split: if_splits)

lemma oq_find_by_tx_on_NoneD: "oq_find_by_tx_on q c tx = None \<Longrightarrow> e \<in> set q \<Longrightarrow> \<not> (ox_tx_id e = tx \<and> ox_connector e = c)"
  by (induction q) (auto simp: oq_find_by_tx_on_def on_tx_def split: if_splits)

lemma oq_remove_filter: "queue_wf q \<Longrightarrow> fst (oq_remove q k) = filter (\<lambda>e. ox_key e \<noteq> k) q"
proof (cases "position (\<lambda>e. ox_key e = k) q")
  case None
  then have "filter (\<lambda>e. ox_key e \<noteq> k) q = q" by (simp add: position_None)
  with None show ?thesis by (simp add: oq_remove_def)
next
  case (Some i)
  from position_SomeD [OF this] have i: "i < length q" "ox_key (q ! i) = k" by auto
  assume "queue_wf q"
  then have "distinct (map ox_key q)" by (simp add: queue_wf_def oq_keys_def)
  from remove_nth_filter [OF this i(1)] i Some show ?thesis by (simp add: oq_remove_def)
qed

lemma oq_remove_wf: "queue_wf q \<Longrightarrow> queue_wf (fst (oq_remove q k))"
  by (auto simp: queue_wf_def oq_keys_def oq_remove_def intro: distinct_map_remove_nth split: option.split)

lemma oq_remove_length: "length (fst (oq_remove q k)) \<le> length q"
  by (auto simp: oq_remove_def remove_nth_def split: option.split)

lemma oq_update_keys: "(\<And>e. ox_key (f e) = ox_key e) \<Longrightarrow> oq_keys (oq_update k f q) = oq_keys q"
  by (simp add: oq_keys_def oq_update_def map_update_first)

subsection \<open>Any sequence of operations\<close>

text \<open>An update through a reference never changes a key in the code; \<open>Update\<close> has the two it makes.\<close>

datatype queue_op =
  Push offline_tx
| Set_stop u64 stop_info
| Started u64 tx_id
| Remove u64

fun queue_step :: "offline_queue \<Rightarrow> queue_op \<Rightarrow> offline_queue" where
  "queue_step q (Push e) = (if ox_key e \<in> set (oq_keys q) then q else fst (oq_push q e))"
| "queue_step q (Set_stop k i) = oq_update k (\<lambda>e. e\<lparr>ox_stop := Some i\<rparr>) q"
| "queue_step q (Started k tx) = oq_update k (\<lambda>e. e\<lparr>ox_tx_id := tx, ox_start_pending := False\<rparr>) q"
| "queue_step q (Remove k) = fst (oq_remove q k)"

interpretation queue: bounded_store queue_step queue_wf length "\<lambda>_. MAX_QUEUED_TRANSACTIONS"
proof
  fix s q
  assume wf: "queue_wf s"
  show "queue_wf (queue_step s q)"
    using wf oq_push_wf [of s] oq_remove_wf [of s]
    by (cases q) (auto simp: queue_wf_def oq_update_keys)
  show "length s \<le> MAX_QUEUED_TRANSACTIONS \<Longrightarrow> length (queue_step s q) \<le> MAX_QUEUED_TRANSACTIONS"
  proof (cases q)
    case (Push e)
    assume "length s \<le> MAX_QUEUED_TRANSACTIONS"
    with oq_push_length [of s e] Push show ?thesis by auto
  next
    case (Remove k)
    assume "length s \<le> MAX_QUEUED_TRANSACTIONS"
    with oq_remove_length [of s k] Remove show ?thesis by auto
  qed (auto simp: oq_update_def)
qed auto

text \<open>
  The offline queue keeps its entries in the order they were pushed and never exceeds
  its bound.  An entry is dropped only when the queue is full, exactly one then, and a queued
  start only when every entry, the new one included, is a queued start.
\<close>

theorem oq_push_correct:
  "length q \<le> MAX_QUEUED_TRANSACTIONS \<Longrightarrow>
   (case oq_push q e of
      (q', None) \<Rightarrow> length q < MAX_QUEUED_TRANSACTIONS \<and> q' = q @ [e]
    | (q', Some d) \<Rightarrow>
        length q = MAX_QUEUED_TRANSACTIONS \<and> length q' = MAX_QUEUED_TRANSACTIONS
        \<and> (\<exists>xs ys. q @ [e] = xs @ d # ys \<and> q' = xs @ ys \<and> (\<forall>x\<in>set xs. ox_start_pending x \<and> \<not> ox_start_pending d))
        \<and> (ox_start_pending d \<longrightarrow> d = hd (q @ [e]) \<and> (\<forall>x\<in>set (q @ [e]). ox_start_pending x)))"
proof -
  assume len: "length q \<le> MAX_QUEUED_TRANSACTIONS"
  show ?thesis
  proof (cases "length q < MAX_QUEUED_TRANSACTIONS")
    case True
    then show ?thesis by (simp add: oq_push_room)
  next
    case False
    with len have l: "length q = MAX_QUEUED_TRANSACTIONS" by simp
    let ?q = "q @ [e]" and ?p = "position (\<lambda>x. \<not> ox_start_pending x) (q @ [e])"
    define i where "i = unwrap_or ?p 0"
    have push: "oq_push q e = (remove_nth i ?q, Some (?q ! i))"
      using l by (simp add: oq_push_def Let_def i_def)
    have i: "i < length ?q" by (cases ?p) (auto simp: i_def dest: position_SomeD)
    have parts: "?q = take i ?q @ ?q ! i # drop (Suc i) ?q" by (rule remove_nth_perm [OF i])
    have before: "\<forall>x\<in>set (take i ?q). ox_start_pending x \<and> \<not> ox_start_pending (?q ! i)"
    proof (cases ?p)
      case (Some j)
      from position_SomeD [OF this] have j: "\<not> ox_start_pending (?q ! j)"
        and lt: "\<And>k. k < j \<Longrightarrow> ox_start_pending (?q ! k)" by auto
      show ?thesis
      proof
        fix x assume "x \<in> set (take i ?q)"
        then obtain k where "k < length (take i ?q)" "x = take i ?q ! k"
          unfolding in_set_conv_nth by blast
        then have "k < i" "x = ?q ! k" by (simp_all del: take_append)
        with Some have "k < j" "x = ?q ! k" by (simp_all add: i_def)
        with j lt Some show "ox_start_pending x \<and> \<not> ox_start_pending (?q ! i)" by (simp add: i_def)
      qed
    qed (simp add: i_def)
    have all: "ox_start_pending (?q ! i) \<Longrightarrow> i = 0 \<and> (\<forall>x\<in>set ?q. ox_start_pending x)"
    proof (cases ?p)
      case None
      moreover from this have "\<forall>x\<in>set ?q. ox_start_pending x" by (simp only: position_None) simp
      ultimately show ?thesis by (simp add: i_def)
    next
      case (Some j)
      assume "ox_start_pending (?q ! i)"
      with position_SomeD [OF Some] Some show ?thesis by (simp add: i_def)
    qed
    have "length (remove_nth i ?q) = MAX_QUEUED_TRANSACTIONS"
      using length_remove_nth [OF i] l by simp
    moreover have "\<exists>xs ys. ?q = xs @ ?q ! i # ys \<and> remove_nth i ?q = xs @ ys
        \<and> (\<forall>x\<in>set xs. ox_start_pending x \<and> \<not> ox_start_pending (?q ! i))"
      using parts before by (metis remove_nth_def)
    moreover have "ox_start_pending (?q ! i) \<longrightarrow> ?q ! i = hd ?q \<and> (\<forall>x\<in>set ?q. ox_start_pending x)"
      using all hd_conv_nth [of ?q] by auto
    ultimately show ?thesis using push l by simp
  qed
qed

text \<open>
  Whatever sequence of pushes, stops, delivered starts and removals the station makes,
  the queue holds at most 1000 entries and no key twice.
\<close>

theorem queue_bounded:
  "queue_wf q \<Longrightarrow> length q \<le> MAX_QUEUED_TRANSACTIONS \<Longrightarrow>
   queue_wf (foldl queue_step q ops) \<and> length (foldl queue_step q ops) \<le> MAX_QUEUED_TRANSACTIONS"
  by (simp add: queue.run_wf queue.run_bounded)

subsection \<open>Concrete queues\<close>

definition demo_entry :: "u64 \<Rightarrow> bool \<Rightarrow> offline_tx" where
  "demo_entry k start =
     \<lparr>ox_key = k, ox_connector = 1, ox_tx_id = Local k, ox_id_tag = ''TAG'', ox_started_at = 0,
      ox_meter_start_wh = 0, ox_reservation_id = None, ox_start_pending = start, ox_stop = None\<rparr>"

theorem oq_push_correct_witness:
  "fst (oq_push [demo_entry 1 True] (demo_entry 2 True)) = [demo_entry 1 True, demo_entry 2 True]"
  using oq_push_correct [of "[demo_entry 1 True]" "demo_entry 2 True"]
  by (simp add: MAX_QUEUED_TRANSACTIONS_def oq_push_def Let_def)

theorem queue_bounded_witness:
  "queue_wf (foldl queue_step [demo_entry 1 True] [Push (demo_entry 2 False), Remove 1])"
  using queue_bounded [of "[demo_entry 1 True]" "[Push (demo_entry 2 False), Remove 1]"]
  by (simp add: MAX_QUEUED_TRANSACTIONS_def queue_wf_def oq_keys_def)

end
