(* ===== verification/Local_Auth_List.thy ===== *)
theory Local_Auth_List
  imports Config_Registry Bounded_Store
begin

text \<open>
  The local authorization list (\<open>station/local_auth_list.rs\<close>) and the three handlers of
  \<open>station/handlers/local_list.rs\<close> that touch it: full and differential updates, their limits
  and the version rule.  The lemmas about a sequence of edits come from the map interface
  \<open>keyed_store\<close>, interpreted as \<open>bt\<close>.
\<close>

record local_list_limits =
  ll_enabled :: bool
  ll_max_update_entries :: nat
  ll_max_entries :: nat

definition limits_from_config :: "registry \<Rightarrow> local_list_limits" where
  "limits_from_config config =
     \<lparr>ll_enabled = local_auth_list_enabled config,
      ll_max_update_entries = send_local_list_max_length config,
      ll_max_entries = local_auth_list_max_length config\<rparr>"

record local_auth_list =
  la_version :: i32
  la_entries :: "(id_tag, id_tag_info) btree"

definition local_auth_list_default :: local_auth_list where
  "local_auth_list_default = \<lparr>la_version = 0, la_entries = bt_empty\<rparr>"

definition list_get :: "local_auth_list \<Rightarrow> id_tag \<Rightarrow> id_tag_info option" where
  "list_get l id_tag = bt_get (la_entries l) id_tag"

definition reported_version :: "local_auth_list \<Rightarrow> bool \<Rightarrow> i32" where
  "reported_version l enabled = (if enabled then la_version l else - 1)"

text \<open>One item of an update: an entry to store, or, without \<open>idTagInfo\<close>, one to remove.\<close>

type_synonym authorization_data = "id_tag \<times> id_tag_info option"

record send_local_list_request =
  sl_list_version :: i32
  sl_local_authorization_list :: "authorization_data list option"
  sl_update_type :: update_type

definition apply_item ::
  "(id_tag, id_tag_info) btree \<Rightarrow> authorization_data \<Rightarrow> (id_tag, id_tag_info) btree" where
  "apply_item m item =
     (case item of (k, v) \<Rightarrow> (case v of None \<Rightarrow> bt_remove k m | Some x \<Rightarrow> bt_insert k x m))"

definition apply_list ::
  "local_auth_list \<Rightarrow> send_local_list_request \<Rightarrow> local_list_limits \<Rightarrow> local_auth_list \<times> update_status" where
  "apply_list l request limits =
     (if \<not> ll_enabled limits then (l, Upd_NotSupported)
      else
        let update = unwrap_or (sl_local_authorization_list request) [] in
        if length update > ll_max_update_entries limits then (l, Upd_Failed)
        else
          let full = (sl_update_type request = Full) in
          if full \<and> (\<exists>item\<in>set update. snd item = None) then (l, Upd_Failed)
          else
            let next = foldl apply_item (if full then bt_empty else la_entries l) update in
            if length next > ll_max_entries limits then (l, Upd_Failed)
            else if \<not> full \<and> sl_list_version request \<le> la_version l then (l, Upd_VersionMismatch)
            else (l\<lparr>la_entries := next, la_version := sl_list_version request\<rparr>, Upd_Accepted))"

text \<open>The handlers; \<open>send_local_list\<close> also says whether the list is to be persisted.\<close>

definition send_local_list ::
  "registry \<Rightarrow> local_auth_list \<Rightarrow> send_local_list_request \<Rightarrow> local_auth_list \<times> bool \<times> update_status" where
  "send_local_list config l request =
     (case apply_list l request (limits_from_config config) of
        (l', status) \<Rightarrow> (l', status = Upd_Accepted, status))"

definition get_local_list_version :: "registry \<Rightarrow> local_auth_list \<Rightarrow> i32" where
  "get_local_list_version config l = reported_version l (local_auth_list_enabled config)"

subsection \<open>Laws\<close>

definition list_wf :: "local_auth_list \<Rightarrow> bool" where
  "list_wf l = bt_wf (la_entries l)"

lemma apply_item_eq: "apply_item = (\<lambda>m (k, v). case v of None \<Rightarrow> bt_remove k m | Some x \<Rightarrow> bt_insert k x m)"
  by (rule ext)+ (simp add: apply_item_def)

lemma list_wf_default: "list_wf local_auth_list_default"
  by (simp add: list_wf_def local_auth_list_default_def bt_empty_def)

lemma list_wf_apply [wf_intros]: "list_wf l \<Longrightarrow> list_wf (fst (apply_list l request limits))"
  by (auto simp: apply_list_def list_wf_def apply_item_eq bt_empty_def Let_def intro!: bt.edits_wf)

text \<open>The abstract view: a list is the finite map from tags to verdicts.\<close>

definition update_map ::
  "send_local_list_request \<Rightarrow> (id_tag \<Rightarrow> id_tag_info option) \<Rightarrow> id_tag \<Rightarrow> id_tag_info option" where
  "update_map request m tag =
     (case map_of (rev (unwrap_or (sl_local_authorization_list request) [])) tag of
        Some v \<Rightarrow> v
      | None \<Rightarrow> if sl_update_type request = Full then None else m tag)"

lemma edits_update_map:
  assumes "list_wf l"
  shows "bt_get (foldl apply_item (if sl_update_type request = Full then bt_empty else la_entries l)
      (unwrap_or (sl_local_authorization_list request) [])) tag = update_map request (list_get l) tag"
  using assms
  by (auto simp: apply_item_eq bt.edits_get list_wf_def update_map_def list_get_def bt_empty_def
      split: option.split)

text \<open>
  C30: \<open>SendLocalList\<close> is a refinement of map update.  A refused update leaves list and version
  untouched; an accepted one makes the list exactly the map in which the last item of a tag decides
  (a full update starting from the empty map, a differential one from the old list) and takes the
  request's version, which for a differential update is strictly larger; the size and update limits hold
  and a full update without \<open>idTagInfo\<close> for every item is never accepted.
\<close>

theorem apply_list_refines:
  assumes "list_wf l" and "apply_list l request limits = (l', status)"
  shows "(status \<noteq> Upd_Accepted \<longrightarrow> l' = l)
    \<and> (status = Upd_Accepted \<longrightarrow>
         ll_enabled limits
       \<and> (\<forall>tag. list_get l' tag = update_map request (list_get l) tag)
       \<and> la_version l' = sl_list_version request
       \<and> (sl_update_type request = Differential \<longrightarrow> la_version l < la_version l')
       \<and> length (la_entries l') \<le> ll_max_entries limits
       \<and> length (unwrap_or (sl_local_authorization_list request) []) \<le> ll_max_update_entries limits
       \<and> (sl_update_type request = Full \<longrightarrow>
            (\<forall>item\<in>set (unwrap_or (sl_local_authorization_list request) []). snd item \<noteq> None)))"
proof -
  have get: "list_get (l\<lparr>la_entries := foldl apply_item
        (if sl_update_type request = Full then bt_empty else la_entries l)
        (unwrap_or (sl_local_authorization_list request) []), la_version := v\<rparr>) tag
      = update_map request (list_get l) tag" for tag v
    using edits_update_map [OF assms(1)] by (simp add: list_get_def)
  show ?thesis
    using assms(2) get by (auto simp: apply_list_def Let_def split: if_splits)
qed

text \<open>The statuses are decided in the documented order.\<close>

lemma apply_list_status:
  "snd (apply_list l request limits) =
    (let update = unwrap_or (sl_local_authorization_list request) [];
         full = (sl_update_type request = Full);
         size = length (foldl apply_item (if full then bt_empty else la_entries l) update)
     in if \<not> ll_enabled limits then Upd_NotSupported
        else if length update > ll_max_update_entries limits
             \<or> (full \<and> (\<exists>item\<in>set update. snd item = None)) \<or> size > ll_max_entries limits then Upd_Failed
        else if \<not> full \<and> sl_list_version request \<le> la_version l then Upd_VersionMismatch
        else Upd_Accepted)"
  by (auto simp: apply_list_def Let_def)

interpretation lists: bounded_store "\<lambda>l request. fst (apply_list l request limits)" list_wf
    "\<lambda>l. length (la_entries l)" "\<lambda>_. ll_max_entries limits" for limits
  by unfold_locales (auto simp: list_wf_apply, auto simp: apply_list_def Let_def)

lemma apply_list_version_mono:
  "sl_update_type q = Differential \<Longrightarrow> la_version l \<le> la_version (fst (apply_list l q limits))"
  by (auto simp: apply_list_def Let_def)

text \<open>
  Whatever updates arrive, under one configuration, the list never grows past
  \<open>LocalAuthListMaxLength\<close> and stays a well-formed map; while the updates are differential its
  version never decreases.
\<close>

theorem apply_lists_bounded:
  assumes "list_wf l" and "length (la_entries l) \<le> ll_max_entries limits"
    and "l' = foldl (\<lambda>l request. fst (apply_list l request limits)) l requests"
  shows "list_wf l' \<and> length (la_entries l') \<le> ll_max_entries limits
    \<and> ((\<forall>q\<in>set requests. sl_update_type q = Differential) \<longrightarrow> la_version l \<le> la_version l')"
proof -
  have "la_version l \<le> la_version (foldl (\<lambda>l request. fst (apply_list l request limits)) l requests)"
    if "\<forall>q\<in>set requests. sl_update_type q = Differential"
    using that by (induction requests arbitrary: l)
      (auto intro: order_trans [OF apply_list_version_mono])
  with assms show ?thesis using lists.run_wf lists.run_bounded by auto
qed

definition demo_limits :: local_list_limits where
  "demo_limits = \<lparr>ll_enabled = True, ll_max_update_entries = 2, ll_max_entries = 1\<rparr>"

definition demo_update :: "i32 \<Rightarrow> update_type \<Rightarrow> send_local_list_request" where
  "demo_update v t = \<lparr>sl_list_version = v,
     sl_local_authorization_list = Some [(''TAG'', Some (with_status Auth_Accepted))], sl_update_type = t\<rparr>"

theorem apply_list_refines_witness:
  "list_get (fst (apply_list local_auth_list_default (demo_update 3 Full) demo_limits)) ''TAG''
     = Some (with_status Auth_Accepted)"
proof -
  have "snd (apply_list local_auth_list_default (demo_update 3 Full) demo_limits) = Upd_Accepted"
    by code_simp
  then show ?thesis
    using apply_list_refines [OF list_wf_default prod.collapse [symmetric], of "demo_update 3 Full" demo_limits]
    by (simp add: update_map_def demo_update_def)
qed

theorem apply_lists_bounded_witness:
  "length (la_entries (foldl (\<lambda>l request. fst (apply_list l request demo_limits))
     local_auth_list_default [demo_update 3 Full, demo_update 2 Differential])) \<le> 1"
  using apply_lists_bounded [OF list_wf_default _ refl, of demo_limits "[demo_update 3 Full, demo_update 2 Differential]"]
  by (simp add: local_auth_list_default_def bt_empty_def demo_limits_def)

end
