(* ===== verification/Authorization.thy ===== *)
theory Authorization
  imports Local_Auth_List "HOL-Library.Product_Lexorder"
begin

text \<open>
  Authorization (\<open>station/authorization.rs\<close>): the bounded cache of the central system's verdicts
  with its eviction rule, and the decision order over local list, cache and the offline switches.
  The write order of the cache is a 64-bit counter that wraps.
\<close>

definition DEFAULT_CACHE_CAPACITY :: nat where
  "DEFAULT_CACHE_CAPACITY = 1000"

datatype auth_source = CentralSystem | Src_LocalList | AuthorizationCache | OfflineUnknown | Src_None

record authorization_decision =
  ad_accepted :: bool
  ad_id_tag_info :: id_tag_info
  ad_source :: auth_source

definition normalize_id_tag_info :: "id_tag_info \<Rightarrow> instant \<Rightarrow> id_tag_info" where
  "normalize_id_tag_info info now =
     info\<lparr>ti_status :=
       (case ti_expiry_date info of
          Some expiry \<Rightarrow> if expiry \<le> now then Auth_Expired else ti_status info
        | None \<Rightarrow> ti_status info)\<rparr>"

definition is_accepted :: "id_tag_info \<Rightarrow> bool" where
  "is_accepted info = (ti_status info = Auth_Accepted)"

definition is_live_accept :: "id_tag_info \<Rightarrow> instant \<Rightarrow> bool" where
  "is_live_accept info now = is_accepted (normalize_id_tag_info info now)"

subsection \<open>The cache\<close>

record cache_slot =
  cs_info :: id_tag_info
  cs_seq :: "64 word"

record auth_cache =
  ac_capacity :: nat
  ac_next_seq :: "64 word"
  ac_entries :: "(id_tag, cache_slot) btree"

definition with_capacity :: "nat \<Rightarrow> auth_cache" where
  "with_capacity capacity = \<lparr>ac_capacity = capacity, ac_next_seq = 0, ac_entries = bt_empty\<rparr>"

definition cache_new :: auth_cache where
  "cache_new = with_capacity DEFAULT_CACHE_CAPACITY"

definition cache_contains :: "auth_cache \<Rightarrow> id_tag \<Rightarrow> bool" where
  "cache_contains c tag = bt_contains (ac_entries c) tag"

definition evict_one :: "auth_cache \<Rightarrow> instant \<Rightarrow> auth_cache" where
  "evict_one c now =
     (case min_by_key (\<lambda>(_, slot). (\<not> is_live_accept (cs_info slot) now, cs_seq slot)) (ac_entries c) of
        None \<Rightarrow> c
      | Some (tag, _) \<Rightarrow> c\<lparr>ac_entries := bt_remove tag (ac_entries c)\<rparr>)"

lemma bt_contains_key: "x \<in> set m \<Longrightarrow> bt_contains m (fst x)"
  by (auto simp: bt_contains_def bt_get_None_iff)

lemma evict_one_decreases:
  assumes "ac_entries c \<noteq> []"
  shows "length (ac_entries (evict_one c now)) = length (ac_entries c) - 1"
proof -
  let ?key = "\<lambda>(_, slot). (\<not> is_live_accept (cs_info slot) now, cs_seq slot)"
  obtain x where x: "min_by_key ?key (ac_entries c) = Some x"
    using assms by (cases "min_by_key ?key (ac_entries c)") auto
  then have "bt_contains (ac_entries c) (fst x)"
    using min_by_key_SomeD [OF x] by (intro bt_contains_key) blast
  with x show ?thesis by (auto simp: evict_one_def length_bt_remove split: prod.split)
qed

lemma evict_one_fields [simp]:
  "ac_capacity (evict_one c now) = ac_capacity c" "ac_next_seq (evict_one c now) = ac_next_seq c"
  by (auto simp: evict_one_def split: option.split)

text \<open>The loop \<open>while len >= capacity { evict_one }\<close>, entered only with a capacity above zero.\<close>

function make_room :: "auth_cache \<Rightarrow> instant \<Rightarrow> auth_cache" where
  "make_room c now =
     (if ac_capacity c \<noteq> 0 \<and> length (ac_entries c) \<ge> ac_capacity c
      then make_room (evict_one c now) now else c)"
  by pat_completeness auto
termination
proof (relation "measure (\<lambda>(c, _). length (ac_entries c))")
  fix c :: auth_cache and now :: instant
  assume "ac_capacity c \<noteq> 0 \<and> length (ac_entries c) \<ge> ac_capacity c"
  then have "ac_entries c \<noteq> []" by auto
  then show "((evict_one c now, now), c, now) \<in> measure (\<lambda>(c, _). length (ac_entries c))"
    by (simp add: evict_one_decreases)
qed simp

declare make_room.simps [simp del]

definition remember :: "auth_cache \<Rightarrow> id_tag \<Rightarrow> id_tag_info \<Rightarrow> instant \<Rightarrow> auth_cache" where
  "remember c tag info now =
     (if ac_capacity c = 0 then c
      else
        let c1 = (if \<not> cache_contains c tag then make_room c now else c)
        in c1\<lparr>ac_next_seq := ac_next_seq c1 + 1,
              ac_entries := bt_insert tag \<lparr>cs_info = info, cs_seq = ac_next_seq c1\<rparr> (ac_entries c1)\<rparr>)"

definition cache_lookup :: "auth_cache \<Rightarrow> id_tag \<Rightarrow> instant \<Rightarrow> id_tag_info option" where
  "cache_lookup c tag now =
     map_option (\<lambda>slot. normalize_id_tag_info (cs_info slot) now) (bt_get (ac_entries c) tag)"

definition cache_clear :: "auth_cache \<Rightarrow> auth_cache" where
  "cache_clear c = c\<lparr>ac_entries := bt_empty\<rparr>"

subsection \<open>Decisions\<close>

definition decided :: "id_tag_info \<Rightarrow> auth_source \<Rightarrow> authorization_decision" where
  "decided info source =
     \<lparr>ad_accepted = is_accepted info, ad_id_tag_info = info, ad_source = source\<rparr>"

definition authorize_locally ::
  "id_tag \<Rightarrow> instant \<Rightarrow> local_auth_list \<Rightarrow> auth_cache \<Rightarrow> registry \<Rightarrow> bool \<Rightarrow> authorization_decision" where
  "authorize_locally tag now l cache config require_offline_permission =
     (if require_offline_permission \<and> \<not> local_authorize_offline config
      then decided (with_status Auth_Invalid) Src_None
      else
        case (if local_auth_list_enabled config then list_get l tag else None) of
          Some info \<Rightarrow> decided (normalize_id_tag_info info now) Src_LocalList
        | None \<Rightarrow>
            (case (if authorization_cache_enabled config then cache_lookup cache tag now else None) of
               Some info \<Rightarrow> decided info AuthorizationCache
             | None \<Rightarrow>
                 if require_offline_permission \<and> allow_offline_tx_for_unknown_id config
                 then decided (with_status Auth_Accepted) OfflineUnknown
                 else decided (with_status Auth_Invalid) Src_None))"

definition authorize_offline ::
  "id_tag \<Rightarrow> instant \<Rightarrow> local_auth_list \<Rightarrow> auth_cache \<Rightarrow> registry \<Rightarrow> authorization_decision" where
  "authorize_offline tag now l cache config = authorize_locally tag now l cache config True"

definition pre_authorize ::
  "id_tag \<Rightarrow> instant \<Rightarrow> local_auth_list \<Rightarrow> auth_cache \<Rightarrow> registry \<Rightarrow> authorization_decision option" where
  "pre_authorize tag now l cache config =
     (if local_pre_authorize config then Some (authorize_locally tag now l cache config False) else None)"

definition apply_online_id_tag_info ::
  "id_tag \<Rightarrow> id_tag_info \<Rightarrow> instant \<Rightarrow> auth_cache \<Rightarrow> registry \<Rightarrow> auth_cache \<times> authorization_decision" where
  "apply_online_id_tag_info tag info now cache config =
     (if authorization_cache_enabled config then remember cache tag info now else cache,
      decided (normalize_id_tag_info info now) CentralSystem)"

definition known_parent ::
  "id_tag \<Rightarrow> instant \<Rightarrow> local_auth_list \<Rightarrow> auth_cache \<Rightarrow> id_tag option" where
  "known_parent tag now l cache =
     option_or (Option.bind (list_get l tag) ti_parent_id_tag)
       (Option.bind (cache_lookup cache tag now) ti_parent_id_tag)"

subsection \<open>Laws of the cache\<close>

lemma is_live_accept_iff:
  "is_live_accept info now \<longleftrightarrow> ti_status info = Auth_Accepted \<and> is_none_or (ti_expiry_date info) (\<lambda>e. now < e)"
  by (auto simp: is_live_accept_def is_accepted_def normalize_id_tag_info_def split: option.split)

lemma evict_one_wf: "bt_wf (ac_entries c) \<Longrightarrow> bt_wf (ac_entries (evict_one c now))"
  by (auto simp: evict_one_def intro: bt_wf_remove split: option.split)

lemma make_room_induct [consumes 1, case_names room evict]:
  assumes "ac_capacity c \<noteq> 0"
    and "\<And>c. ac_capacity c \<noteq> 0 \<Longrightarrow> length (ac_entries c) < ac_capacity c \<Longrightarrow>
      make_room c now = c \<Longrightarrow> P c"
    and "\<And>c. ac_capacity c \<noteq> 0 \<Longrightarrow> ac_capacity c \<le> length (ac_entries c) \<Longrightarrow>
      make_room c now = make_room (evict_one c now) now \<Longrightarrow> P (evict_one c now) \<Longrightarrow> P c"
  shows "P c"
  using assms(1)
proof (induction "length (ac_entries c)" arbitrary: c rule: less_induct)
  case less
  show ?case
  proof (cases "length (ac_entries c) < ac_capacity c")
    case True
    then have "make_room c now = c" by (subst make_room.simps) simp
    with True less.prems show ?thesis by (simp add: assms(2))
  next
    case False
    then have "ac_entries c \<noteq> []" using less.prems by auto
    then have "P (evict_one c now)"
      using less.prems by (intro less.hyps) (simp_all add: evict_one_decreases)
    moreover have "make_room c now = make_room (evict_one c now) now"
      using False less.prems by (subst make_room.simps) simp
    moreover have "ac_capacity c \<le> length (ac_entries c)" using False by simp
    ultimately show ?thesis by (intro assms(3) [OF less.prems])
  qed
qed

lemma make_room_fits: "ac_capacity c \<noteq> 0 \<Longrightarrow> length (ac_entries (make_room c now)) < ac_capacity c"
  by (induction c rule: make_room_induct [where now = now]) auto

lemma make_room_fields [simp]:
  "ac_capacity c \<noteq> 0 \<Longrightarrow> ac_capacity (make_room c now) = ac_capacity c"
  "ac_capacity c \<noteq> 0 \<Longrightarrow> ac_next_seq (make_room c now) = ac_next_seq c"
  by (induction c rule: make_room_induct [where now = now]) auto

lemma make_room_wf:
  "ac_capacity c \<noteq> 0 \<Longrightarrow> bt_wf (ac_entries c) \<Longrightarrow> bt_wf (ac_entries (make_room c now))"
  by (induction c rule: make_room_induct [where now = now]) (auto intro: evict_one_wf)

lemma evict_one_get:
  "bt_wf (ac_entries c) \<Longrightarrow> bt_get (ac_entries (evict_one c now)) q = Some s \<Longrightarrow>
   bt_get (ac_entries c) q = Some s"
  by (auto simp: evict_one_def bt_get_remove split: option.splits if_splits)

lemma make_room_get:
  "ac_capacity c \<noteq> 0 \<Longrightarrow> bt_wf (ac_entries c) \<Longrightarrow> bt_get (ac_entries (make_room c now)) q = Some s \<Longrightarrow>
   bt_get (ac_entries c) q = Some s"
  by (induction c rule: make_room_induct [where now = now]) (auto intro: evict_one_wf evict_one_get)

text \<open>A cache within its capacity needs at most one eviction.\<close>

lemma make_room_within:
  assumes "ac_capacity c \<noteq> 0" and "length (ac_entries c) \<le> ac_capacity c"
  shows "make_room c now = (if length (ac_entries c) = ac_capacity c then evict_one c now else c)"
proof (cases "length (ac_entries c) = ac_capacity c")
  case True
  then have "length (ac_entries (evict_one c now)) < ac_capacity c"
    using assms by (subst evict_one_decreases) auto
  with True assms show ?thesis
    by (subst make_room.simps) (subst make_room.simps, simp)
qed (use assms in \<open>subst make_room.simps, simp\<close>)

definition cache_wf :: "auth_cache \<Rightarrow> bool" where
  "cache_wf c = bt_wf (ac_entries c)"

lemma cache_wf_new: "cache_wf (with_capacity n)"
  by (simp add: cache_wf_def with_capacity_def bt_empty_def)

lemma cache_wf_remember [wf_intros]: "cache_wf c \<Longrightarrow> cache_wf (remember c tag info now)"
  by (auto simp: cache_wf_def remember_def make_room_wf Let_def intro!: bt_wf_insert)

lemma remember_capacity [simp]: "ac_capacity (remember c tag info now) = ac_capacity c"
  by (simp add: remember_def Let_def)

lemma make_room_absent:
  "ac_capacity c \<noteq> 0 \<Longrightarrow> bt_wf (ac_entries c) \<Longrightarrow> \<not> bt_contains (ac_entries c) q \<Longrightarrow>
   \<not> bt_contains (ac_entries (make_room c now)) q"
  using make_room_get by (fastforce simp: bt_contains_def)

lemma remember_length:
  assumes "cache_wf c" and "ac_capacity c \<noteq> 0"
  shows "length (ac_entries (remember c tag info now)) \<le> max (ac_capacity c) (length (ac_entries c))"
    and "\<not> cache_contains c tag \<Longrightarrow> length (ac_entries (remember c tag info now)) \<le> ac_capacity c"
proof -
  have new: "length (ac_entries (remember c tag info now)) \<le> ac_capacity c" if "\<not> cache_contains c tag"
    using assms that make_room_fits [of c now] make_room_absent [of c tag now]
    by (simp add: remember_def length_bt_insert make_room_wf cache_wf_def cache_contains_def Let_def)
  then show "\<not> cache_contains c tag \<Longrightarrow> length (ac_entries (remember c tag info now)) \<le> ac_capacity c" .
  have "length (ac_entries (remember c tag info now)) = length (ac_entries c)" if "cache_contains c tag"
    using assms that by (simp add: remember_def length_bt_insert cache_wf_def cache_contains_def Let_def)
  with new show "length (ac_entries (remember c tag info now)) \<le> max (ac_capacity c) (length (ac_entries c))"
    by (cases "cache_contains c tag") auto
qed

interpretation cache: bounded_store "\<lambda>c (tag, info, now). remember c tag info now" cache_wf
    "\<lambda>c. length (ac_entries c)" ac_capacity
proof
  fix c q assume "cache_wf c" "length (ac_entries c) \<le> ac_capacity c"
  then show "length (ac_entries (case q of (tag, info, now) \<Rightarrow> remember c tag info now)) \<le> ac_capacity c"
    using remember_length(1) [of c] by (cases "ac_capacity c = 0") (force simp: remember_def split: prod.split)+
qed (auto intro: wf_intros)

lemma evict_one_victim:
  assumes wf: "bt_wf (ac_entries c)" and q: "bt_get (ac_entries c) q = Some s"
    and gone: "bt_get (ac_entries (evict_one c now)) q = None"
    and other: "bt_get (ac_entries c) q' = Some s'"
  shows "(\<not> is_live_accept (cs_info s) now, cs_seq s) \<le> (\<not> is_live_accept (cs_info s') now, cs_seq s')"
proof -
  let ?key = "\<lambda>(_, slot). (\<not> is_live_accept (cs_info slot) now, cs_seq slot)"
  have "ac_entries c \<noteq> []" using q by auto
  then obtain k v where kv: "min_by_key ?key (ac_entries c) = Some (k, v)"
    by (cases "min_by_key ?key (ac_entries c)") auto
  have "k = q" using gone q wf by (auto simp: evict_one_def kv bt_get_remove split: if_splits)
  then have "v = s" using min_by_key_SomeD [OF kv] bt_get_in_set [OF wf] q by fastforce
  then show ?thesis using min_by_key_SomeD [OF kv] bt_get_SomeD [OF other] by auto
qed


text \<open>
  Whatever verdicts arrive, a cache never holds more than its capacity, and it keeps the tags
  in order with one slot each.
\<close>

theorem cache_bounded:
  "length (ac_entries (foldl (\<lambda>c (tag, info, now). remember c tag info now) (with_capacity n) ops)) \<le> n
   \<and> cache_wf (foldl (\<lambda>c (tag, info, now). remember c tag info now) (with_capacity n) ops)"
proof -
  have "length (ac_entries (with_capacity n)) \<le> ac_capacity (with_capacity n)"
    by (simp add: with_capacity_def bt_empty_def)
  from cache.run_bounded [OF cache_wf_new this, of ops] cache.run_wf [OF cache_wf_new, of n ops]
  show ?thesis by (simp add: with_capacity_def)
qed

subsection \<open>Laws of the decisions\<close>

text \<open>What the station knows of a tag: the enabled list first, then the enabled cache.\<close>

definition known_verdict :: "id_tag \<Rightarrow> local_auth_list \<Rightarrow> auth_cache \<Rightarrow> registry \<Rightarrow> id_tag_info option" where
  "known_verdict tag l cache config =
     option_or (if local_auth_list_enabled config then list_get l tag else None)
       (if authorization_cache_enabled config
        then map_option cs_info (bt_get (ac_entries cache) tag) else None)"

lemma authorize_locally_accepted:
  "ad_accepted (authorize_locally tag now l cache config offline) \<longleftrightarrow>
     (offline \<longrightarrow> local_authorize_offline config)
     \<and> (case known_verdict tag l cache config of
          Some info \<Rightarrow> is_live_accept info now
        | None \<Rightarrow> offline \<and> allow_offline_tx_for_unknown_id config)"
  by (auto simp: authorize_locally_def known_verdict_def decided_def cache_lookup_def is_live_accept_def
      is_accepted_def with_status_def split: option.splits)

text \<open>
  Local decisions: offline a tag is accepted exactly when offline authorization is on and either
  the tag is known and its verdict is \<open>Accepted\<close> and not expired, or it is unknown and unknown tags are
  allowed; with \<open>LocalPreAuthorize\<close> only a known live acceptance passes.  A decision is accepted
  exactly when the verdict it carries is, and a tag accepted at some time was accepted at every earlier time.
\<close>

theorem local_decisions:
  "(ad_accepted (authorize_offline tag now l cache config) \<longleftrightarrow>
     local_authorize_offline config
     \<and> (case known_verdict tag l cache config of
          Some info \<Rightarrow> ti_status info = Auth_Accepted \<and> is_none_or (ti_expiry_date info) (\<lambda>e. now < e)
        | None \<Rightarrow> allow_offline_tx_for_unknown_id config))
   \<and> (\<forall>d. pre_authorize tag now l cache config = Some d \<longrightarrow>
        (ad_accepted d \<longleftrightarrow> is_some_and (known_verdict tag l cache config) (\<lambda>info. is_live_accept info now)))
   \<and> ad_accepted (authorize_offline tag now l cache config)
       = (ti_status (ad_id_tag_info (authorize_offline tag now l cache config)) = Auth_Accepted)
   \<and> (\<forall>earlier\<le>now. ad_accepted (authorize_offline tag now l cache config) \<longrightarrow>
        ad_accepted (authorize_offline tag earlier l cache config))"
proof -
  have carried: "ad_accepted (authorize_offline tag now l cache config)
      = (ti_status (ad_id_tag_info (authorize_offline tag now l cache config)) = Auth_Accepted)"
    by (auto simp: authorize_offline_def authorize_locally_def decided_def is_accepted_def
        split: option.split)
  have off: "ad_accepted (authorize_offline tag t l cache config) \<longleftrightarrow>
     local_authorize_offline config
     \<and> (case known_verdict tag l cache config of
          Some info \<Rightarrow> ti_status info = Auth_Accepted \<and> is_none_or (ti_expiry_date info) (\<lambda>e. t < e)
        | None \<Rightarrow> allow_offline_tx_for_unknown_id config)" for t
    by (simp add: authorize_offline_def authorize_locally_accepted is_live_accept_iff split: option.split)
  have pre: "ad_accepted d \<longleftrightarrow>
      is_some_and (known_verdict tag l cache config) (\<lambda>info. is_live_accept info now)"
    if "pre_authorize tag now l cache config = Some d" for d
    using that by (cases "known_verdict tag l cache config")
      (auto simp: pre_authorize_def authorize_locally_accepted split: if_splits)
  have "ad_accepted (authorize_offline tag earlier l cache config)"
    if "ad_accepted (authorize_offline tag now l cache config)" "earlier \<le> now" for earlier
    using that by (auto simp: off is_none_or_iff split: option.splits)
  with carried off pre show ?thesis by blast
qed

text \<open>
  An online verdict governs the tag offline.  Once the central system has answered for a tag with
  the cache on, and the list says nothing of it, the offline decision at any later time is that
  verdict with its expiry: a denial is never turned into an acceptance by
  \<open>AllowOfflineTxForUnknownId\<close>.
\<close>

theorem online_then_offline:
  assumes "cache_wf c" and "ac_capacity c \<noteq> 0" and "authorization_cache_enabled config"
    and "local_auth_list_enabled config \<longrightarrow> list_get l tag = None"
    and "local_authorize_offline config"
    and "apply_online_id_tag_info tag info t c config = (c', d)"
  shows "(ad_accepted (authorize_offline tag now l c' config) \<longleftrightarrow> is_live_accept info now)
    \<and> (ad_accepted d \<longleftrightarrow> is_live_accept info t)"
proof
  have c': "c' = remember c tag info t" and d: "d = decided (normalize_id_tag_info info t) CentralSystem"
    using assms(3,6) by (auto simp: apply_online_id_tag_info_def)
  have "bt_get (ac_entries c') tag \<noteq> None \<and> map_option cs_info (bt_get (ac_entries c') tag) = Some info"
    using assms(2) by (simp add: c' remember_def bt_get_insert Let_def)
  then have "known_verdict tag l c' config = Some info"
    using assms(3,4) by (simp add: known_verdict_def)
  with assms(5) show "ad_accepted (authorize_offline tag now l c' config) \<longleftrightarrow> is_live_accept info now"
    by (simp add: authorize_offline_def authorize_locally_accepted)
  show "ad_accepted d \<longleftrightarrow> is_live_accept info t"
    by (simp add: d decided_def is_live_accept_def)
qed

text \<open>Concrete inputs: a registry with the two switches the decisions read, and a full cache.\<close>

definition offline_registry :: registry where
  "offline_registry = \<lparr>rg_entries =
     [writable ''AuthorizationCacheEnabled'' Boolean ''true'',
      writable ''LocalAuthorizeOffline'' Boolean ''true'',
      writable ''AllowOfflineTxForUnknownId'' Boolean ''true'',
      writable ''LocalPreAuthorize'' Boolean ''true''], rg_connector_count = 1\<rparr>"

definition full_cache :: auth_cache where
  "full_cache = remember (with_capacity 1) ''A'' (with_status Auth_Accepted) 0"

lemma full_cache_wf: "cache_wf full_cache"
  unfolding full_cache_def by (intro cache_wf_remember cache_wf_new)

lemma offline_switches:
  "authorization_cache_enabled offline_registry" "local_authorize_offline offline_registry"
  "\<not> local_auth_list_enabled offline_registry" "allow_offline_tx_for_unknown_id offline_registry"
  "ac_capacity full_cache \<noteq> 0"
  by code_simp+


theorem local_decisions_witness:
  "ad_accepted (authorize_offline ''A'' 3 local_auth_list_default full_cache offline_registry)
   \<and> ad_accepted (authorize_offline ''A'' 2 local_auth_list_default full_cache offline_registry)"
proof -
  have "ad_accepted (authorize_offline ''A'' 3 local_auth_list_default full_cache offline_registry)"
    by code_simp
  then show ?thesis
    using local_decisions [of "''A''" 3 local_auth_list_default full_cache offline_registry] by simp
qed

theorem online_then_offline_witness:
  "\<not> ad_accepted (authorize_offline ''B'' 9 local_auth_list_default
       (fst (apply_online_id_tag_info ''B'' (with_status Auth_Blocked) 5 full_cache offline_registry))
       offline_registry)"
  using online_then_offline [OF full_cache_wf offline_switches(5,1) _ offline_switches(2)
      prod.collapse [symmetric], where tag = "''B''" and info = "with_status Auth_Blocked" and t = 5
      and now = 9 and l = local_auth_list_default]
  by (simp add: offline_switches is_live_accept_iff with_status_def)

end
