(* ===== verification/Reservation.thy ===== *)
theory Reservation
  imports Connector
begin

text \<open>
  The reservation rules of \<open>station/reservation.rs\<close>: admission of \<open>ReserveNow\<close>, cancellation,
  expiry, the idTag match and the \<open>RemoteStartTransaction\<close> gate.  The operations change a list of
  connectors; Rust's \<open>&mut [ConnectorSnapshot]\<close> is returned updated beside the result.
\<close>

subsection \<open>Rules\<close>

definition MAX_EXPIRY_TIMER :: duration where
  "MAX_EXPIRY_TIMER = 24 * 60 * 60 * 1000000000"

record reserve_now_request =
  rq_connector_id :: connector_id
  rq_expiry_date :: instant
  rq_id_tag :: id_tag
  rq_parent_id_tag :: "id_tag option"
  rq_reservation_id :: reservation_id

definition is_expired_res :: "reservation \<Rightarrow> instant \<Rightarrow> bool" where
  "is_expired_res r now = (r_expiry r \<le> now)"

definition next_expiry_delay :: "reservation \<Rightarrow> instant \<Rightarrow> duration option" where
  "next_expiry_delay r now =
     (if is_expired_res r now then None
      else Some (min (nat (r_expiry r - now)) MAX_EXPIRY_TIMER))"

definition accepts :: "reservation \<Rightarrow> id_tag \<Rightarrow> id_tag option \<Rightarrow> bool" where
  "accepts r tag parent =
     (if r_id_tag r = tag then True
      else (case (r_parent_id_tag r, parent) of
              (Some reserved_parent, Some p) \<Rightarrow> reserved_parent = p
            | _ \<Rightarrow> False))"

definition live_reservation :: "connector \<Rightarrow> instant \<Rightarrow> reservation option" where
  "live_reservation c now = option_filter (\<lambda>r. \<not> is_expired_res r now) (c_reservation c)"

definition reserved_for_other ::
  "connector \<Rightarrow> id_tag \<Rightarrow> id_tag option \<Rightarrow> instant \<Rightarrow> bool" where
  "reserved_for_other c tag parent now =
     is_some_and (live_reservation c now) (\<lambda>r. \<not> accepts r tag parent)"

definition remote_start_usable :: "connector \<Rightarrow> bool" where
  "remote_start_usable c =
     (is_idle (c_transaction c) \<and> c_availability c = Operative
      \<and> c_status c \<notin> {Unavailable, Faulted})"

definition can_remote_start ::
  "connector option \<Rightarrow> id_tag \<Rightarrow> id_tag option \<Rightarrow> instant \<Rightarrow> bool" where
  "can_remote_start co tag parent now =
     (case co of
        None \<Rightarrow> False
      | Some c \<Rightarrow>
          if \<not> remote_start_usable c then False
          else (case live_reservation c now of
                  Some r \<Rightarrow> accepts r tag parent
                | None \<Rightarrow> c_status c \<noteq> Reserved))"

definition status_without_reservation :: "connector \<Rightarrow> connector_status" where
  "status_without_reservation c =
     (if c_availability c = Inoperative \<or> c_status c = Unavailable then Unavailable
      else if c_status c = Faulted then Faulted
      else if \<not> is_idle (c_transaction c) then Charging
      else if c_ev_connected c then Preparing
      else Available)"

text \<open>\<open>clear_reservation\<close>: the slot is emptied, then a \<open>Reserved\<close> status moves on.\<close>

definition clear_reservation :: "connector \<Rightarrow> connector \<times> reservation option" where
  "clear_reservation c =
     (case c_reservation c of
        None \<Rightarrow> (c, None)
      | Some released \<Rightarrow>
          let c1 = c\<lparr>c_reservation := None\<rparr> in
          (if c_status c1 = Reserved then c1\<lparr>c_status := status_without_reservation c1\<rparr> else c1,
           Some released))"

definition holds_id :: "reservation_id \<Rightarrow> connector \<Rightarrow> bool" where
  "holds_id i c = is_some_and (c_reservation c) (\<lambda>r. r_id r = i)"

definition target_index ::
  "connector list \<Rightarrow> connector_id \<Rightarrow> bool \<Rightarrow> reservation_status + nat" where
  "target_index cs requested zero_ok =
     (if is_station requested then
        (if \<not> zero_ok then Inl Rsv_Rejected
         else (case position (\<lambda>c. is_idle (c_transaction c) \<and> c_availability c = Operative
                               \<and> c_status c = Available) cs of
                 None \<Rightarrow> Inl Rsv_Unavailable | Some i \<Rightarrow> Inr i))
      else (case position (\<lambda>c. c_id c = requested) cs of
              None \<Rightarrow> Inl Rsv_Unavailable | Some i \<Rightarrow> Inr i))"

definition occupied :: "connector \<Rightarrow> bool \<Rightarrow> bool" where
  "occupied c same_reservation =
     (if \<not> is_idle (c_transaction c) then True
      else if c_reservation c \<noteq> None \<and> \<not> same_reservation then True
      else (case c_status c of
              Preparing \<Rightarrow> True | Charging \<Rightarrow> True | SuspendedEV \<Rightarrow> True
            | SuspendedEVSE \<Rightarrow> True | Finishing \<Rightarrow> True
            | Reserved \<Rightarrow> \<not> same_reservation
            | _ \<Rightarrow> False))"

definition reservation_of :: "reserve_now_request \<Rightarrow> reservation" where
  "reservation_of rq =
     \<lparr>r_id = rq_reservation_id rq, r_id_tag = rq_id_tag rq,
      r_parent_id_tag = rq_parent_id_tag rq, r_expiry = rq_expiry_date rq\<rparr>"

definition reserve_now ::
  "connector list \<Rightarrow> reserve_now_request \<Rightarrow> instant \<Rightarrow> bool
   \<Rightarrow> connector list \<times> (reservation_status + connector_id)" where
  "reserve_now cs rq now zero_ok =
     (case target_index cs (rq_connector_id rq) zero_ok of
        Inl e \<Rightarrow> (cs, Inl e)
      | Inr index \<Rightarrow>
          let c = cs ! index;
              same_reservation = holds_id (rq_reservation_id rq) c
          in if occupied c same_reservation then (cs, Inl Rsv_Occupied)
             else if c_status c = Faulted then (cs, Inl Rsv_Faulted)
             else if c_availability c = Inoperative \<or> c_status c = Unavailable
               then (cs, Inl Rsv_Unavailable)
             else if rq_expiry_date rq \<le> now then (cs, Inl Rsv_Rejected)
             else if \<exists>i\<in>set [0..<length cs]. i \<noteq> index \<and> holds_id (rq_reservation_id rq) (cs ! i)
               then (cs, Inl Rsv_Rejected)
             else (cs[index := c\<lparr>c_reservation := Some (reservation_of rq), c_status := Reserved\<rparr>],
                   Inr (c_id c)))"

definition cancel_reservation ::
  "connector list \<Rightarrow> reservation_id \<Rightarrow> connector list \<times> connector_id option" where
  "cancel_reservation cs i =
     (case position (holds_id i) cs of
        None \<Rightarrow> (cs, None)
      | Some index \<Rightarrow>
          let c = fst (clear_reservation (cs ! index)) in (cs[index := c], Some (c_id c)))"

fun expire_due :: "connector list \<Rightarrow> instant \<Rightarrow> connector list \<times> connector_id list" where
  "expire_due [] now = ([], [])"
| "expire_due (c # cs) now =
     (let (cs', released) = expire_due cs now in
      if is_some_and (c_reservation c) (\<lambda>r. is_expired_res r now)
      then (fst (clear_reservation c) # cs', c_id c # released)
      else (c # cs', released))"

lemmas reservation_defs =
  is_expired_res_def next_expiry_delay_def accepts_def live_reservation_def
  reserved_for_other_def remote_start_usable_def can_remote_start_def
  status_without_reservation_def clear_reservation_def holds_id_def target_index_def
  occupied_def reservation_of_def reserve_now_def cancel_reservation_def

subsection \<open>Well-formed connector lists\<close>

text \<open>
  Connector ids are distinct and a reservation id is held by at most one connector, so that
  \<open>CancelReservation\<close> releases the one reservation the central system means.
\<close>

definition unique_reservations :: "connector list \<Rightarrow> bool" where
  "unique_reservations cs =
     (\<forall>i<length cs. \<forall>j<length cs. \<forall>n. holds_id n (cs ! i) \<longrightarrow> holds_id n (cs ! j) \<longrightarrow> i = j)"

definition connectors_wf :: "connector list \<Rightarrow> bool" where
  "connectors_wf cs = (distinct (map c_id cs) \<and> unique_reservations cs)"

lemma clear_reservation_id [simp]: "c_id (fst (clear_reservation c)) = c_id c"
  by (auto simp: clear_reservation_def Let_def split: option.splits)

lemma clear_reservation_empty [simp]: "c_reservation (fst (clear_reservation c)) = None"
  by (auto simp: clear_reservation_def Let_def split: option.splits)

lemma holds_id_clear [simp]: "\<not> holds_id n (fst (clear_reservation c))"
  by (simp add: holds_id_def)

lemma holds_id_reserved [simp]:
  "holds_id n (c\<lparr>c_reservation := Some r, c_status := s\<rparr>) \<longleftrightarrow> n = r_id r"
  by (auto simp: holds_id_def)

lemma unique_reservations_update:
  assumes u: "unique_reservations cs"
    and new: "\<And>n j. holds_id n c \<Longrightarrow> j < length cs \<Longrightarrow> j \<noteq> i \<Longrightarrow> \<not> holds_id n (cs ! j)"
  shows "unique_reservations (cs[i := c])"
  unfolding unique_reservations_def
proof (intro allI impI)
  fix a b n
  assume "a < length (cs[i := c])" "b < length (cs[i := c])"
    and ha: "holds_id n (cs[i := c] ! a)" and hb: "holds_id n (cs[i := c] ! b)"
  then have la: "a < length cs" and lb: "b < length cs" by simp_all
  show "a = b"
  proof (cases "a = i \<or> b = i")
    case True
    with ha hb la lb new show ?thesis by (metis nth_list_update)
  next
    case False
    with ha hb la lb u show ?thesis by (auto simp: unique_reservations_def)
  qed
qed

lemma map_c_id_update [simp]:
  "i < length cs \<Longrightarrow> c_id c = c_id (cs ! i) \<Longrightarrow> map c_id (cs[i := c]) = map c_id cs"
  by (metis length_map list_update_id map_update nth_map)

lemma connectors_wf_update:
  "connectors_wf cs \<Longrightarrow> i < length cs \<Longrightarrow> c_id c = c_id (cs ! i) \<Longrightarrow>
   (\<And>n j. holds_id n c \<Longrightarrow> j < length cs \<Longrightarrow> j \<noteq> i \<Longrightarrow> \<not> holds_id n (cs ! j)) \<Longrightarrow>
   connectors_wf (cs[i := c])"
  by (simp add: connectors_wf_def unique_reservations_update)

lemma target_index_bound: "target_index cs req z = Inr i \<Longrightarrow> i < length cs"
  by (auto simp: target_index_def split: if_splits option.splits dest: position_SomeD)

lemma reserve_now_Inl: "reserve_now cs rq now z = (cs', Inl e) \<Longrightarrow> cs' = cs"
  by (auto simp: reserve_now_def Let_def split: sum.splits if_splits)

text \<open>The accepting branch, with everything the admission checks established.\<close>

lemma reserve_now_InrE:
  assumes "reserve_now cs rq now z = (cs', Inr t)"
  obtains i where
    "target_index cs (rq_connector_id rq) z = Inr i" "i < length cs" "t = c_id (cs ! i)"
    "cs' = cs[i := (cs ! i)\<lparr>c_reservation := Some (reservation_of rq), c_status := Reserved\<rparr>]"
    "\<not> occupied (cs ! i) (holds_id (rq_reservation_id rq) (cs ! i))"
    "c_status (cs ! i) \<noteq> Faulted" "c_availability (cs ! i) = Operative"
    "c_status (cs ! i) \<noteq> Unavailable" "now < rq_expiry_date rq"
    "\<forall>j<length cs. j \<noteq> i \<longrightarrow> \<not> holds_id (rq_reservation_id rq) (cs ! j)"
proof -
  from assms obtain i where i: "target_index cs (rq_connector_id rq) z = Inr i"
    by (auto simp: reserve_now_def split: sum.splits)
  with assms show thesis
    by (intro that [OF i target_index_bound [OF i]])
      (auto simp: reserve_now_def Let_def not_le split: if_splits intro: availability_type.exhaust)
qed

lemma reserve_now_wf [wf_intros]:
  assumes wf: "connectors_wf cs" shows "connectors_wf (fst (reserve_now cs rq now z))"
proof (cases "reserve_now cs rq now z")
  case (Pair cs' res)
  show ?thesis
  proof (cases res)
    case (Inl e)
    with Pair wf show ?thesis by (auto dest: reserve_now_Inl)
  next
    case (Inr t)
    with Pair have "reserve_now cs rq now z = (cs', Inr t)" by simp
    then show ?thesis
    proof (rule reserve_now_InrE)
      fix i assume "i < length cs"
        "cs' = cs[i := (cs ! i)\<lparr>c_reservation := Some (reservation_of rq), c_status := Reserved\<rparr>]"
        "\<forall>j<length cs. j \<noteq> i \<longrightarrow> \<not> holds_id (rq_reservation_id rq) (cs ! j)"
      with Pair wf show ?thesis
        by (auto intro!: connectors_wf_update simp: reservation_of_def)
    qed
  qed
qed

lemma cancel_reservation_wf [wf_intros]:
  "connectors_wf cs \<Longrightarrow> connectors_wf (fst (cancel_reservation cs i))"
  by (auto simp: cancel_reservation_def Let_def split: option.splits
      intro!: connectors_wf_update dest: position_SomeD)

lemma expire_due_eq:
  "expire_due cs now =
     (map (\<lambda>c. if is_some_and (c_reservation c) (\<lambda>r. is_expired_res r now)
               then fst (clear_reservation c) else c) cs,
      map c_id (filter (\<lambda>c. is_some_and (c_reservation c) (\<lambda>r. is_expired_res r now)) cs))"
  by (induction cs) auto

lemma expire_due_wf [wf_intros]: "connectors_wf cs \<Longrightarrow> connectors_wf (fst (expire_due cs now))"
  unfolding connectors_wf_def expire_due_eq unique_reservations_def
  by (auto simp: comp_def if_distrib [of c_id] cong: if_cong split: if_splits)

subsection \<open>Properties\<close>


definition demo_request :: reserve_now_request where
  "demo_request = \<lparr>rq_connector_id = 1, rq_expiry_date = 100, rq_id_tag = ''TAG'',
     rq_parent_id_tag = None, rq_reservation_id = 7\<rparr>"


text \<open>
  \<open>expire_due\<close> releases exactly the reservations that have run out: afterwards no connector
  holds an expired reservation, a live one is untouched, the ids returned are those of the
  connectors that held an expired one, in order, and running it again releases nothing.
\<close>

theorem expire_due_correct:
  "expire_due cs now = (cs', ids) \<Longrightarrow>
     length cs' = length cs
   \<and> (\<forall>c\<in>set cs'. \<forall>r. c_reservation c = Some r \<longrightarrow> \<not> is_expired_res r now)
   \<and> (\<forall>i<length cs. live_reservation (cs' ! i) now = live_reservation (cs ! i) now)
   \<and> ids = [c_id c. c \<leftarrow> cs, c_reservation c \<noteq> None \<and> live_reservation c now = None]
   \<and> expire_due cs' now = (cs', [])"
proof -
  assume a: "expire_due cs now = (cs', ids)"
  let ?ex = "\<lambda>c. is_some_and (c_reservation c) (\<lambda>r. is_expired_res r now)"
  have cs': "cs' = map (\<lambda>c. if ?ex c then fst (clear_reservation c) else c) cs"
    and ids: "ids = map c_id (filter ?ex cs)"
    using a by (simp_all add: expire_due_eq)
  have none: "\<forall>c\<in>set cs'. \<not> ?ex c" by (auto simp: cs')
  have ex: "?ex c \<longleftrightarrow> c_reservation c \<noteq> None \<and> live_reservation c now = None" for c
    by (cases "c_reservation c") (auto simp: live_reservation_def)
  have idem: "expire_due cs' now = (cs', [])"
  proof -
    have "map (\<lambda>c. if ?ex c then fst (clear_reservation c) else c) cs' = cs'"
      using none by (intro map_idI) auto
    moreover have "filter ?ex cs' = []" using none by (simp add: filter_empty_conv)
    ultimately show ?thesis by (simp add: expire_due_eq)
  qed
  have live: "\<forall>i<length cs. live_reservation (cs' ! i) now = live_reservation (cs ! i) now"
    using ex by (auto simp: cs' live_reservation_def)
  have "[c_id c. c \<leftarrow> cs, c_reservation c \<noteq> None \<and> live_reservation c now = None]
      = map c_id (filter ?ex cs)"
    by (induction cs) (auto simp: ex)
  with ids have ids': "ids = [c_id c. c \<leftarrow> cs, c_reservation c \<noteq> None \<and> live_reservation c now = None]"
    by simp
  have nex: "\<forall>c\<in>set cs'. \<forall>r. c_reservation c = Some r \<longrightarrow> \<not> is_expired_res r now"
    using none by (auto simp: is_some_and_iff)
  have "length cs' = length cs" by (simp add: cs')
  with nex live ids' idem show ?thesis by blast
qed

theorem expire_due_correct_witness:
  "expire_due [(new_connector 1)\<lparr>c_reservation := Some (reservation_of demo_request)\<rparr>] 100
     = ([new_connector 1], [1])
   \<and> expire_due [new_connector 1] 100 = ([new_connector 1], [])"
proof -
  have "expire_due [(new_connector 1)\<lparr>c_reservation := Some (reservation_of demo_request)\<rparr>] 100
     = ([new_connector 1], [1])"
    by (simp add: new_connector_def reservation_of_def demo_request_def is_expired_res_def
        clear_reservation_def)
  with expire_due_correct [OF this] show ?thesis by simp
qed

subsection \<open>Cancelling, and the expiry timer\<close>

lemma not_occupied_new:
  "\<not> occupied c False \<Longrightarrow> c_status c \<noteq> Faulted \<Longrightarrow> c_status c \<noteq> Unavailable \<Longrightarrow>
   is_idle (c_transaction c) \<and> c_reservation c = None \<and> c_status c = Available"
  by (cases "c_status c") (auto simp: occupied_def split: if_splits)

lemma clear_new_reservation:
  assumes "is_idle (c_transaction c)" "c_reservation c = None" "c_status c = Available"
    "c_availability c = Operative" "\<not> c_ev_connected c"
  shows "fst (clear_reservation (c\<lparr>c_reservation := Some r, c_status := Reserved\<rparr>)) = c"
  using assms by (simp add: clear_reservation_def status_without_reservation_def)

text \<open>
  Cancelling undoes reserving.  A reservation with a fresh id, admitted on connectors whose
  free ones have no vehicle plugged in, is released by \<open>CancelReservation\<close> with its id, and the
  connectors are exactly as they were before the \<open>ReserveNow\<close>.
\<close>

theorem reserve_cancel_roundtrip:
  assumes fresh: "\<forall>c\<in>set cs. \<not> holds_id (rq_reservation_id rq) c"
    and free: "\<forall>c\<in>set cs. c_status c = Available \<longrightarrow> \<not> c_ev_connected c"
    and r: "reserve_now cs rq now z = (cs', Inr t)"
  shows "cancel_reservation cs' (rq_reservation_id rq) = (cs, Some t)"
  using r
proof (rule reserve_now_InrE)
  fix i assume i: "i < length cs" "t = c_id (cs ! i)"
    "cs' = cs[i := (cs ! i)\<lparr>c_reservation := Some (reservation_of rq), c_status := Reserved\<rparr>]"
    and occ: "\<not> occupied (cs ! i) (holds_id (rq_reservation_id rq) (cs ! i))"
    and st: "c_status (cs ! i) \<noteq> Faulted" "c_availability (cs ! i) = Operative"
      "c_status (cs ! i) \<noteq> Unavailable"
  have nh: "\<not> holds_id (rq_reservation_id rq) (cs ! i)" using fresh i(1) by auto
  with occ st have c: "is_idle (c_transaction (cs ! i))" "c_reservation (cs ! i) = None"
    "c_status (cs ! i) = Available"
    using not_occupied_new [of "cs ! i"] by auto
  moreover have "\<not> c_ev_connected (cs ! i)" using free i(1) c(3) by auto
  ultimately have undo: "fst (clear_reservation (cs' ! i)) = cs ! i"
    using st i by (simp add: clear_new_reservation)
  have "position (holds_id (rq_reservation_id rq)) cs' = Some i"
    unfolding position_Some_iff using i fresh by (auto simp: nth_list_update reservation_of_def)
  with undo i show ?thesis by (simp add: cancel_reservation_def)
qed

theorem reserve_cancel_roundtrip_witness:
  "cancel_reservation
     (fst (reserve_now [new_connector 1, new_connector 2] demo_request 50 True)) 7
     = ([new_connector 1, new_connector 2], Some 1)"
proof -
  have r: "reserve_now [new_connector 1, new_connector 2] demo_request 50 True =
     ([(new_connector 1)\<lparr>c_reservation := Some (reservation_of demo_request), c_status := Reserved\<rparr>,
       new_connector 2], Inr 1)"
    by (simp add: reserve_now_def target_index_def demo_request_def new_connector_def occupied_def
        holds_id_def is_station_def)
  have "cancel_reservation
      [(new_connector 1)\<lparr>c_reservation := Some (reservation_of demo_request), c_status := Reserved\<rparr>,
       new_connector 2] (rq_reservation_id demo_request)
     = ([new_connector 1, new_connector 2], Some 1)"
    by (rule reserve_cancel_roundtrip [OF _ _ r]) (auto simp: new_connector_def holds_id_def)
  then show ?thesis unfolding r by (simp add: demo_request_def)
qed

text \<open>
  The wake-ups of one reservation: the actor arms a timer with \<open>next_expiry_delay\<close>; when it fires
  before the expiry the reservation is re-armed, and when the delay is \<open>None\<close> it is released.
\<close>

function release_time :: "reservation \<Rightarrow> instant \<Rightarrow> instant" where
  "release_time r now =
     (case next_expiry_delay r now of None \<Rightarrow> now | Some d \<Rightarrow> release_time r (now + int d))"
  by pat_completeness auto
termination
  by (relation "measure (\<lambda>(r, now). nat (r_expiry r - now))")
    (auto simp: next_expiry_delay_def is_expired_res_def MAX_EXPIRY_TIMER_def split: if_splits)

declare release_time.simps [simp del]

text \<open>
  No reservation timer is longer than 24 hours however far the expiry lies away, and the
  chain of re-armed timers ends: the reservation is released exactly at its expiry, or at once
  when that has passed.
\<close>

theorem release_time_eq:
  "release_time r now = max now (r_expiry r)
   \<and> (\<forall>d. next_expiry_delay r now = Some d \<longrightarrow> 0 < d \<and> d \<le> MAX_EXPIRY_TIMER)"
proof (induction r now rule: release_time.induct)
  case (1 r now)
  show ?case
  proof (cases "next_expiry_delay r now")
    case None
    then show ?thesis
      by (auto simp: release_time.simps [of r now] next_expiry_delay_def is_expired_res_def
          split: if_splits)
  next
    case (Some d)
    then have d: "now < r_expiry r" "0 < d" "d \<le> MAX_EXPIRY_TIMER" "int d \<le> r_expiry r - now"
      by (auto simp: next_expiry_delay_def is_expired_res_def MAX_EXPIRY_TIMER_def split: if_splits)
    with "1.IH" [OF Some] Some show ?thesis by (auto simp: release_time.simps [of r now])
  qed
qed

theorem release_time_eq_witness:
  "release_time (reservation_of demo_request) 50 = 100
   \<and> (0::duration) < 50 \<and> next_expiry_delay (reservation_of demo_request) 50 = Some 50"
proof -
  have "next_expiry_delay (reservation_of demo_request) 50 = Some 50"
    by (simp add: next_expiry_delay_def reservation_of_def demo_request_def is_expired_res_def
        MAX_EXPIRY_TIMER_def)
  with release_time_eq [of "reservation_of demo_request" 50] show ?thesis
    by (simp add: reservation_of_def demo_request_def)
qed

text \<open>
  The reservation gate of a start.  A live reservation lets exactly the reserved idTag and
  the tags of the same parent through; an expired one bars nobody.
\<close>

theorem reserved_for_other_iff:
  "reserved_for_other c tag parent now \<longleftrightarrow>
     (\<exists>r. c_reservation c = Some r \<and> now < r_expiry r \<and> tag \<noteq> r_id_tag r
        \<and> (r_parent_id_tag r = None \<or> parent = None \<or> parent \<noteq> r_parent_id_tag r))"
  by (cases "c_reservation c")
    (auto simp: reserved_for_other_def live_reservation_def is_expired_res_def accepts_def
      split: option.splits)

theorem reserved_for_other_iff_witness:
  "reserved_for_other ((new_connector 1)\<lparr>c_reservation := Some (reservation_of demo_request)\<rparr>) ''X'' None 50
   \<and> \<not> reserved_for_other ((new_connector 1)\<lparr>c_reservation := Some (reservation_of demo_request)\<rparr>) ''TAG'' None 50"
  unfolding reserved_for_other_iff by (simp add: reservation_of_def demo_request_def)

end
