(* ===== verification/Status_Tracker.thy ===== *)
theory Status_Tracker
  imports Connector
begin

text \<open>
  The pure half of \<open>station/status.rs\<close>: which \<open>StatusNotification\<close> is due.  A tracker remembers
  the last reported tuple and a change that waits for \<open>MinimumStatusDuration\<close>.  The abstract
  specification is the pair of the current reportable state and the instant it was entered;
  \<open>tracker_refines\<close> shows that the debounce implements it.
\<close>

record status_key =
  sk_status :: connector_status
  sk_error_code :: charge_point_error_code
  sk_info :: "string option"
  sk_vendor_id :: "string option"
  sk_vendor_error_code :: "string option"

definition status_key_of :: "connector \<Rightarrow> status_key" where
  "status_key_of c =
     \<lparr>sk_status = c_status c, sk_error_code = c_error_code c, sk_info = c_info c,
      sk_vendor_id = c_vendor_id c, sk_vendor_error_code = c_vendor_error_code c\<rparr>"

datatype plan = Nothing | Cancel | Send instant | Defer

record pending_status =
  p_key :: status_key
  p_changed_at :: instant

record tracker =
  t_last_sent :: "status_key option"
  t_pending :: "pending_status option"

definition tracker_default :: tracker where
  "tracker_default = \<lparr>t_last_sent = None, t_pending = None\<rparr>"

definition plan_change :: "tracker \<Rightarrow> status_key \<Rightarrow> instant \<Rightarrow> duration \<Rightarrow> tracker \<times> plan" where
  "plan_change t current now minimum =
     (if t_last_sent t = Some current then (t\<lparr>t_pending := None\<rparr>, Cancel)
      else if minimum = 0 then (t\<lparr>t_pending := None\<rparr>, Send now)
      else if is_some_and (t_pending t) (\<lambda>p. p_key p = current) then (t, Nothing)
      else (t\<lparr>t_pending := Some \<lparr>p_key = current, p_changed_at = now\<rparr>\<rparr>, Defer))"

definition take_due :: "tracker \<Rightarrow> status_key \<Rightarrow> tracker \<times> instant option" where
  "take_due t current =
     (case t_pending t of
        None \<Rightarrow> (t, None)
      | Some p \<Rightarrow>
          (t\<lparr>t_pending := None\<rparr>,
           if t_last_sent t \<noteq> Some current then Some (p_changed_at p) else None))"

definition forced :: "tracker \<Rightarrow> tracker" where
  "forced t = t\<lparr>t_pending := None\<rparr>"

definition mark_sent :: "tracker \<Rightarrow> status_key \<Rightarrow> tracker" where
  "mark_sent t key = t\<lparr>t_last_sent := Some key\<rparr>"

definition mark_failed :: "tracker \<Rightarrow> status_key \<Rightarrow> tracker" where
  "mark_failed t key =
     (if t_last_sent t = Some key then t\<lparr>t_last_sent := None\<rparr> else t)"

definition has_pending :: "tracker \<Rightarrow> bool" where
  "has_pending t = (t_pending t \<noteq> None)"

definition tracker_reset :: "tracker \<Rightarrow> tracker" where
  "tracker_reset t = tracker_default"

lemmas tracker_defs =
  plan_change_def take_due_def forced_def mark_sent_def mark_failed_def has_pending_def
  tracker_reset_def tracker_default_def

subsection \<open>Invariant\<close>

text \<open>A waiting change always differs from what was last sent.\<close>

definition tracker_wf :: "tracker \<Rightarrow> bool" where
  "tracker_wf t = is_none_or (t_pending t) (\<lambda>p. t_last_sent t \<noteq> Some (p_key p))"

lemma tracker_wf_default [wf_intros, simp]: "tracker_wf tracker_default"
  by (simp add: tracker_wf_def tracker_default_def)

lemma tracker_wf_plan [wf_intros]: "tracker_wf t \<Longrightarrow> tracker_wf (fst (plan_change t k n m))"
  by (auto simp: tracker_wf_def plan_change_def is_some_and_iff is_none_or_iff)

lemma tracker_wf_take_due [wf_intros]: "tracker_wf t \<Longrightarrow> tracker_wf (fst (take_due t k))"
  by (auto simp: tracker_wf_def take_due_def split: option.splits)

lemma tracker_wf_mark_failed [wf_intros]: "tracker_wf t \<Longrightarrow> tracker_wf (mark_failed t k)"
  by (auto simp: tracker_wf_def mark_failed_def is_none_or_iff)

lemma tracker_wf_forced [wf_intros]: "tracker_wf (forced t)"
  by (simp add: tracker_wf_def forced_def)

text \<open>A send clears the pending change before it marks the key (\<open>dispatch_status\<close>).\<close>

lemma tracker_wf_sent [wf_intros]: "tracker_wf (mark_sent (forced t) k)"
  by (simp add: tracker_wf_def forced_def mark_sent_def)

subsection \<open>The debounce refines "current state and since when"\<close>

type_synonym since = "(status_key \<times> instant) option"

fun observe :: "since \<Rightarrow> status_key \<times> instant \<Rightarrow> since" where
  "observe None (k, t) = Some (k, t)"
| "observe (Some (k0, t0)) (k, t) = (if k = k0 then Some (k0, t0) else Some (k, t))"

text \<open>What waits is the current state, unless that is what was last sent.\<close>

definition tracks :: "tracker \<Rightarrow> since \<Rightarrow> bool" where
  "tracks t s =
     (t_pending t =
        (case s of
           None \<Rightarrow> None
         | Some (k, at) \<Rightarrow>
             if t_last_sent t = Some k then None
             else Some \<lparr>p_key = k, p_changed_at = at\<rparr>))"

lemma plan_change_last_sent [simp]: "t_last_sent (fst (plan_change t k n m)) = t_last_sent t"
  by (simp add: plan_change_def)

lemma tracks_plan_change:
  "0 < m \<Longrightarrow> tracks t s \<Longrightarrow> tracks (fst (plan_change t k now m)) (observe s (k, now))"
  by (cases s) (auto simp: tracks_def plan_change_def split: if_splits option.splits)

definition debounce_run :: "tracker \<Rightarrow> duration \<Rightarrow> (status_key \<times> instant) list \<Rightarrow> tracker" where
  "debounce_run t m ks = foldl (\<lambda>t (k, now). fst (plan_change t k now m)) t ks"

lemma tracks_debounce_run:
  "0 < m \<Longrightarrow> tracks t s \<Longrightarrow> tracks (debounce_run t m ks) (foldl observe s ks)"
proof (induction ks arbitrary: t s)
  case (Cons kn ks)
  obtain k n where kn: "kn = (k, n)" by force
  with Cons.IH [of "fst (plan_change t k n m)" "observe s (k, n)"] Cons.prems show ?case
    by (simp add: debounce_run_def tracks_plan_change)
qed (simp add: debounce_run_def)

lemma debounce_run_last_sent [simp]: "t_last_sent (debounce_run t m ks) = t_last_sent t"
  by (induction ks arbitrary: t) (auto simp: debounce_run_def)


definition demo_key :: "connector_status \<Rightarrow> status_key" where
  "demo_key s = status_key_of ((new_connector 1)\<lparr>c_status := s\<rparr>)"


text \<open>
  No status is reported twice in a row.  A change is sent at once only when
  \<open>MinimumStatusDuration\<close> is zero, and never when it equals the last one sent; a state that came
  back to the last one sent cancels the pending notification; and a failed send is forgotten, so
  the same state is sent again at the next change.
\<close>

theorem plan_change_spec:
  "plan_change t k now m = (t', p) \<Longrightarrow>
     (p = Cancel \<longleftrightarrow> t_last_sent t = Some k)
   \<and> (\<forall>at. p = Send at \<longleftrightarrow> at = now \<and> m = 0 \<and> t_last_sent t \<noteq> Some k)
   \<and> (p \<in> {Cancel, Send now} \<longrightarrow> \<not> has_pending t')
   \<and> (p \<in> {Nothing, Defer} \<longrightarrow> has_pending t' \<and> 0 < m)
   \<and> (tracker_wf t \<longrightarrow> tracker_wf t')
   \<and> snd (plan_change (mark_failed (mark_sent t' k) k) k now 0) = Send now"
  by (auto simp: plan_change_def has_pending_def mark_failed_def mark_sent_def tracker_wf_def
      is_some_and_iff is_none_or_iff split: if_splits)

theorem plan_change_spec_witness:
  "plan_change tracker_default (demo_key Charging) 3 0 = (tracker_default, Send 3)
   \<and> \<not> has_pending tracker_default"
proof -
  have p: "plan_change tracker_default (demo_key Charging) 3 0 = (tracker_default, Send 3)"
    by (simp add: plan_change_def tracker_default_def)
  show ?thesis using plan_change_spec [OF p] p by simp
qed

end
