(* ===== verification/Maintenance.thy ===== *)
theory Maintenance
  imports Config_Registry
begin

text \<open>
  The simulated diagnostics upload, log upload and firmware updates (\<open>station/maintenance.rs\<close>): the
  status reports of a run are a plan, a list of delays and statuses.  Of \<open>url::Url\<close> the model takes the
  scheme and whether a host is present as a parameter.
\<close>

subsection \<open>Statuses and outcomes\<close>

datatype diagnostics_status = Diag_Idle | Diag_Uploaded | Diag_UploadFailed | Diag_Uploading

datatype firmware_status =
  Fw_Downloaded | Fw_DownloadFailed | Fw_Downloading | Fw_Idle | Fw_InstallationFailed
| Fw_Installing | Fw_Installed

datatype upload_log_status =
  Log_BadMessage | Log_Idle | Log_NotSupportedOperation | Log_PermissionDenied | Log_Uploaded
| Log_UploadFailure | Log_Uploading

datatype signed_firmware_status =
  Sf_Downloaded | Sf_DownloadFailed | Sf_Downloading | Sf_DownloadScheduled | Sf_DownloadPaused
| Sf_Idle | Sf_InstallationFailed | Sf_Installing | Sf_Installed | Sf_InstallRebooting
| Sf_InstallScheduled | Sf_InstallVerificationFailed | Sf_InvalidSignature | Sf_SignatureVerified

datatype diagnostics_outcome = Diagnostics_Success | UploadFailure

datatype firmware_outcome =
  Firmware_Success | DownloadFailure | InstallationFailure | InvalidSignature
| InstallVerificationFailed

datatype maintenance_step =
  Step_Diagnostics diagnostics_status
| Step_Firmware firmware_status

type_synonym 'a plan_of = "(duration \<times> 'a) list"

subsection \<open>Plans\<close>

definition STEP_DELAY :: duration where "STEP_DELAY = 100 * 1000000"
definition MAX_DELAY :: duration where "MAX_DELAY = secs 1"
definition MAX_RETRIES :: u32 where "MAX_RETRIES = 5"

definition repeat_attempt :: "'a list \<Rightarrow> u32 \<Rightarrow> 'a list" where
  "repeat_attempt attempt retries = concat (replicate (Suc (min retries MAX_RETRIES)) attempt)"

definition with_delays :: "'a list \<Rightarrow> nat \<Rightarrow> duration \<Rightarrow> 'a plan_of" where
  "with_delays steps attempt_len retry_interval =
     map (\<lambda>(index, step). (if 0 < index \<and> index mod attempt_len = 0
                            then min retry_interval MAX_DELAY else STEP_DELAY, step))
       (enumerate 0 steps)"

definition plan_diagnostics :: "diagnostics_outcome \<Rightarrow> u32 \<Rightarrow> duration \<Rightarrow> maintenance_step plan_of" where
  "plan_diagnostics out retries retry_interval =
     (let (attempt, retries) =
        (case out of
           Diagnostics_Success \<Rightarrow> ([Diag_Uploading, Diag_Uploaded], 0)
         | UploadFailure \<Rightarrow> ([Diag_Uploading, Diag_UploadFailed], retries))
      in with_delays (map Step_Diagnostics (repeat_attempt attempt retries)) (length attempt)
           retry_interval)"

definition plan_log :: "diagnostics_outcome \<Rightarrow> u32 \<Rightarrow> duration \<Rightarrow> upload_log_status plan_of" where
  "plan_log out retries retry_interval =
     List.map_filter (\<lambda>(delay, step).
       (case step of
          Step_Diagnostics st \<Rightarrow>
            (case st of
               Diag_Uploading \<Rightarrow> Some (delay, Log_Uploading)
             | Diag_Uploaded \<Rightarrow> Some (delay, Log_Uploaded)
             | Diag_UploadFailed \<Rightarrow> Some (delay, Log_UploadFailure)
             | Diag_Idle \<Rightarrow> None)
        | Step_Firmware _ \<Rightarrow> None))
       (plan_diagnostics out retries retry_interval)"

definition plan_firmware :: "firmware_outcome \<Rightarrow> u32 \<Rightarrow> duration \<Rightarrow> maintenance_step plan_of" where
  "plan_firmware out retries retry_interval =
     (let (attempt, retries) =
        (case out of
           Firmware_Success \<Rightarrow> ([Fw_Downloading, Fw_Downloaded, Fw_Installing, Fw_Installed], 0)
         | DownloadFailure \<Rightarrow> ([Fw_Downloading, Fw_DownloadFailed], retries)
         | _ \<Rightarrow> ([Fw_Downloading, Fw_Downloaded, Fw_Installing, Fw_InstallationFailed], retries))
      in with_delays (map Step_Firmware (repeat_attempt attempt retries)) (length attempt)
           retry_interval)"

text \<open>The steps of one signed attempt, as the closure \<open>installing\<close> builds them.\<close>

definition installing :: "duration option \<Rightarrow> signed_firmware_status list \<Rightarrow> signed_firmware_status list" where
  "installing install_wait last_steps =
     [Sf_Downloading, Sf_Downloaded, Sf_SignatureVerified]
     @ (if install_wait \<noteq> None then [Sf_InstallScheduled] else []) @ [Sf_Installing] @ last_steps"

definition signed_attempt ::
  "firmware_outcome \<Rightarrow> u32 \<Rightarrow> duration option \<Rightarrow> signed_firmware_status list \<times> u32" where
  "signed_attempt out retries install_wait =
     (case out of
        Firmware_Success \<Rightarrow> (installing install_wait [Sf_InstallRebooting, Sf_Installed], 0)
      | DownloadFailure \<Rightarrow> ([Sf_Downloading, Sf_DownloadFailed], retries)
      | InstallationFailure \<Rightarrow> (installing install_wait [Sf_InstallationFailed], retries)
      | InvalidSignature \<Rightarrow> ([Sf_Downloading, Sf_Downloaded, Sf_InvalidSignature], 0)
      | InstallVerificationFailed \<Rightarrow>
          (installing install_wait [Sf_InstallRebooting, Sf_InstallVerificationFailed], 0))"

definition plan_signed ::
  "firmware_outcome \<Rightarrow> u32 \<Rightarrow> duration \<Rightarrow> duration option \<Rightarrow> duration option
     \<Rightarrow> signed_firmware_status plan_of" where
  "plan_signed out retries retry_interval retrieve_wait install_wait =
     (let (attempt, retries) = signed_attempt out retries install_wait;
          lead = (if retrieve_wait \<noteq> None then [Sf_DownloadScheduled] else []);
          head = length lead;
          steps = lead @ repeat_attempt attempt retries;
          plan = map (\<lambda>st. (STEP_DELAY, st)) steps;
          plan1 = map (\<lambda>(index, d, st).
                    if head \<le> index \<and> 0 < index - head \<and> (index - head) mod length attempt = 0
                    then (min retry_interval MAX_DELAY, st) else (d, st)) (enumerate 0 plan);
          plan2 = (case retrieve_wait of
                     Some wait \<Rightarrow> (if head < length plan1
                       then plan1[head := (min wait MAX_DELAY, snd (plan1 ! head))] else plan1)
                   | None \<Rightarrow> plan1);
          plan3 = (case install_wait of
                     Some wait \<Rightarrow> map (\<lambda>(d, st). if st = Sf_Installing then (min wait MAX_DELAY, st) else (d, st)) plan2
                   | None \<Rightarrow> plan2)
      in plan3)"

text \<open>What \<open>url::Url::parse\<close> finds in a text: the scheme, and whether there is a host.\<close>

definition valid_log_location :: "(string \<Rightarrow> (string \<times> bool) option) \<Rightarrow> string \<Rightarrow> bool" where
  "valid_log_location parse_url location =
     (case parse_url location of
        None \<Rightarrow> False
      | Some (scheme, has_host) \<Rightarrow>
          scheme \<in> {''ftp'', ''ftps'', ''http'', ''https'', ''sftp''} \<and> has_host)"

definition non_negative :: "i32 option \<Rightarrow> u32" where
  "non_negative value = (case value of None \<Rightarrow> 0 | Some v \<Rightarrow> if 0 \<le> v then nat v else 0)"

subsection \<open>Laws of the plans\<close>

lemma with_delays_steps: "map snd (with_delays steps n r) = steps"
  by (simp add: with_delays_def comp_def case_prod_beta')

lemma with_delays_bound: "(d, st) \<in> set (with_delays steps n r) \<Longrightarrow> d \<le> MAX_DELAY"
  by (auto simp: with_delays_def STEP_DELAY_def MAX_DELAY_def secs_def split: if_splits)

lemma repeat_ne: "attempt \<noteq> [] \<Longrightarrow> repeat_attempt attempt n \<noteq> []"
  by (simp add: repeat_attempt_def)

lemma repeat_0 [simp]: "repeat_attempt attempt 0 = attempt"
  by (simp add: repeat_attempt_def)

lemma length_repeat: "length (repeat_attempt attempt n) = Suc (min n MAX_RETRIES) * length attempt"
  by (simp add: repeat_attempt_def length_concat sum_list_replicate)

lemma last_repeat: "attempt \<noteq> [] \<Longrightarrow> last (repeat_attempt attempt n) = last attempt"
  by (simp add: repeat_attempt_def flip: replicate_append_same)

lemma in_repeat: "x \<in> set (repeat_attempt attempt n) \<longleftrightarrow> x \<in> set attempt"
  by (simp add: repeat_attempt_def del: replicate.simps)

text \<open>The statuses of a plan.\<close>

definition reports :: "'a plan_of \<Rightarrow> 'a list" where
  "reports plan = map snd plan"

lemma reports_diagnostics:
  "reports (plan_diagnostics out retries r) = map Step_Diagnostics
     (case out of Diagnostics_Success \<Rightarrow> [Diag_Uploading, Diag_Uploaded]
      | UploadFailure \<Rightarrow> repeat_attempt [Diag_Uploading, Diag_UploadFailed] retries)"
  by (cases out) (simp_all add: plan_diagnostics_def reports_def with_delays_steps)

lemma reports_firmware:
  "reports (plan_firmware out retries r) = map Step_Firmware
     (case out of Firmware_Success \<Rightarrow> [Fw_Downloading, Fw_Downloaded, Fw_Installing, Fw_Installed]
      | DownloadFailure \<Rightarrow> repeat_attempt [Fw_Downloading, Fw_DownloadFailed] retries
      | _ \<Rightarrow> repeat_attempt [Fw_Downloading, Fw_Downloaded, Fw_Installing, Fw_InstallationFailed] retries)"
  by (cases out) (simp_all add: plan_firmware_def reports_def with_delays_steps)

lemma map_snd_map: "(\<And>x. snd (f x) = snd x) \<Longrightarrow> map snd (map f xs) = map snd xs"
  by simp

lemma reports_signed:
  "reports (plan_signed out retries r rw iw) =
     (if rw \<noteq> None then [Sf_DownloadScheduled] else [])
     @ (let (attempt, n) = signed_attempt out retries iw in repeat_attempt attempt n)"
proof -
  obtain attempt n where a: "signed_attempt out retries iw = (attempt, n)" by force
  have enum: "map snd (map (\<lambda>(index, d, st). if P index then (e, st) else (d, st)) (enumerate 0 xs)) = map snd xs"
    for P and e and xs :: "signed_firmware_status plan_of"
    by (rule nth_equalityI) (auto simp: nth_enumerate_eq split: prod.split)
  have upd: "map snd (if k < length xs then xs[k := (w, snd (xs ! k))] else xs) = map snd xs"
    for k w and xs :: "signed_firmware_status plan_of"
    by (auto simp: map_update intro: list_update_same_conv [THEN iffD2])
  have inst: "map snd (map (\<lambda>(d, st). if st = Sf_Installing then (w, st) else (d, st)) xs) = map snd xs"
    for w and xs :: "signed_firmware_status plan_of"
    by (induction xs) auto
  show ?thesis
    unfolding reports_def plan_signed_def a Let_def prod.case
    by (cases rw; cases iw) (simp_all only: option.case inst upd enum, simp_all add: comp_def)
qed

lemma signed_attempt_cases:
  "fst (signed_attempt out retries iw) \<noteq> [] \<and> snd (signed_attempt out retries iw) \<le> retries"
  by (cases out) (simp_all add: signed_attempt_def installing_def)

lemma plan_signed_bound: "(d, st) \<in> set (plan_signed out retries r rw iw) \<Longrightarrow> d \<le> MAX_DELAY"
proof -
  obtain attempt n where a: "signed_attempt out retries iw = (attempt, n)" by force
  let ?ok = "\<lambda>xs. \<forall>(d, st)\<in>set xs. d \<le> MAX_DELAY"
  have step: "STEP_DELAY \<le> MAX_DELAY" by (simp add: STEP_DELAY_def MAX_DELAY_def secs_def)
  have enum: "?ok (map (\<lambda>(index, d, st). if P index then (min e MAX_DELAY, st) else (d, st)) (enumerate 0 xs))"
    if "?ok xs" for P and e and xs :: "signed_firmware_status plan_of"
  proof (clarsimp split: if_splits)
    fix i d st assume "(i, d, st) \<in> set (enumerate 0 xs)"
    then have "(d, st) \<in> set xs" by (simp add: in_set_enumerate_eq) (metis nth_mem)
    with that show "d \<le> MAX_DELAY" by auto
  qed
  have upd: "?ok (if k < length xs then xs[k := (min w MAX_DELAY, snd (xs ! k))] else xs)"
    if "?ok xs" for k w and xs :: "signed_firmware_status plan_of"
    using that by (auto dest!: set_list_update_cases)
  have inst: "?ok (map (\<lambda>(d, st). if st = Sf_Installing then (min w MAX_DELAY, st) else (d, st)) xs)"
    if "?ok xs" for w and xs :: "signed_firmware_status plan_of"
    using that by (auto split: if_splits)
  have base: "?ok (map (\<lambda>st. (STEP_DELAY, st)) ys)" for ys :: "signed_firmware_status list"
    using step by auto
  have "?ok (plan_signed out retries r rw iw)"
    unfolding plan_signed_def a Let_def prod.case
    by (cases rw; cases iw) (simp_all only: option.case, (intro inst upd enum base)+)
  then show "(d, st) \<in> set (plan_signed out retries r rw iw) \<Longrightarrow> d \<le> MAX_DELAY" by blast
qed

text \<open>The status a run ends with.\<close>

fun final_diagnostics :: "diagnostics_outcome \<Rightarrow> diagnostics_status" where
  "final_diagnostics Diagnostics_Success = Diag_Uploaded"
| "final_diagnostics UploadFailure = Diag_UploadFailed"

fun final_firmware :: "firmware_outcome \<Rightarrow> firmware_status" where
  "final_firmware Firmware_Success = Fw_Installed"
| "final_firmware DownloadFailure = Fw_DownloadFailed"
| "final_firmware _ = Fw_InstallationFailed"

fun final_signed :: "firmware_outcome \<Rightarrow> signed_firmware_status" where
  "final_signed Firmware_Success = Sf_Installed"
| "final_signed DownloadFailure = Sf_DownloadFailed"
| "final_signed InstallationFailure = Sf_InstallationFailed"
| "final_signed InvalidSignature = Sf_InvalidSignature"
| "final_signed InstallVerificationFailed = Sf_InstallVerificationFailed"

text \<open>The bound on the number of reports: one attempt, and at most five repetitions of it.\<close>

lemma length_reports: "length (reports plan) = length plan"
  by (simp add: reports_def)

lemma retries_bound: "Suc (min n MAX_RETRIES) * k \<le> 6 * k"
  by (simp add: MAX_RETRIES_def mult_le_mono1)


end
