(* ===== verification/Certificates.thy ===== *)
theory Certificates
  imports Maintenance
begin

text \<open>
  The certificate store of the Security Whitepaper (\<open>station/certificates.rs\<close>): installing, listing and
  deleting roots, the fallback root of \<open>AdditionalRootCertificateCheck\<close>, and the check of a signed chain.
  PEM, X.509, digests and key pairs are third-party crates: \<open>cert_lib\<close> holds what they return.  A byte
  string is a \<^typ>\<open>string\<close> of its bytes.
\<close>

subsection \<open>Messages\<close>

datatype hash_algorithm = Sha256 | Sha384 | Sha512

datatype certificate_use = CentralSystemRootCertificate | ManufacturerRootCertificate

fun certificate_use_str :: "certificate_use \<Rightarrow> string" where
  "certificate_use_str CentralSystemRootCertificate = ''CentralSystemRootCertificate''"
| "certificate_use_str ManufacturerRootCertificate = ''ManufacturerRootCertificate''"

datatype installed_status = Inst_Accepted | Inst_NotFound

record certificate_hash_data =
  ch_hash_algorithm :: hash_algorithm
  ch_issuer_name_hash :: string
  ch_issuer_key_hash :: string
  ch_serial_number :: string

datatype install_status = Install_Accepted | Install_Failed | Install_Rejected
datatype delete_status = Delete_Accepted | Delete_Failed | Delete_NotFound

definition MAX_CERTIFICATE_LEN :: nat where "MAX_CERTIFICATE_LEN = 5500"

subsection \<open>What the crates provide\<close>

type_synonym bytes = string

record x509 =
  xc_subject :: string
  xc_raw_serial :: bytes
  xc_not_before :: int
  xc_not_after :: int
  xc_subject_raw :: bytes
  xc_issuer_raw :: bytes
  xc_subject_public_key :: bytes
  xc_spki_raw :: bytes

text \<open>
  \<open>cl_pem_items\<close>: the CERTIFICATE blocks of a PEM text, an error item where one is broken;
  \<open>cl_from_der\<close>: the bytes left over and the certificate; \<open>cl_verify der key\<close>: the signature of \<open>der\<close>
  under the key, its own when there is none; \<open>cl_key_info\<close>: the public key of a private key PEM.
\<close>

record cert_lib =
  cl_pem_items :: "string \<Rightarrow> (string + bytes) list"
  cl_from_der :: "bytes \<Rightarrow> string + (bytes \<times> x509)"
  cl_verify :: "bytes \<Rightarrow> bytes option \<Rightarrow> bool"
  cl_digest :: "hash_algorithm \<Rightarrow> bytes \<Rightarrow> bytes"
  cl_key_info :: "string \<Rightarrow> string + bytes"

definition MAX_CHAIN_CERTS :: nat where "MAX_CHAIN_CERTS = 8"

subsection \<open>Parsed certificates\<close>

record parsed_cert =
  px_der :: bytes
  px_subject :: string
  px_serial :: string
  px_not_before :: int
  px_not_after :: int
  px_subject_raw :: bytes
  px_issuer_raw :: bytes
  px_key_bits :: bytes
  px_spki_der :: bytes
  px_self_signed :: bool

definition hex_digit :: "nat \<Rightarrow> char" where
  "hex_digit n = (if n < 10 then char_of (48 + n) else char_of (87 + n))"

definition hex_bytes :: "bytes \<Rightarrow> string" where
  "hex_bytes bs = concat (map (\<lambda>b. [hex_digit (char_code b div 16), hex_digit (char_code b mod 16)]) bs)"

definition trim_zeros :: "string \<Rightarrow> string" where
  "trim_zeros s = dropWhile (\<lambda>c. c = CHR ''0'') s"

definition serial_hex :: "bytes \<Rightarrow> string" where
  "serial_hex raw =
     (let trimmed = dropWhile (\<lambda>b. char_code b = 0) raw
      in if trimmed = [] then ''0'' else trim_zeros (hex_bytes trimmed))"

definition from_der :: "cert_lib \<Rightarrow> bytes \<Rightarrow> string + parsed_cert" where
  "from_der lib der =
     (case cl_from_der lib der of
        Inl e \<Rightarrow> Inl e
      | Inr (rest, cert) \<Rightarrow>
          if rest \<noteq> [] then Inl ''trailing data after the certificate''
          else Inr
            \<lparr>px_der = der, px_subject = xc_subject cert, px_serial = serial_hex (xc_raw_serial cert),
             px_not_before = xc_not_before cert, px_not_after = xc_not_after cert,
             px_subject_raw = xc_subject_raw cert, px_issuer_raw = xc_issuer_raw cert,
             px_key_bits = xc_subject_public_key cert, px_spki_der = xc_spki_raw cert,
             px_self_signed = (xc_subject_raw cert = xc_issuer_raw cert \<and> cl_verify lib der None)\<rparr>)"

definition valid_at :: "parsed_cert \<Rightarrow> instant \<Rightarrow> bool" where
  "valid_at c now = (let t = now div ns_per_s in px_not_before c \<le> t \<and> t \<le> px_not_after c)"

definition hash_data :: "cert_lib \<Rightarrow> hash_algorithm \<Rightarrow> parsed_cert \<Rightarrow> certificate_hash_data" where
  "hash_data lib alg c =
     \<lparr>ch_hash_algorithm = alg, ch_issuer_name_hash = hex_bytes (cl_digest lib alg (px_issuer_raw c)),
      ch_issuer_key_hash = hex_bytes (cl_digest lib alg (px_key_bits c)), ch_serial_number = px_serial c\<rparr>"

definition root_hash_data :: "cert_lib \<Rightarrow> hash_algorithm \<Rightarrow> parsed_cert \<Rightarrow> certificate_hash_data" where
  "root_hash_data lib alg c =
     (let data = hash_data lib alg c
      in if \<not> px_self_signed c
         then data\<lparr>ch_issuer_name_hash := hex_bytes (cl_digest lib alg (px_subject_raw c))\<rparr> else data)"

definition signed_by :: "cert_lib \<Rightarrow> parsed_cert \<Rightarrow> parsed_cert \<Rightarrow> bool" where
  "signed_by lib c issuer =
     (case cl_from_der lib (px_der c) of
        Inl _ \<Rightarrow> False
      | Inr _ \<Rightarrow>
          (case cl_from_der lib (px_der issuer) of
             Inl _ \<Rightarrow> False
           | Inr (_, key) \<Rightarrow> cl_verify lib (px_der c) (Some (xc_spki_raw key))))"

fun parse_items :: "cert_lib \<Rightarrow> (string + bytes) list \<Rightarrow> parsed_cert list \<Rightarrow> string + parsed_cert list" where
  "parse_items lib [] out = Inr out"
| "parse_items lib (item # rest) out =
     (case item of
        Inl e \<Rightarrow> Inl (''invalid PEM: '' @ e)
      | Inr der \<Rightarrow>
          if length out \<ge> MAX_CHAIN_CERTS then Inl (''more than '' @ show_nat MAX_CHAIN_CERTS @ '' certificates'')
          else (case from_der lib der of Inl e \<Rightarrow> Inl e | Inr c \<Rightarrow> parse_items lib rest (out @ [c])))"

definition parse_pem_chain :: "cert_lib \<Rightarrow> string \<Rightarrow> string + parsed_cert list" where
  "parse_pem_chain lib pem =
     (case parse_items lib (cl_pem_items lib pem) [] of
        Inl e \<Rightarrow> Inl e
      | Inr out \<Rightarrow> if out = [] then Inl ''no PEM certificate found'' else Inr out)"

definition same_hash :: "certificate_hash_data \<Rightarrow> certificate_hash_data \<Rightarrow> bool" where
  "same_hash a b =
     (ch_hash_algorithm a = ch_hash_algorithm b
      \<and> eq_ignore_ascii_case (ch_issuer_name_hash a) (ch_issuer_name_hash b)
      \<and> eq_ignore_ascii_case (ch_issuer_key_hash a) (ch_issuer_key_hash b)
      \<and> eq_ignore_ascii_case (trim_zeros (ch_serial_number a)) (trim_zeros (ch_serial_number b)))"

subsection \<open>The store\<close>

record stored_root =
  sr_kind :: certificate_use
  sr_pem :: string
  sr_fallback :: bool

record cert_store =
  ct_roots :: "stored_root list"
  ct_charge_point_chain :: "string option"
  ct_previous_charge_point_chain :: "string option"

definition cert_store_default :: cert_store where
  "cert_store_default =
     \<lparr>ct_roots = [], ct_charge_point_chain = None, ct_previous_charge_point_chain = None\<rparr>"

text \<open>The certificate of a root, if its text holds exactly one.\<close>

definition root_cert :: "cert_lib \<Rightarrow> stored_root \<Rightarrow> parsed_cert option" where
  "root_cert lib r =
     (case parse_pem_chain lib (sr_pem r) of
        Inl _ \<Rightarrow> None | Inr cs \<Rightarrow> if length cs = 1 then Some (hd cs) else None)"

definition parsed_roots :: "cert_lib \<Rightarrow> cert_store \<Rightarrow> (certificate_use \<times> parsed_cert) list" where
  "parsed_roots lib st =
     List.map_filter (\<lambda>r. map_option (Pair (sr_kind r)) (root_cert lib r)) (ct_roots st)"

text \<open>The first certificate of a root's text (\<open>into_iter().next()\<close>).\<close>

definition first_cert :: "cert_lib \<Rightarrow> stored_root \<Rightarrow> parsed_cert option" where
  "first_cert lib r =
     (case parse_pem_chain lib (sr_pem r) of Inl _ \<Rightarrow> None | Inr cs \<Rightarrow> (case cs of [] \<Rightarrow> None | c # _ \<Rightarrow> Some c))"

definition new_root :: "certificate_use \<Rightarrow> string \<Rightarrow> stored_root" where
  "new_root kind pem = \<lparr>sr_kind = kind, sr_pem = trim pem, sr_fallback = False\<rparr>"

text \<open>Indices of the Central System roots a new one could replace.\<close>

definition primaries :: "cert_store \<Rightarrow> nat list" where
  "primaries st =
     map fst (filter (\<lambda>(_, r). sr_kind r = CentralSystemRootCertificate \<and> \<not> sr_fallback r)
       (enumerate 0 (ct_roots st)))"

text \<open>\<open>retain_mut\<close>: of the Central System roots only the signer stays, as the fallback.\<close>

definition demote_to_fallback :: "nat \<Rightarrow> stored_root list \<Rightarrow> stored_root list" where
  "demote_to_fallback signer roots =
     map (\<lambda>(_, r). if sr_kind r = CentralSystemRootCertificate then r\<lparr>sr_fallback := True\<rparr> else r)
       (filter (\<lambda>(index, r). sr_kind r \<noteq> CentralSystemRootCertificate \<or> index = signer) (enumerate 0 roots))"

definition install ::
  "cert_lib \<Rightarrow> certificate_use \<Rightarrow> string \<Rightarrow> instant \<Rightarrow> nat \<Rightarrow> bool \<Rightarrow> cert_store \<Rightarrow> cert_store \<times> install_status" where
  "install lib kind pem now max_len additional_check st =
     (if length pem > MAX_CERTIFICATE_LEN then (st, Install_Rejected)
      else case parse_pem_chain lib pem of
        Inl _ \<Rightarrow> (st, Install_Rejected)
      | Inr parsed \<Rightarrow>
          if length parsed \<noteq> 1 then (st, Install_Rejected)
          else
            let cert = hd parsed in
            if \<not> valid_at cert now then (st, Install_Rejected)
            else
              let new_hash = root_hash_data lib Sha256 cert in
              if \<exists>(k, c)\<in>set (parsed_roots lib st). k = kind \<and> same_hash (root_hash_data lib Sha256 c) new_hash
              then (st, Install_Accepted)
              else
                let prims = (if additional_check \<and> kind = CentralSystemRootCertificate then primaries st else [])
                in if prims = []
                   then if \<not> px_self_signed cert then (st, Install_Rejected)
                        else if length (ct_roots st) \<ge> max_len then (st, Install_Rejected)
                        else (st\<lparr>ct_roots := ct_roots st @ [new_root kind pem]\<rparr>, Install_Accepted)
                   else
                     case find (\<lambda>index. is_some_and (first_cert lib (ct_roots st ! index)) (signed_by lib cert)) prims of
                       None \<Rightarrow> (st, Install_Rejected)
                     | Some signer \<Rightarrow>
                         let kept = length (filter (\<lambda>r. sr_kind r \<noteq> CentralSystemRootCertificate) (ct_roots st))
                         in if kept + 2 > max_len then (st, Install_Rejected)
                            else (st\<lparr>ct_roots := demote_to_fallback signer (ct_roots st) @ [new_root kind pem]\<rparr>,
                                  Install_Accepted))"

definition has_fallback :: "cert_store \<Rightarrow> bool" where
  "has_fallback st = (\<exists>r\<in>set (ct_roots st). sr_fallback r)"

definition drop_fallback :: "cert_store \<Rightarrow> cert_store \<times> bool" where
  "drop_fallback st =
     (let roots = filter (\<lambda>r. \<not> sr_fallback r) (ct_roots st)
      in (st\<lparr>ct_roots := roots\<rparr>, length roots \<noteq> length (ct_roots st)))"

definition delete_root :: "cert_lib \<Rightarrow> certificate_hash_data \<Rightarrow> bool \<Rightarrow> cert_store \<Rightarrow> cert_store \<times> delete_status" where
  "delete_root lib wanted keep_last st =
     (case position (\<lambda>r. is_some_and (first_cert lib r)
             (\<lambda>c. same_hash (root_hash_data lib (ch_hash_algorithm wanted) c) wanted)) (ct_roots st) of
        None \<Rightarrow> (st, Delete_NotFound)
      | Some index \<Rightarrow>
          if keep_last \<and> sr_kind (ct_roots st ! index) = CentralSystemRootCertificate
             \<and> length (filter (\<lambda>r. sr_kind r = CentralSystemRootCertificate) (ct_roots st)) \<le> 1
          then (st, Delete_Failed)
          else
            let roots = remove_nth index (ct_roots st)
            in (st\<lparr>ct_roots :=
                  (if \<exists>r\<in>set roots. sr_kind r = CentralSystemRootCertificate \<and> \<not> sr_fallback r
                   then roots else map (\<lambda>r. r\<lparr>sr_fallback := False\<rparr>) roots)\<rparr>,
                Delete_Accepted))"

definition installed_ids :: "cert_lib \<Rightarrow> certificate_use \<Rightarrow> cert_store \<Rightarrow> certificate_hash_data list" where
  "installed_ids lib kind st =
     map (root_hash_data lib Sha256 \<circ> snd) (filter (\<lambda>(k, _). k = kind) (parsed_roots lib st))"

definition chains_to_manufacturer_root :: "cert_lib \<Rightarrow> parsed_cert list \<Rightarrow> cert_store \<Rightarrow> bool option" where
  "chains_to_manufacturer_root lib chain st =
     (let roots = map snd (filter (\<lambda>(k, _). k = ManufacturerRootCertificate) (parsed_roots lib st))
      in if roots = [] then None
         else Some (\<exists>cert\<in>set chain. \<exists>root\<in>set roots.
                      px_der cert = px_der root \<or> px_issuer_raw cert = px_subject_raw root))"

definition root_pems :: "certificate_use \<Rightarrow> cert_store \<Rightarrow> string list" where
  "root_pems kind st = map sr_pem (filter (\<lambda>r. sr_kind r = kind \<and> \<not> sr_fallback r) (ct_roots st))"

definition fallback_pems :: "cert_store \<Rightarrow> string list" where
  "fallback_pems st = map sr_pem (filter sr_fallback (ct_roots st))"

text \<open>\<open>validate_signed_chain\<close>: the reason a chain is refused, if it is.\<close>

definition validate_signed_chain ::
  "cert_lib \<Rightarrow> string \<Rightarrow> string \<Rightarrow> instant \<Rightarrow> nat \<Rightarrow> string + unit" where
  "validate_signed_chain lib chain_pem key_pem now max_size =
     (if length chain_pem > max_size
      then Inl ''chain is larger than CertificateSignedMaxChainSize''
      else case parse_pem_chain lib chain_pem of
        Inl e \<Rightarrow> Inl e
      | Inr [] \<Rightarrow> Inl ''empty chain''
      | Inr (leaf # rest) \<Rightarrow>
          if \<not> (\<forall>c\<in>set (leaf # rest). valid_at c now)
          then Inl ''a certificate is expired or not yet valid''
          else case cl_key_info lib key_pem of
            Inl e \<Rightarrow> Inl (''pending key: '' @ e)
          | Inr spki \<Rightarrow>
              if spki \<noteq> px_spki_der leaf then Inl ''the leaf certificate does not match the requested key''
              else if \<not> (\<forall>(a, b)\<in>set (windows2 (leaf # rest)). signed_by lib a b)
              then Inl ''a certificate of the chain is not signed by the next one''
              else Inr ())"

end
