(* ===== verification/Station.thy ===== *)
theory Station
  imports Offline_Queue Authorization Reservation Status_Tracker Response_Rules Certificates
begin

text \<open>
  The state of the station actor (\<open>station/actor.rs\<close>) and the operations every handler builds on:
  connector lookup, the timer wheel as a map of armed timers (\<open>station/timers.rs\<close>), the energy
  integration (\<open>station/power.rs\<close>), the persistence flags (\<open>station/persistence.rs\<close>) and
  outbound CALLs (\<open>station/calls.rs\<close>).

  An outbound CALL is kept with the \<^emph>\<open>name\<close> of its continuation (\<open>cont\<close>); theory
  \<open>Transactions\<close> gives every name its meaning.  A call that may not be sent runs its continuation
  at once, so \<open>call\<close> takes that behaviour as an argument.  One step of the actor reads its clocks as
  the constants \<open>s_now\<close> and \<open>s_mono\<close>.  What leaves the actor is appended to \<open>s_out\<close>.  Log
  lines are not modelled, except the report that the queue dropped an entry.
\<close>

subsection \<open>Requests and answers\<close>

record start_request =
  sq_connector_id :: connector_id
  sq_id_tag :: id_tag
  sq_meter_start :: i64
  sq_reservation_id :: "reservation_id option"
  sq_timestamp :: instant

record stop_request =
  tq_id_tag :: "id_tag option"
  tq_meter_stop :: i64
  tq_timestamp :: instant
  tq_transaction_id :: i32
  tq_reason :: "stop_reason option"
  tq_transaction_data :: "meter_value list option"

record status_request =
  nq_connector_id :: connector_id
  nq_error_code :: charge_point_error_code
  nq_info :: "string option"
  nq_status :: connector_status
  nq_timestamp :: "instant option"
  nq_vendor_id :: "string option"
  nq_vendor_error_code :: "string option"

record meter_request =
  vq_connector_id :: connector_id
  vq_transaction_id :: "i32 option"
  vq_meter_value :: "meter_value list"

record pending_security_event =
  se_type :: string
  se_timestamp :: instant
  se_tech_info :: "string option"

datatype request =
  Req_Authorize id_tag
| Req_Start start_request
| Req_Stop stop_request
| Req_Status status_request
| Req_Security pending_security_event
| Req_MeterValues meter_request
| Req_Boot
| Req_Heartbeat
| Req_DataTransfer string "string option" "string option"
| Req_Diagnostics diagnostics_status
| Req_Firmware firmware_status
| Req_Log upload_log_status "i32 option"
| Req_SignedFirmware signed_firmware_status "i32 option"
| Req_SignCertificate string

fun action_name :: "request \<Rightarrow> string" where
  "action_name (Req_Authorize _) = ''Authorize''"
| "action_name (Req_Start _) = ''StartTransaction''"
| "action_name (Req_Stop _) = ''StopTransaction''"
| "action_name (Req_Status _) = ''StatusNotification''"
| "action_name (Req_Security _) = ''SecurityEventNotification''"
| "action_name (Req_MeterValues _) = ''MeterValues''"
| "action_name Req_Boot = ''BootNotification''"
| "action_name Req_Heartbeat = ''Heartbeat''"
| "action_name (Req_DataTransfer _ _ _) = ''DataTransfer''"
| "action_name (Req_Diagnostics _) = ''DiagnosticsStatusNotification''"
| "action_name (Req_Firmware _) = ''FirmwareStatusNotification''"
| "action_name (Req_Log _ _) = ''LogStatusNotification''"
| "action_name (Req_SignedFirmware _ _) = ''SignedFirmwareStatusNotification''"
| "action_name (Req_SignCertificate _) = ''SignCertificate''"

datatype data_transfer_status = DT_Accepted | DT_Rejected | DT_UnknownMessageId | DT_UnknownVendorId
datatype generic_status = Gen_Accepted | Gen_Rejected

datatype response =
  Res_Authorize id_tag_info
| Res_Start id_tag_info i32
| Res_Stop "id_tag_info option"
| Res_Status
| Res_Security
| Res_MeterValues
| Res_Boot registration_status instant i32
| Res_Heartbeat instant
| Res_DataTransfer data_transfer_status "string option"
| Res_Diagnostics
| Res_Firmware
| Res_Log
| Res_SignedFirmware
| Res_SignCertificate generic_status
| Res_Raw json

text \<open>The action whose CALLRESULT a response is; a raw one belongs to no typed CALL.\<close>

fun response_action :: "response \<Rightarrow> string option" where
  "response_action (Res_Authorize _) = Some ''Authorize''"
| "response_action (Res_Start _ _) = Some ''StartTransaction''"
| "response_action (Res_Stop _) = Some ''StopTransaction''"
| "response_action Res_Status = Some ''StatusNotification''"
| "response_action Res_Security = Some ''SecurityEventNotification''"
| "response_action Res_MeterValues = Some ''MeterValues''"
| "response_action (Res_Boot _ _ _) = Some ''BootNotification''"
| "response_action (Res_Heartbeat _) = Some ''Heartbeat''"
| "response_action (Res_DataTransfer _ _) = Some ''DataTransfer''"
| "response_action Res_Diagnostics = Some ''DiagnosticsStatusNotification''"
| "response_action Res_Firmware = Some ''FirmwareStatusNotification''"
| "response_action Res_Log = Some ''LogStatusNotification''"
| "response_action Res_SignedFirmware = Some ''SignedFirmwareStatusNotification''"
| "response_action (Res_SignCertificate _) = Some ''SignCertificate''"
| "response_action (Res_Raw _) = None"

datatype call_error =
  NotConnected
| NotRegistered string "registration_status option"
| Closed "nat option"
| Timeout
| Rpc error_code string
| Schema
| Decode

datatype outcome =
  Out_Done
| ConnectorAdded connector_id
| Authorized authorization_decision
| TransactionStarted connector_id tx_id
| TransactionRejected authorization_status
| Out_Response response

datatype station_error =
  Err_NotConnected
| Err_UnknownConnector connector_id
| InvalidState "connector_id option" string
| InvalidArgument string
| Err_Call call_error

fun call_failure :: "call_error \<Rightarrow> station_error" where
  "call_failure NotConnected = Err_NotConnected"
| "call_failure e = Err_Call e"

definition invalid :: "connector_id \<Rightarrow> string \<Rightarrow> station_error" where
  "invalid c reason = InvalidState (Some c) (''connector '' @ show_nat c @ '': '' @ reason)"

datatype availability_status = Avail_Accepted | Avail_Rejected | Avail_Scheduled
datatype unlock_status = Unlocked | UnlockFailed | Unlock_NotSupported
datatype start_stop_status = RSS_Accepted | RSS_Rejected
datatype trigger_status = Trig_Accepted | Trig_Rejected | Trig_NotImplemented
datatype log_status = LogReq_Accepted | LogReq_Rejected | LogReq_AcceptedCanceled
datatype update_firmware_status =
  UF_Accepted | UF_Rejected | UF_AcceptedCanceled | UF_InvalidCertificate | UF_RevokedCertificate

datatype confirmation =
  ChangeAvailability_conf availability_status
| UnlockConnector_conf unlock_status
| ReserveNow_conf reservation_status
| CancelReservation_conf bool
| RemoteStart_conf start_stop_status
| RemoteStop_conf start_stop_status
| Reset_conf
| SetChargingProfile_conf charging_profile_status
| ClearChargingProfile_conf clear_profile_status
| GetCompositeSchedule_conf "composite option"
| ChangeConfiguration_conf configuration_status
| GetConfiguration_conf get_configuration_response
| ClearCache_conf
| DataTransfer_conf data_transfer_status "string option"
| GetLocalListVersion_conf i32
| SendLocalList_conf update_status
| TriggerMessage_conf trigger_status
| ExtendedTriggerMessage_conf trigger_status
| GetDiagnostics_conf string
| UpdateFirmware_conf
| GetLog_conf log_status "string option"
| SignedUpdateFirmware_conf update_firmware_status
| InstallCertificate_conf install_status
| DeleteCertificate_conf delete_status
| GetInstalledCertificateIds_conf installed_status "certificate_hash_data list option"
| CertificateSigned_conf generic_status

subsection \<open>Continuations, timers, effects\<close>

type_synonym reply = nat
type_synonym responder = nat

text \<open>\<open>Done\<close>: what follows a start or a stop.  \<open>After_Authorize\<close>: what follows an authorization.\<close>

datatype completion =
  Reply_To reply
| Ignore
| Install_Profile connector_id "charging_profile option"

datatype after_authorize =
  Auth_Reply reply
| Auth_RemoteStart responder connector_id id_tag "charging_profile option"

datatype cont =
  K_Authorize id_tag after_authorize
| K_Start connector_id tx_id pending_start completion
| K_StopFor
| K_Stop connector_id tx_id id_tag instant u64 stop_info completion
| K_SyncStart u64
| K_SyncStop u64
| K_Status connector_id status_key "reply option"
| K_Security pending_security_event
| K_Sample connector_id "reply option"
| K_Boot nat "reply option"
| K_Heartbeat "reply option"
| K_Ignore
| K_User string reply
| K_Raw reply
| K_Sign u64 string "string option" "reply option"

datatype timer_key =
  T_Heartbeat | T_Reconnect | T_BootRetry | T_StatusDebounce connector_id | T_PersistFlush
| T_MeterPeriodic connector_id | T_MeterAligned | T_ReservationExpiry connector_id
| T_Diagnostics | T_Firmware | T_LogUpload | T_SignedFirmware | T_HardReset | T_SyncRetry
| T_CertSigning

text \<open>What opening a connection is given (\<open>apply_security_transport\<close>): URL, client identity, trust anchors.\<close>

record transport =
  tp_url :: string
  tp_identity :: "(string \<times> string) option"
  tp_extra_roots :: "string list"
  tp_wildcards :: bool

datatype origin = From_Station | Triggered | Origin_Raw

datatype effect =
  Sent nat request
| Answer reply "station_error + outcome"
| Respond responder confirmation
| Dropped offline_tx
| Save bool
| Refuse responder error_code string
| Rule_Answer responder json
| Abandon responder
| Hold_Back responder u64
| Hang_Up
| Sent_Raw nat string json bool
| Open_Link nat transport

record pending_call =
  pc_action :: string
  pc_attempts :: u32
  pc_interval :: duration
  pc_cont :: cont

subsection \<open>The actor's state\<close>

record meter_runtime =
  mt_last :: nat
  mt_last_utc :: instant
  mt_charging :: bool
  mt_pending_wh :: f64
  mt_carry_wh :: f64
  mt_sample_base_wh :: f64

record link =
  lk_conn :: bool
  lk_generation :: nat
  lk_connecting :: bool
  lk_wanted :: bool
  lk_attempts :: u32
  lk_boot_in_flight :: bool

datatype connection_state = Disconnected | Connecting | Connected | Backoff u32

record reconnect_config =
  rc_enabled :: bool
  rc_initial_delay_ms :: u64
  rc_max_delay_ms :: u64
  rc_max_attempts :: u32

record persistence =
  pe_store :: bool
  pe_dirty :: bool
  pe_in_flight :: bool
  pe_queued :: bool
  pe_secrets_dirty :: bool

text \<open>The simulated uploads and updates: what is still to be reported, and what was reported last.\<close>

record maintenance =
  mn_diagnostics_plan :: "maintenance_step plan_of"
  mn_firmware_plan :: "maintenance_step plan_of"
  mn_log_upload :: "upload_log_status plan_of"
  mn_log_request_id :: "i32 option"
  mn_signed_fw :: "signed_firmware_status plan_of"
  mn_signed_fw_request_id :: "i32 option"
  mn_last_firmware_signed :: bool
  mn_diagnostics_status :: diagnostics_status
  mn_firmware_status :: firmware_status
  mn_log_status :: upload_log_status
  mn_signed_firmware_status :: signed_firmware_status
  mn_shown_log_request :: "i32 option"
  mn_shown_signed_request :: "i32 option"
  mn_diagnostics_outcome :: diagnostics_outcome
  mn_firmware_outcome :: firmware_outcome

text \<open>Certificates and keys (\<open>station/secure.rs\<close>, \<open>StationSecrets\<close> of \<open>store.rs\<close>).\<close>

record secrets =
  sx_authorization_key :: "string option"
  sx_charge_point_key_pem :: "string option"
  sx_pending_key_pem :: "string option"
  sx_previous_charge_point_key_pem :: "string option"

datatype stored_identity = Identity_None | Identity_Current | Identity_Previous

record sign_series =
  sg_id :: u64
  sg_csr :: string
  sg_key :: string
  sg_repeats :: u32

record security_state =
  sy_certs :: cert_store
  sy_secrets :: secrets
  sy_use_fallback_root :: bool
  sy_use_previous_cert :: bool
  sy_failure_series :: "string list"
  sy_connect_identity :: stored_identity
  sy_sign_series :: "sign_series option"
  sy_next_sign_series :: u64

text \<open>
  What the actor takes from other crates.  \<open>chrono\<close> and \<open>std::time\<close>: adding milliseconds, or a
  \<open>Duration\<close>, to an instant (\<open>None\<close> out of range), the seconds of a duration as a double, and the stamp of
  a file name.  \<open>url\<close>: scheme and host of a text, whether it carries a password (\<open>None\<close>: it does not
  parse), and the URL with user name and password set.  \<open>rcgen\<close>: a fresh key pair with its certificate
  request, drawn at an instant for a numbered request (PEM texts of both, or why there is none).
  \<open>tl_cert\<close>: see theory \<open>Certificates\<close>.
\<close>

record time_lib =
  tl_add_ms :: "instant \<Rightarrow> i64 \<Rightarrow> instant option"
  tl_add_std :: "instant \<Rightarrow> duration \<Rightarrow> instant option"
  tl_secs_f64 :: "int \<Rightarrow> f64"
  tl_stamp :: "instant \<Rightarrow> string"
  tl_url :: "string \<Rightarrow> (string \<times> bool) option"
  tl_url_password :: "string \<Rightarrow> bool option"
  tl_url_login :: "string \<Rightarrow> string \<Rightarrow> string \<Rightarrow> string"
  tl_generate_csr :: "instant \<Rightarrow> nat \<Rightarrow> string \<Rightarrow> string \<Rightarrow> string + (string \<times> string)"
  tl_cert :: cert_lib

record station =
  s_lib :: time_lib
  s_config :: station_config
  s_electrical :: electrical_config
  s_reconnect :: reconnect_config
  s_now :: instant
  s_mono :: nat
  s_connection :: connection_state
  s_registration :: "registration_status option"
  s_heartbeat_interval_secs :: u32
  s_last_heartbeat_at :: "instant option"
  s_availability :: availability_type
  s_charge_point :: connector
  s_connectors :: "connector list"
  s_registry :: registry
  s_local_list :: local_auth_list
  s_auth_cache :: auth_cache
  s_profiles :: profile_store
  s_queue :: offline_queue
  s_next_local :: u64
  s_invalid_limits :: "connector_id \<rightharpoonup> u64"
  s_meters :: "connector_id \<rightharpoonup> meter_runtime"
  s_sync_outstanding :: nat
  s_sync_keys :: "u64 list"
  s_sync_boot :: bool
  s_sync_failed :: bool
  s_sync_failures :: "u64 \<rightharpoonup> u32"
  s_reset_retries :: "u32 option"
  s_hard_reset_deadline :: "nat option"
  s_security_events :: "pending_security_event list"
  s_startup_event_pending :: bool
  s_timers :: "timer_key \<rightharpoonup> duration"
  s_link :: link
  s_calls :: "(nat \<times> pending_call) list"
  s_next_call_token :: nat
  s_sample_calls :: "nat list"
  s_sample_overflow_warned :: bool
  s_trackers :: "(connector_id, tracker) btree"
  s_persistence :: persistence
  s_maintenance :: maintenance
  s_security :: security_state
  s_response_rules :: "response_rule list"
  s_out :: "effect list"

definition emit :: "effect \<Rightarrow> station \<Rightarrow> station" where
  "emit e s = s\<lparr>s_out := s_out s @ [e]\<rparr>"

definition answer :: "reply \<Rightarrow> station_error + outcome \<Rightarrow> station \<Rightarrow> station" where
  "answer r res = emit (Answer r res)"

definition respond :: "responder \<Rightarrow> confirmation \<Rightarrow> station \<Rightarrow> station" where
  "respond r c = emit (Respond r c)"

definition respond_error :: "responder \<Rightarrow> error_code \<Rightarrow> string \<Rightarrow> station \<Rightarrow> station" where
  "respond_error r code text = emit (Refuse r code text)"

definition upd_maintenance :: "(maintenance \<Rightarrow> maintenance) \<Rightarrow> station \<Rightarrow> station" where
  "upd_maintenance f s = s\<lparr>s_maintenance := f (s_maintenance s)\<rparr>"

definition upd_security :: "(security_state \<Rightarrow> security_state) \<Rightarrow> station \<Rightarrow> station" where
  "upd_security f s = s\<lparr>s_security := f (s_security s)\<rparr>"

subsection \<open>Connector lookup\<close>

definition find_connector :: "station \<Rightarrow> connector_id \<Rightarrow> connector option" where
  "find_connector s i =
     (if is_station i then Some (s_charge_point s) else find (\<lambda>c. c_id c = i) (s_connectors s))"

text \<open>\<open>find_connector_mut\<close> followed by a change of what it found.\<close>

definition update_connector :: "connector_id \<Rightarrow> (connector \<Rightarrow> connector) \<Rightarrow> station \<Rightarrow> station" where
  "update_connector i f s =
     (if is_station i then s\<lparr>s_charge_point := f (s_charge_point s)\<rparr>
      else s\<lparr>s_connectors := update_first (\<lambda>c. c_id c = i) f (s_connectors s)\<rparr>)"

definition physical_connector :: "station \<Rightarrow> connector_id \<Rightarrow> station_error + connector" where
  "physical_connector s i =
     (if is_station i then Inl (Err_UnknownConnector i)
      else case find_connector s i of
             None \<Rightarrow> Inl (Err_UnknownConnector i) | Some c \<Rightarrow> Inr c)"

definition can_talk :: "station \<Rightarrow> bool" where
  "can_talk s = (lk_conn (s_link s) \<and> s_registration s = Some Reg_Accepted)"

subsection \<open>Timers\<close>

definition MAX_TOTAL_DELAY :: duration where
  "MAX_TOTAL_DELAY = 200 * 365 * 24 * 60 * 60 * 1000000000"

definition timer_set :: "timer_key \<Rightarrow> duration \<Rightarrow> station \<Rightarrow> station" where
  "timer_set k d s = s\<lparr>s_timers := (s_timers s)(k \<mapsto> min d MAX_TOTAL_DELAY)\<rparr>"

definition timer_set_if_idle :: "timer_key \<Rightarrow> duration \<Rightarrow> station \<Rightarrow> station" where
  "timer_set_if_idle k d s = (if s_timers s k \<noteq> None then s else timer_set k d s)"

definition timer_cancel :: "timer_key \<Rightarrow> station \<Rightarrow> station" where
  "timer_cancel k s = s\<lparr>s_timers := (s_timers s)(k := None)\<rparr>"

definition timer_cancel_where :: "(timer_key \<Rightarrow> bool) \<Rightarrow> station \<Rightarrow> station" where
  "timer_cancel_where P s = s\<lparr>s_timers := (\<lambda>k. if P k then None else s_timers s k)\<rparr>"

subsection \<open>Power and energy\<close>

fun transaction_context :: "transaction_state \<Rightarrow> tx_id option \<times> instant option" where
  "transaction_context (Active a) = (Some (at_tx_id a), Some (at_started_at a))"
| "transaction_context (PendingStart p) = (Some (ps_tx_id p), Some (ps_started_at p))"
| "transaction_context _ = (None, None)"

definition s_power_model :: "station \<Rightarrow> power_model" where
  "s_power_model s = power_model_from_config (s_electrical s)"

definition charging_connectors :: "station \<Rightarrow> u32" where
  "charging_connectors s =
     min (length (filter (\<lambda>c. c_status c = Charging) (s_connectors s))) u32_max"

definition power_request_of :: "station \<Rightarrow> connector_id \<Rightarrow> power_request" where
  "power_request_of s i =
     (let (tx, started) = (case find_connector s i of
            None \<Rightarrow> (None, None) | Some c \<Rightarrow> transaction_context (c_transaction c))
      in \<lparr>pq_connector = i, pq_active_tx = tx, pq_tx_started_at = started,
          pq_model = s_power_model s, pq_charging_connectors = charging_connectors s\<rparr>)"

definition settle_one :: "station \<Rightarrow> connector_id \<times> bool \<Rightarrow> station" where
  "settle_one s ic =
     (case ic of (i, charging) \<Rightarrow>
        let register = (case find_connector s i of None \<Rightarrow> f_zero | Some c \<Rightarrow> f64_of_u64 (c_meter_wh c))
        in case s_meters s i of
             None \<Rightarrow> s\<lparr>s_meters := (s_meters s)(i \<mapsto>
               \<lparr>mt_last = s_mono s, mt_last_utc = s_now s, mt_charging = charging,
                mt_pending_wh = f_zero, mt_carry_wh = f_zero, mt_sample_base_wh = register\<rparr>)\<rparr>
           | Some r \<Rightarrow>
               let elapsed = s_mono s - mt_last r;
                   from = mt_last_utc r;
                   to = unwrap_or (tl_add_std (s_lib s) from elapsed) from;
                   pending = (if mt_charging r \<and> elapsed \<noteq> 0
                     then f_add (mt_pending_wh r)
                            (energy_wh (tl_add_ms (s_lib s)) (tl_secs_f64 (s_lib s)) (s_profiles s)
                               (power_request_of s i) from to)
                     else mt_pending_wh r);
                   base = (if charging \<and> \<not> mt_charging r
                     then f_add (f_add register (mt_carry_wh r)) pending else mt_sample_base_wh r)
               in s\<lparr>s_meters := (s_meters s)(i \<mapsto>
                    r\<lparr>mt_last := s_mono s, mt_last_utc := s_now s, mt_charging := charging,
                      mt_pending_wh := pending, mt_sample_base_wh := base\<rparr>)\<rparr>)"

definition settle_meters :: "station \<Rightarrow> station" where
  "settle_meters s =
     foldl settle_one s (map (\<lambda>c. (c_id c, c_status c = Charging)) (s_connectors s))"

text \<open>The loop over the connectors, with the runtimes and whether a register changed.\<close>

fun flush_list ::
  "(connector_id \<rightharpoonup> meter_runtime) \<Rightarrow> connector list
     \<Rightarrow> (connector_id \<rightharpoonup> meter_runtime) \<times> connector list \<times> bool" where
  "flush_list m [] = (m, [], False)"
| "flush_list m (c # cs) =
     (case m (c_id c) of
        None \<Rightarrow> (case flush_list m cs of (m', cs', ch) \<Rightarrow> (m', c # cs', ch))
      | Some r \<Rightarrow>
          if f_le (mt_pending_wh r) f_zero
          then (case flush_list m cs of (m', cs', ch) \<Rightarrow> (m', c # cs', ch))
          else
            let total = f_add (mt_carry_wh r) (mt_pending_wh r);
                whole = f_floor total;
                r' = r\<lparr>mt_pending_wh := f_zero, mt_carry_wh := f_sub total whole\<rparr>;
                more = f_le (f64_from 1) whole;
                c' = (if more then c\<lparr>c_meter_wh := min (c_meter_wh c + as_u64 whole) u64_max\<rparr> else c)
            in case flush_list (m(c_id c \<mapsto> r')) cs of (m', cs', ch) \<Rightarrow> (m', c' # cs', more \<or> ch))"

definition FLUSH_DELAY :: duration where
  "FLUSH_DELAY = 200 * 1000000"

definition mark_dirty :: "station \<Rightarrow> station" where
  "mark_dirty s =
     (if \<not> pe_store (s_persistence s) then s
      else timer_set_if_idle T_PersistFlush FLUSH_DELAY
             (s\<lparr>s_persistence := (s_persistence s)\<lparr>pe_dirty := True\<rparr>\<rparr>))"

definition flush_meters :: "station \<Rightarrow> station" where
  "flush_meters s =
     (let s1 = settle_meters s in
      case flush_list (s_meters s1) (s_connectors s1) of
        (m, cs, changed) \<Rightarrow>
          let s2 = s1\<lparr>s_meters := m, s_connectors := cs\<rparr>
          in if changed then mark_dirty s2 else s2)"

definition reading_step ::
  "station \<Rightarrow> bool \<Rightarrow> meter_reading \<times> (connector_id \<rightharpoonup> meter_runtime) \<Rightarrow> connector_id
     \<Rightarrow> meter_reading \<times> (connector_id \<rightharpoonup> meter_runtime)" where
  "reading_step s advance_interval acc i =
     (case find_connector s i of
        None \<Rightarrow> acc
      | Some c \<Rightarrow>
          let (r, m) = acc;
              register = f64_of_u64 (c_meter_wh c);
              charging = (c_status c = Charging);
              request = power_request_of s i;
              offered = effective_w (s_power_model s) (limit_w_at (s_profiles s) request (s_now s));
              base = (case m i of None \<Rightarrow> register | Some x \<Rightarrow> mt_sample_base_wh x);
              r' = \<lparr>mr_energy_wh = f_add (mr_energy_wh r) register,
                    mr_charging = mr_charging r \<or> charging,
                    mr_power_w = (if charging then f_add (mr_power_w r) offered else mr_power_w r),
                    mr_offered_w = f_add (mr_offered_w r) offered,
                    mr_interval_wh = f_add (mr_interval_wh r) (f_max (f_sub register base) f_zero)\<rparr>;
              m' = (case m i of
                      Some x \<Rightarrow> if advance_interval then m(i \<mapsto> x\<lparr>mt_sample_base_wh := register\<rparr>) else m
                    | None \<Rightarrow> m)
          in (r', m'))"

definition station_meter_reading :: "connector_id \<Rightarrow> bool \<Rightarrow> station \<Rightarrow> station \<times> meter_reading" where
  "station_meter_reading i advance_interval s =
     (let s1 = flush_meters s;
          ids = (if is_station i then map c_id (s_connectors s1) else [i]);
          (r, m) = foldl (reading_step s1 advance_interval)
                     (\<lparr>mr_energy_wh = f_zero, mr_charging = False, mr_power_w = f_zero,
                       mr_offered_w = f_zero, mr_interval_wh = f_zero\<rparr>, s_meters s1) ids
      in (s1\<lparr>s_meters := m\<rparr>, r))"

subsection \<open>Persistence\<close>

definition flush_persistence :: "station \<Rightarrow> station" where
  "flush_persistence s =
     (let s1 = flush_meters s; p = s_persistence s1 in
      if \<not> pe_store p \<or> \<not> pe_dirty p then s1
      else if pe_in_flight p then s1\<lparr>s_persistence := p\<lparr>pe_queued := True\<rparr>\<rparr>
      else emit (Save (pe_secrets_dirty p))
             (s1\<lparr>s_persistence := p\<lparr>pe_dirty := False, pe_secrets_dirty := False, pe_in_flight := True\<rparr>\<rparr>))"

definition mark_secrets_dirty :: "station \<Rightarrow> station" where
  "mark_secrets_dirty s = mark_dirty (s\<lparr>s_persistence := (s_persistence s)\<lparr>pe_secrets_dirty := True\<rparr>\<rparr>)"

definition flush_now :: "station \<Rightarrow> station" where
  "flush_now s = flush_persistence (timer_cancel T_PersistFlush (mark_dirty s))"

definition on_saved :: "bool \<Rightarrow> station \<Rightarrow> station" where
  "on_saved ok s =
     (let p = (s_persistence s)\<lparr>pe_in_flight := False\<rparr>;
          p' = (if ok then p else p\<lparr>pe_dirty := True, pe_secrets_dirty := True\<rparr>)
      in if pe_queued p' then flush_persistence (s\<lparr>s_persistence := p'\<lparr>pe_queued := False\<rparr>\<rparr>)
         else s\<lparr>s_persistence := p'\<rparr>)"

subsection \<open>Outbound CALLs\<close>

definition is_transaction_message :: "string \<Rightarrow> bool" where
  "is_transaction_message action =
     (action \<in> {''StartTransaction'', ''StopTransaction'', ''MeterValues''})"

fun retryable :: "call_error \<Rightarrow> bool" where
  "retryable NotConnected = False"
| "retryable (Closed _) = False"
| "retryable (NotRegistered _ _) = False"
| "retryable _ = True"

definition may_send :: "station \<Rightarrow> string \<Rightarrow> origin \<Rightarrow> call_error option" where
  "may_send s action orig =
     (if orig = Origin_Raw \<or> action = ''BootNotification''
        \<or> s_registration s = Some Reg_Accepted
        \<or> (orig = Triggered \<and> s_registration s = Some Reg_Pending)
      then None else Some (NotRegistered action (s_registration s)))"

text \<open>The gate of \<open>call_raw\<close>: why a message cannot be sent, if it cannot.\<close>

definition call_refused :: "station \<Rightarrow> string \<Rightarrow> origin \<Rightarrow> call_error option" where
  "call_refused s action orig =
     (if \<not> lk_conn (s_link s) then Some NotConnected else may_send s action orig)"

definition submit :: "origin \<Rightarrow> request \<Rightarrow> cont \<Rightarrow> station \<Rightarrow> station" where
  "submit orig rq k s =
     (let retried = (orig \<noteq> Origin_Raw \<and> is_transaction_message (action_name rq));
          pc = \<lparr>pc_action = action_name rq,
                pc_attempts = (if retried then transaction_message_attempts (s_registry s) else 1),
                pc_interval = (if retried then transaction_message_retry_interval (s_registry s) else 0),
                pc_cont = k\<rparr>
      in emit (Sent (s_next_call_token s) rq)
           (s\<lparr>s_next_call_token := s_next_call_token s + 1,
              s_calls := s_calls s @ [(s_next_call_token s, pc)]\<rparr>))"

definition call ::
  "(call_error \<Rightarrow> station \<Rightarrow> station) \<Rightarrow> origin \<Rightarrow> request \<Rightarrow> cont \<Rightarrow> station \<Rightarrow> station" where
  "call on_error orig rq k s =
     (case call_refused s (action_name rq) orig of
        Some e \<Rightarrow> on_error e s
      | None \<Rightarrow> submit orig rq k s)"

text \<open>The CALL of \<open>SendRaw\<close>: only the connection is needed, and it is never retried.\<close>

definition submit_raw :: "string \<Rightarrow> json \<Rightarrow> bool \<Rightarrow> cont \<Rightarrow> station \<Rightarrow> station" where
  "submit_raw action payload validate k s =
     emit (Sent_Raw (s_next_call_token s) action payload validate)
       (s\<lparr>s_next_call_token := s_next_call_token s + 1,
          s_calls := s_calls s @
            [(s_next_call_token s, \<lparr>pc_action = action, pc_attempts = 1, pc_interval = 0, pc_cont = k\<rparr>)]\<rparr>)"

text \<open>
  The spawned task: the attempts it makes against the outcomes the connection would give, and the
  result it reports.  The outcomes are consumed one per attempt.
\<close>

fun call_task :: "u32 \<Rightarrow> u32 \<Rightarrow> (call_error + response) list \<Rightarrow> (nat \<times> (call_error + response)) option" where
  "call_task attempt attempts [] = None"
| "call_task attempt attempts (outcome # rest) =
     (case outcome of
        Inl e \<Rightarrow> if attempt < attempts \<and> retryable e then call_task (attempt + 1) attempts rest
                 else Some (attempt, Inl e)
      | Inr r \<Rightarrow> Some (attempt, Inr r))"

end
