(* ===== verification/Csms_State.thy ===== *)
theory Csms_State
  imports Station Ocpp_Frame
begin

text \<open>
  What the central system knows about one station (\<open>kirby-csms-core/src/state.rs\<close>): the fold of the
  CALLs it answered into a \<open>StationState\<close>, with the bounds that keep a record small whatever a station
  sends.  The typed messages are decoded by serde, which enters as the record \<open>serde\<close> of decoders, one
  per message; \<open>now\<close> is the clock of the central system.
\<close>

subsection \<open>Numbers in messages\<close>

text \<open>\<open>str::parse::<f64>\<close>: sign, \<open>inf\<close>, \<open>infinity\<close> or \<open>nan\<close> in any case, or a decimal with exponent.\<close>

fun strip_sign :: "string \<Rightarrow> bool \<times> string" where
  "strip_sign (c # s) = (if c = CHR ''-'' then (True, s) else if c = CHR ''+'' then (False, s) else (False, c # s))"
| "strip_sign [] = (False, [])"

definition exponent_of :: "string \<Rightarrow> int option" where
  "exponent_of s =
     (case s of
        [] \<Rightarrow> Some 0
      | c # r \<Rightarrow>
          if c = CHR ''e'' \<or> c = CHR ''E''
          then (case strip_sign r of (n, d) \<Rightarrow>
                  map_option (\<lambda>k. if n then - int k else int k) (parse_digits d))
          else None)"

definition decimal_of :: "bool \<Rightarrow> string \<Rightarrow> f64 option" where
  "decimal_of neg s =
     (let whole = takeWhile is_ascii_digit s;
          rest = dropWhile is_ascii_digit s;
          (frac, tail) =
            (case rest of
               c # r \<Rightarrow> if c = CHR ''.'' then (takeWhile is_ascii_digit r, dropWhile is_ascii_digit r) else ([], rest)
             | [] \<Rightarrow> ([], []))
      in if whole = [] \<and> frac = [] then None
         else map_option (\<lambda>e. let q = of_nat (digits_val (whole @ frac)); k = e - int (length frac)
                              in rnd neg (if 0 \<le> k then q * 10 ^ nat k else q / 10 ^ nat (- k)))
                (exponent_of tail))"

definition parse_f64 :: "string \<Rightarrow> f64 option" where
  "parse_f64 s =
     (case strip_sign s of (neg, body) \<Rightarrow>
        if lower body = ''inf'' \<or> lower body = ''infinity'' then Some (Inf neg)
        else if lower body = ''nan'' then Some NaN
        else decimal_of neg body)"

subsection \<open>Messages\<close>

record boot_request =
  bq_vendor :: string
  bq_model :: string
  bq_charge_point_serial_number :: "string option"
  bq_charge_box_serial_number :: "string option"
  bq_firmware_version :: "string option"
  bq_iccid :: "string option"
  bq_imsi :: "string option"
  bq_meter_type :: "string option"
  bq_meter_serial_number :: "string option"

record boot_response =
  br_status :: registration_status
  br_current_time :: instant
  br_interval :: i32

record start_response =
  tr_id_tag_info :: id_tag_info
  tr_transaction_id :: i32

text \<open>The decoders serde derives; \<open>None\<close> is a payload that does not deserialise.\<close>

record serde =
  de_boot :: "json \<Rightarrow> boot_request option"
  de_boot_response :: "json \<Rightarrow> boot_response option"
  de_status :: "json \<Rightarrow> status_request option"
  de_start :: "json \<Rightarrow> start_request option"
  de_start_response :: "json \<Rightarrow> start_response option"
  de_stop :: "json \<Rightarrow> stop_request option"
  de_meter :: "json \<Rightarrow> meter_request option"
  de_diagnostics :: "json \<Rightarrow> diagnostics_status option"
  de_firmware :: "json \<Rightarrow> firmware_status option"
  de_security :: "json \<Rightarrow> pending_security_event option"
  de_log :: "json \<Rightarrow> (upload_log_status \<times> i32 option) option"
  de_signed_firmware :: "json \<Rightarrow> (signed_firmware_status \<times> i32 option) option"
  de_sign_certificate :: "json \<Rightarrow> string option"
  de_installed :: "json \<Rightarrow> certificate_use option"
  de_installed_response :: "json \<Rightarrow> (installed_status \<times> certificate_hash_data list option) option"

subsection \<open>The state\<close>

definition MAX_CONNECTORS :: nat where "MAX_CONNECTORS = 1024"
definition MAX_ACTIVE_TRANSACTIONS :: nat where "MAX_ACTIVE_TRANSACTIONS = 256"
definition MAX_SECURITY_EVENTS :: nat where "MAX_SECURITY_EVENTS = 100"
definition MAX_INSTALLED_CERTIFICATES :: nat where "MAX_INSTALLED_CERTIFICATES = 64"
definition MAX_HASH_LEN :: nat where "MAX_HASH_LEN = 128"
definition MAX_SERIAL_LEN :: nat where "MAX_SERIAL_LEN = 40"
definition MAX_SECURITY_EVENT_TYPE_LEN :: nat where "MAX_SECURITY_EVENT_TYPE_LEN = 50"
definition MAX_TECH_INFO_LEN :: nat where "MAX_TECH_INFO_LEN = 255"

lemmas csms_bounds =
  MAX_CONNECTORS_def MAX_ACTIVE_TRANSACTIONS_def MAX_SECURITY_EVENTS_def MAX_INSTALLED_CERTIFICATES_def
  MAX_HASH_LEN_def MAX_SERIAL_LEN_def MAX_CERTIFICATE_LEN_def MAX_SECURITY_EVENT_TYPE_LEN_def
  MAX_TECH_INFO_LEN_def

record installed_certificates =
  ic_status :: installed_status
  ic_certificates :: "certificate_hash_data list"
  ic_total :: nat
  ic_at :: instant

record security_event_record =
  sr_event_type :: string
  sr_timestamp :: instant
  sr_tech_info :: "string option"
  sr_received_at :: instant

record log_report =
  lr_status :: upload_log_status
  lr_request_id :: "i32 option"
  lr_at :: instant

record signed_firmware_report =
  fw_status :: signed_firmware_status
  fw_request_id :: "i32 option"
  fw_at :: instant

record certificate_request =
  cr_csr :: string
  cr_received_at :: instant

record 'a reported =
  rp_status :: 'a
  rp_at :: instant

record boot_info =
  bi_request :: boot_request
  bi_booted_at :: instant
  bi_registration :: "registration_status option"
  bi_interval :: "i32 option"

record connector_state =
  cs_status :: connector_status
  cs_error_code :: charge_point_error_code
  cs_info :: "string option"
  cs_vendor_id :: "string option"
  cs_vendor_error_code :: "string option"
  cs_timestamp :: "instant option"
  cs_received_at :: instant

datatype transaction_status = Tx_Active | Tx_Stopped

record transaction_record =
  tx_id_no :: i32
  tx_connector :: connector_id
  tx_id_tag :: id_tag
  tx_id_tag_status :: authorization_status
  tx_meter_start :: i64
  tx_started_at :: instant
  tx_status :: transaction_status
  tx_meter_stop :: "i64 option"
  tx_stopped_at :: "instant option"
  tx_stop_reason :: "stop_reason option"
  tx_energy_wh :: "f64 option"
  tx_power_w :: "f64 option"
  tx_last_meter_at :: "instant option"

record station_state =
  ss_boot :: "boot_info option"
  ss_connectors :: "(u32, connector_state) btree"
  ss_transactions :: "transaction_record list"
  ss_last_heartbeat_at :: "instant option"
  ss_diagnostics_status :: "diagnostics_status reported option"
  ss_firmware_status :: "firmware_status reported option"
  ss_failed_calls :: u64
  ss_unknown_stops :: u64
  ss_security_events :: "security_event_record list"
  ss_security_events_total :: u64
  ss_log_status :: "log_report option"
  ss_signed_firmware_status :: "signed_firmware_report option"
  ss_certificate_request :: "certificate_request option"
  ss_installed :: "(string, installed_certificates) btree"

definition default_state :: station_state where
  "default_state =
     \<lparr>ss_boot = None, ss_connectors = [], ss_transactions = [], ss_last_heartbeat_at = None,
      ss_diagnostics_status = None, ss_firmware_status = None, ss_failed_calls = 0,
      ss_unknown_stops = 0, ss_security_events = [], ss_security_events_total = 0,
      ss_log_status = None, ss_signed_firmware_status = None, ss_certificate_request = None,
      ss_installed = []\<rparr>"

definition truncate_text :: "string \<Rightarrow> nat \<Rightarrow> string" where
  "truncate_text text mx = (if length text \<le> mx then text else take mx text)"

definition is_active_record :: "transaction_record \<Rightarrow> bool" where
  "is_active_record tx = (tx_status tx = Tx_Active)"

text \<open>\<open>active_mut\<close>: an edit of the most recent active transaction with this id.\<close>

definition names :: "i32 \<Rightarrow> transaction_record \<Rightarrow> bool" where
  "names i tx = (tx_id_no tx = i \<and> is_active_record tx)"

definition active_mut :: "i32 \<Rightarrow> transaction_record list \<Rightarrow> transaction_record option" where
  "active_mut i txs = find (names i) (rev txs)"

definition set_active :: "i32 \<Rightarrow> transaction_record \<Rightarrow> transaction_record list \<Rightarrow> transaction_record list" where
  "set_active i tx txs = rev (update_first (names i) (\<lambda>_. tx) (rev txs))"

definition remove_first :: "('a \<Rightarrow> bool) \<Rightarrow> 'a list \<Rightarrow> 'a list" where
  "remove_first P xs = (case position P xs of None \<Rightarrow> xs | Some k \<Rightarrow> remove_nth k xs)"

definition count_records :: "bool \<Rightarrow> transaction_record list \<Rightarrow> nat" where
  "count_records active txs = length (filter (\<lambda>tx. is_active_record tx = active) txs)"

subsection \<open>Messages of the station\<close>

definition on_boot :: "serde \<Rightarrow> json \<Rightarrow> json \<Rightarrow> instant \<Rightarrow> station_state \<Rightarrow> station_state option" where
  "on_boot sd request response now s =
     map_option (\<lambda>req.
       let res = de_boot_response sd response in
       s\<lparr>ss_boot := Some \<lparr>bi_request = req, bi_booted_at = now,
           bi_registration = map_option br_status res, bi_interval = map_option br_interval res\<rparr>\<rparr>)
       (de_boot sd request)"

definition on_status :: "serde \<Rightarrow> json \<Rightarrow> instant \<Rightarrow> station_state \<Rightarrow> station_state option" where
  "on_status sd request now s =
     Option.bind (de_status sd request) (\<lambda>req.
       let i = nq_connector_id req in
       if \<not> bt_contains (ss_connectors s) i \<and> length (ss_connectors s) \<ge> MAX_CONNECTORS then None
       else Some (s\<lparr>ss_connectors := bt_insert i
              \<lparr>cs_status = nq_status req, cs_error_code = nq_error_code req, cs_info = nq_info req,
               cs_vendor_id = nq_vendor_id req, cs_vendor_error_code = nq_vendor_error_code req,
               cs_timestamp = nq_timestamp req, cs_received_at = now\<rparr> (ss_connectors s)\<rparr>))"

definition new_record :: "start_request \<Rightarrow> start_response \<Rightarrow> transaction_record" where
  "new_record req res =
     \<lparr>tx_id_no = tr_transaction_id res, tx_connector = sq_connector_id req, tx_id_tag = sq_id_tag req,
      tx_id_tag_status = ti_status (tr_id_tag_info res), tx_meter_start = sq_meter_start req,
      tx_started_at = sq_timestamp req, tx_status = Tx_Active, tx_meter_stop = None,
      tx_stopped_at = None, tx_stop_reason = None, tx_energy_wh = None, tx_power_w = None,
      tx_last_meter_at = None\<rparr>"

definition add_transaction :: "transaction_record \<Rightarrow> transaction_record list \<Rightarrow> transaction_record list" where
  "add_transaction tx txs =
     (let txs1 = txs @ [tx] in
      if count_records True txs1 > MAX_ACTIVE_TRANSACTIONS then remove_first is_active_record txs1 else txs1)"

definition on_start :: "serde \<Rightarrow> json \<Rightarrow> json \<Rightarrow> station_state \<Rightarrow> station_state option" where
  "on_start sd request response s =
     Option.bind (de_start sd request) (\<lambda>req.
     Option.bind (de_start_response sd response) (\<lambda>res.
       Some (s\<lparr>ss_transactions := add_transaction (new_record req res) (ss_transactions s)\<rparr>)))"

text \<open>The loop that drops the oldest stopped transactions: \<open>n\<close> of them.\<close>

fun drop_stopped :: "nat \<Rightarrow> transaction_record list \<Rightarrow> transaction_record list" where
  "drop_stopped 0 txs = txs"
| "drop_stopped (Suc n) txs =
     (case position (\<lambda>tx. \<not> is_active_record tx) txs of
        None \<Rightarrow> txs
      | Some k \<Rightarrow> drop_stopped n (remove_nth k txs))"

definition stop_record :: "stop_request \<Rightarrow> transaction_record \<Rightarrow> transaction_record" where
  "stop_record req tx = tx\<lparr>tx_status := Tx_Stopped, tx_meter_stop := Some (tq_meter_stop req),
     tx_stopped_at := Some (tq_timestamp req), tx_stop_reason := tq_reason req\<rparr>"

definition on_stop :: "serde \<Rightarrow> json \<Rightarrow> nat \<Rightarrow> station_state \<Rightarrow> station_state option" where
  "on_stop sd request history_cap s =
     map_option (\<lambda>req.
       case active_mut (tq_transaction_id req) (ss_transactions s) of
         None \<Rightarrow> s\<lparr>ss_unknown_stops := ss_unknown_stops s + 1\<rparr>
       | Some tx \<Rightarrow>
           let txs = set_active (tq_transaction_id req) (stop_record req tx) (ss_transactions s)
           in s\<lparr>ss_transactions := drop_stopped (count_records False txs - history_cap) txs\<rparr>)
       (de_stop sd request)"

definition sample_value :: "sampled_value \<Rightarrow> f64 option" where
  "sample_value v =
     (if sv_format v = Some SignedData then None
      else option_filter is_finite (parse_f64 (trim (sv_value v))))"

text \<open>One sample: the updated record, or \<open>None\<close> when it is skipped.\<close>

definition apply_sample :: "sampled_value \<Rightarrow> transaction_record \<Rightarrow> transaction_record option" where
  "apply_sample v tx =
     (case sample_value v of
        None \<Rightarrow> None
      | Some value \<Rightarrow>
          (case unwrap_or (sv_measurand v) EnergyActiveImportRegister of
             EnergyActiveImportRegister \<Rightarrow>
               (case unwrap_or (sv_unit v) Wh of
                  Wh \<Rightarrow> Some (tx\<lparr>tx_energy_wh := Some value\<rparr>)
                | KWh \<Rightarrow> Some (tx\<lparr>tx_energy_wh := Some (f_mul value (f64_from 1000))\<rparr>)
                | _ \<Rightarrow> None)
           | PowerActiveImport \<Rightarrow>
               (case unwrap_or (sv_unit v) Watt of
                  Watt \<Rightarrow> Some (tx\<lparr>tx_power_w := Some value\<rparr>)
                | KW \<Rightarrow> Some (tx\<lparr>tx_power_w := Some (f_mul value (f64_from 1000))\<rparr>)
                | _ \<Rightarrow> None)
           | _ \<Rightarrow> None))"

definition apply_meter_value :: "transaction_record \<times> bool \<Rightarrow> meter_value \<Rightarrow> transaction_record \<times> bool" where
  "apply_meter_value acc m =
     (case acc of (tx, changed) \<Rightarrow>
        case foldl (\<lambda>(t, touched) v. case apply_sample v t of None \<Rightarrow> (t, touched) | Some t' \<Rightarrow> (t', True))
               (tx, False) (filter (\<lambda>v. sv_phase v = None) (mv_sampled_value m)) of
          (t, touched) \<Rightarrow>
            if touched then (t\<lparr>tx_last_meter_at := Some (mv_timestamp m)\<rparr>, True) else (t, changed))"

definition on_meter :: "serde \<Rightarrow> json \<Rightarrow> station_state \<Rightarrow> station_state option" where
  "on_meter sd request s =
     Option.bind (de_meter sd request) (\<lambda>req.
     Option.bind (vq_transaction_id req) (\<lambda>i.
     Option.bind (active_mut i (ss_transactions s)) (\<lambda>tx.
       case foldl apply_meter_value (tx, False) (vq_meter_value req) of
         (tx', changed) \<Rightarrow>
           if changed then Some (s\<lparr>ss_transactions := set_active i tx' (ss_transactions s)\<rparr>) else None)))"

text \<open>The loop that drops the oldest events.\<close>

definition on_security_event :: "serde \<Rightarrow> json \<Rightarrow> instant \<Rightarrow> station_state \<Rightarrow> station_state option" where
  "on_security_event sd request now s =
     map_option (\<lambda>req.
       let events = ss_security_events s @
             [\<lparr>sr_event_type = truncate_text (se_type req) MAX_SECURITY_EVENT_TYPE_LEN,
               sr_timestamp = se_timestamp req,
               sr_tech_info = map_option (\<lambda>t. truncate_text t MAX_TECH_INFO_LEN) (se_tech_info req),
               sr_received_at = now\<rparr>]
       in s\<lparr>ss_security_events := drop (length events - MAX_SECURITY_EVENTS) events,
            ss_security_events_total := ss_security_events_total s + 1\<rparr>)
       (de_security sd request)"

definition cut_hash :: "certificate_hash_data \<Rightarrow> certificate_hash_data" where
  "cut_hash h = h\<lparr>ch_issuer_name_hash := truncate_text (ch_issuer_name_hash h) MAX_HASH_LEN,
     ch_issuer_key_hash := truncate_text (ch_issuer_key_hash h) MAX_HASH_LEN,
     ch_serial_number := truncate_text (ch_serial_number h) MAX_SERIAL_LEN\<rparr>"

definition on_installed_certificates ::
  "serde \<Rightarrow> json \<Rightarrow> json \<Rightarrow> instant \<Rightarrow> station_state \<Rightarrow> station_state option" where
  "on_installed_certificates sd request response now s =
     Option.bind (de_installed sd request) (\<lambda>req.
     Option.bind (de_installed_response sd response) (\<lambda>(status, hashes).
       let sent = unwrap_or hashes [] in
       Some (s\<lparr>ss_installed := bt_insert (certificate_use_str req)
              \<lparr>ic_status = status,
               ic_certificates = map cut_hash (take MAX_INSTALLED_CERTIFICATES sent),
               ic_total = length sent, ic_at = now\<rparr> (ss_installed s)\<rparr>)))"

text \<open>\<open>apply\<close>: the new state, and whether the change is announced.\<close>

definition changed :: "station_state \<Rightarrow> station_state option \<Rightarrow> station_state \<times> bool" where
  "changed s r = (case r of None \<Rightarrow> (s, False) | Some s' \<Rightarrow> (s', True))"

definition state_apply ::
  "serde \<Rightarrow> string \<Rightarrow> json \<Rightarrow> json \<Rightarrow> instant \<Rightarrow> nat \<Rightarrow> station_state \<Rightarrow> station_state \<times> bool" where
  "state_apply sd action request response now history_cap s =
     (if action = ''BootNotification'' then changed s (on_boot sd request response now s)
      else if action = ''Heartbeat'' then (s\<lparr>ss_last_heartbeat_at := Some now\<rparr>, False)
      else if action = ''StatusNotification'' then changed s (on_status sd request now s)
      else if action = ''StartTransaction'' then changed s (on_start sd request response s)
      else if action = ''StopTransaction'' then changed s (on_stop sd request history_cap s)
      else if action = ''MeterValues'' then changed s (on_meter sd request s)
      else if action = ''DiagnosticsStatusNotification''
      then changed s (map_option (\<lambda>st. s\<lparr>ss_diagnostics_status := Some \<lparr>rp_status = st, rp_at = now\<rparr>\<rparr>)
                        (de_diagnostics sd request))
      else if action = ''FirmwareStatusNotification''
      then changed s (map_option (\<lambda>st. s\<lparr>ss_firmware_status := Some \<lparr>rp_status = st, rp_at = now\<rparr>\<rparr>)
                        (de_firmware sd request))
      else if action = ''SecurityEventNotification'' then changed s (on_security_event sd request now s)
      else if action = ''LogStatusNotification''
      then changed s (map_option (\<lambda>(st, i). s\<lparr>ss_log_status :=
                        Some \<lparr>lr_status = st, lr_request_id = i, lr_at = now\<rparr>\<rparr>) (de_log sd request))
      else if action = ''SignedFirmwareStatusNotification''
      then changed s (map_option (\<lambda>(st, i). s\<lparr>ss_signed_firmware_status :=
                        Some \<lparr>fw_status = st, fw_request_id = i, fw_at = now\<rparr>\<rparr>)
                        (de_signed_firmware sd request))
      else if action = ''SignCertificate''
      then changed s (map_option (\<lambda>csr. s\<lparr>ss_certificate_request :=
                        Some \<lparr>cr_csr = truncate_text csr MAX_CERTIFICATE_LEN, cr_received_at = now\<rparr>\<rparr>)
                        (de_sign_certificate sd request))
      else (s, False))"

definition state_apply_result ::
  "serde \<Rightarrow> string \<Rightarrow> json \<Rightarrow> json \<Rightarrow> instant \<Rightarrow> station_state \<Rightarrow> station_state \<times> bool" where
  "state_apply_result sd action request response now s =
     (if action = ''GetInstalledCertificateIds''
      then changed s (on_installed_certificates sd request response now s)
      else (s, False))"

end
