(* ===== verification/Csms_State_Laws.thy ===== *)
theory Csms_State_Laws
  imports Csms_State
begin

text \<open>
  What the station state of the central system promises: it stays bounded whatever a station sends,
  a stop ends the most recent transaction with its id and evicts only the oldest stopped ones, and a
  start is never lost but to the bound on active ones.
\<close>

subsection \<open>Lists of transactions\<close>

lemma remove_nth_split: "remove_nth (length a) (a @ x # b) = a @ b"
  by (simp add: remove_nth_def)

lemma position_splitE:
  assumes "position P xs = Some k"
  obtains a x b where "xs = a @ x # b" "k = length a" "P x" "\<forall>y\<in>set a. \<not> P y"
proof
  from position_SomeD [OF assms] have k: "k < length xs" "P (xs ! k)" "\<forall>j<k. \<not> P (xs ! j)" by auto
  show "xs = take k xs @ xs ! k # drop (Suc k) xs" using k(1) by (rule id_take_nth_drop)
  show "k = length (take k xs)" using k(1) by simp
  show "P (xs ! k)" by (rule k(2))
  show "\<forall>y\<in>set (take k xs). \<not> P y" using k by (auto simp: in_set_conv_nth)
qed

lemma filter_remove_first: "filter P (remove_first P xs) = tl (filter P xs)"
proof (cases "position P xs")
  case None
  then have "filter P xs = []" by (simp add: position_None filter_empty_conv)
  with None show ?thesis by (simp add: remove_first_def)
next
  case (Some k)
  then obtain a x b where "xs = a @ x # b" "k = length a" "P x" "\<forall>y\<in>set a. \<not> P y" by (rule position_splitE)
  with Some show ?thesis by (simp add: remove_first_def remove_nth_split)
qed

lemma filter_remove_first_other:
  "(\<And>x. Q x \<Longrightarrow> \<not> P x) \<Longrightarrow> filter Q (remove_first P xs) = filter Q xs"
proof (cases "position P xs")
  case (Some k)
  assume other: "\<And>x. Q x \<Longrightarrow> \<not> P x"
  from Some obtain a x b where x: "xs = a @ x # b" "k = length a" "P x" by (rule position_splitE)
  then have "\<not> Q x" using other by blast
  with Some x show ?thesis by (simp add: remove_first_def remove_nth_split)
qed (simp add: remove_first_def)

lemma set_remove_first: "set (remove_first P xs) \<subseteq> set xs"
  by (auto simp: remove_first_def dest: set_remove_nth_subset [THEN subsetD] split: option.splits)

text \<open>The loop removes the first stopped record again and again.\<close>

lemma drop_stopped_Suc: "drop_stopped (Suc n) txs = drop_stopped n (remove_first (\<lambda>tx. \<not> is_active_record tx) txs)"
proof (cases "position (\<lambda>tx. \<not> is_active_record tx) txs")
  case None
  have "drop_stopped n txs = txs" for n using None by (induction n) auto
  with None show ?thesis by (simp add: remove_first_def)
qed (simp add: remove_first_def)

declare drop_stopped.simps(2) [simp del]
declare drop_stopped_Suc [simp]

lemma drop_stopped_parts:
  "filter is_active_record (drop_stopped n txs) = filter is_active_record txs"
  "filter (\<lambda>tx. \<not> is_active_record tx) (drop_stopped n txs) = drop n (filter (\<lambda>tx. \<not> is_active_record tx) txs)"
  "set (drop_stopped n txs) \<subseteq> set txs"
proof (induction n arbitrary: txs)
  case (Suc n)
  { case (1 txs)
    have "filter is_active_record (remove_first (\<lambda>tx. \<not> is_active_record tx) txs) = filter is_active_record txs"
      by (rule filter_remove_first_other) simp
    then show ?case by (simp add: Suc(1)) }
  { case (2 txs) show ?case by (simp add: Suc(2) filter_remove_first drop_Suc) }
  { case (3 txs) show ?case using Suc(3) set_remove_first [of _ txs] by fastforce }
qed simp_all

lemma count_records_simps:
  "count_records True txs = length (filter is_active_record txs)"
  "count_records False txs = length (filter (\<lambda>tx. \<not> is_active_record tx) txs)"
  by (simp_all add: count_records_def)

lemma add_transaction_parts:
  assumes "is_active_record tx"
  shows "filter is_active_record (add_transaction tx txs) =
      (if count_records True txs < MAX_ACTIVE_TRANSACTIONS then filter is_active_record txs @ [tx]
       else tl (filter is_active_record txs @ [tx]))"
    and "filter (\<lambda>tx. \<not> is_active_record tx) (add_transaction tx txs) = filter (\<lambda>tx. \<not> is_active_record tx) txs"
    and "set (add_transaction tx txs) \<subseteq> insert tx (set txs)"
  using assms set_remove_first [of is_active_record "txs @ [tx]"]
  by (auto simp: add_transaction_def Let_def count_records_simps filter_remove_first filter_remove_first_other)

lemma find_rev_split:
  assumes "find P (rev xs) = Some x"
  obtains a b where "xs = a @ x # b" "P x" "\<forall>y\<in>set b. \<not> P y"
    "\<And>f. rev (update_first P f (rev xs)) = a @ f x # b"
proof -
  have "\<exists>a b. ys = a @ x # b \<and> P x \<and> (\<forall>y\<in>set a. \<not> P y) \<and> (\<forall>f. update_first P f ys = a @ f x # b)"
    if "find P ys = Some x" for ys
    using that
  proof (induction ys)
    case (Cons y ys)
    show ?case
    proof (cases "P y")
      case True
      with Cons.prems show ?thesis by (intro exI [of _ "[]"] exI [of _ ys]) auto
    next
      case False
      with Cons obtain a b where "ys = a @ x # b \<and> P x \<and> (\<forall>y\<in>set a. \<not> P y) \<and> (\<forall>f. update_first P f ys = a @ f x # b)"
        by auto
      with False show ?thesis by (intro exI [of _ "y # a"] exI [of _ b]) auto
    qed
  qed simp
  from this [OF assms] obtain a b where ab: "rev xs = a @ x # b" "P x" "\<forall>y\<in>set a. \<not> P y"
    "\<And>f. update_first P f (rev xs) = a @ f x # b" by blast
  show thesis
    by (rule that [of "rev b" "rev a"]) (use ab in \<open>simp_all add: rev_eq_append_conv\<close>)
qed

lemma active_mut_split:
  assumes "active_mut i txs = Some tx"
  obtains a b where "txs = a @ tx # b" "tx_id_no tx = i" "is_active_record tx"
    "\<forall>y\<in>set b. \<not> names i y" "\<And>t. set_active i t txs = a @ t # b"
  using assms unfolding active_mut_def set_active_def names_def [of i tx, symmetric]
  by (elim find_rev_split) (auto simp: names_def)

lemma active_mut_None: "active_mut i txs = None \<longleftrightarrow> (\<forall>tx\<in>set txs. \<not> names i tx)"
  by (auto simp: active_mut_def find_None_iff)

subsection \<open>Bounds\<close>

definition record_wf :: "transaction_record \<Rightarrow> bool" where
  "record_wf tx = (is_active_record tx \<longleftrightarrow> tx_stopped_at tx = None)"

definition event_wf :: "security_event_record \<Rightarrow> bool" where
  "event_wf e = (length (sr_event_type e) \<le> 50 \<and> is_none_or (sr_tech_info e) (\<lambda>t. length t \<le> 255))"

definition hash_wf :: "certificate_hash_data \<Rightarrow> bool" where
  "hash_wf h = (length (ch_issuer_name_hash h) \<le> 128 \<and> length (ch_issuer_key_hash h) \<le> 128
     \<and> length (ch_serial_number h) \<le> 40)"

definition state_bounded :: "nat \<Rightarrow> station_state \<Rightarrow> bool" where
  "state_bounded cap s =
     (bt_wf (ss_connectors s) \<and> length (ss_connectors s) \<le> 1024
      \<and> length (filter is_active_record (ss_transactions s)) \<le> 256
      \<and> length (filter (\<lambda>tx. \<not> is_active_record tx) (ss_transactions s)) \<le> cap
      \<and> list_all record_wf (ss_transactions s)
      \<and> length (ss_security_events s) \<le> 100 \<and> list_all event_wf (ss_security_events s)
      \<and> length (ss_security_events s) \<le> ss_security_events_total s
      \<and> is_none_or (ss_certificate_request s) (\<lambda>r. length (cr_csr r) \<le> 5500)
      \<and> bt_wf (ss_installed s) \<and> length (ss_installed s) \<le> 2
      \<and> list_all (\<lambda>(k, ic). k \<in> range certificate_use_str \<and> length (ic_certificates ic) \<le> 64
            \<and> list_all hash_wf (ic_certificates ic)) (ss_installed s))"

lemma length_truncate [simp]: "length (truncate_text t n) \<le> n"
  by (simp add: truncate_text_def)

lemma range_use: "range certificate_use_str = {''CentralSystemRootCertificate'', ''ManufacturerRootCertificate''}"
proof -
  have "UNIV = {CentralSystemRootCertificate, ManufacturerRootCertificate}"
    using certificate_use.exhaust by auto
  then have "range certificate_use_str = certificate_use_str ` {CentralSystemRootCertificate, ManufacturerRootCertificate}"
    by (rule arg_cong)
  then show ?thesis by simp
qed

lemma default_bounded: "state_bounded cap default_state"
  by (simp add: state_bounded_def default_state_def)

text \<open>A change of the transactions alone.\<close>

lemma bounded_transactions:
  "state_bounded cap s \<Longrightarrow> length (filter is_active_record txs) \<le> 256 \<Longrightarrow>
   length (filter (\<lambda>tx. \<not> is_active_record tx) txs) \<le> cap \<Longrightarrow> list_all record_wf txs \<Longrightarrow>
   state_bounded cap (s\<lparr>ss_transactions := txs\<rparr>)"
  by (simp add: state_bounded_def)

lemma on_status_bounded: "state_bounded cap s \<Longrightarrow> on_status sd q now s = Some s' \<Longrightarrow> state_bounded cap s'"
  by (auto simp: on_status_def Let_def state_bounded_def csms_bounds bind_eq_Some_conv length_bt_insert
      intro: bt_wf_insert split: if_splits)

lemma new_record_active: "is_active_record (new_record req res)" "record_wf (new_record req res)"
  by (simp_all add: new_record_def is_active_record_def record_wf_def)

lemma on_start_bounded: "state_bounded cap s \<Longrightarrow> on_start sd q r s = Some s' \<Longrightarrow> state_bounded cap s'"
proof -
  assume b: "state_bounded cap s" and "on_start sd q r s = Some s'"
  then obtain req res where s': "s' = s\<lparr>ss_transactions := add_transaction (new_record req res) (ss_transactions s)\<rparr>"
    by (auto simp: on_start_def bind_eq_Some_conv)
  note parts = add_transaction_parts [OF new_record_active(1), of req res "ss_transactions s"]
  have "list_all record_wf (add_transaction (new_record req res) (ss_transactions s))"
    using parts(3) b new_record_active(2) by (auto simp: state_bounded_def list_all_iff)
  then show ?thesis
    unfolding s' using b parts(1,2)
    by (intro bounded_transactions [OF b]) (auto simp: state_bounded_def csms_bounds count_records_simps)
qed

lemma set_active_parts:
  assumes "active_mut i txs = Some tx"
  shows "list_all record_wf txs \<Longrightarrow> record_wf t \<Longrightarrow> list_all record_wf (set_active i t txs)"
    and "is_active_record t \<Longrightarrow> length (filter is_active_record (set_active i t txs)) = length (filter is_active_record txs)"
    and "is_active_record t \<Longrightarrow> filter (\<lambda>tx. \<not> is_active_record tx) (set_active i t txs) = filter (\<lambda>tx. \<not> is_active_record tx) txs"
    and "\<not> is_active_record t \<Longrightarrow> length (filter is_active_record (set_active i t txs)) \<le> length (filter is_active_record txs)"
proof -
  obtain a b where txs: "txs = a @ tx # b" and tx: "is_active_record tx"
    and set: "\<And>t. set_active i t txs = a @ t # b" by (rule active_mut_split [OF assms], rule that)
  show "list_all record_wf txs \<Longrightarrow> record_wf t \<Longrightarrow> list_all record_wf (set_active i t txs)"
    unfolding set by (simp add: txs)
  show "is_active_record t \<Longrightarrow> length (filter is_active_record (set_active i t txs)) = length (filter is_active_record txs)"
    unfolding set using tx by (simp add: txs)
  show "is_active_record t \<Longrightarrow> filter (\<lambda>tx. \<not> is_active_record tx) (set_active i t txs) = filter (\<lambda>tx. \<not> is_active_record tx) txs"
    unfolding set using tx by (simp add: txs)
  show "\<not> is_active_record t \<Longrightarrow> length (filter is_active_record (set_active i t txs)) \<le> length (filter is_active_record txs)"
    unfolding set using tx by (simp add: txs)
qed

lemma on_stop_bounded: "state_bounded cap s \<Longrightarrow> on_stop sd q cap s = Some s' \<Longrightarrow> state_bounded cap s'"
proof -
  assume b: "state_bounded cap s" and "on_stop sd q cap s = Some s'"
  then obtain req where r: "s' = (case active_mut (tq_transaction_id req) (ss_transactions s) of
         None \<Rightarrow> s\<lparr>ss_unknown_stops := ss_unknown_stops s + 1\<rparr>
       | Some tx \<Rightarrow>
           let txs = set_active (tq_transaction_id req) (stop_record req tx) (ss_transactions s)
           in s\<lparr>ss_transactions := drop_stopped (count_records False txs - cap) txs\<rparr>)"
    by (auto simp: on_stop_def)
  show ?thesis
  proof (cases "active_mut (tq_transaction_id req) (ss_transactions s)")
    case None
    with b r show ?thesis by (simp add: state_bounded_def)
  next
    case (Some tx)
    let ?txs = "set_active (tq_transaction_id req) (stop_record req tx) (ss_transactions s)"
    have stopped: "\<not> is_active_record (stop_record req tx)" "record_wf (stop_record req tx)"
      by (simp_all add: stop_record_def is_active_record_def record_wf_def)
    note parts = set_active_parts [OF Some, of "stop_record req tx"]
    have "list_all record_wf ?txs" using parts(1) stopped b by (simp add: state_bounded_def)
    moreover have "length (filter is_active_record ?txs) \<le> 256"
      using parts(4) stopped(1) b by (simp add: state_bounded_def)
    moreover have "list_all record_wf (drop_stopped n ?txs)" if "list_all record_wf ?txs" for n
      using drop_stopped_parts(3) [of n ?txs] that unfolding list_all_iff by blast
    ultimately show ?thesis
      unfolding r using Some drop_stopped_parts(1,2) [of "count_records False ?txs - cap" ?txs]
      by (simp add: Let_def count_records_simps bounded_transactions [OF b])
  qed
qed

lemma apply_sample_keeps:
  "apply_sample v tx = Some t \<Longrightarrow> is_active_record t = is_active_record tx \<and> tx_stopped_at t = tx_stopped_at tx
    \<and> tx_id_no t = tx_id_no tx"
  by (auto simp: apply_sample_def is_active_record_def split: option.splits measurand.splits unit_of_measure.splits)

lemma samples_keep:
  "foldl (\<lambda>(t, touched) v. case apply_sample v t of None \<Rightarrow> (t, touched) | Some t' \<Rightarrow> (t', True)) (tx, b) vs = (t, c) \<Longrightarrow>
   is_active_record t = is_active_record tx \<and> tx_stopped_at t = tx_stopped_at tx \<and> tx_id_no t = tx_id_no tx"
  by (induction vs arbitrary: tx b) (auto split: option.splits dest: apply_sample_keeps)

lemma meter_value_keeps:
  "apply_meter_value (tx, b) m = (t, c) \<Longrightarrow>
   is_active_record t = is_active_record tx \<and> tx_stopped_at t = tx_stopped_at tx \<and> tx_id_no t = tx_id_no tx"
  by (auto simp: apply_meter_value_def is_active_record_def [of "_\<lparr>tx_last_meter_at := _\<rparr>"] split: prod.splits if_splits
      dest: samples_keep simp flip: is_active_record_def)

lemma meter_values_keep:
  "foldl apply_meter_value (tx, b) ms = (t, c) \<Longrightarrow>
   is_active_record t = is_active_record tx \<and> tx_stopped_at t = tx_stopped_at tx \<and> tx_id_no t = tx_id_no tx"
proof (induction ms arbitrary: tx b)
  case (Cons m ms)
  obtain u d where u: "apply_meter_value (tx, b) m = (u, d)" by force
  with Cons.prems Cons.IH [of u d] meter_value_keeps [OF u] show ?case by simp
qed simp

lemma on_meter_bounded: "state_bounded cap s \<Longrightarrow> on_meter sd q s = Some s' \<Longrightarrow> state_bounded cap s'"
proof -
  assume b: "state_bounded cap s" and m: "on_meter sd q s = Some s'"
  from m obtain req i tx where d: "de_meter sd q = Some req" "vq_transaction_id req = Some i"
    and a: "active_mut i (ss_transactions s) = Some tx"
    unfolding on_meter_def by (auto simp: bind_eq_Some_conv)
  from m d a have u: "(case foldl apply_meter_value (tx, False) (vq_meter_value req) of (tx', c) \<Rightarrow>
      if c then Some (s\<lparr>ss_transactions := set_active i tx' (ss_transactions s)\<rparr>) else None) = Some s'"
    by (simp add: on_meter_def)
  obtain t c where f: "foldl apply_meter_value (tx, False) (vq_meter_value req) = (t, c)" by force
  with u have s': "s' = s\<lparr>ss_transactions := set_active i t (ss_transactions s)\<rparr>" by (simp split: if_splits)
  obtain x y where split: "ss_transactions s = x @ tx # y" "is_active_record tx" using a by (rule active_mut_split)
  have t: "is_active_record t" "record_wf t"
    using meter_values_keep [OF f] split b by (auto simp: record_wf_def state_bounded_def)
  show ?thesis
    unfolding s' using set_active_parts [OF a, of t] t b
    by (intro bounded_transactions [OF b]) (auto simp: state_bounded_def)
qed

lemma on_security_event_bounded:
  "state_bounded cap s \<Longrightarrow> on_security_event sd q now s = Some s' \<Longrightarrow> state_bounded cap s'"
proof -
  assume b: "state_bounded cap s" and "on_security_event sd q now s = Some s'"
  then obtain req where req: "de_security sd q = Some req" by (auto simp: on_security_event_def)
  define ev where "ev = \<lparr>sr_event_type = truncate_text (se_type req) 50,
        sr_timestamp = se_timestamp req, sr_tech_info = map_option (\<lambda>t. truncate_text t 255) (se_tech_info req),
        sr_received_at = now\<rparr>"
  have ev: "event_wf ev" by (auto simp: ev_def event_wf_def is_none_or_iff)
  have s': "s' = s\<lparr>ss_security_events := drop (length (ss_security_events s @ [ev]) - 100) (ss_security_events s @ [ev]),
      ss_security_events_total := ss_security_events_total s + 1\<rparr>"
    using \<open>on_security_event sd q now s = Some s'\<close> req
    by (simp add: on_security_event_def Let_def csms_bounds flip: ev_def)
  have "list_all event_wf (drop n (ss_security_events s @ [ev]))" for n
    using b ev by (auto simp: state_bounded_def list_all_iff dest: in_set_dropD)
  with b ev show ?thesis unfolding s' state_bounded_def by (auto simp: le_diff_conv)
qed

lemma on_installed_bounded:
  "state_bounded cap s \<Longrightarrow> on_installed_certificates sd q r now s = Some s' \<Longrightarrow> state_bounded cap s'"
proof -
  assume b: "state_bounded cap s" and "on_installed_certificates sd q r now s = Some s'"
  then obtain use status sent where s': "s' = s\<lparr>ss_installed := bt_insert (certificate_use_str use)
      \<lparr>ic_status = status, ic_certificates = map cut_hash (take 64 sent), ic_total = length sent, ic_at = now\<rparr>
      (ss_installed s)\<rparr>"
    by (auto simp: on_installed_certificates_def bind_eq_Some_conv csms_bounds Let_def)
  let ?ic = "\<lparr>ic_status = status, ic_certificates = map cut_hash (take 64 sent), ic_total = length sent, ic_at = now\<rparr>"
  let ?m = "bt_insert (certificate_use_str use) ?ic (ss_installed s)"
  have wf: "bt_wf ?m" using b by (auto simp: state_bounded_def intro: bt_wf_insert)
  have ic: "length (ic_certificates ?ic) \<le> 64 \<and> list_all hash_wf (ic_certificates ?ic)"
    by (auto simp: list_all_iff hash_wf_def cut_hash_def csms_bounds)
  have all: "list_all (\<lambda>(k, ic). k \<in> range certificate_use_str \<and> length (ic_certificates ic) \<le> 64
        \<and> list_all hash_wf (ic_certificates ic)) ?m"
    unfolding list_all_iff
  proof
    fix x assume "x \<in> set ?m"
    then have "x = (certificate_use_str use, ?ic) \<or> x \<in> set (ss_installed s)"
      using set_bt_insert [of "certificate_use_str use" ?ic "ss_installed s"] by blast
    then show "case x of (k, ic) \<Rightarrow> k \<in> range certificate_use_str \<and> length (ic_certificates ic) \<le> 64
        \<and> (\<forall>h\<in>set (ic_certificates ic). hash_wf h)"
      using b ic by (auto simp: state_bounded_def list_all_iff)
  qed
  have "distinct (map fst ?m)" using wf by (simp add: bt_wf_def strict_sorted_iff)
  moreover have "set (map fst ?m) \<subseteq> range certificate_use_str" using all by (auto simp: list_all_iff)
  ultimately have "length ?m \<le> card (range certificate_use_str)"
    by (metis card_mono distinct_card finite.emptyI finite.insertI length_map range_use)
  then have "length ?m \<le> 2" by (simp add: range_use)
  then show ?thesis using b wf all by (simp add: s' state_bounded_def)
qed

lemma changed_bounded:
  "state_bounded cap s \<Longrightarrow> (\<And>s'. r = Some s' \<Longrightarrow> state_bounded cap s') \<Longrightarrow> state_bounded cap (fst (changed s r))"
  by (cases r) (auto simp: changed_def)

text \<open>Fields that no bound mentions.\<close>

lemma bounded_fields:
  assumes "state_bounded cap s"
  shows "state_bounded cap (s\<lparr>ss_boot := b\<rparr>)" "state_bounded cap (s\<lparr>ss_last_heartbeat_at := h\<rparr>)"
    "state_bounded cap (s\<lparr>ss_diagnostics_status := d\<rparr>)" "state_bounded cap (s\<lparr>ss_firmware_status := f\<rparr>)"
    "state_bounded cap (s\<lparr>ss_log_status := l\<rparr>)" "state_bounded cap (s\<lparr>ss_signed_firmware_status := g\<rparr>)"
    "state_bounded cap (s\<lparr>ss_failed_calls := n\<rparr>)"
    "state_bounded cap (s\<lparr>ss_certificate_request := Some \<lparr>cr_csr = truncate_text csr MAX_CERTIFICATE_LEN, cr_received_at = now\<rparr>\<rparr>)"
  using assms by (simp_all add: state_bounded_def csms_bounds)

lemma apply_bounded:
  assumes "state_bounded cap s"
  shows "state_bounded cap (fst (state_apply sd a q r now cap s))"
proof -
  note fields = bounded_fields [OF assms] and ch = changed_bounded [OF assms]
  have "state_bounded cap (fst (changed s (on_boot sd q r now s)))"
    by (rule ch) (auto simp: on_boot_def Let_def fields)
  moreover have "state_bounded cap (fst (changed s (on_status sd q now s)))"
    by (rule ch) (rule on_status_bounded [OF assms])
  moreover have "state_bounded cap (fst (changed s (on_start sd q r s)))"
    by (rule ch) (rule on_start_bounded [OF assms])
  moreover have "state_bounded cap (fst (changed s (on_stop sd q cap s)))"
    by (rule ch) (rule on_stop_bounded [OF assms])
  moreover have "state_bounded cap (fst (changed s (on_meter sd q s)))"
    by (rule ch) (rule on_meter_bounded [OF assms])
  moreover have "state_bounded cap (fst (changed s (on_security_event sd q now s)))"
    by (rule ch) (rule on_security_event_bounded [OF assms])
  moreover have "state_bounded cap (fst (changed s (map_option (\<lambda>st. s\<lparr>ss_diagnostics_status := Some \<lparr>rp_status = st, rp_at = now\<rparr>\<rparr>) d)))"
    "state_bounded cap (fst (changed s (map_option (\<lambda>st. s\<lparr>ss_firmware_status := Some \<lparr>rp_status = st, rp_at = now\<rparr>\<rparr>) f)))"
    "state_bounded cap (fst (changed s (map_option (\<lambda>(st, i). s\<lparr>ss_log_status := Some \<lparr>lr_status = st, lr_request_id = i, lr_at = now\<rparr>\<rparr>) l)))"
    "state_bounded cap (fst (changed s (map_option (\<lambda>(st, i). s\<lparr>ss_signed_firmware_status :=
       Some \<lparr>fw_status = st, fw_request_id = i, fw_at = now\<rparr>\<rparr>) g)))"
    "state_bounded cap (fst (changed s (map_option (\<lambda>csr. s\<lparr>ss_certificate_request :=
       Some \<lparr>cr_csr = truncate_text csr MAX_CERTIFICATE_LEN, cr_received_at = now\<rparr>\<rparr>) c)))" for d f l g c
    by (rule ch, auto simp: fields)+
  ultimately show ?thesis
    unfolding state_apply_def by (simp add: fields assms split: if_split)
qed

lemma apply_result_bounded: "state_bounded cap s \<Longrightarrow> state_bounded cap (fst (state_apply_result sd a q r now s))"
  unfolding state_apply_result_def by (auto intro!: changed_bounded intro: on_installed_bounded)

text \<open>Everything the engine does to a station state: an answered CALL, the result of its own CALL, a failed one.\<close>

datatype state_op =
  Op_Answered string json json instant
| Op_Result string json json instant
| Op_Failed

definition note_failed :: "station_state \<Rightarrow> station_state" where
  "note_failed s = s\<lparr>ss_failed_calls := ss_failed_calls s + 1\<rparr>"

fun state_step :: "serde \<Rightarrow> nat \<Rightarrow> station_state \<Rightarrow> state_op \<Rightarrow> station_state" where
  "state_step sd cap s (Op_Answered a q r now) = fst (state_apply sd a q r now cap s)"
| "state_step sd cap s (Op_Result a q r now) = fst (state_apply_result sd a q r now s)"
| "state_step sd cap s Op_Failed = note_failed s"

lemma state_step_bounded: "state_bounded cap s \<Longrightarrow> state_bounded cap (state_step sd cap s p)"
  by (cases p) (auto intro: apply_bounded apply_result_bounded simp: note_failed_def bounded_fields)


text \<open>
  A StopTransaction ends one transaction.  It stops the most recent active transaction with its
  id, in place, keeps every other active one and of the stopped ones the newest \<open>cap\<close>; without such a
  transaction only the counter of unknown stops grows.
\<close>

theorem stop_ends_latest:
  assumes "de_stop sd request = Some req" and "on_stop sd request cap s = Some s'"
  shows "(\<exists>a tx b. ss_transactions s = a @ tx # b \<and> tx_id_no tx = tq_transaction_id req \<and> tx_status tx = Tx_Active
           \<and> (\<forall>y\<in>set b. tx_id_no y = tq_transaction_id req \<longrightarrow> tx_status y = Tx_Stopped)
           \<and> filter is_active_record (ss_transactions s') = filter is_active_record (a @ b)
           \<and> (let stopped = filter (\<lambda>t. \<not> is_active_record t) (a @ stop_record req tx # b)
              in filter (\<lambda>t. \<not> is_active_record t) (ss_transactions s') = drop (length stopped - cap) stopped)
           \<and> ss_unknown_stops s' = ss_unknown_stops s)
       \<or> ((\<forall>tx\<in>set (ss_transactions s). tx_id_no tx = tq_transaction_id req \<longrightarrow> tx_status tx = Tx_Stopped)
           \<and> s' = s\<lparr>ss_unknown_stops := ss_unknown_stops s + 1\<rparr>)"
proof (cases "active_mut (tq_transaction_id req) (ss_transactions s)")
  case None
  have "s' = s\<lparr>ss_unknown_stops := ss_unknown_stops s + 1\<rparr>" using assms None by (simp add: on_stop_def)
  with None show ?thesis
    by (auto simp: active_mut_None names_def is_active_record_def) (metis transaction_status.exhaust)
next
  case (Some tx)
  let ?t = "stop_record req tx"
  obtain a b where txs: "ss_transactions s = a @ tx # b" "tx_id_no tx = tq_transaction_id req" "is_active_record tx"
    and last: "\<forall>y\<in>set b. \<not> names (tq_transaction_id req) y"
    and set: "\<And>t. set_active (tq_transaction_id req) t (ss_transactions s) = a @ t # b"
    by (rule active_mut_split [OF Some], rule that)
  have stopped: "\<not> is_active_record ?t" by (simp add: stop_record_def is_active_record_def)
  have s': "s' = s\<lparr>ss_transactions := drop_stopped (count_records False (a @ ?t # b) - cap) (a @ ?t # b)\<rparr>"
    using assms Some set by (simp add: on_stop_def Let_def)
  have "\<forall>y\<in>set b. tx_id_no y = tq_transaction_id req \<longrightarrow> tx_status y = Tx_Stopped"
    using last by (auto simp: names_def is_active_record_def) (metis transaction_status.exhaust)
  moreover have "tx_status tx = Tx_Active" using txs(3) by (simp add: is_active_record_def)
  ultimately show ?thesis
    using txs(1,2) stopped drop_stopped_parts [of "count_records False (a @ ?t # b) - cap" "a @ ?t # b"]
    by (intro disjI1 exI [of _ a] exI [of _ tx] exI [of _ b]) (simp add: s' count_records_simps Let_def)
qed

definition demo_start_q :: start_request where
  "demo_start_q = \<lparr>sq_connector_id = 1, sq_id_tag = ''T'', sq_meter_start = 10, sq_reservation_id = None, sq_timestamp = 5\<rparr>"

definition demo_start_r :: "i32 \<Rightarrow> start_response" where
  "demo_start_r i = \<lparr>tr_id_tag_info = with_status Auth_Accepted, tr_transaction_id = i\<rparr>"

definition demo_stop_q :: stop_request where
  "demo_stop_q = \<lparr>tq_id_tag = None, tq_meter_stop = 99, tq_timestamp = 60, tq_transaction_id = 7,
     tq_reason = Some Remote, tq_transaction_data = None\<rparr>"

definition demo_serde :: serde where
  "demo_serde = \<lparr>de_boot = (\<lambda>_. None), de_boot_response = (\<lambda>_. None), de_status = (\<lambda>_. None),
     de_start = (\<lambda>_. Some demo_start_q),
     de_start_response = (\<lambda>j. map_option (\<lambda>n. demo_start_r (int n)) (json_u64 j)),
     de_stop = (\<lambda>_. Some demo_stop_q), de_meter = (\<lambda>_. None), de_diagnostics = (\<lambda>_. None),
     de_firmware = (\<lambda>_. None), de_security = (\<lambda>_. None), de_log = (\<lambda>_. None),
     de_signed_firmware = (\<lambda>_. None), de_sign_certificate = (\<lambda>_. None), de_installed = (\<lambda>_. None),
     de_installed_response = (\<lambda>_. None)\<rparr>"

definition demo_started :: station_state where
  "demo_started = foldl (state_step demo_serde 100) default_state
     (map (\<lambda>i. Op_Answered ''StartTransaction'' JNull (JNumber (PosInt i)) 5) [7, 8, 7])"

theorem stop_ends_latest_witness:
  "\<exists>s'. on_stop demo_serde JNull 100 demo_started = Some s'
    \<and> map (\<lambda>tx. (tx_id_no tx, tx_status tx)) (ss_transactions s') = [(7, Tx_Active), (8, Tx_Active), (7, Tx_Stopped)]
    \<and> ss_unknown_stops s' = 0"
proof -
  have q: "de_stop demo_serde JNull = Some demo_stop_q" by code_simp
  obtain s' where s': "on_stop demo_serde JNull 100 demo_started = Some s'"
    by (simp add: on_stop_def q)
  have e: "map (\<lambda>tx. (tx_id_no tx, tx_status tx)) (ss_transactions (the (on_stop demo_serde JNull 100 demo_started)))
      = [(7, Tx_Active), (8, Tx_Active), (7, Tx_Stopped)]" by code_simp
  have z: "ss_unknown_stops demo_started = 0" by code_simp
  have ids: "map tx_id_no (ss_transactions demo_started) = [7, 8, 7]"
    "map tx_status (ss_transactions demo_started) = [Tx_Active, Tx_Active, Tx_Active]" by code_simp+
  from stop_ends_latest [OF q s'] ids have "ss_unknown_stops s' = 0"
    using z by (auto simp: demo_stop_q_def map_eq_Cons_conv)
  with s' e show ?thesis by simp
qed

end
