(* ===== verification/Csms_Auth.thy ===== *)
theory Csms_Auth
  imports Rust_Strings Btree_Map
begin

unbundle bit_operations_syntax

text \<open>
  Who may connect to the central system: the security policy and its checks
  (\<open>kirby-csms-core/src/auth.rs\<close>, \<open>config.rs\<close>), the subprotocol negotiation and the transaction ids
  (\<open>policy.rs\<close>), the station id of a URL path and the order of the checks of one handshake
  (\<open>server.rs\<close>).  Percent decoding, base64 and the header syntax are third-party code and enter as
  the record \<open>http_lib\<close>.  A character stands for a Unicode scalar below 256.
\<close>

subsection \<open>Bytes\<close>

definition utf8_char :: "char \<Rightarrow> 8 word list" where
  "utf8_char c =
     (let n = char_code c in
      if n < 128 then [word_of_nat n] else [word_of_nat (192 + n div 64), word_of_nat (128 + n mod 64)])"

definition utf8 :: "string \<Rightarrow> 8 word list" where
  "utf8 s = concat (map utf8_char s)"

definition is_control :: "char \<Rightarrow> bool" where
  "is_control c = (let n = char_code c in n < 32 \<or> (127 \<le> n \<and> n < 160))"

text \<open>\<open>constant_time_eq\<close>: all differences are collected before the verdict.\<close>

definition byte_at :: "8 word list \<Rightarrow> nat \<Rightarrow> 8 word" where
  "byte_at a i = (if i < length a then a ! i else 0)"

definition constant_time_eq :: "8 word list \<Rightarrow> 8 word list \<Rightarrow> bool" where
  "constant_time_eq a b =
     (foldl (\<lambda>diff i. diff OR ucast (byte_at a i XOR byte_at b i))
        (word_of_nat (length a) XOR word_of_nat (length b) :: 64 word)
        [0..<max (length a) (length b)] = 0)"

subsection \<open>The security policy\<close>

datatype security_profile = Profile_None | BasicAuth | BasicAuthTls | MutualTls

fun profile_number :: "security_profile \<Rightarrow> nat" where
  "profile_number Profile_None = 0"
| "profile_number BasicAuth = 1"
| "profile_number BasicAuthTls = 2"
| "profile_number MutualTls = 3"

definition profile_from_number :: "nat \<Rightarrow> security_profile option" where
  "profile_from_number n =
     (if n = 0 then Some Profile_None else if n = 1 then Some BasicAuth
      else if n = 2 then Some BasicAuthTls else if n = 3 then Some MutualTls else None)"

record security_policy =
  sp_profile :: security_profile
  sp_keys :: "(string, string) btree"
  sp_default_key :: "string option"

definition key_for :: "security_policy \<Rightarrow> string \<Rightarrow> string option" where
  "key_for p station = option_filter (\<lambda>key. key \<noteq> []) (option_or (bt_get (sp_keys p) station) (sp_default_key p))"

definition has_empty_key :: "security_policy \<Rightarrow> bool" where
  "has_empty_key p = (sp_default_key p = Some [] \<or> (\<exists>kv\<in>set (sp_keys p). snd kv = []))"

text \<open>\<open>CsmsServer::start\<close>: the configurations that are refused before anything is bound.\<close>

definition start_refused :: "bool \<Rightarrow> security_policy \<Rightarrow> string option" where
  "start_refused tls p =
     (if \<not> tls \<and> (sp_profile p = BasicAuthTls \<or> sp_profile p = MutualTls)
      then Some (''security profile '' @ show_nat (profile_number (sp_profile p)) @ '' needs TLS (`tls` is not set)'')
      else if has_empty_key p then Some ''security keys must not be empty'' else None)"

datatype peer_identity = Plain | NoCertificate | Certificate "string option"

record denied =
  dn_reason :: string
  dn_basic :: bool

text \<open>\<open>Denied::response\<close>: the HTTP status of a refusal.\<close>

definition denied_status :: "denied \<Rightarrow> nat" where
  "denied_status d = (if dn_basic d then 401 else 403)"

record http_lib =
  hl_percent_decode :: "string \<Rightarrow> string option"
  hl_base64 :: "string \<Rightarrow> string option"
  hl_header_value :: "string \<Rightarrow> bool"

text \<open>The parts of an upgrade request that are read: the path and the readable header lines.\<close>

record upgrade_request =
  ur_path :: string
  ur_authorization :: "string option"
  ur_protocols :: "string list"

definition credentials :: "http_lib \<Rightarrow> upgrade_request \<Rightarrow> (string \<times> string) option" where
  "credentials lib request =
     Option.bind (ur_authorization request) (\<lambda>value.
     Option.bind (split_once CHR '' '' value) (\<lambda>(scheme, encoded).
       if \<not> eq_ignore_ascii_case scheme ''basic'' then None
       else Option.bind (hl_base64 lib (trim encoded)) (split_once CHR '':'')))"

definition check_basic :: "http_lib \<Rightarrow> security_policy \<Rightarrow> upgrade_request \<Rightarrow> string \<Rightarrow> denied + unit" where
  "check_basic lib p request i =
     (case credentials lib request of
        None \<Rightarrow> Inl \<lparr>dn_reason = ''missing or malformed credentials'', dn_basic = True\<rparr>
      | Some (user, password) \<Rightarrow>
          let key = key_for p i;
              user_ok = constant_time_eq (utf8 user) (utf8 i);
              key_ok = constant_time_eq (utf8 password) (utf8 (unwrap_or key []))
          in if key = None then Inl \<lparr>dn_reason = ''no key configured for the station'', dn_basic = True\<rparr>
             else if user_ok \<and> key_ok then Inr ()
             else Inl \<lparr>dn_reason = ''invalid credentials'', dn_basic = True\<rparr>)"

definition auth_check ::
  "http_lib \<Rightarrow> security_policy \<Rightarrow> upgrade_request \<Rightarrow> string \<Rightarrow> peer_identity \<Rightarrow> denied + unit" where
  "auth_check lib p request i peer =
     (case sp_profile p of
        Profile_None \<Rightarrow> Inr ()
      | BasicAuth \<Rightarrow> check_basic lib p request i
      | BasicAuthTls \<Rightarrow>
          if peer = Plain then Inl \<lparr>dn_reason = ''TLS required'', dn_basic = False\<rparr>
          else check_basic lib p request i
      | MutualTls \<Rightarrow>
          (case peer of
             Plain \<Rightarrow> Inl \<lparr>dn_reason = ''TLS required'', dn_basic = False\<rparr>
           | NoCertificate \<Rightarrow> Inl \<lparr>dn_reason = ''client certificate required'', dn_basic = False\<rparr>
           | Certificate common_name \<Rightarrow>
               if common_name = Some i then Inr ()
               else Inl \<lparr>dn_reason = ''client certificate does not match the station id'', dn_basic = False\<rparr>))"

subsection \<open>Subprotocols and transaction ids\<close>

datatype subprotocol_policy = Require string | Select string | Omit | Reject

definition select_protocol :: "subprotocol_policy \<Rightarrow> string list \<Rightarrow> string + string option" where
  "select_protocol p offered =
     (case p of
        Require name \<Rightarrow>
          if name \<in> set offered then Inr (Some name) else Inl ''required subprotocol was not offered''
      | Select name \<Rightarrow> Inr (Some name)
      | Omit \<Rightarrow> Inr None
      | Reject \<Rightarrow> Inl ''handshake rejected by configuration'')"

definition offered_protocols :: "upgrade_request \<Rightarrow> string list" where
  "offered_protocols request =
     filter (\<lambda>name. name \<noteq> []) (map trim (concat (map (split CHR '','') (ur_protocols request))))"

datatype transaction_ids = Fixed int | Incrementing int

record tx_allocator =
  al_policy :: transaction_ids
  al_next :: "32 word"

definition allocator :: "transaction_ids \<Rightarrow> tx_allocator" where
  "allocator p = \<lparr>al_policy = p, al_next = (case p of Fixed i \<Rightarrow> word_of_int i | Incrementing i \<Rightarrow> word_of_int i)\<rparr>"

definition allocate :: "tx_allocator \<Rightarrow> int \<times> tx_allocator" where
  "allocate a =
     (case al_policy a of
        Fixed i \<Rightarrow> (i, a)
      | Incrementing _ \<Rightarrow> (sint (al_next a), a\<lparr>al_next := al_next a + 1\<rparr>))"

subsection \<open>The handshake\<close>

definition MAX_STATION_ID_LEN :: nat where "MAX_STATION_ID_LEN = 128"

definition station_id_from_path :: "http_lib \<Rightarrow> string \<Rightarrow> string option" where
  "station_id_from_path lib path =
     Option.bind (find (\<lambda>segment. segment \<noteq> []) (rev (split CHR ''/'' path))) (\<lambda>segment.
     Option.bind (hl_percent_decode lib segment) (\<lambda>decoded.
       if decoded \<noteq> [] \<and> length (utf8 decoded) \<le> MAX_STATION_ID_LEN \<and> \<not> list_ex is_control decoded
       then Some decoded else None))"

text \<open>
  The callback of \<open>run_session\<close>: the id and protocol of an accepted upgrade, or the HTTP status and
  reason of a refusal, with the phrase of \<open>AuthFailed\<close> if it was one.  \<open>full\<close> says whether the registry
  has no room for this id.
\<close>

datatype handshake = Upgrade string "string option" | Refuse nat string "string option"

definition handshake_check ::
  "http_lib \<Rightarrow> security_policy \<Rightarrow> subprotocol_policy \<Rightarrow> (string \<Rightarrow> bool) \<Rightarrow> upgrade_request \<Rightarrow> peer_identity \<Rightarrow> handshake" where
  "handshake_check lib p protocols full request peer =
     (case station_id_from_path lib (ur_path request) of
        None \<Rightarrow> Refuse 400 ''no valid charge point id in the URL path'' None
      | Some i \<Rightarrow>
          (case auth_check lib p request i peer of
             Inl d \<Rightarrow> Refuse (denied_status d) ''unauthorized'' (Some (dn_reason d))
           | Inr _ \<Rightarrow>
               (case select_protocol protocols (offered_protocols request) of
                  Inl reason \<Rightarrow> Refuse 400 reason None
                | Inr chosen \<Rightarrow>
                    if full i then Refuse 503 ''too many stations'' None
                    else if is_some_and chosen (\<lambda>name. \<not> hl_header_value lib name)
                    then Refuse 400 ''invalid subprotocol name in configuration'' None
                    else Upgrade i chosen)))"

subsection \<open>Laws\<close>

lemma or_fold_zero:
  "foldl (\<lambda>d i. d OR f i) (x :: 64 word) is = 0 \<longleftrightarrow> x = 0 \<and> (\<forall>i\<in>set is. f i = 0)"
  by (induction "is" arbitrary: x) (auto simp: or_eq_0_iff)

lemma word_xor_0: "x XOR y = 0 \<longleftrightarrow> x = y" for x y :: "'a::len word"
  by (metis xor.assoc xor.left_neutral xor.right_neutral xor_self_eq)

lemma byte_ucast_0: "(ucast (w :: 8 word) :: 64 word) = 0 \<longleftrightarrow> w = 0"
  by transfer (simp add: take_bit_take_bit min_def)

lemma constant_time_eq_iff:
  assumes "length a < 2 ^ 64" "length b < 2 ^ 64"
  shows "constant_time_eq a b \<longleftrightarrow> a = b"
proof -
  have len: "(word_of_nat (length a) :: 64 word) = word_of_nat (length b) \<longleftrightarrow> length a = length b"
    using assms by (simp add: word_of_nat_eq_iff take_bit_nat_eq_self)
  have all: "(\<forall>i<max (length a) (length b). byte_at a i = byte_at b i) \<longleftrightarrow> a = b" if "length a = length b"
    using that by (auto simp: byte_at_def intro: nth_equalityI)
  show ?thesis
    by (auto simp: constant_time_eq_def or_fold_zero len word_xor_0 byte_ucast_0 simp flip: all)
qed

lemma char_code_bound: "char_code c < 256"
  by (simp add: char_code_def)

lemma char_code_eq: "char_code c = char_code d \<longleftrightarrow> c = d"
  by (simp add: char_code_def)

lemma byte_eq: "m < 256 \<Longrightarrow> n < 256 \<Longrightarrow> (word_of_nat m :: 8 word) = word_of_nat n \<longleftrightarrow> m = n"
  by (simp add: word_of_nat_eq_iff take_bit_nat_eq_self)

lemma utf8_char_append:
  assumes "utf8_char c @ x = utf8_char d @ y"
  shows "c = d \<and> x = y"
proof -
  let ?m = "char_code c" and ?n = "char_code d"
  have b: "?m < 256" "?n < 256" by (rule char_code_bound)+
  have "?m div 64 < 64" "?n div 64 < 64" using b by auto
  then have hi: "192 + ?m div 64 < 256" "192 + ?n div 64 < 256" "128 + ?m mod 64 < 256" "128 + ?n mod 64 < 256"
    by (auto intro: order_less_trans [OF add_strict_left_mono [OF mod_less_divisor]])
  have "?m = ?n \<and> x = y"
  proof (cases "?m < 128"; cases "?n < 128")
    assume "\<not> ?m < 128" "\<not> ?n < 128"
    with assms byte_eq [OF hi(1,2)] byte_eq [OF hi(3,4)]
    have "?m div 64 = ?n div 64" "?m mod 64 = ?n mod 64" "x = y" by (simp_all add: utf8_char_def Let_def)
    then show ?thesis by (metis div_mult_mod_eq)
  next
    assume c: "?m < 128" and d: "\<not> ?n < 128"
    from c d assms have "(word_of_nat ?m :: 8 word) = word_of_nat (192 + ?n div 64)"
      by (simp add: utf8_char_def Let_def)
    with byte_eq [OF b(1) hi(2)] c show ?thesis by simp
  next
    assume c: "\<not> ?m < 128" and d: "?n < 128"
    from c d assms have "(word_of_nat (192 + ?m div 64) :: 8 word) = word_of_nat ?n"
      by (simp add: utf8_char_def Let_def)
    with byte_eq [OF hi(1) b(2)] d show ?thesis by simp
  next
    assume "?m < 128" "?n < 128"
    with assms byte_eq [OF b] show ?thesis by (simp add: utf8_char_def Let_def)
  qed
  then show ?thesis by (simp add: char_code_eq)
qed

lemma utf8_char_not_Nil [simp]: "utf8_char c \<noteq> []"
  by (simp add: utf8_char_def Let_def)

lemma utf8_inj: "utf8 s = utf8 t \<longleftrightarrow> s = t"
proof (induction s arbitrary: t)
  case Nil
  then show ?case by (cases t) (auto simp: utf8_def)
next
  case (Cons c s)
  show ?case
  proof (cases t)
    case (Cons d u)
    then show ?thesis
      using Cons.IH [of u] utf8_char_append [of c "utf8 s" d "utf8 u"] by (auto simp: utf8_def)
  qed (simp add: utf8_def)
qed

lemma key_for_Some: "key_for p i = Some k \<Longrightarrow> k \<noteq> []"
  by (simp add: key_for_def option_filter_eq_Some)

text \<open>
  C21: who is let in.  With the Basic Auth profiles exactly a request whose credentials are the
  station's own id and the non-empty key configured for it, and with profile 2 only over TLS; with
  profile 3 exactly a verified client certificate whose common name is the id.  The comparison in
  constant time decides equality.
\<close>

theorem auth_grants_exactly:
  assumes "length (utf8 i) < 2 ^ 64"
    and "\<forall>u w. credentials lib request = Some (u, w) \<longrightarrow> length (utf8 u) < 2 ^ 64 \<and> length (utf8 w) < 2 ^ 64"
    and "\<forall>k. key_for p i = Some k \<longrightarrow> length (utf8 k) < 2 ^ 64"
  shows "auth_check lib p request i peer = Inr () \<longleftrightarrow>
    (case sp_profile p of
       Profile_None \<Rightarrow> True
     | BasicAuth \<Rightarrow> \<exists>key. key_for p i = Some key \<and> key \<noteq> [] \<and> credentials lib request = Some (i, key)
     | BasicAuthTls \<Rightarrow> peer \<noteq> Plain
         \<and> (\<exists>key. key_for p i = Some key \<and> key \<noteq> [] \<and> credentials lib request = Some (i, key))
     | MutualTls \<Rightarrow> peer = Certificate (Some i))"
proof -
  have basic: "check_basic lib p request i = Inr ()
      \<longleftrightarrow> (\<exists>key. key_for p i = Some key \<and> key \<noteq> [] \<and> credentials lib request = Some (i, key))"
  proof (cases "credentials lib request")
    case None
    then show ?thesis by (simp add: check_basic_def)
  next
    case (Some uw)
    obtain u w where uw: "uw = (u, w)" by force
    have "constant_time_eq (utf8 u) (utf8 i) \<longleftrightarrow> u = i"
      using assms Some uw by (simp add: constant_time_eq_iff utf8_inj)
    moreover have "constant_time_eq (utf8 w) (utf8 k) \<longleftrightarrow> w = k" if "key_for p i = Some k" for k
      using assms Some uw that by (simp add: constant_time_eq_iff utf8_inj)
    ultimately show ?thesis
      using Some uw by (cases "key_for p i") (auto simp: check_basic_def Let_def dest: key_for_Some)
  qed
  show ?thesis
    by (cases "sp_profile p") (auto simp: auth_check_def basic split: peer_identity.split)
qed

definition demo_http :: http_lib where
  "demo_http = \<lparr>hl_percent_decode = Some, hl_base64 = Some, hl_header_value = (\<lambda>_. True)\<rparr>"

definition demo_policy :: security_policy where
  "demo_policy = \<lparr>sp_profile = BasicAuthTls, sp_keys = [(''CP-1'', ''k1'')], sp_default_key = None\<rparr>"

definition demo_upgrade :: upgrade_request where
  "demo_upgrade = \<lparr>ur_path = ''/ocpp/CP-1'', ur_authorization = Some ''Basic CP-1:k1'', ur_protocols = [''ocpp1.6'']\<rparr>"

theorem auth_grants_exactly_witness:
  "auth_check demo_http demo_policy demo_upgrade ''CP-1'' NoCertificate = Inr ()
   \<and> auth_check demo_http demo_policy demo_upgrade ''CP-1'' Plain \<noteq> Inr ()"
proof -
  have c: "credentials demo_http demo_upgrade = Some (''CP-1'', ''k1'')" by code_simp
  have k: "key_for demo_policy ''CP-1'' = Some ''k1''" by code_simp
  have p: "sp_profile demo_policy = BasicAuthTls" by code_simp
  have l: "length (utf8 ''CP-1'') = 4" "length (utf8 ''k1'') = 2" by code_simp+
  have b: "length (utf8 ''CP-1'') < 2 ^ 64"
    "\<forall>u w. credentials demo_http demo_upgrade = Some (u, w) \<longrightarrow> length (utf8 u) < 2 ^ 64 \<and> length (utf8 w) < 2 ^ 64"
    "\<forall>k. key_for demo_policy ''CP-1'' = Some k \<longrightarrow> length (utf8 k) < 2 ^ 64"
    by (simp_all add: c k l)
  show ?thesis
    using auth_grants_exactly [OF b, of NoCertificate] auth_grants_exactly [OF b, of Plain] by (simp add: p c k)
qed

text \<open>Transaction ids: fixed, or counting up with the wrap-around of \<open>i32\<close>.\<close>

fun allocate_many :: "nat \<Rightarrow> tx_allocator \<Rightarrow> int list" where
  "allocate_many 0 a = []"
| "allocate_many (Suc n) a = (case allocate a of (i, a') \<Rightarrow> i # allocate_many n a')"

lemma allocate_incrementing:
  "al_policy a = Incrementing i \<Longrightarrow>
   allocate_many n a = map (\<lambda>k. sint (al_next a + word_of_nat k)) [0..<n]"
proof (induction n arbitrary: a)
  case (Suc n)
  let ?a = "a\<lparr>al_next := al_next a + 1\<rparr>"
  have "allocate_many n ?a = map (\<lambda>k. sint (al_next ?a + word_of_nat k)) [0..<n]"
    using Suc by simp
  moreover have "map (\<lambda>k. sint (al_next a + word_of_nat k)) [0..<Suc n]
      = sint (al_next a) # map (\<lambda>k. sint (al_next a + word_of_nat (Suc k))) [0..<n]"
    by (simp add: upt_conv_Cons map_Suc_upt [symmetric] comp_def del: upt_Suc)
  ultimately show ?case using Suc.prems by (simp add: allocate_def algebra_simps)
qed simp

end
