(* ===== verification/Action_Table.thy ===== *)
theory Action_Table
  imports Kirby_Prelude
begin

text \<open>
  The table of OCPP actions with the side that may send them (\<open>ocpp/messages/registry.rs\<close>), shared by the
  station and the central system.
\<close>

datatype action_direction = ChargePointToCentralSystem | CentralSystemToChargePoint | Both_Directions

definition charge_point_may_send :: "action_direction \<Rightarrow> bool" where
  "charge_point_may_send d = (d = ChargePointToCentralSystem \<or> d = Both_Directions)"

definition central_system_may_send :: "action_direction \<Rightarrow> bool" where
  "central_system_may_send d = (d = CentralSystemToChargePoint \<or> d = Both_Directions)"

definition ACTIONS :: "(string \<times> action_direction) list" where
  "ACTIONS =
     [(''Authorize'', ChargePointToCentralSystem), (''BootNotification'', ChargePointToCentralSystem),
      (''CancelReservation'', CentralSystemToChargePoint), (''CertificateSigned'', CentralSystemToChargePoint),
      (''ChangeAvailability'', CentralSystemToChargePoint), (''ChangeConfiguration'', CentralSystemToChargePoint),
      (''ClearCache'', CentralSystemToChargePoint), (''ClearChargingProfile'', CentralSystemToChargePoint),
      (''DataTransfer'', Both_Directions), (''DeleteCertificate'', CentralSystemToChargePoint),
      (''DiagnosticsStatusNotification'', ChargePointToCentralSystem),
      (''ExtendedTriggerMessage'', CentralSystemToChargePoint),
      (''FirmwareStatusNotification'', ChargePointToCentralSystem),
      (''GetCompositeSchedule'', CentralSystemToChargePoint), (''GetConfiguration'', CentralSystemToChargePoint),
      (''GetDiagnostics'', CentralSystemToChargePoint), (''GetInstalledCertificateIds'', CentralSystemToChargePoint),
      (''GetLocalListVersion'', CentralSystemToChargePoint), (''GetLog'', CentralSystemToChargePoint),
      (''Heartbeat'', ChargePointToCentralSystem), (''InstallCertificate'', CentralSystemToChargePoint),
      (''LogStatusNotification'', ChargePointToCentralSystem), (''MeterValues'', ChargePointToCentralSystem),
      (''RemoteStartTransaction'', CentralSystemToChargePoint), (''RemoteStopTransaction'', CentralSystemToChargePoint),
      (''ReserveNow'', CentralSystemToChargePoint), (''Reset'', CentralSystemToChargePoint),
      (''SecurityEventNotification'', ChargePointToCentralSystem), (''SendLocalList'', CentralSystemToChargePoint),
      (''SetChargingProfile'', CentralSystemToChargePoint), (''SignCertificate'', ChargePointToCentralSystem),
      (''SignedFirmwareStatusNotification'', ChargePointToCentralSystem),
      (''SignedUpdateFirmware'', CentralSystemToChargePoint), (''StartTransaction'', ChargePointToCentralSystem),
      (''StatusNotification'', ChargePointToCentralSystem), (''StopTransaction'', ChargePointToCentralSystem),
      (''TriggerMessage'', CentralSystemToChargePoint), (''UnlockConnector'', CentralSystemToChargePoint),
      (''UpdateFirmware'', CentralSystemToChargePoint)]"

definition find_action :: "string \<Rightarrow> (string \<times> action_direction) option" where
  "find_action name = find (\<lambda>a. fst a = name) ACTIONS"

end
