(* ===== verification/Csms_Server.thy ===== *)
theory Csms_Server
  imports Csms_State_Laws Csms_Auth Action_Table
begin

text \<open>
  The registry of the central system (\<open>kirby-csms-core/src/server.rs\<close>, the part behind the lock):
  stations with their history and counters, the answer to a CALL (\<open>decide\<close> with \<open>fault.rs\<close> and
  \<open>defaults.rs\<close>), registration, the end of a session, forgetting and shutdown.  What is sent to the
  task of a session is logged in \<open>sv_mail\<close>, what is broadcast in \<open>sv_events\<close>.  Schemas, serde, JSON text and time formats are the environment.
\<close>

subsection \<open>Actions\<close>

definition CHARGE_POINT_ACTIONS :: "string list" where
  "CHARGE_POINT_ACTIONS =
     [''Authorize'', ''BootNotification'', ''DataTransfer'', ''DiagnosticsStatusNotification'',
      ''FirmwareStatusNotification'', ''Heartbeat'', ''LogStatusNotification'', ''MeterValues'',
      ''SecurityEventNotification'', ''SignCertificate'', ''SignedFirmwareStatusNotification'',
      ''StartTransaction'', ''StatusNotification'', ''StopTransaction'']"

definition is_charge_point_action :: "string \<Rightarrow> bool" where
  "is_charge_point_action action = (action \<in> set CHARGE_POINT_ACTIONS)"

subsection \<open>Replies and faults\<close>

datatype csms_reply = Reply_Result json | Reply_Error error_code string | Silence | Close_Reply

record csms_fault =
  ft_action :: string
  ft_reply :: csms_reply
  ft_remaining :: nat

definition fault_reply :: "string \<Rightarrow> csms_reply \<Rightarrow> csms_fault" where
  "fault_reply action r = \<lparr>ft_action = action, ft_reply = r, ft_remaining = 1\<rparr>"

definition fault_call_error :: "string \<Rightarrow> csms_fault" where
  "fault_call_error action = fault_reply action (Reply_Error Err_InternalError ''injected CALLERROR'')"

definition fault_silence :: "string \<Rightarrow> csms_fault" where
  "fault_silence action = fault_reply action Silence"

definition fault_close :: "string \<Rightarrow> csms_fault" where
  "fault_close action = fault_reply action Close_Reply"

definition fault_invalid_payload :: "string \<Rightarrow> json \<Rightarrow> csms_fault" where
  "fault_invalid_payload action payload = fault_reply action (Reply_Result payload)"

definition fault_times :: "nat \<Rightarrow> csms_fault \<Rightarrow> csms_fault" where
  "fault_times n f = f\<lparr>ft_remaining := n\<rparr>"

subsection \<open>Default answers\<close>

definition json_i32 :: "i32 \<Rightarrow> json" where
  "json_i32 i = JNumber (if 0 \<le> i then PosInt (nat i) else NegInt i)"

definition expired_stamp :: "(instant \<Rightarrow> string) \<Rightarrow> instant \<Rightarrow> string" where
  "expired_stamp fmt now = fmt (now - 60 * ns_per_s)"

definition status_object :: "string \<Rightarrow> (string \<times> json) list \<Rightarrow> json" where
  "status_object status entries = JObject ((''status'', JString status) # entries)"

definition authorize_info :: "(instant \<Rightarrow> string) \<Rightarrow> string \<Rightarrow> instant \<Rightarrow> json" where
  "authorize_info fmt tag now =
     (if tag = ''BADTAG'' then status_object ''Blocked'' []
      else if tag = ''EXPIREDAUTH''
      then status_object ''Accepted'' [(''expiryDate'', JString (expired_stamp fmt now))]
      else if tag = ''PARENTAUTH'' then status_object ''Accepted'' [(''parentIdTag'', JString ''PARENTTAG'')]
      else if tag = ''CONCURRENTAUTH'' then status_object ''ConcurrentTx'' []
      else status_object ''Accepted'' [])"

definition start_info :: "(instant \<Rightarrow> string) \<Rightarrow> string \<Rightarrow> instant \<Rightarrow> json" where
  "start_info fmt tag now =
     (if tag = ''BLOCKSTART'' then status_object ''Blocked'' []
      else if tag = ''EXPIREDSTART''
      then status_object ''Accepted'' [(''expiryDate'', JString (expired_stamp fmt now))]
      else if tag = ''CONCURRENTSTART'' then status_object ''ConcurrentTx'' []
      else status_object ''Accepted'' [])"

definition json_get :: "json \<Rightarrow> string \<Rightarrow> json option" where
  "json_get v k = Option.bind (as_object v) (\<lambda>m. map_of m k)"

definition default_reply ::
  "(instant \<Rightarrow> string) \<Rightarrow> instant \<Rightarrow> string \<Rightarrow> json \<Rightarrow> u32 \<Rightarrow> i32 option \<Rightarrow> csms_reply" where
  "default_reply fmt now action payload heartbeat_interval transaction_id =
     (let tag = unwrap_or (Option.bind (json_get payload ''idTag'') as_str) [] in
      Reply_Result
        (if action = ''BootNotification''
         then JObject [(''status'', JString ''Accepted''), (''currentTime'', JString (fmt now)),
                       (''interval'', JNumber (PosInt heartbeat_interval))]
         else if action = ''Heartbeat'' then JObject [(''currentTime'', JString (fmt now))]
         else if action = ''Authorize'' then JObject [(''idTagInfo'', authorize_info fmt tag now)]
         else if action = ''StartTransaction''
         then JObject [(''transactionId'', json_i32 (unwrap_or transaction_id 0)),
                       (''idTagInfo'', start_info fmt tag now)]
         else if action = ''DataTransfer''
         then JObject [(''status'', JString ''Accepted''), (''data'', JString ''pong'')]
         else if action = ''SignCertificate'' then JObject [(''status'', JString ''Accepted'')]
         else JObject []))"

subsection \<open>The registry\<close>

definition MAX_ACTION_KEYS :: nat where "MAX_ACTION_KEYS = 64"
definition MAX_ACTION_KEY_CHARS :: nat where "MAX_ACTION_KEY_CHARS = 64"
definition OTHER_ACTION :: string where "OTHER_ACTION = ''other''"
definition MALFORMED_TEXT_CHARS :: nat where "MALFORMED_TEXT_CHARS = 512"
definition MAX_ERROR_DESCRIPTION :: nat where "MAX_ERROR_DESCRIPTION = 255"

definition truncate_chars :: "string \<Rightarrow> nat \<Rightarrow> string" where
  "truncate_chars text mx = take mx text"

definition sanitize_action :: "string \<Rightarrow> string" where
  "sanitize_action action =
     map (\<lambda>c. if is_control c then CHR ''?'' else c) (truncate_chars action MAX_ACTION_KEY_CHARS)"

datatype disconnect_reason = Dis_Closed | Replaced | Shutdown | Injected | Forgotten | PingTimeout

datatype csms_event =
  Cs_Connected string
| Cs_Disconnected string disconnect_reason
| Cs_Frame string bool frame
| Cs_Malformed string string
| Cs_Forgotten string
| Cs_StateChanged string
| Cs_AuthFailed "string option" string

record queued_call =
  qc_action :: string
  qc_payload :: json
  qc_timeout :: duration
  qc_reply :: nat

datatype session_cmd = Cmd_Call queued_call | Cmd_Close nat string

record station_info =
  in_id :: string
  in_connected :: bool
  in_connected_at :: "instant option"
  in_disconnected_at :: "instant option"
  in_remote_addr :: "string option"
  in_subprotocol :: "string option"
  in_received_calls :: u64
  in_received_by_action :: "(string, u64) btree"

record history_item =
  hi_ts :: instant
  hi_out :: bool
  hi_frame :: frame
  hi_bytes :: nat

record station_rec =
  rc_info :: station_info
  rc_history :: "history_item list"
  rc_history_bytes :: nat
  rc_state :: station_state
  rc_session :: "u64 option"

record csms_config =
  cc_heartbeat_interval :: u32
  cc_transaction_ids :: transaction_ids
  cc_call_timeout :: duration
  cc_history_cap :: nat
  cc_history_bytes_cap :: nat
  cc_transaction_history_cap :: nat
  cc_max_stations :: nat
  cc_show_secrets :: bool
  cc_validate_inbound :: bool
  cc_ping_interval :: duration
  cc_pong_timeout :: duration

record csms_env =
  ce_serde :: serde
  ce_iso :: "instant \<Rightarrow> string"
  ce_parse :: "string \<Rightarrow> string + json"
  ce_print :: "json \<Rightarrow> string"
  ce_knows :: "string \<Rightarrow> bool"
  ce_request :: "string \<Rightarrow> json \<Rightarrow> (error_code \<times> string list) option"
  ce_listening :: bool

record csms_server =
  sv_stations :: "(string, station_rec) btree"
  sv_faults :: "csms_fault list"
  sv_responders :: "(string, json \<Rightarrow> csms_reply) btree"
  sv_tx_ids :: tx_allocator
  sv_next_session :: u64
  sv_next_message :: u64
  sv_shutdown :: bool
  sv_events :: "csms_event list"
  sv_mail :: "(u64 \<times> session_cmd) list"

definition default_csms_config :: csms_config where
  "default_csms_config =
     \<lparr>cc_heartbeat_interval = 300, cc_transaction_ids = Fixed 123, cc_call_timeout = 30 * nat ns_per_s,
      cc_history_cap = 1000, cc_history_bytes_cap = 8 * 1024 * 1024, cc_transaction_history_cap = 100,
      cc_max_stations = 100000, cc_show_secrets = False, cc_validate_inbound = True,
      cc_ping_interval = 30 * nat ns_per_s, cc_pong_timeout = 10 * nat ns_per_s\<rparr>"

definition new_server :: "csms_config \<Rightarrow> csms_server" where
  "new_server cfg =
     \<lparr>sv_stations = [], sv_faults = [], sv_responders = [], sv_tx_ids = allocator (cc_transaction_ids cfg),
      sv_next_session = 0, sv_next_message = 0, sv_shutdown = False, sv_events = [], sv_mail = []\<rparr>"

definition cs_emit :: "csms_event \<Rightarrow> csms_server \<Rightarrow> csms_server" where
  "cs_emit e sv = sv\<lparr>sv_events := sv_events sv @ [e]\<rparr>"

definition cs_mail :: "u64 \<Rightarrow> session_cmd \<Rightarrow> csms_server \<Rightarrow> csms_server" where
  "cs_mail session cmd sv = sv\<lparr>sv_mail := sv_mail sv @ [(session, cmd)]\<rparr>"

definition put_station :: "string \<Rightarrow> station_rec \<Rightarrow> csms_server \<Rightarrow> csms_server" where
  "put_station i rec sv = sv\<lparr>sv_stations := bt_insert i rec (sv_stations sv)\<rparr>"

definition station_limit_reached :: "csms_config \<Rightarrow> csms_server \<Rightarrow> string \<Rightarrow> bool" where
  "station_limit_reached cfg sv i =
     (length (sv_stations sv) \<ge> cc_max_stations cfg \<and> \<not> bt_contains (sv_stations sv) i)"

definition next_message_id :: "csms_server \<Rightarrow> string \<times> csms_server" where
  "next_message_id sv =
     (''csms-'' @ show_nat (sv_next_message sv + 1), sv\<lparr>sv_next_message := sv_next_message sv + 1\<rparr>)"

subsection \<open>Registration\<close>

definition fresh_rec :: "string \<Rightarrow> station_rec" where
  "fresh_rec i =
     \<lparr>rc_info = \<lparr>in_id = i, in_connected = False, in_connected_at = None, in_disconnected_at = None,
        in_remote_addr = None, in_subprotocol = None, in_received_calls = 0, in_received_by_action = []\<rparr>,
      rc_history = [], rc_history_bytes = 0, rc_state = default_state, rc_session = None\<rparr>"

datatype register_error = Err_Shutdown | TooManyStations

definition cs_register ::
  "csms_config \<Rightarrow> instant \<Rightarrow> string \<Rightarrow> string \<Rightarrow> string option \<Rightarrow> csms_server \<Rightarrow> (register_error + u64) \<times> csms_server" where
  "cs_register cfg now i peer subprotocol sv =
     (if sv_shutdown sv then (Inl Err_Shutdown, sv)
      else if station_limit_reached cfg sv i then (Inl TooManyStations, sv)
      else
        let session = sv_next_session sv + 1;
            sv1 = sv\<lparr>sv_next_session := session\<rparr>;
            rec = unwrap_or (bt_get (sv_stations sv) i) (fresh_rec i);
            sv2 = (case rc_session rec of
                     None \<Rightarrow> sv1
                   | Some old \<Rightarrow>
                       cs_emit (Cs_Disconnected i Replaced)
                         (cs_mail old (Cmd_Close 1000 ''replaced by a new connection'') sv1));
            info = (rc_info rec)\<lparr>in_connected := True, in_connected_at := Some now,
                     in_disconnected_at := None, in_remote_addr := Some peer, in_subprotocol := subprotocol\<rparr>
        in (Inr session,
            cs_emit (Cs_Connected i)
              (put_station i (rec\<lparr>rc_session := Some session, rc_info := info\<rparr>) sv2)))"

definition disconnected_rec :: "instant \<Rightarrow> station_rec \<Rightarrow> station_rec" where
  "disconnected_rec now rec =
     rec\<lparr>rc_session := None,
         rc_info := (rc_info rec)\<lparr>in_connected := False, in_disconnected_at := Some now\<rparr>\<rparr>"

definition session_ended :: "instant \<Rightarrow> string \<Rightarrow> u64 \<Rightarrow> disconnect_reason \<Rightarrow> csms_server \<Rightarrow> csms_server" where
  "session_ended now i session reason sv =
     (case bt_get (sv_stations sv) i of
        None \<Rightarrow> sv
      | Some rec \<Rightarrow>
          if rc_session rec \<noteq> Some session then sv
          else cs_emit (Cs_Disconnected i reason) (put_station i (disconnected_rec now rec) sv))"

definition cs_forget :: "string \<Rightarrow> csms_server \<Rightarrow> bool \<times> csms_server" where
  "cs_forget i sv =
     (case bt_get (sv_stations sv) i of
        None \<Rightarrow> (False, sv)
      | Some rec \<Rightarrow>
          let sv1 = sv\<lparr>sv_stations := bt_remove i (sv_stations sv)\<rparr>;
              sv2 = (case rc_session rec of
                       None \<Rightarrow> sv1
                     | Some session \<Rightarrow>
                         cs_emit (Cs_Disconnected i Forgotten)
                           (cs_mail session (Cmd_Close 1000 ''station forgotten'') sv1))
          in (True, cs_emit (Cs_Forgotten i) sv2))"

text \<open>\<open>shutdown\<close>: the flag, and, once the tasks ended, the sessions that could not report their end.\<close>

definition shutdown_rec :: "instant \<Rightarrow> csms_server \<Rightarrow> string \<times> station_rec \<Rightarrow> csms_server" where
  "shutdown_rec now sv e =
     (case e of (i, rec) \<Rightarrow>
        if rc_session rec = None then sv
        else cs_emit (Cs_Disconnected i Shutdown) (put_station i (disconnected_rec now rec) sv))"

definition cs_shutdown :: "instant \<Rightarrow> csms_server \<Rightarrow> csms_server" where
  "cs_shutdown now sv = foldl (shutdown_rec now) (sv\<lparr>sv_shutdown := True\<rparr>) (sv_stations sv)"

subsection \<open>Recording\<close>

definition count_action :: "string \<Rightarrow> station_info \<Rightarrow> station_info" where
  "count_action action info =
     (let by = in_received_by_action info;
          short = length (take (MAX_ACTION_KEY_CHARS + 1) action) \<le> MAX_ACTION_KEY_CHARS;
          key = (if short \<and> (bt_contains by action \<or> length by < MAX_ACTION_KEYS) then action else OTHER_ACTION)
      in info\<lparr>in_received_calls := in_received_calls info + 1,
              in_received_by_action := bt_insert key (unwrap_or (bt_get by key) 0 + 1) by\<rparr>)"

definition truncated_frame :: "frame \<Rightarrow> nat \<Rightarrow> frame" where
  "truncated_frame f original_bytes =
     (let marker = JObject [(''truncated'', JBool True), (''originalBytes'', JNumber (PosInt original_bytes))] in
      case f of
        Frame_Call i action _ \<Rightarrow> Frame_Call i action marker
      | Frame_Result i _ \<Rightarrow> Frame_Result i marker
      | Frame_Error i code description _ \<Rightarrow> Frame_Error i code (truncate_chars description 128) marker)"

definition frame_bytes :: "csms_env \<Rightarrow> frame \<Rightarrow> nat" where
  "frame_bytes env f = length (utf8 (ce_print env (to_value f)))"

text \<open>The eviction loop: the history and its size in bytes.\<close>

fun evict_history :: "nat \<Rightarrow> nat \<Rightarrow> nat \<Rightarrow> history_item list \<Rightarrow> nat \<Rightarrow> history_item list \<times> nat" where
  "evict_history cap bytes_cap bytes [] used = ([], used)"
| "evict_history cap bytes_cap bytes (old # items) used =
     (if length (old # items) \<ge> cap \<or> used + bytes > bytes_cap
      then evict_history cap bytes_cap bytes items (used - hi_bytes old)
      else (old # items, used))"

definition add_history :: "csms_config \<Rightarrow> csms_env \<Rightarrow> instant \<Rightarrow> bool \<Rightarrow> frame \<Rightarrow> station_rec \<Rightarrow> station_rec" where
  "add_history cfg env now out f rec =
     (let bytes_cap = cc_history_bytes_cap cfg;
          (stored, bytes) =
            (if frame_bytes env f > bytes_cap
             then let t = truncated_frame f (frame_bytes env f) in (t, frame_bytes env t)
             else (f, frame_bytes env f));
          (items, used) = evict_history (cc_history_cap cfg) bytes_cap bytes (rc_history rec) (rc_history_bytes rec)
      in if used + bytes \<le> bytes_cap
         then rec\<lparr>rc_history := items @ [\<lparr>hi_ts = now, hi_out = out, hi_frame = stored, hi_bytes = bytes\<rparr>],
                  rc_history_bytes := used + bytes\<rparr>
         else rec\<lparr>rc_history := items, rc_history_bytes := used\<rparr>)"

definition record_frame ::
  "csms_config \<Rightarrow> csms_env \<Rightarrow> instant \<Rightarrow> string \<Rightarrow> u64 \<Rightarrow> bool \<Rightarrow> frame \<Rightarrow> csms_server \<Rightarrow> csms_server" where
  "record_frame cfg env now i session out f sv =
     (case bt_get (sv_stations sv) i of
        None \<Rightarrow> sv
      | Some rec \<Rightarrow>
          if rc_session rec \<noteq> Some session then sv
          else
            let rec1 = (case (out, f) of
                          (False, Frame_Call _ action _) \<Rightarrow> rec\<lparr>rc_info := count_action action (rc_info rec)\<rparr>
                        | _ \<Rightarrow> rec);
                g = (if cc_show_secrets cfg then f else redact_secrets f);
                rec2 = (if cc_history_cap cfg > 0 then add_history cfg env now out g rec1 else rec1);
                sv1 = put_station i rec2 sv
            in if ce_listening env then cs_emit (Cs_Frame i out g) sv1 else sv1)"

definition cs_track ::
  "csms_config \<Rightarrow> csms_env \<Rightarrow> instant \<Rightarrow> string \<Rightarrow> u64 \<Rightarrow> string \<Rightarrow> json \<Rightarrow> csms_reply \<Rightarrow> csms_server \<Rightarrow> csms_server" where
  "cs_track cfg env now i session action request r sv =
     (case r of
        Reply_Result response \<Rightarrow>
          (case bt_get (sv_stations sv) i of
             None \<Rightarrow> sv
           | Some rec \<Rightarrow>
               if rc_session rec \<noteq> Some session then sv
               else (case state_apply (ce_serde env) action request response now
                            (cc_transaction_history_cap cfg) (rc_state rec) of
                       (st, announce) \<Rightarrow>
                         let sv1 = put_station i (rec\<lparr>rc_state := st\<rparr>) sv
                         in if announce then cs_emit (Cs_StateChanged i) sv1 else sv1))
      | _ \<Rightarrow> sv)"

definition note_failed_call :: "string \<Rightarrow> csms_server \<Rightarrow> csms_server" where
  "note_failed_call i sv =
     (case bt_get (sv_stations sv) i of
        None \<Rightarrow> sv
      | Some rec \<Rightarrow> cs_emit (Cs_StateChanged i) (put_station i (rec\<lparr>rc_state := note_failed (rc_state rec)\<rparr>) sv))"

definition track_result :: "csms_env \<Rightarrow> instant \<Rightarrow> string \<Rightarrow> string \<Rightarrow> json \<Rightarrow> json \<Rightarrow> csms_server \<Rightarrow> csms_server" where
  "track_result env now i action request response sv =
     (case bt_get (sv_stations sv) i of
        None \<Rightarrow> sv
      | Some rec \<Rightarrow>
          (case state_apply_result (ce_serde env) action request response now (rc_state rec) of
             (st, announce) \<Rightarrow>
               let sv1 = put_station i (rec\<lparr>rc_state := st\<rparr>) sv
               in if announce then cs_emit (Cs_StateChanged i) sv1 else sv1))"

subsection \<open>The answer to a CALL\<close>

definition triggers :: "string \<Rightarrow> csms_fault \<Rightarrow> bool" where
  "triggers action f = (ft_action f = action \<and> ft_remaining f > 0)"

definition use_fault :: "string \<Rightarrow> csms_fault list \<Rightarrow> (csms_reply \<times> csms_fault list) option" where
  "use_fault action faults =
     map_option (\<lambda>f. (ft_reply f,
         filter (\<lambda>f. ft_remaining f > 0)
           (update_first (triggers action) (\<lambda>f. f\<lparr>ft_remaining := ft_remaining f - 1\<rparr>) faults)))
       (find (triggers action) faults)"

definition unsupported_reply :: "string \<Rightarrow> csms_reply" where
  "unsupported_reply action =
     (if find_action action \<noteq> None
      then Reply_Error Err_NotSupported (''action '' @ sanitize_action action @ '' is not supported'')
      else Reply_Error NotImplemented (''action '' @ sanitize_action action @ '' is not implemented''))"

definition invalid_inbound :: "csms_config \<Rightarrow> csms_env \<Rightarrow> string \<Rightarrow> json \<Rightarrow> csms_reply option" where
  "invalid_inbound cfg env action payload =
     (if cc_validate_inbound cfg \<and> ce_knows env action
      then map_option (\<lambda>(code, errors). Reply_Error code (truncate_chars (join ''; '' errors) MAX_ERROR_DESCRIPTION))
             (ce_request env action payload)
      else None)"

definition decide ::
  "csms_config \<Rightarrow> csms_env \<Rightarrow> instant \<Rightarrow> string \<Rightarrow> json \<Rightarrow> csms_server \<Rightarrow> csms_reply \<times> csms_server" where
  "decide cfg env now action payload sv =
     (case use_fault action (sv_faults sv) of
        Some (r, faults) \<Rightarrow> (r, sv\<lparr>sv_faults := faults\<rparr>)
      | None \<Rightarrow>
          (case invalid_inbound cfg env action payload of
             Some r \<Rightarrow> (r, sv)
           | None \<Rightarrow>
               (case bt_get (sv_responders sv) action of
                  Some responder \<Rightarrow> (responder payload, sv)
                | None \<Rightarrow>
                    if \<not> is_charge_point_action action then (unsupported_reply action, sv)
                    else if action = ''StartTransaction''
                    then (case allocate (sv_tx_ids sv) of
                            (tx, ids) \<Rightarrow> (default_reply (ce_iso env) now action payload
                                            (cc_heartbeat_interval cfg) (Some tx), sv\<lparr>sv_tx_ids := ids\<rparr>))
                    else (default_reply (ce_iso env) now action payload (cc_heartbeat_interval cfg) None, sv))))"

subsection \<open>The handle\<close>

definition cs_respond :: "string \<Rightarrow> (json \<Rightarrow> csms_reply) \<Rightarrow> csms_server \<Rightarrow> csms_server" where
  "cs_respond action f sv = sv\<lparr>sv_responders := bt_insert action f (sv_responders sv)\<rparr>"

definition clear_responder :: "string \<Rightarrow> csms_server \<Rightarrow> csms_server" where
  "clear_responder action sv = sv\<lparr>sv_responders := bt_remove action (sv_responders sv)\<rparr>"

definition responder_actions :: "csms_server \<Rightarrow> string list" where
  "responder_actions sv = map fst (sv_responders sv)"

definition cs_inject :: "csms_fault \<Rightarrow> csms_server \<Rightarrow> csms_server" where
  "cs_inject f sv = (if ft_remaining f > 0 then sv\<lparr>sv_faults := sv_faults sv @ [f]\<rparr> else sv)"

definition faults_remaining :: "csms_server \<Rightarrow> nat" where
  "faults_remaining sv = sum_list (map ft_remaining (sv_faults sv))"

definition clear_faults :: "csms_server \<Rightarrow> csms_server" where
  "clear_faults sv = sv\<lparr>sv_faults := []\<rparr>"

definition cs_stations :: "csms_server \<Rightarrow> station_info list" where
  "cs_stations sv = map (rc_info \<circ> snd) (sv_stations sv)"

definition cs_station :: "csms_server \<Rightarrow> string \<Rightarrow> station_info option" where
  "cs_station sv i = map_option rc_info (bt_get (sv_stations sv) i)"

definition cs_history :: "csms_server \<Rightarrow> string \<Rightarrow> history_item list option" where
  "cs_history sv i = map_option rc_history (bt_get (sv_stations sv) i)"

definition cs_state :: "csms_server \<Rightarrow> string \<Rightarrow> station_state option" where
  "cs_state sv i = map_option rc_state (bt_get (sv_stations sv) i)"

end
