(* ===== verification/Csms_Server_Laws.thy ===== *)
theory Csms_Server_Laws
  imports Csms_Server
begin

text \<open>
  The invariants of the registry over any sequence of operations: bounded records, exact counters,
  sessions that are unique and never come back, and connection events that tell the truth.
\<close>

subsection \<open>Connection events\<close>

fun link_event :: "string \<Rightarrow> csms_event \<Rightarrow> bool option" where
  "link_event i (Cs_Connected j) = (if i = j then Some True else None)"
| "link_event i (Cs_Disconnected j _) = (if i = j then Some False else None)"
| "link_event i _ = None"

definition link_events :: "string \<Rightarrow> csms_event list \<Rightarrow> bool list" where
  "link_events i es = List.map_filter (link_event i) es"

text \<open>The state of a link after its events, \<open>None\<close> if an event repeats the state it announces.\<close>

fun link_after :: "bool \<Rightarrow> bool list \<Rightarrow> bool option" where
  "link_after b [] = Some b"
| "link_after b (x # xs) = (if x = b then None else link_after x xs)"

lemma link_after_append: "link_after b (xs @ ys) = Option.bind (link_after b xs) (\<lambda>c. link_after c ys)"
  by (induction xs arbitrary: b) auto

lemma link_events_append [simp]: "link_events i (es @ [e]) =
    link_events i es @ (case link_event i e of None \<Rightarrow> [] | Some b \<Rightarrow> [b])"
  by (simp add: link_events_def List.map_filter_def split: option.split)

definition linked :: "csms_server \<Rightarrow> string \<Rightarrow> bool" where
  "linked sv i = (\<exists>rec. bt_get (sv_stations sv) i = Some rec \<and> rc_session rec \<noteq> None)"

definition events_ok :: "csms_server \<Rightarrow> bool" where
  "events_ok sv = (\<forall>i. link_after False (link_events i (sv_events sv)) = Some (linked sv i))"

text \<open>\<open>b\<close> is the state the next event of station \<open>i\<close> starts from while an operation runs.\<close>

definition link_is :: "csms_server \<Rightarrow> string \<Rightarrow> bool \<Rightarrow> bool" where
  "link_is sv i b = (link_after False (link_events i (sv_events sv)) = Some b)"

lemma emit_fields_cs [simp]:
  "sv_stations (cs_emit e sv) = sv_stations sv" "sv_next_session (cs_emit e sv) = sv_next_session sv"
  "sv_shutdown (cs_emit e sv) = sv_shutdown sv" "sv_faults (cs_emit e sv) = sv_faults sv"
  "sv_events (cs_emit e sv) = sv_events sv @ [e]" "sv_mail (cs_emit e sv) = sv_mail sv"
  "sv_stations (cs_mail n c sv) = sv_stations sv" "sv_next_session (cs_mail n c sv) = sv_next_session sv"
  "sv_shutdown (cs_mail n c sv) = sv_shutdown sv" "sv_faults (cs_mail n c sv) = sv_faults sv"
  "sv_events (cs_mail n c sv) = sv_events sv"
  "sv_stations (put_station i rec sv) = bt_insert i rec (sv_stations sv)"
  "sv_next_session (put_station i rec sv) = sv_next_session sv"
  "sv_shutdown (put_station i rec sv) = sv_shutdown sv" "sv_faults (put_station i rec sv) = sv_faults sv"
  "sv_events (put_station i rec sv) = sv_events sv" "sv_mail (put_station i rec sv) = sv_mail sv"
  by (simp_all add: cs_emit_def cs_mail_def put_station_def)

lemma linked_put: "linked (put_station i rec sv) j = (if j = i then rc_session rec \<noteq> None else linked sv j)"
  by (simp add: linked_def bt_get_insert)

lemma linked_emit [simp]: "linked (cs_emit e sv) i = linked sv i" "linked (cs_mail n c sv) i = linked sv i"
  by (simp_all add: linked_def)

subsection \<open>Records\<close>

definition counters_ok :: "station_info \<Rightarrow> bool" where
  "counters_ok info =
     (bt_wf (in_received_by_action info)
      \<and> in_received_calls info = sum_list (map snd (in_received_by_action info))
      \<and> (length (in_received_by_action info) \<le> 64
         \<or> length (in_received_by_action info) = 65 \<and> bt_contains (in_received_by_action info) ''other'')
      \<and> (\<forall>k\<in>fst ` set (in_received_by_action info). length k \<le> 64))"

definition history_ok :: "csms_config \<Rightarrow> station_rec \<Rightarrow> bool" where
  "history_ok cfg rec =
     (length (rc_history rec) \<le> cc_history_cap cfg
      \<and> rc_history_bytes rec = sum_list (map hi_bytes (rc_history rec))
      \<and> rc_history_bytes rec \<le> cc_history_bytes_cap cfg)"

definition rec_ok :: "csms_config \<Rightarrow> string \<Rightarrow> station_rec \<Rightarrow> bool" where
  "rec_ok cfg i rec =
     (in_id (rc_info rec) = i
      \<and> (in_connected (rc_info rec) \<longleftrightarrow> rc_session rec \<noteq> None)
      \<and> (rc_session rec \<noteq> None \<longrightarrow> in_connected_at (rc_info rec) \<noteq> None \<and> in_disconnected_at (rc_info rec) = None)
      \<and> counters_ok (rc_info rec) \<and> history_ok cfg rec
      \<and> state_bounded (cc_transaction_history_cap cfg) (rc_state rec))"

definition server_ok :: "csms_config \<Rightarrow> csms_server \<Rightarrow> bool" where
  "server_ok cfg sv =
     (bt_wf (sv_stations sv) \<and> length (sv_stations sv) \<le> cc_max_stations cfg
      \<and> (\<forall>i rec. bt_get (sv_stations sv) i = Some rec \<longrightarrow>
            rec_ok cfg i rec \<and> is_none_or (rc_session rec) (\<lambda>n. n \<le> sv_next_session sv))
      \<and> (\<forall>i j ri rj n. bt_get (sv_stations sv) i = Some ri \<longrightarrow> bt_get (sv_stations sv) j = Some rj \<longrightarrow>
            rc_session ri = Some n \<longrightarrow> rc_session rj = Some n \<longrightarrow> i = j)
      \<and> (\<forall>f\<in>set (sv_faults sv). 0 < ft_remaining f))"

lemma server_okD:
  assumes "server_ok cfg sv" "bt_get (sv_stations sv) i = Some rec"
  shows "rec_ok cfg i rec" "rc_session rec = Some n \<Longrightarrow> n \<le> sv_next_session sv"
  using assms by (auto simp: server_ok_def is_none_or_iff)

lemma fresh_rec_ok: "rec_ok cfg i (fresh_rec i)"
  by (simp add: rec_ok_def fresh_rec_def counters_ok_def history_ok_def default_bounded)

text \<open>Replacing the record of a known station, with its session kept or dropped.\<close>

lemma server_ok_put:
  assumes ok: "server_ok cfg sv" and old: "bt_get (sv_stations sv) i = Some rec"
    and new: "rec_ok cfg i rec'" and s: "rc_session rec' = rc_session rec \<or> rc_session rec' = None"
  shows "server_ok cfg (put_station i rec' sv)"
proof -
  have "length (bt_insert i rec' (sv_stations sv)) = length (sv_stations sv)"
    using ok old by (simp add: length_bt_insert server_ok_def bt_contains_def)
  moreover have "is_none_or (rc_session rec') (\<lambda>n. n \<le> sv_next_session sv)"
    using server_okD(2) [OF ok old] s by (auto simp: is_none_or_iff)
  moreover have "rc_session rec' = Some n \<Longrightarrow> rc_session rec = Some n" for n using s by auto
  ultimately show ?thesis
    using ok new old unfolding server_ok_def
    by (simp add: bt_get_insert bt_wf_insert) blast
qed

lemma server_ok_frame [simp]:
  "server_ok cfg (cs_emit e sv) = server_ok cfg sv" "server_ok cfg (cs_mail n c sv) = server_ok cfg sv"
  "server_ok cfg (sv\<lparr>sv_shutdown := b\<rparr>) = server_ok cfg sv"
  "server_ok cfg (sv\<lparr>sv_responders := m\<rparr>) = server_ok cfg sv"
  "server_ok cfg (sv\<lparr>sv_tx_ids := a\<rparr>) = server_ok cfg sv"
  "server_ok cfg (sv\<lparr>sv_next_message := k\<rparr>) = server_ok cfg sv"
  by (simp_all add: server_ok_def)

text \<open>An event that is no connection event.\<close>

lemma events_ok_emit: "(\<And>i. link_event i e = None) \<Longrightarrow> events_ok sv \<Longrightarrow> events_ok (cs_emit e sv)"
  by (simp add: events_ok_def linked_def)

lemma events_ok_put:
  "events_ok sv \<Longrightarrow> bt_get (sv_stations sv) i = Some rec \<Longrightarrow> rc_session rec' = rc_session rec \<Longrightarrow>
   events_ok (put_station i rec' sv)"
  by (auto simp: events_ok_def linked_put) (auto simp: linked_def)

lemma events_ok_fields [simp]:
  "events_ok (sv\<lparr>sv_shutdown := b\<rparr>) = events_ok sv" "events_ok (sv\<lparr>sv_responders := m\<rparr>) = events_ok sv"
  "events_ok (sv\<lparr>sv_tx_ids := a\<rparr>) = events_ok sv" "events_ok (sv\<lparr>sv_next_message := k\<rparr>) = events_ok sv"
  "events_ok (sv\<lparr>sv_faults := fs\<rparr>) = events_ok sv" "events_ok (cs_mail n c sv) = events_ok sv"
  "events_ok (sv\<lparr>sv_next_session := q\<rparr>) = events_ok sv"
  by (simp_all add: events_ok_def linked_def)

definition good :: "csms_config \<Rightarrow> csms_server \<Rightarrow> bool" where
  "good cfg sv = (server_ok cfg sv \<and> events_ok sv)"

lemma good_put:
  "good cfg sv \<Longrightarrow> bt_get (sv_stations sv) i = Some rec \<Longrightarrow> rec_ok cfg i rec' \<Longrightarrow>
   rc_session rec' = rc_session rec \<Longrightarrow> good cfg (put_station i rec' sv)"
  by (auto simp: good_def intro: server_ok_put events_ok_put)

lemma good_emit: "(\<And>i. link_event i e = None) \<Longrightarrow> good cfg sv \<Longrightarrow> good cfg (cs_emit e sv)"
  by (simp add: good_def events_ok_emit)

text \<open>The end of a link.\<close>

lemma disconnected_ok: "rec_ok cfg i rec \<Longrightarrow> rec_ok cfg i (disconnected_rec now rec)"
  by (simp add: rec_ok_def disconnected_rec_def counters_ok_def history_ok_def)

lemma good_disconnect:
  assumes "good cfg sv" "bt_get (sv_stations sv) i = Some rec" "rc_session rec \<noteq> None"
  shows "good cfg (cs_emit (Cs_Disconnected i why) (put_station i (disconnected_rec now rec) sv))"
proof -
  have "rc_session (disconnected_rec now rec) = None" by (simp add: disconnected_rec_def)
  moreover have "linked sv i" using assms by (auto simp: linked_def)
  ultimately show ?thesis
    using assms server_okD(1) [of cfg sv i rec]
    by (auto simp: good_def events_ok_def linked_put link_after_append intro!: server_ok_put disconnected_ok)
qed

lemma session_ended_good: "good cfg sv \<Longrightarrow> good cfg (session_ended now i n why sv)"
  by (auto simp: session_ended_def split: option.split intro: good_disconnect)


lemma shutdown_good:
  "good cfg sv \<Longrightarrow> (\<forall>e\<in>set es. bt_get (sv_stations sv) (fst e) = Some (snd e)) \<Longrightarrow> distinct (map fst es) \<Longrightarrow>
   good cfg (foldl (shutdown_rec now) sv es)"
proof (induction es arbitrary: sv)
  case (Cons e es)
  obtain i rec where e: "e = (i, rec)" by force
  have g: "bt_get (sv_stations sv) i = Some rec" using Cons.prems e by auto
  have "good cfg (shutdown_rec now sv e)"
    using Cons.prems(1) g by (auto simp: shutdown_rec_def e intro: good_disconnect)
  moreover have "\<forall>e'\<in>set es. bt_get (sv_stations (shutdown_rec now sv e)) (fst e') = Some (snd e')"
    using Cons.prems(2,3) e by (force simp: shutdown_rec_def bt_get_insert)
  ultimately show ?case using Cons.IH [of "shutdown_rec now sv e"] Cons.prems(3) by simp
qed simp

lemma cs_shutdown_good: "good cfg sv \<Longrightarrow> good cfg (cs_shutdown now sv)"
proof -
  assume g: "good cfg sv"
  then have wf: "bt_wf (sv_stations sv)" by (simp add: good_def server_ok_def)
  have "good cfg (sv\<lparr>sv_shutdown := True\<rparr>)" using g by (simp add: good_def)
  moreover have "\<forall>e\<in>set (sv_stations sv). bt_get (sv_stations (sv\<lparr>sv_shutdown := True\<rparr>)) (fst e) = Some (snd e)"
    using bt_get_in_set [OF wf] by auto
  moreover have "distinct (map fst (sv_stations sv))" using wf by (simp add: bt_wf_def strict_sorted_iff)
  ultimately show ?thesis unfolding cs_shutdown_def by (rule shutdown_good)
qed

lemma register_session:
  assumes "server_ok cfg sv" "rec_ok cfg i rec'" "rc_session rec' = Some (sv_next_session sv + 1)"
    and "\<not> station_limit_reached cfg sv i"
  shows "server_ok cfg (put_station i rec' (sv\<lparr>sv_next_session := sv_next_session sv + 1\<rparr>))"
proof -
  have "length (bt_insert i rec' (sv_stations sv)) \<le> cc_max_stations cfg"
    using assms(1,4) by (auto simp: length_bt_insert server_ok_def station_limit_reached_def)
  moreover have "\<And>j rec n. bt_get (sv_stations sv) j = Some rec \<Longrightarrow> rc_session rec = Some n \<Longrightarrow> n \<le> sv_next_session sv"
    using server_okD(2) [OF assms(1)] by blast
  ultimately show ?thesis
    using assms(1,2,3) unfolding server_ok_def
    by (auto simp: bt_get_insert bt_wf_insert is_none_or_iff split: if_splits)
       (metis Suc_n_not_le_n le_SucI)+
qed

lemma cs_register_good: "good cfg sv \<Longrightarrow> good cfg (snd (cs_register cfg now i peer proto sv))"
proof (cases "sv_shutdown sv \<or> station_limit_reached cfg sv i")
  case True
  assume "good cfg sv"
  with True show ?thesis by (auto simp: cs_register_def)
next
  case False
  assume g: "good cfg sv"
  define rec where "rec = unwrap_or (bt_get (sv_stations sv) i) (fresh_rec i)"
  define rec' where "rec' = rec\<lparr>rc_session := Some (sv_next_session sv + 1),
     rc_info := (rc_info rec)\<lparr>in_connected := True, in_connected_at := Some now,
                     in_disconnected_at := None, in_remote_addr := Some peer, in_subprotocol := proto\<rparr>\<rparr>"
  have "rec_ok cfg i rec"
    using g fresh_rec_ok by (cases "bt_get (sv_stations sv) i") (auto simp: rec_def good_def dest: server_okD)
  then have ok: "rec_ok cfg i rec'"
    by (simp add: rec'_def rec_ok_def counters_ok_def history_ok_def)
  have l: "linked sv i \<longleftrightarrow> rc_session rec \<noteq> None"
    by (cases "bt_get (sv_stations sv) i") (auto simp: rec_def linked_def fresh_rec_def)
  let ?sv = "put_station i rec' (sv\<lparr>sv_next_session := sv_next_session sv + 1\<rparr>)"
  have "server_ok cfg ?sv"
    by (rule register_session) (use g False ok in \<open>auto simp: good_def rec'_def\<close>)
  moreover have "snd (cs_register cfg now i peer proto sv) = cs_emit (Cs_Connected i)
      (put_station i rec' (case rc_session rec of None \<Rightarrow> sv\<lparr>sv_next_session := sv_next_session sv + 1\<rparr>
         | Some old \<Rightarrow> cs_emit (Cs_Disconnected i Replaced)
             (cs_mail old (Cmd_Close 1000 ''replaced by a new connection'') (sv\<lparr>sv_next_session := sv_next_session sv + 1\<rparr>))))"
    using False by (simp add: cs_register_def Let_def rec_def rec'_def cong: option.case_cong)
  moreover have "linked (sv\<lparr>sv_next_session := n\<rparr>) j = linked sv j" for n j by (simp add: linked_def)
  moreover have "server_ok cfg (put_station i rec' (cs_emit e (cs_mail n c u))) = server_ok cfg (put_station i rec' u)" for e n c u
    by (simp add: server_ok_def)
  ultimately show ?thesis
    using g l by (auto simp: good_def events_ok_def linked_put link_after_append rec'_def split: option.split)
qed

lemma forget_good: "good cfg sv \<Longrightarrow> good cfg (snd (cs_forget i sv))"
proof (cases "bt_get (sv_stations sv) i")
  case (Some rec)
  assume g: "good cfg sv"
  let ?sv = "sv\<lparr>sv_stations := bt_remove i (sv_stations sv)\<rparr>"
  have wf: "bt_wf (sv_stations sv)" using g by (simp add: good_def server_ok_def)
  note get = bt_get_remove [OF wf, of i]
  have "length (bt_remove i (sv_stations sv)) \<le> length (sv_stations sv)" by (simp add: length_bt_remove)
  then have "server_ok cfg ?sv"
    using g unfolding good_def server_ok_def
    by (auto simp: get bt_wf_remove split: if_splits)
  moreover have l: "linked ?sv j = (if j = i then False else linked sv j)" for j
    by (simp add: linked_def get)
  moreover have "linked sv i \<longleftrightarrow> rc_session rec \<noteq> None" using Some by (simp add: linked_def)
  ultimately show ?thesis
    using g Some by (auto simp: cs_forget_def Let_def good_def events_ok_def link_after_append split: option.split)
qed (simp add: cs_forget_def)


subsection \<open>Recording\<close>

lemma sum_bt_insert:
  "bt_wf m \<Longrightarrow> sum_list (map snd (bt_insert k v m)) + unwrap_or (bt_get m k) 0 = sum_list (map snd m) + (v::nat)"
proof (induction m)
  case (Cons ab m)
  obtain a b where ab: "ab = (a, b)" by force
  show ?case
  proof (cases "k < a")
    case True
    with Cons.prems ab have "k \<notin> fst ` set (ab # m)" by auto
    then have "bt_get (ab # m) k = None" by (simp add: bt_get_None_iff)
    with True ab show ?thesis by simp
  qed (use Cons ab in auto)
qed simp

lemma count_action_ok:
  assumes "counters_ok info"
  shows "counters_ok (count_action action info)"
proof -
  let ?by = "in_received_by_action info"
  define key where "key = (if length action \<le> 64 \<and> (bt_contains ?by action \<or> length ?by < 64) then action else ''other'')"
  have short: "length (take (MAX_ACTION_KEY_CHARS + 1) action) \<le> MAX_ACTION_KEY_CHARS \<longleftrightarrow> length action \<le> 64"
    by (auto simp: MAX_ACTION_KEY_CHARS_def)
  have eq: "count_action action info = info\<lparr>in_received_calls := in_received_calls info + 1,
      in_received_by_action := bt_insert key (unwrap_or (bt_get ?by key) 0 + 1) ?by\<rparr>"
    unfolding count_action_def Let_def short MAX_ACTION_KEYS_def OTHER_ACTION_def key_def ..
  have wf: "bt_wf ?by" and bound: "length ?by \<le> 64 \<or> length ?by = 65 \<and> bt_contains ?by ''other''"
    and keys: "\<forall>k\<in>fst ` set ?by. length k \<le> 64"
    using assms by (simp_all add: counters_ok_def)
  let ?m = "bt_insert key (unwrap_or (bt_get ?by key) 0 + 1) ?by"
  have len: "length ?m = (if bt_contains ?by key then length ?by else Suc (length ?by))"
    by (rule length_bt_insert [OF wf])
  have "length ?m \<le> 64 \<or> length ?m = 65 \<and> bt_contains ?m ''other''"
    using bound unfolding len by (auto simp: key_def bt_contains_def bt_get_insert split: if_splits)
  moreover have "\<forall>k\<in>fst ` set ?m. length k \<le> 64"
    using keys set_bt_insert [of key _ ?by] by (fastforce simp: key_def)
  moreover have "sum_list (map snd ?m) = sum_list (map snd ?by) + 1"
    using sum_bt_insert [OF wf, of key "unwrap_or (bt_get ?by key) 0 + 1"] by simp
  ultimately show ?thesis
    using assms wf by (simp add: eq counters_ok_def bt_wf_insert)
qed

lemma evict_history_spec:
  "used = sum_list (map hi_bytes items) \<Longrightarrow> evict_history cap bytes_cap bytes items used = (items', used') \<Longrightarrow>
   used' = sum_list (map hi_bytes items') \<and> (items' = [] \<or> length items' < cap \<and> used' + bytes \<le> bytes_cap)
   \<and> (\<exists>k. items' = drop k items)"
proof (induction items arbitrary: used)
  case (Cons old items)
  show ?case
  proof (cases "length (old # items) \<ge> cap \<or> used + bytes > bytes_cap")
    case True
    have "used' = sum_list (map hi_bytes items') \<and> (items' = [] \<or> length items' < cap \<and> used' + bytes \<le> bytes_cap)
      \<and> (\<exists>k. items' = drop k items)"
      by (rule Cons.IH [of "used - hi_bytes old"]) (use Cons.prems True in simp_all)
    then obtain k where k: "items' = drop k items" and r: "used' = sum_list (map hi_bytes items')"
      "items' = [] \<or> length items' < cap \<and> used' + bytes \<le> bytes_cap" by blast
    from k have "items' = drop (Suc k) (old # items)" by simp
    with r show ?thesis by blast
  next
    case False
    with Cons.prems have "items' = old # items" "used' = used" by auto
    with False Cons.prems show ?thesis by (auto intro: exI [of _ 0])
  qed
qed auto

lemma add_history_ok:
  assumes "history_ok cfg rec" "cc_history_cap cfg > 0"
  shows "history_ok cfg (add_history cfg env now out f rec)"
    and "rc_session (add_history cfg env now out f rec) = rc_session rec"
    and "rc_info (add_history cfg env now out f rec) = rc_info rec"
    and "rc_state (add_history cfg env now out f rec) = rc_state rec"
proof -
  define sb where "sb = (if frame_bytes env f > cc_history_bytes_cap cfg
      then let t = truncated_frame f (frame_bytes env f) in (t, frame_bytes env t) else (f, frame_bytes env f))"
  obtain stored bytes where sb': "sb = (stored, bytes)" by force
  obtain items used where e: "evict_history (cc_history_cap cfg) (cc_history_bytes_cap cfg) bytes (rc_history rec) (rc_history_bytes rec) = (items, used)"
    by force
  have h: "add_history cfg env now out f rec =
      (if used + bytes \<le> cc_history_bytes_cap cfg
       then rec\<lparr>rc_history := items @ [\<lparr>hi_ts = now, hi_out = out, hi_frame = stored, hi_bytes = bytes\<rparr>],
                rc_history_bytes := used + bytes\<rparr>
       else rec\<lparr>rc_history := items, rc_history_bytes := used\<rparr>)"
    unfolding add_history_def Let_def [of "cc_history_bytes_cap cfg"] sb_def [symmetric] sb' by (simp add: e)
  have "rc_history_bytes rec = sum_list (map hi_bytes (rc_history rec))" using assms by (simp add: history_ok_def)
  from evict_history_spec [OF this e] assms(2)
  show "history_ok cfg (add_history cfg env now out f rec)"
    by (auto simp: h history_ok_def)
  show "rc_session (add_history cfg env now out f rec) = rc_session rec"
    "rc_info (add_history cfg env now out f rec) = rc_info rec"
    "rc_state (add_history cfg env now out f rec) = rc_state rec"
    by (simp_all add: h)
qed

lemma history_ok_info [simp]: "history_ok cfg (rec\<lparr>rc_info := x\<rparr>) = history_ok cfg rec"
  "history_ok cfg (rec\<lparr>rc_state := st\<rparr>) = history_ok cfg rec"
  by (simp_all add: history_ok_def)

lemma count_action_fields [simp]:
  "in_id (count_action a info) = in_id info" "in_connected (count_action a info) = in_connected info"
  "in_connected_at (count_action a info) = in_connected_at info"
  "in_disconnected_at (count_action a info) = in_disconnected_at info"
  by (simp_all add: count_action_def Let_def)

lemma record_frame_good:
  assumes g: "good cfg sv"
  shows "good cfg (record_frame cfg env now i session out f sv)"
proof (cases "\<exists>rec. bt_get (sv_stations sv) i = Some rec \<and> rc_session rec = Some session")
  case False
  then show ?thesis using g by (auto simp: record_frame_def split: option.split)
next
  case True
  then obtain rec where rec: "bt_get (sv_stations sv) i = Some rec" "rc_session rec = Some session" by blast
  define rec1 where "rec1 = (case (out, f) of
      (False, Frame_Call _ action _) \<Rightarrow> rec\<lparr>rc_info := count_action action (rc_info rec)\<rparr> | _ \<Rightarrow> rec)"
  define g' where "g' = (if cc_show_secrets cfg then f else redact_secrets f)"
  define rec2 where "rec2 = (if cc_history_cap cfg > 0 then add_history cfg env now out g' rec1 else rec1)"
  have ok: "rec_ok cfg i rec" using g rec(1) by (auto simp: good_def dest: server_okD)
  then have ok1: "rec_ok cfg i rec1" "rc_session rec1 = rc_session rec"
    by (auto simp: rec1_def rec_ok_def count_action_ok split: bool.split frame.split)
  then have "rec_ok cfg i rec2" "rc_session rec2 = rc_session rec"
    using add_history_ok [of cfg rec1 env now out g'] by (auto simp: rec2_def rec_ok_def)
  from good_put [OF g rec(1) this] have "good cfg (put_station i rec2 sv)" .
  then have "good cfg (if ce_listening env then cs_emit (Cs_Frame i out g') (put_station i rec2 sv) else put_station i rec2 sv)"
    by (auto intro: good_emit)
  moreover have "record_frame cfg env now i session out f sv =
      (if ce_listening env then cs_emit (Cs_Frame i out g') (put_station i rec2 sv) else put_station i rec2 sv)"
    unfolding record_frame_def Let_def rec1_def rec2_def g'_def using rec by simp
  ultimately show ?thesis by simp
qed

lemma state_put_good:
  assumes "good cfg sv" "bt_get (sv_stations sv) i = Some rec"
    and "state_bounded (cc_transaction_history_cap cfg) st"
  shows "good cfg (put_station i (rec\<lparr>rc_state := st\<rparr>) sv)"
  by (rule good_put [OF assms(1,2)]) (use assms server_okD(1) in \<open>auto simp: good_def rec_ok_def\<close>)

lemma good_state: "good cfg sv \<Longrightarrow> bt_get (sv_stations sv) i = Some rec \<Longrightarrow>
    state_bounded (cc_transaction_history_cap cfg) (rc_state rec)"
  using server_okD(1) [of cfg sv i rec] by (simp add: good_def rec_ok_def)

lemma cs_track_good: "good cfg sv \<Longrightarrow> good cfg (cs_track cfg env now i n a q r sv)"
  unfolding cs_track_def
  by (auto simp: Let_def split: csms_reply.split option.split prod.split intro!: good_emit state_put_good)
     (metis apply_bounded fst_conv good_state)+

lemma note_failed_good: "good cfg sv \<Longrightarrow> good cfg (note_failed_call i sv)"
  unfolding note_failed_call_def
  by (auto split: option.split intro!: good_emit state_put_good simp: note_failed_def bounded_fields dest: good_state)

lemma track_result_good: "good cfg sv \<Longrightarrow> good cfg (track_result env now i a q r sv)"
  unfolding track_result_def
  by (auto simp: Let_def split: option.split prod.split intro!: good_emit state_put_good)
     (metis apply_result_bounded fst_conv good_state)+

lemma good_faults: "good cfg sv \<Longrightarrow> \<forall>f\<in>set fs. 0 < ft_remaining f \<Longrightarrow> good cfg (sv\<lparr>sv_faults := fs\<rparr>)"
  by (simp add: good_def server_ok_def)

lemma decide_server:
  "\<exists>fs ids. snd (decide cfg env now a q sv) = sv\<lparr>sv_faults := fs, sv_tx_ids := ids\<rparr>
    \<and> (fs = sv_faults sv \<or> (\<exists>r. use_fault a (sv_faults sv) = Some (r, fs)))"
proof (cases "use_fault a (sv_faults sv)")
  case (Some rf)
  then show ?thesis
    by (cases rf) (auto simp: decide_def intro!: exI [of _ "snd rf"] exI [of _ "sv_tx_ids sv"])
next
  case None
  have same: "\<exists>ids. sv = sv\<lparr>sv_tx_ids := ids\<rparr>" by (rule exI [of _ "sv_tx_ids sv"]) simp
  have "\<exists>ids. snd (decide cfg env now a q sv) = sv\<lparr>sv_tx_ids := ids\<rparr>"
    unfolding decide_def None
    using same by (cases "invalid_inbound cfg env a q"; cases "bt_get (sv_responders sv) a"; cases "allocate (sv_tx_ids sv)") auto
  then obtain ids where "snd (decide cfg env now a q sv) = sv\<lparr>sv_tx_ids := ids\<rparr>" ..
  then show ?thesis by (intro exI [of _ "sv_faults sv"] exI [of _ ids]) simp
qed

lemma use_fault_positive: "use_fault a fs = Some (r, fs') \<Longrightarrow> \<forall>f\<in>set fs'. 0 < ft_remaining f"
  by (auto simp: use_fault_def)

lemma decide_good: "good cfg sv \<Longrightarrow> good cfg (snd (decide cfg env now a q sv))"
proof -
  assume g: "good cfg sv"
  obtain fs ids where d: "snd (decide cfg env now a q sv) = sv\<lparr>sv_faults := fs, sv_tx_ids := ids\<rparr>"
    and fs: "fs = sv_faults sv \<or> (\<exists>r. use_fault a (sv_faults sv) = Some (r, fs))"
    using decide_server by blast
  have "\<forall>f\<in>set fs. 0 < ft_remaining f"
    using fs g use_fault_positive by (auto simp: good_def server_ok_def)
  from good_faults [OF g this] show ?thesis unfolding d by (simp add: good_def)
qed

end
