(* ===== verification/Call_Accounting.thy ===== *)
theory Call_Accounting
  imports Kirby_Prelude "HOL-Library.Multiset"
begin

text \<open>
  The bookkeeping behind \<open>one result per CALL\<close>, shared by the connection task of the station and the
  sessions of the central system.  \<open>ts\<close> are the tickets of the CALLs made so far, \<open>gone\<close> those whose
  caller gave up, \<open>ks\<close> every ticket that is queued, in flight or has its result.
\<close>

definition accounted :: "nat list \<Rightarrow> nat list \<Rightarrow> nat list \<Rightarrow> bool" where
  "accounted ts gone ks =
     (\<forall>k. count_list ks k \<le> count_list ts k \<and> (k \<notin> set gone \<longrightarrow> count_list ks k = count_list ts k))"

lemma accounted_Nil [simp]: "accounted [] gone []"
  by (simp add: accounted_def)

lemma accounted_mset: "mset ks' = mset ks \<Longrightarrow> accounted ts g ks' = accounted ts g ks"
  by (simp add: accounted_def flip: count_mset)

lemma accounted_drop: "accounted ts g (k # ks) \<Longrightarrow> k \<in> set g \<Longrightarrow> accounted ts g ks"
  unfolding accounted_def by (metis count_list.simps(2) add_leD1)

lemma accounted_add: "accounted ts g ks \<Longrightarrow> accounted (ts @ us) g (ks @ us)"
  by (auto simp: accounted_def)

lemma accounted_gone: "accounted ts g ks \<Longrightarrow> accounted ts (k # g) ks"
  by (auto simp: accounted_def)

lemma distinct_count: "distinct xs \<Longrightarrow> count_list xs k = (if k \<in> set xs then 1 else 0)"
  by (induction xs) auto

text \<open>What the books say about one ticket, when the tickets are distinct.\<close>

lemma accounted_once:
  assumes "accounted ts gone (open_ks @ results)" and "distinct ts"
  shows "count_list results k \<le> 1" "k \<in> set results \<Longrightarrow> k \<in> set ts"
    "k \<in> set ts - set gone \<Longrightarrow> k \<in> set results \<or> k \<in> set open_ks"
    "k \<in> set ts - set gone \<Longrightarrow> open_ks = [] \<Longrightarrow> count_list results k = 1"
proof -
  have le: "count_list open_ks k + count_list results k \<le> (if k \<in> set ts then 1 else 0)"
    using assms(1) [unfolded accounted_def, THEN spec, of k] distinct_count [OF assms(2), of k] by simp
  have eq: "k \<notin> set gone \<Longrightarrow> count_list open_ks k + count_list results k = (if k \<in> set ts then 1 else 0)"
    using assms(1) [unfolded accounted_def, THEN spec, of k] distinct_count [OF assms(2), of k] by simp
  show "count_list results k \<le> 1" using le by (simp split: if_splits)
  show "k \<in> set ts" if "k \<in> set results"
    using le that count_list_0_iff [of results k] by (auto split: if_splits)
  show "k \<in> set results \<or> k \<in> set open_ks" if "k \<in> set ts - set gone"
    using eq that count_list_0_iff [of results k] count_list_0_iff [of open_ks k] by auto
  show "count_list results k = 1" if "k \<in> set ts - set gone" "open_ks = []"
    using eq that by simp
qed

end
