(* ===== verification/Csms_Session.thy ===== *)
theory Csms_Session
  imports Csms_Server_Laws Call_Accounting
begin

text \<open>
  The sessions of the central system (\<open>server.rs\<close>, \<open>struct Session\<close>) and the calls made through its
  handle (\<open>CsmsHandle::call_timeout\<close>, \<open>typed.rs\<close>, \<open>error.rs\<close>), composed with the registry into one
  system of steps.

  One iteration of a session's loop writes what it may (\<open>pump\<close>) and then takes one branch of the
  \<open>select!\<close>; the environment chooses the branch and \<open>wr n k\<close> says whether the \<open>k\<close>-th write of session
  \<open>n\<close> succeeds in time.  A ticket stands for the \<open>oneshot\<close> channel of a caller.  The log keeps what goes
  over the wire and every result in order; \<open>Cx_Called\<close> and \<open>Cx_Closed_Slot\<close> only mark where the slot of
  the outstanding CALL is taken and freed.
\<close>

subsection \<open>Types\<close>

datatype csms_error =
  Cs_Bind string
| Cs_Tls string
| Cs_Config string
| UnknownStation string
| Cs_NotConnected string
| Cs_Timeout string string duration
| ConnectionClosed string string
| Cs_CallError string string error_code string
| InvalidRequest string string
| InvalidResponse string string string

record flight_call =
  fl_id :: message_id
  fl_action :: string
  fl_timeout :: duration
  fl_deadline :: nat
  fl_reply :: nat

record csms_session =
  se_link :: u64
  se_station :: string
  se_queue :: "queued_call list"
  se_flight :: "flight_call option"
  se_last_seen :: nat
  se_ping :: "nat option"
  se_writes :: nat

datatype cx_effect =
  Cx_Wire u64 frame
| Cx_Ping u64
| Cx_Close u64 nat string
| Cx_Called u64 nat message_id
| Cx_Closed_Slot u64 message_id
| Cx_Result nat "csms_error + frame"

text \<open>What a session's step works on: its own state, the registry, and the log.\<close>

record session_ctx =
  sx_se :: csms_session
  sx_sv :: csms_server
  sx_log :: "cx_effect list"

type_synonym session_flow = "session_ctx \<times> disconnect_reason option"

definition SECS_PER_DAY :: nat where "SECS_PER_DAY = 24 * 60 * 60"
definition MAX_CALL_TIMEOUT :: duration where "MAX_CALL_TIMEOUT = SECS_PER_DAY * nat ns_per_s"
definition CLOSE_CODE_ERROR :: nat where "CLOSE_CODE_ERROR = 1011"

definition new_session :: "u64 \<Rightarrow> string \<Rightarrow> nat \<Rightarrow> csms_session" where
  "new_session n station t0 =
     \<lparr>se_link = n, se_station = station, se_queue = [], se_flight = None, se_last_seen = t0,
      se_ping = None, se_writes = 0\<rparr>"

definition sx_emit :: "cx_effect \<Rightarrow> session_ctx \<Rightarrow> session_ctx" where
  "sx_emit e sx = sx\<lparr>sx_log := sx_log sx @ [e]\<rparr>"

definition upd_se :: "(csms_session \<Rightarrow> csms_session) \<Rightarrow> session_ctx \<Rightarrow> session_ctx" where
  "upd_se f sx = sx\<lparr>sx_se := f (sx_se sx)\<rparr>"

definition upd_sv :: "(csms_server \<Rightarrow> csms_server) \<Rightarrow> session_ctx \<Rightarrow> session_ctx" where
  "upd_sv f sx = sx\<lparr>sx_sv := f (sx_sv sx)\<rparr>"

text \<open>The clocks of a step: the wall clock for records, the monotonic one for deadlines; and the socket.\<close>

record session_io =
  io_now :: instant
  io_at :: nat
  io_write :: "u64 \<Rightarrow> nat \<Rightarrow> bool"

subsection \<open>Writing\<close>

definition session_write :: "session_io \<Rightarrow> cx_effect \<Rightarrow> session_ctx \<Rightarrow> bool \<times> session_ctx" where
  "session_write io e sx =
     (let se = sx_se sx; sx1 = upd_se (\<lambda>s. s\<lparr>se_writes := se_writes s + 1\<rparr>) sx
      in if io_write io (se_link se) (se_writes se) then (True, sx_emit e sx1) else (False, sx1))"

definition session_send :: "csms_config \<Rightarrow> csms_env \<Rightarrow> session_io \<Rightarrow> frame \<Rightarrow> session_ctx \<Rightarrow> session_flow" where
  "session_send cfg env io f sx =
     (let se = sx_se sx;
          sx1 = upd_sv (record_frame cfg env (io_now io) (se_station se) (se_link se) True f) sx
      in case session_write io (Cx_Wire (se_link se) f) sx1 of
           (ok, sx2) \<Rightarrow> (sx2, if ok then None else Some Dis_Closed))"

definition session_close :: "session_io \<Rightarrow> nat \<Rightarrow> string \<Rightarrow> session_ctx \<Rightarrow> session_ctx" where
  "session_close io code reason sx =
     snd (session_write io (Cx_Close (se_link (sx_se sx)) code reason) sx)"

subsection \<open>Outbound CALLs\<close>

fun pump_calls ::
  "csms_config \<Rightarrow> csms_env \<Rightarrow> session_io \<Rightarrow> nat list \<Rightarrow> queued_call list \<Rightarrow> session_ctx \<Rightarrow> session_flow" where
  "pump_calls cfg env io gone [] sx = (upd_se (\<lambda>s. s\<lparr>se_queue := []\<rparr>) sx, None)"
| "pump_calls cfg env io gone (qc # rest) sx =
     (if se_flight (sx_se sx) \<noteq> None then (upd_se (\<lambda>s. s\<lparr>se_queue := qc # rest\<rparr>) sx, None)
      else if qc_reply qc \<in> set gone then pump_calls cfg env io gone rest sx
      else case next_message_id (sx_sv sx) of
        (i, sv1) \<Rightarrow>
          (case session_send cfg env io (Frame_Call i (qc_action qc) (qc_payload qc))
                  (upd_se (\<lambda>s. s\<lparr>se_queue := rest\<rparr>) (sx\<lparr>sx_sv := sv1\<rparr>)) of
             (sx1, Some reason) \<Rightarrow>
               (sx_emit (Cx_Result (qc_reply qc)
                  (Inl (ConnectionClosed (se_station (sx_se sx)) (qc_action qc)))) sx1, Some reason)
           | (sx1, None) \<Rightarrow>
               pump_calls cfg env io gone rest
                 (sx_emit (Cx_Called (se_link (sx_se sx)) (qc_reply qc) i)
                   (upd_se (\<lambda>s. s\<lparr>se_flight := Some \<lparr>fl_id = i, fl_action = qc_action qc,
                      fl_timeout = qc_timeout qc, fl_deadline = io_at io + qc_timeout qc,
                      fl_reply = qc_reply qc\<rparr>\<rparr>) sx1))))"

definition session_pump :: "csms_config \<Rightarrow> csms_env \<Rightarrow> session_io \<Rightarrow> nat list \<Rightarrow> session_ctx \<Rightarrow> session_flow" where
  "session_pump cfg env io gone sx = pump_calls cfg env io gone (se_queue (sx_se sx)) sx"

text \<open>The slot is freed with a result.\<close>

definition finish_flight :: "(flight_call \<Rightarrow> csms_error + frame) \<Rightarrow> session_ctx \<Rightarrow> session_ctx" where
  "finish_flight result sx =
     (case se_flight (sx_se sx) of
        None \<Rightarrow> sx
      | Some flight \<Rightarrow>
          sx_emit (Cx_Result (fl_reply flight) (result flight))
            (sx_emit (Cx_Closed_Slot (se_link (sx_se sx)) (fl_id flight))
              (upd_se (\<lambda>s. s\<lparr>se_flight := None\<rparr>) sx)))"

definition expire_in_flight :: "session_ctx \<Rightarrow> session_ctx" where
  "expire_in_flight sx =
     finish_flight (\<lambda>flight. Inl (Cs_Timeout (se_station (sx_se sx)) (fl_action flight) (fl_timeout flight))) sx"

subsection \<open>Inbound frames\<close>

definition answer_call ::
  "csms_config \<Rightarrow> csms_env \<Rightarrow> session_io \<Rightarrow> message_id \<Rightarrow> string \<Rightarrow> json \<Rightarrow> session_ctx \<Rightarrow> session_flow" where
  "answer_call cfg env io i action payload sx =
     (let se = sx_se sx in
      case decide cfg env (io_now io) action payload (sx_sv sx) of
        (r, sv1) \<Rightarrow>
          let sx1 = sx\<lparr>sx_sv := cs_track cfg env (io_now io) (se_station se) (se_link se) action payload r sv1\<rparr>
          in case r of
               Reply_Result v \<Rightarrow> session_send cfg env io (Frame_Result i v) sx1
             | Reply_Error code description \<Rightarrow> session_send cfg env io (frame_call_error i code description) sx1
             | Silence \<Rightarrow> (sx1, None)
             | Close_Reply \<Rightarrow> (session_close io CLOSE_CODE_ERROR ''injected close'' sx1, Some Injected))"

definition session_on_text ::
  "csms_config \<Rightarrow> csms_env \<Rightarrow> session_io \<Rightarrow> string \<Rightarrow> session_ctx \<Rightarrow> session_flow" where
  "session_on_text cfg env io text sx =
     (let se = sx_se sx in
      case parse_frame (ce_parse env) text of
        Inl e \<Rightarrow>
          let sx1 = upd_sv (cs_emit (Cs_Malformed (se_station se) (take MALFORMED_TEXT_CHARS text))) sx
          in (case frame_error_reply (ce_print env) e of
                Some reply \<Rightarrow> session_send cfg env io reply sx1
              | None \<Rightarrow> (sx1, None))
      | Inr f \<Rightarrow>
          let sx1 = upd_sv (record_frame cfg env (io_now io) (se_station se) (se_link se) False f) sx
          in (case f of
                Frame_Call i action payload \<Rightarrow> answer_call cfg env io i action payload sx1
              | _ \<Rightarrow>
                  (if is_some_and (se_flight se) (\<lambda>flight. fl_id flight = frame_id f)
                   then finish_flight (\<lambda>_. Inr f) sx1 else sx1, None)))"

subsection \<open>The watchdog\<close>

definition watchdog_deadline :: "csms_config \<Rightarrow> csms_session \<Rightarrow> nat option" where
  "watchdog_deadline cfg se =
     (if cc_ping_interval cfg = 0 then None
      else case se_ping se of
             Some sent \<Rightarrow> Some (sent + cc_pong_timeout cfg)
           | None \<Rightarrow> Some (se_last_seen se + cc_ping_interval cfg))"

definition watchdog_fired :: "session_io \<Rightarrow> session_ctx \<Rightarrow> session_flow" where
  "watchdog_fired io sx =
     (if se_ping (sx_se sx) \<noteq> None then (sx, Some PingTimeout)
      else case session_write io (Cx_Ping (se_link (sx_se sx))) sx of
             (ok, sx1) \<Rightarrow>
               if ok then (upd_se (\<lambda>s. s\<lparr>se_ping := Some (io_at io)\<rparr>) sx1, None) else (sx1, Some Dis_Closed))"

subsection \<open>The loop\<close>

datatype cx_inbound = Cx_Text string | Cx_Close_Frame | Cx_Other_Message | Cx_Socket_Error | Cx_End_Of_Stream

datatype select_branch = Sel_Shutdown | Sel_Inbound cx_inbound | Sel_Watchdog | Sel_Command | Sel_Deadline

fun message_ok :: "cx_inbound \<Rightarrow> bool" where
  "message_ok Cx_Socket_Error = False"
| "message_ok Cx_End_Of_Stream = False"
| "message_ok _ = True"

definition session_inbound ::
  "csms_config \<Rightarrow> csms_env \<Rightarrow> session_io \<Rightarrow> cx_inbound \<Rightarrow> session_ctx \<Rightarrow> session_flow" where
  "session_inbound cfg env io m sx =
     (let sx1 = (if message_ok m
                 then upd_se (\<lambda>s. s\<lparr>se_last_seen := io_at io, se_ping := None\<rparr>) sx else sx)
      in case m of
           Cx_Text text \<Rightarrow> session_on_text cfg env io text sx1
         | Cx_Other_Message \<Rightarrow> (sx1, None)
         | _ \<Rightarrow> (sx1, Some Dis_Closed))"

text \<open>The next command for a session; \<open>None\<close> while its sender, the registry, still may send one.\<close>

definition take_mail :: "u64 \<Rightarrow> csms_server \<Rightarrow> (session_cmd \<times> csms_server) option" where
  "take_mail n sv =
     map_option (\<lambda>m. (snd m, sv\<lparr>sv_mail := remove1 m (sv_mail sv)\<rparr>)) (find (\<lambda>m. fst m = n) (sv_mail sv))"

definition has_sender :: "u64 \<Rightarrow> csms_server \<Rightarrow> bool" where
  "has_sender n sv = list_ex (\<lambda>(i, rec). rc_session rec = Some n) (sv_stations sv)"

definition session_command :: "session_io \<Rightarrow> session_ctx \<Rightarrow> session_flow" where
  "session_command io sx =
     (case take_mail (se_link (sx_se sx)) (sx_sv sx) of
        Some (Cmd_Call qc, sv1) \<Rightarrow>
          (upd_se (\<lambda>s. s\<lparr>se_queue := se_queue s @ [qc]\<rparr>) (sx\<lparr>sx_sv := sv1\<rparr>), None)
      | Some (Cmd_Close code reason, sv1) \<Rightarrow> (session_close io code reason (sx\<lparr>sx_sv := sv1\<rparr>), Some Dis_Closed)
      | None \<Rightarrow> (sx, if has_sender (se_link (sx_se sx)) (sx_sv sx) then None else Some Dis_Closed))"

text \<open>A branch that is not ready leaves the loop waiting.\<close>

fun select_step ::
  "csms_config \<Rightarrow> csms_env \<Rightarrow> session_io \<Rightarrow> select_branch \<Rightarrow> session_ctx \<Rightarrow> session_flow" where
  "select_step cfg env io Sel_Shutdown sx =
     (if sv_shutdown (sx_sv sx)
      then (session_close io 1001 ''server shutting down'' sx, Some Shutdown) else (sx, None))"
| "select_step cfg env io (Sel_Inbound m) sx = session_inbound cfg env io m sx"
| "select_step cfg env io Sel_Watchdog sx =
     (if is_some_and (watchdog_deadline cfg (sx_se sx)) (\<lambda>t. t \<le> io_at io)
      then watchdog_fired io sx else (sx, None))"
| "select_step cfg env io Sel_Command sx = session_command io sx"
| "select_step cfg env io Sel_Deadline sx =
     (if is_some_and (se_flight (sx_se sx)) (\<lambda>flight. fl_deadline flight \<le> io_at io)
      then expire_in_flight sx else sx, None)"

definition session_iteration ::
  "csms_config \<Rightarrow> csms_env \<Rightarrow> session_io \<Rightarrow> nat list \<Rightarrow> select_branch \<Rightarrow> session_ctx \<Rightarrow> session_flow" where
  "session_iteration cfg env io gone br sx =
     (case session_pump cfg env io gone sx of
        (sx1, Some reason) \<Rightarrow> (sx1, Some reason)
      | (sx1, None) \<Rightarrow> select_step cfg env io br sx1)"

subsection \<open>Calls through the handle\<close>

record made_call =
  mc_ticket :: nat
  mc_station :: string
  mc_action :: string
  mc_payload :: json

text \<open>What the caller's future does with the result: \<open>call_timeout\<close> after \<open>receiver.await\<close>.\<close>

definition after_result :: "csms_env \<Rightarrow> instant \<Rightarrow> made_call \<Rightarrow> csms_error + frame \<Rightarrow> csms_server \<Rightarrow> csms_server" where
  "after_result env now c result sv =
     (let sv1 = (case result of
                   Inr (Frame_Result _ payload) \<Rightarrow>
                     if mc_action c = ''GetInstalledCertificateIds''
                     then track_result env now (mc_station c) (mc_action c) (mc_payload c) payload sv else sv
                 | _ \<Rightarrow> sv)
      in case result of
           Inr (Frame_Error _ _ _ _) \<Rightarrow> note_failed_call (mc_station c) sv1
         | Inl (Cs_Timeout _ _ _) \<Rightarrow> note_failed_call (mc_station c) sv1
         | _ \<Rightarrow> sv1)"

text \<open>\<open>call_typed\<close>: the request before it is sent, and the answer.\<close>

definition typed_request ::
  "('req \<Rightarrow> string + json) \<Rightarrow> (json \<Rightarrow> string list option) \<Rightarrow> string \<Rightarrow> 'req \<Rightarrow> csms_error + json" where
  "typed_request to_json validate action req =
     (case to_json req of
        Inl e \<Rightarrow> Inl (InvalidRequest action e)
      | Inr payload \<Rightarrow>
          (case validate payload of
             Some errors \<Rightarrow> Inl (InvalidRequest action (join ''; '' errors))
           | None \<Rightarrow> Inr payload))"

definition typed_answer ::
  "(json \<Rightarrow> string + 'res) \<Rightarrow> (json \<Rightarrow> string list option) \<Rightarrow> string \<Rightarrow> string \<Rightarrow> csms_error + frame \<Rightarrow> csms_error + 'res" where
  "typed_answer from_json validate station action result =
     (case result of
        Inl e \<Rightarrow> Inl e
      | Inr (Frame_Result _ payload) \<Rightarrow>
          (case validate payload of
             Some errors \<Rightarrow> Inl (InvalidResponse station action (join ''; '' errors))
           | None \<Rightarrow>
               (case from_json payload of
                  Inl e \<Rightarrow> Inl (InvalidResponse station action e)
                | Inr res \<Rightarrow> Inr res))
      | Inr (Frame_Error _ code description _) \<Rightarrow> Inl (Cs_CallError station action code description)
      | Inr (Frame_Call _ _ _) \<Rightarrow> Inl (InvalidResponse station action ''not a reply''))"

subsection \<open>The system\<close>

record csms_world =
  cw_server :: csms_server
  cw_sessions :: "(u64, csms_session) btree"
  cw_calls :: "made_call list"
  cw_gone :: "nat list"
  cw_done :: "nat list"
  cw_log :: "cx_effect list"

datatype handle_op =
  Op_Respond string "json \<Rightarrow> csms_reply"
| Op_Clear_Responder string
| Op_Inject csms_fault
| Op_Clear_Faults
| Op_Forget string

datatype csms_step =
  W_Handle handle_op
| W_Connect string string "string option"
| W_Call nat string string json duration
| W_Gone nat
| W_Resume nat
| W_Session u64 select_branch
| W_Stop
| W_Stopped

definition new_world :: "csms_config \<Rightarrow> csms_world" where
  "new_world cfg = \<lparr>cw_server = new_server cfg, cw_sessions = [], cw_calls = [], cw_gone = [], cw_done = [], cw_log = []\<rparr>"

fun handle_step :: "handle_op \<Rightarrow> csms_server \<Rightarrow> csms_server" where
  "handle_step (Op_Respond action f) sv = cs_respond action f sv"
| "handle_step (Op_Clear_Responder action) sv = clear_responder action sv"
| "handle_step (Op_Inject f) sv = cs_inject f sv"
| "handle_step Op_Clear_Faults sv = clear_faults sv"
| "handle_step (Op_Forget i) sv = snd (cs_forget i sv)"

definition world_result :: "nat \<Rightarrow> csms_error + frame \<Rightarrow> csms_world \<Rightarrow> csms_world" where
  "world_result k r w = w\<lparr>cw_log := cw_log w @ [Cx_Result k r]\<rparr>"

definition cs_connect ::
  "csms_config \<Rightarrow> session_io \<Rightarrow> string \<Rightarrow> string \<Rightarrow> string option \<Rightarrow> csms_world \<Rightarrow> csms_world" where
  "cs_connect cfg io i peer subprotocol w =
     (case cs_register cfg (io_now io) i peer subprotocol (cw_server w) of
        (Inl _, sv) \<Rightarrow> w\<lparr>cw_server := sv\<rparr>
      | (Inr n, sv) \<Rightarrow>
          w\<lparr>cw_server := sv, cw_sessions := bt_insert n (new_session n i (io_at io)) (cw_sessions w)\<rparr>)"

definition cs_call :: "nat \<Rightarrow> string \<Rightarrow> string \<Rightarrow> json \<Rightarrow> duration \<Rightarrow> csms_world \<Rightarrow> csms_world" where
  "cs_call k i action payload timeout w =
     (let w1 = w\<lparr>cw_calls := cw_calls w @
                   [\<lparr>mc_ticket = k, mc_station = i, mc_action = action, mc_payload = payload\<rparr>]\<rparr> in
      case bt_get (sv_stations (cw_server w)) i of
        None \<Rightarrow> world_result k (Inl (UnknownStation i)) w1
      | Some rec \<Rightarrow>
          (case rc_session rec of
             None \<Rightarrow> world_result k (Inl (Cs_NotConnected i)) w1
           | Some n \<Rightarrow>
               if bt_contains (cw_sessions w) n
               then w1\<lparr>cw_server := cs_mail n (Cmd_Call \<lparr>qc_action = action, qc_payload = payload,
                          qc_timeout = min timeout MAX_CALL_TIMEOUT, qc_reply = k\<rparr>) (cw_server w)\<rparr>
               else world_result k (Inl (Cs_NotConnected i)) w1))"

definition result_of :: "nat \<Rightarrow> cx_effect list \<Rightarrow> (csms_error + frame) option" where
  "result_of k es =
     (case List.map_filter (\<lambda>e. case e of Cx_Result j r \<Rightarrow> if j = k then Some r else None | _ \<Rightarrow> None) es of
        [] \<Rightarrow> None | r # _ \<Rightarrow> Some r)"

definition cs_resume :: "csms_env \<Rightarrow> session_io \<Rightarrow> nat \<Rightarrow> csms_world \<Rightarrow> csms_world" where
  "cs_resume env io k w =
     (if k \<in> set (cw_gone w) \<or> k \<in> set (cw_done w) then w
      else case (find (\<lambda>c. mc_ticket c = k) (cw_calls w), result_of k (cw_log w)) of
             (Some c, Some r) \<Rightarrow>
               w\<lparr>cw_server := after_result env (io_now io) c r (cw_server w), cw_done := k # cw_done w\<rparr>
           | _ \<Rightarrow> w)"

text \<open>
  The end of a session: the commands in its channel, its queue and its outstanding CALL are dropped,
  which their callers see as a closed connection, and the guard reports the end to the registry.
\<close>

definition mail_calls :: "u64 \<Rightarrow> csms_server \<Rightarrow> queued_call list" where
  "mail_calls n sv = List.map_filter (\<lambda>m. case snd m of Cmd_Call qc \<Rightarrow> if fst m = n then Some qc else None | _ \<Rightarrow> None) (sv_mail sv)"

definition drop_mail :: "u64 \<Rightarrow> csms_server \<Rightarrow> csms_server" where
  "drop_mail n sv = sv\<lparr>sv_mail := filter (\<lambda>m. fst m \<noteq> n) (sv_mail sv)\<rparr>"

definition dropped_results :: "csms_session \<Rightarrow> csms_server \<Rightarrow> cx_effect list" where
  "dropped_results se sv =
     (let closed = (\<lambda>k action. Cx_Result k (Inl (ConnectionClosed (se_station se) action))) in
      map (\<lambda>qc. closed (qc_reply qc) (qc_action qc)) (mail_calls (se_link se) sv)
      @ map (\<lambda>qc. closed (qc_reply qc) (qc_action qc)) (se_queue se)
      @ (case se_flight se of
           None \<Rightarrow> []
         | Some flight \<Rightarrow> [Cx_Closed_Slot (se_link se) (fl_id flight), closed (fl_reply flight) (fl_action flight)]))"

definition drop_session :: "csms_session \<Rightarrow> csms_world \<Rightarrow> csms_world" where
  "drop_session se w =
     w\<lparr>cw_log := cw_log w @ dropped_results se (cw_server w),
       cw_server := drop_mail (se_link se) (cw_server w),
       cw_sessions := bt_remove (se_link se) (cw_sessions w)\<rparr>"

definition end_session :: "instant \<Rightarrow> disconnect_reason \<Rightarrow> csms_session \<Rightarrow> csms_world \<Rightarrow> csms_world" where
  "end_session now reason se w =
     (let w1 = drop_session se w
      in w1\<lparr>cw_server := session_ended now (se_station se) (se_link se) reason (cw_server w1)\<rparr>)"

definition run_session_step ::
  "csms_config \<Rightarrow> csms_env \<Rightarrow> session_io \<Rightarrow> u64 \<Rightarrow> select_branch \<Rightarrow> csms_world \<Rightarrow> csms_world" where
  "run_session_step cfg env io n br w =
     (case bt_get (cw_sessions w) n of
        None \<Rightarrow> w
      | Some se \<Rightarrow>
          (case session_iteration cfg env io (cw_gone w) br
                  \<lparr>sx_se = se, sx_sv = cw_server w, sx_log = cw_log w\<rparr> of
             (sx, r) \<Rightarrow>
               let w1 = w\<lparr>cw_server := sx_sv sx, cw_log := sx_log sx,
                          cw_sessions := bt_insert n (sx_se sx) (cw_sessions w)\<rparr>
               in case r of None \<Rightarrow> w1 | Some reason \<Rightarrow> end_session (io_now io) reason (sx_se sx) w1))"

text \<open>
  \<open>shutdown\<close>: the flag, then, when the sessions had their time, what is left of them is aborted: their
  guards report a closed connection, before the registry is swept for sessions that are still linked.
\<close>

definition world_stopped :: "session_io \<Rightarrow> csms_world \<Rightarrow> csms_world" where
  "world_stopped io w =
     (let w1 = foldl (\<lambda>w e. end_session (io_now io) Dis_Closed (snd e) w) w (cw_sessions w)
      in w1\<lparr>cw_server := cs_shutdown (io_now io) (cw_server w1)\<rparr>)"

fun world_step :: "csms_config \<Rightarrow> csms_env \<Rightarrow> csms_world \<Rightarrow> session_io \<times> csms_step \<Rightarrow> csms_world" where
  "world_step cfg env w (io, W_Handle op) = w\<lparr>cw_server := handle_step op (cw_server w)\<rparr>"
| "world_step cfg env w (io, W_Connect i peer subprotocol) = cs_connect cfg io i peer subprotocol w"
| "world_step cfg env w (io, W_Call k i action payload timeout) = cs_call k i action payload timeout w"
| "world_step cfg env w (io, W_Gone k) = w\<lparr>cw_gone := k # cw_gone w\<rparr>"
| "world_step cfg env w (io, W_Resume k) = cs_resume env io k w"
| "world_step cfg env w (io, W_Session n br) = run_session_step cfg env io n br w"
| "world_step cfg env w (io, W_Stop) = w\<lparr>cw_server := (cw_server w)\<lparr>sv_shutdown := True\<rparr>\<rparr>"
| "world_step cfg env w (io, W_Stopped) = world_stopped io w"

definition csms_run :: "csms_config \<Rightarrow> csms_env \<Rightarrow> (session_io \<times> csms_step) list \<Rightarrow> csms_world" where
  "csms_run cfg env steps = foldl (world_step cfg env) (new_world cfg) steps"

end
