(* ===== verification/Csms_Session_Laws.thy ===== *)
theory Csms_Session_Laws
  imports Csms_Session
begin

text \<open>
  What every step of the central system keeps: the registry's invariant, the link between the registry
  and the running sessions, and the books on the calls.
\<close>

subsection \<open>Links\<close>

definition sess :: "csms_server \<Rightarrow> string \<Rightarrow> u64 option" where
  "sess sv i = Option.bind (bt_get (sv_stations sv) i) rc_session"

definition same_links :: "csms_server \<Rightarrow> csms_server \<Rightarrow> bool" where
  "same_links sv sv' =
     ((\<forall>i. sess sv' i = sess sv i) \<and> sv_mail sv' = sv_mail sv \<and> sv_next_session sv' = sv_next_session sv
      \<and> sv_next_message sv' = sv_next_message sv)"

lemma same_links_refl [simp]: "same_links sv sv"
  by (simp add: same_links_def)

lemma same_links_trans: "same_links a b \<Longrightarrow> same_links b c \<Longrightarrow> same_links a c"
  by (simp add: same_links_def)

lemma more_fields_cs [simp]:
  "sv_next_message (cs_emit e sv) = sv_next_message sv" "sv_next_message (cs_mail n c sv) = sv_next_message sv"
  "sv_next_message (put_station i rec sv) = sv_next_message sv"
  "sv_mail (cs_mail n c sv) = sv_mail sv @ [(n, c)]"
  by (simp_all add: cs_emit_def cs_mail_def put_station_def)

lemma sess_put [simp]: "sess (put_station i rec sv) j = (if j = i then rc_session rec else sess sv j)"
  by (simp add: sess_def bt_get_insert)

lemma sess_frame [simp]:
  "sess (cs_emit e sv) i = sess sv i" "sess (cs_mail n c sv) i = sess sv i"
  by (simp_all add: sess_def)

lemma same_links_emit [simp]: "same_links sv (cs_emit e sv') = same_links sv sv'"
  by (simp add: same_links_def)

lemma same_links_put:
  "bt_get (sv_stations sv) i = Some rec \<Longrightarrow> rc_session rec' = rc_session rec \<Longrightarrow> same_links sv (put_station i rec' sv)"
  by (simp add: same_links_def) (simp add: sess_def)

lemma add_history_session: "rc_session (add_history cfg env now out f rec) = rc_session rec"
  by (simp add: add_history_def Let_def split: prod.split)

lemma record_frame_links: "same_links sv (record_frame cfg env now i n out f sv)"
  unfolding record_frame_def Let_def
  by (auto simp: add_history_session split: option.split bool.split frame.split intro!: same_links_put)

lemma cs_track_links: "same_links sv (cs_track cfg env now i n a q r sv)"
  unfolding cs_track_def
  by (auto simp: Let_def split: csms_reply.split option.split prod.split intro: same_links_put)

lemma track_result_links: "same_links sv (track_result env now i a q r sv)"
  unfolding track_result_def
  by (auto simp: Let_def split: option.split prod.split intro: same_links_put)

lemma note_failed_links: "same_links sv (note_failed_call i sv)"
  unfolding note_failed_call_def
  by (auto split: option.split intro: same_links_put)

lemma decide_links: "same_links sv (snd (decide cfg env now a q sv))"
proof -
  obtain fs ids where "snd (decide cfg env now a q sv) = sv\<lparr>sv_faults := fs, sv_tx_ids := ids\<rparr>"
    using decide_server by blast
  then show ?thesis by (simp add: same_links_def sess_def)
qed

text \<open>A link the registry no longer holds cannot change the records.\<close>

lemma dead_record: "sess sv i \<noteq> Some n \<Longrightarrow> sv_stations (record_frame cfg env now i n out f sv) = sv_stations sv"
  by (auto simp: record_frame_def sess_def split: option.split)

lemma dead_track: "sess sv i \<noteq> Some n \<Longrightarrow> sv_stations (cs_track cfg env now i n a q r sv) = sv_stations sv"
  by (auto simp: cs_track_def sess_def split: csms_reply.split option.split)

lemma decide_stations: "sv_stations (snd (decide cfg env now a q sv)) = sv_stations sv"
proof -
  obtain fs ids where "snd (decide cfg env now a q sv) = sv\<lparr>sv_faults := fs, sv_tx_ids := ids\<rparr>"
    using decide_server by blast
  then show ?thesis by simp
qed

subsection \<open>What a session's step keeps\<close>

definition session_safe :: "csms_config \<Rightarrow> session_ctx \<Rightarrow> session_ctx \<Rightarrow> bool" where
  "session_safe cfg sx sx' =
     (se_link (sx_se sx') = se_link (sx_se sx) \<and> se_station (sx_se sx') = se_station (sx_se sx)
      \<and> (\<forall>i. sess (sx_sv sx') i = sess (sx_sv sx) i)
      \<and> sv_next_session (sx_sv sx') = sv_next_session (sx_sv sx)
      \<and> set (sv_mail (sx_sv sx')) \<subseteq> set (sv_mail (sx_sv sx))
      \<and> (good cfg (sx_sv sx) \<longrightarrow> good cfg (sx_sv sx'))
      \<and> (sess (sx_sv sx) (se_station (sx_se sx)) \<noteq> Some (se_link (sx_se sx)) \<longrightarrow>
           sv_stations (sx_sv sx') = sv_stations (sx_sv sx)))"

lemma session_safe_refl [simp]: "session_safe cfg sx sx"
  by (simp add: session_safe_def)

lemma session_safe_trans: "session_safe cfg a b \<Longrightarrow> session_safe cfg b c \<Longrightarrow> session_safe cfg a c"
  unfolding session_safe_def by (metis subset_trans)

lemma ctx_fields [simp]:
  "sx_se (sx_emit e sx) = sx_se sx" "sx_sv (sx_emit e sx) = sx_sv sx" "sx_log (sx_emit e sx) = sx_log sx @ [e]"
  "sx_se (upd_se f sx) = f (sx_se sx)" "sx_sv (upd_se f sx) = sx_sv sx" "sx_log (upd_se f sx) = sx_log sx"
  "sx_se (upd_sv g sx) = sx_se sx" "sx_sv (upd_sv g sx) = g (sx_sv sx)" "sx_log (upd_sv g sx) = sx_log sx"
  by (simp_all add: sx_emit_def upd_se_def upd_sv_def)

lemma safe_emit [simp]: "session_safe cfg sx (sx_emit e sx') = session_safe cfg sx sx'"
  by (simp add: session_safe_def)

lemma safe_upd_se [simp]:
  "(\<And>s. se_link (f s) = se_link s) \<Longrightarrow> (\<And>s. se_station (f s) = se_station s) \<Longrightarrow>
   session_safe cfg sx (upd_se f sx') = session_safe cfg sx sx'"
  by (simp add: session_safe_def)

lemma safe_server:
  assumes "same_links (sx_sv sx) sv'" "good cfg (sx_sv sx) \<Longrightarrow> good cfg sv'"
    and "sess (sx_sv sx) (se_station (sx_se sx)) \<noteq> Some (se_link (sx_se sx)) \<Longrightarrow> sv_stations sv' = sv_stations (sx_sv sx)"
  shows "session_safe cfg sx (sx\<lparr>sx_sv := sv'\<rparr>)"
  using assms by (simp add: session_safe_def same_links_def)

lemma safe_upd_sv:
  "same_links (sx_sv sx) (g (sx_sv sx)) \<Longrightarrow> (good cfg (sx_sv sx) \<Longrightarrow> good cfg (g (sx_sv sx))) \<Longrightarrow>
   (sess (sx_sv sx) (se_station (sx_se sx)) \<noteq> Some (se_link (sx_se sx)) \<Longrightarrow>
      sv_stations (g (sx_sv sx)) = sv_stations (sx_sv sx)) \<Longrightarrow>
   session_safe cfg sx (upd_sv g sx)"
  unfolding upd_sv_def by (rule safe_server)

lemma safe_record: "session_safe cfg sx
    (upd_sv (record_frame cfg env now (se_station (sx_se sx)) (se_link (sx_se sx)) out f) sx)"
  by (rule safe_upd_sv) (auto intro: record_frame_links record_frame_good dead_record)

lemma session_write_safe: "session_safe cfg sx (snd (session_write io e sx))"
  by (simp add: session_write_def Let_def)

lemma session_send_safe: "session_safe cfg sx (fst (session_send cfg env io f sx))"
  unfolding session_send_def Let_def
  by (simp add: split_beta) (rule session_safe_trans [OF safe_record session_write_safe])

lemma session_close_safe: "session_safe cfg sx (session_close io code reason sx)"
  unfolding session_close_def by (rule session_write_safe)

lemma safe_next_message: "session_safe cfg sx (sx\<lparr>sx_sv := snd (next_message_id (sx_sv sx))\<rparr>)"
  by (simp add: session_safe_def next_message_id_def sess_def good_def)

text \<open>The three ways one turn of the pump's loop can go.\<close>

definition pump_write ::
  "csms_config \<Rightarrow> csms_env \<Rightarrow> session_io \<Rightarrow> queued_call \<Rightarrow> queued_call list \<Rightarrow> session_ctx \<Rightarrow> session_flow" where
  "pump_write cfg env io qc rest sx =
     session_send cfg env io (Frame_Call (fst (next_message_id (sx_sv sx))) (qc_action qc) (qc_payload qc))
       (upd_se (\<lambda>s. s\<lparr>se_queue := rest\<rparr>) (sx\<lparr>sx_sv := snd (next_message_id (sx_sv sx))\<rparr>))"

definition pump_sent :: "session_io \<Rightarrow> queued_call \<Rightarrow> message_id \<Rightarrow> session_ctx \<Rightarrow> session_ctx" where
  "pump_sent io qc i sx1 =
     sx_emit (Cx_Called (se_link (sx_se sx1)) (qc_reply qc) i)
       (upd_se (\<lambda>s. s\<lparr>se_flight := Some \<lparr>fl_id = i, fl_action = qc_action qc,
          fl_timeout = qc_timeout qc, fl_deadline = io_at io + qc_timeout qc, fl_reply = qc_reply qc\<rparr>\<rparr>) sx1)"

lemma pump_write_safe: "session_safe cfg sx (fst (pump_write cfg env io qc rest sx))"
  unfolding pump_write_def
  by (rule session_safe_trans [OF _ session_send_safe]) (simp add: safe_next_message)

lemma pump_calls_Cons:
  "pump_calls cfg env io gone (qc # rest) sx =
     (if se_flight (sx_se sx) \<noteq> None then (upd_se (\<lambda>s. s\<lparr>se_queue := qc # rest\<rparr>) sx, None)
      else if qc_reply qc \<in> set gone then pump_calls cfg env io gone rest sx
      else case pump_write cfg env io qc rest sx of
             (sx1, Some reason) \<Rightarrow>
               (sx_emit (Cx_Result (qc_reply qc)
                  (Inl (ConnectionClosed (se_station (sx_se sx)) (qc_action qc)))) sx1, Some reason)
           | (sx1, None) \<Rightarrow> pump_calls cfg env io gone rest
               (pump_sent io qc (fst (next_message_id (sx_sv sx))) sx1))"
proof -
  have "se_link (sx_se (fst (pump_write cfg env io qc rest sx))) = se_link (sx_se sx)"
    using pump_write_safe [of cfg sx env io qc rest] by (simp add: session_safe_def)
  then show ?thesis
    by (cases "next_message_id (sx_sv sx)"; cases "pump_write cfg env io qc rest sx"; cases "snd (pump_write cfg env io qc rest sx)")
       (simp_all add: pump_write_def pump_sent_def)
qed

lemma pump_calls_keeps:
  assumes stop: "\<And>xs sx. I xs sx \<Longrightarrow> J (upd_se (\<lambda>s. s\<lparr>se_queue := xs\<rparr>) sx)"
    and gone: "\<And>qc rest sx. I (qc # rest) sx \<Longrightarrow> qc_reply qc \<in> set gone \<Longrightarrow> I rest sx"
    and fail: "\<And>qc rest sx sx1 r. I (qc # rest) sx \<Longrightarrow> se_flight (sx_se sx) = None \<Longrightarrow>
        pump_write cfg env io qc rest sx = (sx1, Some r) \<Longrightarrow>
        J (sx_emit (Cx_Result (qc_reply qc) (Inl (ConnectionClosed (se_station (sx_se sx)) (qc_action qc)))) sx1)"
    and sent: "\<And>qc rest sx sx1. I (qc # rest) sx \<Longrightarrow> se_flight (sx_se sx) = None \<Longrightarrow>
        pump_write cfg env io qc rest sx = (sx1, None) \<Longrightarrow>
        I rest (pump_sent io qc (fst (next_message_id (sx_sv sx))) sx1)"
  shows "I xs sx \<Longrightarrow> J (fst (pump_calls cfg env io gone xs sx))"
proof (induction xs arbitrary: sx)
  case Nil
  then show ?case using stop by simp
next
  case (Cons qc rest)
  obtain sx1 r where w: "pump_write cfg env io qc rest sx = (sx1, r)" by force
  show ?case
  proof (cases "se_flight (sx_se sx) \<noteq> None \<or> qc_reply qc \<in> set gone")
    case True
    then show ?thesis using stop gone Cons unfolding pump_calls_Cons by auto
  next
    case False
    then show ?thesis using fail [OF Cons.prems, of sx1] Cons.IH [OF sent [OF Cons.prems, of sx1]] w
      unfolding pump_calls_Cons by (cases r) simp_all
  qed
qed

lemma pump_safe: "session_safe cfg sx (fst (session_pump cfg env io gone sx))"
proof -
  have "session_safe cfg sx sx' \<Longrightarrow> session_safe cfg sx (fst (pump_calls cfg env io gone xs sx'))" for xs sx'
  proof (rule pump_calls_keeps [where I = "\<lambda>_. session_safe cfg sx"], goal_cases)
    case (3 qc rest s s1 r)
    then show ?case using session_safe_trans [OF _ pump_write_safe [of cfg s env io qc rest]] by simp
  next
    case (4 qc rest s s1)
    then show ?case using session_safe_trans [OF _ pump_write_safe [of cfg s env io qc rest]] by (simp add: pump_sent_def)
  qed simp_all
  then show ?thesis by (simp add: session_pump_def)
qed

lemma finish_flight_safe: "session_safe cfg sx (finish_flight result sx)"
  by (simp add: finish_flight_def split: option.split)

lemma answer_call_safe: "session_safe cfg sx (fst (answer_call cfg env io i action payload sx))"
proof -
  obtain r sv1 where d: "decide cfg env (io_now io) action payload (sx_sv sx) = (r, sv1)" by force
  let ?n = "se_link (sx_se sx)" and ?i = "se_station (sx_se sx)"
  let ?sv = "cs_track cfg env (io_now io) ?i ?n action payload r sv1"
  have sv1: "sv1 = snd (decide cfg env (io_now io) action payload (sx_sv sx))" by (simp add: d)
  have l: "same_links (sx_sv sx) sv1" unfolding sv1 by (rule decide_links)
  have "session_safe cfg sx (sx\<lparr>sx_sv := ?sv\<rparr>)"
  proof (rule safe_server)
    show "same_links (sx_sv sx) ?sv" by (rule same_links_trans [OF l cs_track_links])
    show "good cfg (sx_sv sx) \<Longrightarrow> good cfg ?sv" by (intro cs_track_good) (simp add: sv1 decide_good)
    show "sv_stations ?sv = sv_stations (sx_sv sx)" if "sess (sx_sv sx) ?i \<noteq> Some ?n"
    proof -
      have "sess sv1 ?i \<noteq> Some ?n" using that l by (simp add: same_links_def)
      then show ?thesis by (simp add: dead_track) (simp add: sv1 decide_stations)
    qed
  qed
  from session_safe_trans [OF this session_send_safe] session_safe_trans [OF this session_close_safe] this
  show ?thesis by (cases r) (simp_all add: answer_call_def Let_def d)
qed

lemma safe_malformed: "session_safe cfg sx (upd_sv (cs_emit (Cs_Malformed i text)) sx)"
  by (rule safe_upd_sv) (simp_all add: good_emit)

lemma on_text_safe: "session_safe cfg sx (fst (session_on_text cfg env io text sx))"
  unfolding session_on_text_def Let_def
  by (auto split: sum.split option.split frame.split
      intro: safe_malformed safe_record session_safe_trans [OF safe_malformed session_send_safe]
        session_safe_trans [OF safe_record answer_call_safe] session_safe_trans [OF safe_record finish_flight_safe])

lemma watchdog_fired_safe: "session_safe cfg sx (fst (watchdog_fired io sx))"
  using session_write_safe [of cfg sx io "Cx_Ping (se_link (sx_se sx))"]
  by (simp add: watchdog_fired_def split_beta)

lemma take_mail_server: "take_mail n sv = Some (c, sv1) \<Longrightarrow>
    \<exists>xs ys. sv_mail sv = xs @ (n, c) # ys \<and> sv1 = sv\<lparr>sv_mail := xs @ ys\<rparr> \<and> (\<forall>m\<in>set xs. fst m \<noteq> n)"
proof -
  assume t: "take_mail n sv = Some (c, sv1)"
  then obtain m where m: "find (\<lambda>m. fst m = n) (sv_mail sv) = Some m" "c = snd m"
      "sv1 = sv\<lparr>sv_mail := remove1 m (sv_mail sv)\<rparr>"
    by (auto simp: take_mail_def)
  then obtain xs ys where s: "sv_mail sv = xs @ m # ys" "\<forall>m\<in>set xs. fst m \<noteq> n" "fst m = n"
    unfolding find_Some_iff
    by (metis id_take_nth_drop in_set_conv_nth length_take min.absorb4 nth_take)
  then have "remove1 m (sv_mail sv) = xs @ ys" by (auto simp: remove1_append)
  with m s show ?thesis by (metis prod.collapse)
qed

lemma safe_take_mail: "take_mail (se_link (sx_se sx)) (sx_sv sx) = Some (c, sv1) \<Longrightarrow> session_safe cfg sx (sx\<lparr>sx_sv := sv1\<rparr>)"
  by (drule take_mail_server) (auto simp: session_safe_def sess_def good_def server_ok_def events_ok_def linked_def)

lemma session_command_safe: "session_safe cfg sx (fst (session_command io sx))"
  unfolding session_command_def
  by (auto split: option.split session_cmd.split intro: safe_take_mail session_safe_trans [OF safe_take_mail session_close_safe])

lemma inbound_safe: "session_safe cfg sx (fst (session_inbound cfg env io m sx))"
  unfolding session_inbound_def Let_def
  by (auto split: cx_inbound.split intro: session_safe_trans [OF _ on_text_safe])

lemma select_safe: "session_safe cfg sx (fst (select_step cfg env io br sx))"
  by (cases br)
     (auto simp: expire_in_flight_def intro: session_close_safe inbound_safe watchdog_fired_safe
        session_command_safe finish_flight_safe)

lemma iteration_safe: "session_safe cfg sx (fst (session_iteration cfg env io gone br sx))"
proof -
  obtain sx1 r where p: "session_pump cfg env io gone sx = (sx1, r)" by force
  then have "session_safe cfg sx sx1" using pump_safe [of cfg sx env io gone] by simp
  then show ?thesis using p session_safe_trans [OF _ select_safe, of cfg sx sx1 env io br]
    by (cases r) (simp_all add: session_iteration_def)
qed

end
