(* ===== verification/Csms_Session_Books.thy ===== *)
theory Csms_Session_Books
  imports Csms_Session_Laws
begin

text \<open>
  The books on the calls of the central system: where every ticket is, which CALL holds the slot of a
  session, and which CALL an answer belongs to.
\<close>

subsection \<open>Readings of the state and the log\<close>

definition mail_tickets :: "csms_server \<Rightarrow> nat list" where
  "mail_tickets sv = List.map_filter (\<lambda>m. case snd m of Cmd_Call qc \<Rightarrow> Some (qc_reply qc) | _ \<Rightarrow> None) (sv_mail sv)"

definition flight_tickets :: "csms_session \<Rightarrow> nat list" where
  "flight_tickets se = (case se_flight se of None \<Rightarrow> [] | Some flight \<Rightarrow> [fl_reply flight])"

definition se_tickets :: "csms_session \<Rightarrow> nat list" where
  "se_tickets se = map qc_reply (se_queue se) @ flight_tickets se"

definition log_tickets :: "cx_effect list \<Rightarrow> nat list" where
  "log_tickets es = List.map_filter (\<lambda>e. case e of Cx_Result k _ \<Rightarrow> Some k | _ \<Rightarrow> None) es"

definition called_ids :: "cx_effect list \<Rightarrow> message_id list" where
  "called_ids es = List.map_filter (\<lambda>e. case e of Cx_Called _ _ i \<Rightarrow> Some i | _ \<Rightarrow> None) es"

text \<open>The slot of session \<open>n\<close> after its effects; \<open>None\<close> if a CALL goes out while the slot is taken.\<close>

fun slot_after :: "u64 \<Rightarrow> message_id option \<Rightarrow> cx_effect list \<Rightarrow> message_id option option" where
  "slot_after n s [] = Some s"
| "slot_after n s (Cx_Wire m (Frame_Call i a p) # es) =
     (if m \<noteq> n then slot_after n s es else if s = None then slot_after n (Some i) es else None)"
| "slot_after n s (Cx_Closed_Slot m i # es) =
     (if m \<noteq> n then slot_after n s es else if s = Some i then slot_after n None es else None)"
| "slot_after n s (_ # es) = slot_after n s es"

lemma slot_after_append: "slot_after n s (es @ fs) = Option.bind (slot_after n s es) (\<lambda>t. slot_after n t fs)"
  by (induction n s es rule: slot_after.induct) auto

fun quiet_effect :: "cx_effect \<Rightarrow> bool" where
  "quiet_effect (Cx_Wire n f) = (message_type f \<noteq> MESSAGE_TYPE_CALL)"
| "quiet_effect (Cx_Ping n) = True"
| "quiet_effect (Cx_Close n c r) = True"
| "quiet_effect _ = False"

lemma quiet_slot: "quiet_effect e \<Longrightarrow> slot_after n s [e] = Some s"
proof (cases e)
  case (Cx_Wire m f)
  assume "quiet_effect e"
  then show ?thesis using Cx_Wire by (cases f) (simp_all add: type_defs)
qed simp_all

lemma slots_quiet: "\<forall>e\<in>set es. quiet_effect e \<Longrightarrow> slot_after n s es = Some s"
proof (induction es)
  case (Cons e es)
  then show ?case using quiet_slot [of e n s] slot_after_append [of n s "[e]" es] by simp
qed simp

lemma readings_append [simp]:
  "log_tickets (es @ fs) = log_tickets es @ log_tickets fs"
  "called_ids (es @ fs) = called_ids es @ called_ids fs"
  "log_tickets [] = []" "called_ids [] = []"
  "log_tickets (e # es) = (case e of Cx_Result k _ \<Rightarrow> [k] | _ \<Rightarrow> []) @ log_tickets es"
  "called_ids (e # es) = (case e of Cx_Called _ _ i \<Rightarrow> [i] | _ \<Rightarrow> []) @ called_ids es"
  by (simp_all add: log_tickets_def called_ids_def List.map_filter_def split: cx_effect.split)

lemma quiet_readings:
  "\<forall>e\<in>set es. quiet_effect e \<Longrightarrow> log_tickets es = []" "\<forall>e\<in>set es. quiet_effect e \<Longrightarrow> called_ids es = []"
proof -
  have "quiet_effect e \<Longrightarrow> log_tickets [e] = [] \<and> called_ids [e] = []" for e by (cases e) simp_all
  then show "\<forall>e\<in>set es. quiet_effect e \<Longrightarrow> log_tickets es = []" "\<forall>e\<in>set es. quiet_effect e \<Longrightarrow> called_ids es = []"
    using readings_append(1,2) [of "[_]"] by (induction es) auto
qed

subsection \<open>Quiet functions\<close>

definition quiet :: "session_ctx \<Rightarrow> session_ctx \<Rightarrow> bool" where
  "quiet sx sx' =
     (se_flight (sx_se sx') = se_flight (sx_se sx) \<and> se_queue (sx_se sx') = se_queue (sx_se sx)
      \<and> se_link (sx_se sx') = se_link (sx_se sx)
      \<and> sv_mail (sx_sv sx') = sv_mail (sx_sv sx) \<and> sv_next_message (sx_sv sx') = sv_next_message (sx_sv sx)
      \<and> (\<exists>es. sx_log sx' = sx_log sx @ es \<and> (\<forall>e\<in>set es. quiet_effect e)))"

lemma quiet_ctx_refl [simp]: "quiet sx sx"
  by (simp add: quiet_def)

lemma quiet_ctx_trans: "quiet a b \<Longrightarrow> quiet b c \<Longrightarrow> quiet a c"
  by (auto simp: quiet_def)

lemma quiet_upd_se [simp]:
  "(\<And>s. se_flight (f s) = se_flight s) \<Longrightarrow> (\<And>s. se_queue (f s) = se_queue s) \<Longrightarrow>
   (\<And>s. se_link (f s) = se_link s) \<Longrightarrow> quiet sx (upd_se f sx') = quiet sx sx'"
  by (simp add: quiet_def)

lemma quiet_server: "same_links (sx_sv sx) sv' \<Longrightarrow> quiet sx (sx\<lparr>sx_sv := sv'\<rparr>)"
  by (simp add: quiet_def same_links_def)

lemma quiet_upd_sv: "same_links (sx_sv sx) (g (sx_sv sx)) \<Longrightarrow> quiet sx (upd_sv g sx)"
  unfolding upd_sv_def by (rule quiet_server)

lemma quiet_record: "quiet sx (upd_sv (record_frame cfg env now i n out f) sx)"
  by (rule quiet_upd_sv) (rule record_frame_links)

lemma write_quiet: "quiet_effect e \<Longrightarrow> quiet sx (snd (session_write io e sx))"
  by (auto simp: session_write_def Let_def quiet_def)

lemma send_quiet: "message_type f \<noteq> MESSAGE_TYPE_CALL \<Longrightarrow> quiet sx (fst (session_send cfg env io f sx))"
  unfolding session_send_def Let_def
  by (simp add: split_beta) (rule quiet_ctx_trans [OF quiet_record write_quiet], simp)

lemma close_quiet: "quiet sx (session_close io code reason sx)"
  unfolding session_close_def by (rule write_quiet) simp

lemma answer_call_quiet: "quiet sx (fst (answer_call cfg env io i action payload sx))"
proof -
  obtain r sv1 where d: "decide cfg env (io_now io) action payload (sx_sv sx) = (r, sv1)" by force
  let ?sx = "sx\<lparr>sx_sv := cs_track cfg env (io_now io) (se_station (sx_se sx)) (se_link (sx_se sx)) action payload r sv1\<rparr>"
  have "same_links (sx_sv sx) sv1" using decide_links [of "sx_sv sx" cfg env "io_now io" action payload] by (simp add: d)
  then have q: "quiet sx ?sx" by (intro quiet_server) (rule same_links_trans [OF _ cs_track_links])
  have m: "message_type (frame_call_error i c t) \<noteq> MESSAGE_TYPE_CALL" "message_type (Frame_Result i v) \<noteq> MESSAGE_TYPE_CALL" for c t v
    by (simp_all add: frame_call_error_def type_defs)
  from q quiet_ctx_trans [OF q send_quiet [OF m(1)]] quiet_ctx_trans [OF q send_quiet [OF m(2)]] quiet_ctx_trans [OF q close_quiet]
  show ?thesis by (cases r) (simp_all add: answer_call_def Let_def d)
qed

lemma error_reply_type: "frame_error_reply pr e = Some f \<Longrightarrow> message_type f \<noteq> MESSAGE_TYPE_CALL"
  by (auto simp: frame_error_reply_def frame_call_error_def type_defs split: option.splits if_splits)

lemma watchdog_quiet: "quiet sx (fst (watchdog_fired io sx))"
  using write_quiet [of "Cx_Ping (se_link (sx_se sx))" sx io] by (simp add: watchdog_fired_def split_beta)

text \<open>An inbound text is quiet, or its frame ends the outstanding CALL.\<close>

lemma on_text_cases:
  "quiet sx (fst (session_on_text cfg env io text sx))
   \<or> (\<exists>sx1 f fl. quiet sx sx1 \<and> se_flight (sx_se sx) = Some fl \<and> fl_id fl = frame_id f
        \<and> message_type f \<noteq> MESSAGE_TYPE_CALL
        \<and> fst (session_on_text cfg env io text sx) = finish_flight (\<lambda>_. Inr f) sx1)"
proof (cases "parse_frame (ce_parse env) text")
  case (Inl e)
  let ?sx = "upd_sv (cs_emit (Cs_Malformed (se_station (sx_se sx)) (take MALFORMED_TEXT_CHARS text))) sx"
  have q: "quiet sx ?sx" by (rule quiet_upd_sv) simp
  show ?thesis
    using Inl q quiet_ctx_trans [OF q send_quiet [OF error_reply_type]]
    by (cases "frame_error_reply (ce_print env) e") (simp_all add: session_on_text_def Let_def)
next
  case (Inr f)
  let ?sx = "upd_sv (record_frame cfg env (io_now io) (se_station (sx_se sx)) (se_link (sx_se sx)) False f) sx"
  have q: "quiet sx ?sx" by (rule quiet_record)
  show ?thesis
  proof (cases "message_type f = MESSAGE_TYPE_CALL")
    case True
    then obtain i a p where f: "f = Frame_Call i a p" by (cases f) (auto simp: type_defs)
    show ?thesis using Inr q quiet_ctx_trans [OF q answer_call_quiet] by (simp add: session_on_text_def Let_def f)
  next
    case False
    then have "fst (session_on_text cfg env io text sx) =
       (if is_some_and (se_flight (sx_se sx)) (\<lambda>flight. fl_id flight = frame_id f) then finish_flight (\<lambda>_. Inr f) ?sx else ?sx)"
      using Inr by (cases f) (simp_all add: session_on_text_def Let_def type_defs)
    with q False show ?thesis by (cases "se_flight (sx_se sx)") auto
  qed
qed

text \<open>One branch of the loop: quiet, the end of the outstanding CALL, or a call that joins the queue.\<close>

definition mail_to_queue :: "session_ctx \<Rightarrow> session_ctx \<Rightarrow> bool" where
  "mail_to_queue sx sx' =
     (\<exists>xs qc ys. sv_mail (sx_sv sx) = xs @ (se_link (sx_se sx), Cmd_Call qc) # ys
        \<and> sx' = upd_se (\<lambda>s. s\<lparr>se_queue := se_queue s @ [qc]\<rparr>) (sx\<lparr>sx_sv := (sx_sv sx)\<lparr>sv_mail := xs @ ys\<rparr>\<rparr>))"

definition ends_call :: "session_ctx \<Rightarrow> session_ctx \<Rightarrow> bool" where
  "ends_call sx sx' =
     (\<exists>sx1 fl r. quiet sx sx1 \<and> se_flight (sx_se sx) = Some fl
        \<and> (\<forall>f. r = Inr f \<longrightarrow> fl_id fl = frame_id f \<and> message_type f \<noteq> MESSAGE_TYPE_CALL)
        \<and> sx' = finish_flight (\<lambda>_. r) sx1)"

definition mail_closed :: "session_ctx \<Rightarrow> session_ctx \<Rightarrow> bool" where
  "mail_closed sx sx' =
     (\<exists>xs c r ys. sv_mail (sx_sv sx) = xs @ (se_link (sx_se sx), Cmd_Close c r) # ys
        \<and> quiet (sx\<lparr>sx_sv := (sx_sv sx)\<lparr>sv_mail := xs @ ys\<rparr>\<rparr>) sx')"

lemma command_cases:
  "(let sx' = fst (session_command io sx) in quiet sx sx' \<or> mail_to_queue sx sx' \<or> mail_closed sx sx')"
proof (cases "take_mail (se_link (sx_se sx)) (sx_sv sx)")
  case None
  then show ?thesis by (simp add: session_command_def)
next
  case (Some cs)
  obtain c sv1 where cs: "cs = (c, sv1)" by force
  from take_mail_server [of "se_link (sx_se sx)" "sx_sv sx" c sv1] Some cs obtain xs ys where
    m: "sv_mail (sx_sv sx) = xs @ (se_link (sx_se sx), c) # ys" "sv1 = (sx_sv sx)\<lparr>sv_mail := xs @ ys\<rparr>" by auto
  show ?thesis
  proof (cases c)
    case (Cmd_Call qc)
    with Some cs m have "mail_to_queue sx (fst (session_command io sx))"
      unfolding mail_to_queue_def session_command_def by auto
    then show ?thesis by simp
  next
    case (Cmd_Close code reason)
    have "mail_closed sx (fst (session_command io sx))"
      unfolding mail_closed_def
    proof (intro exI conjI)
      show "sv_mail (sx_sv sx) = xs @ (se_link (sx_se sx), Cmd_Close code reason) # ys" using m Cmd_Close by simp
      show "quiet (sx\<lparr>sx_sv := (sx_sv sx)\<lparr>sv_mail := xs @ ys\<rparr>\<rparr>) (fst (session_command io sx))"
        using Some cs m Cmd_Close close_quiet by (simp add: session_command_def)
    qed
    then show ?thesis by simp
  qed
qed

lemma select_cases:
  "(let sx' = fst (select_step cfg env io br sx) in
      quiet sx sx' \<or> ends_call sx sx' \<or> mail_to_queue sx sx' \<or> mail_closed sx sx')"
proof (cases br)
  case (Sel_Inbound m)
  let ?sx = "(if message_ok m then upd_se (\<lambda>s. s\<lparr>se_last_seen := io_at io, se_ping := None\<rparr>) sx else sx)"
  have q: "quiet sx ?sx" by simp
  show ?thesis
  proof (cases m)
    case (Cx_Text body)
    let ?f = "fst (session_on_text cfg env io body ?sx)"
    have s: "fst (select_step cfg env io br sx) = ?f" by (simp add: Sel_Inbound Cx_Text session_inbound_def)
    consider "quiet ?sx ?f" | "ends_call sx ?f"
    proof (cases "quiet ?sx ?f")
      case False
      then obtain sx1 f fl where e: "quiet ?sx sx1" "se_flight (sx_se ?sx) = Some fl" "fl_id fl = frame_id f"
          "message_type f \<noteq> MESSAGE_TYPE_CALL" "?f = finish_flight (\<lambda>_. Inr f) sx1"
        using on_text_cases [of ?sx cfg env io body] by blast
      have "ends_call sx ?f"
        unfolding ends_call_def
        by (rule exI [of _ sx1], rule exI [of _ fl], rule exI [of _ "Inr f"])
           (use e quiet_ctx_trans [OF q e(1)] in \<open>simp_all split: if_splits\<close>)
      then show thesis by (rule that(2))
    qed (rule that(1))
    then show ?thesis unfolding s using quiet_ctx_trans [OF q] by cases (auto simp: Let_def)
  qed (use q Sel_Inbound in \<open>auto simp: session_inbound_def\<close>)
next
  case Sel_Deadline
  show ?thesis
  proof (cases "\<exists>fl. se_flight (sx_se sx) = Some fl \<and> fl_deadline fl \<le> io_at io")
    case True
    then obtain fl where fl: "se_flight (sx_se sx) = Some fl" "fl_deadline fl \<le> io_at io" by blast
    let ?r = "Inl (Cs_Timeout (se_station (sx_se sx)) (fl_action fl) (fl_timeout fl)) :: csms_error + frame"
    have "ends_call sx (finish_flight (\<lambda>_. ?r) sx)"
      unfolding ends_call_def
      by (rule exI [of _ sx], rule exI [of _ fl], rule exI [of _ ?r]) (simp add: fl)
    moreover have "fst (select_step cfg env io br sx) = finish_flight (\<lambda>_. ?r) sx"
      by (simp add: Sel_Deadline fl expire_in_flight_def finish_flight_def)
    ultimately show ?thesis by (simp add: Let_def)
  qed (auto simp: Sel_Deadline Let_def is_some_and_iff)
qed (use command_cases in \<open>auto simp: Let_def intro: close_quiet watchdog_quiet\<close>)

subsection \<open>The books of one session's step\<close>

text \<open>
  \<open>others\<close> are the tickets the other sessions hold, \<open>base\<close> the slots of the other sessions.
\<close>

definition books :: "nat list \<Rightarrow> nat list \<Rightarrow> nat list \<Rightarrow> session_ctx \<Rightarrow> bool" where
  "books ts gone others sx =
     accounted ts gone (others @ mail_tickets (sx_sv sx) @ se_tickets (sx_se sx) @ log_tickets (sx_log sx))"

definition slots :: "(u64 \<Rightarrow> message_id option) \<Rightarrow> session_ctx \<Rightarrow> bool" where
  "slots base sx =
     (\<forall>m. slot_after m None (sx_log sx) =
          Some (if m = se_link (sx_se sx) then map_option fl_id (se_flight (sx_se sx)) else base m))"

definition csms_id :: "nat \<Rightarrow> message_id" where
  "csms_id j = ''csms-'' @ show_nat j"

definition log_matched :: "nat \<Rightarrow> cx_effect list \<Rightarrow> bool" where
  "log_matched nm es =
     ((\<forall>k f. Cx_Result k (Inr f) \<in> set es \<longrightarrow>
          message_type f \<noteq> MESSAGE_TYPE_CALL \<and> (\<exists>n. Cx_Called n k (frame_id f) \<in> set es))
      \<and> (\<forall>n k i. Cx_Called n k i \<in> set es \<longrightarrow> (\<exists>a p. Cx_Wire n (Frame_Call i a p) \<in> set es))
      \<and> distinct (called_ids es) \<and> (\<forall>i\<in>set (called_ids es). \<exists>j\<le>nm. i = csms_id j))"

definition flight_called :: "cx_effect list \<Rightarrow> csms_session \<Rightarrow> bool" where
  "flight_called es se =
     (\<forall>fl. se_flight se = Some fl \<longrightarrow> Cx_Called (se_link se) (fl_reply fl) (fl_id fl) \<in> set es)"

definition ctx_ok ::
  "nat list \<Rightarrow> nat list \<Rightarrow> nat list \<Rightarrow> (u64 \<Rightarrow> message_id option) \<Rightarrow> session_ctx \<Rightarrow> bool" where
  "ctx_ok ts gone others base sx =
     (books ts gone others sx \<and> slots base sx \<and> log_matched (sv_next_message (sx_sv sx)) (sx_log sx)
      \<and> flight_called (sx_log sx) (sx_se sx))"

lemma csms_id_inj: "csms_id j = csms_id k \<longleftrightarrow> j = k"
  using digits_val_show_nat by (metis csms_id_def same_append_eq)

lemma books_by:
  assumes "ctx_ok ts gone others base sx"
    and "mset (mail_tickets (sx_sv sx') @ se_tickets (sx_se sx') @ log_tickets (sx_log sx'))
       = mset (mail_tickets (sx_sv sx) @ se_tickets (sx_se sx) @ log_tickets (sx_log sx))"
  shows "books ts gone others sx'"
proof -
  have "accounted ts gone (others @ mail_tickets (sx_sv sx) @ se_tickets (sx_se sx) @ log_tickets (sx_log sx))"
    using assms(1) by (simp add: ctx_ok_def books_def)
  then show ?thesis
    unfolding books_def using assms(2) by (subst accounted_mset [symmetric]) auto
qed

lemmas ticket_simps = se_tickets_def flight_tickets_def

text \<open>Effects that neither call nor answer keep the matching.\<close>

lemma log_matched_quiet:
  "log_matched nm es \<Longrightarrow> nm \<le> nm' \<Longrightarrow> called_ids fs = [] \<Longrightarrow>
   (\<forall>k f. Cx_Result k (Inr f) \<in> set fs \<longrightarrow> message_type f \<noteq> MESSAGE_TYPE_CALL \<and> (\<exists>n. Cx_Called n k (frame_id f) \<in> set es)) \<Longrightarrow>
   (\<forall>n k i. Cx_Called n k i \<notin> set fs) \<Longrightarrow> log_matched nm' (es @ fs)"
  unfolding log_matched_def by (simp add: ball_Un) (metis le_trans)

lemma quiet_no_call: "\<forall>e\<in>set es. quiet_effect e \<Longrightarrow> Cx_Called n k i \<notin> set es"
  "\<forall>e\<in>set es. quiet_effect e \<Longrightarrow> Cx_Result k r \<notin> set es"
  by auto

lemma mail_tickets_same: "sv_mail sv' = sv_mail sv \<Longrightarrow> mail_tickets sv' = mail_tickets sv"
  by (simp add: mail_tickets_def)

lemma quiet_ctx:
  assumes q: "quiet sx sx'" and ok: "ctx_ok ts gone others base sx"
  shows "ctx_ok ts gone others base sx'"
proof -
  obtain es where es: "sx_log sx' = sx_log sx @ es" "\<forall>e\<in>set es. quiet_effect e"
    using q by (auto simp: quiet_def)
  note r = quiet_readings [OF es(2)] slots_quiet [OF es(2)] quiet_no_call [OF es(2)]
  have m: "mail_tickets (sx_sv sx') = mail_tickets (sx_sv sx)"    by (rule mail_tickets_same) (use q in \<open>simp add: quiet_def\<close>)
  have "books ts gone others sx'"
    using q ok by (simp add: ctx_ok_def books_def quiet_def m se_tickets_def flight_tickets_def es r)
  moreover have "slots base sx'"
    using q ok by (simp add: ctx_ok_def slots_def quiet_def es r slot_after_append)
  moreover have "log_matched (sv_next_message (sx_sv sx')) (sx_log sx')"
    unfolding es(1) by (rule log_matched_quiet) (use q ok r in \<open>auto simp: ctx_ok_def quiet_def\<close>)
  moreover have "flight_called (sx_log sx') (sx_se sx')"
    using q ok by (simp add: ctx_ok_def flight_called_def quiet_def es)
  ultimately show ?thesis by (simp add: ctx_ok_def)
qed

lemma mail_tickets_split:
  "sv_mail sv = xs @ (n, c) # ys \<Longrightarrow>
   mset (mail_tickets sv) = mset (mail_tickets (sv\<lparr>sv_mail := xs @ ys\<rparr>))
     + mset (case c of Cmd_Call qc \<Rightarrow> [qc_reply qc] | _ \<Rightarrow> [])"
  by (simp add: mail_tickets_def List.map_filter_def split: session_cmd.split)

lemma mail_to_queue_ctx:
  assumes "mail_to_queue sx sx'" and ok: "ctx_ok ts gone others base sx"
  shows "ctx_ok ts gone others base sx'"
proof -
  obtain xs qc ys where m: "sv_mail (sx_sv sx) = xs @ (se_link (sx_se sx), Cmd_Call qc) # ys"
    and s: "sx' = upd_se (\<lambda>s. s\<lparr>se_queue := se_queue s @ [qc]\<rparr>) (sx\<lparr>sx_sv := (sx_sv sx)\<lparr>sv_mail := xs @ ys\<rparr>\<rparr>)"
    using assms by (auto simp: mail_to_queue_def)
  have "books ts gone others sx'"
    by (rule books_by [OF ok]) (use mail_tickets_split [OF m] in \<open>simp add: s ticket_simps\<close>)
  then show ?thesis using ok by (simp add: ctx_ok_def s slots_def flight_called_def)
qed

lemma mail_closed_ctx:
  assumes "mail_closed sx sx'" and ok: "ctx_ok ts gone others base sx"
  shows "ctx_ok ts gone others base sx'"
proof -
  obtain xs c r ys where m: "sv_mail (sx_sv sx) = xs @ (se_link (sx_se sx), Cmd_Close c r) # ys"
    and q: "quiet (sx\<lparr>sx_sv := (sx_sv sx)\<lparr>sv_mail := xs @ ys\<rparr>\<rparr>) sx'"
    using assms by (auto simp: mail_closed_def)
  have "books ts gone others (sx\<lparr>sx_sv := (sx_sv sx)\<lparr>sv_mail := xs @ ys\<rparr>\<rparr>)"
    by (rule books_by [OF ok]) (use mail_tickets_split [OF m] in simp)
  then have "ctx_ok ts gone others base (sx\<lparr>sx_sv := (sx_sv sx)\<lparr>sv_mail := xs @ ys\<rparr>\<rparr>)"
    using ok by (simp add: ctx_ok_def slots_def flight_called_def)
  from quiet_ctx [OF q this] show ?thesis .
qed

lemma finish_flight_ctx:
  assumes ok: "ctx_ok ts gone others base sx" and fl: "se_flight (sx_se sx) = Some fl"
    and r: "\<And>f. r = Inr f \<Longrightarrow> fl_id fl = frame_id f \<and> message_type f \<noteq> MESSAGE_TYPE_CALL"
  shows "ctx_ok ts gone others base (finish_flight (\<lambda>_. r) sx)"
proof -
  let ?es = "[Cx_Closed_Slot (se_link (sx_se sx)) (fl_id fl), Cx_Result (fl_reply fl) r]"
  have s: "finish_flight (\<lambda>_. r) sx = upd_se (\<lambda>s. s\<lparr>se_flight := None\<rparr>) (sx\<lparr>sx_log := sx_log sx @ ?es\<rparr>)"
    by (simp add: finish_flight_def fl sx_emit_def upd_se_def)
  have "books ts gone others (finish_flight (\<lambda>_. r) sx)"
    by (rule books_by [OF ok]) (simp add: s ticket_simps fl)
  moreover have "slots base (finish_flight (\<lambda>_. r) sx)"
    using ok by (simp add: s ctx_ok_def slots_def fl slot_after_append)
  moreover have "log_matched (sv_next_message (sx_sv sx)) (sx_log sx @ ?es)"
  proof (rule log_matched_quiet [of "sv_next_message (sx_sv sx)"])
    have "Cx_Called (se_link (sx_se sx)) (fl_reply fl) (fl_id fl) \<in> set (sx_log sx)"
      using ok fl by (simp add: ctx_ok_def flight_called_def)
    then show "\<forall>k f. Cx_Result k (Inr f) \<in> set ?es \<longrightarrow>
        message_type f \<noteq> MESSAGE_TYPE_CALL \<and> (\<exists>n. Cx_Called n k (frame_id f) \<in> set (sx_log sx))"
      using r by auto
  qed (use ok in \<open>simp_all add: ctx_ok_def\<close>)
  ultimately show ?thesis by (simp add: ctx_ok_def flight_called_def s)
qed

lemma ends_call_ctx:
  assumes "ends_call sx sx'" and ok: "ctx_ok ts gone others base sx"
  shows "ctx_ok ts gone others base sx'"
proof -
  obtain sx1 fl r where e: "quiet sx sx1" "se_flight (sx_se sx) = Some fl" "sx' = finish_flight (\<lambda>_. r) sx1"
      "\<forall>f. r = Inr f \<longrightarrow> fl_id fl = frame_id f \<and> message_type f \<noteq> MESSAGE_TYPE_CALL"
    using assms(1) unfolding ends_call_def by blast
  have "se_flight (sx_se sx1) = Some fl" using e by (simp add: quiet_def)
  from finish_flight_ctx [OF quiet_ctx [OF e(1) ok] this] e show ?thesis by blast
qed

text \<open>The pump: a CALL leaves the queue for the slot, or for its result.\<close>

lemma pump_write_effect:
  assumes "pump_write cfg env io qc rest sx = (sx1, r)"
  shows "se_flight (sx_se sx1) = se_flight (sx_se sx)" "se_queue (sx_se sx1) = rest"
    "se_link (sx_se sx1) = se_link (sx_se sx)" "sv_mail (sx_sv sx1) = sv_mail (sx_sv sx)"
    "sv_next_message (sx_sv sx1) = Suc (sv_next_message (sx_sv sx))"
    "sx_log sx1 = sx_log sx @ (if r = None
       then [Cx_Wire (se_link (sx_se sx)) (Frame_Call (csms_id (Suc (sv_next_message (sx_sv sx)))) (qc_action qc) (qc_payload qc))]
       else [])"
proof -
  have l: "same_links sv (record_frame cfg env now i n out f sv)" for sv now i n out f
    by (rule record_frame_links)
  show "se_flight (sx_se sx1) = se_flight (sx_se sx)" "se_queue (sx_se sx1) = rest"
    "se_link (sx_se sx1) = se_link (sx_se sx)" "sv_mail (sx_sv sx1) = sv_mail (sx_sv sx)"
    "sv_next_message (sx_sv sx1) = Suc (sv_next_message (sx_sv sx))"
    "sx_log sx1 = sx_log sx @ (if r = None
       then [Cx_Wire (se_link (sx_se sx)) (Frame_Call (csms_id (Suc (sv_next_message (sx_sv sx)))) (qc_action qc) (qc_payload qc))]
       else [])"
    using assms l [unfolded same_links_def]
    by (auto simp: pump_write_def session_send_def session_write_def Let_def next_message_id_def csms_id_def split: if_splits)
qed

lemma log_matched_call:
  assumes "log_matched nm es"
  shows "log_matched (Suc nm) (es @ [Cx_Wire n (Frame_Call (csms_id (Suc nm)) a p), Cx_Called n k (csms_id (Suc nm))])"
proof -
  have new: "csms_id (Suc nm) \<notin> set (called_ids es)"
    using assms by (force simp: log_matched_def csms_id_inj)
  then show ?thesis
    using assms unfolding log_matched_def by (auto simp: csms_id_inj intro: le_SucI) (metis le_SucI)+
qed

lemma pump_ctx: "ctx_ok ts gone others base sx \<Longrightarrow> ctx_ok ts gone others base (fst (session_pump cfg env io gone sx))"
proof -
  let ?I = "\<lambda>xs s. ctx_ok ts gone others base (upd_se (\<lambda>s. s\<lparr>se_queue := xs\<rparr>) s)"
  have "?I xs s \<Longrightarrow> ctx_ok ts gone others base (fst (pump_calls cfg env io gone xs s))" for xs s
  proof (rule pump_calls_keeps [where I = ?I], goal_cases)
    case (2 qc rest s)
    then have "accounted ts gone (others @ mail_tickets (sx_sv s) @ (qc_reply qc # map qc_reply rest) @ flight_tickets (sx_se s) @ log_tickets (sx_log s))"
      by (simp add: ctx_ok_def books_def ticket_simps)
    then have "accounted ts gone (qc_reply qc # others @ mail_tickets (sx_sv s) @ map qc_reply rest @ flight_tickets (sx_se s) @ log_tickets (sx_log s))"
      by (subst accounted_mset [symmetric]) auto
    from accounted_drop [OF this 2(3)] 2 show ?case
      by (simp add: ctx_ok_def books_def ticket_simps slots_def flight_called_def)
  next
    case (3 qc rest s s1 r)
    note w = pump_write_effect [OF 3(4)]
    have "books ts gone others (sx_emit (Cx_Result (qc_reply qc) (Inl (ConnectionClosed (se_station (sx_se s)) (qc_action qc)))) s1)"
      by (rule books_by [OF 3(2)]) (use 3(3) w in \<open>simp add: ticket_simps mail_tickets_same [OF w(4)]\<close>)
    moreover have "log_matched (sv_next_message (sx_sv s1)) (sx_log s1 @ [Cx_Result (qc_reply qc) (Inl e)])" for e
      by (rule log_matched_quiet) (use 3 w in \<open>auto simp: ctx_ok_def\<close>)
    ultimately show ?case using 3 w by (simp add: ctx_ok_def slots_def flight_called_def slot_after_append)
  next
    case (4 qc rest s s1)
    note w = pump_write_effect [OF 4(4)]
    have i: "fst (next_message_id (sx_sv s)) = csms_id (Suc (sv_next_message (sx_sv s)))"
      by (simp add: next_message_id_def csms_id_def)
    have "books ts gone others (upd_se (\<lambda>s. s\<lparr>se_queue := rest\<rparr>) (pump_sent io qc (fst (next_message_id (sx_sv s))) s1))"
      by (rule books_by [OF 4(2)]) (use 4(3) w in \<open>simp add: pump_sent_def ticket_simps mail_tickets_same [OF w(4)]\<close>)
    moreover have "log_matched (sv_next_message (sx_sv s1)) (sx_log (pump_sent io qc (fst (next_message_id (sx_sv s))) s1))"
      using log_matched_call 4 w by (simp add: pump_sent_def ctx_ok_def i)
    ultimately show ?case
      using 4 w by (simp add: ctx_ok_def slots_def flight_called_def pump_sent_def slot_after_append i)
  qed simp_all
  note run = this
  have same: "upd_se (\<lambda>s. s\<lparr>se_queue := se_queue (sx_se sx)\<rparr>) sx = sx" by (simp add: upd_se_def)
  assume "ctx_ok ts gone others base sx"
  with run [of "se_queue (sx_se sx)" sx] show ?thesis unfolding session_pump_def same .
qed

lemma iteration_ctx:
  assumes "ctx_ok ts gone others base sx"
  shows "ctx_ok ts gone others base (fst (session_iteration cfg env io gone br sx))"
proof -
  obtain sx1 r where p: "session_pump cfg env io gone sx = (sx1, r)" by force
  then have "ctx_ok ts gone others base sx1" using pump_ctx [OF assms, of cfg env io] by simp
  then have "ctx_ok ts gone others base (fst (select_step cfg env io br sx1))"
    using select_cases [of cfg env io br sx1, unfolded Let_def]
    by (elim disjE) (erule (1) quiet_ctx ends_call_ctx mail_to_queue_ctx mail_closed_ctx)+
  then show ?thesis using p \<open>ctx_ok ts gone others base sx1\<close> by (cases r) (simp_all add: session_iteration_def)
qed

end
