(* ===== verification/Csms_World.thy ===== *)
theory Csms_World
  imports Csms_Session_Books
begin

text \<open>
  The central system as a whole: what holds between its registry, its sessions, the calls made through
  its handle and the log after every sequence of steps.
\<close>

subsection \<open>One entry of an ordered map\<close>

lemma bt_get_split:
  "bt_wf m \<Longrightarrow> bt_get m k = Some v \<Longrightarrow>
   \<exists>xs ys. m = xs @ (k, v) # ys \<and> (\<forall>v'. bt_insert k v' m = xs @ (k, v') # ys) \<and> bt_remove k m = xs @ ys"
proof (induction m)
  case (Cons ab m)
  obtain a b where ab: "ab = (a, b)" by force
  show ?case
  proof (cases "k = a")
    case True
    with Cons.prems ab show ?thesis by (intro exI [of _ "[]"] exI [of _ m]) auto
  next
    case False
    with Cons.prems ab have g: "bt_get m k = Some v" and wf: "bt_wf m" by auto
    then have "a < k" using Cons.prems(1) ab by (fastforce dest: bt_get_SomeD)
    moreover obtain xs ys where "m = xs @ (k, v) # ys" "\<forall>v'. bt_insert k v' m = xs @ (k, v') # ys" "bt_remove k m = xs @ ys"
      using Cons.IH [OF wf g] by blast
    ultimately show ?thesis using ab False by (intro exI [of _ "(a, b) # xs"] exI [of _ ys]) auto
  qed
qed simp

lemma bt_insert_split:
  "bt_wf m \<Longrightarrow> bt_get m k = None \<Longrightarrow> \<exists>xs ys. m = xs @ ys \<and> bt_insert k v m = xs @ (k, v) # ys"
proof (induction m)
  case (Cons ab m)
  obtain a b where ab: "ab = (a, b)" by force
  show ?case
  proof (cases "k < a")
    case True
    with ab show ?thesis by (intro exI [of _ "[]"] exI [of _ "ab # m"]) auto
  next
    case False
    with Cons.prems ab obtain xs ys where "m = xs @ ys" "bt_insert k v m = xs @ (k, v) # ys" "k \<noteq> a"
      using Cons.IH by (auto split: if_splits)
    with ab False show ?thesis by (intro exI [of _ "(a, b) # xs"] exI [of _ ys]) auto
  qed
qed simp

lemma bt_empty: "bt_wf m \<Longrightarrow> (\<And>k. bt_get m k = None) \<Longrightarrow> m = []"
  by (cases m) (auto, metis option.distinct(1))

subsection \<open>The invariant\<close>

definition session_tickets :: "(u64, csms_session) btree \<Rightarrow> nat list" where
  "session_tickets m = concat (map (se_tickets \<circ> snd) m)"

definition links_ok :: "csms_world \<Rightarrow> bool" where
  "links_ok w =
     (bt_wf (cw_sessions w)
      \<and> (\<forall>n se. bt_get (cw_sessions w) n = Some se \<longrightarrow>
           se_link se = n \<and> n \<le> sv_next_session (cw_server w) \<and> flight_called (cw_log w) se)
      \<and> (\<forall>i n. sess (cw_server w) i = Some n \<longrightarrow>
           (\<exists>se. bt_get (cw_sessions w) n = Some se \<and> se_station se = i))
      \<and> (\<forall>m\<in>set (sv_mail (cw_server w)). bt_contains (cw_sessions w) (fst m)))"

definition slot_of :: "csms_world \<Rightarrow> u64 \<Rightarrow> message_id option" where
  "slot_of w n = Option.bind (bt_get (cw_sessions w) n) (\<lambda>se. map_option fl_id (se_flight se))"

definition books_ok :: "csms_world \<Rightarrow> bool" where
  "books_ok w =
     (accounted (map mc_ticket (cw_calls w)) (cw_gone w)
        (session_tickets (cw_sessions w) @ mail_tickets (cw_server w) @ log_tickets (cw_log w))
      \<and> (\<forall>n. slot_after n None (cw_log w) = Some (slot_of w n))
      \<and> log_matched (sv_next_message (cw_server w)) (cw_log w))"

definition world_ok :: "csms_config \<Rightarrow> csms_world \<Rightarrow> bool" where
  "world_ok cfg w = (good cfg (cw_server w) \<and> links_ok w \<and> books_ok w)"

lemma flight_called_append: "flight_called es se \<Longrightarrow> flight_called (es @ fs) se"
  by (simp add: flight_called_def)

lemma new_session_fields [simp]:
  "se_link (new_session n i t) = n" "se_station (new_session n i t) = i" "se_flight (new_session n i t) = None"
  "se_tickets (new_session n i t) = []" "flight_called es (new_session n i t)"
  by (simp_all add: new_session_def ticket_simps flight_called_def)

lemma good_new_server: "good cfg (new_server cfg)"
  by (simp add: good_def server_ok_def events_ok_def linked_def new_server_def link_events_def List.map_filter_def)

lemma new_world_ok: "world_ok cfg (new_world cfg)"
proof -
  have "sess (new_server cfg) i = None" "mail_tickets (new_server cfg) = []" "sv_mail (new_server cfg) = []" for i
    by (simp_all add: sess_def new_server_def mail_tickets_def List.map_filter_def)
  then show ?thesis
    by (simp add: world_ok_def links_ok_def books_ok_def new_world_def good_new_server slot_of_def session_tickets_def
        log_matched_def)
qed

subsection \<open>Steps of the registry alone\<close>

text \<open>Links may end, and whoever held one may be told to close; nothing else moves.\<close>

definition links_end :: "csms_server \<Rightarrow> csms_server \<Rightarrow> bool" where
  "links_end sv sv' =
     (sv_next_session sv' = sv_next_session sv \<and> sv_next_message sv' = sv_next_message sv
      \<and> (\<forall>i. sess sv' i = None \<or> sess sv' i = sess sv i)
      \<and> (\<exists>es. sv_mail sv' = sv_mail sv @ es
           \<and> (\<forall>m\<in>set es. (\<exists>c r. snd m = Cmd_Close c r) \<and> (\<exists>i. sess sv i = Some (fst m)))))"

lemma same_links_end: "same_links sv sv' \<Longrightarrow> links_end sv sv'"
  by (simp add: same_links_def links_end_def)

lemma mail_tickets_close: "\<forall>m\<in>set es. \<exists>c r. snd m = Cmd_Close c r \<Longrightarrow>
    mail_tickets (sv\<lparr>sv_mail := ms @ es\<rparr>) = mail_tickets (sv\<lparr>sv_mail := ms\<rparr>)"
  by (induction es) (auto simp: mail_tickets_def List.map_filter_def)

lemma world_ok_server:
  assumes ok: "world_ok cfg w" and g: "good cfg sv'" and l: "links_end (cw_server w) sv'"
  shows "world_ok cfg (w\<lparr>cw_server := sv'\<rparr>)"
proof -
  obtain es where es: "sv_mail sv' = sv_mail (cw_server w) @ es" "\<forall>m\<in>set es. \<exists>c r. snd m = Cmd_Close c r"
      "\<forall>m\<in>set es. \<exists>i. sess (cw_server w) i = Some (fst m)"
    using l by (auto simp: links_end_def)
  have "mail_tickets sv' = mail_tickets (cw_server w)"
    using mail_tickets_close [OF es(2)] es(1) by (simp add: mail_tickets_def)
  moreover have "\<forall>m\<in>set es. bt_contains (cw_sessions w) (fst m)"
    using es(3) ok by (fastforce simp: world_ok_def links_ok_def bt_contains_def)
  moreover have "\<forall>i n. sess sv' i = Some n \<longrightarrow> sess (cw_server w) i = Some n"
    using l unfolding links_end_def by (metis option.distinct(1))
  ultimately show ?thesis
    using ok g l es(1) by (auto simp: world_ok_def links_ok_def books_ok_def slot_of_def links_end_def)
qed

lemma handle_step_ok: "good cfg sv \<Longrightarrow> good cfg (handle_step op sv) \<and> links_end sv (handle_step op sv)"
proof (cases op)
  case (Op_Forget i)
  assume g: "good cfg sv"
  then have wf: "bt_wf (sv_stations sv)" by (simp add: good_def server_ok_def)
  have "links_end sv (snd (cs_forget i sv))"
    unfolding cs_forget_def Let_def links_end_def
    by (cases "bt_get (sv_stations sv) i")
       (auto simp: sess_def bt_get_remove [OF wf] split: option.split intro!: exI [of _ i])
  with g show ?thesis by (simp add: Op_Forget forget_good)
qed (auto simp: cs_respond_def clear_responder_def cs_inject_def clear_faults_def links_end_def sess_def good_def server_ok_def)

lemma after_result_ok: "good cfg sv \<Longrightarrow> good cfg (after_result env now c r sv) \<and> same_links sv (after_result env now c r sv)"
  unfolding after_result_def Let_def
  by (auto split: sum.split frame.split csms_error.split
      intro: track_result_good note_failed_good track_result_links note_failed_links)

lemma session_ended_links:
  "links_end sv (session_ended now i n why sv)"
  "bt_get (sv_stations sv) i = Some rec \<Longrightarrow> rc_session rec = Some n \<Longrightarrow> sess (session_ended now i n why sv) i = None"
  by (auto simp: session_ended_def links_end_def disconnected_rec_def sess_def bt_get_insert split: option.split)

lemma shutdown_links: "links_end sv (foldl (shutdown_rec now) sv es)"
proof (induction es arbitrary: sv)
  case (Cons e es)
  have "links_end sv (shutdown_rec now sv e)"
    by (cases e) (simp add: shutdown_rec_def links_end_def disconnected_rec_def)
  moreover have "sv_mail (shutdown_rec now sv e) = sv_mail sv" by (cases e) (simp add: shutdown_rec_def)
  ultimately show ?case using Cons.IH [of "shutdown_rec now sv e"]
    unfolding links_end_def by (simp, metis option.distinct(1))
qed (simp add: links_end_def)

subsection \<open>Calls\<close>

lemma world_result_ok:
  assumes ok: "world_ok cfg w" and that: "mc_ticket c = k"
  shows "world_ok cfg (world_result k (Inl e) (w\<lparr>cw_calls := cw_calls w @ [c]\<rparr>))"
proof -
  have "log_matched (sv_next_message (cw_server w)) (cw_log w @ [Cx_Result k (Inl e)])"
    by (rule log_matched_quiet [of "sv_next_message (cw_server w)"]) (use ok in \<open>simp_all add: world_ok_def books_ok_def\<close>)
  moreover have "accounted (map mc_ticket (cw_calls w) @ [k]) (cw_gone w)
      ((session_tickets (cw_sessions w) @ mail_tickets (cw_server w) @ log_tickets (cw_log w)) @ [k])"
    by (rule accounted_add) (use ok in \<open>simp add: world_ok_def books_ok_def\<close>)
  ultimately show ?thesis
    using ok that
    by (auto simp: world_ok_def links_ok_def books_ok_def world_result_def slot_of_def slot_after_append
        intro: flight_called_append)
qed

lemma cs_call_ok:
  assumes ok: "world_ok cfg w"
  shows "world_ok cfg (cs_call k i action payload timeout w)"
proof (cases "\<exists>n. sess (cw_server w) i = Some n \<and> bt_contains (cw_sessions w) n")
  case False
  then show ?thesis
    using world_result_ok [OF ok]
    by (auto simp: cs_call_def Let_def sess_def split: option.split)
next
  case True
  then obtain rec n where n: "bt_get (sv_stations (cw_server w)) i = Some rec" "rc_session rec = Some n"
      "bt_contains (cw_sessions w) n"
    by (auto simp: sess_def Option.bind_eq_Some_conv)
  let ?qc = "\<lparr>qc_action = action, qc_payload = payload, qc_timeout = min timeout MAX_CALL_TIMEOUT, qc_reply = k\<rparr>"
  let ?sv = "cs_mail n (Cmd_Call ?qc) (cw_server w)"
  have m: "mail_tickets ?sv = mail_tickets (cw_server w) @ [k]"
    by (simp add: mail_tickets_def List.map_filter_def)
  let ?open = "session_tickets (cw_sessions w)" and ?log = "log_tickets (cw_log w)"
  have "accounted (map mc_ticket (cw_calls w)) (cw_gone w) (?open @ mail_tickets (cw_server w) @ ?log)"
    using ok by (simp add: world_ok_def books_ok_def)
  from accounted_add [OF this, of "[k]"]
  have "accounted (map mc_ticket (cw_calls w) @ [k]) (cw_gone w) (?open @ mail_tickets ?sv @ ?log)"
    unfolding m by (subst accounted_mset [symmetric]) auto
  moreover have "good cfg ?sv" using ok by (simp add: world_ok_def good_def)
  ultimately show ?thesis
    using ok n by (simp add: cs_call_def world_ok_def links_ok_def books_ok_def slot_of_def)
qed

subsection \<open>New links\<close>

lemma register_effect:
  assumes "cs_register cfg now i peer proto sv = (Inr n, sv')"
  shows "n = Suc (sv_next_session sv)" "sv_next_session sv' = n" "sv_next_message sv' = sv_next_message sv"
    "sess sv' j = (if j = i then Some n else sess sv j)"
    "sv_mail sv' = sv_mail sv @ (case sess sv i of None \<Rightarrow> []
       | Some old \<Rightarrow> [(old, Cmd_Close 1000 ''replaced by a new connection'')])"
proof -
  have "rc_session (unwrap_or (bt_get (sv_stations sv) i) (fresh_rec i)) = sess sv i"
    by (cases "bt_get (sv_stations sv) i") (simp_all add: sess_def fresh_rec_def)
  then show "n = Suc (sv_next_session sv)" "sv_next_session sv' = n" "sv_next_message sv' = sv_next_message sv"
    "sess sv' j = (if j = i then Some n else sess sv j)"
    "sv_mail sv' = sv_mail sv @ (case sess sv i of None \<Rightarrow> []
       | Some old \<Rightarrow> [(old, Cmd_Close 1000 ''replaced by a new connection'')])"
    using assms by (auto simp: cs_register_def Let_def split: if_splits option.splits) (auto simp: sess_def)
qed

lemma cs_connect_ok:
  assumes ok: "world_ok cfg w"
  shows "world_ok cfg (cs_connect cfg io i peer proto w)"
proof -
  obtain r sv where r: "cs_register cfg (io_now io) i peer proto (cw_server w) = (r, sv)" by force
  have g: "good cfg sv"
    using cs_register_good [of cfg "cw_server w" "io_now io" i peer proto] ok by (simp add: r world_ok_def)
  show ?thesis
  proof (cases r)
    case (Inl e)
    then have "sv = cw_server w" using r by (auto simp: cs_register_def Let_def split: if_splits)
    with Inl r ok show ?thesis by (simp add: cs_connect_def)
  next
    case (Inr n)
    note e = register_effect [OF r [unfolded Inr]]
    let ?se = "new_session n i (io_at io)"
    have wf: "bt_wf (cw_sessions w)" and fresh: "bt_get (cw_sessions w) n = None"
      using ok e(1) by (auto simp: world_ok_def links_ok_def) (metis Suc_n_not_le_n not_None_eq)
    obtain xs ys where s: "cw_sessions w = xs @ ys" "bt_insert n ?se (cw_sessions w) = xs @ (n, ?se) # ys"
      using bt_insert_split [OF wf fresh] by blast
    have t: "session_tickets (bt_insert n ?se (cw_sessions w)) = session_tickets (cw_sessions w)"
      unfolding s(2) unfolding s(1) by (simp add: session_tickets_def)
    have m: "mail_tickets sv = mail_tickets (cw_server w)"
      by (simp add: mail_tickets_def e(5) List.map_filter_def split: option.split)
    have "books_ok (cs_connect cfg io i peer proto w)"
      using ok fresh by (auto simp: world_ok_def books_ok_def cs_connect_def r Inr t m e(3) slot_of_def bt_get_insert)
    moreover have "links_ok (cs_connect cfg io i peer proto w)"
    proof -
      have "\<forall>m\<in>set (sv_mail sv). bt_contains (bt_insert n ?se (cw_sessions w)) (fst m)"
        using ok by (auto simp: e(5) world_ok_def links_ok_def bt_contains_def bt_get_insert split: option.splits)
          (metis (no_types))
      moreover have "sess (cw_server w) j = Some k \<Longrightarrow> k \<noteq> n" for j k
        using ok fresh by (fastforce simp: world_ok_def links_ok_def)
      ultimately show ?thesis
        using ok wf e(1,2) by (auto simp: world_ok_def links_ok_def cs_connect_def r Inr e(4) bt_wf_insert bt_get_insert
            intro: le_SucI)
    qed
    ultimately show ?thesis using g by (simp add: world_ok_def cs_connect_def r Inr)
  qed
qed

subsection \<open>Steps of a session\<close>

definition ctx_of :: "csms_world \<Rightarrow> csms_session \<Rightarrow> session_ctx" where
  "ctx_of w se = \<lparr>sx_se = se, sx_sv = cw_server w, sx_log = cw_log w\<rparr>"

definition put_ctx :: "u64 \<Rightarrow> session_ctx \<Rightarrow> csms_world \<Rightarrow> csms_world" where
  "put_ctx n sx w = w\<lparr>cw_server := sx_sv sx, cw_log := sx_log sx, cw_sessions := bt_insert n (sx_se sx) (cw_sessions w)\<rparr>"

lemma session_ctx_ok:
  assumes ok: "world_ok cfg w" and se: "bt_get (cw_sessions w) n = Some se"
  obtains others where
    "ctx_ok (map mc_ticket (cw_calls w)) (cw_gone w) others (slot_of w) (ctx_of w se)"
    "\<And>se'. mset (session_tickets (bt_insert n se' (cw_sessions w))) = mset others + mset (se_tickets se')"
    "mset (session_tickets (bt_remove n (cw_sessions w))) = mset others"
proof -
  have wf: "bt_wf (cw_sessions w)" using ok by (simp add: world_ok_def links_ok_def)
  obtain xs ys where s: "cw_sessions w = xs @ (n, se) # ys"
      "\<And>se'. bt_insert n se' (cw_sessions w) = xs @ (n, se') # ys" "bt_remove n (cw_sessions w) = xs @ ys"
    using bt_get_split [OF wf se] by blast
  let ?others = "session_tickets (xs @ ys)"
  have a: "accounted (map mc_ticket (cw_calls w)) (cw_gone w)
      (session_tickets (cw_sessions w) @ mail_tickets (cw_server w) @ log_tickets (cw_log w))"
    using ok by (simp add: world_ok_def books_ok_def)
  have "books (map mc_ticket (cw_calls w)) (cw_gone w) ?others (ctx_of w se)"
    unfolding books_def ctx_of_def
    by (rule accounted_mset [THEN iffD1, OF _ a]) (simp add: s(1) session_tickets_def)
  moreover have "slots (slot_of w) (ctx_of w se)"
    using ok se by (auto simp: slots_def ctx_of_def world_ok_def books_ok_def links_ok_def slot_of_def)
  ultimately have "ctx_ok (map mc_ticket (cw_calls w)) (cw_gone w) ?others (slot_of w) (ctx_of w se)"
    using ok se by (simp add: ctx_ok_def ctx_of_def world_ok_def books_ok_def links_ok_def)
  then show thesis by (rule that) (simp_all add: s(2,3) session_tickets_def)
qed

lemma put_ctx_ok:
  assumes ok: "world_ok cfg w" and se: "bt_get (cw_sessions w) n = Some se"
    and safe: "session_safe cfg (ctx_of w se) sx"
    and keep: "\<And>ts gone others base. ctx_ok ts gone others base (ctx_of w se) \<Longrightarrow> gone = cw_gone w \<Longrightarrow> ctx_ok ts gone others base sx"
    and log: "set (cw_log w) \<subseteq> set (sx_log sx)"
  shows "world_ok cfg (put_ctx n sx w)"
proof -
  obtain others where o: "ctx_ok (map mc_ticket (cw_calls w)) (cw_gone w) others (slot_of w) (ctx_of w se)"
      "\<And>se'. mset (session_tickets (bt_insert n se' (cw_sessions w))) = mset others + mset (se_tickets se')"
    using session_ctx_ok [OF ok se] by metis
  have c: "ctx_ok (map mc_ticket (cw_calls w)) (cw_gone w) others (slot_of w) sx"
    by (rule keep [OF o(1)]) simp
  have link: "se_link se = n" and n: "se_link (sx_se sx) = n" and st: "se_station (sx_se sx) = se_station se"
    using ok se safe by (auto simp: world_ok_def links_ok_def session_safe_def ctx_of_def)
  have s: "sess (sx_sv sx) i = sess (cw_server w) i" "sv_next_session (sx_sv sx) = sv_next_session (cw_server w)"
      "set (sv_mail (sx_sv sx)) \<subseteq> set (sv_mail (cw_server w))" "good cfg (sx_sv sx)" for i
    using safe ok by (simp_all add: session_safe_def ctx_of_def world_ok_def)
  have "accounted (map mc_ticket (cw_calls w)) (cw_gone w)
      (session_tickets (bt_insert n (sx_se sx) (cw_sessions w)) @ mail_tickets (sx_sv sx) @ log_tickets (sx_log sx))"
    by (rule accounted_mset [THEN iffD1, OF _ c [unfolded ctx_ok_def books_def, THEN conjunct1]]) (simp add: o(2))
  then have "books_ok (put_ctx n sx w)"
    using c n by (auto simp: ctx_ok_def slots_def books_ok_def put_ctx_def slot_of_def bt_get_insert)
  moreover have "links_ok (put_ctx n sx w)"
  proof -
    have "flight_called (sx_log sx) se'" if "bt_get (cw_sessions w) m = Some se'" for m se'
      using ok that log by (auto simp: world_ok_def links_ok_def flight_called_def)
    then show ?thesis
      using ok se c n st s by (auto simp: world_ok_def links_ok_def put_ctx_def bt_wf_insert bt_get_insert bt_contains_def ctx_ok_def)
        (metis option.inject)
  qed
  ultimately show ?thesis using s(4) by (simp add: world_ok_def put_ctx_def)
qed

text \<open>The log only grows.\<close>

lemma quiet_log: "quiet sx sx' \<Longrightarrow> set (sx_log sx) \<subseteq> set (sx_log sx')"
  by (auto simp: quiet_def)

lemma pump_log: "set (sx_log sx) \<subseteq> set (sx_log (fst (session_pump cfg env io gone sx)))"
proof -
  have "set es \<subseteq> set (sx_log s) \<Longrightarrow> set es \<subseteq> set (sx_log (fst (pump_calls cfg env io gone xs s)))" for es xs s
    by (rule pump_calls_keeps [where I = "\<lambda>_ s. set es \<subseteq> set (sx_log s)"])
       (auto simp: pump_sent_def dest!: pump_write_effect(6))
  then show ?thesis by (simp add: session_pump_def)
qed

lemma iteration_log: "set (sx_log sx) \<subseteq> set (sx_log (fst (session_iteration cfg env io gone br sx)))"
proof -
  obtain sx1 r where p: "session_pump cfg env io gone sx = (sx1, r)" by force
  have f: "set (sx_log s) \<subseteq> set (sx_log (finish_flight g s))" for s g
    by (auto simp: finish_flight_def split: option.split)
  have "set (sx_log sx1) \<subseteq> set (sx_log (fst (select_step cfg env io br sx1)))"
    using select_cases [of cfg env io br sx1, unfolded Let_def]
  proof (elim disjE)
    assume "ends_call sx1 (fst (select_step cfg env io br sx1))"
    then obtain sx2 r where "quiet sx1 sx2" "fst (select_step cfg env io br sx1) = finish_flight (\<lambda>_. r) sx2"
      unfolding ends_call_def by blast
    then show ?thesis using f [of sx2 "\<lambda>_. r"] quiet_log [of sx1 sx2] by (metis subset_trans)
  next
    assume "mail_closed sx1 (fst (select_step cfg env io br sx1))"
    then show ?thesis unfolding mail_closed_def by (elim exE conjE) (drule quiet_log, simp)
  next
    assume "mail_to_queue sx1 (fst (select_step cfg env io br sx1))"
    then show ?thesis unfolding mail_to_queue_def by (elim exE conjE) simp
  qed (rule quiet_log)
  then show ?thesis
    using p pump_log [of sx cfg env io gone] by (cases r) (auto simp: session_iteration_def)
qed

lemma iteration_world_ok:
  assumes "world_ok cfg w" "bt_get (cw_sessions w) n = Some se"
  shows "world_ok cfg (put_ctx n (fst (session_iteration cfg env io (cw_gone w) br (ctx_of w se))) w)"
  by (rule put_ctx_ok [OF assms iteration_safe])
     (use iteration_ctx iteration_log [of "ctx_of w se"] in \<open>auto simp: ctx_of_def\<close>)

subsection \<open>The end of a session\<close>

lemma dropped_readings:
  "log_tickets (dropped_results se sv) = map qc_reply (mail_calls (se_link se) sv) @ se_tickets se"
  "called_ids (dropped_results se sv) = []"
  "Cx_Called n k i \<notin> set (dropped_results se sv)" "Cx_Result k (Inr f) \<notin> set (dropped_results se sv)"
proof -
  have "log_tickets (map (\<lambda>qc. Cx_Result (qc_reply qc) (g qc)) qs) = map qc_reply qs"
    "called_ids (map (\<lambda>qc. Cx_Result (qc_reply qc) (g qc)) qs) = []" for g and qs :: "queued_call list"
    by (induction qs) simp_all
  then show "log_tickets (dropped_results se sv) = map qc_reply (mail_calls (se_link se) sv) @ se_tickets se"
    "called_ids (dropped_results se sv) = []"
    by (simp_all add: dropped_results_def Let_def ticket_simps split: option.split)
  show "Cx_Called n k i \<notin> set (dropped_results se sv)" "Cx_Result k (Inr f) \<notin> set (dropped_results se sv)"
    by (auto simp: dropped_results_def Let_def split: option.splits)
qed

lemma dropped_slot:
  "slot_after n (if n = se_link se then map_option fl_id (se_flight se) else s) (dropped_results se sv)
   = Some (if n = se_link se then None else s)"
proof -
  have "slot_after n t (map (\<lambda>qc. Cx_Result (qc_reply qc) (g qc)) qs) = Some t"
    for t g and qs :: "queued_call list"
    by (induction qs) simp_all
  then show ?thesis
    by (cases "se_flight se") (simp_all add: dropped_results_def Let_def slot_after_append)
qed

lemma drop_mail_tickets:
  "mset (map qc_reply (mail_calls n sv)) + mset (mail_tickets (drop_mail n sv)) = mset (mail_tickets sv)"
proof -
  have "mset (map qc_reply (List.map_filter (\<lambda>m. case snd m of Cmd_Call qc \<Rightarrow> if fst m = n then Some qc else None | _ \<Rightarrow> None) ms))
      + mset (List.map_filter (\<lambda>m. case snd m of Cmd_Call qc \<Rightarrow> Some (qc_reply qc) | _ \<Rightarrow> None) (filter (\<lambda>m. fst m \<noteq> n) ms))
      = mset (List.map_filter (\<lambda>m. case snd m of Cmd_Call qc \<Rightarrow> Some (qc_reply qc) | _ \<Rightarrow> None) ms)" for ms
    by (induction ms) (auto split: session_cmd.split)
  then show ?thesis by (simp add: mail_calls_def mail_tickets_def drop_mail_def)
qed

lemma drop_mail_fields [simp]:
  "sess (drop_mail n sv) i = sess sv i" "sv_next_session (drop_mail n sv) = sv_next_session sv"
  "sv_next_message (drop_mail n sv) = sv_next_message sv" "sv_stations (drop_mail n sv) = sv_stations sv"
  "good cfg (drop_mail n sv) = good cfg sv"
  by (simp_all add: drop_mail_def sess_def good_def server_ok_def events_ok_def linked_def)

lemma end_session_ok:
  assumes ok: "world_ok cfg w" and se: "bt_get (cw_sessions w) n = Some se"
  shows "world_ok cfg (end_session now why se w)"
proof -
  have n: "se_link se = n" and wf: "bt_wf (cw_sessions w)" and g: "good cfg (cw_server w)"
    using ok se by (auto simp: world_ok_def links_ok_def)
  let ?sv = "drop_mail n (cw_server w)" and ?log = "cw_log w @ dropped_results se (cw_server w)"
  let ?fin = "session_ended now (se_station se) n why ?sv" and ?m = "bt_remove n (cw_sessions w)"
  have e: "end_session now why se w = w\<lparr>cw_log := ?log, cw_server := ?fin, cw_sessions := ?m\<rparr>"
    by (simp add: end_session_def drop_session_def n)
  have l: "links_end ?sv ?fin" by (rule session_ended_links)
  have mail: "sv_mail ?fin = sv_mail ?sv" by (simp add: session_ended_def split: option.split)
  obtain others where o: "ctx_ok (map mc_ticket (cw_calls w)) (cw_gone w) others (slot_of w) (ctx_of w se)"
      "mset (session_tickets ?m) = mset others"
    using session_ctx_ok [OF ok se] by metis
  have "accounted (map mc_ticket (cw_calls w)) (cw_gone w)
      (session_tickets ?m @ mail_tickets ?fin @ log_tickets ?log)"
  proof (rule accounted_mset [THEN iffD1])
    show "accounted (map mc_ticket (cw_calls w)) (cw_gone w)
        (others @ mail_tickets (cw_server w) @ se_tickets se @ log_tickets (cw_log w))"
      using o(1) by (simp add: ctx_ok_def books_def ctx_of_def)
    show "mset (others @ mail_tickets (cw_server w) @ se_tickets se @ log_tickets (cw_log w))
        = mset (session_tickets ?m @ mail_tickets ?fin @ log_tickets ?log)"
      using o(2) drop_mail_tickets [of n "cw_server w"] mail_tickets_same [OF mail]
      by (simp add: dropped_readings(1) n ac_simps)
  qed
  moreover have "slot_after k None ?log = Some (if k = n then None else slot_of w k)" for k
    using o(1) dropped_slot [of k se "slot_of w k" "cw_server w"]
    by (cases "k = n") (simp_all add: ctx_ok_def slots_def ctx_of_def slot_after_append n)
  moreover have "log_matched (sv_next_message ?fin) ?log"
    by (rule log_matched_quiet [of "sv_next_message (cw_server w)"])
       (use ok l in \<open>auto simp: world_ok_def books_ok_def dropped_readings links_end_def\<close>)
  ultimately have "books_ok (end_session now why se w)"
    by (simp add: books_ok_def e slot_of_def bt_get_remove [OF wf])
  moreover have "links_ok (end_session now why se w)"
  proof -
    have gone: "sess ?fin i \<noteq> Some n" for i
    proof
      assume i: "sess ?fin i = Some n"
      then have "sess (cw_server w) i = Some n" using l unfolding links_end_def by (metis drop_mail_fields(1) option.distinct(1))
      moreover from this have "i = se_station se"
        using ok se by (auto simp: world_ok_def links_ok_def) (metis option.inject)
      ultimately show False using i session_ended_links(2) [of ?sv i _ n now why]
        by (auto simp: sess_def Option.bind_eq_Some_conv)
    qed
    have "sess (cw_server w) i = Some k" if "sess ?fin i = Some k" for i k
      using that l unfolding links_end_def by (metis drop_mail_fields(1) option.distinct(1))
    moreover have "\<forall>m\<in>set (sv_mail ?fin). fst m \<noteq> n \<and> m \<in> set (sv_mail (cw_server w))"
      unfolding mail by (simp add: drop_mail_def)
    ultimately show ?thesis
      using ok gone l
      by (auto simp: links_ok_def e world_ok_def bt_wf_remove bt_get_remove [OF wf] bt_contains_def links_end_def
          intro: flight_called_append)
  qed
  moreover have "good cfg ?fin" using g by (simp add: session_ended_good)
  ultimately show ?thesis by (simp add: world_ok_def e)
qed

lemma run_session_step_ok: "world_ok cfg w \<Longrightarrow> world_ok cfg (run_session_step cfg env io n br w)"
proof (cases "bt_get (cw_sessions w) n")
  case (Some se)
  assume ok: "world_ok cfg w"
  obtain sx r where i: "session_iteration cfg env io (cw_gone w) br (ctx_of w se) = (sx, r)" by force
  have w1: "world_ok cfg (put_ctx n sx w)"
    using iteration_world_ok [OF ok Some, of env io br] i by simp
  have "run_session_step cfg env io n br w =
      (case r of None \<Rightarrow> put_ctx n sx w | Some why \<Rightarrow> end_session (io_now io) why (sx_se sx) (put_ctx n sx w))"
    using i by (cases r) (simp_all add: run_session_step_def Some ctx_of_def put_ctx_def)
  with w1 end_session_ok [OF w1, of n "sx_se sx"] show ?thesis
    by (cases r) (simp_all add: put_ctx_def bt_get_insert)
qed (simp add: run_session_step_def)

subsection \<open>Every step\<close>

lemma end_sessions_ok:
  "world_ok cfg w \<Longrightarrow> (\<forall>e\<in>set es. bt_get (cw_sessions w) (fst e) = Some (snd e)) \<Longrightarrow> distinct (map fst es) \<Longrightarrow>
   world_ok cfg (foldl (\<lambda>w e. end_session now why (snd e) w) w es)
   \<and> (\<forall>n. bt_get (cw_sessions (foldl (\<lambda>w e. end_session now why (snd e) w) w es)) n
          = (if n \<in> fst ` set es then None else bt_get (cw_sessions w) n))"
proof (induction es arbitrary: w)
  case (Cons e es)
  obtain n se where e: "e = (n, se)" by force
  have get: "bt_get (cw_sessions w) n = Some se" using Cons.prems(2) e by auto
  let ?w = "end_session now why se w"
  have wf: "bt_wf (cw_sessions w)" and n: "se_link se = n"
    using Cons.prems(1) get by (auto simp: world_ok_def links_ok_def)
  have s: "bt_get (cw_sessions ?w) m = (if m = n then None else bt_get (cw_sessions w) m)" for m
    by (simp add: end_session_def drop_session_def n bt_get_remove [OF wf])
  have "\<forall>e'\<in>set es. bt_get (cw_sessions ?w) (fst e') = Some (snd e')"
    using Cons.prems(2,3) e by (force simp: s)
  from Cons.IH [OF end_session_ok [OF Cons.prems(1) get] this] Cons.prems(3) e
  show ?case by (auto simp: s)
qed simp

lemma world_stopped_ok:
  assumes ok: "world_ok cfg w"
  shows "world_ok cfg (world_stopped io w)" "cw_sessions (world_stopped io w) = []"
    "sv_mail (cw_server (world_stopped io w)) = []"
proof -
  let ?w = "foldl (\<lambda>w e. end_session (io_now io) Dis_Closed (snd e) w) w (cw_sessions w)"
  have wf: "bt_wf (cw_sessions w)" using ok by (simp add: world_ok_def links_ok_def)
  then have d: "distinct (map fst (cw_sessions w))" by (simp add: bt_wf_def strict_sorted_iff)
  have g: "\<forall>e\<in>set (cw_sessions w). bt_get (cw_sessions w) (fst e) = Some (snd e)"
    using bt_get_in_set [OF wf] by auto
  note e = end_sessions_ok [OF ok g d, of "io_now io" Dis_Closed]
  then have w: "world_ok cfg ?w" by blast
  then have "good cfg (cs_shutdown (io_now io) (cw_server ?w))" by (simp add: world_ok_def cs_shutdown_good)
  moreover have l: "links_end (cw_server ?w) (cs_shutdown (io_now io) (cw_server ?w))"
    using shutdown_links [of "(cw_server ?w)\<lparr>sv_shutdown := True\<rparr>" "io_now io" "sv_stations (cw_server ?w)"]
    by (simp add: cs_shutdown_def links_end_def sess_def)
  ultimately show ok': "world_ok cfg (world_stopped io w)"
    using world_ok_server [OF w] by (simp add: world_stopped_def Let_def)
  have "bt_get (cw_sessions ?w) n = None" for n
    using e by (cases "bt_get (cw_sessions w) n") (force dest: bt_get_SomeD)+
  then have "cw_sessions ?w = []"
    using w by (intro bt_empty) (auto simp: world_ok_def links_ok_def)
  then show none: "cw_sessions (world_stopped io w) = []" by (simp add: world_stopped_def Let_def)
  have "\<forall>m\<in>set (sv_mail (cw_server (world_stopped io w))). bt_contains (cw_sessions (world_stopped io w)) (fst m)"
    using ok' by (simp add: world_ok_def links_ok_def)
  then show "sv_mail (cw_server (world_stopped io w)) = []"
    unfolding none by (cases "sv_mail (cw_server (world_stopped io w))") (auto simp: bt_contains_def)
qed

lemma world_step_ok: "world_ok cfg w \<Longrightarrow> world_ok cfg (world_step cfg env w st)"
proof -
  assume ok: "world_ok cfg w"
  obtain io op where st: "st = (io, op)" by force
  have g: "good cfg (cw_server w)" using ok by (simp add: world_ok_def)
  show ?thesis
  proof (cases op)
    case (W_Handle h)
    with world_ok_server [OF ok] handle_step_ok [OF g, of h] show ?thesis by (simp add: st)
  next
    case (W_Gone k)
    with ok show ?thesis by (simp add: st world_ok_def links_ok_def books_ok_def slot_of_def accounted_gone)
  next
    case (W_Resume k)
    have "world_ok cfg (w\<lparr>cw_server := after_result env (io_now io) c r (cw_server w)\<rparr>)" for c r
      using world_ok_server [OF ok] after_result_ok [OF g] same_links_end by blast
    moreover have "world_ok cfg (v\<lparr>cw_done := d\<rparr>) = world_ok cfg v" for v d
      by (simp add: world_ok_def links_ok_def books_ok_def slot_of_def)
    ultimately show ?thesis
      using ok by (auto simp: st W_Resume cs_resume_def split: option.split)
  next
    case W_Stop
    have "links_end (cw_server w) ((cw_server w)\<lparr>sv_shutdown := True\<rparr>)" by (simp add: links_end_def sess_def)
    with world_ok_server [OF ok] g show ?thesis by (simp add: st W_Stop good_def)
  qed (simp_all add: st ok cs_connect_ok cs_call_ok run_session_step_ok world_stopped_ok)
qed

lemma csms_run_ok: "world_ok cfg (csms_run cfg env steps)"
proof -
  have "world_ok cfg w \<Longrightarrow> world_ok cfg (foldl (world_step cfg env) w steps)" for w
    by (induction steps arbitrary: w) (simp_all add: world_step_ok)
  then show ?thesis by (simp add: csms_run_def new_world_ok)
qed

end
