(* ===== verification/Csms_Props.thy ===== *)
theory Csms_Props
  imports Csms_World
begin

text \<open>
  The properties of the central system, over every sequence of steps of its registry, its sessions and
  the callers of its handle.
\<close>

subsection \<open>A run to evaluate the properties on\<close>

definition demo_io :: "nat \<Rightarrow> session_io" where
  "demo_io t = \<lparr>io_now = int t, io_at = t, io_write = (\<lambda>n k. True)\<rparr>"

definition demo_csms_env :: csms_env where
  "demo_csms_env =
     \<lparr>ce_serde = demo_serde, ce_iso = (\<lambda>t. ''now''),
      ce_parse = (\<lambda>text. if text = ''answer'' then Inr (JArray [JNumber (PosInt 3), JString ''csms-1'', JObject []])
                         else Inr JNull),
      ce_print = (\<lambda>v. ''json''), ce_knows = (\<lambda>a. False), ce_request = (\<lambda>a p. None), ce_listening = True\<rparr>"

definition demo_csms_config :: csms_config where
  "demo_csms_config = default_csms_config\<lparr>cc_history_cap := 0\<rparr>"

text \<open>A station connects, is called, and reconnects before it answered.\<close>

definition demo_csms_steps :: "(session_io \<times> csms_step) list" where
  "demo_csms_steps =
     [(demo_io 0, W_Connect ''CP1'' ''peer'' None), (demo_io 1, W_Call 7 ''CP1'' ''Reset'' (JObject []) 5),
      (demo_io 1, W_Session 1 Sel_Command), (demo_io 1, W_Session 1 Sel_Watchdog)]"

definition demo_csms :: "(session_io \<times> csms_step) list \<Rightarrow> csms_world" where
  "demo_csms sts = csms_run demo_csms_config demo_csms_env (demo_csms_steps @ sts)"

lemmas csms_demo_simps = demo_csms_def csms_run_def demo_csms_config_def default_csms_config_def demo_csms_steps_def
  new_world_def new_server_def demo_io_def demo_csms_env_def cs_connect_def cs_register_def station_limit_reached_def
  bt_contains_def fresh_rec_def Let_def cs_emit_def cs_mail_def put_station_def new_session_def cs_call_def
  run_session_step_def session_iteration_def session_pump_def session_command_def take_mail_def upd_se_def upd_sv_def
  sx_emit_def next_message_id_def session_send_def session_write_def record_frame_def MAX_CALL_TIMEOUT_def
  SECS_PER_DAY_def has_sender_def watchdog_deadline_def ns_per_s_def

lemma show_nat_1 [simp]: "show_nat 1 = ''1''" "show_nat (Suc 0) = ''1''"
  by code_simp+

subsection \<open>The registry\<close>

text \<open>C17: after any steps the registry of the central system is consistent.  It holds at most
  \<open>max_stations\<close> stations; a station is shown as connected exactly when it has a session, two stations
  never share one and no session number is used twice; the counter of received CALLs is the sum of the
  counters per action, of which there are at most 64 besides \<open>other\<close>; the history stays within its cap in
  frames and in bytes; every fault left has firings left; and the connection events of each station
  alternate and end in the state the registry shows.\<close>

theorem csms_registry_consistent: "good cfg (cw_server (csms_run cfg env steps))"
  using csms_run_ok [of cfg env steps] by (simp add: world_ok_def)

text \<open>C18: a session whose station was taken over by a newer connection or forgotten changes nothing in
  the records of the registry any more, whatever it still receives and however it ends.\<close>

theorem csms_dead_session_inert:
  assumes "w = csms_run cfg env steps" "bt_get (cw_sessions w) n = Some se"
    and "sess (cw_server w) (se_station se) \<noteq> Some n"
  shows "sv_stations (cw_server (run_session_step cfg env io n br w)) = sv_stations (cw_server w)"
proof -
  have n: "se_link se = n"
    using csms_run_ok [of cfg env steps] assms by (simp add: world_ok_def links_ok_def)
  obtain sx r where i: "session_iteration cfg env io (cw_gone w) br (ctx_of w se) = (sx, r)" by force
  have safe: "session_safe cfg (ctx_of w se) sx" using iteration_safe [of cfg "ctx_of w se" env io "cw_gone w" br] i by simp
  then have s: "sv_stations (sx_sv sx) = sv_stations (cw_server w)" "se_link (sx_se sx) = n"
      "se_station (sx_se sx) = se_station se" "sess (sx_sv sx) (se_station se) \<noteq> Some n"
    using assms(3) n by (simp_all add: session_safe_def ctx_of_def)
  have "sv_stations (session_ended now i n why (drop_mail n sv)) = sv_stations sv" if "sess sv i \<noteq> Some n" for now i why sv
    using that by (auto simp: session_ended_def sess_def split: option.split)
  with s show ?thesis
    using i by (cases r) (simp_all add: run_session_step_def assms(2) ctx_of_def end_session_def drop_session_def)
qed

theorem csms_dead_session_inert_witness:
  "sv_stations (cw_server (run_session_step demo_csms_config demo_csms_env (demo_io 9) 1 Sel_Watchdog
      (demo_csms [(demo_io 2, W_Connect ''CP1'' ''peer2'' None)])))
   = sv_stations (cw_server (demo_csms [(demo_io 2, W_Connect ''CP1'' ''peer2'' None)]))"
proof -
  let ?w = "demo_csms [(demo_io 2, W_Connect ''CP1'' ''peer2'' None)]"
  have w: "?w = csms_run demo_csms_config demo_csms_env (demo_csms_steps @ [(demo_io 2, W_Connect ''CP1'' ''peer2'' None)])"
    by (simp add: demo_csms_def)
  have se: "\<exists>se. bt_get (cw_sessions ?w) 1 = Some se \<and> se_station se = ''CP1''" "sess (cw_server ?w) ''CP1'' = Some 2"
    by (simp_all add: csms_demo_simps sess_def)
  then obtain se where "bt_get (cw_sessions ?w) 1 = Some se" "se_station se = ''CP1''" by blast
  with csms_dead_session_inert [OF w this(1), of "demo_io 9" Sel_Watchdog] se(2) show ?thesis by simp
qed

subsection \<open>Calls\<close>

text \<open>C13: whatever happens to sessions and callers, a call made through the handle gets at most one
  result, no result belongs to a call that was not made, and a call whose caller still waits either has
  its result or is in a channel, in a queue or outstanding at a session that runs.\<close>

theorem csms_call_once:
  assumes "w = csms_run cfg env steps" "distinct (map mc_ticket (cw_calls w))"
  shows "count_list (log_tickets (cw_log w)) k \<le> 1
    \<and> (k \<in> set (log_tickets (cw_log w)) \<longrightarrow> k \<in> mc_ticket ` set (cw_calls w))
    \<and> (k \<in> mc_ticket ` set (cw_calls w) - set (cw_gone w) \<longrightarrow>
         k \<in> set (log_tickets (cw_log w))
         \<or> k \<in> set (session_tickets (cw_sessions w) @ mail_tickets (cw_server w)))"
proof -
  have "accounted (map mc_ticket (cw_calls w)) (cw_gone w)
      ((session_tickets (cw_sessions w) @ mail_tickets (cw_server w)) @ log_tickets (cw_log w))"
    using csms_run_ok [of cfg env steps] assms(1) by (simp add: world_ok_def books_ok_def)
  from accounted_once [OF this assms(2), of k] show ?thesis by auto
qed

theorem csms_call_once_witness:
  "count_list (log_tickets (cw_log (demo_csms []))) 7 \<le> 1
   \<and> 7 \<in> mc_ticket ` set (cw_calls (demo_csms []))"
proof -
  have w: "demo_csms [] = csms_run demo_csms_config demo_csms_env demo_csms_steps" by (simp add: demo_csms_def)
  have c: "map mc_ticket (cw_calls (demo_csms [])) = [7]" by (simp add: csms_demo_simps)
  then have "7 \<in> mc_ticket ` set (cw_calls (demo_csms []))" by (metis list.set_intros(1) set_map)
  with csms_call_once [OF w, of 7] c show ?thesis by simp
qed

text \<open>C14: once the central system has shut down, every call whose caller still waits has exactly one
  result, and no session is left.\<close>

theorem csms_shutdown_answers_all:
  assumes "w = csms_run cfg env (steps @ [(io, W_Stopped)])" "distinct (map mc_ticket (cw_calls w))"
  shows "cw_sessions w = []
    \<and> (\<forall>k\<in>mc_ticket ` set (cw_calls w) - set (cw_gone w). count_list (log_tickets (cw_log w)) k = 1)"
proof -
  have w: "w = world_stopped io (csms_run cfg env steps)" using assms(1) by (simp add: csms_run_def)
  note stopped = world_stopped_ok [OF csms_run_ok [of cfg env steps], of io]
  have none: "cw_sessions w = []" "session_tickets (cw_sessions w) @ mail_tickets (cw_server w) = []"
    using stopped(2,3) w by (simp_all add: session_tickets_def mail_tickets_def List.map_filter_def)
  have "accounted (map mc_ticket (cw_calls w)) (cw_gone w)
      ((session_tickets (cw_sessions w) @ mail_tickets (cw_server w)) @ log_tickets (cw_log w))"
    using stopped(1) w by (simp add: world_ok_def books_ok_def)
  from accounted_once(4) [OF this assms(2)] none show ?thesis by simp
qed

theorem csms_shutdown_answers_all_witness:
  "count_list (log_tickets (cw_log (demo_csms [(demo_io 9, W_Stopped)]))) 7 = 1"
proof -
  let ?w = "demo_csms [(demo_io 9, W_Stopped)]"
  have w: "?w = csms_run demo_csms_config demo_csms_env (demo_csms_steps @ [(demo_io 9, W_Stopped)])"
    by (simp add: demo_csms_def)
  have calls: "cw_calls (foldl (\<lambda>w e. end_session t r (snd e) w) w es) = cw_calls w
      \<and> cw_gone (foldl (\<lambda>w e. end_session t r (snd e) w) w es) = cw_gone w" for t r w and es :: "(nat \<times> csms_session) list"
    by (induction es arbitrary: w) (simp_all add: end_session_def drop_session_def Let_def)
  then have s: "cw_calls ?w = cw_calls (demo_csms [])" "cw_gone ?w = cw_gone (demo_csms [])"
    unfolding w demo_csms_def csms_run_def by (simp_all add: world_stopped_def Let_def)
  have c: "map mc_ticket (cw_calls (demo_csms [])) = [7]" "cw_gone (demo_csms []) = []"
    by (simp_all add: csms_demo_simps)
  have "7 \<in> mc_ticket ` set (cw_calls ?w) - set (cw_gone ?w)"
    using c s by (metis Diff_empty list.set(1) list.set_intros(1) set_map)
  then show ?thesis using csms_shutdown_answers_all [OF w] c s by auto
qed


text \<open>C16: a caller gets the answer to its own CALL.  An answer handed to a caller carries the id of the
  CALL that was written for it, that CALL was written, and no two CALLs of the central system share an
  id.\<close>

theorem csms_answers_match:
  assumes "es = cw_log (csms_run cfg env steps)"
  shows "distinct (called_ids es)
    \<and> (Cx_Result k (Inr f) \<in> set es \<longrightarrow>
         message_type f \<noteq> MESSAGE_TYPE_CALL
         \<and> (\<exists>n a p. Cx_Called n k (frame_id f) \<in> set es \<and> Cx_Wire n (Frame_Call (frame_id f) a p) \<in> set es))"
  using csms_run_ok [of cfg env steps] unfolding assms world_ok_def books_ok_def log_matched_def by metis

theorem csms_answers_match_witness:
  "\<exists>n a p. Cx_Wire n (Frame_Call ''csms-1'' a p)
     \<in> set (cw_log (demo_csms [(demo_io 3, W_Session 1 (Sel_Inbound (Cx_Text ''answer'')))]))"
proof -
  let ?w = "demo_csms [(demo_io 3, W_Session 1 (Sel_Inbound (Cx_Text ''answer'')))]"
  have w: "cw_log ?w = cw_log (csms_run demo_csms_config demo_csms_env
      (demo_csms_steps @ [(demo_io 3, W_Session 1 (Sel_Inbound (Cx_Text ''answer'')))]))"
    by (simp add: demo_csms_def)
  have p: "parse_frame (ce_parse demo_csms_env) ''answer'' = Inr (Frame_Result ''csms-1'' (JObject []))"
    by code_simp
  have "Cx_Result 7 (Inr (Frame_Result ''csms-1'' (JObject []))) \<in> set (cw_log ?w)"
    using p by (simp add: csms_demo_simps session_inbound_def session_on_text_def finish_flight_def)
  with csms_answers_match [OF w, of 7 "Frame_Result ''csms-1'' (JObject [])"] show ?thesis by auto
qed

text \<open>An outstanding CALL whose deadline has passed is answered to its caller as timed out, with the
  station and the action of the call, and the slot of the connection is free again.\<close>

theorem csms_call_times_out:
  assumes "bt_get (cw_sessions w) n = Some se" "se_flight se = Some fl" "fl_deadline fl \<le> io_at io"
  shows "cw_log (run_session_step cfg env io n Sel_Deadline w)
      = cw_log w @ [Cx_Closed_Slot (se_link se) (fl_id fl),
                    Cx_Result (fl_reply fl) (Inl (Cs_Timeout (se_station se) (fl_action fl) (fl_timeout fl)))]
    \<and> slot_of (run_session_step cfg env io n Sel_Deadline w) n = None"
proof -
  let ?sx = "\<lparr>sx_se = se, sx_sv = cw_server w, sx_log = cw_log w\<rparr>"
  have "session_pump cfg env io gone ?sx = (?sx, None)" for gone
    using assms(2) by (cases "se_queue se") (simp_all add: session_pump_def upd_se_def)
  then show ?thesis
    using assms by (simp add: run_session_step_def session_iteration_def expire_in_flight_def finish_flight_def
        Let_def slot_of_def bt_get_insert)
qed

theorem csms_call_times_out_witness:
  "slot_of (run_session_step demo_csms_config demo_csms_env (demo_io 9) 1 Sel_Deadline (demo_csms [])) 1 = None"
proof -
  have "\<exists>se fl. bt_get (cw_sessions (demo_csms [])) 1 = Some se \<and> se_flight se = Some fl \<and> fl_deadline fl = 6"
    by (simp add: csms_demo_simps)
  then obtain se fl where "bt_get (cw_sessions (demo_csms [])) 1 = Some se" "se_flight se = Some fl" "fl_deadline fl = 6"
    by blast
  with csms_call_times_out [OF this(1,2), of "demo_io 9"] show ?thesis by (simp add: demo_io_def)
qed

text \<open>C19: a station that stays silent is given up.  After \<open>ping_interval\<close> without a message the session
  pings it, and \<open>pong_timeout\<close> after that ping the session ends as \<open>PingTimeout\<close>: it no longer runs, its
  station is shown as disconnected, and that event is broadcast.\<close>

theorem csms_silent_station_closed:
  assumes "bt_get (cw_sessions w) n = Some se" "se_link se = n" "se_ping se = Some sent"
    and "bt_get (sv_stations (cw_server w)) (se_station se) = Some rec" "rc_session rec = Some n"
    and "cc_ping_interval cfg > 0" "sent + cc_pong_timeout cfg \<le> io_at io"
    and "se_queue se = [] \<or> se_flight se \<noteq> None" "bt_wf (cw_sessions w)"
  shows "let w' = run_session_step cfg env io n Sel_Watchdog w in
      bt_get (cw_sessions w') n = None
      \<and> (\<exists>rec'. bt_get (sv_stations (cw_server w')) (se_station se) = Some rec' \<and> \<not> in_connected (rc_info rec'))
      \<and> last (sv_events (cw_server w')) = Cs_Disconnected (se_station se) PingTimeout"
proof -
  let ?sx = "\<lparr>sx_se = se, sx_sv = cw_server w, sx_log = cw_log w\<rparr>"
  have "session_pump cfg env io gone ?sx = (?sx, None)" for gone
    using assms(8) by (cases "se_queue se") (auto simp: session_pump_def upd_se_def)
  then have i: "session_iteration cfg env io (cw_gone w) Sel_Watchdog ?sx = (?sx, Some PingTimeout)"
    using assms(3,6,7) by (simp add: session_iteration_def watchdog_deadline_def watchdog_fired_def)
  have "bt_wf (bt_insert n se (cw_sessions w))" using assms(9) by (rule bt_wf_insert)
  from bt_get_remove [OF this, of n n] show ?thesis
    using assms(2,4,5)
    by (simp add: run_session_step_def assms(1) i Let_def end_session_def drop_session_def session_ended_def
        bt_get_insert disconnected_rec_def)
qed

theorem csms_silent_station_closed_witness:
  "let t1 = 30000000000; t2 = 40000000000;
       w = demo_csms [(demo_io t1, W_Session 1 Sel_Watchdog)];
       w' = run_session_step demo_csms_config demo_csms_env (demo_io t2) 1 Sel_Watchdog w
   in last (sv_events (cw_server w')) = Cs_Disconnected ''CP1'' PingTimeout"
proof -
  let ?w = "demo_csms [(demo_io 30000000000, W_Session 1 Sel_Watchdog)]"
  have f: "bt_wf (cw_sessions ?w) \<and> (\<exists>se rec. bt_get (cw_sessions ?w) 1 = Some se \<and> se_link se = 1 \<and> se_ping se = Some 30000000000
      \<and> se_station se = ''CP1'' \<and> se_flight se \<noteq> None
      \<and> bt_get (sv_stations (cw_server ?w)) ''CP1'' = Some rec \<and> rc_session rec = Some 1)"
    by (simp add: csms_demo_simps watchdog_fired_def bt_wf_def)
  then obtain se rec where "bt_get (cw_sessions ?w) 1 = Some se" "se_link se = 1" "se_ping se = Some 30000000000"
      "bt_get (sv_stations (cw_server ?w)) (se_station se) = Some rec" "rc_session rec = Some 1"
      and rest: "se_station se = ''CP1''" "se_flight se \<noteq> None" by fastforce
  note c = csms_silent_station_closed [OF this(1-5), of demo_csms_config "demo_io 40000000000" demo_csms_env]
  have "cc_ping_interval demo_csms_config > 0 \<and> 30000000000 + cc_pong_timeout demo_csms_config \<le> io_at (demo_io 40000000000)"
    by (simp add: csms_demo_simps)
  with c rest f show ?thesis by (simp add: Let_def)
qed

subsection \<open>Answers and faults\<close>

text \<open>The actions the central system answers by default are exactly those of the table of messages
  that a charge point may send, in its order; every other action of the table is refused as not supported
  and an action outside it as not implemented.\<close>

theorem csms_default_actions:
  "CHARGE_POINT_ACTIONS = map fst (filter (charge_point_may_send \<circ> snd) ACTIONS)
   \<and> distinct (map fst ACTIONS)
   \<and> (list_all (\<lambda>a. charge_point_may_send (snd a) \<or> central_system_may_send (snd a)) ACTIONS)"
  by code_simp

lemma find_triggers_None: "(find (triggers a) fs = None) = (\<forall>f\<in>set fs. \<not> triggers a f)"
  by (auto simp: find_None_iff)

text \<open>A run of CALLs of one action, as the answers they get.\<close>

fun answers :: "csms_config \<Rightarrow> csms_env \<Rightarrow> string \<Rightarrow> (instant \<times> json) list \<Rightarrow> csms_server \<Rightarrow> csms_reply list" where
  "answers cfg env action [] sv = []"
| "answers cfg env action ((now, payload) # calls) sv =
     (case decide cfg env now action payload sv of (r, sv1) \<Rightarrow> r # answers cfg env action calls sv1)"

definition no_fault_for :: "string \<Rightarrow> csms_server \<Rightarrow> bool" where
  "no_fault_for action sv = (\<forall>f\<in>set (sv_faults sv). \<not> triggers action f)"

lemma find_append: "find P (xs @ ys) = (case find P xs of None \<Rightarrow> find P ys | Some x \<Rightarrow> Some x)"
  by (induction xs) auto

lemma update_first_append:
  "\<forall>x\<in>set xs. \<not> P x \<Longrightarrow> update_first P g (xs @ [y]) = xs @ [if P y then g y else y]"
  by (induction xs) auto

lemma decide_last_fault:
  assumes "sv_faults sv = fs @ [\<lparr>ft_action = action, ft_reply = r, ft_remaining = Suc n\<rparr>]"
    and "\<forall>f\<in>set fs. \<not> triggers action f \<and> 0 < ft_remaining f"
  shows "decide cfg env now action payload sv
      = (r, sv\<lparr>sv_faults := fs @ (if n = 0 then [] else [\<lparr>ft_action = action, ft_reply = r, ft_remaining = n\<rparr>])\<rparr>)"
proof -
  have "find (triggers action) fs = None" using assms(2) by (simp add: find_triggers_None)
  moreover have "filter (\<lambda>f. 0 < ft_remaining f) fs = fs" using assms(2) by (simp add: filter_id_conv)
  moreover have "update_first (triggers action) g (fs @ [\<lparr>ft_action = action, ft_reply = r, ft_remaining = Suc n\<rparr>])
      = fs @ [g \<lparr>ft_action = action, ft_reply = r, ft_remaining = Suc n\<rparr>]" for g
    by (subst update_first_append) (use assms(2) in \<open>auto simp: triggers_def\<close>)
  ultimately show ?thesis
    using assms(1) by (simp add: decide_def use_fault_def find_append) (simp add: triggers_def)
qed

lemma answers_fault:
  "sv_faults sv = fs @ (if n = 0 then [] else [\<lparr>ft_action = action, ft_reply = r, ft_remaining = n\<rparr>]) \<Longrightarrow>
   \<forall>f\<in>set fs. \<not> triggers action f \<and> 0 < ft_remaining f \<Longrightarrow> n \<le> length calls \<Longrightarrow>
   answers cfg env action calls sv = replicate n r @ answers cfg env action (drop n calls) (sv\<lparr>sv_faults := fs\<rparr>)"
proof (induction n arbitrary: sv calls)
  case 0
  then have "sv\<lparr>sv_faults := fs\<rparr> = sv" by simp
  then show ?case by simp
next
  case (Suc n)
  then obtain now payload rest where calls: "calls = (now, payload) # rest" by (cases calls) auto
  have "sv_faults sv = fs @ [\<lparr>ft_action = action, ft_reply = r, ft_remaining = Suc n\<rparr>]"
    using Suc.prems(1) by simp
  note d = decide_last_fault [OF this Suc.prems(2), of cfg env now payload]
  show ?case
    using Suc.IH [of "snd (decide cfg env now action payload sv)" rest] Suc.prems(2,3) by (simp add: calls d)
qed

text \<open>C20: an injected fault answers exactly the number of CALLs it was made for.  With no other fault for
  the action, the next \<open>n\<close> CALLs of that action get the fault's reply, and the CALLs after them are
  answered as if the fault had never been injected.\<close>

theorem csms_fault_fires_exactly:
  assumes "good cfg sv" "no_fault_for action sv" "n \<le> length calls"
  shows "answers cfg env action calls (cs_inject (fault_times n (fault_reply action r)) sv)
       = replicate n r @ answers cfg env action (drop n calls) sv"
proof -
  have f: "\<forall>f\<in>set (sv_faults sv). \<not> triggers action f \<and> 0 < ft_remaining f"
    using assms(1,2) by (simp add: good_def server_ok_def no_fault_for_def)
  let ?sv = "cs_inject (fault_times n (fault_reply action r)) sv"
  have "sv_faults ?sv = sv_faults sv @ (if n = 0 then [] else [\<lparr>ft_action = action, ft_reply = r, ft_remaining = n\<rparr>])"
    by (simp add: cs_inject_def fault_times_def fault_reply_def)
  from answers_fault [OF this f assms(3), of cfg env] show ?thesis by (simp add: cs_inject_def)
qed

theorem csms_fault_fires_exactly_witness:
  "answers demo_csms_config demo_csms_env ''Heartbeat'' [(0, JNull), (1, JNull), (2, JNull)]
     (cs_inject (fault_times 2 (fault_reply ''Heartbeat'' Silence)) (new_server demo_csms_config))
   = [Silence, Silence, Reply_Result (JObject [(''currentTime'', JString ''now'')])]"
proof -
  have "no_fault_for ''Heartbeat'' (new_server demo_csms_config)" by (simp add: no_fault_for_def new_server_def)
  from csms_fault_fires_exactly [OF good_new_server this, of 2 "[(0, JNull), (1, JNull), (2, JNull)]" demo_csms_env Silence]
  show ?thesis
    by (simp add: decide_def use_fault_def new_server_def invalid_inbound_def demo_csms_env_def demo_csms_config_def
        is_charge_point_action_def CHARGE_POINT_ACTIONS_def default_reply_def numeral_2_eq_2)
qed

text \<open>The precedence of answers.  Without a fault a CALL that violates its schema is answered with that
  error although a responder is installed; a responder replaces the default answer, also for an action that
  is not a charge point's; and without either an action the central system does not take is refused with
  NotSupported if OCPP knows it and NotImplemented otherwise.\<close>

theorem csms_answer_precedence:
  assumes "no_fault_for action sv"
  shows "fst (decide cfg env now action payload sv)
    = (case invalid_inbound cfg env action payload of
         Some r \<Rightarrow> r
       | None \<Rightarrow>
           (case bt_get (sv_responders sv) action of
              Some responder \<Rightarrow> responder payload
            | None \<Rightarrow>
                if action \<in> set CHARGE_POINT_ACTIONS
                then default_reply (ce_iso env) now action payload (cc_heartbeat_interval cfg)
                       (if action = ''StartTransaction'' then Some (fst (allocate (sv_tx_ids sv))) else None)
                else Reply_Error (if find_action action = None then NotImplemented else Err_NotSupported)
                  (''action '' @ sanitize_action action
                    @ (if find_action action = None then '' is not implemented'' else '' is not supported''))))"
proof -
  have "use_fault action (sv_faults sv) = None"
    using assms by (simp add: use_fault_def no_fault_for_def find_triggers_None)
  then show ?thesis
    by (auto simp: decide_def is_charge_point_action_def unsupported_reply_def split: option.split prod.split)
qed

theorem csms_answer_precedence_witness:
  "fst (decide demo_csms_config demo_csms_env 0 ''Reset'' JNull (new_server demo_csms_config))
   = Reply_Error Err_NotSupported ''action Reset is not supported''"
proof -
  have "no_fault_for ''Reset'' (new_server demo_csms_config)" by (simp add: no_fault_for_def new_server_def)
  moreover have "invalid_inbound demo_csms_config demo_csms_env ''Reset'' JNull = None"
    by (simp add: invalid_inbound_def demo_csms_env_def)
  moreover have "find_action ''Reset'' \<noteq> None" "''Reset'' \<notin> set CHARGE_POINT_ACTIONS" "sanitize_action ''Reset'' = ''Reset''"
    by code_simp+
  ultimately show ?thesis
    using csms_answer_precedence [of "''Reset''" "new_server demo_csms_config" demo_csms_config demo_csms_env 0 JNull]
    by (simp add: new_server_def)
qed

end
