(* ===== verification/Ws_Task.thy ===== *)
theory Ws_Task
  imports Ocpp_Frame "HOL-Library.Multiset"
begin

text \<open>
  The connection task (\<open>ws/task.rs\<close>, \<open>ws/mod.rs\<close>): the queue of outbound CALLs, the table of CALLs
  that await an answer, the table of the central system's CALLs that await a reply, the watchdog and
  the end of the connection.

  The socket, the clock, the UUID generator, the JSON text form and the bundled schemas are the
  environment: \<open>we_write n\<close> is how the \<open>n\<close>-th write to the socket ends, \<open>we_listens n\<close> whether the
  owner still takes the \<open>n\<close>-th event, \<open>we_uuid n\<close> the \<open>n\<close>-th id.  A \<^emph>\<open>ticket\<close> stands for the
  \<open>oneshot\<close> channel of a caller; a caller that gives up is the step \<open>St_Gone\<close>.  The texts of
  protocol warnings and the time stamps of frame records are not modelled.  The tables are lists in
  the order of insertion where the code has hash maps, whose order of iteration is unspecified.
\<close>

subsection \<open>Types\<close>

type_synonym ticket = nat

datatype call_fail =
  Fail_NotConnected
| Fail_Closed "nat option"
| Fail_Timeout string duration
| Fail_Rpc string error_code string json
| Fail_Schema "string list"

record outbound_call =
  oc_action :: string
  oc_payload :: json
  oc_timeout :: duration
  oc_reply :: ticket

record pending =
  pn_action :: string
  pn_timeout :: duration
  pn_deadline :: nat
  pn_reply :: ticket

datatype ws_stop =
  Stop_Requested
| Stop_Peer "(nat \<times> string) option"
| Stop_Abort string bool

datatype ws_command = Ws_Call outbound_call | Ws_Close

datatype ws_message =
  Msg_Text string
| Msg_Binary "string option"
| Msg_Ping
| Msg_Pong
| Msg_Close "(nat \<times> string) option"
| Msg_Frame

text \<open>
  How a \<open>ReplyHandle\<close> (\<open>ocpp/responder.rs\<close>) is consumed: each way sends one frame.  An abandoned
  handle sends none; a delayed one sends its frame in a later step.
\<close>

datatype reply_action =
  Accept_Value json
| Reject_With error_code string json
| Dropped_Handle

fun reply_frame :: "message_id \<Rightarrow> reply_action \<Rightarrow> frame" where
  "reply_frame i (Accept_Value payload) = Frame_Result i payload"
| "reply_frame i (Reject_With code description details) = Frame_Error i code description details"
| "reply_frame i Dropped_Handle =
     frame_call_error i Err_InternalError ''request was dropped without a reply''"

datatype ws_step =
  St_Command "ws_command option"
| St_Reply "(message_id \<times> reply_action) option"
| St_Socket "(string + ws_message) option"
| St_Timeouts
| St_Ping
| St_Gone ticket

record frame_record =
  fr_out :: bool
  fr_msg_id :: "message_id option"
  fr_action :: "string option"
  fr_frame :: json

datatype conn_event =
  Ev_Frame frame_record
| Ev_Call message_id string json
| Ev_Warning
| Ev_Closed "nat option" string bool

datatype ws_effect =
  Wire frame
| Wire_Ping
| Event conn_event
| Result ticket "call_fail + json"

record ws_env =
  we_uuid :: "nat \<Rightarrow> message_id"
  we_write :: "nat \<Rightarrow> ws_stop option"
  we_listens :: "nat \<Rightarrow> bool"
  we_knows :: "string \<Rightarrow> bool"
  we_request :: "string \<Rightarrow> json \<Rightarrow> (error_code \<times> string list) option"
  we_response :: "string \<Rightarrow> json \<Rightarrow> string list option"
  we_parse :: "string \<Rightarrow> string + json"
  we_print :: "json \<Rightarrow> string"

record ws_task =
  wt_serialize :: bool
  wt_show_secrets :: bool
  wt_open :: bool
  wt_queue :: "outbound_call list"
  wt_pending :: "(message_id \<times> pending) list"
  wt_incoming :: "(message_id \<times> string) list"
  wt_awaiting_pong :: bool
  wt_gone :: "ticket list"
  wt_out :: "ws_effect list"
  wt_writes :: nat
  wt_events :: nat
  wt_uuids :: nat

definition ABNORMAL_CLOSE :: nat where "ABNORMAL_CLOSE = 1006"
definition NORMAL_CLOSE :: nat where "NORMAL_CLOSE = 1000"

definition ws_spawn :: "bool \<Rightarrow> bool \<Rightarrow> ws_task" where
  "ws_spawn serialize show_secrets =
     \<lparr>wt_serialize = serialize, wt_show_secrets = show_secrets, wt_open = True, wt_queue = [],
      wt_pending = [], wt_incoming = [], wt_awaiting_pong = False, wt_gone = [], wt_out = [],
      wt_writes = 0, wt_events = 0, wt_uuids = 0\<rparr>"

text \<open>The result of a step: the state, and why the loop ends, if it does.\<close>

type_synonym flow = "ws_task \<times> ws_stop option"

definition continue :: "ws_task \<Rightarrow> flow" where
  "continue t = (t, None)"

definition seq :: "flow \<Rightarrow> (ws_task \<Rightarrow> flow) \<Rightarrow> flow" where
  "seq r f = (case r of (t, None) \<Rightarrow> f t | (t, Some stop) \<Rightarrow> (t, Some stop))"

definition log_effect :: "ws_effect \<Rightarrow> ws_task \<Rightarrow> ws_task" where
  "log_effect e t = t\<lparr>wt_out := wt_out t @ [e]\<rparr>"

definition finish_call :: "ticket \<Rightarrow> call_fail + json \<Rightarrow> ws_task \<Rightarrow> ws_task" where
  "finish_call k r t = log_effect (Result k r) t"

subsection \<open>Writing and reporting\<close>

definition ws_emit :: "ws_env \<Rightarrow> conn_event \<Rightarrow> ws_task \<Rightarrow> flow" where
  "ws_emit env e t =
     (let t1 = t\<lparr>wt_events := wt_events t + 1\<rparr> in
      if we_listens env (wt_events t) then (log_effect (Event e) t1, None) else (t1, Some Stop_Requested))"

definition ws_warn :: "ws_env \<Rightarrow> ws_task \<Rightarrow> flow" where
  "ws_warn env = ws_emit env Ev_Warning"

definition send_message :: "ws_env \<Rightarrow> ws_effect option \<Rightarrow> ws_task \<Rightarrow> flow" where
  "send_message env e t =
     (let t1 = t\<lparr>wt_writes := wt_writes t + 1\<rparr> in
      case we_write env (wt_writes t) of
        Some stop \<Rightarrow> (t1, Some stop)
      | None \<Rightarrow> ((case e of None \<Rightarrow> t1 | Some x \<Rightarrow> log_effect x t1), None))"

definition recorded :: "ws_task \<Rightarrow> frame \<Rightarrow> json" where
  "recorded t f = (if wt_show_secrets t then to_value f else to_value (redact_secrets f))"

definition ws_write :: "ws_env \<Rightarrow> frame \<Rightarrow> string option \<Rightarrow> ws_task \<Rightarrow> flow" where
  "ws_write env f action t =
     seq (send_message env (Some (Wire f)) t) (\<lambda>t1.
       ws_emit env (Ev_Frame \<lparr>fr_out = True, fr_msg_id = Some (frame_id f), fr_action = action,
                              fr_frame = recorded t1 f\<rparr>) t1)"

subsection \<open>Outbound CALLs\<close>

text \<open>\<open>deadline_after\<close>; an instant that does not fit the clock is outside the model.\<close>

definition deadline_after :: "nat \<Rightarrow> duration \<Rightarrow> nat" where
  "deadline_after now timeout = now + timeout"

lemma seq_simps [simp]:
  "seq (t, None) f = f t" "seq (t, Some x) f = (t, Some x)"
  by (simp_all add: seq_def)

lemma emit_fields [simp]:
  "wt_queue (fst (ws_emit env e t)) = wt_queue t" "wt_pending (fst (ws_emit env e t)) = wt_pending t"
  "wt_incoming (fst (ws_emit env e t)) = wt_incoming t" "wt_gone (fst (ws_emit env e t)) = wt_gone t"
  "wt_serialize (fst (ws_emit env e t)) = wt_serialize t" "wt_uuids (fst (ws_emit env e t)) = wt_uuids t"
  "wt_open (fst (ws_emit env e t)) = wt_open t"
  by (simp_all add: ws_emit_def Let_def log_effect_def)

lemma send_fields [simp]:
  "wt_queue (fst (send_message env e t)) = wt_queue t" "wt_pending (fst (send_message env e t)) = wt_pending t"
  "wt_incoming (fst (send_message env e t)) = wt_incoming t" "wt_gone (fst (send_message env e t)) = wt_gone t"
  "wt_serialize (fst (send_message env e t)) = wt_serialize t" "wt_uuids (fst (send_message env e t)) = wt_uuids t"
  "wt_open (fst (send_message env e t)) = wt_open t"
  by (simp_all add: send_message_def Let_def log_effect_def split: option.split)

lemma seq_fields:
  "(\<And>t. g (fst (f t)) = g t) \<Longrightarrow> g (fst (seq r f)) = g (fst r)"
  by (auto simp: seq_def split: prod.split option.split)

lemma write_fields [simp]:
  "wt_queue (fst (ws_write env f a t)) = wt_queue t" "wt_pending (fst (ws_write env f a t)) = wt_pending t"
  "wt_incoming (fst (ws_write env f a t)) = wt_incoming t" "wt_gone (fst (ws_write env f a t)) = wt_gone t"
  "wt_serialize (fst (ws_write env f a t)) = wt_serialize t" "wt_uuids (fst (ws_write env f a t)) = wt_uuids t"
  "wt_open (fst (ws_write env f a t)) = wt_open t"
  unfolding ws_write_def by (subst seq_fields; simp)+

function pump :: "ws_env \<Rightarrow> nat \<Rightarrow> ws_task \<Rightarrow> flow" where
  "pump env now t =
     (case wt_queue t of
        [] \<Rightarrow> continue t
      | call # rest \<Rightarrow>
          if wt_serialize t \<and> wt_pending t \<noteq> [] then continue t
          else
            let t1 = t\<lparr>wt_queue := rest\<rparr> in
            if oc_reply call \<in> set (wt_gone t1) then pump env now t1
            else
              let i = we_uuid env (wt_uuids t1);
                  t2 = t1\<lparr>wt_uuids := wt_uuids t1 + 1\<rparr>;
                  r = ws_write env (Frame_Call i (oc_action call) (oc_payload call)) (Some (oc_action call)) t2
              in case snd r of
                   Some stop \<Rightarrow> (finish_call (oc_reply call) (Inl (Fail_Closed (Some ABNORMAL_CLOSE))) (fst r), Some stop)
                 | None \<Rightarrow>
                     pump env now ((fst r)\<lparr>wt_pending := wt_pending (fst r) @
                       [(i, \<lparr>pn_action = oc_action call, pn_timeout = oc_timeout call,
                             pn_deadline = deadline_after now (oc_timeout call),
                             pn_reply = oc_reply call\<rparr>)]\<rparr>))"
  by pat_completeness auto
termination
  by (relation "measure (\<lambda>(env, now, t). length (wt_queue t))") auto

declare pump.simps [simp del]

definition connection_call ::
  "ws_env \<Rightarrow> ws_task \<Rightarrow> string \<Rightarrow> json \<Rightarrow> duration \<Rightarrow> bool \<Rightarrow> ticket \<Rightarrow> call_fail + ws_command" where
  "connection_call env t action payload timeout validate k =
     (if \<not> wt_open t then Inl Fail_NotConnected
      else if validate \<and> we_request env action payload \<noteq> None
      then Inl (Fail_Schema (case we_request env action payload of None \<Rightarrow> [] | Some (_, errors) \<Rightarrow> errors))
      else Inr (Ws_Call \<lparr>oc_action = action, oc_payload = payload, oc_timeout = timeout, oc_reply = k\<rparr>))"

definition take_call :: "ws_env \<Rightarrow> nat \<Rightarrow> outbound_call \<Rightarrow> ws_task \<Rightarrow> flow" where
  "take_call env now c t =
     pump env now (t\<lparr>wt_queue := filter (\<lambda>q. oc_reply q \<notin> set (wt_gone t)) (wt_queue t) @ [c]\<rparr>)"

definition remove_pending :: "message_id \<Rightarrow> ws_task \<Rightarrow> ws_task" where
  "remove_pending i t = t\<lparr>wt_pending := filter (\<lambda>(j, _). j \<noteq> i) (wt_pending t)\<rparr>"

definition ws_call_result :: "ws_env \<Rightarrow> nat \<Rightarrow> message_id \<Rightarrow> json \<Rightarrow> ws_task \<Rightarrow> flow" where
  "ws_call_result env now i payload t =
     (case map_of (wt_pending t) i of
        None \<Rightarrow> continue t
      | Some p \<Rightarrow>
          let t1 = remove_pending i t in
          (case we_response env (pn_action p) payload of
             None \<Rightarrow> pump env now (finish_call (pn_reply p) (Inr payload) t1)
           | Some errors \<Rightarrow>
               (case ws_warn env t1 of
                  (t2, Some stop) \<Rightarrow> (finish_call (pn_reply p) (Inl (Fail_Closed None)) t2, Some stop)
                | (t2, None) \<Rightarrow> pump env now (finish_call (pn_reply p) (Inl (Fail_Schema errors)) t2))))"

definition ws_call_error ::
  "ws_env \<Rightarrow> nat \<Rightarrow> message_id \<Rightarrow> error_code \<Rightarrow> string \<Rightarrow> json \<Rightarrow> ws_task \<Rightarrow> flow" where
  "ws_call_error env now i code description details t =
     (case map_of (wt_pending t) i of
        None \<Rightarrow> continue t
      | Some p \<Rightarrow>
          pump env now (finish_call (pn_reply p) (Inl (Fail_Rpc (pn_action p) code description details))
            (remove_pending i t)))"

definition expire_one :: "ws_task \<Rightarrow> message_id \<times> pending \<Rightarrow> ws_task" where
  "expire_one t ip =
     (case ip of (i, p) \<Rightarrow>
        finish_call (pn_reply p) (Inl (Fail_Timeout (pn_action p) (pn_timeout p))) (remove_pending i t))"

definition ws_expire :: "ws_env \<Rightarrow> nat \<Rightarrow> ws_task \<Rightarrow> flow" where
  "ws_expire env now t =
     pump env now (foldl expire_one t (filter (\<lambda>(_, p). pn_deadline p \<le> now) (wt_pending t)))"

subsection \<open>The central system's CALLs\<close>

definition ws_reply :: "ws_env \<Rightarrow> frame \<Rightarrow> ws_task \<Rightarrow> flow" where
  "ws_reply env f t =
     (case map_of (wt_incoming t) (frame_id f) of
        None \<Rightarrow> continue t
      | Some action \<Rightarrow>
          let t1 = t\<lparr>wt_incoming := filter (\<lambda>(j, _). j \<noteq> frame_id f) (wt_incoming t)\<rparr> in
          (case f of
             Frame_Result i payload \<Rightarrow>
               (case we_response env action payload of
                  None \<Rightarrow> ws_write env f (Some action) t1
                | Some errors \<Rightarrow>
                    seq (ws_warn env t1) (ws_write env
                      (frame_call_error i Err_InternalError (join ''; '' errors)) (Some action)))
           | _ \<Rightarrow> ws_write env f (Some action) t1))"

definition ws_incoming_call :: "ws_env \<Rightarrow> message_id \<Rightarrow> string \<Rightarrow> json \<Rightarrow> ws_task \<Rightarrow> flow" where
  "ws_incoming_call env i action payload t =
     (if map_of (wt_incoming t) i \<noteq> None then ws_warn env t
      else
        case (if we_knows env action
              then map_option (\<lambda>(code, errors). (code, join ''; '' errors)) (we_request env action payload)
              else Some (NotImplemented, action @ '' is not an OCPP 1.6J action'')) of
          Some (code, description) \<Rightarrow>
            seq (ws_warn env t) (ws_write env (frame_call_error i code description) (Some action))
        | None \<Rightarrow>
            ws_emit env (Ev_Call i action payload) (t\<lparr>wt_incoming := wt_incoming t @ [(i, action)]\<rparr>))"

definition frame_action_known :: "ws_task \<Rightarrow> frame \<Rightarrow> string option" where
  "frame_action_known t f =
     (case f of Frame_Call _ a _ \<Rightarrow> Some a
      | _ \<Rightarrow> map_option pn_action (map_of (wt_pending t) (frame_id f)))"

definition incoming_text :: "ws_env \<Rightarrow> nat \<Rightarrow> string \<Rightarrow> ws_task \<Rightarrow> flow" where
  "incoming_text env now text t =
     (case parse_frame (we_parse env) text of
        Inl e \<Rightarrow>
          seq (ws_emit env (Ev_Frame \<lparr>fr_out = False, fr_msg_id = fe_id e, fr_action = None,
                 fr_frame = JString text\<rparr>) t) (\<lambda>t1.
          seq (ws_warn env t1) (\<lambda>t2.
            case frame_error_reply (we_print env) e of
              Some reply \<Rightarrow> ws_write env reply None t2
            | None \<Rightarrow> continue t2))
      | Inr f \<Rightarrow>
          seq (ws_emit env (Ev_Frame \<lparr>fr_out = False, fr_msg_id = Some (frame_id f),
                 fr_action = frame_action_known t f, fr_frame = recorded t f\<rparr>) t) (\<lambda>t1.
            case f of
              Frame_Call i action payload \<Rightarrow> ws_incoming_call env i action payload t1
            | Frame_Result i payload \<Rightarrow> ws_call_result env now i payload t1
            | Frame_Error i code description details \<Rightarrow>
                ws_call_error env now i code description details t1))"

definition incoming_message :: "ws_env \<Rightarrow> nat \<Rightarrow> ws_message \<Rightarrow> ws_task \<Rightarrow> flow" where
  "incoming_message env now m t =
     (case m of
        Msg_Text text \<Rightarrow> incoming_text env now text t
      | Msg_Binary (Some text) \<Rightarrow> incoming_text env now text t
      | Msg_Binary None \<Rightarrow> ws_warn env t
      | Msg_Ping \<Rightarrow> send_message env None t
      | Msg_Pong \<Rightarrow> continue (t\<lparr>wt_awaiting_pong := False\<rparr>)
      | Msg_Close f \<Rightarrow> (t, Some (Stop_Peer f))
      | Msg_Frame \<Rightarrow> continue t)"

definition ws_ping :: "ws_env \<Rightarrow> ws_task \<Rightarrow> flow" where
  "ws_ping env t =
     (if wt_awaiting_pong t then (t, Some (Stop_Abort ''WebSocket pong timed out'' True))
      else send_message env (Some Wire_Ping) (t\<lparr>wt_awaiting_pong := True\<rparr>))"

subsection \<open>The loop\<close>

definition ws_handle :: "ws_env \<Rightarrow> nat \<Rightarrow> ws_step \<Rightarrow> ws_task \<Rightarrow> flow" where
  "ws_handle env now step t =
     (case step of
        St_Command (Some (Ws_Call c)) \<Rightarrow> take_call env now c t
      | St_Command _ \<Rightarrow> (t, Some Stop_Requested)
      | St_Reply (Some (i, act)) \<Rightarrow> ws_reply env (reply_frame i act) t
      | St_Reply None \<Rightarrow> continue t
      | St_Socket (Some (Inr m)) \<Rightarrow> incoming_message env now m t
      | St_Socket (Some (Inl e)) \<Rightarrow> (t, Some (Stop_Abort e False))
      | St_Socket None \<Rightarrow> (t, Some (Stop_Abort ''connection lost'' False))
      | St_Timeouts \<Rightarrow> ws_expire env now t
      | St_Ping \<Rightarrow> ws_ping env t
      | St_Gone k \<Rightarrow> continue (t\<lparr>wt_gone := k # wt_gone t\<rparr>))"

definition known_code :: "ws_stop \<Rightarrow> nat option" where
  "known_code stop =
     (case stop of
        Stop_Requested \<Rightarrow> Some NORMAL_CLOSE
      | Stop_Peer f \<Rightarrow> map_option fst f
      | Stop_Abort _ _ \<Rightarrow> Some ABNORMAL_CLOSE)"

definition fail_all :: "nat option \<Rightarrow> ws_task \<Rightarrow> ws_task" where
  "fail_all code t =
     (let ks = map (pn_reply \<circ> snd) (wt_pending t) @ map oc_reply (wt_queue t)
      in foldl (\<lambda>t' k. finish_call k (Inl (Fail_Closed code)) t') (t\<lparr>wt_pending := [], wt_queue := []\<rparr>) ks)"

definition command_tickets :: "ws_command list \<Rightarrow> ticket list" where
  "command_tickets cs = concat (map (\<lambda>c. case c of Ws_Call x \<Rightarrow> [oc_reply x] | Ws_Close \<Rightarrow> []) cs)"

text \<open>
  \<open>finish\<close>: \<open>left\<close> are the commands still in the channel, \<open>handshake\<close> how the close handshake of a
  requested stop ended.
\<close>

definition ws_finish :: "nat option \<times> string \<Rightarrow> ws_command list \<Rightarrow> ws_stop \<Rightarrow> ws_task \<Rightarrow> ws_task" where
  "ws_finish handshake left stop t =
     (let code = known_code stop;
          t1 = fail_all code (t\<lparr>wt_open := False\<rparr>);
          t2 = foldl (\<lambda>t' k. finish_call k (Inl (Fail_Closed code)) t') t1 (command_tickets left);
          t3 = t2\<lparr>wt_incoming := []\<rparr>;
          (c, reason, by_us) =
            (case stop of
               Stop_Requested \<Rightarrow> (fst handshake, snd handshake, True)
             | Stop_Peer f \<Rightarrow> (case f of None \<Rightarrow> (None, [], False) | Some (n, r) \<Rightarrow> (Some n, r, False))
             | Stop_Abort r b \<Rightarrow> (Some ABNORMAL_CLOSE, r, b))
      in log_effect (Event (Ev_Closed c reason by_us)) t3)"

text \<open>The loop over the steps the world makes; the steps after the end are the commands left.\<close>

fun ws_run :: "ws_env \<Rightarrow> nat option \<times> string \<Rightarrow> (nat \<times> ws_step) list \<Rightarrow> ws_task \<Rightarrow> ws_task" where
  "ws_run env hs [] t = t"
| "ws_run env hs ((now, step) # steps) t =
     (case ws_handle env now step t of
        (t', None) \<Rightarrow> ws_run env hs steps t'
      | (t', Some stop) \<Rightarrow>
          ws_finish hs (List.map_filter (\<lambda>(_, s). case s of St_Command c \<Rightarrow> c | _ \<Rightarrow> None) steps) stop t')"

end
