(* ===== verification/Ws_Laws.thy ===== *)
theory Ws_Laws
  imports Ws_Task Call_Accounting "HOL-Library.Sublist"
begin

text \<open>
  What the connection task promises its callers and the central system, over any sequence of steps
  and any behaviour of the socket: every CALL gets exactly one result, the CALLs go out in the order
  they were made and, when serialized, one at a time without stalling, and a reply is sent at most
  once per received frame.
\<close>

subsection \<open>Reading the trace\<close>

fun ticket_of :: "ws_effect \<Rightarrow> ticket option" where
  "ticket_of (Result k _) = Some k"
| "ticket_of _ = None"

fun call_of :: "ws_effect \<Rightarrow> (string \<times> json) option" where
  "call_of (Wire (Frame_Call _ a p)) = Some (a, p)"
| "call_of _ = None"

fun reply_of :: "ws_effect \<Rightarrow> message_id option" where
  "reply_of (Wire (Frame_Result i _)) = Some i"
| "reply_of (Wire (Frame_Error i _ _ _)) = Some i"
| "reply_of _ = None"

fun ask_of :: "ws_effect \<Rightarrow> message_id option" where
  "ask_of (Event (Ev_Frame r)) = (if fr_out r then None else fr_msg_id r)"
| "ask_of _ = None"

definition results :: "ws_task \<Rightarrow> ticket list" where
  "results t = List.map_filter ticket_of (wt_out t)"
definition calls_sent :: "ws_task \<Rightarrow> (string \<times> json) list" where
  "calls_sent t = List.map_filter call_of (wt_out t)"
definition replies :: "ws_task \<Rightarrow> message_id list" where
  "replies t = List.map_filter reply_of (wt_out t)"
definition asks :: "ws_task \<Rightarrow> message_id list" where
  "asks t = List.map_filter ask_of (wt_out t)"

lemmas trace_defs = results_def calls_sent_def replies_def asks_def

lemma map_filter_append [simp]: "List.map_filter f (xs @ ys) = List.map_filter f xs @ List.map_filter f ys"
  by (simp add: List.map_filter_def)

lemma map_filter_Nil [simp]: "List.map_filter f [] = []"
  by (simp add: List.map_filter_def)

lemma map_filter_one: "List.map_filter f [x] = (case f x of None \<Rightarrow> [] | Some y \<Rightarrow> [y])"
  by (simp add: List.map_filter_def split: option.split)

lemma emit_trace [simp]:
  "results (fst (ws_emit env e t)) = results t" "calls_sent (fst (ws_emit env e t)) = calls_sent t"
  "replies (fst (ws_emit env e t)) = replies t"
  by (simp_all add: ws_emit_def Let_def log_effect_def trace_defs map_filter_one)

lemma emit_asks: "asks (fst (ws_emit env e t)) = asks t @
    (if we_listens env (wt_events t) then (case ask_of (Event e) of None \<Rightarrow> [] | Some i \<Rightarrow> [i]) else [])"
  by (simp add: ws_emit_def Let_def log_effect_def trace_defs map_filter_one split: option.split)

lemma emit_ok: "snd (ws_emit env e t) = None \<longleftrightarrow> we_listens env (wt_events t)"
  by (simp add: ws_emit_def Let_def)

lemma send_trace:
  "results (fst (send_message env e t)) = results t @
     (if we_write env (wt_writes t) = None then (case Option.bind e ticket_of of None \<Rightarrow> [] | Some k \<Rightarrow> [k]) else [])"
  "calls_sent (fst (send_message env e t)) = calls_sent t @
     (if we_write env (wt_writes t) = None then (case Option.bind e call_of of None \<Rightarrow> [] | Some k \<Rightarrow> [k]) else [])"
  "replies (fst (send_message env e t)) = replies t @
     (if we_write env (wt_writes t) = None then (case Option.bind e reply_of of None \<Rightarrow> [] | Some k \<Rightarrow> [k]) else [])"
  "asks (fst (send_message env e t)) = asks t @
     (if we_write env (wt_writes t) = None then (case Option.bind e ask_of of None \<Rightarrow> [] | Some k \<Rightarrow> [k]) else [])"
  by (auto simp: send_message_def Let_def log_effect_def trace_defs map_filter_one split: option.split)

lemma send_ok: "we_write env (wt_writes t) = None \<Longrightarrow>
    send_message env (Some e) t = (log_effect e (t\<lparr>wt_writes := wt_writes t + 1\<rparr>), None)"
  by (simp add: send_message_def Let_def)

lemma send_fail: "we_write env (wt_writes t) = Some stop \<Longrightarrow>
    send_message env e t = (t\<lparr>wt_writes := wt_writes t + 1\<rparr>, Some stop)"
  by (simp add: send_message_def Let_def)

lemma log_effect_trace:
  "results (log_effect e (t\<lparr>wt_writes := n\<rparr>)) = results t @ (case ticket_of e of None \<Rightarrow> [] | Some k \<Rightarrow> [k])"
  "calls_sent (log_effect e (t\<lparr>wt_writes := n\<rparr>)) = calls_sent t @ (case call_of e of None \<Rightarrow> [] | Some k \<Rightarrow> [k])"
  "replies (log_effect e (t\<lparr>wt_writes := n\<rparr>)) = replies t @ (case reply_of e of None \<Rightarrow> [] | Some k \<Rightarrow> [k])"
  "asks (log_effect e (t\<lparr>wt_writes := n\<rparr>)) = asks t @ (case ask_of e of None \<Rightarrow> [] | Some k \<Rightarrow> [k])"
  by (simp_all add: log_effect_def trace_defs map_filter_one split: option.split)

lemma writes_trace [simp]:
  "results (t\<lparr>wt_writes := n\<rparr>) = results t" "calls_sent (t\<lparr>wt_writes := n\<rparr>) = calls_sent t"
  "replies (t\<lparr>wt_writes := n\<rparr>) = replies t" "asks (t\<lparr>wt_writes := n\<rparr>) = asks t"
  by (simp_all add: trace_defs)

lemma write_trace:
  "results (fst (ws_write env f a t)) = results t"
  "calls_sent (fst (ws_write env f a t)) = calls_sent t @
     (if we_write env (wt_writes t) = None then (case call_of (Wire f) of None \<Rightarrow> [] | Some k \<Rightarrow> [k]) else [])"
  "replies (fst (ws_write env f a t)) = replies t @
     (if we_write env (wt_writes t) = None then (case reply_of (Wire f) of None \<Rightarrow> [] | Some k \<Rightarrow> [k]) else [])"
  "asks (fst (ws_write env f a t)) = asks t"
  by (cases "we_write env (wt_writes t)";
      simp add: ws_write_def send_ok send_fail log_effect_trace emit_asks)+

lemma log_trace [simp]:
  "results (finish_call k r t) = results t @ [k]" "calls_sent (finish_call k r t) = calls_sent t"
  "replies (finish_call k r t) = replies t" "asks (finish_call k r t) = asks t"
  "wt_queue (finish_call k r t) = wt_queue t" "wt_pending (finish_call k r t) = wt_pending t"
  "wt_incoming (finish_call k r t) = wt_incoming t" "wt_gone (finish_call k r t) = wt_gone t"
  "wt_serialize (finish_call k r t) = wt_serialize t" "wt_uuids (finish_call k r t) = wt_uuids t"
  "wt_open (finish_call k r t) = wt_open t"
  by (simp_all add: finish_call_def log_effect_def trace_defs map_filter_one)

lemma field_trace [simp]:
  "results (t\<lparr>wt_queue := q\<rparr>) = results t" "results (t\<lparr>wt_pending := p\<rparr>) = results t"
  "results (t\<lparr>wt_incoming := m\<rparr>) = results t" "results (t\<lparr>wt_gone := g\<rparr>) = results t"
  "results (t\<lparr>wt_uuids := n\<rparr>) = results t" "results (t\<lparr>wt_awaiting_pong := b\<rparr>) = results t"
  "results (t\<lparr>wt_open := b\<rparr>) = results t"
  "calls_sent (t\<lparr>wt_queue := q\<rparr>) = calls_sent t" "calls_sent (t\<lparr>wt_pending := p\<rparr>) = calls_sent t"
  "calls_sent (t\<lparr>wt_incoming := m\<rparr>) = calls_sent t" "calls_sent (t\<lparr>wt_gone := g\<rparr>) = calls_sent t"
  "calls_sent (t\<lparr>wt_uuids := n\<rparr>) = calls_sent t" "calls_sent (t\<lparr>wt_awaiting_pong := b\<rparr>) = calls_sent t"
  "calls_sent (t\<lparr>wt_open := b\<rparr>) = calls_sent t"
  "replies (t\<lparr>wt_queue := q\<rparr>) = replies t" "replies (t\<lparr>wt_pending := p\<rparr>) = replies t"
  "replies (t\<lparr>wt_incoming := m\<rparr>) = replies t" "replies (t\<lparr>wt_gone := g\<rparr>) = replies t"
  "replies (t\<lparr>wt_uuids := n\<rparr>) = replies t" "replies (t\<lparr>wt_awaiting_pong := b\<rparr>) = replies t"
  "replies (t\<lparr>wt_open := b\<rparr>) = replies t"
  "asks (t\<lparr>wt_queue := q\<rparr>) = asks t" "asks (t\<lparr>wt_pending := p\<rparr>) = asks t"
  "asks (t\<lparr>wt_incoming := m\<rparr>) = asks t" "asks (t\<lparr>wt_gone := g\<rparr>) = asks t"
  "asks (t\<lparr>wt_uuids := n\<rparr>) = asks t" "asks (t\<lparr>wt_awaiting_pong := b\<rparr>) = asks t"
  "asks (t\<lparr>wt_open := b\<rparr>) = asks t"
  by (simp_all add: trace_defs)

subsection \<open>Callers\<close>

text \<open>
  \<open>S\<close> are the CALLs made so far, in order.  Every ticket is in the queue, in the table of pending
  CALLs, or has a result, and is counted once; only a caller that gave up may have been withdrawn.
\<close>

definition live :: "ws_task \<Rightarrow> ticket list" where
  "live t = map oc_reply (wt_queue t) @ map (\<lambda>(_, p). pn_reply p) (wt_pending t) @ results t"

definition content :: "outbound_call \<Rightarrow> string \<times> json" where
  "content c = (oc_action c, oc_payload c)"

definition in_order :: "outbound_call list \<Rightarrow> ws_task \<Rightarrow> bool" where
  "in_order S t = subseq (calls_sent t @ map content (wt_queue t)) (map content S)"

definition table_ok :: "ws_env \<Rightarrow> ws_task \<Rightarrow> bool" where
  "table_ok env t =
     (distinct (map fst (wt_pending t))
      \<and> (\<forall>i\<in>fst ` set (wt_pending t). \<exists>n<wt_uuids t. i = we_uuid env n)
      \<and> (wt_serialize t \<longrightarrow> length (wt_pending t) \<le> 1))"

definition calls_inv :: "ws_env \<Rightarrow> outbound_call list \<Rightarrow> ws_task \<Rightarrow> bool" where
  "calls_inv env S t = (accounted (map oc_reply S) (wt_gone t) (live t) \<and> in_order S t \<and> table_ok env t)"

definition same_calls :: "ws_task \<Rightarrow> ws_task \<Rightarrow> bool" where
  "same_calls t t' =
     (wt_queue t' = wt_queue t \<and> wt_pending t' = wt_pending t \<and> results t' = results t
      \<and> calls_sent t' = calls_sent t \<and> wt_gone t' = wt_gone t \<and> wt_uuids t' = wt_uuids t
      \<and> wt_serialize t' = wt_serialize t)"

lemma calls_inv_same: "same_calls t t' \<Longrightarrow> calls_inv env S t' = calls_inv env S t"
  by (simp add: same_calls_def calls_inv_def live_def in_order_def table_ok_def)

lemma same_calls_refl [simp]: "same_calls t t"
  by (simp add: same_calls_def)

lemma same_calls_trans: "same_calls t u \<Longrightarrow> same_calls u v \<Longrightarrow> same_calls t v"
  by (simp add: same_calls_def)

lemma same_calls_seq:
  "same_calls t (fst r) \<Longrightarrow> (\<And>t1. same_calls t1 (fst (f t1))) \<Longrightarrow> same_calls t (fst (seq r f))"
  by (auto simp: seq_def split: prod.split option.split intro: same_calls_trans)

lemma same_calls_emit: "same_calls t (fst (ws_emit env e t))"
  by (simp add: same_calls_def)

lemma same_calls_warn: "same_calls t (fst (ws_warn env t))"
  by (simp add: ws_warn_def same_calls_emit)

lemma same_calls_write: "call_of (Wire f) = None \<Longrightarrow> same_calls t (fst (ws_write env f a t))"
  by (simp add: same_calls_def write_trace)

lemma same_calls_send:
  "Option.bind e ticket_of = None \<Longrightarrow> Option.bind e call_of = None \<Longrightarrow> same_calls t (fst (send_message env e t))"
  by (simp add: same_calls_def send_trace)

lemma count_remove:
  "distinct (map fst xs) \<Longrightarrow> (i, p) \<in> set xs \<Longrightarrow>
   count_list (map (\<lambda>(_, p). pn_reply p) xs) k
     = count_list (map (\<lambda>(_, p). pn_reply p) (filter (\<lambda>(j, _). j \<noteq> i) xs)) k + (if pn_reply p = k then 1 else 0)"
proof (induction xs)
  case (Cons x xs)
  obtain j q where x: "x = (j, q)" by force
  show ?case
  proof (cases "j = i")
    case True
    then have "filter (\<lambda>(j, _). j \<noteq> i) xs = xs"
      using Cons.prems(1) x by (force intro!: filter_True)
    moreover have "q = p" using Cons.prems True x by (force simp: image_iff)
    ultimately show ?thesis using True x by simp
  next
    case False
    with Cons x show ?thesis by auto
  qed
qed simp

lemma calls_inv_answer:
  assumes i: "calls_inv env S t" and p: "(i, p) \<in> set (wt_pending t)"
    and t': "same_calls (remove_pending i t) u"
  shows "calls_inv env S (finish_call (pn_reply p) r u)"
proof -
  have tab: "table_ok env t" and acc: "accounted (map oc_reply S) (wt_gone t) (live t)" and ord: "in_order S t"
    using i by (simp_all add: calls_inv_def)
  have cnt: "count_list (live (finish_call (pn_reply p) r u)) k = count_list (live t) k" for k
    using count_remove [of "wt_pending t" i p k] tab p t'
    by (simp add: live_def same_calls_def remove_pending_def table_ok_def)
  have le: "length (filter (\<lambda>(j, _). j \<noteq> i) (wt_pending t)) \<le> length (wt_pending t)" by simp
  have "table_ok env (finish_call (pn_reply p) r u)"
    using tab t' unfolding table_ok_def same_calls_def remove_pending_def
    by (auto intro: distinct_map_filter order_trans [OF le])
  then show ?thesis
    using acc ord t' cnt by (simp add: calls_inv_def accounted_def in_order_def same_calls_def remove_pending_def)
qed

text \<open>The queue is stuck only behind a serialized CALL that awaits its answer, with a deadline.\<close>

definition flowing :: "ws_task \<Rightarrow> bool" where
  "flowing t = (wt_queue t = [] \<or> (wt_serialize t \<and> wt_pending t \<noteq> []))"

lemma subseq_drop_mid: "subseq (a @ x # b) c \<Longrightarrow> subseq (a @ b) c"
proof (rule subseq_order.order_trans [of _ "a @ x # b"])
  show "subseq (a @ b) (a @ x # b)"
    by (intro list_emb_append_mono subseq_order.order_refl list_emb_Cons)
qed

lemma pump_calls:
  assumes inj: "inj (we_uuid env)"
  shows "calls_inv env S t \<Longrightarrow>
    calls_inv env S (fst (pump env now t)) \<and> (snd (pump env now t) = None \<longrightarrow> flowing (fst (pump env now t)))
    \<and> wt_gone (fst (pump env now t)) = wt_gone t \<and> wt_open (fst (pump env now t)) = wt_open t"
  using inj
proof (induction env now t rule: pump.induct)
  case (1 env now t)
  have i: "calls_inv env S t" and acc: "accounted (map oc_reply S) (wt_gone t) (live t)" and ord: "in_order S t"
    and tab: "table_ok env t"
    using "1.prems" by (simp_all add: calls_inv_def)
  show ?case
  proof (cases "wt_queue t = [] \<or> (wt_serialize t \<and> wt_pending t \<noteq> [])")
    case True
    then have "pump env now t = (t, None)" by (subst pump.simps) (auto simp: continue_def split: list.split)
    with i True show ?thesis by (simp add: flowing_def)
  next
    case False
    then obtain call rest where q: "wt_queue t = call # rest" and s: "wt_serialize t \<longrightarrow> wt_pending t = []"
      by (cases "wt_queue t") auto
    let ?t1 = "t\<lparr>wt_queue := rest\<rparr>"
    let ?i = "we_uuid env (wt_uuids ?t1)"
    let ?t2 = "?t1\<lparr>wt_uuids := wt_uuids ?t1 + 1\<rparr>"
    let ?r = "ws_write env (Frame_Call ?i (oc_action call) (oc_payload call)) (Some (oc_action call)) ?t2"
    show ?thesis
    proof (cases "oc_reply call \<in> set (wt_gone t)")
      case gone: True
      then have eq: "pump env now t = pump env now ?t1" using q s by (subst pump.simps) auto
      have "accounted (map oc_reply S) (wt_gone t) (live ?t1)"
        by (rule accounted_drop [OF _ gone]) (use acc in \<open>simp add: live_def q\<close>)
      moreover have "in_order S ?t1" using ord by (auto simp: in_order_def q intro: subseq_drop_mid)
      ultimately have "calls_inv env S ?t1" using tab by (simp add: calls_inv_def table_ok_def)
      with "1.IH"(1) [OF q _ refl] gone s "1.prems"(2) show ?thesis by (simp add: eq)
    next
      case here: False
      have fresh: "?i \<notin> fst ` set (wt_pending t)"
        using tab inj_eq [OF "1.prems"(2)] by (auto simp: table_ok_def)
      show ?thesis
      proof (cases "snd ?r")
        case (Some stop)
        then have eq: "pump env now t
            = (finish_call (oc_reply call) (Inl (Fail_Closed (Some ABNORMAL_CLOSE))) (fst ?r), Some stop)"
          using q s here by (subst pump.simps) (auto simp: Let_def)
        let ?u = "fst (pump env now t)"
        have "mset (live ?u) = mset (live t)" by (simp add: eq live_def q write_trace)
        then have "accounted (map oc_reply S) (wt_gone t) (live ?u)" using acc accounted_mset by blast
        moreover have "in_order S ?u"
          using ord by (auto simp: eq in_order_def q write_trace content_def intro: subseq_drop_mid)
        moreover have "table_ok env ?u" using tab by (auto simp: eq table_ok_def intro: less_SucI)
        ultimately have "calls_inv env S ?u" by (simp add: calls_inv_def eq)
        then show ?thesis by (simp add: eq)
      next
        case None
        let ?t3 = "(fst ?r)\<lparr>wt_pending := wt_pending (fst ?r) @
                       [(?i, \<lparr>pn_action = oc_action call, pn_timeout = oc_timeout call,
                             pn_deadline = deadline_after now (oc_timeout call),
                             pn_reply = oc_reply call\<rparr>)]\<rparr>"
        have eq: "pump env now t = pump env now ?t3"
          using q s here None by (subst pump.simps) (auto simp: Let_def)
        have "mset (live ?t3) = mset (live t)" by (simp add: live_def q write_trace)
        then have "accounted (map oc_reply S) (wt_gone t) (live ?t3)" using acc accounted_mset by blast
        moreover have "in_order S ?t3"
          using ord by (auto simp: in_order_def q write_trace content_def intro: subseq_drop_mid)
        moreover have "\<forall>j\<in>fst ` set (wt_pending t). \<exists>n<Suc (wt_uuids t). j = we_uuid env n"
          using tab unfolding table_ok_def by (meson less_SucI)
        then have "table_ok env ?t3" using tab fresh s by (auto simp: table_ok_def)
        ultimately have "calls_inv env S ?t3" by (simp add: calls_inv_def)
        with "1.IH"(2) [OF q _ refl _ refl refl refl None] here s "1.prems"(2) show ?thesis by (simp add: eq)
      qed
    qed
  qed
qed

definition progress :: "ws_env \<Rightarrow> outbound_call list \<Rightarrow> ws_task \<Rightarrow> flow \<Rightarrow> bool" where
  "progress env S t r =
     (calls_inv env S (fst r) \<and> (snd r = None \<longrightarrow> flowing (fst r)) \<and> wt_gone (fst r) = wt_gone t
      \<and> wt_open (fst r) = wt_open t)"

lemma progress_pump:
  "inj (we_uuid env) \<Longrightarrow> calls_inv env S u \<Longrightarrow> wt_gone u = wt_gone t \<Longrightarrow> wt_open u = wt_open t \<Longrightarrow>
   progress env S t (pump env now u)"
  using pump_calls [of env S u now] by (simp add: progress_def)

lemma progress_same:
  "same_calls t (fst r) \<Longrightarrow> wt_open (fst r) = wt_open t \<Longrightarrow> calls_inv env S t \<Longrightarrow> flowing t \<Longrightarrow> progress env S t r"
  using calls_inv_same [of t "fst r"] by (auto simp: progress_def same_calls_def flowing_def)

lemma take_call_progress:
  assumes inj: "inj (we_uuid env)" and i: "calls_inv env S t"
  shows "progress env (S @ [c]) t (take_call env now c t)"
  unfolding take_call_def
proof (rule progress_pump [OF inj])
  let ?keep = "filter (\<lambda>q. oc_reply q \<notin> set (wt_gone t)) (wt_queue t)"
  have acc: "accounted (map oc_reply S) (wt_gone t) (live t)" and ord: "in_order S t" and tab: "table_ok env t"
    using i by (simp_all add: calls_inv_def)
  have le: "count_list (map oc_reply (filter P xs)) k \<le> count_list (map oc_reply xs) k" for P xs k
    by (induction xs) auto
  have eq: "count_list (map oc_reply ?keep) k = count_list (map oc_reply (wt_queue t)) k"
    if "k \<notin> set (wt_gone t)" for k
  proof -
    have "count_list (map oc_reply (filter (\<lambda>q. oc_reply q \<notin> G) xs)) k = count_list (map oc_reply xs) k"
      if "k \<notin> G" for G xs using that by (induction xs) auto
    with that show ?thesis by blast
  qed
  have "accounted (map oc_reply (S @ [c])) (wt_gone t) (live (t\<lparr>wt_queue := ?keep @ [c]\<rparr>))"
    unfolding accounted_def
  proof (intro allI conjI impI)
    fix k
    note a = acc [unfolded accounted_def, THEN spec, of k] and le = le [of "\<lambda>q. oc_reply q \<notin> set (wt_gone t)" "wt_queue t" k]
    show "count_list (live (t\<lparr>wt_queue := ?keep @ [c]\<rparr>)) k \<le> count_list (map oc_reply (S @ [c])) k"
      using a le by (simp add: live_def)
    assume "k \<notin> set (wt_gone t)"
    with a eq [OF this] show "count_list (live (t\<lparr>wt_queue := ?keep @ [c]\<rparr>)) k = count_list (map oc_reply (S @ [c])) k"
      by (simp add: live_def)
  qed
  moreover have "subseq (calls_sent t @ map content ?keep) (map content S)"
    using ord unfolding in_order_def
    by (rule subseq_order.order_trans [rotated]) (simp add: subseq_map list_emb_append_mono)
  then have "in_order (S @ [c]) (t\<lparr>wt_queue := ?keep @ [c]\<rparr>)"
    using list_emb_append_mono [of "(=)" "calls_sent t @ map content ?keep" "map content S" "[content c]" "[content c]"]
    by (simp add: in_order_def)
  ultimately show "calls_inv env (S @ [c]) (t\<lparr>wt_queue := ?keep @ [c]\<rparr>)"
    using tab by (simp add: calls_inv_def table_ok_def)
qed simp_all

lemma map_of_pending: "map_of (wt_pending t) i = Some p \<Longrightarrow> (i, p) \<in> set (wt_pending t)"
  by (rule map_of_SomeD)

lemma remove_fields [simp]:
  "wt_gone (remove_pending i t) = wt_gone t" "wt_open (remove_pending i t) = wt_open t"
  "wt_queue (remove_pending i t) = wt_queue t"
  by (simp_all add: remove_pending_def)

lemma call_result_progress:
  assumes "inj (we_uuid env)" and i: "calls_inv env S t" and "flowing t"
  shows "progress env S t (ws_call_result env now i payload t)"
proof (cases "map_of (wt_pending t) i")
  case None
  with assms show ?thesis by (simp add: ws_call_result_def continue_def progress_same)
next
  case (Some p)
  note ans = calls_inv_answer [OF i map_of_pending [OF Some]]
  obtain t2 so where w: "ws_warn env (remove_pending i t) = (t2, so)" by force
  have t2: "same_calls (remove_pending i t) t2" "wt_open t2 = wt_open t" "wt_gone t2 = wt_gone t"
    using same_calls_warn [of "remove_pending i t" env] emit_fields(4,7) [of env Ev_Warning "remove_pending i t"] w
    unfolding ws_warn_def by auto
  show ?thesis
  proof (cases "we_response env (pn_action p) payload")
    case None
    then show ?thesis
      using Some by (simp add: ws_call_result_def Let_def progress_pump [OF assms(1)] ans)
  next
    case (Some errors)
    then show ?thesis
    proof (cases so)
      case None
      with Some \<open>map_of _ _ = _\<close> w t2 show ?thesis
        by (simp add: ws_call_result_def Let_def progress_pump [OF assms(1)] ans)
    next
      case (Some stop)
      with \<open>we_response _ _ _ = _\<close> \<open>map_of _ _ = _\<close> w t2 ans [OF t2(1)] show ?thesis
        by (simp add: ws_call_result_def Let_def progress_def)
    qed
  qed
qed

lemma call_error_progress:
  assumes "inj (we_uuid env)" and i: "calls_inv env S t" and "flowing t"
  shows "progress env S t (ws_call_error env now i code d x t)"
proof (cases "map_of (wt_pending t) i")
  case None
  with assms show ?thesis by (simp add: ws_call_error_def continue_def progress_same)
next
  case (Some p)
  with calls_inv_answer [OF i map_of_pending [OF Some] same_calls_refl] show ?thesis
    by (simp add: ws_call_error_def progress_pump [OF assms(1)])
qed

lemma expire_calls:
  "calls_inv env S t \<Longrightarrow> distinct (map fst ds) \<Longrightarrow> set ds \<subseteq> set (wt_pending t) \<Longrightarrow>
   calls_inv env S (foldl expire_one t ds) \<and> wt_gone (foldl expire_one t ds) = wt_gone t
   \<and> wt_open (foldl expire_one t ds) = wt_open t"
proof (induction ds arbitrary: t)
  case (Cons d ds)
  obtain i p where d: "d = (i, p)" by force
  let ?t = "expire_one t d"
  have "calls_inv env S ?t"
    unfolding d expire_one_def using Cons.prems d by (auto intro: calls_inv_answer)
  moreover have "set ds \<subseteq> set (wt_pending ?t)"
    using Cons.prems d by (force simp: expire_one_def remove_pending_def)
  ultimately show ?case
    using Cons.IH [of ?t] Cons.prems(2) by (simp add: d expire_one_def)
qed simp

lemma expire_progress:
  assumes "inj (we_uuid env)" and i: "calls_inv env S t"
  shows "progress env S t (ws_expire env now t)"
proof -
  have "distinct (map fst (wt_pending t))" using i by (simp add: calls_inv_def table_ok_def)
  then have "distinct (map fst (filter (\<lambda>(_, p). pn_deadline p \<le> now) (wt_pending t)))"
    by (rule distinct_map_filter)
  from expire_calls [OF i this] show ?thesis
    unfolding ws_expire_def by (intro progress_pump assms(1)) auto
qed

lemma same_calls_incoming: "same_calls (t\<lparr>wt_incoming := m\<rparr>) u \<Longrightarrow> same_calls t u"
  by (simp add: same_calls_def)

lemma same_calls_answer: "frame_action f = None \<Longrightarrow> same_calls t (fst (ws_write env f a t))"
  by (rule same_calls_write) (cases f, auto)

lemma reply_frame_action [simp]:
  "frame_action (reply_frame i act) = None" "frame_action (frame_call_error i c d) = None"
  "frame_id (reply_frame i act) = i"
  by (cases act; simp add: frame_call_error_def)+

lemma same_calls_reply: "frame_action f = None \<Longrightarrow> same_calls t (fst (ws_reply env f t))"
  unfolding ws_reply_def continue_def Let_def
  by (auto split: option.split frame.split intro!: same_calls_incoming [OF same_calls_answer]
      same_calls_incoming [OF same_calls_seq] same_calls_warn same_calls_answer)

lemma same_calls_incoming_call: "same_calls t (fst (ws_incoming_call env i a p t))"
  unfolding ws_incoming_call_def
  by (auto split: option.split intro!: same_calls_warn same_calls_seq same_calls_answer
      same_calls_incoming [OF same_calls_emit])

lemma open_fields [simp]:
  "wt_open (fst (ws_reply env f t)) = wt_open t"
  "wt_open (fst (ws_incoming_call env i a p t)) = wt_open t"
  "wt_gone (fst (ws_warn env t)) = wt_gone t" "wt_open (fst (ws_warn env t)) = wt_open t"
  unfolding ws_reply_def ws_incoming_call_def continue_def Let_def ws_warn_def
  by (auto split: option.split frame.split simp: seq_fields [of wt_open])

lemma progress_seq:
  assumes "progress env S t r" and "\<And>u. calls_inv env S u \<Longrightarrow> flowing u \<Longrightarrow> progress env S u (f u)"
  shows "progress env S t (seq r f)"
proof (cases "snd r")
  case None
  then obtain u where r: "r = (u, None)" by (cases r) auto
  with assms(1) assms(2) [of u] show ?thesis by (simp add: progress_def)
next
  case (Some x)
  then obtain u where "r = (u, Some x)" by (cases r) auto
  with assms(1) show ?thesis by simp
qed

lemma incoming_text_progress:
  assumes inj: "inj (we_uuid env)" and i: "calls_inv env S t" and fl: "flowing t"
  shows "progress env S t (incoming_text env now text t)"
proof (cases "parse_frame (we_parse env) text")
  case (Inl e)
  show ?thesis
    unfolding incoming_text_def Inl sum.case
    by (intro progress_seq progress_same same_calls_emit same_calls_warn i fl emit_fields(7) open_fields)
       (auto split: option.split simp: continue_def progress_same frame_error_reply_def
         split: if_splits option.splits intro!: progress_same same_calls_answer)
next
  case (Inr f)
  have "progress env S u ((\<lambda>t1. case f of
              Frame_Call i action payload \<Rightarrow> ws_incoming_call env i action payload t1
            | Frame_Result i payload \<Rightarrow> ws_call_result env now i payload t1
            | Frame_Error i code description details \<Rightarrow>
                ws_call_error env now i code description details t1) u)"
    if "calls_inv env S u" "flowing u" for u
    using that by (cases f)
      (auto intro: call_result_progress [OF inj] call_error_progress [OF inj] progress_same same_calls_incoming_call)
  from progress_seq [OF progress_same [OF same_calls_emit emit_fields(7) i fl] this] show ?thesis
    unfolding incoming_text_def Inr sum.case .
qed

text \<open>The CALLs a step brings.\<close>

fun submitted :: "ws_step \<Rightarrow> outbound_call list" where
  "submitted (St_Command (Some (Ws_Call c))) = [c]"
| "submitted _ = []"

lemma calls_inv_gone: "calls_inv env S t \<Longrightarrow> calls_inv env S (t\<lparr>wt_gone := k # wt_gone t\<rparr>)"
  by (auto simp: calls_inv_def accounted_def live_def in_order_def table_ok_def)

lemma handle_calls:
  assumes inj: "inj (we_uuid env)" and i: "calls_inv env S t" and fl: "flowing t"
  shows "calls_inv env (S @ submitted step) (fst (ws_handle env now step t))
    \<and> (snd (ws_handle env now step t) = None \<longrightarrow> flowing (fst (ws_handle env now step t)))
    \<and> wt_open (fst (ws_handle env now step t)) = wt_open t"
proof (cases "\<exists>c. step = St_Command (Some (Ws_Call c))")
  case True
  then show ?thesis
    using take_call_progress [OF inj i] by (auto simp: ws_handle_def progress_def)
next
  case False
  then have sub: "submitted step = []" by (cases step rule: submitted.cases) auto
  show ?thesis
  proof (cases "\<exists>k. step = St_Gone k")
    case True
    then show ?thesis using calls_inv_gone [OF i] fl sub by (auto simp: ws_handle_def continue_def flowing_def)
  next
    case False
    have same: "progress env S t (t', so)" if "same_calls t t'" "wt_open t' = wt_open t" for t' so
      using progress_same [OF _ _ i fl, of "(t', so)"] that by simp
    have msg: "progress env S t (incoming_message env now m t)" for m
      unfolding incoming_message_def continue_def
      by (auto split: ws_message.split option.split intro!: incoming_text_progress [OF inj i fl] same
          progress_same [OF _ _ i fl] same_calls_warn same_calls_send simp: same_calls_def [of _ "_\<lparr>wt_awaiting_pong := _\<rparr>"])
    have "progress env S t (ws_handle env now step t)"
      using False \<open>\<not> (\<exists>c. step = St_Command (Some (Ws_Call c)))\<close>
      unfolding ws_handle_def continue_def ws_ping_def
      by (auto split: ws_step.split option.split ws_command.split sum.split prod.split
          intro!: same progress_same [OF _ _ i fl] same_calls_reply msg expire_progress [OF inj i] simp: same_calls_def send_trace)
    with sub show ?thesis by (simp add: progress_def)
  qed
qed


subsection \<open>The end and the run\<close>

definition all_submitted :: "(nat \<times> ws_step) list \<Rightarrow> outbound_call list" where
  "all_submitted steps = concat (map (submitted \<circ> snd) steps)"

lemma command_tickets_submitted:
  "command_tickets (List.map_filter (\<lambda>(_, s). case s of St_Command c \<Rightarrow> c | _ \<Rightarrow> None) steps)
     = map oc_reply (all_submitted steps)"
proof (induction steps)
  case (Cons x steps)
  obtain now s where x: "x = (now, s)" by force
  show ?case
    using Cons by (cases s rule: submitted.cases)
      (auto simp: x all_submitted_def command_tickets_def List.map_filter_def)
qed (simp add: all_submitted_def command_tickets_def)

lemma finish_calls_fold:
  "results (foldl (\<lambda>t' k. finish_call k r t') t ks) = results t @ ks
   \<and> wt_queue (foldl (\<lambda>t' k. finish_call k r t') t ks) = wt_queue t
   \<and> wt_pending (foldl (\<lambda>t' k. finish_call k r t') t ks) = wt_pending t
   \<and> wt_gone (foldl (\<lambda>t' k. finish_call k r t') t ks) = wt_gone t
   \<and> wt_open (foldl (\<lambda>t' k. finish_call k r t') t ks) = wt_open t
   \<and> calls_sent (foldl (\<lambda>t' k. finish_call k r t') t ks) = calls_sent t
   \<and> replies (foldl (\<lambda>t' k. finish_call k r t') t ks) = replies t
   \<and> asks (foldl (\<lambda>t' k. finish_call k r t') t ks) = asks t"
  by (induction ks arbitrary: t) auto

lemma closed_effect [simp]:
  "results (log_effect (Event (Ev_Closed c w b)) t) = results t"
  "calls_sent (log_effect (Event (Ev_Closed c w b)) t) = calls_sent t"
  "replies (log_effect (Event (Ev_Closed c w b)) t) = replies t"
  "asks (log_effect (Event (Ev_Closed c w b)) t) = asks t"
  "wt_queue (log_effect e t) = wt_queue t" "wt_pending (log_effect e t) = wt_pending t"
  "wt_gone (log_effect e t) = wt_gone t" "wt_open (log_effect e t) = wt_open t"
  by (simp_all add: log_effect_def trace_defs map_filter_one)

lemma finish_fields:
  shows "results (ws_finish hs left stop t) = results t @ map (pn_reply \<circ> snd) (wt_pending t) @ map oc_reply (wt_queue t) @ command_tickets left"
    "wt_queue (ws_finish hs left stop t) = []" "wt_pending (ws_finish hs left stop t) = []" "wt_gone (ws_finish hs left stop t) = wt_gone t" "\<not> wt_open (ws_finish hs left stop t)"
    "calls_sent (ws_finish hs left stop t) = calls_sent t" "replies (ws_finish hs left stop t) = replies t" "asks (ws_finish hs left stop t) = asks t"
  unfolding ws_finish_def Let_def fail_all_def
  by (simp_all add: finish_calls_fold split: prod.split)

lemma finish_accounted:
  assumes "calls_inv env S t"
  shows "accounted (map oc_reply (S @ all_submitted steps)) (wt_gone t)
    (live (ws_finish hs (List.map_filter (\<lambda>(_, s). case s of St_Command c \<Rightarrow> c | _ \<Rightarrow> None) steps) stop t))"
proof -
  have snd_case: "map (\<lambda>(_, p). pn_reply p) xs = map (pn_reply \<circ> snd) xs" for xs :: "(message_id \<times> pending) list"
    by (simp add: comp_def case_prod_unfold)
  have "mset (live (ws_finish hs (List.map_filter (\<lambda>(_, s). case s of St_Command c \<Rightarrow> c | _ \<Rightarrow> None) steps) stop t))
      = mset (live t @ map oc_reply (all_submitted steps))"
    by (simp add: live_def finish_fields command_tickets_submitted snd_case)
  moreover have "accounted (map oc_reply (S @ all_submitted steps)) (wt_gone t) (live t @ map oc_reply (all_submitted steps))"
    using assms by (auto simp: calls_inv_def accounted_def)
  ultimately show ?thesis using accounted_mset by blast
qed

definition run_ok :: "ws_env \<Rightarrow> outbound_call list \<Rightarrow> ws_task \<Rightarrow> bool" where
  "run_ok env S t =
     (accounted (map oc_reply S) (wt_gone t) (live t) \<and> subseq (calls_sent t) (map content S)
      \<and> (wt_serialize t \<longrightarrow> length (wt_pending t) \<le> 1)
      \<and> (if wt_open t then flowing t else wt_queue t = [] \<and> wt_pending t = []))"

lemma subseq_left: "subseq (a @ b) c \<Longrightarrow> subseq a c"
  by (rule subseq_order.order_trans [of _ "a @ b"]) auto

lemma calls_run_ok: "calls_inv env S t \<Longrightarrow> wt_open t \<Longrightarrow> flowing t \<Longrightarrow> run_ok env S t"
  by (auto simp: calls_inv_def run_ok_def table_ok_def in_order_def intro: subseq_left)

lemma finish_run_ok:
  assumes i: "calls_inv env S t"
  shows "run_ok env (S @ all_submitted steps)
    (ws_finish hs (List.map_filter (\<lambda>(_, s). case s of St_Command c \<Rightarrow> c | _ \<Rightarrow> None) steps) stop t)"
proof -
  have "subseq (calls_sent t) (map content S)"
    using i by (auto simp: calls_inv_def in_order_def intro: subseq_left)
  then have "subseq (calls_sent t) (map content (S @ all_submitted steps))" by (simp add: list_emb_prefix)
  with finish_accounted [OF i] show ?thesis by (simp add: run_ok_def finish_fields)
qed

lemma run_calls:
  assumes inj: "inj (we_uuid env)"
  shows "calls_inv env S t \<Longrightarrow> flowing t \<Longrightarrow> wt_open t \<Longrightarrow>
    run_ok env (S @ all_submitted steps) (ws_run env hs steps t)"
proof (induction steps arbitrary: S t)
  case Nil
  then show ?case by (simp add: all_submitted_def calls_run_ok)
next
  case (Cons x steps)
  obtain now step where x: "x = (now, step)" by force
  obtain t' so where h: "ws_handle env now step t = (t', so)" by force
  have all: "S @ all_submitted (x # steps) = (S @ submitted step) @ all_submitted steps"
    by (simp add: all_submitted_def x)
  have step: "calls_inv env (S @ submitted step) t'" "so = None \<longrightarrow> flowing t'" "wt_open t' = wt_open t"
    using handle_calls [OF inj Cons.prems(1,2), of step now] h by auto
  show ?case
  proof (cases so)
    case None
    with Cons.IH [OF step(1)] step Cons.prems(3) h show ?thesis unfolding all by (simp add: x)
  next
    case (Some stop)
    with finish_run_ok [OF step(1)] h show ?thesis unfolding all by (simp add: x)
  qed
qed

lemma spawn_calls: "calls_inv env [] (ws_spawn s b)" "flowing (ws_spawn s b)" "wt_open (ws_spawn s b)"
  by (simp_all add: ws_spawn_def calls_inv_def accounted_def live_def trace_defs in_order_def table_ok_def flowing_def)

lemma spawn_run:
  "inj (we_uuid env) \<Longrightarrow> run_ok env (all_submitted steps) (ws_run env hs steps (ws_spawn s b))"
  using run_calls [OF _ spawn_calls] by simp

end
