(* ===== verification/Ws_Props.thy ===== *)
theory Ws_Props
  imports Ws_Laws
begin

text \<open>
  Replies of the connection task, and the properties of the whole connection over any run.
\<close>

subsection \<open>Replies\<close>

text \<open>How many replies to an id are sent or may still be sent.\<close>

definition owed :: "message_id \<Rightarrow> ws_task \<Rightarrow> nat" where
  "owed i t = count_list (replies t) i + count_list (map fst (wt_incoming t)) i"

definition replies_inv :: "ws_task \<Rightarrow> bool" where
  "replies_inv t = (\<forall>i. owed i t \<le> count_list (asks t) i)"

definition spare :: "message_id \<Rightarrow> ws_task \<Rightarrow> bool" where
  "spare j t = (\<forall>i. owed i t + (if i = j then 1 else 0) \<le> count_list (asks t) i)"

definition same_replies :: "ws_task \<Rightarrow> ws_task \<Rightarrow> bool" where
  "same_replies t u = (replies u = replies t \<and> wt_incoming u = wt_incoming t
     \<and> (\<forall>i. count_list (asks t) i \<le> count_list (asks u) i))"

lemma sr_refl [simp]: "same_replies t t" by (simp add: same_replies_def)

lemma sr_trans: "same_replies t u \<Longrightarrow> same_replies u v \<Longrightarrow> same_replies t v"
  unfolding same_replies_def by (metis order_trans)

lemma sr_inv: "same_replies t u \<Longrightarrow> replies_inv t \<Longrightarrow> replies_inv u"
  unfolding same_replies_def replies_inv_def owed_def by (metis order_trans)

lemma sr_spare: "same_replies t u \<Longrightarrow> spare j t \<Longrightarrow> spare j u"
  unfolding same_replies_def spare_def owed_def by (metis order_trans)

lemma spare_inv: "spare j t \<Longrightarrow> replies_inv t"
  unfolding spare_def replies_inv_def by (metis add_leD1)

lemma spareD:
  "spare j t \<Longrightarrow> count_list (replies t) j + count_list (map fst (wt_incoming t)) j + 1 \<le> count_list (asks t) j"
  "spare j t \<Longrightarrow> count_list (replies t) i + count_list (map fst (wt_incoming t)) i \<le> count_list (asks t) i"
  unfolding spare_def owed_def by (drule spec [of _ j], simp) (drule spec [of _ i], simp)

lemma replies_invD: "replies_inv t \<Longrightarrow> count_list (replies t) i \<le> count_list (asks t) i"
  unfolding replies_inv_def owed_def by (drule spec [of _ i], simp)

lemma sr_emit: "same_replies t (fst (ws_emit env e t))"
  by (simp only: same_replies_def emit_asks emit_trace emit_fields count_list_append le_add1 simp_thms)

lemma sr_warn: "same_replies t (fst (ws_warn env t))"
  by (simp add: ws_warn_def sr_emit)

lemma sr_seq: "same_replies t (fst r) \<Longrightarrow> (\<And>u. same_replies u (fst (f u))) \<Longrightarrow> same_replies t (fst (seq r f))"
  by (auto simp: seq_def split: prod.split option.split intro: sr_trans)

lemma sr_fields [simp]:
  "same_replies t (finish_call k r t)" "same_replies t (remove_pending i t)" "same_replies t (t\<lparr>wt_queue := q\<rparr>)"
  "same_replies t (t\<lparr>wt_uuids := n\<rparr>)" "same_replies t (t\<lparr>wt_pending := p\<rparr>)" "same_replies t (t\<lparr>wt_gone := g\<rparr>)"
  "same_replies t (t\<lparr>wt_awaiting_pong := b\<rparr>)"
  by (simp_all add: same_replies_def remove_pending_def)

lemma sr_write_call: "same_replies t (fst (ws_write env (Frame_Call i a p) b t))"
  by (simp add: same_replies_def write_trace)

lemma sr_send:
  "Option.bind e reply_of = None \<Longrightarrow> same_replies t (fst (send_message env e t))"
  by (auto simp only: same_replies_def send_trace send_fields count_list_append le_add1 simp_thms option.case append_Nil2 if_cancel)

lemma sr_pump: "same_replies t (fst (pump env now t))"
proof (induction env now t rule: pump.induct)
  case (1 env now t)
  show ?case
  proof (cases "wt_queue t = [] \<or> (wt_serialize t \<and> wt_pending t \<noteq> [])")
    case True
    then have "pump env now t = (t, None)" by (subst pump.simps) (auto simp: continue_def split: list.split)
    then show ?thesis by simp
  next
    case False
    then obtain call rest where q: "wt_queue t = call # rest" and s: "wt_serialize t \<longrightarrow> wt_pending t = []"
      by (cases "wt_queue t") auto
    let ?t1 = "t\<lparr>wt_queue := rest\<rparr>"
    let ?i = "we_uuid env (wt_uuids ?t1)"
    let ?t2 = "?t1\<lparr>wt_uuids := wt_uuids ?t1 + 1\<rparr>"
    let ?r = "ws_write env (Frame_Call ?i (oc_action call) (oc_payload call)) (Some (oc_action call)) ?t2"
    have r: "same_replies t (fst ?r)"
      by (intro sr_trans [OF _ sr_write_call]) (simp add: same_replies_def)
    show ?thesis
    proof (cases "oc_reply call \<in> set (wt_gone t)")
      case True
      with "1.IH"(1) [OF q _ refl] q s show ?thesis
        by (subst pump.simps) (auto intro: sr_trans [of t ?t1])
    next
      case here: False
      show ?thesis
      proof (cases "snd ?r")
        case (Some stop)
        then show ?thesis using q s here r by (subst pump.simps) (auto simp: Let_def intro: sr_trans)
      next
        case None
        from "1.IH"(2) [OF q _ refl _ refl refl refl None] here s
        have "same_replies (fst ?r) (fst (pump env now ((fst ?r)\<lparr>wt_pending := wt_pending (fst ?r) @
            [(?i, \<lparr>pn_action = oc_action call, pn_timeout = oc_timeout call,
                   pn_deadline = deadline_after now (oc_timeout call), pn_reply = oc_reply call\<rparr>)]\<rparr>)))"
          by (auto intro: sr_trans [OF sr_fields(5)])
        with sr_trans [OF r this] show ?thesis using q s here None by (subst pump.simps) (auto simp: Let_def)
      qed
    qed
  qed
qed

lemma sr_take: "same_replies t (fst (take_call env now c t))"
  unfolding take_call_def by (rule sr_trans [OF sr_fields(3) sr_pump])

lemma sr_call_error: "same_replies t (fst (ws_call_error env now i c d x t))"
  unfolding ws_call_error_def continue_def
  by (auto split: option.split intro!: sr_trans [OF _ sr_pump] sr_trans [OF _ sr_fields(1)])

lemma sr_call_result: "same_replies t (fst (ws_call_result env now i payload t))"
proof (cases "map_of (wt_pending t) i")
  case (Some p)
  obtain t2 so where w: "ws_warn env (remove_pending i t) = (t2, so)" by force
  have "same_replies t t2" using sr_trans [OF sr_fields(2) sr_warn [of "remove_pending i t" env]] w by simp
  with w Some show ?thesis
    unfolding ws_call_result_def Let_def
    by (auto split: option.split intro!: sr_trans [OF _ sr_pump] sr_trans [OF _ sr_fields(1)])
qed (simp add: ws_call_result_def continue_def)

lemma sr_expire_fold: "same_replies t (foldl expire_one t ds)"
proof (induction ds arbitrary: t)
  case (Cons d ds)
  have "same_replies t (expire_one t d)"
    by (auto simp: expire_one_def split: prod.split intro: sr_trans [OF sr_fields(2) sr_fields(1)])
  with Cons [of "expire_one t d"] show ?case by (auto intro: sr_trans)
qed simp

lemma sr_expire: "same_replies t (fst (ws_expire env now t))"
  unfolding ws_expire_def by (rule sr_trans [OF sr_expire_fold sr_pump])

text \<open>Writing a reply uses up one ask.\<close>

lemma reply_of_write: "replies (fst (ws_write env f a t)) = replies t
    \<or> (frame_action f = None \<and> replies (fst (ws_write env f a t)) = replies t @ [frame_id f])"
  by (cases f) (auto simp: write_trace)

lemma answer_inv:
  assumes "spare (frame_id f) t"
  shows "replies_inv (fst (ws_write env f a t))"
  using reply_of_write [of env f a t] write_trace(4) [of env f a t] spareD [OF assms]
  by (auto simp: replies_inv_def owed_def)

lemma warn_answer_inv:
  "spare (frame_id f) t \<Longrightarrow> replies_inv (fst (seq (ws_warn env t) (ws_write env f a)))"
  using sr_spare [OF sr_warn] spare_inv answer_inv
  by (auto simp: seq_def split: prod.split option.split) (metis fst_conv)+

lemma reply_inv:
  assumes "replies_inv t"
  shows "replies_inv (fst (ws_reply env f t))"
proof (cases "map_of (wt_incoming t) (frame_id f)")
  case (Some action)
  let ?t = "t\<lparr>wt_incoming := filter (\<lambda>(j, _). j \<noteq> frame_id f) (wt_incoming t)\<rparr>"
  have drop: "count_list (map fst (filter (\<lambda>(j, _). j \<noteq> i) m)) k = (if k = i then 0 else count_list (map fst m) k)"
    for m :: "(message_id \<times> string) list" and i k by (induction m) auto
  have pos: "0 < count_list (map fst (wt_incoming t)) (frame_id f)"
    using map_of_SomeD [OF Some] by (force simp: count_list_0_iff neq0_conv [symmetric])
  have sp: "spare (frame_id f) ?t"
    unfolding spare_def
  proof
    fix i
    show "owed i ?t + (if i = frame_id f then 1 else 0) \<le> count_list (asks ?t) i"
      using assms [unfolded replies_inv_def owed_def, THEN spec, of i] pos by (auto simp: owed_def drop)
  qed
  show ?thesis
    using Some sp
    unfolding ws_reply_def Let_def
    by (cases f) (auto split: option.split intro!: answer_inv warn_answer_inv simp: frame_call_error_def)
qed (simp add: ws_reply_def continue_def assms)

lemma incoming_call_inv:
  assumes "spare i t"
  shows "replies_inv (fst (ws_incoming_call env i action payload t))"
proof -
  have "spare (frame_id (frame_call_error i c d)) t" for c d using assms by (simp add: frame_call_error_def)
  moreover have "replies_inv (t\<lparr>wt_incoming := wt_incoming t @ [(i, action)]\<rparr>)"
    using spareD [OF assms] by (auto simp: replies_inv_def owed_def)
  then have "replies_inv (fst (ws_emit env e (t\<lparr>wt_incoming := wt_incoming t @ [(i, action)]\<rparr>)))" for e
    by (rule sr_inv [OF sr_emit])
  moreover have "replies_inv (fst (ws_warn env t))" using assms sr_inv [OF sr_warn] spare_inv by blast
  ultimately show ?thesis
    unfolding ws_incoming_call_def by (auto split: option.split intro!: warn_answer_inv)
qed

lemma emit_spare:
  assumes "replies_inv t" "fr_msg_id r = Some i" "\<not> fr_out r" "ws_emit env (Ev_Frame r) t = (u, None)"
  shows "spare i u"
proof -
  have "we_listens env (wt_events t)" using assms(4) emit_ok [of env "Ev_Frame r" t] by simp
  then have "asks u = asks t @ [i]" "replies u = replies t" "wt_incoming u = wt_incoming t"
    using assms emit_asks [of env "Ev_Frame r" t] emit_trace(3) [of env "Ev_Frame r" t]
      emit_fields(3) [of env "Ev_Frame r" t] by auto
  with assms(1) show ?thesis by (auto simp: spare_def replies_inv_def owed_def)
qed

lemma incoming_text_inv:
  assumes "replies_inv t"
  shows "replies_inv (fst (incoming_text env now text t))"
proof (cases "parse_frame (we_parse env) text")
  case (Inl e)
  let ?r = "\<lparr>fr_out = False, fr_msg_id = fe_id e, fr_action = None, fr_frame = JString text\<rparr>"
  obtain u so where em: "ws_emit env (Ev_Frame ?r) t = (u, so)" by force
  have u: "replies_inv u" using sr_inv [OF sr_emit assms] em by (metis fst_conv)
  obtain v so2 where w: "ws_warn env u = (v, so2)" by force
  have v: "replies_inv v" using sr_inv [OF sr_warn u] w by (metis fst_conv)
  have "replies_inv (fst (ws_write env reply a v))" if "so = None" "frame_error_reply (we_print env) e = Some reply" for reply a
  proof -
    from that(2) have "fe_id e = Some (frame_id reply)"
      by (auto simp: frame_error_reply_def frame_call_error_def split: option.splits if_splits)
    then have "spare (frame_id reply) u" using emit_spare [OF assms, of ?r] em that(1) by simp
    then have "spare (frame_id reply) v" using sr_spare [OF sr_warn] w by (metis fst_conv)
    then show ?thesis by (rule answer_inv)
  qed
  with u v show ?thesis
    unfolding incoming_text_def Inl sum.case em by (cases so; cases so2) (auto simp: w continue_def split: option.split)
next
  case (Inr f)
  let ?r = "\<lparr>fr_out = False, fr_msg_id = Some (frame_id f), fr_action = frame_action_known t f, fr_frame = recorded t f\<rparr>"
  obtain u so where em: "ws_emit env (Ev_Frame ?r) t = (u, so)" by force
  have u: "replies_inv u" using sr_inv [OF sr_emit assms] em by (metis fst_conv)
  show ?thesis
  proof (cases so)
    case None
    with emit_spare [OF assms, of ?r "frame_id f"] em have sp: "spare (frame_id f) u" by simp
    then show ?thesis
      unfolding incoming_text_def Inr sum.case em None
      using sr_inv [OF sr_call_result u] sr_inv [OF sr_call_error u]
      by (cases f) (auto intro: incoming_call_inv)
  next
    case (Some stop)
    with u show ?thesis unfolding incoming_text_def Inr sum.case em by simp
  qed
qed

lemma handle_replies:
  assumes i: "replies_inv t"
  shows "replies_inv (fst (ws_handle env now step t))"
proof -
  have q: "replies_inv u" if "same_replies t u" for u using sr_inv [OF that i] .
  have msg: "replies_inv (fst (incoming_message env now m t))" for m
    unfolding incoming_message_def continue_def
    using incoming_text_inv [OF i] q [OF sr_warn] q [OF sr_send [of None]] q [OF sr_fields(7)] i
    by (auto split: ws_message.split option.split)
  have ping: "replies_inv (fst (ws_ping env t))"
    unfolding ws_ping_def by (auto intro!: q sr_trans [OF sr_fields(7) sr_send])
  show ?thesis
    unfolding ws_handle_def continue_def
    using msg ping reply_inv [OF i] q [OF sr_take] q [OF sr_expire] q [OF sr_fields(6)] i
    by (auto split: ws_step.split option.split ws_command.split sum.split prod.split)
qed

lemma run_replies:
  "replies_inv t \<Longrightarrow> count_list (replies (ws_run env hs steps t)) i \<le> count_list (asks (ws_run env hs steps t)) i"
proof (induction steps arbitrary: t)
  case Nil
  then show ?case by (simp add: replies_invD)
next
  case (Cons x steps)
  obtain now step where x: "x = (now, step)" by force
  obtain t' so where h: "ws_handle env now step t = (t', so)" by force
  have t': "replies_inv t'" using handle_replies [OF Cons.prems, of env now step] h by simp
  then have "count_list (replies t') i \<le> count_list (asks t') i" by (rule replies_invD)
  with Cons.IH [OF t'] h x show ?case by (cases so) (simp_all add: finish_fields)
qed

lemma spawn_replies: "replies_inv (ws_spawn s b)"
  by (simp add: ws_spawn_def replies_inv_def owed_def trace_defs)


subsection \<open>Time\<close>

definition longer :: "ws_task \<Rightarrow> ws_task \<Rightarrow> bool" where
  "longer t u = prefix (wt_out t) (wt_out u)"

lemma longer_refl [simp]: "longer t t" by (simp add: longer_def)

lemma longer_trans: "longer t u \<Longrightarrow> longer u v \<Longrightarrow> longer t v"
  unfolding longer_def by (rule prefix_order.order_trans)

lemma longer_finish [simp]: "longer t (finish_call k r t)"
  by (simp add: longer_def finish_call_def log_effect_def)

lemma longer_write: "longer t (fst (ws_write env f a t))"
  unfolding ws_write_def
  by (cases "we_write env (wt_writes t)")
     (simp_all add: send_ok send_fail longer_def ws_emit_def Let_def log_effect_def)

lemma longer_pump: "longer t (fst (pump env now t))"
proof (induction env now t rule: pump.induct)
  case (1 env now t)
  show ?case
  proof (cases "wt_queue t = [] \<or> (wt_serialize t \<and> wt_pending t \<noteq> [])")
    case True
    then have "pump env now t = (t, None)" by (subst pump.simps) (auto simp: continue_def split: list.split)
    then show ?thesis by simp
  next
    case False
    then obtain call rest where q: "wt_queue t = call # rest" and s: "wt_serialize t \<longrightarrow> wt_pending t = []"
      by (cases "wt_queue t") auto
    let ?t1 = "t\<lparr>wt_queue := rest\<rparr>"
    let ?i = "we_uuid env (wt_uuids ?t1)"
    let ?t2 = "?t1\<lparr>wt_uuids := wt_uuids ?t1 + 1\<rparr>"
    let ?r = "ws_write env (Frame_Call ?i (oc_action call) (oc_payload call)) (Some (oc_action call)) ?t2"
    have r: "longer t (fst ?r)" by (rule longer_trans [OF _ longer_write]) (simp add: longer_def)
    show ?thesis
    proof (cases "oc_reply call \<in> set (wt_gone t)")
      case True
      with "1.IH"(1) [OF q _ refl] q s show ?thesis
        by (subst pump.simps) (auto simp: longer_def)
    next
      case here: False
      show ?thesis
      proof (cases "snd ?r")
        case (Some stop)
        then show ?thesis using q s here r by (subst pump.simps) (auto simp: Let_def intro: longer_trans)
      next
        case None
        from "1.IH"(2) [OF q _ refl _ refl refl refl None] here s
        have "longer (fst ?r) (fst (pump env now ((fst ?r)\<lparr>wt_pending := wt_pending (fst ?r) @
            [(?i, \<lparr>pn_action = oc_action call, pn_timeout = oc_timeout call,
                   pn_deadline = deadline_after now (oc_timeout call), pn_reply = oc_reply call\<rparr>)]\<rparr>)))"
          by (auto simp: longer_def)
        with longer_trans [OF r this] show ?thesis using q s here None by (subst pump.simps) (auto simp: Let_def)
      qed
    qed
  qed
qed

lemma expire_fold_out:
  "(i, p) \<in> set ds \<Longrightarrow>
   Result (pn_reply p) (Inl (Fail_Timeout (pn_action p) (pn_timeout p))) \<in> set (wt_out (foldl expire_one t ds))"
proof (induction ds arbitrary: t)
  case (Cons d ds)
  have mono: "set (wt_out t) \<subseteq> set (wt_out (foldl expire_one t ds))" for t
    by (induction ds arbitrary: t) (force simp: expire_one_def finish_call_def log_effect_def remove_pending_def split: prod.splits)+
  show ?case
  proof (cases "d = (i, p)")
    case True
    then have "Result (pn_reply p) (Inl (Fail_Timeout (pn_action p) (pn_timeout p))) \<in> set (wt_out (expire_one t d))"
      by (simp add: expire_one_def finish_call_def log_effect_def)
    with mono [of "expire_one t d"] show ?thesis by auto
  qed (use Cons in auto)
qed simp

subsection \<open>Properties\<close>

text \<open>
  C10: every CALL is answered once.  Whatever the socket, the peer and the owner do, a caller that
  does not give up gets at most one result while the connection is open - until then its CALL is
  queued or awaits its answer under a deadline - and exactly one result once the connection ended;
  nobody who made no CALL gets one.
\<close>

theorem call_answered_once:
  assumes "inj (we_uuid env)" and "made = map oc_reply (all_submitted steps)" and "distinct made"
    and t: "t = ws_run env hs steps (ws_spawn serialize show_secrets)"
  shows "count_list (results t) k \<le> 1 \<and> (k \<in> set (results t) \<longrightarrow> k \<in> set made)
    \<and> (k \<in> set made - set (wt_gone t) \<longrightarrow>
         (if wt_open t
          then k \<in> set (results t) \<or> k \<in> set (map oc_reply (wt_queue t))
               \<or> k \<in> set (map (\<lambda>(_, p). pn_reply p) (wt_pending t))
          else count_list (results t) k = 1))"
proof -
  have ok: "run_ok env (all_submitted steps) t" unfolding t by (rule spawn_run) fact
  let ?open = "map oc_reply (wt_queue t) @ map (\<lambda>(_, p). pn_reply p) (wt_pending t)"
  have "accounted made (wt_gone t) (?open @ results t)"
    using ok by (simp add: run_ok_def live_def assms(2))
  note once = accounted_once [OF this assms(3)]
  have "?open = []" if "\<not> wt_open t" using ok that by (simp add: run_ok_def)
  then show ?thesis using once(1,2) once(3,4) [of k] by auto
qed

text \<open>A connection whose peer is silent: two CALLs, a timeout, and the loss of the socket.\<close>

definition demo_env :: ws_env where
  "demo_env = \<lparr>we_uuid = (\<lambda>n. replicate n CHR ''i''), we_write = (\<lambda>_. None), we_listens = (\<lambda>_. True),
     we_knows = (\<lambda>_. True), we_request = (\<lambda>_ _. None), we_response = (\<lambda>_ _. None),
     we_parse = (\<lambda>_. Inl []), we_print = (\<lambda>_. [])\<rparr>"

definition demo_call :: "nat \<Rightarrow> string \<Rightarrow> outbound_call" where
  "demo_call k a = \<lparr>oc_action = a, oc_payload = JObject [], oc_timeout = 30, oc_reply = k\<rparr>"

definition demo_steps :: "(nat \<times> ws_step) list" where
  "demo_steps = [(0, St_Command (Some (Ws_Call (demo_call 1 ''Heartbeat'')))),
     (5, St_Command (Some (Ws_Call (demo_call 2 ''Authorize'')))), (30, St_Timeouts), (31, St_Socket None),
     (32, St_Command (Some (Ws_Call (demo_call 3 ''Heartbeat''))))]"

lemma demo_inj: "inj (we_uuid demo_env)"
  by (rule injI) (metis demo_env_def length_replicate ws_env.select_convs(1))

lemma demo_made: "map oc_reply (all_submitted demo_steps) = [1, 2, 3]"
  by code_simp

lemma demo_results: "results (ws_run demo_env (None, []) demo_steps (ws_spawn True False)) = [1, 2, 3]"
  by code_simp

theorem call_answered_once_witness:
  "count_list (results (ws_run demo_env (None, []) demo_steps (ws_spawn True False))) 3 = 1"
proof -
  have "distinct [1, 2, 3 :: nat]" by simp
  from call_answered_once [OF demo_inj demo_made [symmetric] this refl, of "(None, [])" True False 3]
    demo_results show ?thesis by simp
qed

text \<open>
  C12: order and flow of the CALLs.  The CALLs that reach the wire are, in the order they were made,
  a selection of those made; a serialized connection never awaits two answers; and while it is open
  a CALL waits in the queue only behind an unanswered CALL of a serialized connection.
\<close>

theorem calls_flow_in_order:
  assumes "inj (we_uuid env)" and t: "t = ws_run env hs steps (ws_spawn serialize show_secrets)"
  shows "subseq (calls_sent t) (map (\<lambda>c. (oc_action c, oc_payload c)) (all_submitted steps))
    \<and> (wt_serialize t \<longrightarrow> length (wt_pending t) \<le> 1)
    \<and> (wt_open t \<and> wt_queue t \<noteq> [] \<longrightarrow> wt_serialize t \<and> wt_pending t \<noteq> [])"
proof -
  have "run_ok env (all_submitted steps) t" unfolding t by (rule spawn_run) fact
  moreover have "content = (\<lambda>c. (oc_action c, oc_payload c))" by (simp add: content_def fun_eq_iff)
  ultimately show ?thesis by (auto simp: run_ok_def flowing_def split: if_splits)
qed

theorem calls_flow_in_order_witness:
  "subseq (calls_sent (ws_run demo_env (None, []) demo_steps (ws_spawn True False)))
     [(''Heartbeat'', JObject []), (''Authorize'', JObject []), (''Heartbeat'', JObject [])]"
proof -
  have "map (\<lambda>c. (oc_action c, oc_payload c)) (all_submitted demo_steps)
      = [(''Heartbeat'', JObject []), (''Authorize'', JObject []), (''Heartbeat'', JObject [])]" by code_simp
  with calls_flow_in_order [OF demo_inj refl, of "(None, [])" demo_steps True False] show ?thesis by simp
qed

text \<open>
  A silent peer.  When the timer of the earliest deadline fires, every pending CALL whose
  deadline has passed fails with Timeout of its action and its own timeout.
\<close>

theorem overdue_calls_fail:
  assumes "(i, p) \<in> set (wt_pending t)" and "pn_deadline p \<le> now"
  shows "Result (pn_reply p) (Inl (Fail_Timeout (pn_action p) (pn_timeout p)))
    \<in> set (wt_out (fst (ws_handle env now St_Timeouts t)))"
proof -
  have "Result (pn_reply p) (Inl (Fail_Timeout (pn_action p) (pn_timeout p)))
      \<in> set (wt_out (foldl expire_one t (filter (\<lambda>(_, p). pn_deadline p \<le> now) (wt_pending t))))"
    using assms by (intro expire_fold_out [of i p]) auto
  with longer_pump [of "foldl expire_one t (filter (\<lambda>(_, p). pn_deadline p \<le> now) (wt_pending t))" env now]
  show ?thesis by (auto simp: ws_handle_def ws_expire_def longer_def dest: set_mono_prefix)
qed

theorem overdue_calls_fail_witness:
  "Result 1 (Inl (Fail_Timeout ''Heartbeat'' 30)) \<in> set (wt_out (fst (ws_handle demo_env 30 St_Timeouts
     (ws_run demo_env (None, []) (take 2 demo_steps) (ws_spawn True False)))))"
proof -
  let ?t = "ws_run demo_env (None, []) (take 2 demo_steps) (ws_spawn True False)"
  have "wt_pending ?t = [([], \<lparr>pn_action = ''Heartbeat'', pn_timeout = 30, pn_deadline = 30, pn_reply = 1\<rparr>)]"
    by code_simp
  with overdue_calls_fail [of "[]" "\<lparr>pn_action = ''Heartbeat'', pn_timeout = 30, pn_deadline = 30, pn_reply = 1\<rparr>" ?t 30]
  show ?thesis by simp
qed

text \<open>
  C11: at most one reply per CALL.  However often the owner answers, repeats or drops a request and
  whatever the central system retransmits, no more replies with an id are sent than frames with that
  id were received.
\<close>

theorem replies_answer_received_frames:
  "count_list (replies (ws_run env hs steps (ws_spawn serialize show_secrets))) i
     \<le> count_list (asks (ws_run env hs steps (ws_spawn serialize show_secrets))) i"
  by (rule run_replies) (rule spawn_replies)

end
