(* ===== verification/Transactions.thy ===== *)
theory Transactions
  imports Station
begin

text \<open>
  The transaction operations of the station actor: status notifications (\<open>station/status.rs\<close>),
  security events (\<open>station/secure.rs\<close>, \<open>station/security.rs\<close>), meter timers
  (\<open>station/sampling.rs\<close>), pending availability (\<open>handlers/availability.rs\<close>), installing a profile
  (\<open>handlers/smart.rs\<close>), and Authorize, StartTransaction, StopTransaction and the offline sync of
  \<open>station/transactions.rs\<close>.

  A closure passed to \<open>call\<close> appears twice: its failure branch is the first argument of \<open>call\<close>, and
  both branches are functions of their own (\<open>start_failed\<close>, \<open>start_answered\<close> and so on) that
  theory \<open>Actor\<close> dispatches to when the CALL is answered.
\<close>

subsection \<open>Status notifications\<close>

definition tracker_of :: "station \<Rightarrow> connector_id \<Rightarrow> tracker" where
  "tracker_of s i = unwrap_or (bt_get (s_trackers s) i) tracker_default"

definition set_tracker :: "connector_id \<Rightarrow> tracker \<Rightarrow> station \<Rightarrow> station" where
  "set_tracker i t s = s\<lparr>s_trackers := bt_insert i t (s_trackers s)\<rparr>"

definition status_key_at :: "station \<Rightarrow> connector_id \<Rightarrow> status_key option" where
  "status_key_at s i = map_option status_key_of (find_connector s i)"

definition can_send_status :: "origin \<Rightarrow> station \<Rightarrow> bool" where
  "can_send_status orig s =
     (lk_conn (s_link s) \<and> may_send s ''StatusNotification'' orig = None)"

definition answer_opt :: "reply option \<Rightarrow> station_error + outcome \<Rightarrow> station \<Rightarrow> station" where
  "answer_opt ro res s = (case ro of None \<Rightarrow> s | Some r \<Rightarrow> answer r res s)"

definition status_failed ::
  "connector_id \<Rightarrow> status_key \<Rightarrow> reply option \<Rightarrow> call_error \<Rightarrow> station \<Rightarrow> station" where
  "status_failed i key ro e s =
     answer_opt ro (Inl (call_failure e)) (set_tracker i (mark_failed (tracker_of s i) key) s)"

definition status_request_of :: "connector_id \<Rightarrow> status_key \<Rightarrow> instant \<Rightarrow> status_request" where
  "status_request_of i key t =
     \<lparr>nq_connector_id = i, nq_error_code = sk_error_code key, nq_info = sk_info key,
      nq_status = sk_status key, nq_timestamp = Some t, nq_vendor_id = sk_vendor_id key,
      nq_vendor_error_code = sk_vendor_error_code key\<rparr>"

definition dispatch_status ::
  "connector_id \<Rightarrow> status_key \<Rightarrow> instant \<Rightarrow> origin \<Rightarrow> reply option \<Rightarrow> station \<Rightarrow> station" where
  "dispatch_status i key t orig ro s =
     call (status_failed i key ro) orig (Req_Status (status_request_of i key t)) (K_Status i key ro)
       (set_tracker i (mark_sent (tracker_of s i) key) s)"

definition status_changed :: "connector_id \<Rightarrow> station \<Rightarrow> station" where
  "status_changed i s =
     (if \<not> can_send_status From_Station s then s
      else
        case status_key_at s i of
          None \<Rightarrow> s
        | Some key \<Rightarrow>
            let minimum = minimum_status_duration (s_registry s);
                (t, pl) = plan_change (tracker_of s i) key (s_now s) minimum;
                s1 = set_tracker i t s
            in case pl of
                 Nothing \<Rightarrow> s1
               | Cancel \<Rightarrow> timer_cancel (T_StatusDebounce i) s1
               | Send t' \<Rightarrow> dispatch_status i key t' From_Station None (timer_cancel (T_StatusDebounce i) s1)
               | Defer \<Rightarrow> timer_set (T_StatusDebounce i) minimum s1)"

definition status_timer_fired :: "connector_id \<Rightarrow> station \<Rightarrow> station" where
  "status_timer_fired i s =
     (case status_key_at s i of
        None \<Rightarrow> s
      | Some key \<Rightarrow>
          if \<not> can_send_status From_Station s then set_tracker i (forced (tracker_of s i)) s
          else
            let (t, due) = take_due (tracker_of s i) key; s1 = set_tracker i t s
            in case due of None \<Rightarrow> s1 | Some t' \<Rightarrow> dispatch_status i key t' From_Station None s1)"

definition send_status_forced :: "connector_id \<Rightarrow> origin \<Rightarrow> reply option \<Rightarrow> station \<Rightarrow> station" where
  "send_status_forced i orig ro s =
     (case status_key_at s i of
        None \<Rightarrow> answer_opt ro (Inl (Err_UnknownConnector i)) s
      | Some key \<Rightarrow>
          let s1 = timer_cancel (T_StatusDebounce i) s
          in dispatch_status i key (s_now s) orig ro (set_tracker i (forced (tracker_of s1 i)) s1))"

definition resend_all_statuses :: "station \<Rightarrow> station" where
  "resend_all_statuses s =
     foldl (\<lambda>s' i. send_status_forced i From_Station None s') s (STATION # map c_id (s_connectors s))"

definition flush_pending_statuses :: "station \<Rightarrow> station" where
  "flush_pending_statuses s =
     foldl (\<lambda>s' i. status_timer_fired i (timer_cancel (T_StatusDebounce i) s')) s
       (map fst (filter (\<lambda>(_, t). has_pending t) (s_trackers s)))"

definition is_debounce :: "timer_key \<Rightarrow> bool" where
  "is_debounce k = (case k of T_StatusDebounce _ \<Rightarrow> True | _ \<Rightarrow> False)"

definition reset_status_tracking :: "station \<Rightarrow> station" where
  "reset_status_tracking s =
     (timer_cancel_where is_debounce s)
       \<lparr>s_trackers := map (\<lambda>(i, t). (i, tracker_reset t)) (s_trackers s)\<rparr>"

subsection \<open>Security events\<close>

definition MAX_QUEUED_EVENTS :: nat where
  "MAX_QUEUED_EVENTS = 100"

definition is_control :: "char \<Rightarrow> bool" where
  "is_control c = (char_code c < 32 \<or> (127 \<le> char_code c \<and> char_code c < 160))"

definition strip_control :: "string \<Rightarrow> string" where
  "strip_control = map (\<lambda>c. if is_control c then CHR '' '' else c)"

definition MAX_SECURITY_EVENT_TECH_INFO_LEN :: nat where
  "MAX_SECURITY_EVENT_TECH_INFO_LEN = 255"

definition security_event_new :: "string \<Rightarrow> instant \<Rightarrow> string option \<Rightarrow> pending_security_event" where
  "security_event_new ty t tech =
     \<lparr>se_type = ty, se_timestamp = t,
      se_tech_info = map_option (\<lambda>v. take MAX_SECURITY_EVENT_TECH_INFO_LEN (strip_control v))
        (option_filter (\<lambda>v. v \<noteq> []) tech)\<rparr>"

definition push_bounded :: "pending_security_event list \<Rightarrow> pending_security_event \<Rightarrow> pending_security_event list" where
  "push_bounded q e = (let q1 = q @ [e] in drop (length q1 - MAX_QUEUED_EVENTS) q1)"

definition security_failed :: "pending_security_event \<Rightarrow> call_error \<Rightarrow> station \<Rightarrow> station" where
  "security_failed ev e s =
     (if retryable e then s
      else mark_dirty (s\<lparr>s_security_events :=
             sort_key se_timestamp (push_bounded (s_security_events s) ev)\<rparr>))"

definition flush_security_events :: "station \<Rightarrow> station" where
  "flush_security_events s =
     (if \<not> lk_conn (s_link s) \<or> s_registration s \<noteq> Some Reg_Accepted then s
      else if s_security_events s = [] then s
      else foldl (\<lambda>s' ev. call (security_failed ev) From_Station (Req_Security ev) (K_Security ev) s')
             (mark_dirty (s\<lparr>s_security_events := []\<rparr>)) (s_security_events s))"

definition security_event :: "string \<Rightarrow> string option \<Rightarrow> station \<Rightarrow> station" where
  "security_event ty tech s =
     flush_security_events (mark_dirty
       (s\<lparr>s_security_events := push_bounded (s_security_events s) (security_event_new ty (s_now s) tech)\<rparr>))"

subsection \<open>Meter timers\<close>

definition is_sampling :: "station \<Rightarrow> connector_id \<Rightarrow> bool" where
  "is_sampling s i =
     is_some_and (find_connector s i)
       (\<lambda>c. case c_transaction c of PendingStart _ \<Rightarrow> True | Active _ \<Rightarrow> True | _ \<Rightarrow> False)"

definition reschedule_one :: "u32 \<Rightarrow> station \<Rightarrow> connector_id \<Rightarrow> station" where
  "reschedule_one interval s i =
     (if 0 < interval \<and> is_sampling s i then timer_set_if_idle (T_MeterPeriodic i) (secs interval) s
      else timer_cancel (T_MeterPeriodic i) s)"

definition reschedule_metering :: "station \<Rightarrow> station" where
  "reschedule_metering s =
     (let s1 = foldl (reschedule_one (meter_value_sample_interval_secs (s_registry s))) s
                 (map c_id (s_connectors s))
      in case clock_aligned_delay (s_now s) (clock_aligned_data_interval_secs (s_registry s)) of
           Some d \<Rightarrow> if 0 \<le> d then timer_set_if_idle T_MeterAligned (nat d) s1
                     else timer_cancel T_MeterAligned s1
         | None \<Rightarrow> timer_cancel T_MeterAligned s1)"

definition is_meter_timer :: "timer_key \<Rightarrow> bool" where
  "is_meter_timer k = (case k of T_MeterPeriodic _ \<Rightarrow> True | T_MeterAligned \<Rightarrow> True | _ \<Rightarrow> False)"

definition restart_metering :: "station \<Rightarrow> station" where
  "restart_metering s = reschedule_metering (timer_cancel_where is_meter_timer s)"

subsection \<open>Pending availability\<close>

definition apply_pending_availability :: "connector_id \<Rightarrow> station \<Rightarrow> station" where
  "apply_pending_availability i s =
     (case find_connector s i of
        None \<Rightarrow> s
      | Some c \<Rightarrow>
          (case c_pending_availability c of
             None \<Rightarrow> s
           | Some kind \<Rightarrow>
               status_changed i (flush_now (update_connector i (\<lambda>c.
                 let c1 = c\<lparr>c_pending_availability := None, c_availability := kind\<rparr>
                 in c1\<lparr>c_status := status_after_availability_change c1 kind\<rparr>) s))))"

subsection \<open>Installing a charging profile\<close>

definition s_store_limits :: "station \<Rightarrow> store_limits" where
  "s_store_limits s =
     \<lparr>lim_max_stack_level = min (int (charge_profile_max_stack_level (s_registry s))) i32_max,
      lim_max_installed = max_charging_profiles_installed (s_registry s),
      lim_max_periods = charging_schedule_max_periods (s_registry s),
      lim_allowed_units = filter (charging_rate_unit_allowed (s_registry s)) [Unit_A, Unit_W]\<rparr>"

definition connector_count :: "station \<Rightarrow> u32" where
  "connector_count s = min (length (s_connectors s)) u32_max"

definition set_charging_profile ::
  "connector_id \<Rightarrow> charging_profile \<Rightarrow> station \<Rightarrow> station \<times> charging_profile_status" where
  "set_charging_profile i p s =
     (let ctx = \<lparr>ctx_now = s_now s, ctx_connector_count = connector_count s,
                 ctx_active_tx = Option.bind (find_connector s i) c_tx_id,
                 ctx_limits = s_store_limits s\<rparr>;
          (ps, status) = profile_set (s_profiles s) i p ctx;
          s1 = s\<lparr>s_profiles := ps\<rparr>
      in (if status = Prof_Accepted then mark_dirty s1 else s1, status))"

definition install_remote_profile :: "connector_id \<Rightarrow> tx_id \<Rightarrow> charging_profile \<Rightarrow> station \<Rightarrow> station" where
  "install_remote_profile i tx p s =
     fst (set_charging_profile i (p\<lparr>cp_transaction_id := wire tx\<rparr>) s)"

text \<open>Running a \<open>Done\<close>.\<close>

fun complete :: "completion \<Rightarrow> station_error + outcome \<Rightarrow> station \<Rightarrow> station" where
  "complete (Reply_To r) res s = answer r res s"
| "complete Ignore res s = s"
| "complete (Install_Profile i po) res s =
     (case (res, po) of
        (Inr (TransactionStarted _ tx), Some p) \<Rightarrow> install_remote_profile i tx p s
      | _ \<Rightarrow> s)"

subsection \<open>Starting\<close>

definition next_key :: "station \<Rightarrow> station \<times> u64" where
  "next_key s = (s\<lparr>s_next_local := s_next_local s + 1\<rparr>, s_next_local s + 1)"

definition limit_energy_on_invalid_id :: "connector_id \<Rightarrow> station \<Rightarrow> station" where
  "limit_energy_on_invalid_id i s =
     (let s1 = flush_meters s; most = max_energy_on_invalid_id (s_registry s1) in
      case find_connector s1 i of
        None \<Rightarrow> s1
      | Some c \<Rightarrow>
          if most = 0 then s1
          else s1\<lparr>s_invalid_limits := (s_invalid_limits s1)(i \<mapsto> min (c_meter_wh c + most) u64_max)\<rparr>)"

definition clear_invalid_limit :: "connector_id \<Rightarrow> station \<Rightarrow> station" where
  "clear_invalid_limit i s = s\<lparr>s_invalid_limits := (s_invalid_limits s)(i := None)\<rparr>"

definition begin_charging :: "connector_id \<Rightarrow> id_tag \<Rightarrow> station \<Rightarrow> station" where
  "begin_charging i tag s =
     status_changed i (reschedule_metering (flush_now (timer_cancel (T_ReservationExpiry i)
       (update_connector i (\<lambda>c. (fst (clear_reservation c))
          \<lparr>c_status := Charging, c_last_id_tag := Some tag\<rparr>) s))))"

definition abandon_start :: "connector_id \<Rightarrow> station \<Rightarrow> station" where
  "abandon_start i s =
     status_changed i (apply_pending_availability i (update_connector i (\<lambda>c.
       let c1 = c\<lparr>c_transaction := Idle\<rparr> in
       if c_status c1 = Charging
       then c1\<lparr>c_status := if c_ev_connected c1 then Preparing else Available\<rparr> else c1) s))"

definition wh_i64 :: "u64 \<Rightarrow> i64" where
  "wh_i64 n = min (int n) i64_max"

definition send_stop_for ::
  "i32 \<Rightarrow> u64 \<Rightarrow> id_tag option \<Rightarrow> stop_reason \<Rightarrow> station \<Rightarrow> station" where
  "send_stop_for tx meter_stop_wh tag reason s =
     call (\<lambda>e s. s) From_Station
       (Req_Stop \<lparr>tq_id_tag = tag, tq_meter_stop = wh_i64 meter_stop_wh, tq_timestamp = s_now s,
                  tq_transaction_id = tx, tq_reason = Some reason, tq_transaction_data = None\<rparr>)
       K_StopFor s"

definition push_queue :: "offline_tx \<Rightarrow> station \<Rightarrow> station" where
  "push_queue e s =
     (case oq_push (s_queue s) e of
        (q, None) \<Rightarrow> s\<lparr>s_queue := q\<rparr>
      | (q, Some d) \<Rightarrow>
          emit (Dropped d)
            (s\<lparr>s_queue := q, s_sync_failures := (s_sync_failures s)(ox_key d := None)\<rparr>))"

text \<open>The transaction of \<open>i\<close> is still the one with id \<open>tx\<close>.\<close>

definition still_ours :: "station \<Rightarrow> connector_id \<Rightarrow> tx_id \<Rightarrow> bool" where
  "still_ours s i tx = is_some_and (find_connector s i) (\<lambda>c. c_tx_id c = Some tx)"

definition start_failed ::
  "connector_id \<Rightarrow> tx_id \<Rightarrow> completion \<Rightarrow> call_error \<Rightarrow> station \<Rightarrow> station" where
  "start_failed i local k e s =
     complete k (Inl (call_failure e)) (if still_ours s i local then abandon_start i s else s)"

definition apply_verdict :: "id_tag \<Rightarrow> id_tag_info \<Rightarrow> station \<Rightarrow> station \<times> authorization_decision" where
  "apply_verdict tag info s =
     (let (cache, d) = apply_online_id_tag_info tag info (s_now s) (s_auth_cache s) (s_registry s)
      in (mark_dirty (s\<lparr>s_auth_cache := cache\<rparr>), d))"

definition start_answered ::
  "connector_id \<Rightarrow> tx_id \<Rightarrow> pending_start \<Rightarrow> completion \<Rightarrow> id_tag_info \<Rightarrow> i32 \<Rightarrow> station \<Rightarrow> station" where
  "start_answered i local p k info tx s0 =
     (let ours = still_ours s0 i local;
          (s, decision) = apply_verdict (ps_id_tag p) info s0;
          lenient = (\<not> ad_accepted decision \<and> ours \<and> \<not> stop_transaction_on_invalid_id (s_registry s))
      in if (\<not> ad_accepted decision \<and> \<not> lenient) \<or> \<not> ours
         then
           let status = (if ad_accepted decision then Auth_Invalid
                         else ti_status (ad_id_tag_info decision));
               s1 = (if ours then abandon_start i s else s)
           in complete k (Inr (TransactionRejected status))
                (send_stop_for tx (ps_meter_start_wh p) (Some (ps_id_tag p)) DeAuthorized s1)
         else if is_some_and (find_connector s i) (\<lambda>c. c_status c \<in> {Faulted, Unavailable})
         then complete k (Inl (invalid i ''became unavailable while the start was in flight''))
                (send_stop_for tx (ps_meter_start_wh p) (Some (ps_id_tag p)) Stop_Other (abandon_start i s))
         else
           let s1 = update_connector i (\<lambda>c. c\<lparr>c_transaction := Active
                      \<lparr>at_tx_id = Csms tx, at_id_tag = ps_id_tag p, at_started_at = ps_started_at p,
                       at_meter_start_wh = ps_meter_start_wh p\<rparr>\<rparr>) s;
               s2 = begin_charging i (ps_id_tag p) s1;
               s3 = (if lenient then limit_energy_on_invalid_id i s2 else s2)
           in complete k (Inr (TransactionStarted i (Csms tx))) s3)"

definition start_rejection ::
  "connector \<Rightarrow> id_tag \<Rightarrow> id_tag option \<Rightarrow> instant \<Rightarrow> string option" where
  "start_rejection c tag parent now =
     (if blocks_new_transaction (c_transaction c) then Some ''already has a transaction''
      else if c_availability c = Inoperative \<or> c_status c = Unavailable then Some ''is unavailable''
      else if c_status c = Faulted then Some ''is faulted''
      else if c_status c = Finishing
      then Some ''is finishing; unplug before starting a new transaction''
      else if reserved_for_other c tag parent now then Some ''is reserved for another idTag''
      else None)"

text \<open>The local verdict that stops a start before anything is changed.\<close>

definition local_refusal :: "station \<Rightarrow> id_tag \<Rightarrow> authorization_status option" where
  "local_refusal s tag =
     (case option_filter (\<lambda>d. \<not> ad_accepted d)
             (pre_authorize tag (s_now s) (s_local_list s) (s_auth_cache s) (s_registry s)) of
        Some d \<Rightarrow> Some (ti_status (ad_id_tag_info d))
      | None \<Rightarrow>
          if can_talk s then None
          else
            let d = authorize_offline tag (s_now s) (s_local_list s) (s_auth_cache s) (s_registry s)
            in if ad_accepted d then None else Some (ti_status (ad_id_tag_info d)))"

definition start_transaction :: "connector_id \<Rightarrow> id_tag \<Rightarrow> completion \<Rightarrow> station \<Rightarrow> station" where
  "start_transaction i tag k s0 =
     (let s = flush_meters s0 in
      case physical_connector s i of
        Inl e \<Rightarrow> complete k (Inl e) s
      | Inr c \<Rightarrow>
          let now = s_now s; parent = known_parent tag now (s_local_list s) (s_auth_cache s) in
          case start_rejection c tag parent now of
            Some reason \<Rightarrow> complete k (Inl (invalid i reason)) s
          | None \<Rightarrow>
              (case local_refusal s tag of
                 Some status \<Rightarrow> complete k (Inr (TransactionRejected status)) s
               | None \<Rightarrow>
                   let online = can_talk s;
                       (s1, key) = next_key s;
                       local = Local key;
                       reservation_id = map_option r_id (c_reservation c);
                       meter = c_meter_wh c;
                       pending = \<lparr>ps_tx_id = local, ps_id_tag = tag, ps_started_at = now,
                                  ps_meter_start_wh = meter, ps_reservation_id = reservation_id\<rparr>;
                       s2 = clear_invalid_limit i (update_connector i (\<lambda>c.
                              let c1 = c\<lparr>c_ev_connected := True\<rparr>;
                                  c2 = (if c_status c1 = Available then c1\<lparr>c_status := Preparing\<rparr> else c1)
                              in c2\<lparr>c_transaction := PendingStart pending\<rparr>) s1)
                   in if \<not> online
                      then complete k (Inr (TransactionStarted i local)) (flush_now (push_queue
                             \<lparr>ox_key = key, ox_connector = i, ox_tx_id = local, ox_id_tag = tag,
                              ox_started_at = now, ox_meter_start_wh = meter,
                              ox_reservation_id = reservation_id, ox_start_pending = True,
                              ox_stop = None\<rparr> (begin_charging i tag s2)))
                      else call (start_failed i local k) From_Station
                             (Req_Start \<lparr>sq_connector_id = i, sq_id_tag = tag,
                                sq_meter_start = wh_i64 meter, sq_reservation_id = reservation_id,
                                sq_timestamp = now\<rparr>)
                             (K_Start i local pending k) (status_changed i s2)))"

subsection \<open>Delivering the queue\<close>

definition finish_boot_accepted :: "station \<Rightarrow> station" where
  "finish_boot_accepted s =
     (if s_registration s \<noteq> Some Reg_Accepted then s
      else
        let s1 = resend_all_statuses (reschedule_metering s) in
        if s_startup_event_pending s1
        then security_event ''StartupOfTheDevice'' None (s1\<lparr>s_startup_event_pending := False\<rparr>)
        else flush_security_events s1)"

definition failures_of :: "station \<Rightarrow> u64 \<Rightarrow> u32" where
  "failures_of s k = unwrap_or (s_sync_failures s k) 0"

definition sync_round_limit :: "station \<Rightarrow> u32" where
  "sync_round_limit s = max (transaction_message_attempts (s_registry s)) 1"

definition record_sync_failure :: "u64 \<Rightarrow> call_error \<Rightarrow> station \<Rightarrow> station" where
  "record_sync_failure k e s =
     (if \<not> retryable e then s
      else s\<lparr>s_sync_failures := (s_sync_failures s)(k \<mapsto> failures_of s k + 1), s_sync_failed := True\<rparr>)"

definition clear_sync_failure :: "u64 \<Rightarrow> station \<Rightarrow> station" where
  "clear_sync_failure k s = s\<lparr>s_sync_failures := (s_sync_failures s)(k := None)\<rparr>"

definition MIN_SYNC_RETRY :: duration where
  "MIN_SYNC_RETRY = secs 1"

definition give_up :: "station \<Rightarrow> u64 \<Rightarrow> station" where
  "give_up s k = flush_now (clear_sync_failure k (s\<lparr>s_queue := fst (oq_remove (s_queue s) k)\<rparr>))"

definition arm_sync_retry :: "station \<Rightarrow> station" where
  "arm_sync_retry s =
     (if \<not> can_talk s then s
      else
        let rounds = sync_round_limit s;
            exhausted = map ox_key (filter (\<lambda>e. \<not> ox_start_pending e \<and> rounds < failures_of s (ox_key e))
                          (s_queue s));
            s1 = foldl give_up s exhausted
        in if \<exists>e\<in>set (s_queue s1). 0 < failures_of s1 (ox_key e) \<and> failures_of s1 (ox_key e) \<le> rounds
           then timer_set T_SyncRetry
                  (max (transaction_message_retry_interval (s_registry s1)) MIN_SYNC_RETRY) s1
           else s1)"

definition arm_sync_retry_if_idle :: "station \<Rightarrow> station" where
  "arm_sync_retry_if_idle s =
     (if s_sync_outstanding s = 0 \<and> s_sync_failed s
      then arm_sync_retry (s\<lparr>s_sync_failed := False\<rparr>) else s)"

definition sync_finished :: "station \<Rightarrow> station" where
  "sync_finished s =
     (let s1 = s\<lparr>s_sync_outstanding := 0, s_sync_boot := False\<rparr>
      in arm_sync_retry_if_idle (if s_sync_boot s then finish_boot_accepted s1 else s1))"

definition stop_request_of :: "stop_info \<Rightarrow> i32 \<Rightarrow> stop_request" where
  "stop_request_of info w =
     \<lparr>tq_id_tag = si_id_tag info, tq_meter_stop = wh_i64 (si_meter_stop_wh info),
      tq_timestamp = si_timestamp info, tq_transaction_id = w, tq_reason = Some (si_reason info),
      tq_transaction_data =
        (if si_transaction_data info \<noteq> [] then Some (si_transaction_data info) else None)\<rparr>"

text \<open>What an entry sends: its start, else its stop, else nothing.\<close>

definition entry_start_request :: "offline_tx \<Rightarrow> start_request" where
  "entry_start_request e =
     \<lparr>sq_connector_id = ox_connector e, sq_id_tag = ox_id_tag e,
      sq_meter_start = wh_i64 (ox_meter_start_wh e), sq_reservation_id = ox_reservation_id e,
      sq_timestamp = ox_started_at e\<rparr>"

definition sync_stop_call :: "station \<Rightarrow> u64 \<Rightarrow> (request \<times> cont) option" where
  "sync_stop_call s k =
     (case oq_get (s_queue s) k of
        None \<Rightarrow> None
      | Some e \<Rightarrow>
          (case (ox_stop e, wire (ox_tx_id e)) of
             (Some info, Some w) \<Rightarrow> Some (Req_Stop (stop_request_of info w), K_SyncStop k)
           | _ \<Rightarrow> None))"

definition sync_entry_call :: "station \<Rightarrow> u64 \<Rightarrow> (request \<times> cont) option" where
  "sync_entry_call s k =
     (case oq_get (s_queue s) k of
        None \<Rightarrow> None
      | Some e \<Rightarrow>
          if ox_start_pending e then Some (Req_Start (entry_start_request e), K_SyncStart k)
          else sync_stop_call s k)"

definition sync_count_down :: "station \<Rightarrow> station" where
  "sync_count_down s = s\<lparr>s_sync_outstanding := s_sync_outstanding s - 1\<rparr>"

text \<open>
  \<open>run_sync\<close>.  When the CALL of an entry is refused at once, its continuation records the failure and
  runs the next entry (\<open>sync_done\<close>); both loops consume the list of keys.
\<close>

function run_sync :: "station \<Rightarrow> station" where
  "run_sync s =
     (case s_sync_keys s of
        [] \<Rightarrow> sync_finished s
      | key # keys \<Rightarrow>
          let s1 = s\<lparr>s_sync_keys := keys\<rparr> in
          case sync_entry_call s1 key of
            None \<Rightarrow> run_sync (sync_count_down s1)
          | Some (rq, k) \<Rightarrow>
              (case call_refused s1 (action_name rq) From_Station of
                 None \<Rightarrow> submit From_Station rq k s1
               | Some e \<Rightarrow> run_sync (sync_count_down (record_sync_failure key e s1))))"
  by pat_completeness auto
termination
  by (relation "measure (\<lambda>s. length (s_sync_keys s))")
     (auto simp: sync_count_down_def record_sync_failure_def)

declare run_sync.simps [simp del]

definition sync_done :: "station \<Rightarrow> station" where
  "sync_done s = run_sync (sync_count_down s)"

definition sync_failed :: "u64 \<Rightarrow> call_error \<Rightarrow> station \<Rightarrow> station" where
  "sync_failed k e s = sync_done (record_sync_failure k e s)"

text \<open>One turn of the loop, with the CALL as the code makes it.\<close>

lemma run_sync_step:
  "s_sync_keys s = key # keys \<Longrightarrow>
   run_sync s =
     (let s1 = s\<lparr>s_sync_keys := keys\<rparr> in
      case sync_entry_call s1 key of
        None \<Rightarrow> sync_done s1
      | Some (rq, k) \<Rightarrow> call (sync_failed key) From_Station rq k s1)"
  by (subst run_sync.simps)
     (auto simp: call_def sync_failed_def sync_done_def Let_def split: option.splits)

lemma run_sync_Nil: "s_sync_keys s = [] \<Longrightarrow> run_sync s = sync_finished s"
  by (subst run_sync.simps) simp

definition sync_stop :: "u64 \<Rightarrow> station \<Rightarrow> bool \<times> station" where
  "sync_stop k s =
     (case sync_stop_call s k of
        None \<Rightarrow> (False, s)
      | Some (rq, c) \<Rightarrow> (True, call (sync_failed k) From_Station rq c s))"

definition start_offline_sync :: "bool \<Rightarrow> station \<Rightarrow> station \<times> nat" where
  "start_offline_sync boot s =
     (if 0 < s_sync_outstanding s then (s, s_sync_outstanding s)
      else
        let s1 = timer_cancel T_SyncRetry s;
            rounds = sync_round_limit s1;
            keys = filter (\<lambda>k. failures_of s1 k \<le> rounds) (oq_keys (s_queue s1));
            count = length keys
        in if count = 0 then (s1, 0)
           else (run_sync (s1\<lparr>s_sync_outstanding := count, s_sync_boot := boot, s_sync_keys := keys\<rparr>), count))"

definition on_sync_retry_timer :: "station \<Rightarrow> station" where
  "on_sync_retry_timer s = (if can_talk s then fst (start_offline_sync False s) else s)"

definition drop_local_transaction :: "connector_id \<Rightarrow> tx_id \<Rightarrow> station \<Rightarrow> station" where
  "drop_local_transaction i local s =
     (let s1 = (if still_ours s i local
          then update_connector i (\<lambda>c. c\<lparr>c_transaction := Idle,
                 c_status := (if c_availability c = Inoperative then Unavailable
                              else if c_ev_connected c then Preparing else Available)\<rparr>) s
          else s);
          s2 = timer_cancel (T_MeterPeriodic i) s1;
          s3 = s2\<lparr>s_profiles := fst (on_transaction_ended (s_profiles s2) local)\<rparr>
      in status_changed i (apply_pending_availability i s3))"

text \<open>\<open>profiles.on_transaction_ended\<close>, marking the state dirty when something was removed.\<close>

definition end_profiles :: "tx_id \<Rightarrow> station \<Rightarrow> station" where
  "end_profiles tx s =
     (case on_transaction_ended (s_profiles s) tx of
        (ps, n) \<Rightarrow> if 0 < n then mark_dirty (s\<lparr>s_profiles := ps\<rparr>) else s\<lparr>s_profiles := ps\<rparr>)"

definition sync_start_answered :: "u64 \<Rightarrow> id_tag_info \<Rightarrow> i32 \<Rightarrow> station \<Rightarrow> station" where
  "sync_start_answered key info tx s0 =
     (case oq_get (s_queue s0) key of
        None \<Rightarrow> sync_done s0
      | Some entry \<Rightarrow>
          let (s1, decision) = apply_verdict (ox_id_tag entry) info s0;
              local = ox_tx_id entry;
              s2 = clear_sync_failure key s1;
              lenient = (\<not> ad_accepted decision \<and> \<not> stop_transaction_on_invalid_id (s_registry s2))
          in if \<not> ad_accepted decision \<and> \<not> lenient
             then
               let s3 = drop_local_transaction (ox_connector entry) local
                          (s2\<lparr>s_queue := fst (oq_remove (s_queue s2) key)\<rparr>);
                   meter = (case ox_stop entry of
                              None \<Rightarrow> ox_meter_start_wh entry | Some i \<Rightarrow> si_meter_stop_wh i)
               in sync_done (flush_now (send_stop_for tx meter (Some (ox_id_tag entry)) DeAuthorized s3))
             else
               let s3 = s2\<lparr>s_queue := oq_update key
                          (\<lambda>e. e\<lparr>ox_tx_id := Csms tx, ox_start_pending := False\<rparr>) (s_queue s2)\<rparr>;
                   s4 = (if still_ours s3 (ox_connector entry) local
                     then update_connector (ox_connector entry) (\<lambda>c. c\<lparr>c_transaction := Active
                            \<lparr>at_tx_id = Csms tx, at_id_tag = ox_id_tag entry,
                             at_started_at = ox_started_at entry,
                             at_meter_start_wh = ox_meter_start_wh entry\<rparr>\<rparr>) s3
                     else s3);
                   s5 = flush_now (end_profiles local s4);
                   s6 = (if lenient \<and> ox_stop entry = None
                     then limit_energy_on_invalid_id (ox_connector entry) s5 else s5)
               in if ox_stop entry \<noteq> None
                  then (case sync_stop key s6 of (sent, s7) \<Rightarrow> if sent then s7 else sync_done s7)
                  else sync_done s6)"

definition sync_stop_answered :: "u64 \<Rightarrow> station \<Rightarrow> station" where
  "sync_stop_answered key s =
     sync_done (flush_now (clear_sync_failure key (s\<lparr>s_queue := fst (oq_remove (s_queue s) key)\<rparr>)))"

subsection \<open>Stopping\<close>

definition queue_stop ::
  "connector_id \<Rightarrow> tx_id \<Rightarrow> id_tag \<Rightarrow> instant \<Rightarrow> u64 \<Rightarrow> stop_info \<Rightarrow> station \<Rightarrow> station \<times> u64" where
  "queue_stop i tx tag started meter_start info s =
     (case oq_find_by_tx_on (s_queue s) i tx of
        Some e \<Rightarrow>
          (s\<lparr>s_queue := update_first (on_tx i tx) (\<lambda>e. e\<lparr>ox_stop := Some info\<rparr>) (s_queue s)\<rparr>, ox_key e)
      | None \<Rightarrow>
          let (s1, key) = next_key s
          in (push_queue
                \<lparr>ox_key = key, ox_connector = i, ox_tx_id = tx, ox_id_tag = tag,
                 ox_started_at = started, ox_meter_start_wh = meter_start, ox_reservation_id = None,
                 ox_start_pending = False, ox_stop = Some info\<rparr> s1, key))"

definition finish_stop :: "connector_id \<Rightarrow> tx_id \<Rightarrow> station \<Rightarrow> station" where
  "finish_stop i tx s =
     (let s1 = (if still_ours s i tx then update_connector i (\<lambda>c. c\<lparr>c_transaction := Idle\<rparr>) s else s);
          s2 = end_profiles tx s1
      in status_changed i (flush_now (apply_pending_availability i s2)))"

definition stop_answered :: "connector_id \<Rightarrow> tx_id \<Rightarrow> completion \<Rightarrow> station \<Rightarrow> station" where
  "stop_answered i tx k s = complete k (Inr Out_Done) (finish_stop i tx s)"

definition stop_failed ::
  "connector_id \<Rightarrow> tx_id \<Rightarrow> id_tag \<Rightarrow> instant \<Rightarrow> u64 \<Rightarrow> stop_info \<Rightarrow> completion \<Rightarrow> call_error
     \<Rightarrow> station \<Rightarrow> station" where
  "stop_failed i tx tag started meter_start info k e s =
     (let (s1, key) = queue_stop i tx tag started meter_start info s
      in complete k (Inl (call_failure e))
           (arm_sync_retry_if_idle (record_sync_failure key e (finish_stop i tx s1))))"

text \<open>The transaction a stop may end: its id, start instant, start register and idTag.\<close>

definition stoppable ::
  "station \<Rightarrow> connector \<Rightarrow> string + (tx_id \<times> instant \<times> u64 \<times> id_tag)" where
  "stoppable s c =
     (case c_transaction c of
        Idle \<Rightarrow> Inl ''has no transaction''
      | Stopping _ \<Rightarrow> Inl ''transaction is already stopping''
      | PendingStart p \<Rightarrow>
          if \<not> (\<exists>e\<in>set (s_queue s). ox_tx_id e = ps_tx_id p)
          then Inl ''transaction start is still in progress''
          else Inr (ps_tx_id p, ps_started_at p, ps_meter_start_wh p, ps_id_tag p)
      | Active a \<Rightarrow> Inr (at_tx_id a, at_started_at a, at_meter_start_wh a, at_id_tag a))"

definition stop_transaction ::
  "connector_id \<Rightarrow> stop_reason \<Rightarrow> id_tag option \<Rightarrow> completion \<Rightarrow> station \<Rightarrow> station" where
  "stop_transaction i reason tag_opt k s0 =
     (let s = flush_meters s0 in
      case physical_connector s i of
        Inl e \<Rightarrow> complete k (Inl e) s
      | Inr c \<Rightarrow>
          (case stoppable s c of
             Inl why \<Rightarrow> complete k (Inl (invalid i why)) s
           | Inr (tx, started, meter_start, tag) \<Rightarrow>
               let now = s_now s;
                   (ev, status) = state_after_stop reason (c_ev_connected c) (c_availability c);
                   sampled = cfg_measurands (s_registry s) ''StopTxnSampledData'';
                   aligned = cfg_measurands (s_registry s) ''StopTxnAlignedData'';
                   (s1, reading) = station_meter_reading i False s;
                   stop_tag = option_or tag_opt (c_last_id_tag c);
                   info = \<lparr>si_id_tag = stop_tag, si_meter_stop_wh = c_meter_wh c, si_timestamp = now,
                           si_reason = reason,
                           si_transaction_data =
                             stop_transaction_data (s_power_model s1) reading now sampled aligned\<rparr>;
                   s2 = clear_invalid_limit i (timer_cancel (T_MeterPeriodic i)
                          (update_connector i (\<lambda>c. c\<lparr>c_ev_connected := ev, c_status := status\<rparr>) s1))
               in if is_local tx \<or> \<not> can_talk s2
                  then
                    let s3 = finish_stop i tx (fst (queue_stop i tx tag started meter_start info s2));
                        s4 = (if can_talk s3 then fst (start_offline_sync False s3) else s3)
                    in complete k (Inr Out_Done) s4
                  else
                    let s3 = status_changed i (update_connector i (\<lambda>c. c\<lparr>c_transaction := Stopping
                               \<lparr>st_tx_id = tx, st_id_tag = stop_tag, st_reason = reason,
                                st_stopped_at = Some now, st_meter_stop_wh = Some (c_meter_wh c)\<rparr>\<rparr>) s2)
                    in (case wire tx of
                          None \<Rightarrow> complete k (Inr Out_Done) s3
                        | Some w \<Rightarrow>
                            call (stop_failed i tx tag started meter_start info k) From_Station
                              (Req_Stop (stop_request_of info w))
                              (K_Stop i tx tag started meter_start info k) s3)))"

definition check_energy_limit :: "connector_id \<Rightarrow> station \<Rightarrow> station" where
  "check_energy_limit i s =
     (case s_invalid_limits s i of
        None \<Rightarrow> s
      | Some limit \<Rightarrow>
          (case find_connector s i of
             None \<Rightarrow> s
           | Some c \<Rightarrow>
               if limit \<le> c_meter_wh c \<and> \<not> is_idle (c_transaction c)
               then stop_transaction i DeAuthorized (c_last_id_tag c) Ignore (clear_invalid_limit i s)
               else s))"

subsection \<open>Authorize\<close>

definition remote_start_reply :: "responder \<Rightarrow> start_stop_status \<Rightarrow> station \<Rightarrow> station" where
  "remote_start_reply r st = respond r (RemoteStart_conf st)"

definition begin_remote_start :: "connector_id \<Rightarrow> id_tag \<Rightarrow> charging_profile option \<Rightarrow> station \<Rightarrow> station" where
  "begin_remote_start i tag p s = start_transaction i tag (Install_Profile i p) s"

fun authorized :: "after_authorize \<Rightarrow> station_error + authorization_decision \<Rightarrow> station \<Rightarrow> station" where
  "authorized (Auth_Reply r) res s =
     answer r (case res of Inl e \<Rightarrow> Inl e | Inr d \<Rightarrow> Inr (Authorized d)) s"
| "authorized (Auth_RemoteStart r i tag p) res s =
     (case res of
        Inr d \<Rightarrow>
          if ad_accepted d
          then
            let parent = option_or (ti_parent_id_tag (ad_id_tag_info d))
                           (known_parent tag (s_now s) (s_local_list s) (s_auth_cache s));
                c = (case physical_connector s i of Inl _ \<Rightarrow> None | Inr c \<Rightarrow> Some c)
            in if can_remote_start c tag parent (s_now s)
               then begin_remote_start i tag p (remote_start_reply r RSS_Accepted s)
               else remote_start_reply r RSS_Rejected s
          else remote_start_reply r RSS_Rejected s
      | Inl _ \<Rightarrow> remote_start_reply r RSS_Rejected s)"

definition authorize_failed :: "after_authorize \<Rightarrow> call_error \<Rightarrow> station \<Rightarrow> station" where
  "authorize_failed k e s = authorized k (Inl (call_failure e)) s"

definition authorize_answered :: "id_tag \<Rightarrow> after_authorize \<Rightarrow> id_tag_info \<Rightarrow> station \<Rightarrow> station" where
  "authorize_answered tag k info s =
     (let (s1, d) = apply_verdict tag info s in authorized k (Inr d) s1)"

definition authorize :: "id_tag \<Rightarrow> after_authorize \<Rightarrow> station \<Rightarrow> station" where
  "authorize tag k s =
     (if \<not> can_talk s
      then authorized k
             (Inr (authorize_offline tag (s_now s) (s_local_list s) (s_auth_cache s) (s_registry s))) s
      else call (authorize_failed k) From_Station (Req_Authorize tag) (K_Authorize tag k) s)"

end
