(* ===== verification/Handlers.thy ===== *)
theory Handlers
  imports Transactions
begin

text \<open>
  What the central system and the user ask of the station: ChangeAvailability and UnlockConnector
  (\<open>handlers/availability.rs\<close>), ReserveNow and CancelReservation with the expiry timers
  (\<open>handlers/reservation.rs\<close>, \<open>station/reservations.rs\<close>), RemoteStartTransaction,
  RemoteStopTransaction and Reset (\<open>handlers/remote.rs\<close>), the charging profile requests
  (\<open>handlers/smart.rs\<close>), the meter samples (\<open>station/sampling.rs\<close>) and the user commands on
  connectors (\<open>station/commands.rs\<close>).
\<close>

subsection \<open>Meter samples\<close>

definition MAX_PENDING_SAMPLES :: nat where
  "MAX_PENDING_SAMPLES = 16"

text \<open>
  The loop of \<open>make_room_for_sample\<close>: the oldest samples are abandoned until one more fits; the call
  of an abandoned sample is dropped with its continuation.
\<close>

fun abandon_samples :: "nat \<Rightarrow> nat list \<Rightarrow> (nat \<times> pending_call) list \<Rightarrow> bool
    \<Rightarrow> nat list \<times> (nat \<times> pending_call) list \<times> bool" where
  "abandon_samples limit [] calls warned = ([], calls, warned)"
| "abandon_samples limit (t # ts) calls warned =
     (if length (t # ts) \<ge> limit
      then if map_of calls t = None then abandon_samples limit ts calls warned
           else abandon_samples limit ts (filter (\<lambda>(u, _). u \<noteq> t) calls) True
      else (t # ts, calls, warned))"

definition make_room_for_sample :: "station \<Rightarrow> station" where
  "make_room_for_sample s =
     (let live = filter (\<lambda>t. map_of (s_calls s) t \<noteq> None) (s_sample_calls s);
          limit = max MAX_PENDING_SAMPLES (length (s_connectors s));
          (ts, cs, warned) = abandon_samples limit live (s_calls s) (s_sample_overflow_warned s)
      in s\<lparr>s_sample_calls := ts, s_calls := cs, s_sample_overflow_warned := warned\<rparr>)"

definition sample_failed :: "connector_id \<Rightarrow> reply option \<Rightarrow> call_error \<Rightarrow> station \<Rightarrow> station" where
  "sample_failed i ro e s = check_energy_limit i (answer_opt ro (Inl (call_failure e)) s)"

definition sample_answered :: "connector_id \<Rightarrow> reply option \<Rightarrow> station \<Rightarrow> station" where
  "sample_answered i ro s =
     check_energy_limit i (answer_opt ro (Inr Out_Done) (s\<lparr>s_sample_overflow_warned := False\<rparr>))"

definition sample_meter ::
  "connector_id \<Rightarrow> reading_context \<Rightarrow> u64 \<Rightarrow> measurand list \<Rightarrow> reply option \<Rightarrow> station \<Rightarrow> station" where
  "sample_meter i context delta_wh ms ro s0 =
     (let s = flush_meters s0 in
      case find_connector s i of
        None \<Rightarrow> answer_opt ro (Inl (Err_UnknownConnector i)) s
      | Some c \<Rightarrow>
          let s1 = update_connector i (\<lambda>c. c\<lparr>c_meter_wh := min (c_meter_wh c + delta_wh) u64_max\<rparr>) s;
              tx = c_tx_id c;
              s2 = (if 0 < delta_wh then mark_dirty s1 else s1)
          in if \<not> (can_talk s2 \<and> \<not> is_some_and tx is_local)
             then check_energy_limit i (answer_opt ro (Inr Out_Done) s2)
             else
               let (s3, reading) = station_meter_reading i True s2;
                   sample = meter_value_of (s_power_model s3) reading (s_now s0) ms context;
                   s4 = (if ro = None then make_room_for_sample s3 else s3);
                   token = s_next_call_token s4;
                   s5 = call (sample_failed i ro) From_Station
                          (Req_MeterValues \<lparr>vq_connector_id = i,
                             vq_transaction_id = Option.bind tx wire, vq_meter_value = [sample]\<rparr>)
                          (K_Sample i ro) s4
               in if ro = None \<and> map_of (s_calls s5) token \<noteq> None
                  then s5\<lparr>s_sample_calls := s_sample_calls s5 @ [token]\<rparr> else s5)"

definition meter_values_command ::
  "connector_id \<Rightarrow> u64 \<Rightarrow> measurand list option \<Rightarrow> reply \<Rightarrow> station \<Rightarrow> station" where
  "meter_values_command i delta_wh mso r s =
     (case physical_connector s i of
        Inl _ \<Rightarrow> answer r (Inl (Err_UnknownConnector i)) s
      | Inr _ \<Rightarrow>
          sample_meter i SamplePeriodic delta_wh
            (unwrap_or (option_filter (\<lambda>ms. ms \<noteq> []) mso)
               (cfg_measurands (s_registry s) ''MeterValuesSampledData'')) (Some r) s)"

definition on_meter_periodic :: "connector_id \<Rightarrow> station \<Rightarrow> station" where
  "on_meter_periodic i s =
     (let interval = meter_value_sample_interval_secs (s_registry s) in
      if \<not> is_sampling s i \<or> interval = 0 then s
      else sample_meter i SamplePeriodic 0 (cfg_measurands (s_registry s) ''MeterValuesSampledData'')
             None (timer_set (T_MeterPeriodic i) (secs interval) s))"

definition on_meter_aligned :: "station \<Rightarrow> station" where
  "on_meter_aligned s =
     (let s1 = (case clock_aligned_delay (s_now s) (clock_aligned_data_interval_secs (s_registry s)) of
                  Some d \<Rightarrow> if 0 \<le> d then timer_set T_MeterAligned (nat d) s else s
                | None \<Rightarrow> s);
          ms = cfg_measurands (s_registry s) ''MeterValuesAlignedData''
      in foldl (\<lambda>s' i. sample_meter i SampleClock 0 ms None s') s1 (map c_id (s_connectors s1)))"

subsection \<open>Availability\<close>

text \<open>One target: changed at once, or scheduled while a transaction is there.\<close>

definition availability_target ::
  "availability_type \<Rightarrow> station \<times> bool \<times> connector_id list \<Rightarrow> connector_id
     \<Rightarrow> station \<times> bool \<times> connector_id list" where
  "availability_target kind acc i =
     (case acc of (s, scheduled, changed) \<Rightarrow>
        (case find_connector s i of
           None \<Rightarrow> acc
         | Some c \<Rightarrow>
             if \<not> is_idle (c_transaction c)
             then (update_connector i (\<lambda>c. c\<lparr>c_pending_availability := Some kind\<rparr>) s, True, changed)
             else (update_connector i (\<lambda>c.
                     let c1 = c\<lparr>c_pending_availability := None, c_availability := kind\<rparr>
                     in c1\<lparr>c_status := status_after_availability_change c1 kind\<rparr>) s,
                   scheduled, changed @ [i])))"

definition set_station_availability :: "availability_type \<Rightarrow> station \<Rightarrow> station" where
  "set_station_availability kind s =
     s\<lparr>s_charge_point := (s_charge_point s)
         \<lparr>c_availability := kind, c_status := charge_point_status kind (c_status (s_charge_point s))\<rparr>,
       s_availability := kind\<rparr>"

definition change_availability ::
  "responder \<Rightarrow> connector_id \<Rightarrow> availability_type \<Rightarrow> station \<Rightarrow> station" where
  "change_availability r i kind s =
     (let whole_station = is_station i in
      if \<not> whole_station \<and> (\<exists>e. physical_connector s i = Inl e)
      then respond r (ChangeAvailability_conf Avail_Rejected) s
      else
        let targets = (if whole_station then map c_id (s_connectors s) else [i]);
            (s1, changed1) = (if whole_station then (set_station_availability kind s, [STATION]) else (s, []));
            (s2, scheduled, changed) = foldl (availability_target kind) (s1, False, changed1) targets;
            status = (if scheduled then Avail_Scheduled else Avail_Accepted)
        in foldl (\<lambda>s' j. status_changed j s')
             (flush_now (respond r (ChangeAvailability_conf status) s2)) changed)"

definition unlock_connector :: "responder \<Rightarrow> connector_id \<Rightarrow> station \<Rightarrow> station" where
  "unlock_connector r i s =
     (case physical_connector s i of
        Inl _ \<Rightarrow> respond r (UnlockConnector_conf Unlock_NotSupported) s
      | Inr c \<Rightarrow>
          let s1 = respond r (UnlockConnector_conf Unlocked) s
          in if \<not> is_idle (c_transaction c) then stop_transaction i UnlockCommand None Ignore s1 else s1)"

subsection \<open>Reservations\<close>

definition released_one :: "station \<Rightarrow> connector_id \<Rightarrow> station" where
  "released_one s i = status_changed i (timer_cancel (T_ReservationExpiry i) s)"

definition release_expired_reservations :: "station \<Rightarrow> station \<times> connector_id list" where
  "release_expired_reservations s =
     (let (cs, released) = expire_due (s_connectors s) (s_now s);
          s1 = foldl released_one (s\<lparr>s_connectors := cs\<rparr>) released
      in (if released \<noteq> [] then flush_now s1 else s1, released))"

text \<open>
  \<open>arm_reservation\<close> and \<open>on_reservation_timer\<close> call each other: an expired reservation is released
  at once, which leaves only live ones to arm.  The recursion is unfolded: \<open>arm_live\<close> arms a
  reservation that is not expired.
\<close>

definition arm_live :: "station \<Rightarrow> connector_id \<Rightarrow> station" where
  "arm_live s i =
     (case Option.bind (find_connector s i) c_reservation of
        None \<Rightarrow> timer_cancel (T_ReservationExpiry i) s
      | Some res \<Rightarrow>
          (case next_expiry_delay res (s_now s) of
             None \<Rightarrow> s | Some d \<Rightarrow> timer_set (T_ReservationExpiry i) d s))"

definition reserved_ids :: "station \<Rightarrow> connector_id list" where
  "reserved_ids s = map c_id (filter (\<lambda>c. c_reservation c \<noteq> None) (s_connectors s))"

definition on_reservation_timer :: "station \<Rightarrow> station" where
  "on_reservation_timer s =
     (let s1 = fst (release_expired_reservations s) in foldl arm_live s1 (reserved_ids s1))"

definition arm_reservation :: "connector_id \<Rightarrow> station \<Rightarrow> station" where
  "arm_reservation i s =
     (case Option.bind (find_connector s i) c_reservation of
        Some res \<Rightarrow>
          if next_expiry_delay res (s_now s) = None then on_reservation_timer s else arm_live s i
      | None \<Rightarrow> arm_live s i)"

definition after_restore :: "station \<Rightarrow> station" where
  "after_restore s =
     (let s1 = fst (release_expired_reservations s)
      in reschedule_metering (foldl (\<lambda>s' i. arm_reservation i s') s1 (reserved_ids s1)))"

definition reserve_now_handler :: "responder \<Rightarrow> reserve_now_request \<Rightarrow> station \<Rightarrow> station" where
  "reserve_now_handler r rq s0 =
     (let s = fst (release_expired_reservations s0);
          moved_from = map_option c_id (find (\<lambda>c. holds_id (rq_reservation_id rq) c
                         \<and> c_id c \<noteq> rq_connector_id rq) (s_connectors s));
          trial = (if moved_from \<noteq> None
                   then fst (cancel_reservation (s_connectors s) (rq_reservation_id rq))
                   else s_connectors s)
      in case reserve_now trial rq (s_now s) (reserve_connector_zero_supported (s_registry s)) of
           (_, Inl status) \<Rightarrow> respond r (ReserveNow_conf status) s
         | (cs, Inr target) \<Rightarrow>
             let s1 = respond r (ReserveNow_conf Rsv_Accepted) (s\<lparr>s_connectors := cs\<rparr>);
                 s2 = (case moved_from of
                         None \<Rightarrow> s1
                       | Some old \<Rightarrow> status_changed old (timer_cancel (T_ReservationExpiry old) s1))
             in status_changed target (flush_now (arm_reservation target s2)))"

definition cancel_reservation_handler :: "responder \<Rightarrow> reservation_id \<Rightarrow> station \<Rightarrow> station" where
  "cancel_reservation_handler r n s =
     (case cancel_reservation (s_connectors s) n of
        (cs, Some i) \<Rightarrow>
          status_changed i (flush_now (timer_cancel (T_ReservationExpiry i)
            (respond r (CancelReservation_conf True) (s\<lparr>s_connectors := cs\<rparr>))))
      | (_, None) \<Rightarrow> respond r (CancelReservation_conf False) s)"

subsection \<open>Remote start and stop, reset\<close>

definition free_connector :: "connector \<Rightarrow> bool" where
  "free_connector c =
     (is_idle (c_transaction c) \<and> c_availability c = Operative \<and> c_status c = Available)"

definition remote_target :: "station \<Rightarrow> connector_id option \<Rightarrow> connector_id option" where
  "remote_target s requested =
     (case option_filter (\<lambda>i. \<not> is_station i) requested of
        Some i \<Rightarrow> Some i
      | None \<Rightarrow> map_option c_id (find free_connector (s_connectors s)))"

definition remote_profile_ok :: "charging_profile option \<Rightarrow> bool" where
  "remote_profile_ok po =
     is_none_or po (\<lambda>p. cp_purpose p = TxProfile \<and> cp_transaction_id p = None)"

definition remote_start ::
  "responder \<Rightarrow> connector_id option \<Rightarrow> id_tag \<Rightarrow> charging_profile option \<Rightarrow> station \<Rightarrow> station" where
  "remote_start r requested tag po s =
     (let target = remote_target s requested;
          parent = known_parent tag (s_now s) (s_local_list s) (s_auth_cache s);
          c = Option.bind target (\<lambda>i. case physical_connector s i of Inl _ \<Rightarrow> None | Inr c \<Rightarrow> Some c);
          authorize_first = authorize_remote_tx_requests (s_registry s);
          gate = (if \<not> authorize_first then can_remote_start c tag parent (s_now s)
                  else is_some_and c remote_start_usable)
      in case option_filter (\<lambda>_. remote_profile_ok po \<and> gate) target of
           None \<Rightarrow> remote_start_reply r RSS_Rejected s
         | Some i \<Rightarrow>
             if authorize_first then authorize tag (Auth_RemoteStart r i tag po) s
             else begin_remote_start i tag po (remote_start_reply r RSS_Accepted s))"

definition remote_stop :: "responder \<Rightarrow> i32 \<Rightarrow> station \<Rightarrow> station" where
  "remote_stop r tx s =
     (case map_option c_id (find (\<lambda>c. c_tx_id c = Some (Csms tx)) (s_connectors s)) of
        None \<Rightarrow> respond r (RemoteStop_conf RSS_Rejected) s
      | Some i \<Rightarrow> stop_transaction i Remote None Ignore (respond r (RemoteStop_conf RSS_Accepted) s))"

subsection \<open>Charging profiles\<close>

definition set_profile_handler ::
  "responder \<Rightarrow> connector_id \<Rightarrow> charging_profile \<Rightarrow> station \<Rightarrow> station" where
  "set_profile_handler r i p s =
     (case set_charging_profile i p s of (s1, status) \<Rightarrow> respond r (SetChargingProfile_conf status) s1)"

definition clear_profile_handler :: "responder \<Rightarrow> clear_filter \<Rightarrow> station \<Rightarrow> station" where
  "clear_profile_handler r f s =
     (case profile_clear (s_profiles s) f (s_now s) of
        (ps, status) \<Rightarrow> respond r (ClearChargingProfile_conf status) (mark_dirty (s\<lparr>s_profiles := ps\<rparr>)))"

definition composite_handler ::
  "responder \<Rightarrow> connector_id \<Rightarrow> i32 \<Rightarrow> charging_rate_unit option \<Rightarrow> station \<Rightarrow> station" where
  "composite_handler r i duration unit s =
     (let (tx, started) = (case find_connector s i of
            None \<Rightarrow> (None, None) | Some c \<Rightarrow> transaction_context (c_transaction c));
          query = \<lparr>cq_connector = i, cq_duration_s = duration, cq_unit = unit, cq_now = s_now s,
                   cq_connector_count = connector_count s, cq_active_tx = tx,
                   cq_tx_started_at = started, cq_model = s_power_model s\<rparr>;
          before = length (s_profiles s);
          (ps, result) = store_composite_schedule (tl_add_ms (s_lib s)) (s_profiles s) query;
          s1 = s\<lparr>s_profiles := ps\<rparr>;
          s2 = (if length ps \<noteq> before then mark_dirty s1 else s1)
      in respond r (GetCompositeSchedule_conf (case result of Inl _ \<Rightarrow> None | Inr c \<Rightarrow> Some c)) s2)"

subsection \<open>User commands on connectors\<close>

definition add_connector :: "station \<Rightarrow> station \<times> outcome" where
  "add_connector s =
     (let i = foldl max 0 (map c_id (s_connectors s)) + 1;
          s1 = s\<lparr>s_connectors := s_connectors s @ [new_connector i],
                 s_registry := set_connector_count (s_registry s) i\<rparr>
      in (status_changed i (flush_now s1), ConnectorAdded i))"

primrec status_as_str :: "connector_status \<Rightarrow> string" where
  "status_as_str Available = ''Available''"
| "status_as_str Preparing = ''Preparing''"
| "status_as_str Charging = ''Charging''"
| "status_as_str SuspendedEVSE = ''SuspendedEVSE''"
| "status_as_str SuspendedEV = ''SuspendedEV''"
| "status_as_str Finishing = ''Finishing''"
| "status_as_str Reserved = ''Reserved''"
| "status_as_str Unavailable = ''Unavailable''"
| "status_as_str Faulted = ''Faulted''"

definition plug_in :: "connector_id \<Rightarrow> station \<Rightarrow> station \<times> (station_error + outcome)" where
  "plug_in i s =
     (case physical_connector s i of
        Inl e \<Rightarrow> (s, Inl e)
      | Inr c \<Rightarrow>
          if c_ev_connected c then (s, Inl (invalid i ''an EV is already connected''))
          else if c_availability c = Inoperative \<or> c_status c \<in> {Unavailable, Faulted}
          then (s, Inl (invalid i (''cannot accept an EV while '' @ status_as_str (c_status c))))
          else
            let resumes = \<not> is_idle (c_transaction c);
                status = (if resumes then Charging
                          else if c_reservation c \<noteq> None then Reserved else Preparing);
                s1 = update_connector i (\<lambda>c. c\<lparr>c_ev_connected := True, c_status := status\<rparr>) s;
                s2 = (if resumes then reschedule_metering s1 else s1)
            in (status_changed i s2, Inr Out_Done))"

definition unplug :: "connector_id \<Rightarrow> completion \<Rightarrow> station \<Rightarrow> station" where
  "unplug i k s =
     (case physical_connector s i of
        Inl e \<Rightarrow> complete k (Inl e) s
      | Inr c \<Rightarrow>
          if \<not> is_idle (c_transaction c)
          then
            if stop_transaction_on_ev_side_disconnect (s_registry s)
            then stop_transaction i EVDisconnected (c_last_id_tag c) k s
            else complete k (Inr Out_Done) (status_changed i
                   (update_connector i (\<lambda>c. c\<lparr>c_ev_connected := False, c_status := SuspendedEV\<rparr>) s))
          else if \<not> c_ev_connected c \<and> c_status c \<noteq> Finishing
          then complete k (Inl (invalid i ''no EV is connected'')) s
          else complete k (Inr Out_Done) (status_changed i
                 (update_connector i (\<lambda>c'. c'\<lparr>c_ev_connected := False, c_status := status_after_unplug c\<rparr>) s)))"

definition set_status :: "connector_id \<Rightarrow> connector_status \<Rightarrow> station \<Rightarrow> station \<times> (station_error + outcome)" where
  "set_status i status s =
     (case find_connector s i of
        None \<Rightarrow> (s, Inl (Err_UnknownConnector i))
      | Some _ \<Rightarrow>
          (status_changed i (update_connector i (\<lambda>c.
             let c1 = c\<lparr>c_status := status\<rparr>;
                 c2 = (if status = Faulted
                       then c1\<lparr>c_error_code := OtherError, c_info := Some ''Manual fault'',
                               c_vendor_id := Some (sc_vendor (s_config s))\<rparr>
                       else c1\<lparr>c_error_code := NoError, c_info := None, c_vendor_id := None\<rparr>)
             in c2\<lparr>c_vendor_error_code := None\<rparr>) s), Inr Out_Done))"

definition cycle_status :: "connector_id \<Rightarrow> station \<Rightarrow> station \<times> (station_error + outcome)" where
  "cycle_status i s =
     (case find_connector s i of
        None \<Rightarrow> (s, Inl (Err_UnknownConnector i))
      | Some c \<Rightarrow> set_status i (next_status (c_status c)) s)"

definition fault ::
  "connector_id \<Rightarrow> charge_point_error_code \<Rightarrow> string option \<Rightarrow> string option \<Rightarrow> completion
     \<Rightarrow> station \<Rightarrow> station" where
  "fault i code info vendor_code k s =
     (case find_connector s i of
        None \<Rightarrow> complete k (Inl (Err_UnknownConnector i)) s
      | Some c \<Rightarrow>
          let s1 = (if \<not> is_idle (c_transaction c)
                    then stop_transaction i Stop_Other (c_last_id_tag c) Ignore s else s);
              s2 = update_connector i (\<lambda>c. c\<lparr>c_status := Faulted,
                     c_error_code := fault_error_code code,
                     c_info := Option.bind info (\<lambda>t. trim_text t STATUS_TEXT_MAX),
                     c_vendor_id := Some (sc_vendor (s_config s)),
                     c_vendor_error_code := Option.bind vendor_code (\<lambda>t. trim_text t STATUS_TEXT_MAX)\<rparr>) s1
          in complete k (Inr Out_Done) (status_changed i s2))"

definition clear_fault :: "connector_id \<Rightarrow> station \<Rightarrow> station \<times> (station_error + outcome)" where
  "clear_fault i s =
     (case find_connector s i of
        None \<Rightarrow> (s, Inl (Err_UnknownConnector i))
      | Some c \<Rightarrow>
          let status = (if is_station i then charge_point_status (c_availability c) Available
                        else status_after_fault_clear c)
          in (status_changed i (update_connector i (\<lambda>c. c\<lparr>c_status := status,
                c_error_code := NoError, c_info := None, c_vendor_id := None,
                c_vendor_error_code := None\<rparr>) s), Inr Out_Done))"

end
