(* ===== verification/Secure.thy ===== *)
theory Secure
  imports Handlers
begin

text \<open>
  Certificates and the security profiles in the actor (\<open>station/secure.rs\<close>): what a connection is opened
  with, what a failed or a successful attempt means for the certificates, the rules for raising the
  security profile, and \<open>SignCertificate\<close> with its back-off series.  The texts of TLS errors are matched
  as the code matches them.
\<close>

subsection \<open>Errors of a connection attempt\<close>

datatype connect_error =
  InvalidUrl string
| Con_Tls string
| TlsFile string string
| Network string
| Con_Handshake string
| HttpStatus nat string
| SubprotocolMismatch string
| Con_Timeout

definition WILDCARD_REFUSED :: string where
  "WILDCARD_REFUSED = ''wildcard Central System certificate refused''"

text \<open>\<open>str::contains\<close>.\<close>

fun contains :: "string \<Rightarrow> string \<Rightarrow> bool" where
  "contains [] sub = (sub = [])"
| "contains (c # text) sub = (take (length sub) (c # text) = sub \<or> contains text sub)"

datatype tls_failure = Tls_Version | Tls_CipherSuite

definition classify_tls_failure :: "string \<Rightarrow> tls_failure option" where
  "classify_tls_failure text =
     (if list_ex (contains text)
           [''received fatal alert: ProtocolVersion'', ''ServerDoesNotSupportTls12Or13'',
            ''ServerTlsVersionIsDisabledByOurConfig'']
      then Some Tls_Version
      else if list_ex (contains text)
           [''received fatal alert: HandshakeFailure'', ''received fatal alert: InsufficientSecurity'',
            ''peer is incompatible: NoCipherSuitesInCommon'', ''peer is incompatible: NoKxGroupsInCommon'']
      then Some Tls_CipherSuite else None)"

definition is_client_certificate_refusal :: "connect_error \<Rightarrow> bool" where
  "is_client_certificate_refusal e =
     (let refused = (\<lambda>text. list_ex (\<lambda>alert. contains text (''received fatal alert: '' @ alert))
            [''BadCertificate'', ''UnsupportedCertificate'', ''CertificateRevoked'', ''CertificateExpired'',
             ''CertificateUnknown'', ''UnknownCA'', ''CertificateRequired'', ''AccessDenied''])
      in case e of
           Con_Tls text \<Rightarrow> refused text
         | Con_Handshake text \<Rightarrow> refused text
         | Network text \<Rightarrow> refused text
         | _ \<Rightarrow> False)"

definition secure_url :: "station \<Rightarrow> bool" where
  "secure_url s = (take 6 (lower (sc_url (s_config s))) = ''wss://'')"

subsection \<open>Event types\<close>

definition SECURITY_EVENT_TYPES :: "string list" where
  "SECURITY_EVENT_TYPES =
     [''FirmwareUpdated'', ''FailedToAuthenticateAtCentralSystem'', ''CentralSystemFailedToAuthenticate'',
      ''SettingSystemTime'', ''StartupOfTheDevice'', ''ResetOrReboot'', ''SecurityLogWasCleared'',
      ''ReconfigurationOfSecurityParameters'', ''MemoryExhaustion'', ''InvalidMessages'',
      ''AttemptedReplayAttacks'', ''TamperDetectionActivated'', ''InvalidFirmwareSignature'',
      ''InvalidFirmwareSigningCertificate'', ''InvalidCentralSystemCertificate'',
      ''InvalidChargePointCertificate'', ''InvalidTLSVersion'', ''InvalidTLSCipherSuite'',
      ''MaintenanceLoginAccepted'', ''MaintenanceLoginFailed'', ''DiscardedRenewedClientCertificate'']"

definition canonical_event_type :: "string \<Rightarrow> string option" where
  "canonical_event_type name = find (\<lambda>known. eq_ignore_ascii_case known (trim name)) SECURITY_EVENT_TYPES"

subsection \<open>Reconnecting after a reply\<close>

definition HARD_RESET_FIRST_CHECK :: duration where
  "HARD_RESET_FIRST_CHECK = 100 * 1000000"
definition HARD_RESET_POLL :: duration where
  "HARD_RESET_POLL = 50 * 1000000"
definition HARD_RESET_WAIT :: duration where
  "HARD_RESET_WAIT = secs 5"

definition schedule_reconnect_after_reply :: "station \<Rightarrow> station" where
  "schedule_reconnect_after_reply s =
     timer_set T_HardReset HARD_RESET_FIRST_CHECK
       (s\<lparr>s_hard_reset_deadline := Some (s_mono s + HARD_RESET_WAIT)\<rparr>)"

definition reconnect_for_new_security_parameters :: "station \<Rightarrow> station" where
  "reconnect_for_new_security_parameters s =
     (if \<not> lk_conn (s_link s) \<or> s_hard_reset_deadline s \<noteq> None then s
      else schedule_reconnect_after_reply s)"

subsection \<open>SignCertificate\<close>

definition upd_secrets :: "(secrets \<Rightarrow> secrets) \<Rightarrow> station \<Rightarrow> station" where
  "upd_secrets f = upd_security (\<lambda>y. y\<lparr>sy_secrets := f (sy_secrets y)\<rparr>)"

definition upd_certs :: "(cert_store \<Rightarrow> cert_store) \<Rightarrow> station \<Rightarrow> station" where
  "upd_certs f = upd_security (\<lambda>y. y\<lparr>sy_certs := f (sy_certs y)\<rparr>)"

text \<open>The back-off series in progress, if it is series \<open>i\<close>.\<close>

definition current_series :: "u64 \<Rightarrow> station \<Rightarrow> sign_series option" where
  "current_series i s = option_filter (\<lambda>x. sg_id x = i) (sy_sign_series (s_security s))"

text \<open>\<open>1_u64.checked_shl\<close> gives nothing from 64 on.\<close>

definition cert_signing_wait :: "u32 \<Rightarrow> station \<Rightarrow> duration" where
  "cert_signing_wait repeats s =
     secs (min (cert_signing_wait_minimum_secs (s_registry s)
                  * (if repeats < 64 then 2 ^ repeats else u64_max)) u64_max)"

definition stop_sign_series :: "station \<Rightarrow> station" where
  "stop_sign_series s =
     upd_security (\<lambda>y. y\<lparr>sy_sign_series := None\<rparr>) (timer_cancel T_CertSigning s)"

definition arm_cert_signing_retry :: "u64 \<Rightarrow> station \<Rightarrow> station" where
  "arm_cert_signing_retry i s =
     (case current_series i s of
        None \<Rightarrow> s
      | Some series \<Rightarrow>
          if sg_repeats series \<ge> cert_signing_repeat_times (s_registry s) then stop_sign_series s
          else timer_set T_CertSigning (cert_signing_wait (sg_repeats series) s) s)"

definition restore_pending_key :: "string \<Rightarrow> string option \<Rightarrow> station \<Rightarrow> station" where
  "restore_pending_key key previous s =
     (if sx_pending_key_pem (sy_secrets (s_security s)) = Some key
      then mark_secrets_dirty (upd_secrets (\<lambda>x. x\<lparr>sx_pending_key_pem := previous\<rparr>) s) else s)"

definition sign_failed :: "u64 \<Rightarrow> string \<Rightarrow> string option \<Rightarrow> reply option \<Rightarrow> call_error \<Rightarrow> station \<Rightarrow> station" where
  "sign_failed i key previous ro e s =
     answer_opt ro (Inl (call_failure e)) (arm_cert_signing_retry i (restore_pending_key key previous s))"

definition sign_answered ::
  "u64 \<Rightarrow> string \<Rightarrow> string option \<Rightarrow> reply option \<Rightarrow> generic_status \<Rightarrow> station \<Rightarrow> station" where
  "sign_answered i key previous ro status s =
     (let s1 = (if status = Gen_Accepted then s else restore_pending_key key previous s)
      in answer_opt ro (Inr (Out_Response (Res_SignCertificate status))) (arm_cert_signing_retry i s1))"

definition send_sign_certificate :: "u64 \<Rightarrow> reply option \<Rightarrow> station \<Rightarrow> station" where
  "send_sign_certificate i ro s =
     (case current_series i s of
        None \<Rightarrow> answer_opt ro (Inl Err_NotConnected) s
      | Some series \<Rightarrow>
          let previous = sx_pending_key_pem (sy_secrets (s_security s));
              s1 = mark_secrets_dirty (upd_secrets (\<lambda>x. x\<lparr>sx_pending_key_pem := Some (sg_key series)\<rparr>) s)
          in call (sign_failed i (sg_key series) previous ro) From_Station
               (Req_SignCertificate (sg_csr series)) (K_Sign i (sg_key series) previous ro) s1)"

text \<open>The answer channel of a request that a trigger starts is dropped: \<open>ro\<close> is \<open>None\<close>.\<close>

definition request_certificate :: "reply option \<Rightarrow> station \<Rightarrow> station" where
  "request_certificate ro s =
     (let organization = (if cpo_name (s_registry s) = [] then ''Kirby'' else cpo_name (s_registry s));
          next_id = sy_next_sign_series (s_security s) + 1
      in case tl_generate_csr (s_lib s) (s_now s) next_id (sc_charge_point_id (s_config s)) organization of
           Inl e \<Rightarrow>
             answer_opt ro (Inl (InvalidArgument (''cannot create a certificate request: '' @ e))) s
         | Inr (csr, key) \<Rightarrow>
             if \<not> lk_conn (s_link s) then answer_opt ro (Inl Err_NotConnected) s
             else send_sign_certificate next_id ro
                    (upd_security (\<lambda>y. y\<lparr>sy_next_sign_series := next_id,
                        sy_sign_series := Some \<lparr>sg_id = next_id, sg_csr = csr, sg_key = key, sg_repeats = 0\<rparr>\<rparr>)
                      (timer_cancel T_CertSigning s)))"

definition on_cert_signing_timer :: "station \<Rightarrow> station" where
  "on_cert_signing_timer s =
     (case sy_sign_series (s_security s) of
        None \<Rightarrow> s
      | Some series \<Rightarrow>
          if \<not> lk_conn (s_link s) \<or> s_registration s \<noteq> Some Reg_Accepted
          then timer_set T_CertSigning (cert_signing_wait (sg_repeats series) s) s
          else send_sign_certificate (sg_id series) None
                 (upd_security (\<lambda>y. y\<lparr>sy_sign_series := Some (series\<lparr>sg_repeats := sg_repeats series + 1\<rparr>)\<rparr>) s))"

definition adopt_signed_certificate :: "string \<Rightarrow> string \<Rightarrow> station \<Rightarrow> station" where
  "adopt_signed_certificate chain key s =
     (let certs = sy_certs (s_security s); sx = sy_secrets (s_security s);
          kept = (if ct_previous_charge_point_chain certs = None
                  then case (ct_charge_point_chain certs, sx_charge_point_key_pem sx) of
                         (Some old_chain, Some old_key) \<Rightarrow> Some (old_chain, old_key) | _ \<Rightarrow> None
                  else None)
      in upd_security (\<lambda>y. y
           \<lparr>sy_certs := certs
              \<lparr>ct_charge_point_chain := Some (trim chain),
               ct_previous_charge_point_chain :=
                 (case kept of None \<Rightarrow> ct_previous_charge_point_chain certs | Some (c, _) \<Rightarrow> Some c)\<rparr>,
            sy_secrets := sx
              \<lparr>sx_charge_point_key_pem := Some key, sx_pending_key_pem := None,
               sx_previous_charge_point_key_pem :=
                 (case kept of None \<Rightarrow> sx_previous_charge_point_key_pem sx | Some (_, k) \<Rightarrow> Some k)\<rparr>,
            sy_use_previous_cert := False\<rparr>) s)"

subsection \<open>Opening a connection\<close>

text \<open>\<open>apply_security_transport\<close>: what the connection is opened with and the stored certificate it presents.\<close>

definition login_url :: "station \<Rightarrow> string" where
  "login_url s =
     (let url = sc_url (s_config s) in
      if security_profile (s_registry s) \<in> {1, 2} then
        (case authorization_key (s_registry s) of
           Some key \<Rightarrow>
             if tl_url_password (s_lib s) url = Some False
             then tl_url_login (s_lib s) url (sc_charge_point_id (s_config s)) key else url
         | None \<Rightarrow> url)
      else url)"

definition pair_up :: "'a option \<Rightarrow> 'b option \<Rightarrow> ('a \<times> 'b) option" where
  "pair_up a b = Option.bind a (\<lambda>x. map_option (Pair x) b)"

definition stored_client_identity :: "station \<Rightarrow> (string \<times> string) option \<times> stored_identity" where
  "stored_client_identity s =
     (let y = s_security s; certs = sy_certs y; sx = sy_secrets y in
      if security_profile (s_registry s) = 3 \<and> \<not> sc_tls_cert_file (s_config s) then
        let previous = option_filter (\<lambda>_. sy_use_previous_cert y)
              (pair_up (ct_previous_charge_point_chain certs) (sx_previous_charge_point_key_pem sx));
            current = pair_up (ct_charge_point_chain certs) (sx_charge_point_key_pem sx)
        in case previous of
             Some p \<Rightarrow> (Some p, Identity_Previous)
           | None \<Rightarrow> (case current of
                        Some p \<Rightarrow> (Some p, Identity_Current) | None \<Rightarrow> (None, Identity_None))
      else (None, Identity_None))"

definition extra_roots :: "station \<Rightarrow> string list" where
  "extra_roots s =
     (let y = s_security s in
      if sy_use_fallback_root y \<and> has_fallback (sy_certs y) then fallback_pems (sy_certs y)
      else root_pems CentralSystemRootCertificate (sy_certs y))"

definition apply_security_transport :: "station \<Rightarrow> transport \<times> stored_identity" where
  "apply_security_transport s =
     (let (pem, which) = stored_client_identity s
      in (\<lparr>tp_url = login_url s, tp_identity = pem, tp_extra_roots = extra_roots s,
           tp_wildcards = allow_central_system_tls_wildcards (s_registry s)\<rparr>, which))"

subsection \<open>The end of an attempt\<close>

text \<open>\<open>HashSet::insert\<close> tells whether the name was new.\<close>

definition series_security_event :: "string \<Rightarrow> string \<Rightarrow> station \<Rightarrow> station" where
  "series_security_event ty tech s =
     (if ty \<in> set (sy_failure_series (s_security s)) then s
      else security_event ty (Some tech)
             (upd_security (\<lambda>y. y\<lparr>sy_failure_series := ty # sy_failure_series y\<rparr>) s))"

definition certificate_error :: "connect_error \<Rightarrow> bool" where
  "certificate_error e = (case e of Con_Tls text \<Rightarrow> contains text ''invalid peer certificate'' | _ \<Rightarrow> False)"

definition wildcard_refused :: "connect_error \<Rightarrow> bool" where
  "wildcard_refused e = (case e of Con_Tls text \<Rightarrow> contains text WILDCARD_REFUSED | _ \<Rightarrow> False)"

definition next_attempt :: "connect_error \<Rightarrow> station \<Rightarrow> station" where
  "next_attempt e s =
     (let y = s_security s;
          y1 = (if certificate_error e \<and> \<not> wildcard_refused e \<and> has_fallback (sy_certs y)
                then y\<lparr>sy_use_fallback_root := \<not> sy_use_fallback_root y\<rparr> else y);
          y2 = (if sy_connect_identity y1 \<noteq> Identity_None
                  \<and> ct_previous_charge_point_chain (sy_certs y1) \<noteq> None \<and> is_client_certificate_refusal e
                then y1\<lparr>sy_use_previous_cert := \<not> sy_use_previous_cert y1\<rparr> else y1)
      in upd_security (\<lambda>_. y2) s)"

definition report_connect_failure :: "connect_error \<Rightarrow> station \<Rightarrow> station" where
  "report_connect_failure e s =
     (let s1 = next_attempt e s in
      case e of
        HttpStatus status line \<Rightarrow>
          if status = 401 \<or> status = 403
          then series_security_event ''FailedToAuthenticateAtCentralSystem'' line s1 else s1
      | Con_Tls text \<Rightarrow>
          if certificate_error e then series_security_event ''InvalidCentralSystemCertificate'' text s1
          else (case classify_tls_failure text of
                  Some Tls_Version \<Rightarrow> series_security_event ''InvalidTLSVersion'' text s1
                | Some Tls_CipherSuite \<Rightarrow> series_security_event ''InvalidTLSCipherSuite'' text s1
                | None \<Rightarrow> s1)
      | _ \<Rightarrow> s1)"

definition settle_certificates :: "security_state \<Rightarrow> security_state" where
  "settle_certificates y =
     (let certs = sy_certs y; sx = sy_secrets y in
      case sy_connect_identity y of
        Identity_Current \<Rightarrow> y\<lparr>sy_certs := certs\<lparr>ct_previous_charge_point_chain := None\<rparr>,
          sy_secrets := sx\<lparr>sx_previous_charge_point_key_pem := None\<rparr>\<rparr>
      | Identity_Previous \<Rightarrow> y\<lparr>sy_certs := certs\<lparr>ct_charge_point_chain := ct_previous_charge_point_chain certs,
          ct_previous_charge_point_chain := None\<rparr>,
          sy_secrets := sx\<lparr>sx_charge_point_key_pem := sx_previous_charge_point_key_pem sx,
            sx_previous_charge_point_key_pem := None\<rparr>\<rparr>
      | Identity_None \<Rightarrow> y)"

definition client_certificate_connected :: "station \<Rightarrow> station" where
  "client_certificate_connected s =
     (let has_previous = (ct_previous_charge_point_chain (sy_certs (s_security s)) \<noteq> None);
          used = sy_connect_identity (s_security s);
          s1 = upd_security (\<lambda>y. y\<lparr>sy_use_previous_cert := False\<rparr>) s
      in if used = Identity_None \<or> \<not> has_previous then s1
         else
           let s2 = upd_security settle_certificates s1;
               s3 = (if used = Identity_Previous
                     then security_event ''DiscardedRenewedClientCertificate''
                            (Some ''the renewed client certificate could not establish a connection'') s2
                     else s2)
           in flush_now (mark_secrets_dirty s3))"

definition on_connection_established :: "station \<Rightarrow> station" where
  "on_connection_established s =
     client_certificate_connected (upd_security (\<lambda>y. y\<lparr>sy_failure_series := []\<rparr>) s)"

definition on_tls_connected :: "station \<Rightarrow> station" where
  "on_tls_connected s =
     (let y = s_security s;
          via_new_root = (\<not> sy_use_fallback_root y
            \<and> root_pems CentralSystemRootCertificate (sy_certs y) \<noteq> []);
          s1 = upd_security (\<lambda>y. y\<lparr>sy_use_fallback_root := False\<rparr>) s
      in if via_new_root \<and> has_fallback (sy_certs y)
         then let (certs, dropped) = drop_fallback (sy_certs y);
                  s2 = upd_certs (\<lambda>_. certs) s1
              in if dropped then flush_now s2 else s2
         else s1)"

subsection \<open>Raising the security profile\<close>

definition has_client_identity :: "station \<Rightarrow> bool" where
  "has_client_identity s =
     (sc_tls_cert_file (s_config s)
      \<or> (ct_charge_point_chain (sy_certs (s_security s)) \<noteq> None
         \<and> sx_charge_point_key_pem (sy_secrets (s_security s)) \<noteq> None))"

definition parse_u8 :: "string \<Rightarrow> nat option" where
  "parse_u8 s = option_filter (\<lambda>n. n \<le> 255) (parse_u32 s)"

text \<open>The reason a change is refused, if it is.\<close>

definition check_security_change :: "string \<Rightarrow> string \<Rightarrow> station \<Rightarrow> string option" where
  "check_security_change key value s =
     (if \<not> eq_ignore_ascii_case key ''SecurityProfile'' then None
      else case parse_u8 value of
        None \<Rightarrow> None
      | Some new \<Rightarrow>
          if 3 < new then None
          else
            let current = security_profile (s_registry s);
                downgrade = (current = 3 \<and> new = 2 \<and> allow_security_profile_downgrade (s_registry s))
            in if new < current \<and> \<not> downgrade
               then Some (''the security profile cannot be lowered ('' @ show_nat current @ '' -> ''
                      @ show_nat new @ '')'')
               else if new = current
               then (if 1 < new then Some (''the security profile is already '' @ show_nat current) else None)
               else if 2 \<le> new \<and> \<not> secure_url s
               then Some (''profile '' @ show_nat new @ '' needs a wss:// URL'')
               else if new = 3 \<and> \<not> has_client_identity s
               then Some ''profile 3 needs a client certificate (CertificateSigned or tls cert_file)''
               else if new \<in> {1, 2} \<and> tl_url_password (s_lib s) (sc_url (s_config s)) \<noteq> Some True
                 \<and> authorization_key (s_registry s) = None
               then Some (''profile '' @ show_nat new @ '' needs an AuthorizationKey (Basic Auth password)'')
               else None)"

definition on_security_key_changed :: "string \<Rightarrow> station \<Rightarrow> station" where
  "on_security_key_changed key s =
     (let s1 = (if key = ''AuthorizationKey''
                then mark_secrets_dirty
                       (upd_secrets (\<lambda>x. x\<lparr>sx_authorization_key := authorization_key (s_registry s)\<rparr>) s)
                else s)
      in if key \<in> {''AuthorizationKey'', ''SecurityProfile''}
         then reconnect_for_new_security_parameters
                (security_event ''ReconfigurationOfSecurityParameters'' (Some key) s1)
         else s1)"

definition send_security_event :: "string \<Rightarrow> string option \<Rightarrow> station \<Rightarrow> station \<times> (station_error + outcome)" where
  "send_security_event ty tech s =
     (case canonical_event_type ty of
        None \<Rightarrow> (s, Inl (InvalidArgument (''unknown security event type `'' @ ty @ ''`'')))
      | Some canonical \<Rightarrow> (security_event canonical tech s, Inr Out_Done))"

end
