(* ===== verification/Upkeep.thy ===== *)
theory Upkeep
  imports Secure
begin

text \<open>
  \<open>handlers/maintenance.rs\<close>: GetDiagnostics, GetLog, UpdateFirmware and SignedUpdateFirmware, and the
  timers that report the statuses of a simulated run one by one.  Each kind has its own plan and timer.
\<close>

subsection \<open>Reporting\<close>

text \<open>The continuation of a status report ignores the outcome.\<close>

definition notify :: "origin \<Rightarrow> request \<Rightarrow> station \<Rightarrow> station" where
  "notify orig rq = call (\<lambda>_ s. s) orig rq K_Ignore"

definition report_diagnostics :: "diagnostics_status \<Rightarrow> station \<Rightarrow> station" where
  "report_diagnostics st s =
     notify From_Station (Req_Diagnostics st) (upd_maintenance (\<lambda>m. m\<lparr>mn_diagnostics_status := st\<rparr>) s)"

definition report_firmware :: "firmware_status \<Rightarrow> station \<Rightarrow> station" where
  "report_firmware st s =
     notify From_Station (Req_Firmware st) (upd_maintenance (\<lambda>m. m\<lparr>mn_firmware_status := st\<rparr>) s)"

definition report_log :: "upload_log_status \<Rightarrow> station \<Rightarrow> station" where
  "report_log st s =
     notify From_Station
       (Req_Log st (if st = Log_Idle then None else mn_log_request_id (s_maintenance s)))
       (upd_maintenance (\<lambda>m. m\<lparr>mn_log_status := st\<rparr>) s)"

definition report_signed_firmware :: "signed_firmware_status \<Rightarrow> station \<Rightarrow> station" where
  "report_signed_firmware st s =
     notify From_Station
       (Req_SignedFirmware st (if st = Sf_Idle then None else mn_signed_fw_request_id (s_maintenance s)))
       (upd_maintenance (\<lambda>m. m\<lparr>mn_signed_firmware_status := st\<rparr>) s)"

text \<open>The timer of the front of a plan.\<close>

definition arm_front :: "timer_key \<Rightarrow> 'a plan_of \<Rightarrow> station \<Rightarrow> station" where
  "arm_front k plan s = (case plan of [] \<Rightarrow> s | (d, _) # _ \<Rightarrow> timer_set k d s)"

definition on_diagnostics_timer :: "station \<Rightarrow> station" where
  "on_diagnostics_timer s =
     (case mn_diagnostics_plan (s_maintenance s) of
        [] \<Rightarrow> s
      | (_, step) # rest \<Rightarrow>
          let s1 = upd_maintenance (\<lambda>m. m\<lparr>mn_diagnostics_plan := rest\<rparr>) s;
              s2 = (case step of Step_Diagnostics st \<Rightarrow> report_diagnostics st s1 | Step_Firmware _ \<Rightarrow> s1)
          in arm_front T_Diagnostics rest s2)"

definition on_firmware_timer :: "station \<Rightarrow> station" where
  "on_firmware_timer s =
     (case mn_firmware_plan (s_maintenance s) of
        [] \<Rightarrow> s
      | (_, step) # rest \<Rightarrow>
          let s1 = upd_maintenance (\<lambda>m. m\<lparr>mn_firmware_plan := rest\<rparr>) s;
              s2 = (case step of Step_Firmware st \<Rightarrow> report_firmware st s1 | Step_Diagnostics _ \<Rightarrow> s1)
          in arm_front T_Firmware rest s2)"

definition on_log_timer :: "station \<Rightarrow> station" where
  "on_log_timer s =
     (case mn_log_upload (s_maintenance s) of
        [] \<Rightarrow> s
      | (_, st) # rest \<Rightarrow>
          arm_front T_LogUpload rest
            (report_log st (upd_maintenance (\<lambda>m. m\<lparr>mn_log_upload := rest\<rparr>) s)))"

definition signed_event :: "signed_firmware_status \<Rightarrow> station \<Rightarrow> station" where
  "signed_event st s =
     (case st of
        Sf_InvalidSignature \<Rightarrow>
          security_event ''InvalidFirmwareSignature''
            (map_option (\<lambda>n. ''requestId '' @ show_int n) (mn_signed_fw_request_id (s_maintenance s))) s
      | Sf_Installed \<Rightarrow> security_event ''FirmwareUpdated'' None s
      | _ \<Rightarrow> s)"

definition on_signed_firmware_timer :: "station \<Rightarrow> station" where
  "on_signed_firmware_timer s =
     (case mn_signed_fw (s_maintenance s) of
        [] \<Rightarrow> s
      | (_, st) # rest \<Rightarrow>
          arm_front T_SignedFirmware rest (signed_event st
            (report_signed_firmware st (upd_maintenance (\<lambda>m. m\<lparr>mn_signed_fw := rest\<rparr>) s))))"

subsection \<open>Cancelling\<close>

definition cancel_maintenance :: "station \<Rightarrow> station" where
  "cancel_maintenance s =
     upd_maintenance (\<lambda>m. m
       \<lparr>mn_diagnostics_plan := [], mn_firmware_plan := [],
        mn_diagnostics_status := (if mn_diagnostics_plan m = [] then mn_diagnostics_status m else Diag_Idle),
        mn_firmware_status := (if mn_firmware_plan m = [] then mn_firmware_status m else Fw_Idle)\<rparr>)
       (timer_cancel T_Firmware (timer_cancel T_Diagnostics s))"

definition cancel_log_upload :: "station \<Rightarrow> station" where
  "cancel_log_upload s =
     upd_maintenance (\<lambda>m. m
       \<lparr>mn_log_upload := [],
        mn_log_status := (if mn_log_upload m = [] then mn_log_status m else Log_Idle)\<rparr>)
       (timer_cancel T_LogUpload s)"

definition cancel_signed_firmware :: "station \<Rightarrow> station" where
  "cancel_signed_firmware s =
     upd_maintenance (\<lambda>m. m
       \<lparr>mn_signed_fw := [],
        mn_signed_firmware_status := (if mn_signed_fw m = [] then mn_signed_firmware_status m else Sf_Idle)\<rparr>)
       (timer_cancel T_SignedFirmware s)"

subsection \<open>Requests\<close>

definition retry_interval_of :: "i32 option \<Rightarrow> duration" where
  "retry_interval_of o1 = secs (non_negative o1)"

text \<open>What is left until an instant, nothing when it has passed.\<close>

definition time_until :: "instant \<Rightarrow> station \<Rightarrow> duration" where
  "time_until t s = nat (t - s_now s)"

definition get_diagnostics :: "responder \<Rightarrow> i32 option \<Rightarrow> i32 option \<Rightarrow> station \<Rightarrow> station" where
  "get_diagnostics r retries retry_interval s =
     (let file_name = ''diagnostics-'' @ sc_charge_point_id (s_config s) @ ''-''
            @ tl_stamp (s_lib s) (s_now s) @ ''.log'';
          plan = plan_diagnostics (mn_diagnostics_outcome (s_maintenance s)) (non_negative retries)
            (retry_interval_of retry_interval)
      in arm_front T_Diagnostics plan (upd_maintenance (\<lambda>m. m\<lparr>mn_diagnostics_plan := plan\<rparr>)
           (respond r (GetDiagnostics_conf file_name) s)))"

datatype log_type = DiagnosticsLog | SecurityLog

record get_log_request =
  gl_log_type :: log_type
  gl_request_id :: i32
  gl_retries :: "i32 option"
  gl_retry_interval :: "i32 option"
  gl_remote_location :: string

definition get_log :: "responder \<Rightarrow> get_log_request \<Rightarrow> station \<Rightarrow> station" where
  "get_log r rq s =
     (if \<not> valid_log_location (tl_url (s_lib s)) (gl_remote_location rq)
      then respond r (GetLog_conf LogReq_Rejected None) s
      else
        let canceled = (mn_log_upload (s_maintenance s) \<noteq> []);
            s1 = cancel_log_upload s;
            prefix = (case gl_log_type rq of
                        DiagnosticsLog \<Rightarrow> ''diagnostics-log'' | SecurityLog \<Rightarrow> ''security-log'');
            file_name = prefix @ ''-'' @ sc_charge_point_id (s_config s) @ ''-''
              @ tl_stamp (s_lib s) (s_now s) @ ''.log'';
            s2 = respond r (GetLog_conf (if canceled then LogReq_AcceptedCanceled else LogReq_Accepted)
                   (Some file_name)) s1;
            plan = plan_log (mn_diagnostics_outcome (s_maintenance s)) (non_negative (gl_retries rq))
              (retry_interval_of (gl_retry_interval rq))
        in arm_front T_LogUpload plan (upd_maintenance (\<lambda>m. m
             \<lparr>mn_shown_log_request := Some (gl_request_id rq), mn_log_status := Log_Idle,
              mn_log_request_id := Some (gl_request_id rq), mn_log_upload := plan\<rparr>) s2))"

definition update_firmware :: "responder \<Rightarrow> i32 option \<Rightarrow> i32 option \<Rightarrow> instant \<Rightarrow> station \<Rightarrow> station" where
  "update_firmware r retries retry_interval retrieve_date s =
     (let plan = plan_firmware (mn_firmware_outcome (s_maintenance s)) (non_negative retries)
            (retry_interval_of retry_interval);
          wait = min (time_until retrieve_date s) MAX_DELAY;
          s1 = upd_maintenance (\<lambda>m. m\<lparr>mn_last_firmware_signed := False, mn_firmware_plan := plan\<rparr>)
                 (respond r UpdateFirmware_conf s)
      in if plan = [] then s1 else timer_set T_Firmware wait s1)"

record signed_update_request =
  su_request_id :: i32
  su_retries :: "i32 option"
  su_retry_interval :: "i32 option"
  su_location :: string
  su_retrieve_date_time :: instant
  su_install_date_time :: "instant option"
  su_signing_certificate :: string

definition check_signing_certificate :: "string \<Rightarrow> station \<Rightarrow> string option" where
  "check_signing_certificate pem s =
     (let lib = tl_cert (s_lib s) in
      case parse_pem_chain lib pem of
        Inl e \<Rightarrow> Some e
      | Inr chain \<Rightarrow>
          (case find (\<lambda>cert. \<not> valid_at cert (s_now s)) chain of
             Some bad \<Rightarrow> Some (px_subject bad @ '' is expired or not yet valid'')
           | None \<Rightarrow>
               if chains_to_manufacturer_root lib chain (sy_certs (s_security s)) = Some False
               then Some ''does not chain to an installed manufacturer root'' else None))"

text \<open>The refusal of a signed update, if it is refused.\<close>

definition signed_refusal :: "signed_update_request \<Rightarrow> station \<Rightarrow> station \<times> update_firmware_status option" where
  "signed_refusal rq s =
     (if \<not> valid_log_location (tl_url (s_lib s)) (su_location rq) then (s, Some UF_Rejected)
      else case check_signing_certificate (su_signing_certificate rq) s of
             Some reason \<Rightarrow>
               (security_event ''InvalidFirmwareSigningCertificate'' (Some reason) s, Some UF_InvalidCertificate)
           | None \<Rightarrow> (s, None))"

definition wait_until :: "instant \<Rightarrow> station \<Rightarrow> duration option" where
  "wait_until t s = (if s_now s < t then Some (time_until t s) else None)"

definition signed_update_firmware :: "responder \<Rightarrow> signed_update_request \<Rightarrow> station \<Rightarrow> station" where
  "signed_update_firmware r rq s =
     (case signed_refusal rq s of
        (s1, Some status) \<Rightarrow> respond r (SignedUpdateFirmware_conf status) s1
      | (s1, None) \<Rightarrow>
          let canceled = (mn_signed_fw (s_maintenance s1) \<noteq> []);
              s2 = respond r (SignedUpdateFirmware_conf (if canceled then UF_AcceptedCanceled else UF_Accepted))
                     (cancel_signed_firmware s1);
              plan = plan_signed (mn_firmware_outcome (s_maintenance s2)) (non_negative (su_retries rq))
                (retry_interval_of (su_retry_interval rq)) (wait_until (su_retrieve_date_time rq) s2)
                (Option.bind (su_install_date_time rq) (\<lambda>t. wait_until t s2))
          in arm_front T_SignedFirmware plan (upd_maintenance (\<lambda>m. m
               \<lparr>mn_last_firmware_signed := True, mn_signed_fw_request_id := Some (su_request_id rq),
                mn_shown_signed_request := Some (su_request_id rq), mn_signed_firmware_status := Sf_Idle,
                mn_signed_fw := plan\<rparr>) s2))"

end
