(* ===== verification/Lifecycle.thy ===== *)
theory Lifecycle
  imports Upkeep
begin

text \<open>
  What happens when a CALL is answered or fails (\<open>on_call_done\<close> and \<open>fail_pending_calls\<close> of
  \<open>station/calls.rs\<close>), the connection lifecycle with BootNotification and Heartbeat
  (\<open>station/link.rs\<close>), and Reset (\<open>handlers/remote.rs\<close>).
\<close>

subsection \<open>Boot and heartbeat\<close>

definition MIN_PERIOD :: duration where
  "MIN_PERIOD = secs 1"

definition registry_retry_period :: "station \<Rightarrow> duration" where
  "registry_retry_period s = max (secs (heartbeat_interval_secs (s_registry s))) MIN_PERIOD"

definition arm_heartbeat :: "station \<Rightarrow> station" where
  "arm_heartbeat s =
     timer_set T_Heartbeat (max (secs (heartbeat_interval_secs (s_registry s))) MIN_PERIOD) s"

definition set_boot_in_flight :: "bool \<Rightarrow> station \<Rightarrow> station" where
  "set_boot_in_flight b s = s\<lparr>s_link := (s_link s)\<lparr>lk_boot_in_flight := b\<rparr>\<rparr>"

definition boot_done :: "nat \<Rightarrow> station \<Rightarrow> station" where
  "boot_done gen s = (if lk_generation (s_link s) = gen then set_boot_in_flight False s else s)"

definition boot_failed :: "nat \<Rightarrow> reply option \<Rightarrow> call_error \<Rightarrow> station \<Rightarrow> station" where
  "boot_failed gen ro e s0 =
     (let s = boot_done gen s0;
          s1 = (if lk_conn (s_link s) \<and> lk_wanted (s_link s)
                then timer_set T_BootRetry (registry_retry_period s) s else s)
      in answer_opt ro (Inl (call_failure e)) s1)"

definition send_boot :: "reply option \<Rightarrow> station \<Rightarrow> station" where
  "send_boot ro s =
     (if ro = None \<and> lk_boot_in_flight (s_link s) then s
      else
        let s1 = set_boot_in_flight True (timer_cancel T_BootRetry s);
            gen = lk_generation (s_link s1)
        in call (boot_failed gen ro) From_Station Req_Boot (K_Boot gen ro) s1)"

definition on_boot_accepted :: "i32 \<Rightarrow> station \<Rightarrow> station" where
  "on_boot_accepted interval s =
     (let s1 = s\<lparr>s_link := (s_link s)\<lparr>lk_attempts := 0\<rparr>\<rparr>;
          s2 = (if 0 < interval
                then s1\<lparr>s_registry := fst (cfg_change (s_registry s1) ''HeartbeatInterval'' (show_int interval))\<rparr>
                else s1);
          s3 = s2\<lparr>s_heartbeat_interval_secs := heartbeat_interval_secs (s_registry s2)\<rparr>;
          s4 = (mark_dirty (arm_heartbeat s3))\<lparr>s_reset_retries := None\<rparr>;
          (s5, count) = start_offline_sync True s4
      in if count = 0 then finish_boot_accepted s5 else s5)"

definition boot_not_accepted :: "i32 \<Rightarrow> station \<Rightarrow> station" where
  "boot_not_accepted interval s =
     (let s1 = timer_cancel T_Heartbeat s;
          delay0 = max (if 0 < interval then secs (nat interval) else registry_retry_period s1) MIN_PERIOD;
          (s2, delay) =
            (case s_reset_retries s1 of
               Some left \<Rightarrow>
                 if 0 < left then (s1\<lparr>s_reset_retries := Some (left - 1)\<rparr>, 500 * 1000000)
                 else (s1\<lparr>s_reset_retries := None\<rparr>, delay0)
             | None \<Rightarrow> (s1, delay0))
      in if lk_conn (s_link s2) \<and> lk_wanted (s_link s2) then timer_set T_BootRetry delay s2 else s2)"

definition boot_answered ::
  "nat \<Rightarrow> reply option \<Rightarrow> registration_status \<Rightarrow> instant \<Rightarrow> i32 \<Rightarrow> station \<Rightarrow> station" where
  "boot_answered gen ro status current_time interval s0 =
     (let s1 = (boot_done gen s0)\<lparr>s_registration := Some status\<rparr>;
          s2 = (if status = Reg_Accepted then on_boot_accepted interval s1
                else boot_not_accepted interval s1)
      in answer_opt ro (Inr (Out_Response (Res_Boot status current_time interval))) s2)"

definition on_boot_retry_timer :: "station \<Rightarrow> station" where
  "on_boot_retry_timer s = (if lk_conn (s_link s) then send_boot None s else s)"

definition heartbeat_failed :: "reply option \<Rightarrow> call_error \<Rightarrow> station \<Rightarrow> station" where
  "heartbeat_failed ro e = answer_opt ro (Inl (call_failure e))"

definition heartbeat_answered :: "reply option \<Rightarrow> instant \<Rightarrow> station \<Rightarrow> station" where
  "heartbeat_answered ro t s =
     answer_opt ro (Inr (Out_Response (Res_Heartbeat t))) (s\<lparr>s_last_heartbeat_at := Some (s_now s)\<rparr>)"

definition send_heartbeat :: "origin \<Rightarrow> reply option \<Rightarrow> station \<Rightarrow> station" where
  "send_heartbeat orig ro = call (heartbeat_failed ro) orig Req_Heartbeat (K_Heartbeat ro)"

definition on_heartbeat_timer :: "station \<Rightarrow> station" where
  "on_heartbeat_timer s =
     (if s_registration s \<noteq> Some Reg_Accepted then s
      else send_heartbeat From_Station None (arm_heartbeat s))"

subsection \<open>The end of a CALL\<close>

text \<open>
  The continuation with name \<open>k\<close>, run on the outcome of its CALL.  A response of the wrong type
  is the decoding failure of \<open>call\<close>.
\<close>

definition failed :: "cont \<Rightarrow> call_error \<Rightarrow> station \<Rightarrow> station" where
  "failed k e =
     (case k of
        K_Authorize tag c \<Rightarrow> authorize_failed c e
      | K_Start i local p c \<Rightarrow> start_failed i local c e
      | K_StopFor \<Rightarrow> (\<lambda>s. s)
      | K_Stop i tx tag started m info c \<Rightarrow> stop_failed i tx tag started m info c e
      | K_SyncStart key \<Rightarrow> sync_failed key e
      | K_SyncStop key \<Rightarrow> sync_failed key e
      | K_Status i key ro \<Rightarrow> status_failed i key ro e
      | K_Security ev \<Rightarrow> security_failed ev e
      | K_Sample i ro \<Rightarrow> sample_failed i ro e
      | K_Boot gen ro \<Rightarrow> boot_failed gen ro e
      | K_Heartbeat ro \<Rightarrow> heartbeat_failed ro e
      | K_Ignore \<Rightarrow> (\<lambda>s. s)
      | K_User action r \<Rightarrow> answer r (Inl (call_failure e))
      | K_Raw r \<Rightarrow> answer r (Inl (call_failure e))
      | K_Sign i key previous ro \<Rightarrow> sign_failed i key previous ro e)"

definition answered :: "cont \<Rightarrow> response \<Rightarrow> station \<Rightarrow> station" where
  "answered k r =
     (case k of
        K_Authorize tag c \<Rightarrow>
          (case r of Res_Authorize info \<Rightarrow> authorize_answered tag c info | _ \<Rightarrow> failed k Decode)
      | K_Start i local p c \<Rightarrow>
          (case r of Res_Start info tx \<Rightarrow> start_answered i local p c info tx | _ \<Rightarrow> failed k Decode)
      | K_StopFor \<Rightarrow> (\<lambda>s. s)
      | K_Stop i tx tag started m info c \<Rightarrow>
          (case r of Res_Stop _ \<Rightarrow> stop_answered i tx c | _ \<Rightarrow> failed k Decode)
      | K_SyncStart key \<Rightarrow>
          (case r of Res_Start info tx \<Rightarrow> sync_start_answered key info tx | _ \<Rightarrow> failed k Decode)
      | K_SyncStop key \<Rightarrow>
          (case r of Res_Stop _ \<Rightarrow> sync_stop_answered key | _ \<Rightarrow> failed k Decode)
      | K_Status i key ro \<Rightarrow>
          (case r of Res_Status \<Rightarrow> answer_opt ro (Inr Out_Done) | _ \<Rightarrow> failed k Decode)
      | K_Security ev \<Rightarrow> (case r of Res_Security \<Rightarrow> (\<lambda>s. s) | _ \<Rightarrow> failed k Decode)
      | K_Sample i ro \<Rightarrow> (case r of Res_MeterValues \<Rightarrow> sample_answered i ro | _ \<Rightarrow> failed k Decode)
      | K_Boot gen ro \<Rightarrow>
          (case r of Res_Boot status t interval \<Rightarrow> boot_answered gen ro status t interval
           | _ \<Rightarrow> failed k Decode)
      | K_Heartbeat ro \<Rightarrow>
          (case r of Res_Heartbeat t \<Rightarrow> heartbeat_answered ro t | _ \<Rightarrow> failed k Decode)
      | K_Ignore \<Rightarrow> (\<lambda>s. s)
      | K_User action c \<Rightarrow>
          (if response_action r = Some action then answer c (Inr (Out_Response r)) else failed k Decode)
      | K_Raw c \<Rightarrow> answer c (Inr (Out_Response r))
      | K_Sign i key previous ro \<Rightarrow>
          (case r of Res_SignCertificate status \<Rightarrow> sign_answered i key previous ro status
           | _ \<Rightarrow> failed k Decode))"

definition resume :: "cont \<Rightarrow> call_error + response \<Rightarrow> station \<Rightarrow> station" where
  "resume k res = (case res of Inl e \<Rightarrow> failed k e | Inr r \<Rightarrow> answered k r)"

definition on_call_done :: "nat \<Rightarrow> nat \<Rightarrow> call_error + response \<Rightarrow> station \<Rightarrow> station" where
  "on_call_done token gen res s =
     (if gen \<noteq> lk_generation (s_link s) then s
      else
        case map_of (s_calls s) token of
          None \<Rightarrow> s
        | Some pc \<Rightarrow>
            resume (pc_cont pc) res (s\<lparr>s_calls := filter (\<lambda>(t, _). t \<noteq> token) (s_calls s)\<rparr>))"

definition fail_pending_calls :: "call_error \<Rightarrow> station \<Rightarrow> station" where
  "fail_pending_calls e s =
     foldl (\<lambda>s' (_, pc). failed (pc_cont pc) e s') (s\<lparr>s_calls := []\<rparr>)
       (sort_key fst (s_calls s))"

subsection \<open>The link\<close>

definition cancel_simulations :: "station \<Rightarrow> station" where
  "cancel_simulations s = cancel_signed_firmware (cancel_log_upload (cancel_maintenance s))"

definition link_down :: "nat option \<Rightarrow> station \<Rightarrow> station" where
  "link_down code s =
     (let s1 = s\<lparr>s_link := (s_link s)\<lparr>lk_generation := lk_generation (s_link s) + 1,
                   lk_conn := False, lk_boot_in_flight := False\<rparr>\<rparr>;
          s2 = cancel_simulations (timer_cancel T_HardReset (timer_cancel T_BootRetry
                 (timer_cancel T_Heartbeat s1)))\<lparr>s_hard_reset_deadline := None\<rparr>;
          s3 = timer_cancel T_SyncRetry (s2\<lparr>s_sync_outstanding := 0, s_sync_keys := [],
                 s_sync_boot := False, s_sync_failed := False, s_sync_failures := Map.empty\<rparr>);
          s4 = (reset_status_tracking s3)\<lparr>s_registration := None\<rparr>
      in (fail_pending_calls (Closed code) s4)\<lparr>s_connection := Disconnected\<rparr>)"

definition allows_attempt :: "reconnect_config \<Rightarrow> u32 \<Rightarrow> bool" where
  "allows_attempt rc attempt =
     (rc_enabled rc \<and> (rc_max_attempts rc = 0 \<or> attempt \<le> rc_max_attempts rc))"

definition delay_for_attempt :: "reconnect_config \<Rightarrow> u32 \<Rightarrow> duration" where
  "delay_for_attempt rc attempt =
     (let exponent = min (attempt - 1) 63; factor = 2 ^ exponent;
          millis = min (min (rc_initial_delay_ms rc * factor) u64_max) (rc_max_delay_ms rc)
      in millis * 1000000)"

definition schedule_reconnect :: "station \<Rightarrow> station" where
  "schedule_reconnect s =
     (if \<not> lk_wanted (s_link s) then s
      else
        let attempt = lk_attempts (s_link s) + 1; policy = s_reconnect s in
        if \<not> allows_attempt policy attempt then s\<lparr>s_connection := Disconnected\<rparr>
        else timer_set T_Reconnect (delay_for_attempt policy attempt)
               (s\<lparr>s_link := (s_link s)\<lparr>lk_attempts := attempt\<rparr>, s_connection := Backoff attempt\<rparr>))"

definition start_connect :: "station \<Rightarrow> station" where
  "start_connect s =
     (let s1 = s\<lparr>s_link := (s_link s)\<lparr>lk_generation := lk_generation (s_link s) + 1, lk_connecting := True\<rparr>,
                 s_connection := Connecting\<rparr>;
          (config, which) = apply_security_transport s1
      in emit (Open_Link (lk_generation (s_link s1)) config)
           (upd_security (\<lambda>y. y\<lparr>sy_connect_identity := which\<rparr>) s1))"

definition connect :: "station \<Rightarrow> station" where
  "connect s =
     (let s1 = timer_cancel T_Reconnect
                 (s\<lparr>s_link := (s_link s)\<lparr>lk_wanted := True, lk_attempts := 0\<rparr>\<rparr>)
      in if lk_conn (s_link s1) \<or> lk_connecting (s_link s1) then s1 else start_connect s1)"

definition disconnect :: "station \<Rightarrow> station" where
  "disconnect s =
     (let s1 = timer_cancel T_Reconnect (s\<lparr>s_link := (s_link s)
                 \<lparr>lk_wanted := False, lk_attempts := 0, lk_connecting := False\<rparr>\<rparr>)
      in (link_down None s1)\<lparr>s_connection := Disconnected\<rparr>)"

definition reconnect_for_hard_reset :: "station \<Rightarrow> station" where
  "reconnect_for_hard_reset s =
     (let s1 = link_down None s
      in start_connect (timer_cancel T_Reconnect (s1\<lparr>s_link := (s_link s1)
           \<lparr>lk_wanted := True, lk_attempts := 0, lk_connecting := False\<rparr>\<rparr>)))"

text \<open>The connection attempt of generation \<open>gen\<close> succeeded, or failed with an error.\<close>

definition established :: "station \<Rightarrow> station" where
  "established s =
     on_connection_established
       (if secure_url s \<and> \<not> sc_tls_skip_verify (s_config s) then on_tls_connected s else s)"

definition on_connect_result :: "nat \<Rightarrow> connect_error option \<Rightarrow> station \<Rightarrow> station" where
  "on_connect_result gen failure s =
     (if gen \<noteq> lk_generation (s_link s) then s
      else case failure of
        None \<Rightarrow>
          send_boot None (established (s\<lparr>s_link := (s_link s)\<lparr>lk_connecting := False, lk_conn := True\<rparr>,
            s_connection := Connected\<rparr>))
      | Some e \<Rightarrow>
          schedule_reconnect ((report_connect_failure e
            (s\<lparr>s_link := (s_link s)\<lparr>lk_connecting := False\<rparr>\<rparr>))\<lparr>s_connection := Disconnected\<rparr>))"

definition on_closed :: "nat option \<Rightarrow> station \<Rightarrow> station" where
  "on_closed code s = schedule_reconnect ((link_down code s)\<lparr>s_connection := Disconnected\<rparr>)"

definition on_reconnect_timer :: "station \<Rightarrow> station" where
  "on_reconnect_timer s =
     (if \<not> lk_wanted (s_link s) \<or> lk_conn (s_link s) \<or> lk_connecting (s_link s) then s
      else start_connect s)"

subsection \<open>Reset\<close>

datatype reset_type = Hard | Soft

definition reset_one :: "stop_reason \<Rightarrow> station \<Rightarrow> connector_id \<Rightarrow> station" where
  "reset_one reason s i =
     status_changed i (update_connector i (\<lambda>c. c\<lparr>c_ev_connected := False,
         c_status := (if c_availability c = Inoperative then Unavailable else Available)\<rparr>)
       (stop_transaction i reason None Ignore s))"

definition unreserve_one :: "station \<Rightarrow> connector_id \<Rightarrow> station" where
  "unreserve_one s i =
     status_changed i (timer_cancel (T_ReservationExpiry i)
       (update_connector i (\<lambda>c. fst (clear_reservation c)) s))"

definition reset_name :: "reset_type \<Rightarrow> string" where
  "reset_name kind = (case kind of Hard \<Rightarrow> ''Hard'' | Soft \<Rightarrow> ''Soft'')"

definition perform_reset :: "reset_type \<Rightarrow> station \<Rightarrow> station" where
  "perform_reset kind s =
     (let reason = (case kind of Hard \<Rightarrow> HardReset | Soft \<Rightarrow> SoftReset);
          s1 = security_event ''ResetOrReboot''
                 (Some (reset_name kind @ '' reset requested by the CSMS'')) s;
          s2 = timer_cancel_where is_meter_timer (cancel_simulations
                 (timer_cancel T_BootRetry (timer_cancel T_Heartbeat s1)));
          running = map c_id (filter (\<lambda>c. \<not> is_idle (c_transaction c)) (s_connectors s2));
          s3 = foldl (reset_one reason) s2 running;
          s4 = foldl unreserve_one s3 (reserved_ids s3);
          s5 = s4\<lparr>s_registration := None, s_reset_retries := Some (reset_retries (s_registry s4))\<rparr>;
          s6 = (if lk_conn (s_link s5)
                then (case kind of Soft \<Rightarrow> timer_set T_BootRetry (500 * 1000000) s5
                                 | Hard \<Rightarrow> schedule_reconnect_after_reply s5)
                else s5)
      in flush_now s6)"

definition reset :: "responder \<Rightarrow> reset_type \<Rightarrow> station \<Rightarrow> station" where
  "reset r kind s = perform_reset kind (respond r Reset_conf s)"

definition on_hard_reset_timer :: "station \<Rightarrow> station" where
  "on_hard_reset_timer s =
     (case s_hard_reset_deadline s of
        None \<Rightarrow> s
      | Some deadline \<Rightarrow>
          if \<not> lk_conn (s_link s) then s\<lparr>s_hard_reset_deadline := None\<rparr>
          else if s_calls s \<noteq> [] \<and> s_mono s < deadline then timer_set T_HardReset HARD_RESET_POLL s
          else reconnect_for_hard_reset (s\<lparr>s_hard_reset_deadline := None\<rparr>))"

end
