(* ===== verification/Requests.thy ===== *)
theory Requests
  imports Lifecycle
begin

text \<open>
  The rest of what the central system may ask (\<open>handlers/config.rs\<close>, \<open>data_transfer.rs\<close>,
  \<open>local_list.rs\<close>, \<open>trigger.rs\<close>, \<open>security.rs\<close>, \<open>rules.rs\<close>), and the user commands that edit the
  configuration, the local list and the charging profiles (\<open>station/local_edit.rs\<close>) or send a CALL of
  their own (\<open>station/commands.rs\<close>).
\<close>

subsection \<open>Configuration\<close>

definition restart_metering :: "station \<Rightarrow> station" where
  "restart_metering s = reschedule_metering (timer_cancel_where is_meter_timer s)"

definition on_configuration_changed :: "string \<Rightarrow> station \<Rightarrow> station" where
  "on_configuration_changed key s =
     (if key = ''HeartbeatInterval''
      then let s1 = s\<lparr>s_heartbeat_interval_secs := heartbeat_interval_secs (s_registry s)\<rparr>
           in if s_registration s1 = Some Reg_Accepted then arm_heartbeat s1 else s1
      else if key = ''MinimumStatusDuration''
      then if minimum_status_duration (s_registry s) = 0 then flush_pending_statuses s else s
      else if key \<in> {''MeterValueSampleInterval'', ''ClockAlignedDataInterval''}
      then restart_metering s
      else s)"

definition apply_configuration_change :: "string \<Rightarrow> string \<Rightarrow> station \<Rightarrow> station \<times> configuration_status" where
  "apply_configuration_change key value s =
     (if check_security_change key value s \<noteq> None then (s, Conf_Rejected)
      else
        let (registry, status) = cfg_change (s_registry s) key value;
            s1 = s\<lparr>s_registry := registry\<rparr>
        in if status \<noteq> Conf_Accepted then (s1, status)
           else
             let canonical = (case cfg_get registry key of None \<Rightarrow> key | Some e \<Rightarrow> ce_key e)
             in (on_configuration_changed canonical (flush_now (on_security_key_changed canonical s1)), status))"

definition change_configuration :: "responder \<Rightarrow> string \<Rightarrow> string \<Rightarrow> station \<Rightarrow> station" where
  "change_configuration r key value s =
     (case apply_configuration_change key value s of
        (s1, status) \<Rightarrow> respond r (ChangeConfiguration_conf status) s1)"

definition get_configuration_request :: "responder \<Rightarrow> string list option \<Rightarrow> station \<Rightarrow> station" where
  "get_configuration_request r key s =
     (case get_configuration_handler (s_registry s) key of
        Inl (code, requested, mx) \<Rightarrow>
          respond_error r code
            (show_nat requested @ '' keys requested, GetConfigurationMaxKeys is '' @ show_nat mx) s
      | Inr report \<Rightarrow> respond r (GetConfiguration_conf report) s)"

subsection \<open>Data transfer and the local list\<close>

definition data_transfer :: "responder \<Rightarrow> string \<Rightarrow> string option \<Rightarrow> station \<Rightarrow> station" where
  "data_transfer r vendor data s =
     (if vendor = sc_vendor (s_config s) then respond r (DataTransfer_conf DT_Accepted data) s
      else respond r (DataTransfer_conf DT_UnknownVendorId None) s)"

definition send_local_list_handler :: "responder \<Rightarrow> send_local_list_request \<Rightarrow> station \<Rightarrow> station" where
  "send_local_list_handler r request s =
     (case send_local_list (s_registry s) (s_local_list s) request of
        (l, save, status) \<Rightarrow>
          let s1 = s\<lparr>s_local_list := l\<rparr>
          in respond r (SendLocalList_conf status) (if save then flush_now s1 else s1))"

definition get_version_handler :: "responder \<Rightarrow> station \<Rightarrow> station" where
  "get_version_handler r s =
     respond r (GetLocalListVersion_conf (get_local_list_version (s_registry s) (s_local_list s))) s"

definition clear_cache_handler :: "responder \<Rightarrow> station \<Rightarrow> station" where
  "clear_cache_handler r s =
     respond r ClearCache_conf (flush_now (s\<lparr>s_auth_cache := cache_clear (s_auth_cache s)\<rparr>))"

subsection \<open>Triggered messages\<close>

datatype message_trigger =
  MT_Boot | MT_Diagnostics | MT_Firmware | MT_Heartbeat | MT_MeterValues | MT_Status

datatype extended_trigger =
  ET_Boot | ET_Log | ET_Firmware | ET_Heartbeat | ET_MeterValues | ET_SignCertificate | ET_Status

definition decide_for :: "bool \<Rightarrow> bool \<Rightarrow> connector_id option \<Rightarrow> station \<Rightarrow> trigger_status" where
  "decide_for is_boot connector_specific connector s =
     (if \<not> is_boot \<and> s_registration s \<notin> {Some Reg_Accepted, Some Reg_Pending} then Trig_Rejected
      else if connector_specific \<and> is_some_and connector (\<lambda>i. find_connector s i = None)
      then Trig_Rejected else Trig_Accepted)"

definition triggered_meter_values :: "station \<Rightarrow> connector_id \<Rightarrow> station" where
  "triggered_meter_values s i =
     (if \<not> is_station i \<and> find_connector s i = None then s
      else
        let tx = (if is_station i then None else Option.bind (find_connector s i) c_tx_id);
            ms = cfg_measurands (s_registry s) ''MeterValuesSampledData'';
            (s1, reading) = station_meter_reading i False s;
            sample = meter_value_of (s_power_model s1) reading (s_now s1) ms Trigger
        in notify Triggered (Req_MeterValues \<lparr>vq_connector_id = i,
             vq_transaction_id = Option.bind tx wire, vq_meter_value = [sample]\<rparr>) s1)"

definition start_triggered :: "message_trigger \<Rightarrow> connector_id option \<Rightarrow> station \<Rightarrow> station" where
  "start_triggered message connector s =
     (case message of
        MT_Boot \<Rightarrow> send_boot None s
      | MT_Heartbeat \<Rightarrow> send_heartbeat Triggered None s
      | MT_Diagnostics \<Rightarrow> notify Triggered (Req_Diagnostics (mn_diagnostics_status (s_maintenance s))) s
      | MT_Firmware \<Rightarrow> notify Triggered (Req_Firmware (mn_firmware_status (s_maintenance s))) s
      | MT_Status \<Rightarrow>
          foldl (\<lambda>s' i. send_status_forced i Triggered None s') s
            (case connector of Some i \<Rightarrow> [i] | None \<Rightarrow> STATION # map c_id (s_connectors s))
      | MT_MeterValues \<Rightarrow>
          foldl triggered_meter_values s
            (case connector of Some i \<Rightarrow> [i] | None \<Rightarrow> map c_id (s_connectors s)))"

definition trigger_message :: "responder \<Rightarrow> message_trigger \<Rightarrow> connector_id option \<Rightarrow> station \<Rightarrow> station" where
  "trigger_message r message connector s =
     (let status = decide_for (message = MT_Boot) (message \<in> {MT_Status, MT_MeterValues}) connector s;
          s1 = respond r (TriggerMessage_conf status) s
      in if status = Trig_Accepted then start_triggered message connector s1 else s1)"

fun common_trigger :: "extended_trigger \<Rightarrow> message_trigger option" where
  "common_trigger ET_Boot = Some MT_Boot"
| "common_trigger ET_Firmware = Some MT_Firmware"
| "common_trigger ET_Heartbeat = Some MT_Heartbeat"
| "common_trigger ET_MeterValues = Some MT_MeterValues"
| "common_trigger ET_Status = Some MT_Status"
| "common_trigger ET_Log = None"
| "common_trigger ET_SignCertificate = None"

definition start_extended :: "extended_trigger \<Rightarrow> connector_id option \<Rightarrow> station \<Rightarrow> station" where
  "start_extended message connector s =
     (let m = s_maintenance s in
      case common_trigger message of
        Some trigger \<Rightarrow>
          if trigger = MT_Firmware \<and> mn_last_firmware_signed m
          then notify Triggered (Req_SignedFirmware (mn_signed_firmware_status m)
                 (if mn_signed_firmware_status m = Sf_Idle then None else mn_signed_fw_request_id m)) s
          else start_triggered trigger connector s
      | None \<Rightarrow>
          if message = ET_Log
          then let status = (if mn_log_upload m = [] then Log_Idle else Log_Uploading)
               in notify Triggered
                    (Req_Log status (if status = Log_Idle then None else mn_log_request_id m)) s
          else request_certificate None s)"

definition extended_trigger_message ::
  "responder \<Rightarrow> extended_trigger \<Rightarrow> connector_id option \<Rightarrow> station \<Rightarrow> station" where
  "extended_trigger_message r message connector s =
     (let status = decide_for (message = ET_Boot) (message \<in> {ET_Status, ET_MeterValues}) connector s;
          s1 = respond r (ExtendedTriggerMessage_conf status) s
      in if status = Trig_Accepted then start_extended message connector s1 else s1)"

subsection \<open>Certificates\<close>

definition install_certificate :: "responder \<Rightarrow> certificate_use \<Rightarrow> string \<Rightarrow> station \<Rightarrow> station" where
  "install_certificate r kind pem s =
     (let certs = sy_certs (s_security s);
          (certs', status) = install (tl_cert (s_lib s)) kind pem (s_now s)
            (certificate_store_max_length (s_registry s))
            (additional_root_certificate_check (s_registry s)) certs;
          s1 = upd_certs (\<lambda>_. certs') s;
          s2 = (if status = Install_Accepted \<and> ct_roots certs' \<noteq> ct_roots certs
                then flush_now (upd_security (\<lambda>y. y\<lparr>sy_use_fallback_root := False\<rparr>) s1) else s1)
      in respond r (InstallCertificate_conf status) s2)"

definition delete_certificate :: "responder \<Rightarrow> certificate_hash_data \<Rightarrow> station \<Rightarrow> station" where
  "delete_certificate r wanted s =
     (let (certs, status) = delete_root (tl_cert (s_lib s)) wanted
            (2 \<le> security_profile (s_registry s)) (sy_certs (s_security s));
          s1 = upd_certs (\<lambda>_. certs) s
      in respond r (DeleteCertificate_conf status) (if status = Delete_Accepted then flush_now s1 else s1))"

definition get_installed_certificate_ids :: "responder \<Rightarrow> certificate_use \<Rightarrow> station \<Rightarrow> station" where
  "get_installed_certificate_ids r kind s =
     (let ids = installed_ids (tl_cert (s_lib s)) kind (sy_certs (s_security s))
      in respond r (if ids = [] then GetInstalledCertificateIds_conf Inst_NotFound None
                    else GetInstalledCertificateIds_conf Inst_Accepted (Some ids)) s)"

definition check_signed_chain :: "string \<Rightarrow> station \<Rightarrow> string + string" where
  "check_signed_chain chain s =
     (case sx_pending_key_pem (sy_secrets (s_security s)) of
        None \<Rightarrow> Inl ''no certificate request is pending''
      | Some key \<Rightarrow>
          (case validate_signed_chain (tl_cert (s_lib s)) chain key (s_now s)
                  (certificate_signed_max_chain_size (s_registry s)) of
             Inl e \<Rightarrow> Inl e | Inr _ \<Rightarrow> Inr key))"

definition certificate_signed :: "responder \<Rightarrow> string \<Rightarrow> station \<Rightarrow> station" where
  "certificate_signed r chain s =
     (case check_signed_chain chain s of
        Inr key \<Rightarrow>
          respond r (CertificateSigned_conf Gen_Accepted)
            (reconnect_for_new_security_parameters (flush_now (mark_secrets_dirty
              (stop_sign_series (adopt_signed_certificate chain key s)))))
      | Inl reason \<Rightarrow>
          security_event ''InvalidChargePointCertificate'' (Some reason)
            (respond r (CertificateSigned_conf Gen_Rejected) (stop_sign_series s)))"

subsection \<open>Response rules\<close>

text \<open>Whether the handler still has to run.\<close>

definition apply_rule :: "responder \<Rightarrow> string \<Rightarrow> station \<Rightarrow> station \<times> bool" where
  "apply_rule r action s =
     (let (result, rules) = apply_response_rule action (s_response_rules s);
          s1 = s\<lparr>s_response_rules := rules\<rparr>
      in case result of
           Run_Handler None \<Rightarrow> (s1, True)
         | Run_Handler (Some ms) \<Rightarrow> (emit (Hold_Back r ms) s1, True)
         | Rule_Accept payload \<Rightarrow> (emit (Rule_Answer r payload) s1, False)
         | Rule_Reject code text \<Rightarrow> (respond_error r code text s1, False)
         | Rule_Close \<Rightarrow>
             let s2 = emit (Abandon r) s1
             in (if lk_conn (s_link s2) then emit Hang_Up s2 else s2, False)
         | Rule_Silent \<Rightarrow> (emit (Abandon r) s1, False))"

subsection \<open>Local edits\<close>

definition set_configuration :: "string \<Rightarrow> string \<Rightarrow> station \<Rightarrow> station \<times> (station_error + outcome)" where
  "set_configuration key value s =
     (case apply_configuration_change key value s of
        (s1, status) \<Rightarrow>
          (s1, case status of
                 Conf_Accepted \<Rightarrow> Inr Out_Done
               | Conf_NotSupported \<Rightarrow> Inl (InvalidArgument (''unknown key '' @ key))
               | _ \<Rightarrow> Inl (InvalidArgument (key @ '': value rejected (read-only or invalid)''))))"

definition apply_local_list_request ::
  "send_local_list_request \<Rightarrow> station \<Rightarrow> station \<times> (station_error + outcome)" where
  "apply_local_list_request request s =
     (let limits = limits_from_config (s_registry s);
          (l, status) = apply_list (s_local_list s) request limits;
          s1 = s\<lparr>s_local_list := l\<rparr>
      in case status of
           Upd_Accepted \<Rightarrow> (flush_now s1, Inr Out_Done)
         | Upd_NotSupported \<Rightarrow> (s1, Inl (InvalidArgument
             ''the local authorization list is disabled (LocalAuthListEnabled)''))
         | Upd_Failed \<Rightarrow> (s1, Inl (InvalidArgument
             (''the local list is full (LocalAuthListMaxLength '' @ show_nat (ll_max_entries limits) @ '')'')))
         | Upd_VersionMismatch \<Rightarrow> (s1, Inl (InvalidArgument ''local list version mismatch'')))"

definition apply_local_list_edit :: "authorization_data \<Rightarrow> station \<Rightarrow> station \<times> (station_error + outcome)" where
  "apply_local_list_edit item s =
     apply_local_list_request
       \<lparr>sl_list_version = min (la_version (s_local_list s) + 1) i32_max,
        sl_local_authorization_list = Some [item], sl_update_type = Differential\<rparr> s"

definition set_local_list_entry :: "id_tag \<Rightarrow> id_tag_info \<Rightarrow> station \<Rightarrow> station \<times> (station_error + outcome)" where
  "set_local_list_entry tag info s = apply_local_list_edit (tag, Some info) s"

definition remove_local_list_entry :: "id_tag \<Rightarrow> station \<Rightarrow> station \<times> (station_error + outcome)" where
  "remove_local_list_entry tag s =
     (if list_get (s_local_list s) tag = None
      then (s, Inl (InvalidArgument (tag @ '' is not in the local list'')))
      else apply_local_list_edit (tag, None) s)"

definition clear_local_list :: "station \<Rightarrow> station \<times> (station_error + outcome)" where
  "clear_local_list s =
     apply_local_list_request
       \<lparr>sl_list_version = 0, sl_local_authorization_list = Some [], sl_update_type = Full\<rparr> s"

fun profile_status_str :: "charging_profile_status \<Rightarrow> string" where
  "profile_status_str Prof_Accepted = ''Accepted''"
| "profile_status_str Prof_Rejected = ''Rejected''"
| "profile_status_str Prof_NotSupported = ''NotSupported''"

definition install_charging_profile ::
  "connector_id \<Rightarrow> charging_profile \<Rightarrow> station \<Rightarrow> station \<times> (station_error + outcome)" where
  "install_charging_profile i profile s =
     (case set_charging_profile i profile s of
        (s1, status) \<Rightarrow>
          if status = Prof_Accepted then (flush_now s1, Inr Out_Done)
          else (s1, Inl (InvalidArgument (''charging profile '' @ show_int (cp_id profile) @ '' ''
                 @ profile_status_str status @ '' (see the SetChargingProfile rules)''))))"

definition clear_charging_profiles :: "i32 option \<Rightarrow> station \<Rightarrow> station \<times> (station_error + outcome)" where
  "clear_charging_profiles n s =
     (case profile_clear (s_profiles s)
             \<lparr>cf_id = n, cf_connector = None, cf_purpose = None, cf_stack_level = None\<rparr> (s_now s) of
        (ps, status) \<Rightarrow>
          (flush_now (s\<lparr>s_profiles := ps\<rparr>),
           case n of
             Some k \<Rightarrow> if status = Clear_Unknown
               then Inl (InvalidArgument (''no charging profile with id '' @ show_int k)) else Inr Out_Done
           | None \<Rightarrow> Inr Out_Done))"

subsection \<open>CALLs of the user\<close>

definition user_call :: "request \<Rightarrow> reply \<Rightarrow> station \<Rightarrow> station" where
  "user_call rq r =
     call (\<lambda>e. answer r (Inl (call_failure e))) From_Station rq (K_User (action_name rq) r)"

definition send_raw :: "string \<Rightarrow> json \<Rightarrow> bool \<Rightarrow> reply \<Rightarrow> station \<Rightarrow> station" where
  "send_raw action payload validate r s =
     (case call_refused s action Origin_Raw of
        Some e \<Rightarrow> answer r (Inl (call_failure e)) s
      | None \<Rightarrow> submit_raw action payload validate (K_Raw r) s)"

fun rule_error_str :: "rule_error \<Rightarrow> string" where
  "rule_error_str Rule_Format =
     ''expected <Action>=<behavior>[*<count>], e.g. Reset=reject or GetConfiguration=delay:5000''"
| "rule_error_str (UnknownAction name) =
     ''unknown action `'' @ name @ ''` (expected one of the CSMS commands, e.g. Reset)''"
| "rule_error_str (UnknownBehavior name) =
     ''unknown behavior `'' @ name
     @ ''` (expected reject, delay:<ms>, error:<Code>[:<text>], drop or ignore)''"
| "rule_error_str BadDelay =
     ''delay must be a number of milliseconds between 0 and '' @ show_nat MAX_DELAY_MS"
| "rule_error_str (UnknownErrorCode name) =
     ''unknown error code `'' @ name @ ''` (expected one of the ten OCPP 1.6 CALLERROR codes)''"
| "rule_error_str BadCount = ''count must be a positive integer''"

definition set_response_rule :: "response_rule \<Rightarrow> station \<Rightarrow> station \<times> (station_error + outcome)" where
  "set_response_rule rule s =
     (case canonical_action (ru_action rule) of
        Inl e \<Rightarrow> (s, Inl (InvalidArgument (rule_error_str e)))
      | Inr canonical \<Rightarrow>
          if ru_remaining rule = Some 0
          then (s, Inl (InvalidArgument ''count must be a positive integer''))
          else (s\<lparr>s_response_rules := set_rule (rule\<lparr>ru_action := canonical\<rparr>) (s_response_rules s)\<rparr>,
                Inr Out_Done))"

definition clear_response_rules :: "string option \<Rightarrow> station \<Rightarrow> station \<times> (station_error + outcome)" where
  "clear_response_rules action s =
     (case (case action of
              None \<Rightarrow> Inr None | Some name \<Rightarrow> map_sum (\<lambda>e. e) Some (canonical_action name)) of
        Inl e \<Rightarrow> (s, Inl (InvalidArgument (rule_error_str e)))
      | Inr wanted \<Rightarrow>
          (s\<lparr>s_response_rules := fst (clear_rules wanted (s_response_rules s))\<rparr>, Inr Out_Done))"

subsection \<open>Shutdown\<close>

definition finish_persistence :: "station \<Rightarrow> station" where
  "finish_persistence s =
     (let s1 = timer_cancel T_PersistFlush s; p = s_persistence s1;
          had_in_flight = pe_in_flight p; p1 = p\<lparr>pe_in_flight := False\<rparr>
      in if \<not> pe_store p \<or> \<not> (pe_dirty p \<or> pe_queued p \<or> had_in_flight \<or> pe_secrets_dirty p)
         then s1\<lparr>s_persistence := p1\<rparr>
         else emit (Save (pe_secrets_dirty p \<or> had_in_flight))
                (s1\<lparr>s_persistence := p1\<lparr>pe_secrets_dirty := False, pe_dirty := False, pe_queued := False\<rparr>\<rparr>))"

definition shutdown :: "station \<Rightarrow> station" where
  "shutdown s =
     (let s1 = flush_meters s;
          s2 = s1\<lparr>s_link := (s_link s1)\<lparr>lk_wanted := False\<rparr>, s_timers := Map.empty\<rparr>;
          s3 = fail_pending_calls (Closed None) s2;
          s4 = s3\<lparr>s_link := (s_link s3)
                 \<lparr>lk_connecting := False, lk_generation := lk_generation (s_link s3) + 1, lk_conn := False\<rparr>\<rparr>
      in finish_persistence (s4\<lparr>s_connection := Disconnected, s_registration := None\<rparr>))"

end
