(* ===== verification/Actor.thy ===== *)
theory Actor
  imports Requests Action_Table
begin

text \<open>
  The actor loop (\<open>station/actor.rs\<close>): the dispatch of the commands, of the CALLs of the central system
  (\<open>handlers/mod.rs\<close>), of the results of connection attempts, CALLs and writes, and of the timers.
  The decoding of a payload is serde's: a CALL arrives decoded, or as one that cannot be decoded, with
  the error text.
\<close>

subsection \<open>One turn of the actor\<close>

datatype command =
  Cmd_Connect | Cmd_Disconnect | Cmd_Reconnect | Cmd_Boot | Cmd_Heartbeat
| Cmd_StatusNotification connector_id
| Cmd_Authorize id_tag
| Cmd_StartTransaction connector_id id_tag
| Cmd_StopTransaction connector_id stop_reason "id_tag option"
| Cmd_MeterValues connector_id u64 "measurand list option"
| Cmd_AddConnector
| Cmd_PlugIn connector_id
| Cmd_Unplug connector_id
| Cmd_SetConnectorStatus connector_id connector_status
| Cmd_CycleConnectorStatus connector_id
| Cmd_Fault connector_id charge_point_error_code "string option" "string option"
| Cmd_ClearFault connector_id
| Cmd_DataTransfer string "string option" "string option"
| Cmd_DiagnosticsStatus diagnostics_status
| Cmd_FirmwareStatus firmware_status
| Cmd_SendRaw string json bool
| Cmd_RequestCertificate
| Cmd_SetDiagnosticsOutcome diagnostics_outcome
| Cmd_SetFirmwareOutcome firmware_outcome
| Cmd_SetResponseRule response_rule
| Cmd_ClearResponseRules "string option"
| Cmd_SetConfiguration string string
| Cmd_SetLocalListEntry id_tag id_tag_info
| Cmd_RemoveLocalListEntry id_tag
| Cmd_ClearLocalList
| Cmd_InstallChargingProfile connector_id charging_profile
| Cmd_ClearChargingProfiles "i32 option"
| Cmd_SendSecurityEvent string "string option"
| Cmd_Shutdown

datatype inbound =
  In_ChangeAvailability connector_id availability_type
| In_UnlockConnector connector_id
| In_ReserveNow reserve_now_request
| In_CancelReservation reservation_id
| In_RemoteStart "connector_id option" id_tag "charging_profile option"
| In_RemoteStop i32
| In_Reset reset_type
| In_SetChargingProfile connector_id charging_profile
| In_ClearChargingProfile clear_filter
| In_GetCompositeSchedule connector_id i32 "charging_rate_unit option"
| In_ChangeConfiguration string string
| In_GetConfiguration "string list option"
| In_ClearCache
| In_DataTransfer string "string option" "string option"
| In_GetLocalListVersion
| In_SendLocalList send_local_list_request
| In_TriggerMessage message_trigger "connector_id option"
| In_ExtendedTriggerMessage extended_trigger "connector_id option"
| In_GetDiagnostics "i32 option" "i32 option"
| In_GetLog get_log_request
| In_UpdateFirmware "i32 option" "i32 option" instant
| In_SignedUpdateFirmware signed_update_request
| In_InstallCertificate certificate_use string
| In_DeleteCertificate certificate_hash_data
| In_GetInstalledCertificateIds certificate_use
| In_CertificateSigned string
| In_Undecodable string string
| In_Other string

text \<open>The action of a CALL; an undecodable one keeps its name.\<close>

fun inbound_action :: "inbound \<Rightarrow> string" where
  "inbound_action (In_ChangeAvailability _ _) = ''ChangeAvailability''"
| "inbound_action (In_UnlockConnector _) = ''UnlockConnector''"
| "inbound_action (In_ReserveNow _) = ''ReserveNow''"
| "inbound_action (In_CancelReservation _) = ''CancelReservation''"
| "inbound_action (In_RemoteStart _ _ _) = ''RemoteStartTransaction''"
| "inbound_action (In_RemoteStop _) = ''RemoteStopTransaction''"
| "inbound_action (In_Reset _) = ''Reset''"
| "inbound_action (In_SetChargingProfile _ _) = ''SetChargingProfile''"
| "inbound_action (In_ClearChargingProfile _) = ''ClearChargingProfile''"
| "inbound_action (In_GetCompositeSchedule _ _ _) = ''GetCompositeSchedule''"
| "inbound_action (In_ChangeConfiguration _ _) = ''ChangeConfiguration''"
| "inbound_action (In_GetConfiguration _) = ''GetConfiguration''"
| "inbound_action In_ClearCache = ''ClearCache''"
| "inbound_action (In_DataTransfer _ _ _) = ''DataTransfer''"
| "inbound_action In_GetLocalListVersion = ''GetLocalListVersion''"
| "inbound_action (In_SendLocalList _) = ''SendLocalList''"
| "inbound_action (In_TriggerMessage _ _) = ''TriggerMessage''"
| "inbound_action (In_ExtendedTriggerMessage _ _) = ''ExtendedTriggerMessage''"
| "inbound_action (In_GetDiagnostics _ _) = ''GetDiagnostics''"
| "inbound_action (In_GetLog _) = ''GetLog''"
| "inbound_action (In_UpdateFirmware _ _ _) = ''UpdateFirmware''"
| "inbound_action (In_SignedUpdateFirmware _) = ''SignedUpdateFirmware''"
| "inbound_action (In_InstallCertificate _ _) = ''InstallCertificate''"
| "inbound_action (In_DeleteCertificate _) = ''DeleteCertificate''"
| "inbound_action (In_GetInstalledCertificateIds _) = ''GetInstalledCertificateIds''"
| "inbound_action (In_CertificateSigned _) = ''CertificateSigned''"
| "inbound_action (In_Undecodable action _) = action"
| "inbound_action (In_Other action) = action"

datatype wake =
  Command reply command
| Inbound responder inbound
| Link_Closed "nat option"
| Connect_Result nat "connect_error option"
| Call_Done nat nat "call_error + response"
| Saved bool
| Timer timer_key

definition reply_now :: "reply \<Rightarrow> station \<times> (station_error + outcome) \<Rightarrow> station" where
  "reply_now r sr = answer r (snd sr) (fst sr)"

fun execute :: "reply \<Rightarrow> command \<Rightarrow> station \<Rightarrow> station" where
  "execute r Cmd_Connect s = answer r (Inr Out_Done) (connect s)"
| "execute r Cmd_Disconnect s = answer r (Inr Out_Done) (disconnect s)"
| "execute r Cmd_Reconnect s = answer r (Inr Out_Done) (connect (disconnect s))"
| "execute r Cmd_Boot s =
     (if \<not> lk_conn (s_link s) then answer r (Inl Err_NotConnected) s else send_boot (Some r) s)"
| "execute r Cmd_Heartbeat s = send_heartbeat From_Station (Some r) s"
| "execute r (Cmd_StatusNotification i) s = send_status_forced i From_Station (Some r) s"
| "execute r (Cmd_Authorize tag) s = authorize tag (Auth_Reply r) s"
| "execute r (Cmd_StartTransaction i tag) s = start_transaction i tag (Reply_To r) s"
| "execute r (Cmd_StopTransaction i reason tag) s = stop_transaction i reason tag (Reply_To r) s"
| "execute r (Cmd_MeterValues i delta_wh ms) s = meter_values_command i delta_wh ms r s"
| "execute r Cmd_AddConnector s = (case add_connector s of (s', o1) \<Rightarrow> answer r (Inr o1) s')"
| "execute r (Cmd_PlugIn i) s = reply_now r (plug_in i s)"
| "execute r (Cmd_Unplug i) s = unplug i (Reply_To r) s"
| "execute r (Cmd_SetConnectorStatus i st) s = reply_now r (set_status i st s)"
| "execute r (Cmd_CycleConnectorStatus i) s = reply_now r (cycle_status i s)"
| "execute r (Cmd_Fault i code info vendor) s = fault i code info vendor (Reply_To r) s"
| "execute r (Cmd_ClearFault i) s = reply_now r (clear_fault i s)"
| "execute r (Cmd_DataTransfer vendor m data) s = user_call (Req_DataTransfer vendor m data) r s"
| "execute r (Cmd_DiagnosticsStatus st) s =
     user_call (Req_Diagnostics st) r (upd_maintenance (\<lambda>m. m\<lparr>mn_diagnostics_status := st\<rparr>) s)"
| "execute r (Cmd_FirmwareStatus st) s =
     user_call (Req_Firmware st) r (upd_maintenance (\<lambda>m. m\<lparr>mn_firmware_status := st\<rparr>) s)"
| "execute r (Cmd_SendRaw action payload validate) s = send_raw action payload validate r s"
| "execute r Cmd_RequestCertificate s = request_certificate (Some r) s"
| "execute r (Cmd_SetDiagnosticsOutcome out) s =
     answer r (Inr Out_Done) (upd_maintenance (\<lambda>m. m\<lparr>mn_diagnostics_outcome := out\<rparr>) s)"
| "execute r (Cmd_SetFirmwareOutcome out) s =
     answer r (Inr Out_Done) (upd_maintenance (\<lambda>m. m\<lparr>mn_firmware_outcome := out\<rparr>) s)"
| "execute r (Cmd_SetResponseRule rule) s = reply_now r (set_response_rule rule s)"
| "execute r (Cmd_ClearResponseRules action) s = reply_now r (clear_response_rules action s)"
| "execute r (Cmd_SetConfiguration key value) s = reply_now r (set_configuration key value s)"
| "execute r (Cmd_SetLocalListEntry tag info) s = reply_now r (set_local_list_entry tag info s)"
| "execute r (Cmd_RemoveLocalListEntry tag) s = reply_now r (remove_local_list_entry tag s)"
| "execute r Cmd_ClearLocalList s = reply_now r (clear_local_list s)"
| "execute r (Cmd_InstallChargingProfile i p) s = reply_now r (install_charging_profile i p s)"
| "execute r (Cmd_ClearChargingProfiles n) s = reply_now r (clear_charging_profiles n s)"
| "execute r (Cmd_SendSecurityEvent ty tech) s = reply_now r (send_security_event ty tech s)"
| "execute r Cmd_Shutdown s = answer r (Inr Out_Done) (shutdown s)"

fun run_handler :: "responder \<Rightarrow> inbound \<Rightarrow> station \<Rightarrow> station" where
  "run_handler r (In_ChangeAvailability i kind) s = change_availability r i kind s"
| "run_handler r (In_UnlockConnector i) s = unlock_connector r i s"
| "run_handler r (In_ReserveNow rq) s = reserve_now_handler r rq s"
| "run_handler r (In_CancelReservation n) s = cancel_reservation_handler r n s"
| "run_handler r (In_RemoteStart i tag p) s = remote_start r i tag p s"
| "run_handler r (In_RemoteStop tx) s = remote_stop r tx s"
| "run_handler r (In_Reset kind) s = reset r kind s"
| "run_handler r (In_SetChargingProfile i p) s = set_profile_handler r i p s"
| "run_handler r (In_ClearChargingProfile f) s = clear_profile_handler r f s"
| "run_handler r (In_GetCompositeSchedule i d u) s = composite_handler r i d u s"
| "run_handler r (In_ChangeConfiguration key value) s = change_configuration r key value s"
| "run_handler r (In_GetConfiguration key) s = get_configuration_request r key s"
| "run_handler r In_ClearCache s = clear_cache_handler r s"
| "run_handler r (In_DataTransfer vendor m data) s = data_transfer r vendor data s"
| "run_handler r In_GetLocalListVersion s = get_version_handler r s"
| "run_handler r (In_SendLocalList rq) s = send_local_list_handler r rq s"
| "run_handler r (In_TriggerMessage message i) s = trigger_message r message i s"
| "run_handler r (In_ExtendedTriggerMessage message i) s = extended_trigger_message r message i s"
| "run_handler r (In_GetDiagnostics n d) s = get_diagnostics r n d s"
| "run_handler r (In_GetLog rq) s = get_log r rq s"
| "run_handler r (In_UpdateFirmware n d t) s = update_firmware r n d t s"
| "run_handler r (In_SignedUpdateFirmware rq) s = signed_update_firmware r rq s"
| "run_handler r (In_InstallCertificate kind pem) s = install_certificate r kind pem s"
| "run_handler r (In_DeleteCertificate wanted) s = delete_certificate r wanted s"
| "run_handler r (In_GetInstalledCertificateIds kind) s = get_installed_certificate_ids r kind s"
| "run_handler r (In_CertificateSigned chain) s = certificate_signed r chain s"
| "run_handler r (In_Undecodable action e) s =
     respond_error r TypeConstraintViolation (''invalid '' @ action @ '' payload: '' @ e) s"
| "run_handler r (In_Other action) s =
     (if is_some_and (find_action action) (\<lambda>a. central_system_may_send (snd a))
      then respond_error r Err_NotSupported (action @ '' is not supported'') s
      else respond_error r NotImplemented (action @ '' is not implemented'') s)"

definition dispatch_incoming :: "responder \<Rightarrow> inbound \<Rightarrow> station \<Rightarrow> station" where
  "dispatch_incoming r q s =
     (let (s1, run) = (if inbound_action q \<in> set INBOUND_ACTIONS then apply_rule r (inbound_action q) s
                       else (s, True))
      in if run then run_handler r q s1 else s1)"

fun on_timer :: "timer_key \<Rightarrow> station \<Rightarrow> station" where
  "on_timer T_Heartbeat s = on_heartbeat_timer s"
| "on_timer T_Reconnect s = on_reconnect_timer s"
| "on_timer T_BootRetry s = on_boot_retry_timer s"
| "on_timer (T_StatusDebounce i) s = status_timer_fired i s"
| "on_timer T_PersistFlush s = flush_persistence s"
| "on_timer (T_ReservationExpiry i) s = on_reservation_timer s"
| "on_timer (T_MeterPeriodic i) s = on_meter_periodic i s"
| "on_timer T_MeterAligned s = on_meter_aligned s"
| "on_timer T_HardReset s = on_hard_reset_timer s"
| "on_timer T_SyncRetry s = on_sync_retry_timer s"
| "on_timer T_Diagnostics s = on_diagnostics_timer s"
| "on_timer T_Firmware s = on_firmware_timer s"
| "on_timer T_LogUpload s = on_log_timer s"
| "on_timer T_SignedFirmware s = on_signed_firmware_timer s"
| "on_timer T_CertSigning s = on_cert_signing_timer s"

fun handle :: "wake \<Rightarrow> station \<Rightarrow> station" where
  "handle (Command r c) s = execute r c s"
| "handle (Inbound r q) s = dispatch_incoming r q s"
| "handle (Link_Closed code) s = on_closed code s"
| "handle (Connect_Result gen failure) s = on_connect_result gen failure s"
| "handle (Call_Done token gen res) s = on_call_done token gen res s"
| "handle (Saved ok) s = on_saved ok s"
| "handle (Timer k) s = on_timer k (timer_cancel k s)"

text \<open>
  The clocks move, the meters settle, the handler runs, the meters settle again (after \<open>Cmd_Shutdown\<close> the
  loop ends before that).
\<close>

definition turn :: "instant \<Rightarrow> nat \<Rightarrow> wake \<Rightarrow> station \<Rightarrow> station" where
  "turn now ticks w s =
     settle_meters (handle w (settle_meters (s\<lparr>s_now := now, s_mono := ticks\<rparr>)))"

end
