(* ===== verification/Station_Frame.thy ===== *)
theory Station_Frame
  imports Actor
begin

text \<open>
  Frame laws of the station.  Most operations called from the handlers (status notifications,
  persistence, meters, timers) leave the transaction machinery alone; \<open>core\<close> is the part of the
  state they keep, and \<open>grow\<close> says what they may add: CALLs whose failure changes nothing but
  trackers and events, sent only when the registration gate is open.
\<close>

named_theorems core_simps \<open>operations that keep the core\<close>
named_theorems grow_intros \<open>operations that only grow calls and effects\<close>

subsection \<open>The core\<close>

definition no_meter :: "connector \<Rightarrow> connector" where
  "no_meter c = c\<lparr>c_meter_wh := 0\<rparr>"

definition sync_part :: "station \<Rightarrow> nat \<times> u64 list \<times> bool" where
  "sync_part s = (s_sync_outstanding s, s_sync_keys s, s_sync_boot s)"

definition core where
  "core s =
     (map no_meter (s_connectors s), no_meter (s_charge_point s), s_queue s, s_next_local s,
      s_registration s, s_link s, s_registry s, sync_part s, s_sample_calls s, s_now s)"

lemma no_meter_fields [simp]:
  "c_id (no_meter c) = c_id c" "c_transaction (no_meter c) = c_transaction c"
  "c_status (no_meter c) = c_status c" "c_availability (no_meter c) = c_availability c"
  "c_pending_availability (no_meter c) = c_pending_availability c"
  "c_ev_connected (no_meter c) = c_ev_connected c" "c_reservation (no_meter c) = c_reservation c"
  "c_last_id_tag (no_meter c) = c_last_id_tag c"
  "no_meter (c\<lparr>c_meter_wh := n\<rparr>) = no_meter c"
  by (simp_all add: no_meter_def)

lemma core_fieldsD:
  assumes "core s' = core s"
  shows "map no_meter (s_connectors s') = map no_meter (s_connectors s)"
    "s_queue s' = s_queue s" "s_next_local s' = s_next_local s"
    "s_registration s' = s_registration s" "s_link s' = s_link s" "s_registry s' = s_registry s"
    "s_sync_outstanding s' = s_sync_outstanding s" "s_sync_keys s' = s_sync_keys s"
    "s_sync_boot s' = s_sync_boot s" "s_sample_calls s' = s_sample_calls s" "s_now s' = s_now s"
    "no_meter (s_charge_point s') = no_meter (s_charge_point s)"
  using assms unfolding core_def sync_part_def prod.inject by blast+

lemma core_can_talk: "core s' = core s \<Longrightarrow> can_talk s' = can_talk s"
  using core_fieldsD(4,5) [of s' s] by (simp add: can_talk_def)

lemma core_ids: "core s' = core s \<Longrightarrow> map c_id (s_connectors s') = map c_id (s_connectors s)"
proof -
  assume "core s' = core s"
  then have "map c_id (map no_meter (s_connectors s')) = map c_id (map no_meter (s_connectors s))"
    using core_fieldsD(1) [of s' s] by simp
  then show ?thesis by (simp add: comp_def)
qed

lemma map_no_meter_find:
  "map no_meter xs = map no_meter ys \<Longrightarrow>
   map_option no_meter (find (\<lambda>c. c_id c = i) xs) = map_option no_meter (find (\<lambda>c. c_id c = i) ys)"
proof (induction xs arbitrary: ys)
  case (Cons x xs)
  then obtain y zs where ys: "ys = y # zs" and xy: "no_meter x = no_meter y"
    and rest: "map no_meter xs = map no_meter zs" by (cases ys) auto
  have "c_id x = c_id y" using xy by (metis no_meter_fields(1))
  with Cons.IH [OF rest] ys xy show ?case by simp
qed simp

lemma core_find_connector:
  "core s' = core s \<Longrightarrow>
   map_option no_meter (find_connector s' i) = map_option no_meter (find_connector s i)"
  using map_no_meter_find [of "s_connectors s'" "s_connectors s" i] core_fieldsD(1,12) [of s' s]
  by (simp add: find_connector_def)

lemma core_findD:
  assumes "core s' = core s" and "find_connector s i = Some c"
  obtains c' where "find_connector s' i = Some c'" "no_meter c' = no_meter c"
  using core_find_connector [OF assms(1), of i] assms(2) by auto

subsection \<open>Growth\<close>

fun inert :: "cont \<Rightarrow> bool" where
  "inert (K_Status _ _ _) = True"
| "inert (K_Security _) = True"
| "inert K_StopFor = True"
| "inert K_Ignore = True"
| "inert (K_User _ _) = True"
| "inert (K_Sign _ _ _ _) = True"
| "inert _ = False"

fun harmless :: "bool \<Rightarrow> effect \<Rightarrow> bool" where
  "harmless talk (Sent _ rq) = (talk \<and> rq \<noteq> Req_Boot)"
| "harmless talk (Respond _ _) = False"
| "harmless talk (Dropped _) = False"
| "harmless talk (Refuse _ _ _) = False"
| "harmless talk (Rule_Answer _ _) = False"
| "harmless talk (Abandon _) = False"
| "harmless talk (Hold_Back _ _) = False"
| "harmless talk (Sent_Raw _ _ _ _) = False"
| "harmless talk _ = True"

definition fresh_calls :: "(cont \<Rightarrow> bool) \<Rightarrow> nat \<Rightarrow> nat \<Rightarrow> (nat \<times> pending_call) list \<Rightarrow> bool" where
  "fresh_calls P lo hi nc =
     (lo \<le> hi \<and> sorted_wrt (<) (map fst nc)
      \<and> (\<forall>c\<in>set nc. lo \<le> fst c \<and> fst c < hi \<and> P (pc_cont (snd c))))"

definition grow :: "station \<Rightarrow> station \<Rightarrow> bool" where
  "grow s s' =
     (\<exists>nc outs. s_calls s' = s_calls s @ nc \<and> s_out s' = s_out s @ outs
        \<and> fresh_calls inert (s_next_call_token s) (s_next_call_token s') nc
        \<and> (nc = [] \<or> can_talk s) \<and> (\<forall>e\<in>set outs. harmless (can_talk s) e))"

lemma fresh_calls_append:
  "fresh_calls P a b xs \<Longrightarrow> fresh_calls P b c ys \<Longrightarrow> fresh_calls P a c (xs @ ys)"
  by (force simp: fresh_calls_def sorted_wrt_append)

lemma fresh_calls_Nil [simp]: "fresh_calls P a b [] = (a \<le> b)"
  by (auto simp: fresh_calls_def)

lemma grow_refl [simp, grow_intros]: "grow s s"
  by (auto simp: grow_def)

lemma grow_trans:
  assumes "grow s t" and "core t = core s" and "grow t u"
  shows "grow s u"
proof -
  obtain n1 o1 where 1: "s_calls t = s_calls s @ n1" "s_out t = s_out s @ o1"
    "fresh_calls inert (s_next_call_token s) (s_next_call_token t) n1" "n1 = [] \<or> can_talk s"
    "\<forall>e\<in>set o1. harmless (can_talk s) e"
    using assms(1) by (auto simp: grow_def)
  obtain n2 o2 where 2: "s_calls u = s_calls t @ n2" "s_out u = s_out t @ o2"
    "fresh_calls inert (s_next_call_token t) (s_next_call_token u) n2" "n2 = [] \<or> can_talk t"
    "\<forall>e\<in>set o2. harmless (can_talk t) e"
    using assms(3) by (auto simp: grow_def)
  have "can_talk t = can_talk s" by (rule core_can_talk [OF assms(2)])
  with 1 2 show ?thesis
    unfolding grow_def
    by (intro exI [of _ "n1 @ n2"] exI [of _ "o1 @ o2"]) (auto intro: fresh_calls_append)
qed

text \<open>Both together: what a handler may ignore.\<close>

definition quiet :: "station \<Rightarrow> station \<Rightarrow> bool" where
  "quiet s s' = (core s' = core s \<and> grow s s')"

lemma quiet_refl [simp]: "quiet s s"
  by (simp add: quiet_def)

lemma quiet_trans: "quiet s t \<Longrightarrow> quiet t u \<Longrightarrow> quiet s u"
  by (auto simp: quiet_def intro: grow_trans)

lemma quiet_if: "quiet s a \<Longrightarrow> quiet s b \<Longrightarrow> quiet s (if P then a else b)"
  by simp

lemma quiet_foldl: "(\<And>s x. quiet s (f s x)) \<Longrightarrow> quiet s (foldl f s xs)"
  by (induction xs arbitrary: s) (auto intro: quiet_trans)

text \<open>A change of fields outside the core, the calls and the effects.\<close>

lemma quiet_fields:
  "core s' = core s \<Longrightarrow> s_calls s' = s_calls s \<Longrightarrow> s_out s' = s_out s \<Longrightarrow>
   s_next_call_token s' = s_next_call_token s \<Longrightarrow> quiet s s'"
  by (auto simp: quiet_def grow_def)

named_theorems quiets \<open>operations that are quiet\<close>

lemma quiet_field_updates [quiets]:
  "quiet s (s\<lparr>s_persistence := p\<rparr>)" "quiet s (s\<lparr>s_security_events := evs\<rparr>)"
  "quiet s (s\<lparr>s_profiles := ps\<rparr>)" "quiet s (s\<lparr>s_invalid_limits := l\<rparr>)"
  "quiet s (s\<lparr>s_auth_cache := ac\<rparr>)" "quiet s (s\<lparr>s_startup_event_pending := b\<rparr>)"
  "quiet s (s\<lparr>s_meters := m\<rparr>)" "quiet s (s\<lparr>s_timers := ts\<rparr>)"
  "quiet s (s\<lparr>s_trackers := tr\<rparr>)" "quiet s (s\<lparr>s_sync_failures := sf\<rparr>)"
  "quiet s (s\<lparr>s_sync_failed := b\<rparr>)" "quiet s (s\<lparr>s_heartbeat_interval_secs := n\<rparr>)"
  "quiet s (s\<lparr>s_last_heartbeat_at := t\<rparr>)" "quiet s (s\<lparr>s_reset_retries := r\<rparr>)"
  "quiet s (s\<lparr>s_hard_reset_deadline := d\<rparr>)" "quiet s (s\<lparr>s_connection := c\<rparr>)"
  "quiet s (s\<lparr>s_availability := a\<rparr>)" "quiet s (s\<lparr>s_sample_overflow_warned := b\<rparr>)"
  "quiet s (s\<lparr>s_maintenance := mn\<rparr>)" "quiet s (s\<lparr>s_security := sy\<rparr>)"
  "quiet s (s\<lparr>s_response_rules := rs\<rparr>)" "quiet s (s\<lparr>s_local_list := ll\<rparr>)"
  by (rule quiet_fields; simp add: core_def sync_part_def)+

lemma quiet_emit: "harmless (can_talk s) e \<Longrightarrow> quiet s (emit e s)"
  by (auto simp: quiet_def grow_def emit_def core_def sync_part_def)

lemma quiet_small [quiets]:
  "quiet s (timer_set k d s)" "quiet s (timer_cancel k s)" "quiet s (timer_cancel_where P s)"
  "quiet s (timer_set_if_idle k d s)" "quiet s (set_tracker i t s)" "quiet s (answer r res s)"
  "quiet s (emit (Save b) s)" "quiet s (answer_opt ro res s)"
  "quiet s (upd_maintenance f s)" "quiet s (upd_security g s)" "quiet s (upd_secrets h s)"
  "quiet s (upd_certs c s)" "quiet s (emit (Open_Link n tp) s)" "quiet s (emit Hang_Up s)"
  by (auto simp: upd_maintenance_def upd_security_def upd_secrets_def upd_certs_def timer_set_def timer_cancel_def timer_cancel_where_def timer_set_if_idle_def
      set_tracker_def answer_def answer_opt_def intro: quiets quiet_emit split: option.split)

lemma quiet_mark_dirty [quiets]: "quiet s (mark_dirty s)"
  unfolding mark_dirty_def by (simp; intro conjI impI; (intro quiets [THEN [2] quiet_trans])?; simp)

lemma quiet_mark_secrets_dirty [quiets]: "quiet s (mark_secrets_dirty s)"
  unfolding mark_secrets_dirty_def by (intro quiets [THEN [2] quiet_trans] quiet_refl)

subsection \<open>Meters\<close>

lemma quiet_settle_meters [quiets]: "quiet s (settle_meters s)"
proof -
  have "quiet t (settle_one t ic)" for t ic
    by (auto simp: settle_one_def Let_def intro: quiets split: prod.splits option.splits)
  then show ?thesis by (simp add: settle_meters_def quiet_foldl)
qed

lemma flush_list_no_meter:
  "flush_list m cs = (m', cs', ch) \<Longrightarrow> map no_meter cs' = map no_meter cs"
  by (induction cs arbitrary: m m' cs' ch)
     (auto simp: Let_def split: option.splits if_splits prod.splits)

lemma quiet_flush_meters [quiets]: "quiet s (flush_meters s)"
proof -
  let ?s1 = "settle_meters s"
  obtain m cs ch where f: "flush_list (s_meters ?s1) (s_connectors ?s1) = (m, cs, ch)"
    by (metis prod_cases3)
  have "quiet ?s1 (?s1\<lparr>s_meters := m, s_connectors := cs\<rparr>)"
    using flush_list_no_meter [OF f] by (intro quiet_fields) (simp_all add: core_def sync_part_def)
  then have "quiet s (?s1\<lparr>s_meters := m, s_connectors := cs\<rparr>)"
    by (blast intro: quiet_trans quiet_settle_meters)
  with f show ?thesis
    by (auto simp: flush_meters_def Let_def intro: quiet_trans [OF _ quiet_mark_dirty])
qed

lemma quiet_station_meter_reading [quiets]: "quiet s (fst (station_meter_reading i b s))"
  by (auto simp: station_meter_reading_def Let_def split: prod.split intro!: quiets [THEN [2] quiet_trans])

lemma quiet_flush_persistence [quiets]: "quiet s (flush_persistence s)"
  by (auto simp: flush_persistence_def Let_def intro!: quiets [THEN [2] quiet_trans])

lemma quiet_flush_now [quiets]: "quiet s (flush_now s)"
  unfolding flush_now_def by (intro quiets [THEN [2] quiet_trans] quiet_refl)

lemma quiet_on_saved [quiets]: "quiet s (on_saved ok s)"
  by (auto simp: on_saved_def Let_def intro!: quiets [THEN [2] quiet_trans])

subsection \<open>CALLs whose failure is quiet\<close>

lemma call_refused_None_From_Station:
  "call_refused s a From_Station = None \<Longrightarrow> a \<noteq> ''BootNotification'' \<Longrightarrow> can_talk s"
  by (auto simp: call_refused_def may_send_def can_talk_def split: if_splits)

lemma call_refused_can_talk: "can_talk s \<Longrightarrow> call_refused s a From_Station = None"
  by (simp add: call_refused_def may_send_def can_talk_def)

lemma action_boot_iff: "action_name rq = ''BootNotification'' \<longleftrightarrow> rq = Req_Boot"
  by (cases rq) auto

lemma core_submit [core_simps]: "core (submit orig rq k s) = core s"
  by (simp add: submit_def emit_def core_def sync_part_def Let_def)

lemma submit_fields:
  "s_calls (submit orig rq k s) =
     s_calls s @ [(s_next_call_token s,
       \<lparr>pc_action = action_name rq,
        pc_attempts = (if orig \<noteq> Origin_Raw \<and> is_transaction_message (action_name rq)
          then transaction_message_attempts (s_registry s) else 1),
        pc_interval = (if orig \<noteq> Origin_Raw \<and> is_transaction_message (action_name rq)
          then transaction_message_retry_interval (s_registry s) else 0),
        pc_cont = k\<rparr>)]"
  "s_next_call_token (submit orig rq k s) = s_next_call_token s + 1"
  "s_out (submit orig rq k s) = s_out s @ [Sent (s_next_call_token s) rq]"
  by (simp_all add: submit_def emit_def Let_def)

lemma quiet_submit:
  assumes "inert k" and "can_talk s" and "rq \<noteq> Req_Boot"
  shows "quiet s (submit From_Station rq k s)"
proof -
  have "grow s (submit From_Station rq k s)"
    unfolding grow_def submit_fields using assms by (auto simp: fresh_calls_def)
  then show ?thesis by (simp add: quiet_def core_submit)
qed

lemma quiet_call:
  assumes "inert k" and "rq \<noteq> Req_Boot" and "\<And>e. quiet s (f e s)"
  shows "quiet s (call f From_Station rq k s)"
proof (cases "call_refused s (action_name rq) From_Station")
  case None
  with assms show ?thesis
    using call_refused_None_From_Station [OF None] action_boot_iff [of rq]
    by (simp add: call_def quiet_submit)
qed (simp add: call_def assms)

lemma quiet_status_failed [quiets]: "quiet s (status_failed i key ro e s)"
  unfolding status_failed_def by (intro quiets [THEN [2] quiet_trans] quiet_refl)

lemma quiet_dispatch_status [quiets]: "quiet s (dispatch_status i key t From_Station ro s)"
  unfolding dispatch_status_def
  by (rule quiet_trans [OF quiet_small(5)], rule quiet_call) (simp_all add: quiet_status_failed)

lemma quiet_status_changed [quiets]: "quiet s (status_changed i s)"
  unfolding status_changed_def Let_def
  by (auto split: option.split prod.split plan.split intro!: quiets [THEN [2] quiet_trans])

lemma quiet_status_timer_fired [quiets]: "quiet s (status_timer_fired i s)"
  unfolding status_timer_fired_def Let_def
  by (auto split: option.split prod.split intro!: quiets [THEN [2] quiet_trans])

lemma quiet_send_status_forced [quiets]: "quiet s (send_status_forced i From_Station ro s)"
  unfolding send_status_forced_def Let_def
  by (auto split: option.split intro!: quiets [THEN [2] quiet_trans])

lemma quiet_resend_all [quiets]: "quiet s (resend_all_statuses s)"
  unfolding resend_all_statuses_def by (rule quiet_foldl) (rule quiet_send_status_forced)

lemma quiet_flush_pending_statuses [quiets]: "quiet s (flush_pending_statuses s)"
  unfolding flush_pending_statuses_def
  by (rule quiet_foldl) (intro quiets [THEN [2] quiet_trans] quiet_refl)

lemma quiet_reset_status_tracking [quiets]: "quiet s (reset_status_tracking s)"
  unfolding reset_status_tracking_def by (intro quiets [THEN [2] quiet_trans] quiet_refl)

lemma quiet_security_failed [quiets]: "quiet s (security_failed ev e s)"
  unfolding security_failed_def by (auto intro!: quiets [THEN [2] quiet_trans])

lemma quiet_flush_security_events [quiets]: "quiet s (flush_security_events s)"
proof -
  have one: "quiet t (call (security_failed ev) From_Station (Req_Security ev) (K_Security ev) t)" for t ev
    by (rule quiet_call) (simp_all add: quiet_security_failed)
  have "quiet t (foldl (\<lambda>s' ev. call (security_failed ev) From_Station (Req_Security ev)
      (K_Security ev) s') t evs)" for t evs
    by (rule quiet_foldl) (rule one)
  then have fold: "quiet s t \<Longrightarrow> quiet s (foldl (\<lambda>s' ev. call (security_failed ev) From_Station
      (Req_Security ev) (K_Security ev) s') t evs)" for t evs
    by (blast intro: quiet_trans)
  show ?thesis
    unfolding flush_security_events_def
    by (auto intro!: fold quiets [THEN [2] quiet_trans])
qed

lemma quiet_security_event [quiets]: "quiet s (security_event ty tech s)"
  unfolding security_event_def by (intro quiets [THEN [2] quiet_trans] quiet_refl)

lemma quiet_reschedule_metering [quiets]: "quiet s (reschedule_metering s)"
proof -
  have "quiet t (reschedule_one n t i)" for n t i
    by (auto simp: reschedule_one_def intro: quiets)
  then have "quiet t (foldl (reschedule_one n) t is)" for n t "is" by (rule quiet_foldl)
  then show ?thesis
    unfolding reschedule_metering_def Let_def
    by (auto split: option.split intro!: quiets [THEN [2] quiet_trans])
qed

lemma quiet_finish_boot_accepted [quiets]: "quiet s (finish_boot_accepted s)"
  unfolding finish_boot_accepted_def Let_def
  by (auto intro!: quiets [THEN [2] quiet_trans])

lemma quiet_set_charging_profile [quiets]: "quiet s (fst (set_charging_profile i p s))"
  unfolding set_charging_profile_def Let_def
  by (auto split: prod.split intro!: quiets [THEN [2] quiet_trans])

lemma quiet_complete [quiets]: "quiet s (complete k res s)"
  by (cases k)
     (auto simp: install_remote_profile_def split: option.split sum.split outcome.split intro: quiets)

lemma quiet_end_profiles [quiets]: "quiet s (end_profiles tx s)"
  unfolding end_profiles_def
  by (auto split: prod.split intro!: quiets [THEN [2] quiet_trans])

lemma quiet_clear_invalid_limit [quiets]: "quiet s (clear_invalid_limit i s)"
  by (auto simp: clear_invalid_limit_def intro: quiets)

lemma quiet_limit_energy [quiets]: "quiet s (limit_energy_on_invalid_id i s)"
  unfolding limit_energy_on_invalid_id_def Let_def
  by (auto split: option.split intro!: quiets [THEN [2] quiet_trans])

lemma quiet_sync_failures [quiets]:
  "quiet s (clear_sync_failure k s)" "quiet s (record_sync_failure k e s)"
  unfolding clear_sync_failure_def record_sync_failure_def
  by (auto intro!: quiets [THEN [2] quiet_trans])

lemma quiet_apply_verdict [quiets]: "quiet s (fst (apply_verdict tag info s))"
  unfolding apply_verdict_def
  by (auto split: prod.split intro!: quiets [THEN [2] quiet_trans])

lemma quiet_send_stop_for [quiets]: "quiet s (send_stop_for tx m tag reason s)"
  unfolding send_stop_for_def by (rule quiet_call) simp_all

subsection \<open>Certificates\<close>

lemma quiet_reconnects [quiets]:
  "quiet s (schedule_reconnect_after_reply s)" "quiet s (reconnect_for_new_security_parameters s)"
  unfolding reconnect_for_new_security_parameters_def schedule_reconnect_after_reply_def
  by (auto intro!: quiets [THEN [2] quiet_trans])

lemma quiet_sign_series [quiets]:
  "quiet s (stop_sign_series s)" "quiet s (arm_cert_signing_retry i s)"
  "quiet s (restore_pending_key key previous s)"
  unfolding stop_sign_series_def arm_cert_signing_retry_def restore_pending_key_def
  by (auto split: option.split intro!: quiets [THEN [2] quiet_trans])

lemma quiet_sign_results [quiets]:
  "quiet s (sign_failed i key previous ro e s)" "quiet s (sign_answered i key previous ro status s)"
  unfolding sign_failed_def sign_answered_def Let_def
  by (auto intro!: quiets [THEN [2] quiet_trans])

lemma quiet_send_sign_certificate [quiets]: "quiet s (send_sign_certificate i ro s)"
proof (cases "current_series i s")
  case (Some x)
  let ?s = "mark_secrets_dirty (upd_secrets (\<lambda>y. y\<lparr>sx_pending_key_pem := Some (sg_key x)\<rparr>) s)"
  let ?p = "sx_pending_key_pem (sy_secrets (s_security s))"
  have "quiet s ?s" by (intro quiets [THEN [2] quiet_trans] quiet_refl)
  moreover have "quiet ?s (call (sign_failed i (sg_key x) ?p ro) From_Station
      (Req_SignCertificate (sg_csr x)) (K_Sign i (sg_key x) ?p ro) ?s)"
    by (rule quiet_call) (simp_all add: quiets)
  ultimately show ?thesis
    unfolding send_sign_certificate_def Some option.case Let_def by (rule quiet_trans)
qed (simp add: send_sign_certificate_def quiets)

lemma quiet_request_certificate [quiets]: "quiet s (request_certificate ro s)"
  unfolding request_certificate_def Let_def
  by (auto split: sum.split intro!: quiets [THEN [2] quiet_trans])

lemma quiet_on_cert_signing_timer [quiets]: "quiet s (on_cert_signing_timer s)"
  unfolding on_cert_signing_timer_def
  by (auto split: option.split intro!: quiets [THEN [2] quiet_trans])

lemma quiet_adopt_signed_certificate [quiets]: "quiet s (adopt_signed_certificate chain key s)"
  unfolding adopt_signed_certificate_def Let_def by (rule quiets)

lemma quiet_series_security_event [quiets]: "quiet s (series_security_event ty tech s)"
  unfolding series_security_event_def by (intro quiet_if quiets [THEN [2] quiet_trans] quiet_refl)

lemma quiet_report_connect_failure [quiets]: "quiet s (report_connect_failure e s)"
proof -
  have "quiet s (next_attempt e s)" unfolding next_attempt_def Let_def by (rule quiets)
  from quiet_trans [OF this] show ?thesis
    unfolding report_connect_failure_def Let_def
    by (simp split: connect_error.split option.split tls_failure.split)
      (simp add: quiet_series_security_event)
qed

lemma quiet_client_certificate_connected [quiets]: "quiet s (client_certificate_connected s)"
  unfolding client_certificate_connected_def Let_def
  by (intro quiet_if quiets [THEN [2] quiet_trans] quiet_refl)

lemma quiet_on_connection_established [quiets]: "quiet s (on_connection_established s)"
  unfolding on_connection_established_def by (intro quiets [THEN [2] quiet_trans] quiet_refl)

lemma quiet_on_tls_connected [quiets]: "quiet s (on_tls_connected s)"
proof (cases "drop_fallback (sy_certs (s_security s))")
  case (Pair certs dropped)
  show ?thesis
    unfolding on_tls_connected_def Let_def Pair prod.case
    by (intro quiet_if quiets [THEN [2] quiet_trans] quiet_refl)
qed

lemma quiet_established [quiets]: "quiet s (established s)"
  unfolding established_def by (rule quiet_trans [OF quiet_if quiet_on_connection_established]) (simp_all add: quiets)

lemma quiet_on_security_key_changed [quiets]: "quiet s (on_security_key_changed key s)"
  unfolding on_security_key_changed_def Let_def
  by (auto intro!: quiets [THEN [2] quiet_trans])

lemma quiet_send_security_event [quiets]: "quiet s (fst (send_security_event ty tech s))"
  by (auto simp: send_security_event_def split: option.split intro: quiets)

subsection \<open>Maintenance\<close>

lemma quiet_notify [quiets]: "rq \<noteq> Req_Boot \<Longrightarrow> quiet s (notify From_Station rq s)"
  unfolding notify_def by (rule quiet_call) simp_all

lemma quiet_reports [quiets]:
  "quiet s (report_diagnostics ds s)" "quiet s (report_firmware fs s)"
  "quiet s (report_log ls s)" "quiet s (report_signed_firmware sf s)"
  unfolding report_diagnostics_def report_firmware_def report_log_def report_signed_firmware_def
  by (rule quiet_trans [OF _ quiet_notify]; simp add: quiets)+

lemma quiet_arm_front [quiets]: "quiet s (arm_front k plan s)"
  by (auto simp: arm_front_def split: list.split intro: quiets)

lemma quiet_maintenance_timers [quiets]:
  "quiet s (on_diagnostics_timer s)" "quiet s (on_firmware_timer s)"
  "quiet s (on_log_timer s)" "quiet s (on_signed_firmware_timer s)"
  unfolding on_diagnostics_timer_def on_firmware_timer_def on_log_timer_def on_signed_firmware_timer_def
    signed_event_def Let_def
  by (auto split: list.split maintenance_step.split signed_firmware_status.split
      intro!: quiets [THEN [2] quiet_trans])

lemma quiet_cancels [quiets]:
  "quiet s (cancel_maintenance s)" "quiet s (cancel_log_upload s)" "quiet s (cancel_signed_firmware s)"
  "quiet s (cancel_simulations s)"
  unfolding cancel_maintenance_def cancel_log_upload_def cancel_signed_firmware_def cancel_simulations_def
  by (intro quiets [THEN [2] quiet_trans] quiet_refl)+

subsection \<open>Configuration and local edits\<close>

lemma quiet_on_configuration_changed [quiets]: "quiet s (on_configuration_changed key s)"
  unfolding on_configuration_changed_def restart_metering_def arm_heartbeat_def Let_def
  by (intro quiet_if quiets [THEN [2] quiet_trans] quiet_refl)

lemma quiet_local_list_request [quiets]: "quiet s (fst (apply_local_list_request rq s))"
  unfolding apply_local_list_request_def Let_def
  by (auto split: prod.split update_status.split intro!: quiets [THEN [2] quiet_trans])

lemma quiet_local_list_edits [quiets]:
  "quiet s (fst (set_local_list_entry tag info s))" "quiet s (fst (remove_local_list_entry tag s))"
  "quiet s (fst (clear_local_list s))"
  unfolding set_local_list_entry_def remove_local_list_entry_def clear_local_list_def
    apply_local_list_edit_def
  by (auto intro: quiets)

lemma quiet_profile_edits [quiets]:
  "quiet s (fst (install_charging_profile i p s))" "quiet s (fst (clear_charging_profiles n s))"
  unfolding install_charging_profile_def clear_charging_profiles_def
  using quiet_set_charging_profile [of s i p]
  by (auto split: prod.split intro!: quiets [THEN [2] quiet_trans])

lemma quiet_rule_edits [quiets]:
  "quiet s (fst (set_response_rule rule s))" "quiet s (fst (clear_response_rules action s))"
  unfolding set_response_rule_def clear_response_rules_def
  by (auto split: sum.split intro: quiets)

lemma quiet_user_call [quiets]: "rq \<noteq> Req_Boot \<Longrightarrow> quiet s (user_call rq r s)"
  unfolding user_call_def by (rule quiet_call) (simp_all add: quiets)

lemma quiet_finish_persistence [quiets]: "quiet s (finish_persistence s)"
  unfolding finish_persistence_def Let_def by (auto intro!: quiets [THEN [2] quiet_trans])

end
