(* ===== verification/Station_Inv.thy ===== *)
theory Station_Inv
  imports Station_Frame
begin

text \<open>
  The invariant of the station's transaction machinery.  \<open>Inv K s\<close> says that every transaction a
  connector holds is accounted for: a stop in progress has its CALL in flight, a start without an
  id of the central system is in flight, queued, or reported as dropped.  \<open>K\<close> lists the
  continuations that are neither run nor kept in \<open>s_calls\<close> any more: the one being run when a CALL
  completes, the rest of them while the link goes down.
\<close>

subsection \<open>What is in flight\<close>

definition conts :: "station \<Rightarrow> cont list" where
  "conts s = map (pc_cont \<circ> snd) (s_calls s)"

definition flight :: "cont list \<Rightarrow> station \<Rightarrow> cont set" where
  "flight K s = set K \<union> set (conts s)"

fun starts :: "connector_id \<Rightarrow> tx_id \<Rightarrow> cont \<Rightarrow> bool" where
  "starts i tx (K_Start j local p k) = (j = i \<and> local = tx)"
| "starts i tx _ = False"

fun stops :: "connector_id \<Rightarrow> tx_id \<Rightarrow> cont \<Rightarrow> bool" where
  "stops i tx (K_Stop j t tag st m info k) = (j = i \<and> t = tx)"
| "stops i tx _ = False"

definition queued_start :: "station \<Rightarrow> connector_id \<Rightarrow> u64 \<Rightarrow> bool" where
  "queued_start s i key =
     (\<exists>e\<in>set (s_queue s). ox_key e = key \<and> ox_connector e = i \<and> ox_start_pending e)"

definition dropped_start :: "station \<Rightarrow> connector_id \<Rightarrow> u64 \<Rightarrow> bool" where
  "dropped_start s i key =
     (\<exists>d. Dropped d \<in> set (s_out s) \<and> ox_key d = key \<and> ox_connector d = i \<and> ox_start_pending d)"

fun tx_ok :: "cont list \<Rightarrow> station \<Rightarrow> connector_id \<Rightarrow> transaction_state \<Rightarrow> bool" where
  "tx_ok K s i Idle = True"
| "tx_ok K s i (Active a) = (\<not> is_local (at_tx_id a))"
| "tx_ok K s i (Stopping x) =
     (\<not> is_local (st_tx_id x) \<and> (\<exists>k\<in>flight K s. stops i (st_tx_id x) k))"
| "tx_ok K s i (PendingStart p) =
     (\<exists>key. ps_tx_id p = Local key
        \<and> ((\<exists>k\<in>flight K s. starts i (Local key) k) \<or> queued_start s i key \<or> dropped_start s i key))"

text \<open>A queued entry carries its key as local id exactly while its start is pending.\<close>

definition entry_wf :: "u64 \<Rightarrow> offline_tx \<Rightarrow> bool" where
  "entry_wf n e =
     (ox_key e \<le> n
      \<and> (if ox_start_pending e then ox_tx_id e = Local (ox_key e) else \<not> is_local (ox_tx_id e)))"

fun cont_ok :: "u64 \<Rightarrow> offline_queue \<Rightarrow> cont \<Rightarrow> bool" where
  "cont_ok n q (K_Start i local p k) =
     (\<exists>key. local = Local key \<and> ps_tx_id p = local \<and> key \<le> n \<and> key \<notin> set (oq_keys q))"
| "cont_ok n q (K_Stop i tx tag st m info k) = (\<not> is_local tx)"
| "cont_ok n q (K_SyncStop key) =
     (key \<le> n \<and> (\<forall>e\<in>set q. ox_key e = key \<longrightarrow> \<not> ox_start_pending e))"
| "cont_ok n q _ = True"

definition drops_ok :: "station \<Rightarrow> bool" where
  "drops_ok s =
     (\<forall>d. Dropped d \<in> set (s_out s) \<longrightarrow> ox_key d \<le> s_next_local s \<and> ox_key d \<notin> set (oq_keys (s_queue s)))"

definition queue_ok :: "station \<Rightarrow> bool" where
  "queue_ok s =
     (queue_wf (s_queue s) \<and> length (s_queue s) \<le> MAX_QUEUED_TRANSACTIONS
      \<and> (\<forall>e\<in>set (s_queue s). entry_wf (s_next_local s) e) \<and> drops_ok s)"

definition ids_ok :: "station \<Rightarrow> bool" where
  "ids_ok s = (map c_id (s_connectors s) = [1..<Suc (length (s_connectors s))])"

lemma ids_okD:
  assumes "ids_ok s"
  shows "distinct (map c_id (s_connectors s))" "c \<in> set (s_connectors s) \<Longrightarrow> c_id c \<noteq> 0"
proof -
  have eq: "map c_id (s_connectors s) = [1..<Suc (length (s_connectors s))]"
    using assms by (simp only: ids_ok_def)
  show "distinct (map c_id (s_connectors s))" unfolding eq by (rule distinct_upt)
  assume "c \<in> set (s_connectors s)"
  then have "c_id c \<in> set (map c_id (s_connectors s))" by simp
  then show "c_id c \<noteq> 0" unfolding eq by auto
qed

text \<open>Tokens are fresh, and those kept for samples belong to samples.\<close>

fun is_sample :: "cont \<Rightarrow> bool" where
  "is_sample (K_Sample _ _) = True"
| "is_sample _ = False"

definition tokens_ok :: "station \<Rightarrow> bool" where
  "tokens_ok s =
     (sorted_wrt (<) (map fst (s_calls s))
      \<and> (\<forall>t\<in>fst ` set (s_calls s) \<union> set (s_sample_calls s). t < s_next_call_token s)
      \<and> (\<forall>(t, pc)\<in>set (s_calls s). t \<in> set (s_sample_calls s) \<longrightarrow> is_sample (pc_cont pc)))"

definition Inv :: "cont list \<Rightarrow> station \<Rightarrow> bool" where
  "Inv K s =
     (ids_ok s \<and> queue_ok s \<and> tokens_ok s
      \<and> (\<forall>c\<in>set (s_connectors s). tx_ok K s (c_id c) (c_transaction c))
      \<and> (\<forall>k\<in>flight K s. cont_ok (s_next_local s) (s_queue s) k))"

lemma InvD:
  assumes "Inv K s"
  shows "ids_ok s" "queue_ok s"
    "c \<in> set (s_connectors s) \<Longrightarrow> tx_ok K s (c_id c) (c_transaction c)"
    "k \<in> flight K s \<Longrightarrow> cont_ok (s_next_local s) (s_queue s) k"
    "tokens_ok s"
  using assms by (auto simp: Inv_def)

lemma tx_ok_mono:
  "tx_ok K s i t \<Longrightarrow> flight K s \<subseteq> flight K' s' \<Longrightarrow>
   (\<And>key. queued_start s i key \<Longrightarrow> queued_start s' i key \<or> dropped_start s' i key) \<Longrightarrow>
   (\<And>key. dropped_start s i key \<Longrightarrow> dropped_start s' i key) \<Longrightarrow> tx_ok K' s' i t"
proof (cases t)
  case (PendingStart p)
  then show "tx_ok K s i t \<Longrightarrow> flight K s \<subseteq> flight K' s' \<Longrightarrow>
   (\<And>key. queued_start s i key \<Longrightarrow> queued_start s' i key \<or> dropped_start s' i key) \<Longrightarrow>
   (\<And>key. dropped_start s i key \<Longrightarrow> dropped_start s' i key) \<Longrightarrow> tx_ok K' s' i t"
    by simp blast
qed auto

lemma cont_ok_mono:
  "cont_ok n q k \<Longrightarrow> n \<le> n' \<Longrightarrow>
   (\<And>e'. e' \<in> set q' \<Longrightarrow> ox_key e' \<le> n \<Longrightarrow>
      \<exists>e\<in>set q. ox_key e = ox_key e' \<and> (ox_start_pending e' \<longrightarrow> ox_start_pending e)) \<Longrightarrow>
   cont_ok n' q' k"
  by (cases k) (fastforce simp: oq_keys_def image_iff)+

subsection \<open>Calm steps\<close>

definition tx_view :: "station \<Rightarrow> (connector_id \<times> transaction_state) list" where
  "tx_view s = map (\<lambda>c. (c_id c, c_transaction c)) (s_connectors s)"

text \<open>What the invariant cannot see.\<close>

definition calm :: "station \<Rightarrow> station \<Rightarrow> bool" where
  "calm s s' =
     (tx_view s' = tx_view s \<and> s_queue s' = s_queue s \<and> s_next_local s \<le> s_next_local s'
      \<and> set (conts s) \<subseteq> set (conts s') \<and> (\<forall>k\<in>set (conts s') - set (conts s). inert k)
      \<and> set (s_out s) \<subseteq> set (s_out s') \<and> (tokens_ok s \<longrightarrow> tokens_ok s')
      \<and> (\<forall>d. Dropped d \<in> set (s_out s') \<longrightarrow> Dropped d \<in> set (s_out s)))"

lemma calm_refl [simp]: "calm s s"
  by (simp add: calm_def)

lemma calm_trans:
  assumes "calm s t" and "calm t u"
  shows "calm s u"
proof -
  have 1: "tx_view t = tx_view s" "s_queue t = s_queue s" "s_next_local s \<le> s_next_local t"
    "set (conts s) \<subseteq> set (conts t)" "\<forall>k\<in>set (conts t) - set (conts s). inert k"
    "set (s_out s) \<subseteq> set (s_out t)" "tokens_ok s \<longrightarrow> tokens_ok t"
    "\<forall>d. Dropped d \<in> set (s_out t) \<longrightarrow> Dropped d \<in> set (s_out s)"
    using assms(1) unfolding calm_def by blast+
  have 2: "tx_view u = tx_view t" "s_queue u = s_queue t" "s_next_local t \<le> s_next_local u"
    "set (conts t) \<subseteq> set (conts u)" "\<forall>k\<in>set (conts u) - set (conts t). inert k"
    "set (s_out t) \<subseteq> set (s_out u)" "tokens_ok t \<longrightarrow> tokens_ok u"
    "\<forall>d. Dropped d \<in> set (s_out u) \<longrightarrow> Dropped d \<in> set (s_out t)"
    using assms(2) unfolding calm_def by blast+
  show ?thesis
    unfolding calm_def
  proof (intro conjI)
    show "\<forall>k\<in>set (conts u) - set (conts s). inert k" using 1(5) 2(5) by blast
    show "s_next_local s \<le> s_next_local u" using 1(3) 2(3) by simp
    show "set (conts s) \<subseteq> set (conts u)" using 1(4) 2(4) by (rule subset_trans)
    show "set (s_out s) \<subseteq> set (s_out u)" using 1(6) 2(6) by (rule subset_trans)
    show "tokens_ok s \<longrightarrow> tokens_ok u" using 1(7) 2(7) by blast
    show "\<forall>d. Dropped d \<in> set (s_out u) \<longrightarrow> Dropped d \<in> set (s_out s)" using 1(8) 2(8) by blast
  qed (simp_all add: 1(1,2) 2(1,2))
qed

lemma core_tx_view: "core s' = core s \<Longrightarrow> tx_view s' = tx_view s"
proof -
  assume "core s' = core s"
  then have "map (\<lambda>c. (c_id c, c_transaction c)) (map no_meter (s_connectors s'))
      = map (\<lambda>c. (c_id c, c_transaction c)) (map no_meter (s_connectors s))"
    using core_fieldsD(1) [of s' s] by simp
  then show ?thesis by (simp add: tx_view_def comp_def)
qed

lemma harmless_Dropped: "harmless talk e \<Longrightarrow> e \<noteq> Dropped d"
  by (cases e) auto

lemma tokens_ok_fresh:
  assumes "tokens_ok s" and "s_calls s' = s_calls s @ nc"
    and "fresh_calls P (s_next_call_token s) (s_next_call_token s') nc"
    and "s_sample_calls s' = s_sample_calls s"
  shows "tokens_ok s'"
  unfolding tokens_ok_def
proof (intro conjI)
  have old: "\<And>t. t \<in> fst ` set (s_calls s) \<union> set (s_sample_calls s) \<Longrightarrow> t < s_next_call_token s"
    and le: "s_next_call_token s \<le> s_next_call_token s'"
    and new: "\<And>c. c \<in> set nc \<Longrightarrow> s_next_call_token s \<le> fst c \<and> fst c < s_next_call_token s'"
    using assms(1,3) by (auto simp: tokens_ok_def fresh_calls_def)
  show "sorted_wrt (<) (map fst (s_calls s'))"
    using assms(1,2,3) old new by (fastforce simp: tokens_ok_def fresh_calls_def sorted_wrt_append)
  show "\<forall>t\<in>fst ` set (s_calls s') \<union> set (s_sample_calls s'). t < s_next_call_token s'"
    using assms(2,4) old le new by (fastforce simp: image_Un)
  show "\<forall>(t, pc)\<in>set (s_calls s'). t \<in> set (s_sample_calls s') \<longrightarrow> is_sample (pc_cont pc)"
    using assms(1,2,4) old new by (fastforce simp: tokens_ok_def)
qed

lemma tokens_ok_same:
  "s_calls s' = s_calls s \<Longrightarrow> s_next_call_token s' = s_next_call_token s \<Longrightarrow>
   s_sample_calls s' = s_sample_calls s \<Longrightarrow> tokens_ok s' = tokens_ok s"
  by (simp add: tokens_ok_def)

lemma quiet_calm: "quiet s s' \<Longrightarrow> calm s s'"
proof -
  assume q: "quiet s s'"
  then obtain nc outs where g: "s_calls s' = s_calls s @ nc" "s_out s' = s_out s @ outs"
    "fresh_calls inert (s_next_call_token s) (s_next_call_token s') nc"
    "\<forall>e\<in>set outs. harmless (can_talk s) e"
    by (auto simp: quiet_def grow_def)
  have c: "core s' = core s" using q by (simp add: quiet_def)
  have "\<forall>k\<in>set (conts s') - set (conts s). inert k"
    using g(1,3) by (auto simp: conts_def fresh_calls_def)
  moreover have "\<forall>d. Dropped d \<in> set (s_out s') \<longrightarrow> Dropped d \<in> set (s_out s)"
    using g(2,4) harmless_Dropped by fastforce
  moreover have "set (conts s) \<subseteq> set (conts s')" "set (s_out s) \<subseteq> set (s_out s')"
    using g by (auto simp: conts_def)
  ultimately show ?thesis
    unfolding calm_def
    using core_tx_view [OF c] core_fieldsD(2,3,10) [OF c] tokens_ok_fresh [OF _ g(1,3)] by simp
qed

lemma inert_cont_ok: "inert k \<Longrightarrow> cont_ok n q k"
  by (cases k) auto

lemma tx_view_ids: "tx_view s' = tx_view s \<Longrightarrow> map c_id (s_connectors s') = map c_id (s_connectors s)"
proof -
  assume "tx_view s' = tx_view s"
  then have "map fst (tx_view s') = map fst (tx_view s)" by simp
  then show ?thesis by (simp add: tx_view_def comp_def)
qed

lemma calm_flight: "calm s s' \<Longrightarrow> flight K s \<subseteq> flight K s'"
  by (auto simp: calm_def flight_def)

lemma entry_wf_mono: "entry_wf n e \<Longrightarrow> n \<le> m \<Longrightarrow> entry_wf m e"
  by (auto simp: entry_wf_def)

lemma Inv_calm:
  assumes i: "Inv K s" and c: "calm s s'"
  shows "Inv K s'"
proof -
  have v: "tx_view s' = tx_view s" and q: "s_queue s' = s_queue s"
    and n: "s_next_local s \<le> s_next_local s'"
    and d: "\<And>x. Dropped x \<in> set (s_out s') \<longleftrightarrow> Dropped x \<in> set (s_out s)"
    using c by (auto simp: calm_def)
  have "ids_ok s'"
    using InvD(1) [OF i] tx_view_ids [OF v] map_eq_imp_length_eq [OF tx_view_ids [OF v]]
    by (simp only: ids_ok_def)
  moreover have "queue_ok s'"
    using InvD(2) [OF i] q n d by (force simp: queue_ok_def drops_ok_def intro: entry_wf_mono)
  moreover have "tx_ok K s' (c_id x) (c_transaction x)" if "x \<in> set (s_connectors s')" for x
  proof -
    have "(c_id x, c_transaction x) \<in> set (tx_view s)"
      using that v by (metis (mono_tags, lifting) image_eqI list.set_map tx_view_def)
    then have "tx_ok K s (c_id x) (c_transaction x)"
      using i by (auto simp: tx_view_def Inv_def)
    then show ?thesis
      by (rule tx_ok_mono) (auto simp: queued_start_def dropped_start_def q d calm_flight [OF c, of K, THEN subsetD])
  qed
  moreover have "cont_ok (s_next_local s') (s_queue s') k" if "k \<in> flight K s'" for k
  proof (cases "k \<in> flight K s")
    case True
    from InvD(4) [OF i this] n q show ?thesis by (auto intro: cont_ok_mono)
  next
    case False
    with that c have "inert k" by (auto simp: calm_def flight_def)
    then show ?thesis by (rule inert_cont_ok)
  qed
  moreover have "tokens_ok s'" using InvD(5) [OF i] c by (simp add: calm_def)
  ultimately show ?thesis by (simp add: Inv_def)
qed

lemma Inv_quiet: "Inv K s \<Longrightarrow> quiet s s' \<Longrightarrow> Inv K s'"
  by (blast intro: Inv_calm quiet_calm)

subsection \<open>Continuations come and go\<close>

lemma flight_Cons: "flight (k # K) s = insert k (flight K s)"
  by (simp add: flight_def)

lemma Inv_add: "Inv K s \<Longrightarrow> cont_ok (s_next_local s) (s_queue s) k \<Longrightarrow> Inv (k # K) s"
  unfolding Inv_def flight_Cons
  by (auto intro: tx_ok_mono simp: flight_Cons subset_insertI)

lemma conts_submit [simp]: "conts (submit orig rq k s) = conts s @ [k]"
  by (simp add: conts_def submit_fields)

lemma submit_other [simp]:
  "s_connectors (submit orig rq k s) = s_connectors s" "s_queue (submit orig rq k s) = s_queue s"
  "s_next_local (submit orig rq k s) = s_next_local s"
  "Dropped d \<in> set (s_out (submit orig rq k s)) \<longleftrightarrow> Dropped d \<in> set (s_out s)"
  by (simp_all add: submit_def emit_def Let_def)

lemma Inv_cong:
  assumes "Inv K s" and "s_connectors s' = s_connectors s" and "s_queue s' = s_queue s"
    and "s_next_local s' = s_next_local s" and "flight K' s' = flight K s"
    and "\<And>d. Dropped d \<in> set (s_out s') \<longleftrightarrow> Dropped d \<in> set (s_out s)"
    and "tokens_ok s \<Longrightarrow> tokens_ok s'"
  shows "Inv K' s'"
proof -
  have "tx_ok K' s' i t" if "tx_ok K s i t" for i t
    using that assms by (auto intro!: tx_ok_mono [OF that] simp: queued_start_def dropped_start_def)
  then show ?thesis
    using assms by (auto simp: Inv_def ids_ok_def queue_ok_def drops_ok_def)
qed

lemma Inv_submit: "Inv (k # K) s \<Longrightarrow> Inv K (submit orig rq k s)"
proof -
  assume i: "Inv (k # K) s"
  have "tokens_ok s \<Longrightarrow> tokens_ok (submit orig rq k s)"
    by (erule tokens_ok_fresh [where P = "\<lambda>_. True", OF _ submit_fields(1)])
       (simp_all add: submit_fields(2) fresh_calls_def core_fieldsD(10) [OF core_submit])
  with i show ?thesis by (elim Inv_cong) (auto simp: flight_def)
qed

lemma Inv_call:
  assumes "Inv (k # K) s" and "\<And>e. Inv K (f e s)"
  shows "Inv K (call f orig rq k s)"
  using assms Inv_submit by (auto simp: call_def split: option.split)

text \<open>A continuation may go once no connector relies on it.\<close>

definition needed :: "cont \<Rightarrow> station \<Rightarrow> bool" where
  "needed k s =
     (\<exists>c\<in>set (s_connectors s). \<exists>tx. c_tx_id c = Some tx \<and> (starts (c_id c) tx k \<or> stops (c_id c) tx k))"

lemma Inv_unneeded:
  assumes i: "Inv (k # K) s" and n: "\<not> needed k s"
  shows "Inv K s"
proof -
  have "tx_ok K s (c_id c) (c_transaction c)" if c: "c \<in> set (s_connectors s)" for c
  proof (cases "c_transaction c")
    case (PendingStart p)
    with n c have "\<not> starts (c_id c) (ps_tx_id p) k" by (auto simp: needed_def c_tx_id_def)
    with InvD(3) [OF i c] PendingStart show ?thesis by (auto simp: flight_Cons)
  next
    case (Stopping x)
    with n c have "\<not> stops (c_id c) (st_tx_id x) k" by (auto simp: needed_def c_tx_id_def)
    with InvD(3) [OF i c] Stopping show ?thesis by (auto simp: flight_Cons)
  qed (use InvD(3) [OF i c] in auto)
  then show ?thesis using i by (auto simp: Inv_def flight_Cons)
qed

lemma Inv_drop:
  "Inv (k # K) s \<Longrightarrow> (\<And>i tx. \<not> starts i tx k) \<Longrightarrow> (\<And>i tx. \<not> stops i tx k) \<Longrightarrow> Inv K s"
  by (erule Inv_unneeded) (simp add: needed_def)

subsection \<open>Changing a connector\<close>

lemma update_connector_fields [simp]:
  "s_queue (update_connector i f s) = s_queue s" "s_next_local (update_connector i f s) = s_next_local s"
  "s_out (update_connector i f s) = s_out s" "s_calls (update_connector i f s) = s_calls s"
  "s_registry (update_connector i f s) = s_registry s" "s_link (update_connector i f s) = s_link s"
  "s_registration (update_connector i f s) = s_registration s"
  "s_sync_outstanding (update_connector i f s) = s_sync_outstanding s"
  "s_sync_keys (update_connector i f s) = s_sync_keys s" "s_now (update_connector i f s) = s_now s"
  "s_next_call_token (update_connector i f s) = s_next_call_token s"
  "s_sample_calls (update_connector i f s) = s_sample_calls s"
  by (simp_all add: update_connector_def)

lemma tokens_ok_update [simp]: "tokens_ok (update_connector i f s) = tokens_ok s"
  by (rule tokens_ok_same) simp_all

lemma conts_update [simp]: "conts (update_connector i f s) = conts s"
  by (simp add: conts_def)

lemma can_talk_update [simp]: "can_talk (update_connector i f s) = can_talk s"
  by (simp add: can_talk_def)

lemma tx_ok_fields:
  "s_queue s' = s_queue s \<Longrightarrow> s_out s' = s_out s \<Longrightarrow> s_calls s' = s_calls s \<Longrightarrow>
   tx_ok K s' i t = tx_ok K s i t"
  by (cases t) (simp_all add: flight_def conts_def queued_start_def dropped_start_def)

lemma in_update_firstD2:
  "y \<in> set (update_first P f xs) \<Longrightarrow> distinct (map g xs) \<Longrightarrow> (\<And>x. P x \<longleftrightarrow> g x = i) \<Longrightarrow> (\<And>x. g (f x) = g x) \<Longrightarrow>
   (y \<in> set xs \<and> \<not> P y) \<or> (\<exists>x\<in>set xs. P x \<and> y = f x)"
proof (induction xs)
  case (Cons x xs)
  show ?case
  proof (cases "P x")
    case True
    with Cons.prems have "y = f x \<or> y \<in> set xs" by simp
    then show ?thesis
    proof
      assume y: "y \<in> set xs"
      with Cons.prems(2) have "g y \<noteq> g x" by (auto simp: image_iff)
      with y True Cons.prems(3) show ?thesis by simp
    qed (use True in simp)
  next
    case False
    then have "y = x \<or> y \<in> set (update_first P f xs)" using Cons.prems(1) by simp
    then show ?thesis using Cons.IH Cons.prems False by auto
  qed
qed simp

lemma update_connector_in:
  assumes "ids_ok s" and "\<And>c. c_id (f c) = c_id c" and "y \<in> set (s_connectors (update_connector i f s))"
  shows "(y \<in> set (s_connectors s) \<and> c_id y \<noteq> i) \<or> (\<exists>c\<in>set (s_connectors s). c_id c = i \<and> y = f c)"
proof (cases "is_station i")
  case True
  with assms ids_okD(2) [OF assms(1)] show ?thesis by (auto simp: update_connector_def is_station_def)
next
  case False
  then have "y \<in> set (update_first (\<lambda>c. c_id c = i) f (s_connectors s))"
    using assms(3) by (simp add: update_connector_def)
  from in_update_firstD2 [OF this, of c_id i] assms(2) ids_okD(1) [OF assms(1)] show ?thesis
    by auto
qed

lemma ids_ok_update: "ids_ok s \<Longrightarrow> (\<And>c. c_id (f c) = c_id c) \<Longrightarrow> ids_ok (update_connector i f s)"
proof -
  assume ok: "ids_ok s" and id: "\<And>c. c_id (f c) = c_id c"
  have "map c_id (s_connectors (update_connector i f s)) = map c_id (s_connectors s)"
    using id by (simp add: update_connector_def map_update_first)
  moreover from this have "length (s_connectors (update_connector i f s)) = length (s_connectors s)"
    by (rule map_eq_imp_length_eq)
  ultimately show ?thesis using ok by (simp only: ids_ok_def)
qed

lemma Inv_update:
  assumes i: "Inv K s" and id: "\<And>c. c_id (f c) = c_id c"
    and ok: "\<And>c. c \<in> set (s_connectors s) \<Longrightarrow> c_id c = i \<Longrightarrow> tx_ok K s i (c_transaction c) \<Longrightarrow>
       tx_ok K s i (c_transaction (f c))"
  shows "Inv K (update_connector i f s)"
proof -
  let ?s = "update_connector i f s"
  have "tx_ok K ?s (c_id y) (c_transaction y)" if "y \<in> set (s_connectors ?s)" for y
    using update_connector_in [OF InvD(1) [OF i] id that] InvD(3) [OF i] ok id
    by (auto simp: tx_ok_fields [of ?s s])
  then show ?thesis
    using i ids_ok_update [OF InvD(1) [OF i] id, of i]
    by (auto simp: Inv_def queue_ok_def drops_ok_def flight_def)
qed

text \<open>Changes that leave the transaction alone.\<close>

lemma calm_update:
  "(\<And>c. c_id (f c) = c_id c) \<Longrightarrow> (\<And>c. c_transaction (f c) = c_transaction c) \<Longrightarrow>
   calm s (update_connector i f s)"
  by (simp add: calm_def tx_view_def update_connector_def map_update_first conts_def tokens_ok_def)

lemma not_needed_update:
  assumes "ids_ok s" and "\<And>c. c_id (f c) = c_id c"
    and "\<And>c tx. c_tx_id (f c) = Some tx \<Longrightarrow> \<not> starts i tx k \<and> \<not> stops i tx k"
    and "\<And>j tx. starts j tx k \<or> stops j tx k \<Longrightarrow> j = i"
  shows "\<not> needed k (update_connector i f s)"
proof
  assume "needed k (update_connector i f s)"
  then obtain y tx where y: "y \<in> set (s_connectors (update_connector i f s))" "c_tx_id y = Some tx"
    "starts (c_id y) tx k \<or> stops (c_id y) tx k" by (auto simp: needed_def)
  with assms(4) have "c_id y = i" by blast
  with update_connector_in [OF assms(1,2) y(1)] assms(2) obtain c where "y = f c" by auto
  with assms(3) y \<open>c_id y = i\<close> show False by blast
qed

lemma find_distinct: "distinct (map f xs) \<Longrightarrow> x \<in> set xs \<Longrightarrow> find (\<lambda>y. f y = f x) xs = Some x"
  by (induction xs) (auto simp: image_iff)

lemma find_connector_mem:
  "ids_ok s \<Longrightarrow> c \<in> set (s_connectors s) \<Longrightarrow> find_connector s (c_id c) = Some c"
  using find_distinct [of c_id "s_connectors s" c] ids_okD(1) [of s] ids_okD(2) [of s c]
  by (simp add: find_connector_def is_station_def STATION_def)

lemma find_connectorD:
  "find_connector s i = Some c \<Longrightarrow> \<not> is_station i \<Longrightarrow> c \<in> set (s_connectors s) \<and> c_id c = i"
  by (auto simp: find_connector_def find_Some_iff)

lemma not_ours_not_needed:
  assumes "ids_ok s" and "\<not> still_ours s i tx"
    and "\<And>j t. starts j t k \<or> stops j t k \<Longrightarrow> j = i \<and> t = tx"
  shows "\<not> needed k s"
proof
  assume "needed k s"
  then obtain c t where c: "c \<in> set (s_connectors s)" "c_tx_id c = Some t"
    "starts (c_id c) t k \<or> stops (c_id c) t k"
    by (auto simp: needed_def)
  with assms(3) have eq: "c_id c = i" "t = tx" by blast+
  have "find_connector s i = Some c" using find_connector_mem [OF assms(1) c(1)] eq by simp
  then show False
    using assms(2) c eq by (simp add: still_ours_def is_some_and_def)
qed

end
