(* ===== verification/Transaction_Inv.thy ===== *)
theory Transaction_Inv
  imports Station_Inv
begin

text \<open>
  The operations of theories \<open>Transactions\<close>, \<open>Handlers\<close> and \<open>Actor\<close> keep the invariant \<open>Inv\<close>:
  the offline queue, the offline sync, starts and stops, and what calls them.  The collection
  \<open>invs\<close> has one introduction rule per operation.
\<close>

named_theorems invs \<open>operations that keep the invariant\<close>

lemmas quiet_invs [invs] = quiets [THEN [2] Inv_quiet]

subsection \<open>Small steps\<close>

lemma Inv_calm_step [invs]:
  "Inv K s \<Longrightarrow> Inv K (s\<lparr>s_link := l\<rparr>)"
  "Inv K s \<Longrightarrow> Inv K (s\<lparr>s_registration := r\<rparr>)"
  "Inv K s \<Longrightarrow> Inv K (s\<lparr>s_registry := g\<rparr>)"
  "Inv K s \<Longrightarrow> Inv K (s\<lparr>s_sync_outstanding := n\<rparr>)"
  "Inv K s \<Longrightarrow> Inv K (s\<lparr>s_sync_keys := ks\<rparr>)"
  "Inv K s \<Longrightarrow> Inv K (s\<lparr>s_sync_boot := b\<rparr>)"
  "Inv K s \<Longrightarrow> Inv K (s\<lparr>s_now := t\<rparr>)"
  "Inv K s \<Longrightarrow> Inv K (s\<lparr>s_mono := m\<rparr>)"
  "Inv K s \<Longrightarrow> Inv K (s\<lparr>s_charge_point := c\<rparr>)"
  by (erule Inv_calm; simp add: calm_def tx_view_def conts_def tokens_ok_def)+

lemma Inv_respond [invs]: "Inv K s \<Longrightarrow> Inv K (respond r c s)"
  by (erule Inv_calm) (auto simp: calm_def tx_view_def conts_def tokens_ok_def respond_def emit_def)

lemma Inv_emit: "Inv K s \<Longrightarrow> (\<And>d. e \<noteq> Dropped d) \<Longrightarrow> Inv K (emit e s)"
  by (erule Inv_calm) (auto simp: calm_def tx_view_def conts_def tokens_ok_def emit_def)

lemma Inv_respond_error [invs]: "Inv K s \<Longrightarrow> Inv K (respond_error r code text s)"
  unfolding respond_error_def by (rule Inv_emit) simp_all

lemma Inv_calm_update:
  "Inv K s \<Longrightarrow> (\<And>c. c_id (f c) = c_id c) \<Longrightarrow> (\<And>c. c_transaction (f c) = c_transaction c) \<Longrightarrow>
   Inv K (update_connector i f s)"
  by (rule Inv_calm [OF _ calm_update])

lemma clear_reservation_keeps [simp]:
  "c_id (fst (clear_reservation c)) = c_id c"
  "c_transaction (fst (clear_reservation c)) = c_transaction c"
  by (simp_all add: clear_reservation_def Let_def split: option.split)

lemma Inv_apply_pending [invs]: "Inv K s \<Longrightarrow> Inv K (apply_pending_availability i s)"
  unfolding apply_pending_availability_def
  by (auto simp: Let_def split: option.split intro!: quiet_invs Inv_calm_update)

lemma Inv_begin_charging [invs]: "Inv K s \<Longrightarrow> Inv K (begin_charging i tag s)"
  unfolding begin_charging_def by (intro quiet_invs Inv_calm_update) simp_all

lemma Inv_sync_count_down [invs]: "Inv K s \<Longrightarrow> Inv K (sync_count_down s)"
  unfolding sync_count_down_def by (rule invs)

lemma Inv_foldl: "(\<And>s x. Inv K s \<Longrightarrow> Inv K (f s x)) \<Longrightarrow> Inv K s \<Longrightarrow> Inv K (foldl f s xs)"
  by (induction xs arbitrary: s) auto

subsection \<open>A shorter queue\<close>

lemma Inv_queue:
  assumes i: "Inv K s"
    and wf: "queue_wf q'" "length q' \<le> length (s_queue s)" "\<forall>e\<in>set q'. entry_wf (s_next_local s) e"
    and sub: "\<forall>e'\<in>set q'. \<exists>e\<in>set (s_queue s). ox_key e = ox_key e'
      \<and> (ox_start_pending e' \<longrightarrow> ox_start_pending e)"
    and keep: "\<And>c p key. c \<in> set (s_connectors s) \<Longrightarrow> c_transaction c = PendingStart p \<Longrightarrow>
      ps_tx_id p = Local key \<Longrightarrow> queued_start s (c_id c) key \<Longrightarrow>
      \<exists>e\<in>set q'. ox_key e = key \<and> ox_connector e = c_id c \<and> ox_start_pending e"
  shows "Inv K (s\<lparr>s_queue := q'\<rparr>)"
proof -
  let ?s = "s\<lparr>s_queue := q'\<rparr>"
  have fl: "flight K ?s = flight K s" by (simp add: flight_def conts_def)
  have keys: "set (oq_keys q') \<subseteq> set (oq_keys (s_queue s))"
    using sub unfolding oq_keys_def by (auto simp: image_iff) metis
  have "tx_ok K ?s (c_id c) (c_transaction c)" if c: "c \<in> set (s_connectors s)" for c
  proof (cases "c_transaction c")
    case (PendingStart p)
    with InvD(3) [OF i c] obtain key where key: "ps_tx_id p = Local key"
      "(\<exists>k\<in>flight K s. starts (c_id c) (Local key) k) \<or> queued_start s (c_id c) key
        \<or> dropped_start s (c_id c) key" by auto
    with keep [OF c PendingStart key(1)] PendingStart fl show ?thesis
      by (auto simp: queued_start_def dropped_start_def)
  qed (use InvD(3) [OF i c] fl in auto)
  moreover have "queue_ok ?s"
    using InvD(2) [OF i] wf keys by (fastforce simp: queue_ok_def drops_ok_def)
  moreover have "cont_ok (s_next_local s) q' k" if "k \<in> flight K s" for k
    using InvD(4) [OF i that] by (rule cont_ok_mono) (use sub in auto)
  ultimately show ?thesis
    using i fl by (simp add: Inv_def ids_ok_def tokens_ok_def)
qed

lemma Inv_update_entry:
  assumes i: "Inv K s" and key: "\<And>e. ox_key (f e) = ox_key e"
    and wf: "\<And>e. e \<in> set (s_queue s) \<Longrightarrow> P e \<Longrightarrow> entry_wf (s_next_local s) (f e)"
    and pend: "\<And>e. ox_start_pending (f e) = ox_start_pending e"
    and conn: "\<And>e. ox_connector (f e) = ox_connector e"
  shows "Inv K (s\<lparr>s_queue := update_first P f (s_queue s)\<rparr>)"
proof (rule Inv_queue [OF i])
  have q: "queue_ok s" by (rule InvD(2) [OF i])
  let ?q = "update_first P f (s_queue s)"
  have mem: "\<And>e'. e' \<in> set ?q \<Longrightarrow> e' \<in> set (s_queue s) \<or> (\<exists>e\<in>set (s_queue s). P e \<and> e' = f e)"
    by (drule in_update_firstD) auto
  show "queue_wf ?q"
    using q key by (simp add: queue_ok_def queue_wf_def oq_keys_def map_update_first)
  show "length ?q \<le> length (s_queue s)" by simp
  show "\<forall>e\<in>set ?q. entry_wf (s_next_local s) e"
    using mem q wf by (auto simp: queue_ok_def)
  show "\<forall>e'\<in>set ?q. \<exists>e\<in>set (s_queue s). ox_key e = ox_key e'
      \<and> (ox_start_pending e' \<longrightarrow> ox_start_pending e)"
  proof
    fix e' assume "e' \<in> set ?q"
    from mem [OF this] show "\<exists>e\<in>set (s_queue s). ox_key e = ox_key e'
      \<and> (ox_start_pending e' \<longrightarrow> ox_start_pending e)"
      using key pend by auto
  qed
  fix c k assume "queued_start s (c_id c) k"
  then have "(k, c_id c, True) \<in> set (map (\<lambda>e. (ox_key e, ox_connector e, ox_start_pending e)) (s_queue s))"
    by (auto simp: queued_start_def)
  also have "map (\<lambda>e. (ox_key e, ox_connector e, ox_start_pending e)) (s_queue s)
      = map (\<lambda>e. (ox_key e, ox_connector e, ox_start_pending e)) ?q"
    using map_update_first [where f = f and P = P and xs = "s_queue s"
        and g = "\<lambda>e. (ox_key e, ox_connector e, ox_start_pending e)"]
    by (simp only: key pend conn)
  finally show "\<exists>e\<in>set ?q. ox_key e = k \<and> ox_connector e = c_id c \<and> ox_start_pending e"
    by auto
qed

lemma entry_unique:
  "queue_ok s \<Longrightarrow> e \<in> set (s_queue s) \<Longrightarrow> e' \<in> set (s_queue s) \<Longrightarrow> ox_key e = ox_key e' \<Longrightarrow> e = e'"
  by (metis find_key_distinct option.inject queue_ok_def)

lemma Inv_remove:
  assumes i: "Inv K s"
    and ok: "\<And>e c p. e \<in> set (s_queue s) \<Longrightarrow> ox_key e = k \<Longrightarrow> ox_start_pending e \<Longrightarrow>
      c \<in> set (s_connectors s) \<Longrightarrow> c_transaction c = PendingStart p \<Longrightarrow> ps_tx_id p \<noteq> Local k"
  shows "Inv K (s\<lparr>s_queue := fst (oq_remove (s_queue s) k)\<rparr>)"
proof (rule Inv_queue [OF i])
  have q: "queue_ok s" by (rule InvD(2) [OF i])
  then have eq: "fst (oq_remove (s_queue s) k) = filter (\<lambda>e. ox_key e \<noteq> k) (s_queue s)"
    by (simp add: queue_ok_def oq_remove_filter)
  show "queue_wf (fst (oq_remove (s_queue s) k))"
    using q by (simp add: queue_ok_def oq_remove_wf)
  show "length (fst (oq_remove (s_queue s) k)) \<le> length (s_queue s)" by (rule oq_remove_length)
  show "\<forall>e\<in>set (fst (oq_remove (s_queue s) k)). entry_wf (s_next_local s) e"
    using q by (auto simp: eq queue_ok_def)
  show "\<forall>e'\<in>set (fst (oq_remove (s_queue s) k)). \<exists>e\<in>set (s_queue s). ox_key e = ox_key e'
      \<and> (ox_start_pending e' \<longrightarrow> ox_start_pending e)"
    by (auto simp: eq)
  fix c p key assume "c \<in> set (s_connectors s)" "c_transaction c = PendingStart p"
    "ps_tx_id p = Local key" "queued_start s (c_id c) key"
  with ok show "\<exists>e\<in>set (fst (oq_remove (s_queue s) k)). ox_key e = key \<and> ox_connector e = c_id c
      \<and> ox_start_pending e"
    unfolding eq queued_start_def by auto
qed

subsection \<open>A longer queue\<close>

text \<open>Everything known so far has a key of at most \<open>n\<close>.\<close>

definition keys_below :: "u64 \<Rightarrow> cont list \<Rightarrow> station \<Rightarrow> bool" where
  "keys_below n K s =
     ((\<forall>e\<in>set (s_queue s). ox_key e \<le> n) \<and> (\<forall>d. Dropped d \<in> set (s_out s) \<longrightarrow> ox_key d \<le> n)
      \<and> (\<forall>k\<in>flight K s. cont_ok n (s_queue s) k))"

lemma Inv_keys_below: "Inv K s \<Longrightarrow> keys_below (s_next_local s) K s"
  by (auto simp: Inv_def keys_below_def queue_ok_def drops_ok_def entry_wf_def)

lemma keys_below_calm: "keys_below n K s \<Longrightarrow> calm s s' \<Longrightarrow> keys_below n K s'"
  unfolding keys_below_def calm_def flight_def using inert_cont_ok by fastforce

lemma keys_below_update: "keys_below n K s \<Longrightarrow> keys_below n K (update_connector i f s)"
  by (simp add: keys_below_def flight_def)

lemma push_queue_fields:
  "s_connectors (push_queue e s) = s_connectors s" "s_queue (push_queue e s) = fst (oq_push (s_queue s) e)"
  "s_next_local (push_queue e s) = s_next_local s" "s_calls (push_queue e s) = s_calls s"
  "s_sample_calls (push_queue e s) = s_sample_calls s"
  "s_next_call_token (push_queue e s) = s_next_call_token s"
  "Dropped d \<in> set (s_out (push_queue e s)) \<longleftrightarrow>
     Dropped d \<in> set (s_out s) \<or> snd (oq_push (s_queue s) e) = Some d"
  by (auto simp: push_queue_def emit_def split: prod.split option.split)

lemma oq_push_dropped:
  assumes "queue_wf q" and "ox_key e \<notin> set (oq_keys q)" and "oq_push q e = (q', Some d)"
  shows "ox_key d \<notin> set (oq_keys q')"
proof (cases rule: oq_push_cases [of q e])
  case (full i)
  have "distinct (map ox_key (q @ [e]))" using assms(1,2) by (simp add: queue_wf_def oq_keys_def)
  from remove_nth_filter [OF this full(2)] full(3) assms(3) show ?thesis
    by (auto simp: oq_keys_def)
qed (use assms in auto)

lemma Inv_push:
  assumes i: "Inv K' s" and below: "keys_below n K s" and n: "n < ox_key e"
    and wf: "entry_wf (s_next_local s) e"
    and K: "set K' \<subseteq> insert k (set K)"
    and k: "\<And>j tx. starts j tx k \<Longrightarrow> ox_start_pending e \<and> ox_connector e = j \<and> ox_tx_id e = tx"
      "\<And>j tx. \<not> stops j tx k"
  shows "Inv K (push_queue e s)"
proof -
  let ?s = "push_queue e s" and ?q = "fst (oq_push (s_queue s) e)"
  have q: "queue_ok s" by (rule InvD(2) [OF i])
  have new: "ox_key e \<notin> set (oq_keys (s_queue s))"
    using below n by (auto simp: keys_below_def oq_keys_def)
  have fl: "flight K ?s = flight K s" and fl': "flight K' s \<subseteq> insert k (flight K s)"
    using K by (auto simp: flight_def conts_def push_queue_fields)
  have sets: "set ?q \<subseteq> insert e (set (s_queue s))"
    "insert e (set (s_queue s)) = set ?q \<union> set_option (snd (oq_push (s_queue s) e))"
    using oq_push_set [of "s_queue s" e] by auto
  have kept: "queued_start ?s i key \<or> dropped_start ?s i key"
    if "x \<in> insert e (set (s_queue s))" "ox_key x = key" "ox_connector x = i" "ox_start_pending x" for x i key
    using that sets(2) by (fastforce simp: queued_start_def dropped_start_def push_queue_fields)
  have tx: "tx_ok K ?s (c_id c) (c_transaction c)" if c: "c \<in> set (s_connectors s)" for c
  proof (cases "c_transaction c")
    case (PendingStart p)
    with InvD(3) [OF i c] obtain key where key: "ps_tx_id p = Local key"
      "(\<exists>x\<in>flight K' s. starts (c_id c) (Local key) x) \<or> queued_start s (c_id c) key
        \<or> dropped_start s (c_id c) key" by auto
    have "(\<exists>x\<in>flight K ?s. starts (c_id c) (Local key) x) \<or> queued_start ?s (c_id c) key
        \<or> dropped_start ?s (c_id c) key"
      using key(2)
    proof (elim disjE)
      assume "\<exists>x\<in>flight K' s. starts (c_id c) (Local key) x"
      with fl' have "(\<exists>x\<in>flight K s. starts (c_id c) (Local key) x) \<or> starts (c_id c) (Local key) k" by blast
      then show ?thesis
      proof
        assume "starts (c_id c) (Local key) k"
        from k(1) [OF this] have e: "ox_start_pending e" "ox_connector e = c_id c" "ox_tx_id e = Local key"
          by auto
        with wf have "ox_key e = key" by (simp add: entry_wf_def)
        with kept [of e key "c_id c"] e show ?thesis by blast
      qed (simp add: fl)
    next
      assume "queued_start s (c_id c) key"
      then show ?thesis using kept [of _ key "c_id c"] by (auto simp: queued_start_def)
    next
      assume "dropped_start s (c_id c) key"
      then show ?thesis by (auto simp: dropped_start_def push_queue_fields)
    qed
    with PendingStart key(1) show ?thesis by simp
  next
    case (Stopping x)
    with InvD(3) [OF i c] fl' k(2) show ?thesis by (auto simp: fl)
  qed (use InvD(3) [OF i c] in auto)
  have cont: "cont_ok (s_next_local s) ?q x" if "x \<in> flight K s" for x
  proof (rule cont_ok_mono)
    show "cont_ok n (s_queue s) x" using below that by (simp add: keys_below_def)
    show "n \<le> s_next_local s" using n wf by (simp add: entry_wf_def)
    fix e' assume "e' \<in> set ?q" "ox_key e' \<le> n"
    with sets(1) n show "\<exists>e\<in>set (s_queue s). ox_key e = ox_key e' \<and> (ox_start_pending e' \<longrightarrow> ox_start_pending e)"
      by auto
  qed
  have drops: "ox_key d \<le> s_next_local s \<and> ox_key d \<notin> set (oq_keys ?q)"
    if "Dropped d \<in> set (s_out ?s)" for d
  proof (cases "Dropped d \<in> set (s_out s)")
    case True
    moreover from this below n have "ox_key d \<noteq> ox_key e" by (auto simp: keys_below_def)
    ultimately show ?thesis using q sets(1) by (auto simp: queue_ok_def drops_ok_def oq_keys_def)
  next
    case False
    with that have d: "snd (oq_push (s_queue s) e) = Some d" by (simp add: push_queue_fields)
    then have "d \<in> insert e (set (s_queue s))" using sets(2) by auto
    then have "ox_key d \<le> s_next_local s" using q wf by (auto simp: queue_ok_def entry_wf_def)
    moreover have "ox_key d \<notin> set (oq_keys ?q)"
      using oq_push_dropped [OF _ new, of ?q d] q d by (simp add: queue_ok_def prod_eq_iff)
    ultimately show ?thesis by blast
  qed
  have "queue_ok ?s"
    using q new wf sets(1) drops oq_push_length [of "s_queue s" e]
    by (auto simp: queue_ok_def drops_ok_def push_queue_fields intro: oq_push_wf)
  with tx cont i show ?thesis
    by (simp add: Inv_def ids_ok_def push_queue_fields fl tokens_ok_def)
qed

lemma next_key_fields: "next_key s = (s\<lparr>s_next_local := s_next_local s + 1\<rparr>, s_next_local s + 1)"
  by (simp add: next_key_def)

lemma Inv_next_local: "Inv K s \<Longrightarrow> s_next_local s \<le> n \<Longrightarrow> Inv K (s\<lparr>s_next_local := n\<rparr>)"
  by (erule Inv_calm) (simp add: calm_def tx_view_def conts_def tokens_ok_def)

lemma Inv_set_stop:
  assumes i: "Inv K s"
  shows "Inv K (s\<lparr>s_queue := update_first (on_tx c tx) (\<lambda>e. e\<lparr>ox_stop := x\<rparr>) (s_queue s)\<rparr>)"
  by (rule Inv_update_entry [OF i]) (use InvD(2) [OF i] in \<open>auto simp: queue_ok_def entry_wf_def\<close>)

lemma Inv_queue_stop:
  assumes i: "Inv K s" and tx: "\<not> is_local tx"
  shows "Inv K (fst (queue_stop c tx tag started m info s))"
proof (cases "oq_find_by_tx_on (s_queue s) c tx")
  case None
  let ?s = "s\<lparr>s_next_local := s_next_local s + 1\<rparr>"
  have "Inv K ?s" by (rule Inv_next_local [OF i]) simp
  moreover have "keys_below (s_next_local s) K ?s"
    by (rule keys_below_calm [OF Inv_keys_below [OF i]]) (simp add: calm_def tx_view_def conts_def tokens_ok_def)
  ultimately show ?thesis
    using None tx
    by (simp add: queue_stop_def next_key_def)
       (rule Inv_push [where k = K_StopFor]; (simp add: entry_wf_def)?; blast)
next
  case (Some e)
  with Inv_set_stop [OF i, of c tx "Some info"] show ?thesis by (simp add: queue_stop_def)
qed

subsection \<open>The end of a transaction\<close>

text \<open>\<open>k\<close> can only matter to the transaction \<open>tx\<close> of connector \<open>i\<close>.\<close>

definition only_for :: "connector_id \<Rightarrow> tx_id \<Rightarrow> cont \<Rightarrow> bool" where
  "only_for i tx k = (\<forall>j t. starts j t k \<or> stops j t k \<longrightarrow> j = i \<and> t = tx)"

lemma only_for_simps [simp]:
  "only_for i tx (K_Start i tx p c)" "only_for i tx (K_Stop i tx tag t m info c)" "only_for i tx K_StopFor"
  by (simp_all add: only_for_def)

lemma Inv_release:
  assumes i: "Inv (k # K) s" and k: "only_for i tx k"
    and id: "\<And>c. c_id (f c) = c_id c" and t: "\<And>c. c_transaction (f c) = t"
    and ok: "tx_ok K s i t" "state_tx_id t \<noteq> Some tx"
  shows "Inv K (update_connector i f s)"
proof (rule Inv_unneeded [of k])
  have "tx_ok (k # K) s i t" using ok(1) by (rule tx_ok_mono) (auto simp: flight_Cons)
  then show "Inv (k # K) (update_connector i f s)"
    using t by (intro Inv_update [OF i]) (simp_all add: id)
  show "\<not> needed k (update_connector i f s)"
    using k ok(2) by (intro not_needed_update [OF InvD(1) [OF i] id]) (auto simp: only_for_def c_tx_id_def t)
qed

lemma Inv_not_ours:
  assumes i: "Inv (k # K) s" and k: "only_for i tx k" and n: "\<not> still_ours s i tx"
  shows "Inv K s"
proof (rule Inv_unneeded [OF i])
  show "\<not> needed k s"
    using k unfolding only_for_def by (intro not_ours_not_needed [OF InvD(1) [OF i] n]) blast
qed

lemma still_ours_alt:
  "still_ours s i tx =
     (Option.bind (map_option (state_tx_id \<circ> c_transaction \<circ> no_meter) (find_connector s i)) (\<lambda>x. x) = Some tx)"
  by (cases "find_connector s i") (simp_all add: still_ours_def is_some_and_def c_tx_id_def)

lemma core_still_ours: "core s' = core s \<Longrightarrow> still_ours s' i tx = still_ours s i tx"
  using core_find_connector [of s' s i] unfolding still_ours_alt
  by (simp flip: option.map_comp)

lemma Inv_end_state:
  assumes "Inv (k # K) s" and "only_for i tx k"
  shows "Inv K (if still_ours s i tx then update_connector i (\<lambda>c. c\<lparr>c_transaction := Idle\<rparr>) s else s)"
  using assms by (auto intro!: Inv_release [of k K s i tx] intro: Inv_not_ours [of k K s i tx])

lemma Inv_finish_stop: "Inv (k # K) s \<Longrightarrow> only_for i tx k \<Longrightarrow> Inv K (finish_stop i tx s)"
  unfolding finish_stop_def Let_def by (intro invs Inv_end_state)

lemma Inv_finish_stop_plain: "Inv K s \<Longrightarrow> Inv K (finish_stop i tx s)"
  by (rule Inv_finish_stop [where k = K_StopFor]) (simp_all add: Inv_add)

lemma Inv_abandon: "Inv (k # K) s \<Longrightarrow> only_for i tx k \<Longrightarrow> Inv K (abandon_start i s)"
  unfolding abandon_start_def Let_def
  by (intro invs, rule Inv_release [of k K s i tx]) (auto)

lemma Inv_start_failed:
  "Inv (K_Start i local p c # K) s \<Longrightarrow> Inv K (start_failed i local c e s)"
  unfolding start_failed_def
  by (intro quiet_invs) (auto intro: Inv_abandon [of "K_Start i local p c" K s i local]
      Inv_not_ours [of "K_Start i local p c" K s i local])

lemma Inv_start_answered:
  assumes i: "Inv (K_Start i local p c # K) s0"
  shows "Inv K (start_answered i local p c info tx s0)"
proof -
  let ?k = "K_Start i local p c"
  obtain s d where v: "apply_verdict (ps_id_tag p) info s0 = (s, d)" by force
  have q: "quiet s0 s" using quiet_apply_verdict [of s0 "ps_id_tag p" info] v by simp
  then have s: "Inv (?k # K) s" by (rule Inv_quiet [OF i])
  have ours: "still_ours s i local = still_ours s0 i local"
    by (rule core_still_ours) (use q in \<open>simp add: quiet_def\<close>)
  have loc: "is_local local" using InvD(4) [OF i, of ?k] by (auto simp: flight_Cons)
  have act: "Inv K (update_connector i (\<lambda>c. c\<lparr>c_transaction := Active
      \<lparr>at_tx_id = Csms tx, at_id_tag = ps_id_tag p, at_started_at = ps_started_at p,
       at_meter_start_wh = ps_meter_start_wh p\<rparr>\<rparr>) s)"
    by (rule Inv_release [OF s, of i local]) (use loc in auto)
  show ?thesis
  proof (cases "still_ours s0 i local")
    case True
    have ab: "Inv K (abandon_start i s)" by (rule Inv_abandon [OF s, of i local]) simp
    show ?thesis
      unfolding start_answered_def v Let_def prod.case
      by (simp add: True del: complete.simps)
         (intro conjI impI quiet_invs Inv_begin_charging act ab; (rule quiet_invs)?; rule ab act)
  next
    case False
    then have "Inv K s" using Inv_not_ours [OF s, of i local] ours by simp
    then show ?thesis
      unfolding start_answered_def v Let_def prod.case
      by (simp add: False del: complete.simps) (intro conjI impI quiet_invs; assumption)
  qed
qed

subsection \<open>Delivering the queue\<close>

lemma quiet_queue: "quiet s s' \<Longrightarrow> s_queue s' = s_queue s"
  using core_fieldsD(2) [of s' s] by (simp add: quiet_def)

lemma Inv_remove_entry:
  "Inv K s \<Longrightarrow> \<forall>e\<in>set (s_queue s). ox_key e = key \<longrightarrow> \<not> ox_start_pending e \<Longrightarrow>
   Inv K (s\<lparr>s_queue := fst (oq_remove (s_queue s) key)\<rparr>)"
  by (rule Inv_remove) auto

lemma give_up_queue: "s_queue (give_up s k) = fst (oq_remove (s_queue s) k)"
  unfolding give_up_def
  using quiet_queue [OF quiet_flush_now, of "clear_sync_failure k (s\<lparr>s_queue := fst (oq_remove (s_queue s) k)\<rparr>)"]
  by (simp add: clear_sync_failure_def)

lemma Inv_give_up:
  "Inv K s \<Longrightarrow> \<forall>e\<in>set (s_queue s). ox_key e = k \<longrightarrow> \<not> ox_start_pending e \<Longrightarrow> Inv K (give_up s k)"
  unfolding give_up_def by (intro quiet_invs Inv_remove_entry)

lemma Inv_give_ups:
  "Inv K s \<Longrightarrow> \<forall>k\<in>set ks. \<forall>e\<in>set (s_queue s). ox_key e = k \<longrightarrow> \<not> ox_start_pending e \<Longrightarrow>
   Inv K (foldl give_up s ks)"
proof (induction ks arbitrary: s)
  case (Cons k ks)
  have "set (s_queue (give_up s k)) \<subseteq> set (s_queue s)"
    using InvD(2) [OF Cons.prems(1)]
    by (simp add: give_up_queue queue_ok_def oq_remove_filter)
  with Cons.prems(2) show ?case
    by (simp, intro Cons.IH Inv_give_up Cons.prems(1)) auto
qed simp

lemma Inv_arm_sync_retry [invs]:
  assumes i: "Inv K s"
  shows "Inv K (arm_sync_retry s)"
proof -
  let ?ks = "map ox_key (filter (\<lambda>e. \<not> ox_start_pending e
      \<and> sync_round_limit s < failures_of s (ox_key e)) (s_queue s))"
  have "\<forall>k\<in>set ?ks. \<forall>e\<in>set (s_queue s). ox_key e = k \<longrightarrow> \<not> ox_start_pending e"
    using entry_unique [OF InvD(2) [OF i]] by auto
  from Inv_give_ups [OF i this] i show ?thesis
    by (auto simp: arm_sync_retry_def Let_def intro: quiet_invs)
qed

lemma Inv_arm_sync_retry_if_idle [invs]: "Inv K s \<Longrightarrow> Inv K (arm_sync_retry_if_idle s)"
  by (auto simp: arm_sync_retry_if_idle_def intro: invs)

lemma Inv_sync_finished [invs]: "Inv K s \<Longrightarrow> Inv K (sync_finished s)"
  by (auto simp: sync_finished_def Let_def intro!: Inv_arm_sync_retry_if_idle invs)

lemma sync_stop_call_cont:
  assumes i: "Inv K s" and c: "sync_stop_call s key = Some (rq, k)"
  shows "k = K_SyncStop key \<and> cont_ok (s_next_local s) (s_queue s) k"
proof -
  from c obtain e info w where e: "oq_get (s_queue s) key = Some e" "wire (ox_tx_id e) = Some w"
    "k = K_SyncStop key"
    by (auto simp: sync_stop_call_def split: option.splits)
  from oq_get_SomeD [OF e(1)] have mem: "e \<in> set (s_queue s)" "ox_key e = key" by auto
  have q: "queue_ok s" by (rule InvD(2) [OF i])
  then have "entry_wf (s_next_local s) e" using mem by (simp add: queue_ok_def)
  moreover have "\<not> is_local (ox_tx_id e)" using e(2) by (cases "ox_tx_id e") auto
  ultimately have "\<not> ox_start_pending e \<and> key \<le> s_next_local s"
    using mem by (auto simp: entry_wf_def split: if_splits)
  moreover have "\<forall>e'\<in>set (s_queue s). ox_key e' = key \<longrightarrow> e' = e"
    using mem by (intro ballI impI entry_unique [OF q]) auto
  ultimately show ?thesis unfolding e(3) cont_ok.simps by blast
qed

lemma sync_entry_call_cont:
  assumes i: "Inv K s" and c: "sync_entry_call s key = Some (rq, k)"
  shows "(k = K_SyncStart key \<or> k = K_SyncStop key) \<and> cont_ok (s_next_local s) (s_queue s) k"
  using c sync_stop_call_cont [OF i, of key rq k]
  by (auto simp: sync_entry_call_def split: option.splits if_splits)

lemma Inv_run_sync [invs]: "Inv K s \<Longrightarrow> Inv K (run_sync s)"
proof (induction s rule: run_sync.induct)
  case (1 s)
  show ?case
  proof (cases "s_sync_keys s")
    case Nil
    with 1 show ?thesis by (simp add: run_sync_Nil Inv_sync_finished)
  next
    case (Cons key keys)
    let ?s = "s\<lparr>s_sync_keys := keys\<rparr>"
    have s: "Inv K ?s" using 1 by (intro invs)
    show ?thesis
    proof (cases "sync_entry_call ?s key")
      case None
      with Cons 1(1) [OF Cons refl None] s show ?thesis
        by (subst run_sync.simps) (simp add: Inv_sync_count_down)
    next
      case (Some rk)
      obtain rq k where rk: "rk = (rq, k)" by force
      show ?thesis
      proof (cases "call_refused ?s (action_name rq) From_Station")
        case None
        from sync_entry_call_cont [OF s, of key rq k] Some rk
        have "Inv K (submit From_Station rq k ?s)"
          by (intro Inv_submit Inv_add s) auto
        with Cons Some rk None show ?thesis by (subst run_sync.simps) simp
      next
        case (Some e)
        have "Inv K (sync_count_down (record_sync_failure key e ?s))"
          by (intro invs s)
        with Cons 1(2) [OF Cons refl \<open>sync_entry_call ?s key = Some rk\<close> rk [symmetric] Some] Some
          \<open>sync_entry_call ?s key = Some rk\<close> rk
        show ?thesis by (subst run_sync.simps) simp
      qed
    qed
  qed
qed

lemma Inv_sync_done [invs]: "Inv K s \<Longrightarrow> Inv K (sync_done s)"
  unfolding sync_done_def by (intro invs)

lemma Inv_sync_failed [invs]: "Inv K s \<Longrightarrow> Inv K (sync_failed k e s)"
  unfolding sync_failed_def by (intro invs)

lemma Inv_start_offline_sync [invs]: "Inv K s \<Longrightarrow> Inv K (fst (start_offline_sync boot s))"
  unfolding start_offline_sync_def Let_def by (auto intro!: invs)

lemma Inv_on_sync_retry_timer [invs]: "Inv K s \<Longrightarrow> Inv K (on_sync_retry_timer s)"
  by (auto simp: on_sync_retry_timer_def intro: invs)

lemma Inv_sync_stop: "Inv K s \<Longrightarrow> Inv K (snd (sync_stop key s))"
  by (auto simp: sync_stop_def split: option.split prod.split
      intro!: Inv_call Inv_add Inv_sync_failed dest: sync_stop_call_cont)

lemma Inv_sync_stop_answered:
  assumes "Inv (K_SyncStop key # K) s"
  shows "Inv K (sync_stop_answered key s)"
proof -
  have "Inv K s" using assms by (rule Inv_drop) simp_all
  moreover have "\<forall>e\<in>set (s_queue s). ox_key e = key \<longrightarrow> \<not> ox_start_pending e"
    using InvD(4) [OF assms, of "K_SyncStop key"] by (simp add: flight_Cons)
  ultimately show ?thesis
    unfolding sync_stop_answered_def by (intro invs Inv_remove_entry)
qed

text \<open>A pending start that is queued belongs to the connector the entry names.\<close>

lemma pending_owner:
  assumes i: "Inv K s" and e: "e \<in> set (s_queue s)" and c: "c \<in> set (s_connectors s)"
    and t: "c_transaction c = PendingStart p" and tx: "ox_tx_id e = ps_tx_id p"
  shows "ox_connector e = c_id c \<and> ox_start_pending e \<and> ps_tx_id p = Local (ox_key e)"
proof -
  have q: "queue_ok s" by (rule InvD(2) [OF i])
  from InvD(3) [OF i c] t obtain key where key: "ps_tx_id p = Local key"
    "(\<exists>k\<in>flight K s. starts (c_id c) (Local key) k) \<or> queued_start s (c_id c) key
      \<or> dropped_start s (c_id c) key" by auto
  have "entry_wf (s_next_local s) e" using q e by (simp add: queue_ok_def)
  with tx key(1) have k: "ox_key e = key" "ox_start_pending e"
    by (auto simp: entry_wf_def split: if_splits)
  then have mem: "key \<in> set (oq_keys (s_queue s))" using e by (auto simp: oq_keys_def)
  have "\<not> (\<exists>k\<in>flight K s. starts (c_id c) (Local key) k)"
  proof
    assume "\<exists>k\<in>flight K s. starts (c_id c) (Local key) k"
    then obtain k where "k \<in> flight K s" "starts (c_id c) (Local key) k" by blast
    with InvD(4) [OF i, of k] mem show False by (cases k) auto
  qed
  moreover have "\<not> dropped_start s (c_id c) key"
    using q mem by (auto simp: dropped_start_def queue_ok_def drops_ok_def)
  ultimately have "queued_start s (c_id c) key" using key(2) by blast
  then obtain x where x: "x \<in> set (s_queue s)" "ox_key x = key" "ox_connector x = c_id c"
    by (auto simp: queued_start_def)
  have "x = e" using x k by (intro entry_unique [OF q x(1) e]) simp
  with x k key show ?thesis by simp
qed

lemma with_queue [simp]:
  "still_ours (s\<lparr>s_queue := q\<rparr>) i tx = still_ours s i tx"
  "update_connector i f (s\<lparr>s_queue := q\<rparr>) = (update_connector i f s)\<lparr>s_queue := q\<rparr>"
  by (simp_all add: still_ours_def find_connector_def update_connector_def)

lemma find_update_connector:
  "(\<And>c. c_id (f c) = c_id c) \<Longrightarrow>
   find_connector (update_connector i f s) i = map_option f (find_connector s i)"
  by (simp add: find_connector_def update_connector_def find_update_first)

text \<open>After the connector let go of the local id, no connector holds it.\<close>

lemma nobody_holds:
  assumes u: "Inv K u" and e: "e \<in> set (s_queue u)" and n: "\<not> still_ours u (ox_connector e) (ox_tx_id e)"
    and c: "c \<in> set (s_connectors u)" "c_transaction c = PendingStart p"
  shows "ps_tx_id p \<noteq> ox_tx_id e"
proof
  assume eq: "ps_tx_id p = ox_tx_id e"
  then have "c_id c = ox_connector e" using pending_owner [OF u e c] by simp
  with find_connector_mem [OF InvD(1) [OF u] c(1)] c(2) eq n show False
    by (simp add: still_ours_def is_some_and_def c_tx_id_def)
qed

lemma in_update_first_other: "x \<in> set xs \<Longrightarrow> \<not> P x \<Longrightarrow> x \<in> set (update_first P f xs)"
  by (induction xs) auto

lemma Inv_started:
  assumes i: "Inv K s"
    and none: "\<And>c p. c \<in> set (s_connectors s) \<Longrightarrow> c_transaction c = PendingStart p \<Longrightarrow>
      queued_start s (c_id c) key \<Longrightarrow> ps_tx_id p \<noteq> Local key"
  shows "Inv K (s\<lparr>s_queue := oq_update key (\<lambda>e. e\<lparr>ox_tx_id := Csms tx, ox_start_pending := False\<rparr>) (s_queue s)\<rparr>)"
proof (rule Inv_queue [OF i])
  let ?f = "\<lambda>e. e\<lparr>ox_tx_id := Csms tx, ox_start_pending := False\<rparr>"
  let ?q = "oq_update key ?f (s_queue s)"
  have q: "queue_ok s" by (rule InvD(2) [OF i])
  have mem: "e' \<in> set (s_queue s) \<or> (\<exists>e\<in>set (s_queue s). ox_key e = key \<and> e' = ?f e)"
    if "e' \<in> set ?q" for e'
    using in_update_firstD [of e' _ ?f] that by (auto simp: oq_update_def)
  show "queue_wf ?q" using q by (simp add: queue_ok_def queue_wf_def oq_update_keys)
  show "length ?q \<le> length (s_queue s)" by (simp add: oq_update_def)
  show "\<forall>e\<in>set ?q. entry_wf (s_next_local s) e"
    using mem q by (fastforce simp: queue_ok_def entry_wf_def)
  show "\<forall>e'\<in>set ?q. \<exists>e\<in>set (s_queue s). ox_key e = ox_key e' \<and> (ox_start_pending e' \<longrightarrow> ox_start_pending e)"
    using mem by fastforce
  fix c p k assume c: "c \<in> set (s_connectors s)" "c_transaction c = PendingStart p" "ps_tx_id p = Local k"
    and qs: "queued_start s (c_id c) k"
  then obtain e where e: "e \<in> set (s_queue s)" "ox_key e = k" "ox_connector e = c_id c" "ox_start_pending e"
    by (auto simp: queued_start_def)
  have "k \<noteq> key" using none [OF c(1,2)] c(3) qs by auto
  with e(1,2) have "e \<in> set ?q"
    unfolding oq_update_def by (intro in_update_first_other) auto
  with e show "\<exists>e\<in>set ?q. ox_key e = k \<and> ox_connector e = c_id c \<and> ox_start_pending e" by blast
qed

text \<open>The connector of an entry lets go of its local id: \<open>f\<close> takes the transaction to \<open>t\<close>.\<close>

lemma Inv_let_go:
  assumes i: "Inv K s" and e: "e \<in> set (s_queue s)"
    and id: "\<And>c. c_id (f c) = c_id c" and t: "\<And>c. c_transaction (f c) = t"
    and ok: "tx_ok K s (ox_connector e) t" and no: "state_tx_id t \<noteq> Some (Local (ox_key e))"
  defines "u \<equiv> (if still_ours s (ox_connector e) (ox_tx_id e) then update_connector (ox_connector e) f s else s)"
  shows "Inv K u" "s_queue u = s_queue s"
    "\<And>x c p. x \<in> set (s_queue u) \<Longrightarrow> ox_key x = ox_key e \<Longrightarrow> ox_start_pending x \<Longrightarrow>
       c \<in> set (s_connectors u) \<Longrightarrow> c_transaction c = PendingStart p \<Longrightarrow> ps_tx_id p \<noteq> Local (ox_key e)"
proof -
  show u: "Inv K u"
    unfolding u_def using i ok t by (auto intro!: Inv_update id)
  show qu: "s_queue u = s_queue s" by (simp add: u_def)
  fix x c p
  assume x: "x \<in> set (s_queue u)" "ox_key x = ox_key e" "ox_start_pending x"
    and c: "c \<in> set (s_connectors u)" "c_transaction c = PendingStart p"
  have "x = e" using x e qu by (intro entry_unique [OF InvD(2) [OF i]]) auto
  with x(3) InvD(2) [OF i] e have tx: "ox_tx_id e = Local (ox_key e)"
    by (auto simp: queue_ok_def entry_wf_def)
  have "\<not> still_ours u (ox_connector e) (ox_tx_id e)"
  proof (cases "still_ours s (ox_connector e) (ox_tx_id e)")
    case True
    then have "find_connector u (ox_connector e) = map_option f (find_connector s (ox_connector e))"
      by (simp add: u_def find_update_connector id)
    with no tx t show ?thesis
      by (cases "find_connector s (ox_connector e)")
         (simp_all add: still_ours_def is_some_and_def c_tx_id_def)
  qed (simp add: u_def)
  from nobody_holds [OF u _ this c] e qu tx show "ps_tx_id p \<noteq> Local (ox_key e)" by simp
qed

lemma Inv_drop_local:
  assumes i: "Inv K s" and e: "e \<in> set (s_queue s)"
  shows "Inv K (drop_local_transaction (ox_connector e) (ox_tx_id e)
    (s\<lparr>s_queue := fst (oq_remove (s_queue s) (ox_key e))\<rparr>))"
proof -
  let ?f = "\<lambda>c. c\<lparr>c_transaction := Idle, c_status := (if c_availability c = Inoperative then Unavailable
      else if c_ev_connected c then Preparing else Available)\<rparr>"
  define u where "u = (if still_ours s (ox_connector e) (ox_tx_id e)
    then update_connector (ox_connector e) ?f s else s)"
  note l = Inv_let_go [OF i e, of ?f Idle, folded u_def, simplified]
  have "Inv K (u\<lparr>s_queue := fst (oq_remove (s_queue u) (ox_key e))\<rparr>)"
    by (rule Inv_remove [OF l(1)]) (use l(3) in blast)
  moreover have "u\<lparr>s_queue := fst (oq_remove (s_queue u) (ox_key e))\<rparr> =
    (if still_ours s (ox_connector e) (ox_tx_id e)
     then (update_connector (ox_connector e) ?f s)\<lparr>s_queue := fst (oq_remove (s_queue s) (ox_key e))\<rparr>
     else s\<lparr>s_queue := fst (oq_remove (s_queue s) (ox_key e))\<rparr>)"
    by (simp add: u_def)
  ultimately show ?thesis
    unfolding drop_local_transaction_def Let_def with_queue by (intro invs) argo
qed

lemma Inv_sync_active:
  assumes i: "Inv K s" and e: "e \<in> set (s_queue s)"
    and f: "f = (\<lambda>c. c\<lparr>c_transaction := Active a\<rparr>)" "at_tx_id a = Csms tx"
    and q: "q = oq_update (ox_key e) (\<lambda>e. e\<lparr>ox_tx_id := Csms tx, ox_start_pending := False\<rparr>) (s_queue s)"
  shows "Inv K (if still_ours s (ox_connector e) (ox_tx_id e)
    then (update_connector (ox_connector e) f s)\<lparr>s_queue := q\<rparr> else s\<lparr>s_queue := q\<rparr>)"
proof -
  define u where "u = (if still_ours s (ox_connector e) (ox_tx_id e)
    then update_connector (ox_connector e) f s else s)"
  have l: "Inv K u" "s_queue u = s_queue s"
    "\<And>x c p. x \<in> set (s_queue u) \<Longrightarrow> ox_key x = ox_key e \<Longrightarrow> ox_start_pending x \<Longrightarrow>
       c \<in> set (s_connectors u) \<Longrightarrow> c_transaction c = PendingStart p \<Longrightarrow> ps_tx_id p \<noteq> Local (ox_key e)"
    unfolding u_def using f by (intro Inv_let_go [OF i e, of f "Active a"]; simp)+
  have "Inv K (u\<lparr>s_queue := oq_update (ox_key e) (\<lambda>e. e\<lparr>ox_tx_id := Csms tx, ox_start_pending := False\<rparr>)
      (s_queue u)\<rparr>)"
    by (rule Inv_started [OF l(1)]) (use l(3) in \<open>auto simp: queued_start_def\<close>)
  moreover have "u\<lparr>s_queue := q\<rparr> = (if still_ours s (ox_connector e) (ox_tx_id e)
    then (update_connector (ox_connector e) f s)\<lparr>s_queue := q\<rparr> else s\<lparr>s_queue := q\<rparr>)"
    by (simp add: u_def)
  ultimately show ?thesis unfolding l(2) q by argo
qed

lemma Inv_if: "(P \<Longrightarrow> Inv K a) \<Longrightarrow> (\<not> P \<Longrightarrow> Inv K b) \<Longrightarrow> Inv K (if P then a else b)"
  by simp

lemma Inv_sync_stop_case:
  "Inv K s \<Longrightarrow> Inv K (case sync_stop key s of (sent, s') \<Rightarrow> if sent then s' else sync_done s')"
  using Inv_sync_stop [of K s key] by (auto split: prod.split intro: Inv_sync_done)

lemma Inv_sync_start_answered:
  assumes i: "Inv K s0"
  shows "Inv K (sync_start_answered key info tx s0)"
proof (cases "oq_get (s_queue s0) key")
  case None
  with i show ?thesis by (simp add: sync_start_answered_def Inv_sync_done)
next
  case (Some e)
  obtain s1 d where v: "apply_verdict (ox_id_tag e) info s0 = (s1, d)" by force
  have q: "quiet s0 (clear_sync_failure key s1)"
    using quiet_apply_verdict [of s0 "ox_id_tag e" info] v
    by (intro quiets [THEN [2] quiet_trans]) simp
  let ?s = "clear_sync_failure key s1"
  have s: "Inv K ?s" by (rule Inv_quiet [OF i q])
  have e: "e \<in> set (s_queue ?s)" "ox_key e = key"
    using oq_get_SomeD [OF Some] quiet_queue [OF q] by auto
  have rej: "Inv K (drop_local_transaction (ox_connector e) (ox_tx_id e)
    (?s\<lparr>s_queue := fst (oq_remove (s_queue ?s) key)\<rparr>))"
    using Inv_drop_local [OF s e(1)] e(2) by simp
  let ?u = "if still_ours ?s (ox_connector e) (ox_tx_id e)
    then (update_connector (ox_connector e) (\<lambda>c. c\<lparr>c_transaction := Active
            \<lparr>at_tx_id = Csms tx, at_id_tag = ox_id_tag e, at_started_at = ox_started_at e,
             at_meter_start_wh = ox_meter_start_wh e\<rparr>\<rparr>) ?s)
           \<lparr>s_queue := oq_update key (\<lambda>e. e\<lparr>ox_tx_id := Csms tx, ox_start_pending := False\<rparr>) (s_queue ?s)\<rparr>
    else ?s\<lparr>s_queue := oq_update key (\<lambda>e. e\<lparr>ox_tx_id := Csms tx, ox_start_pending := False\<rparr>) (s_queue ?s)\<rparr>"
  have acc: "Inv K ?u" by (rule Inv_sync_active [OF s e(1) refl]) (simp_all add: e(2))
  show ?thesis
    unfolding sync_start_answered_def Some option.case v prod.case Let_def with_queue
    by (intro Inv_if Inv_sync_stop_case Inv_sync_done quiet_invs rej acc)
qed

end
