(* ===== verification/Station_Safe.thy ===== *)
theory Station_Safe
  imports Transaction_Inv
begin

text \<open>
  Starting and stopping transactions, the handlers and the actor loop keep the invariant; every
  state the actor reaches from a fresh station satisfies it.
\<close>

subsection \<open>Stopping\<close>

lemma Inv_queue_stop_any:
  assumes i: "Inv K s" and tx: "is_local tx \<Longrightarrow> oq_find_by_tx_on (s_queue s) c tx \<noteq> None"
  shows "Inv K (fst (queue_stop c tx tag started m info s))"
proof (cases "is_local tx")
  case True
  with tx obtain e where "oq_find_by_tx_on (s_queue s) c tx = Some e" by blast
  with Inv_set_stop [OF i, of c tx "Some info"] show ?thesis by (simp add: queue_stop_def)
qed (rule Inv_queue_stop [OF i])

lemma Inv_stop_answered:
  "Inv (K_Stop i tx tag t m info c # K) s \<Longrightarrow> Inv K (stop_answered i tx c s)"
  unfolding stop_answered_def by (intro quiet_invs) (erule Inv_finish_stop, simp)

lemma Inv_stop_failed:
  assumes "Inv (K_Stop i tx tag t m info c # K) s"
  shows "Inv K (stop_failed i tx tag t m info c e s)"
proof -
  have "\<not> is_local tx" using InvD(4) [OF assms, of "K_Stop i tx tag t m info c"] by (simp add: flight_Cons)
  with assms have "Inv (K_Stop i tx tag t m info c # K) (fst (queue_stop i tx tag t m info s))"
    by (rule Inv_queue_stop)
  then have "Inv K (finish_stop i tx (fst (queue_stop i tx tag t m info s)))"
    by (rule Inv_finish_stop) simp
  then show ?thesis
    unfolding stop_failed_def by (auto split: prod.split intro!: quiet_invs Inv_arm_sync_retry_if_idle)
qed

lemma physical_connectorD:
  "physical_connector s i = Inr c \<Longrightarrow> \<not> is_station i \<and> c \<in> set (s_connectors s) \<and> c_id c = i
     \<and> find_connector s i = Some c"
  using find_connectorD [of s i c] by (auto simp: physical_connector_def split: if_splits option.splits)

lemma stoppable_local:
  assumes i: "Inv K s" and c: "c \<in> set (s_connectors s)"
    and st: "stoppable s c = Inr (tx, t, m, tag)" and l: "is_local tx"
  shows "oq_find_by_tx_on (s_queue s) (c_id c) tx \<noteq> None"
proof (cases "c_transaction c")
  case (PendingStart p)
  then have "tx = ps_tx_id p \<and> (\<exists>e\<in>set (s_queue s). ox_tx_id e = ps_tx_id p)"
    using st unfolding stoppable_def by (simp split: if_splits)
  then obtain e where e: "e \<in> set (s_queue s)" "ox_tx_id e = tx" "tx = ps_tx_id p" by blast
  from pending_owner [OF i e(1) c PendingStart trans [OF e(2,3)]]
  have conn: "ox_connector e = c_id c" by blast
  show ?thesis
  proof
    assume "oq_find_by_tx_on (s_queue s) (c_id c) tx = None"
    from oq_find_by_tx_on_NoneD [OF this e(1)] e(2) conn show False by blast
  qed
next
  case (Active a)
  with InvD(3) [OF i c] st l show ?thesis by (simp add: stoppable_def)
qed (use st in \<open>simp_all add: stoppable_def\<close>)

lemma Inv_stop_local:
  assumes "Inv K s" and "is_local tx \<Longrightarrow> oq_find_by_tx_on (s_queue s) i tx \<noteq> None"
  shows "Inv K (finish_stop i tx (fst (queue_stop i tx tag t m info s)))"
  by (intro Inv_finish_stop_plain Inv_queue_stop_any assms)

lemma Inv_stop_online:
  assumes i: "Inv K s" and tx: "\<not> is_local tx"
    and x: "\<And>c. st_tx_id (x c) = tx"
  shows "Inv K (call (stop_failed i tx tag t m info k) From_Station rq (K_Stop i tx tag t m info k)
    (status_changed i (update_connector i (\<lambda>c. c\<lparr>c_transaction := Stopping (x c)\<rparr>) s)))"
proof -
  let ?k = "K_Stop i tx tag t m info k"
  have "Inv (?k # K) (update_connector i (\<lambda>c. c\<lparr>c_transaction := Stopping (x c)\<rparr>) s)"
    using tx by (intro Inv_update Inv_add i) (auto simp: x flight_Cons)
  then have "Inv (?k # K) (status_changed i (update_connector i (\<lambda>c. c\<lparr>c_transaction := Stopping (x c)\<rparr>) s))"
    by (intro quiet_invs)
  then show ?thesis by (intro Inv_call Inv_stop_failed)
qed

lemma Inv_stop_transaction [invs]:
  assumes i0: "Inv K s0"
  shows "Inv K (stop_transaction i reason tag_opt k s0)"
proof -
  define s where "s = flush_meters s0"
  have i: "Inv K s" unfolding s_def by (intro quiet_invs i0)
  show ?thesis
  proof (cases "physical_connector s i")
    case (Inl e)
    then show ?thesis using i by (simp add: stop_transaction_def Let_def quiet_invs flip: s_def)
  next
    case (Inr c)
    note c = physical_connectorD [OF Inr]
    show ?thesis
    proof (cases "stoppable s c")
      case (Inl why)
      then show ?thesis using Inr i by (simp add: stop_transaction_def Let_def quiet_invs flip: s_def)
    next
      case st: (Inr r)
      obtain tx t m tag where r: "r = (tx, t, m, tag)" by (cases r)
      obtain ev status where ev: "state_after_stop reason (c_ev_connected c) (c_availability c) = (ev, status)"
        by force
      obtain s1 rd where rd: "station_meter_reading i False s = (s1, rd)" by force
      define s2 where "s2 = clear_invalid_limit i (timer_cancel (T_MeterPeriodic i)
          (update_connector i (\<lambda>c. c\<lparr>c_ev_connected := ev, c_status := status\<rparr>) s1))"
      have q1: "quiet s s1" using quiet_station_meter_reading [of s i False] rd by simp
      have i1: "Inv K s1" by (rule Inv_quiet [OF i q1])
      have i2: "Inv K s2" unfolding s2_def by (intro quiet_invs Inv_calm_update i1) simp_all
      have q2: "s_queue s2 = s_queue s"
        unfolding s2_def using quiet_queue [OF q1]
        by (simp add: clear_invalid_limit_def timer_cancel_def)
      have fnd: "oq_find_by_tx_on (s_queue s2) i tx \<noteq> None" if "is_local tx"
        using stoppable_local [OF i conjunct1 [OF conjunct2 [OF c]] st [unfolded r] that] c q2 by simp
      note unfolds = stop_transaction_def Let_def s_def [symmetric] Inr st r ev rd sum.case prod.case
        s2_def [symmetric]
      show ?thesis
      proof (cases "is_local tx \<or> \<not> can_talk s2")
        case True
        show ?thesis
          unfolding unfolds if_P [OF True]
          by (intro quiet_invs Inv_if Inv_start_offline_sync Inv_stop_local i2 fnd)
      next
        case False
        then obtain w where w: "wire tx = Some w" "\<not> is_local tx" by (cases tx) auto
        show ?thesis
          unfolding unfolds if_not_P [OF False] w(1) option.case
          by (rule Inv_stop_online [OF i2 w(2)]) simp
      qed
    qed
  qed
qed

subsection \<open>Starting\<close>

lemma calm_begin_charging: "calm s (begin_charging i tag s)"
proof -
  let ?u = "update_connector i (\<lambda>c. (fst (clear_reservation c))
      \<lparr>c_status := Charging, c_last_id_tag := Some tag\<rparr>) s"
  have "calm s ?u" by (rule calm_update) simp_all
  moreover have "quiet ?u (begin_charging i tag s)"
    unfolding begin_charging_def by (intro quiets [THEN [2] quiet_trans] quiet_refl)
  ultimately show ?thesis by (blast intro: calm_trans quiet_calm)
qed

lemma Inv_pending_start:
  assumes i: "Inv K s" and id: "\<And>c. c_id (f c) = c_id c"
    and t: "\<And>c. c_transaction (f c) = PendingStart p" and p: "ps_tx_id p = Local (s_next_local s + 1)"
  shows "Inv (K_Start i (Local (s_next_local s + 1)) p k # K)
     (update_connector i f (s\<lparr>s_next_local := s_next_local s + 1\<rparr>))"
proof -
  let ?s = "s\<lparr>s_next_local := s_next_local s + 1\<rparr>"
  have "Inv K ?s" by (rule Inv_next_local [OF i]) simp
  moreover have "s_next_local s + 1 \<notin> set (oq_keys (s_queue s))"
    using Inv_keys_below [OF i] by (force simp: keys_below_def oq_keys_def)
  ultimately have "Inv (K_Start i (Local (s_next_local s + 1)) p k # K) ?s"
    using p by (intro Inv_add) simp_all
  then show ?thesis
    by (rule Inv_update) (use p in \<open>auto simp: id t flight_Cons\<close>)
qed

lemma Inv_start_offline:
  assumes i: "Inv K s" and id: "\<And>c. c_id (f c) = c_id c"
    and t: "\<And>c. c_transaction (f c) = PendingStart p" and p: "ps_tx_id p = Local (s_next_local s + 1)"
    and e: "ox_key e = s_next_local s + 1" "ox_connector e = i" "ox_tx_id e = Local (s_next_local s + 1)"
      "ox_start_pending e"
  shows "Inv K (push_queue e (begin_charging i tag (clear_invalid_limit i
     (update_connector i f (s\<lparr>s_next_local := s_next_local s + 1\<rparr>)))))"
proof -
  let ?n = "s_next_local s" and ?k = "K_Start i (Local (s_next_local s + 1)) p Ignore"
  let ?s = "update_connector i f (s\<lparr>s_next_local := ?n + 1\<rparr>)"
  let ?t = "begin_charging i tag (clear_invalid_limit i ?s)"
  have c: "calm ?s ?t"
    by (rule calm_trans [OF quiet_calm calm_begin_charging]) (rule quiets)
  have "calm s (s\<lparr>s_next_local := ?n + 1\<rparr>)" by (simp add: calm_def tx_view_def conts_def tokens_ok_def)
  then have "keys_below ?n K ?s"
    by (intro keys_below_update keys_below_calm [OF Inv_keys_below [OF i]])
  then have below: "keys_below ?n K ?t" by (rule keys_below_calm [OF _ c])
  have inv: "Inv (?k # K) ?t" by (rule Inv_calm [OF Inv_pending_start [OF i id t p] c])
  have later: "?n + 1 \<le> s_next_local ?t" using c by (simp add: calm_def)
  show ?thesis
    by (rule Inv_push [OF inv below, where k = ?k]) (use e later in \<open>auto simp: entry_wf_def\<close>)
qed

lemma Inv_start_online:
  assumes i: "Inv K s" and id: "\<And>c. c_id (f c) = c_id c"
    and t: "\<And>c. c_transaction (f c) = PendingStart p" and p: "ps_tx_id p = Local (s_next_local s + 1)"
  shows "Inv K (call (start_failed i (Local (s_next_local s + 1)) k) From_Station rq
     (K_Start i (Local (s_next_local s + 1)) p k)
     (status_changed i (clear_invalid_limit i
       (update_connector i f (s\<lparr>s_next_local := s_next_local s + 1\<rparr>)))))"
proof -
  have "Inv (K_Start i (Local (s_next_local s + 1)) p k # K)
      (status_changed i (clear_invalid_limit i
        (update_connector i f (s\<lparr>s_next_local := s_next_local s + 1\<rparr>))))"
    by (intro quiet_invs Inv_pending_start i id t p)
  then show ?thesis by (intro Inv_call Inv_start_failed)
qed

lemma Inv_start_transaction [invs]:
  assumes i0: "Inv K s0"
  shows "Inv K (start_transaction i tag k s0)"
proof -
  define s where "s = flush_meters s0"
  have i: "Inv K s" unfolding s_def by (intro quiet_invs i0)
  note unfolds = start_transaction_def next_key_def Let_def prod.case s_def [symmetric]
  show ?thesis
  proof (cases "physical_connector s i")
    case (Inl e)
    then show ?thesis unfolding unfolds by (simp add: quiet_invs i)
  next
    case c: (Inr c)
    show ?thesis
    proof (cases "start_rejection c tag (known_parent tag (s_now s) (s_local_list s) (s_auth_cache s)) (s_now s)")
      case (Some reason)
      with c show ?thesis unfolding unfolds by (simp add: quiet_invs i del: complete.simps)
    next
      case ok: None
      show ?thesis
      proof (cases "local_refusal s tag")
        case (Some status)
        with c ok show ?thesis unfolding unfolds by (simp add: quiet_invs i del: complete.simps)
      next
        case None
        show ?thesis
          unfolding unfolds c ok None sum.case option.case
          by (intro Inv_if quiet_invs Inv_start_online Inv_start_offline i) (simp_all split: if_split, simp)
      qed
    qed
  qed
qed

lemma Inv_check_energy_limit [invs]: "Inv K s \<Longrightarrow> Inv K (check_energy_limit i s)"
  unfolding check_energy_limit_def
  by (auto split: option.split intro!: Inv_stop_transaction quiet_invs)

lemma Inv_authorized [invs]: "Inv K s \<Longrightarrow> Inv K (authorized k res s)"
  by (cases k)
     (auto simp: begin_remote_start_def remote_start_reply_def Let_def split: sum.split
       intro!: Inv_start_transaction Inv_respond quiet_invs)

lemma Inv_authorize_failed [invs]: "Inv K s \<Longrightarrow> Inv K (authorize_failed k e s)"
  unfolding authorize_failed_def by (rule invs)

lemma Inv_authorize_answered [invs]: "Inv K s \<Longrightarrow> Inv K (authorize_answered tag k info s)"
  using quiet_invs quiet_apply_verdict [of s tag info]
  by (auto simp: authorize_answered_def split: prod.split intro!: Inv_authorized intro: Inv_quiet)

lemma Inv_call_plain:
  assumes "Inv K s" and "\<And>n q. cont_ok n q k" and "\<And>e. Inv K s \<Longrightarrow> Inv K (f e s)"
  shows "Inv K (call f orig rq k s)"
  using assms by (intro Inv_call Inv_add) auto

lemma Inv_authorize [invs]: "Inv K s \<Longrightarrow> Inv K (authorize tag k s)"
  by (auto simp: authorize_def intro!: Inv_authorized Inv_call_plain Inv_authorize_failed)

subsection \<open>CALLs leave \<open>s_calls\<close>\<close>

lemma Inv_calls:
  assumes i: "Inv K s" and sub: "set cs \<subseteq> set (s_calls s)" "sorted_wrt (<) (map fst cs)"
    and K': "set K' \<subseteq> flight K s"
    and keep: "\<And>k j tx. k \<in> flight K s \<Longrightarrow> starts j tx k \<or> stops j tx k \<Longrightarrow>
      k \<in> set K' \<union> set (map (pc_cont \<circ> snd) cs)"
  shows "Inv K' (s\<lparr>s_calls := cs\<rparr>)"
proof -
  let ?s = "s\<lparr>s_calls := cs\<rparr>"
  have fl: "flight K' ?s = set K' \<union> set (map (pc_cont \<circ> snd) cs)" by (simp add: flight_def conts_def)
  have sub': "flight K' ?s \<subseteq> flight K s"
    using K' sub(1) by (auto simp: flight_def conts_def)
  have tx: "tx_ok K' ?s j t" if "tx_ok K s j t" for j t
  proof (cases t)
    case (PendingStart p)
    with that obtain key where "ps_tx_id p = Local key"
      "(\<exists>k\<in>flight K s. starts j (Local key) k) \<or> queued_start s j key \<or> dropped_start s j key" by auto
    with PendingStart show ?thesis
      by (auto simp: fl queued_start_def dropped_start_def dest: keep)
  next
    case (Stopping x)
    with that obtain k where "\<not> is_local (st_tx_id x)" "k \<in> flight K s" "stops j (st_tx_id x) k" by auto
    moreover from this keep have "k \<in> flight K' ?s" unfolding fl by blast
    ultimately show ?thesis using Stopping by auto
  qed (use that in simp_all)
  have "tokens_ok ?s"
    using InvD(5) [OF i] sub by (simp add: tokens_ok_def) blast
  with tx i sub' show ?thesis
    by (auto simp: Inv_def ids_ok_def queue_ok_def drops_ok_def)
qed

lemma abandon_samples_spec:
  "abandon_samples limit ts calls w = (ts', cs', w') \<Longrightarrow>
   set ts' \<subseteq> set ts \<and> (\<exists>D. D \<subseteq> set ts \<and> cs' = filter (\<lambda>(u, _). u \<notin> D) calls)"
proof (induction limit ts calls w arbitrary: ts' cs' w' rule: abandon_samples.induct)
  case (1 limit calls w)
  then show ?case by (auto intro!: exI [of _ "{}"] simp: filter_id_conv)
next
  case (2 limit t ts calls w)
  consider "length (t # ts) < limit" | "length (t # ts) \<ge> limit" "map_of calls t = None"
    | "length (t # ts) \<ge> limit" "map_of calls t \<noteq> None" by linarith
  then show ?case
  proof cases
    case 1
    with 2(3) show ?thesis by (auto intro!: exI [of _ "{}"] simp: filter_id_conv)
  next
    case unknown: 2
    from 2(3) unknown have "abandon_samples limit ts calls w = (ts', cs', w')" by simp
    from 2(1) [OF unknown this] show ?thesis by (auto intro: subset_insertI2)
  next
    case 3
    with 2(3) have "abandon_samples limit ts (filter (\<lambda>(u, _). u \<noteq> t) calls) True = (ts', cs', w')"
      by auto
    from 2(2) [OF 3 this] obtain D where "set ts' \<subseteq> set ts" "D \<subseteq> set ts"
      "cs' = filter (\<lambda>(u, _). u \<notin> D) (filter (\<lambda>(u, _). u \<noteq> t) calls)" by blast
    then show ?thesis
      by (intro conjI exI [of _ "insert t D"]) (auto simp: filter_filter intro!: filter_cong)
  qed
qed

lemma sorted_wrt_filter_fst:
  "sorted_wrt (<) (map fst cs) \<Longrightarrow> sorted_wrt (<) (map fst (filter P cs))"
  by (induction cs) auto

lemma Inv_make_room [invs]:
  assumes i: "Inv K s"
  shows "Inv K (make_room_for_sample s)"
proof -
  let ?live = "filter (\<lambda>t. map_of (s_calls s) t \<noteq> None) (s_sample_calls s)"
  obtain ts cs w where a: "abandon_samples (max MAX_PENDING_SAMPLES (length (s_connectors s))) ?live
      (s_calls s) (s_sample_overflow_warned s) = (ts, cs, w)" by (metis prod_cases3)
  from abandon_samples_spec [OF a] obtain D where D: "set ts \<subseteq> set ?live" "D \<subseteq> set ?live"
    "cs = filter (\<lambda>(u, _). u \<notin> D) (s_calls s)" by blast
  have samples: "is_sample (pc_cont pc)" if "(t, pc) \<in> set (s_calls s)" "t \<in> D" for t pc
    using InvD(5) [OF i] that D(2) by (auto simp: tokens_ok_def)
  have "Inv K (s\<lparr>s_calls := cs\<rparr>)"
  proof (rule Inv_calls [OF i])
    show "set cs \<subseteq> set (s_calls s)" using D(3) by auto
    show "sorted_wrt (<) (map fst cs)"
      using InvD(5) [OF i] D(3) by (simp add: tokens_ok_def sorted_wrt_filter_fst)
    show "set K \<subseteq> flight K s" by (simp add: flight_def)
    fix k j tx assume "k \<in> flight K s" "starts j tx k \<or> stops j tx k"
    moreover from this have "\<not> is_sample k" by (cases k) auto
    ultimately show "k \<in> set K \<union> set (map (pc_cont \<circ> snd) cs)"
      using samples D(3) by (fastforce simp: flight_def conts_def image_iff)
  qed
  then have "Inv K (s\<lparr>s_sample_calls := ts, s_calls := cs, s_sample_overflow_warned := w\<rparr>)"
    by (rule Inv_cong)
       (use D(1) in \<open>auto simp: flight_def conts_def tokens_ok_def\<close>)
  then show ?thesis unfolding make_room_for_sample_def a Let_def prod.case .
qed

subsection \<open>Samples\<close>

lemma Inv_sample_failed [invs]: "Inv K s \<Longrightarrow> Inv K (sample_failed i ro e s)"
  unfolding sample_failed_def by (intro Inv_check_energy_limit quiet_invs)

lemma Inv_sample_answered [invs]: "Inv K s \<Longrightarrow> Inv K (sample_answered i ro s)"
  unfolding sample_answered_def by (intro Inv_check_energy_limit quiet_invs)

lemma make_room_for_sample_fields:
  "s_link (make_room_for_sample s) = s_link s" "s_registration (make_room_for_sample s) = s_registration s"
  by (simp_all add: make_room_for_sample_def Let_def split: prod.split)

lemma can_talk_quiet: "quiet s s' \<Longrightarrow> can_talk s' = can_talk s"
  unfolding quiet_def by (elim conjE, rule core_can_talk)

lemma call_can_talk: "can_talk s \<Longrightarrow> call f From_Station rq k s = submit From_Station rq k s"
  by (simp add: call_def call_refused_can_talk)

lemma Inv_remember_sample:
  assumes i: "Inv K s"
  shows "Inv K ((submit From_Station rq (K_Sample c ro) s)
    \<lparr>s_sample_calls := s_sample_calls (submit From_Station rq (K_Sample c ro) s) @ [s_next_call_token s]\<rparr>)"
proof -
  let ?s = "submit From_Station rq (K_Sample c ro) s"
  have s: "Inv K ?s" by (intro Inv_submit Inv_add i) simp
  have same: "s_sample_calls ?s = s_sample_calls s" by (rule core_fieldsD(10) [OF core_submit])
  let ?t = "?s\<lparr>s_sample_calls := s_sample_calls ?s @ [s_next_call_token s]\<rparr>"
  have old: "u < s_next_call_token s" if "u \<in> fst ` set (s_calls s)" for u
    using InvD(5) [OF i] that by (auto simp: tokens_ok_def)
  have "tokens_ok ?t"
    unfolding tokens_ok_def
  proof (intro conjI)
    show "sorted_wrt (<) (map fst (s_calls ?t))" using InvD(5) [OF s] by (simp add: tokens_ok_def)
    show "\<forall>u\<in>fst ` set (s_calls ?t) \<union> set (s_sample_calls ?t). u < s_next_call_token ?t"
      using InvD(5) [OF s] by (auto simp: tokens_ok_def submit_fields(2))
    show "\<forall>(u, pc)\<in>set (s_calls ?t). u \<in> set (s_sample_calls ?t) \<longrightarrow> is_sample (pc_cont pc)"
      using InvD(5) [OF i] old unfolding tokens_ok_def
      by (force simp: submit_fields(1) same)
  qed
  then show ?thesis
    by (intro Inv_cong [OF s]) (auto simp: flight_def conts_def)
qed

lemma Inv_sample_meter [invs]:
  assumes i0: "Inv K s0"
  shows "Inv K (sample_meter i context delta_wh ms ro s0)"
proof -
  define s where "s = flush_meters s0"
  have i: "Inv K s" unfolding s_def by (intro quiet_invs i0)
  show ?thesis
  proof (cases "find_connector s i")
    case None
    then show ?thesis by (simp add: sample_meter_def s_def [symmetric] Let_def quiet_invs i)
  next
    case (Some c)
    define s1 where "s1 = update_connector i (\<lambda>c. c\<lparr>c_meter_wh := min (c_meter_wh c + delta_wh) u64_max\<rparr>) s"
    define s2 where "s2 = (if 0 < delta_wh then mark_dirty s1 else s1)"
    have i2: "Inv K s2"
      unfolding s2_def s1_def by (intro Inv_if quiet_invs Inv_calm_update i) simp_all
    obtain s3 rd where rd: "station_meter_reading i True s2 = (s3, rd)" by force
    define s4 where "s4 = (if ro = None then make_room_for_sample s3 else s3)"
    have q3: "quiet s2 s3" using quiet_station_meter_reading [of s2 i True] rd by simp
    have i4: "Inv K s4"
      unfolding s4_def by (intro Inv_if Inv_make_room Inv_quiet [OF i2 q3])
    note unfolds = sample_meter_def Let_def s_def [symmetric] Some option.case s1_def [symmetric]
      s2_def [symmetric] rd prod.case s4_def [symmetric]
    show ?thesis
    proof (cases "can_talk s2 \<and> \<not> is_some_and (c_tx_id c) is_local")
      case False
      then show ?thesis
        unfolding unfolds by (simp add: Inv_check_energy_limit quiet_invs i2)
    next
      case True
      then have "can_talk s4"
        using can_talk_quiet [OF q3] by (simp add: s4_def can_talk_def make_room_for_sample_fields)
      then show ?thesis
        unfolding unfolds using True
        by (simp add: call_can_talk Inv_remember_sample i4)
           (auto intro!: Inv_submit Inv_add i4)
    qed
  qed
qed

lemma Inv_meter_values_command [invs]: "Inv K s \<Longrightarrow> Inv K (meter_values_command i d mso r s)"
  unfolding meter_values_command_def
  by (auto split: sum.split intro: quiet_invs Inv_sample_meter)

lemma Inv_on_meter_periodic [invs]: "Inv K s \<Longrightarrow> Inv K (on_meter_periodic i s)"
  unfolding on_meter_periodic_def Let_def by (auto intro!: Inv_sample_meter intro: quiet_invs)

lemma Inv_on_meter_aligned [invs]: "Inv K s \<Longrightarrow> Inv K (on_meter_aligned s)"
  unfolding on_meter_aligned_def Let_def
  by (auto split: option.split intro!: Inv_foldl Inv_sample_meter intro: quiet_invs)

subsection \<open>Requests of the central system\<close>

lemma Inv_connectors:
  "Inv K s \<Longrightarrow> map (\<lambda>c. (c_id c, c_transaction c)) cs = map (\<lambda>c. (c_id c, c_transaction c)) (s_connectors s) \<Longrightarrow>
   Inv K (s\<lparr>s_connectors := cs\<rparr>)"
  by (erule Inv_calm) (simp add: calm_def tx_view_def conts_def tokens_ok_def)

lemma update_view:
  "i < length cs \<Longrightarrow> c_id c = c_id (cs ! i) \<Longrightarrow> c_transaction c = c_transaction (cs ! i) \<Longrightarrow>
   map (\<lambda>c. (c_id c, c_transaction c)) (cs[i := c]) = map (\<lambda>c. (c_id c, c_transaction c)) cs"
  by (simp add: map_update list_update_same_conv)

lemma reservation_views:
  "map (\<lambda>c. (c_id c, c_transaction c)) (fst (expire_due cs now)) = map (\<lambda>c. (c_id c, c_transaction c)) cs"
  "map (\<lambda>c. (c_id c, c_transaction c)) (fst (cancel_reservation cs n)) = map (\<lambda>c. (c_id c, c_transaction c)) cs"
  "map (\<lambda>c. (c_id c, c_transaction c)) (fst (reserve_now cs rq now z)) = map (\<lambda>c. (c_id c, c_transaction c)) cs"
proof -
  show "map (\<lambda>c. (c_id c, c_transaction c)) (fst (expire_due cs now)) = map (\<lambda>c. (c_id c, c_transaction c)) cs"
    by (simp add: expire_due_eq)
  show "map (\<lambda>c. (c_id c, c_transaction c)) (fst (cancel_reservation cs n)) = map (\<lambda>c. (c_id c, c_transaction c)) cs"
    by (auto simp: cancel_reservation_def Let_def split: option.split dest!: position_SomeD intro!: update_view)
  show "map (\<lambda>c. (c_id c, c_transaction c)) (fst (reserve_now cs rq now z)) = map (\<lambda>c. (c_id c, c_transaction c)) cs"
  proof (cases "reserve_now cs rq now z")
    case (Pair cs' r)
    show ?thesis
    proof (cases r)
      case (Inl e)
      with Pair reserve_now_Inl show ?thesis by fastforce
    next
      case (Inr t)
      with Pair have eq: "reserve_now cs rq now z = (cs', Inr t)" by simp
      from reserve_now_InrE [OF eq] obtain i where "i < length cs"
        "cs' = cs[i := (cs ! i)\<lparr>c_reservation := Some (reservation_of rq), c_status := Reserved\<rparr>]" .
      then show ?thesis unfolding eq fst_conv by (simp only:) (rule update_view; simp)
    qed
  qed
qed

end
