(* ===== verification/Reachable.thy ===== *)
theory Reachable
  imports Station_Safe
begin

text \<open>
  The requests of the central system, the user's commands, the timers, the end of a CALL and the
  loss of the link keep the invariant; \<open>reachable\<close> is the set of states the actor loop produces
  from a fresh station, by any sequence of wake-ups at any times.
\<close>

subsection \<open>Handlers\<close>

lemma Inv_availability_target:
  "Inv K s \<Longrightarrow> Inv K (fst (availability_target kind (s, b, cs) i))"
  by (auto simp: availability_target_def Let_def split: option.split intro!: Inv_calm_update)

lemma Inv_availability_targets:
  "Inv K (fst acc) \<Longrightarrow> Inv K (fst (foldl (availability_target kind) acc is))"
proof (induction "is" arbitrary: acc)
  case (Cons i "is")
  obtain s b cs where "acc = (s, b, cs)" by (cases acc)
  with Cons.prems have "Inv K (fst (availability_target kind acc i))"
    using Inv_availability_target by simp
  from Cons.IH [OF this] show ?case by simp
qed simp

lemma Inv_change_availability [invs]:
  assumes i: "Inv K s"
  shows "Inv K (change_availability r i kind s)"
proof (cases "\<not> is_station i \<and> (\<exists>e. physical_connector s i = Inl e)")
  case True
  then show ?thesis unfolding change_availability_def Let_def by (simp add: Inv_respond i)
next
  case False
  let ?acc = "if is_station i then (set_station_availability kind s, False, [STATION]) else (s, False, [])"
  let ?targets = "if is_station i then map c_id (s_connectors s) else [i]"
  obtain s2 scheduled changed where f: "foldl (availability_target kind) ?acc ?targets = (s2, scheduled, changed)"
    by (metis prod_cases3)
  have "Inv K (fst ?acc)"
    using i by (auto simp: set_station_availability_def intro: Inv_calm simp: calm_def tx_view_def conts_def tokens_ok_def)
  from Inv_availability_targets [OF this, of kind ?targets] f have "Inv K s2" by simp
  then show ?thesis
    using False f unfolding change_availability_def Let_def
    by (auto intro!: Inv_foldl Inv_respond quiet_invs)
qed

lemma Inv_unlock_connector [invs]: "Inv K s \<Longrightarrow> Inv K (unlock_connector r i s)"
  unfolding unlock_connector_def Let_def
  by (auto split: sum.split intro!: Inv_stop_transaction Inv_respond)

lemma Inv_release_expired: "Inv K s \<Longrightarrow> Inv K (fst (release_expired_reservations s))"
proof -
  assume i: "Inv K s"
  obtain cs rel where e: "expire_due (s_connectors s) (s_now s) = (cs, rel)" by force
  have "Inv K (s\<lparr>s_connectors := cs\<rparr>)"
    using reservation_views(1) [of "s_connectors s" "s_now s"] e by (intro Inv_connectors [OF i]) simp
  then have "Inv K (foldl released_one (s\<lparr>s_connectors := cs\<rparr>) rel)"
    by (rule Inv_foldl [rotated]) (auto simp: released_one_def intro!: quiet_invs)
  then show ?thesis
    by (cases "rel = []") (simp_all add: release_expired_reservations_def e Let_def quiet_invs)
qed

lemma Inv_arm_live: "Inv K s \<Longrightarrow> Inv K (arm_live s i)"
  unfolding arm_live_def by (auto split: option.split intro: quiet_invs)

lemma Inv_on_reservation_timer [invs]: "Inv K s \<Longrightarrow> Inv K (on_reservation_timer s)"
  unfolding on_reservation_timer_def Let_def by (intro Inv_foldl Inv_arm_live Inv_release_expired)

lemma Inv_arm_reservation [invs]: "Inv K s \<Longrightarrow> Inv K (arm_reservation i s)"
  unfolding arm_reservation_def by (auto split: option.split intro: Inv_on_reservation_timer Inv_arm_live)

lemma Inv_reserve_now_handler [invs]:
  assumes i0: "Inv K s0"
  shows "Inv K (reserve_now_handler r rq s0)"
proof -
  define s where "s = fst (release_expired_reservations s0)"
  have i: "Inv K s" unfolding s_def by (rule Inv_release_expired [OF i0])
  define moved where "moved = map_option c_id (find (\<lambda>c. holds_id (rq_reservation_id rq) c
                         \<and> c_id c \<noteq> rq_connector_id rq) (s_connectors s))"
  define trial where "trial = (if moved \<noteq> None
    then fst (cancel_reservation (s_connectors s) (rq_reservation_id rq)) else s_connectors s)"
  obtain cs res where rn: "reserve_now trial rq (s_now s) (reserve_connector_zero_supported (s_registry s)) = (cs, res)"
    by force
  have "map (\<lambda>c. (c_id c, c_transaction c)) cs = map (\<lambda>c. (c_id c, c_transaction c)) (s_connectors s)"
    using reservation_views(3) [of trial rq "s_now s" "reserve_connector_zero_supported (s_registry s)"]
      reservation_views(2) [of "s_connectors s" "rq_reservation_id rq"] rn
    by (simp add: trial_def split: if_splits)
  from Inv_connectors [OF i this] have c: "Inv K (s\<lparr>s_connectors := cs\<rparr>)" .
  show ?thesis
    unfolding reserve_now_handler_def Let_def s_def [symmetric] moved_def [symmetric] trial_def [symmetric]
      rn prod.case
    by (cases res; cases moved) (auto intro!: quiet_invs Inv_arm_reservation Inv_respond i c)
qed

lemma Inv_cancel_reservation_handler [invs]:
  assumes i: "Inv K s"
  shows "Inv K (cancel_reservation_handler r n s)"
proof -
  obtain cs io where c: "cancel_reservation (s_connectors s) n = (cs, io)" by force
  have "Inv K (s\<lparr>s_connectors := cs\<rparr>)"
    using reservation_views(2) [of "s_connectors s" n] c by (intro Inv_connectors [OF i]) simp
  then show ?thesis
    unfolding cancel_reservation_handler_def c prod.case
    by (cases io) (auto intro!: quiet_invs Inv_respond i)
qed

lemma Inv_remote_start [invs]: "Inv K s \<Longrightarrow> Inv K (remote_start r q tag po s)"
  unfolding remote_start_def Let_def remote_start_reply_def begin_remote_start_def
  by (auto split: option.split intro!: Inv_authorize Inv_start_transaction Inv_respond)

lemma Inv_remote_stop [invs]: "Inv K s \<Longrightarrow> Inv K (remote_stop r tx s)"
  unfolding remote_stop_def by (auto split: option.split intro!: Inv_stop_transaction Inv_respond)

lemma Inv_profile_handlers [invs]:
  "Inv K s \<Longrightarrow> Inv K (set_profile_handler r i p s)"
  "Inv K s \<Longrightarrow> Inv K (clear_profile_handler r f s)"
  "Inv K s \<Longrightarrow> Inv K (composite_handler r i d u s)"
proof -
  assume i: "Inv K s"
  have "Inv K (fst (set_charging_profile i p s))" using i by (intro quiet_invs)
  then show "Inv K (set_profile_handler r i p s)"
    by (auto simp: set_profile_handler_def split: prod.split intro!: Inv_respond)
  show "Inv K (clear_profile_handler r f s)"
    by (auto simp: clear_profile_handler_def split: prod.split intro!: Inv_respond quiet_invs i)
  show "Inv K (composite_handler r i d u s)"
    unfolding composite_handler_def Let_def
    by (auto split: prod.split intro!: Inv_respond quiet_invs i)
qed

lemma Inv_plug_in [invs]: "Inv K s \<Longrightarrow> Inv K (fst (plug_in i s))"
  unfolding plug_in_def Let_def
  by (auto split: sum.split intro!: quiet_invs Inv_calm_update)

lemma Inv_unplug [invs]: "Inv K s \<Longrightarrow> Inv K (unplug i k s)"
  unfolding unplug_def
  by (auto split: sum.split simp del: complete.simps intro!: quiet_invs Inv_stop_transaction Inv_calm_update)

lemma Inv_set_status [invs]: "Inv K s \<Longrightarrow> Inv K (fst (set_status i st s))"
  unfolding set_status_def Let_def
  by (auto split: option.split intro!: quiet_invs Inv_calm_update)

lemma Inv_cycle_status [invs]: "Inv K s \<Longrightarrow> Inv K (fst (cycle_status i s))"
  by (auto simp: cycle_status_def split: option.split intro: Inv_set_status)

lemma Inv_fault [invs]: "Inv K s \<Longrightarrow> Inv K (fault i code info vendor k s)"
  unfolding fault_def Let_def
  by (auto split: option.split simp del: complete.simps intro!: quiet_invs Inv_calm_update Inv_stop_transaction)

lemma Inv_clear_fault [invs]: "Inv K s \<Longrightarrow> Inv K (fst (clear_fault i s))"
  unfolding clear_fault_def Let_def
  by (auto split: option.split intro!: quiet_invs Inv_calm_update)

lemma foldl_max_upt: "foldl max 0 [1..<Suc n] = n"
  by (induction n) simp_all

lemma Inv_add_connector [invs]:
  assumes i: "Inv K s"
  shows "Inv K (fst (add_connector s))"
proof -
  let ?i = "foldl max 0 (map c_id (s_connectors s)) + 1"
  let ?s = "s\<lparr>s_connectors := s_connectors s @ [new_connector ?i],
                 s_registry := set_connector_count (s_registry s) ?i\<rparr>"
  have new: "c_id (new_connector ?i) = ?i" "c_transaction (new_connector ?i) = Idle"
    by (simp_all add: new_connector_def)
  let ?n = "length (s_connectors s)"
  have eq: "map c_id (s_connectors s) = [1..<Suc ?n]" using InvD(1) [OF i] by (simp only: ids_ok_def)
  have "?i = Suc ?n" unfolding eq using foldl_max_upt by simp
  then have ids: "ids_ok ?s" using eq new by (simp add: ids_ok_def)
  have fl: "flight K ?s = flight K s" by (simp add: flight_def conts_def)
  have "tx_ok K ?s j t" if "tx_ok K s j t" for j t
    using that fl by (cases t) (auto simp: queued_start_def dropped_start_def)
  then have "Inv K ?s"
    using i ids fl new by (auto simp: Inv_def queue_ok_def drops_ok_def tokens_ok_def)
  then show ?thesis
    unfolding add_connector_def Let_def fst_conv by (intro quiet_invs)
qed

subsection \<open>Boot, heartbeat and the end of a CALL\<close>

lemma Inv_boot_done [invs]: "Inv K s \<Longrightarrow> Inv K (boot_done g s)"
  by (auto simp: boot_done_def set_boot_in_flight_def intro: Inv_calm_step)

lemma Inv_boot_failed [invs]: "Inv K s \<Longrightarrow> Inv K (boot_failed g ro e s)"
  unfolding boot_failed_def Let_def by (auto intro!: quiet_invs Inv_boot_done)

lemma Inv_send_boot [invs]: "Inv K s \<Longrightarrow> Inv K (send_boot ro s)"
  unfolding send_boot_def Let_def set_boot_in_flight_def
  by (auto intro!: Inv_call_plain Inv_boot_failed intro: Inv_calm_step quiet_invs)

lemma Inv_on_boot_accepted [invs]:
  assumes i: "Inv K s"
  shows "Inv K (on_boot_accepted n s)"
proof -
  define s2 where "s2 = (if 0 < n
      then s\<lparr>s_link := (s_link s)\<lparr>lk_attempts := 0\<rparr>,
        s_registry := fst (cfg_change (s_registry s) ''HeartbeatInterval'' (show_int n))\<rparr>
      else s\<lparr>s_link := (s_link s)\<lparr>lk_attempts := 0\<rparr>\<rparr>)"
  define s4 where "s4 = (mark_dirty (arm_heartbeat (s2\<lparr>s_heartbeat_interval_secs :=
      heartbeat_interval_secs (s_registry s2)\<rparr>)))\<lparr>s_reset_retries := None\<rparr>"
  have "Inv K s2" unfolding s2_def by (intro Inv_if Inv_calm_step i)
  then have "Inv K s4" unfolding s4_def arm_heartbeat_def by (intro quiet_invs)
  moreover obtain s5 count where st: "start_offline_sync True s4 = (s5, count)" by force
  ultimately have "Inv K s5" using Inv_start_offline_sync [of K s4 True] by simp
  moreover have "on_boot_accepted n s = (if count = 0 then finish_boot_accepted s5 else s5)"
    using st by (cases "0 < n") (simp_all add: on_boot_accepted_def Let_def s2_def s4_def)
  ultimately show ?thesis by (simp add: quiet_invs)
qed

lemma Inv_boot_not_accepted [invs]: "Inv K s \<Longrightarrow> Inv K (boot_not_accepted n s)"
  unfolding boot_not_accepted_def Let_def
  by (auto split: option.split prod.split intro!: quiet_invs)

lemma Inv_boot_answered [invs]: "Inv K s \<Longrightarrow> Inv K (boot_answered g ro st t n s)"
  unfolding boot_answered_def Let_def
  by (intro quiet_invs Inv_if Inv_on_boot_accepted Inv_boot_not_accepted Inv_calm_step Inv_boot_done)

lemma Inv_heartbeat [invs]:
  "Inv K s \<Longrightarrow> Inv K (heartbeat_failed ro e s)" "Inv K s \<Longrightarrow> Inv K (heartbeat_answered ro t s)"
  by (auto simp: heartbeat_failed_def heartbeat_answered_def intro: quiet_invs)

lemma Inv_send_heartbeat [invs]: "Inv K s \<Longrightarrow> Inv K (send_heartbeat orig ro s)"
  unfolding send_heartbeat_def by (auto intro!: Inv_call_plain Inv_heartbeat)

lemma Inv_on_heartbeat_timer [invs]: "Inv K s \<Longrightarrow> Inv K (on_heartbeat_timer s)"
  by (auto simp: on_heartbeat_timer_def arm_heartbeat_def intro!: Inv_send_heartbeat quiet_invs)

lemma Inv_on_boot_retry_timer [invs]: "Inv K s \<Longrightarrow> Inv K (on_boot_retry_timer s)"
  by (auto simp: on_boot_retry_timer_def intro: Inv_send_boot)

text \<open>The heart: a continuation that is run accounts for the transaction it was kept for.\<close>

lemma Inv_failed:
  assumes i: "Inv (k # K) s"
  shows "Inv K (failed k e s)"
proof (cases k)
  case (K_Start c local p x)
  with i show ?thesis by (simp add: failed_def Inv_start_failed)
next
  case (K_Stop c tx tag t m info x)
  with i show ?thesis by (simp add: failed_def Inv_stop_failed)
qed (use Inv_drop [OF i] in \<open>simp_all add: failed_def Inv_authorize_failed Inv_sync_failed
        Inv_sample_failed Inv_boot_failed Inv_heartbeat quiet_invs\<close>)

lemma Inv_answered:
  assumes i: "Inv (k # K) s"
  shows "Inv K (answered k r s)"
proof (cases k)
  case (K_Start c local p x)
  with i Inv_failed [OF i, of Decode] show ?thesis
    by (cases r) (simp_all add: answered_def Inv_start_answered)
next
  case (K_Stop c tx tag t m info x)
  with i Inv_failed [OF i, of Decode] show ?thesis
    by (cases r) (simp_all add: answered_def Inv_stop_answered)
next
  case (K_SyncStop key)
  with i Inv_failed [OF i, of Decode] show ?thesis
    by (cases r) (simp_all add: answered_def Inv_sync_stop_answered)
qed (use Inv_drop [OF i] Inv_failed [OF i, of Decode] in
      \<open>cases r; simp add: answered_def Inv_authorize_answered Inv_sync_start_answered
        Inv_sample_answered Inv_boot_answered Inv_heartbeat quiet_invs\<close>)+

lemma Inv_resume: "Inv (k # K) s \<Longrightarrow> Inv K (resume k res s)"
  by (auto simp: resume_def split: sum.split intro: Inv_failed Inv_answered)

lemma Inv_take_call:
  assumes i: "Inv [] s" and pc: "map_of (s_calls s) token = Some pc"
  shows "Inv [pc_cont pc] (s\<lparr>s_calls := filter (\<lambda>(t, _). t \<noteq> token) (s_calls s)\<rparr>)"
proof (rule Inv_calls [OF i])
  have tok: "sorted_wrt (<) (map fst (s_calls s))" using InvD(5) [OF i] by (simp add: tokens_ok_def)
  then show "sorted_wrt (<) (map fst (filter (\<lambda>(t, _). t \<noteq> token) (s_calls s)))"
    by (rule sorted_wrt_filter_fst)
  have "distinct (map fst (s_calls s))" using tok by (simp add: strict_sorted_iff)
  then have one: "pc' = pc" if "(token, pc') \<in> set (s_calls s)" for pc'
    using that pc by (simp add: map_of_is_SomeI)
  show "set [pc_cont pc] \<subseteq> flight [] s"
    using map_of_SomeD [OF pc] by (force simp: flight_def conts_def)
  fix k j tx assume "k \<in> flight [] s"
  then obtain t pc' where "(t, pc') \<in> set (s_calls s)" "k = pc_cont pc'"
    by (auto simp: flight_def conts_def)
  with one show "k \<in> set [pc_cont pc] \<union> set (map (pc_cont \<circ> snd)
      (filter (\<lambda>(t, _). t \<noteq> token) (s_calls s)))"
    by (cases "t = token") force+
qed simp

lemma Inv_on_call_done: "Inv [] s \<Longrightarrow> Inv [] (on_call_done token gen res s)"
  unfolding on_call_done_def
  by (auto split: option.split intro!: Inv_resume Inv_take_call)

subsection \<open>The link\<close>

lemma Inv_fail_list:
  "Inv (map (pc_cont \<circ> snd) cs @ K) s \<Longrightarrow> Inv K (foldl (\<lambda>s' (_, pc). failed (pc_cont pc) e s') s cs)"
  by (induction cs arbitrary: s) (auto dest: Inv_failed [where e = e])

lemma Inv_fail_pending:
  assumes i: "Inv [] s"
  shows "Inv [] (fail_pending_calls e s)"
proof -
  have "Inv (map (pc_cont \<circ> snd) (sort_key fst (s_calls s))) (s\<lparr>s_calls := []\<rparr>)"
    by (rule Inv_calls [OF i]) (auto simp: flight_def conts_def)
  then show ?thesis unfolding fail_pending_calls_def by (intro Inv_fail_list) simp
qed

lemma Inv_link_down: "Inv [] s \<Longrightarrow> Inv [] (link_down code s)"
  unfolding link_down_def Let_def
  by (intro quiet_invs Inv_fail_pending Inv_calm_step)

lemma Inv_start_connect [invs]: "Inv K s \<Longrightarrow> Inv K (start_connect s)"
  unfolding start_connect_def Let_def by (simp split: prod.split) (intro allI impI quiet_invs Inv_calm_step)

lemma Inv_connect [invs]: "Inv K s \<Longrightarrow> Inv K (connect s)"
  unfolding connect_def Let_def by (intro Inv_if Inv_start_connect quiet_invs Inv_calm_step)

lemma Inv_disconnect: "Inv [] s \<Longrightarrow> Inv [] (disconnect s)"
  unfolding disconnect_def Let_def by (intro quiet_invs Inv_link_down Inv_calm_step)

lemma Inv_schedule_reconnect [invs]: "Inv K s \<Longrightarrow> Inv K (schedule_reconnect s)"
  unfolding schedule_reconnect_def Let_def by (intro Inv_if quiet_invs Inv_calm_step)

lemma Inv_reconnect_for_hard_reset: "Inv [] s \<Longrightarrow> Inv [] (reconnect_for_hard_reset s)"
  unfolding reconnect_for_hard_reset_def Let_def
  by (intro Inv_start_connect quiet_invs Inv_calm_step Inv_link_down)

lemma Inv_on_connect_result [invs]: "Inv K s \<Longrightarrow> Inv K (on_connect_result gen failure s)"
  unfolding on_connect_result_def
  by (cases failure; simp only: option.case)
    (intro Inv_if Inv_send_boot Inv_schedule_reconnect quiet_invs Inv_calm_step; assumption)+

lemma Inv_on_closed: "Inv [] s \<Longrightarrow> Inv [] (on_closed code s)"
  unfolding on_closed_def by (intro Inv_schedule_reconnect quiet_invs Inv_link_down)

lemma Inv_on_reconnect_timer [invs]: "Inv K s \<Longrightarrow> Inv K (on_reconnect_timer s)"
  unfolding on_reconnect_timer_def by (intro Inv_if Inv_start_connect)

subsection \<open>Reset\<close>

lemma Inv_reset_one: "Inv K s \<Longrightarrow> Inv K (reset_one reason s i)"
  unfolding reset_one_def by (intro quiet_invs Inv_calm_update Inv_stop_transaction) simp_all

lemma Inv_unreserve_one: "Inv K s \<Longrightarrow> Inv K (unreserve_one s i)"
  unfolding unreserve_one_def by (intro quiet_invs Inv_calm_update) simp_all

lemma Inv_reset [invs]:
  assumes i: "Inv K s"
  shows "Inv K (reset r kind s)"
proof -
  show ?thesis
    unfolding reset_def perform_reset_def Let_def
    by (cases kind) (simp_all only: reset_type.case, (intro Inv_if quiet_invs Inv_calm_step Inv_foldl Inv_respond i
        Inv_unreserve_one Inv_reset_one; assumption?)+)
qed

lemma Inv_on_hard_reset_timer: "Inv [] s \<Longrightarrow> Inv [] (on_hard_reset_timer s)"
  unfolding on_hard_reset_timer_def
  by (auto split: option.split intro!: Inv_reconnect_for_hard_reset intro: quiet_invs)

subsection \<open>The other requests\<close>

lemma Inv_apply_configuration_change [invs]:
  "Inv K s \<Longrightarrow> Inv K (fst (apply_configuration_change key value s))"
  unfolding apply_configuration_change_def Let_def
  by (auto split: prod.split intro!: quiet_invs Inv_calm_step)

lemma Inv_configuration_handlers [invs]:
  "Inv K s \<Longrightarrow> Inv K (change_configuration r key v s)"
  "Inv K s \<Longrightarrow> Inv K (get_configuration_request r keys s)"
  "Inv K s \<Longrightarrow> Inv K (fst (set_configuration key v s))"
  using Inv_apply_configuration_change [of K s key v]
  unfolding change_configuration_def get_configuration_request_def set_configuration_def
  by (auto split: prod.split sum.split intro!: Inv_respond Inv_respond_error)

lemma Inv_data_handlers [invs]:
  "Inv K s \<Longrightarrow> Inv K (data_transfer r vendor data s)"
  "Inv K s \<Longrightarrow> Inv K (send_local_list_handler r rq s)"
  "Inv K s \<Longrightarrow> Inv K (get_version_handler r s)"
  "Inv K s \<Longrightarrow> Inv K (clear_cache_handler r s)"
  unfolding data_transfer_def send_local_list_handler_def get_version_handler_def clear_cache_handler_def Let_def
  by (auto split: prod.split intro!: Inv_respond quiet_invs)

lemma Inv_notify [invs]: "Inv K s \<Longrightarrow> Inv K (notify orig rq s)"
  unfolding notify_def by (rule Inv_call_plain) simp_all

lemma Inv_status_triggered [invs]: "Inv K s \<Longrightarrow> Inv K (send_status_forced i orig ro s)"
  unfolding send_status_forced_def dispatch_status_def Let_def
  by (auto split: option.split intro!: Inv_call_plain quiet_invs)

lemma Inv_triggered_meter_values [invs]: "Inv K s \<Longrightarrow> Inv K (triggered_meter_values s i)"
  using quiet_station_meter_reading [of s i False]
  unfolding triggered_meter_values_def Let_def
  by (auto split: prod.split intro!: Inv_notify intro: Inv_quiet)

lemma Inv_start_triggered [invs]: "Inv K s \<Longrightarrow> Inv K (start_triggered message connector s)"
  unfolding start_triggered_def
  by (cases message)
     (simp_all add: Inv_send_boot Inv_send_heartbeat Inv_notify Inv_foldl Inv_status_triggered
       Inv_triggered_meter_values)

lemma Inv_triggers [invs]:
  "Inv K s \<Longrightarrow> Inv K (trigger_message r message connector s)"
  "Inv K s \<Longrightarrow> Inv K (extended_trigger_message r extended connector s)"
  unfolding trigger_message_def extended_trigger_message_def start_extended_def Let_def
  by (auto split: option.split intro!: Inv_start_triggered Inv_notify Inv_respond quiet_invs)

lemma Inv_maintenance_handlers [invs]:
  "Inv K s \<Longrightarrow> Inv K (get_diagnostics r n d s)" "Inv K s \<Longrightarrow> Inv K (get_log r lq s)"
  "Inv K s \<Longrightarrow> Inv K (update_firmware r n d t s)"
  unfolding get_diagnostics_def get_log_def update_firmware_def Let_def
  by (intro quiet_invs Inv_respond Inv_if; assumption)+

lemma Inv_signed_update_firmware [invs]:
  assumes "Inv K s"
  shows "Inv K (signed_update_firmware r rq s)"
proof -
  have i: "Inv K (fst (signed_refusal rq s))"
    using assms by (auto simp: signed_refusal_def split: option.split intro: quiet_invs)
  obtain s1 refusal where r: "signed_refusal rq s = (s1, refusal)" by force
  show ?thesis
    using i unfolding signed_update_firmware_def r Let_def
    by (cases refusal) (simp_all only: option.case prod.case fst_conv, (intro quiet_invs Inv_respond Inv_if; assumption)+)
qed

lemma Inv_certificate_handlers [invs]:
  "Inv K s \<Longrightarrow> Inv K (install_certificate r kind pem s)"
  "Inv K s \<Longrightarrow> Inv K (delete_certificate r wanted s)"
  "Inv K s \<Longrightarrow> Inv K (get_installed_certificate_ids r kind s)"
  "Inv K s \<Longrightarrow> Inv K (certificate_signed r chain s)"
  unfolding install_certificate_def delete_certificate_def get_installed_certificate_ids_def
    certificate_signed_def Let_def
  by (auto split: prod.split sum.split intro!: quiet_invs Inv_respond)

lemma Inv_apply_rule [invs]: "Inv K s \<Longrightarrow> Inv K (fst (apply_rule r action s))"
  unfolding apply_rule_def Let_def
  by (auto split: prod.split rule_outcome.split option.split
      intro!: quiet_invs Inv_respond_error intro: Inv_emit quiet_invs)

lemma Inv_submit_raw [invs]:
  assumes i: "Inv K s"
  shows "Inv K (submit_raw action payload validate (K_Raw r) s)"
proof -
  let ?s = "submit_raw action payload validate (K_Raw r) s"
  have "tokens_ok s \<Longrightarrow> tokens_ok ?s"
    by (erule tokens_ok_fresh [where P = "\<lambda>_. True"]) (auto simp: submit_raw_def emit_def fresh_calls_def)
  moreover have "Inv (K_Raw r # K) s" by (rule Inv_add [OF i]) simp
  ultimately show ?thesis
    by (elim Inv_cong) (auto simp: flight_def conts_def submit_raw_def emit_def)
qed

lemma Inv_send_raw [invs]: "Inv K s \<Longrightarrow> Inv K (send_raw action payload validate r s)"
  unfolding send_raw_def by (auto split: option.split intro: quiet_invs Inv_submit_raw)

lemma Inv_shutdown:
  assumes "Inv [] s"
  shows "Inv [] (shutdown s)"
  unfolding shutdown_def Let_def by (intro quiet_invs Inv_calm_step Inv_fail_pending assms)

subsection \<open>Every turn\<close>

lemma Inv_execute: "Inv [] s \<Longrightarrow> Inv [] (execute r c s)"
proof (cases c)
  case Cmd_AddConnector
  assume "Inv [] s"
  then show ?thesis
    using Inv_add_connector [of "[]" s] Cmd_AddConnector by (auto split: prod.split intro: quiet_invs)
qed (auto simp: reply_now_def intro!: quiet_invs Inv_connect Inv_disconnect Inv_send_boot Inv_send_heartbeat
      Inv_authorize Inv_start_transaction Inv_stop_transaction Inv_meter_values_command Inv_plug_in
      Inv_unplug Inv_set_status Inv_cycle_status Inv_fault Inv_clear_fault Inv_send_raw Inv_shutdown
      Inv_configuration_handlers)

lemma Inv_run_handler: "Inv [] s \<Longrightarrow> Inv [] (run_handler r q s)"
  by (cases q)
     (simp_all add: Inv_change_availability Inv_unlock_connector Inv_reserve_now_handler
       Inv_cancel_reservation_handler Inv_remote_start Inv_remote_stop Inv_reset Inv_profile_handlers
       Inv_configuration_handlers Inv_data_handlers Inv_triggers Inv_maintenance_handlers
       Inv_signed_update_firmware Inv_certificate_handlers Inv_respond_error)

lemma Inv_dispatch: "Inv [] s \<Longrightarrow> Inv [] (dispatch_incoming r q s)"
  using Inv_apply_rule [of "[]" s r "inbound_action q"]
  by (auto simp: dispatch_incoming_def Let_def split: prod.split intro: Inv_run_handler)

lemma Inv_on_timer: "Inv [] s \<Longrightarrow> Inv [] (on_timer k s)"
  by (cases k)
     (auto intro!: Inv_on_heartbeat_timer Inv_on_reconnect_timer Inv_on_boot_retry_timer
       Inv_on_reservation_timer Inv_on_meter_periodic Inv_on_meter_aligned Inv_on_hard_reset_timer
       Inv_on_sync_retry_timer quiet_invs)

lemma Inv_handle: "Inv [] s \<Longrightarrow> Inv [] (handle w s)"
  by (cases w)
     (auto intro!: Inv_execute Inv_dispatch Inv_on_closed Inv_on_connect_result Inv_on_call_done
       Inv_on_timer quiet_invs)

lemma Inv_turn: "Inv [] s \<Longrightarrow> Inv [] (turn now ticks w s)"
  unfolding turn_def by (intro quiet_invs Inv_handle Inv_calm_step)

end
