(* ===== verification/Restart.thy ===== *)
theory Restart
  imports Reachable
begin

text \<open>
  What survives a restart: \<open>build_persisted\<close> and \<open>restore\<close> of \<open>station/persistence.rs\<close>, the initial
  snapshot (\<open>station/snapshot.rs\<close>) and the actor's constructor (\<open>station/actor.rs\<close>).  The file format
  itself is outside the model; the secrets, which have their own file, are an argument.
  \<open>reachable\<close> is every state of the actor loop, over any number of turns, crashes and restarts.
\<close>

subsection \<open>What is saved\<close>

record persisted_connector =
  pv_id :: connector_id
  pv_status :: connector_status
  pv_availability :: availability_type
  pv_pending_availability :: "availability_type option"
  pv_ev_connected :: bool
  pv_meter_wh :: u64
  pv_last_id_tag :: "id_tag option"
  pv_reservation :: "reservation option"
  pv_transaction :: transaction_state

record persisted_station =
  pd_version :: nat
  pd_charge_point_availability :: availability_type
  pd_connector_count :: u32
  pd_connectors :: "persisted_connector list"
  pd_local_list :: local_auth_list
  pd_auth_cache :: auth_cache
  pd_profiles :: profile_store
  pd_queue :: offline_queue
  pd_configuration :: config_snapshot
  pd_security_events :: "pending_security_event list"
  pd_certificates :: cert_store

definition STORE_VERSION :: nat where
  "STORE_VERSION = 7"

definition persisted_of :: "connector \<Rightarrow> persisted_connector" where
  "persisted_of c =
     \<lparr>pv_id = c_id c, pv_status = c_status c, pv_availability = c_availability c,
      pv_pending_availability = c_pending_availability c, pv_ev_connected = c_ev_connected c,
      pv_meter_wh = c_meter_wh c, pv_last_id_tag = c_last_id_tag c,
      pv_reservation = c_reservation c, pv_transaction = c_transaction c\<rparr>"

definition build_persisted :: "station \<Rightarrow> persisted_station" where
  "build_persisted s =
     \<lparr>pd_version = STORE_VERSION,
      pd_charge_point_availability = c_availability (s_charge_point s),
      pd_connector_count = connector_count s,
      pd_connectors = map persisted_of (s_connectors s),
      pd_local_list = s_local_list s, pd_auth_cache = s_auth_cache s, pd_profiles = s_profiles s,
      pd_queue = s_queue s, pd_configuration = snapshot (s_registry s),
      pd_security_events = s_security_events s, pd_certificates = sy_certs (s_security s)\<rparr>"

subsection \<open>Restoring\<close>

definition MAX_RESTORED_CONNECTORS :: u32 where
  "MAX_RESTORED_CONNECTORS = 4096"

definition restored_count :: "persisted_station \<Rightarrow> connector list \<Rightarrow> u32" where
  "restored_count p cs =
     (let highest_saved = foldl max 0 (map pv_id (pd_connectors p))
      in max (min (max (pd_connector_count p) highest_saved) MAX_RESTORED_CONNECTORS)
             (min (length cs) u32_max))"

definition grow_connectors :: "connector list \<Rightarrow> u32 \<Rightarrow> connector list" where
  "grow_connectors cs count = cs @ map new_connector [Suc (length cs)..<Suc count]"

definition WEB_SOCKET_PING_INTERVAL :: string where
  "WEB_SOCKET_PING_INTERVAL = ''WebSocketPingInterval''"

definition saved_configuration :: "persisted_station \<Rightarrow> config_snapshot" where
  "saved_configuration p =
     (if pd_version p < 6
      then filter (\<lambda>(key, _). \<not> eq_ignore_ascii_case key WEB_SOCKET_PING_INTERVAL) (pd_configuration p)
      else pd_configuration p)"

definition restore_connector :: "persisted_connector \<Rightarrow> connector \<Rightarrow> connector" where
  "restore_connector saved c =
     (let c1 = c\<lparr>c_availability := pv_availability saved,
                 c_pending_availability := pv_pending_availability saved,
                 c_meter_wh := pv_meter_wh saved, c_last_id_tag := pv_last_id_tag saved,
                 c_ev_connected := pv_ev_connected saved, c_reservation := pv_reservation saved,
                 c_transaction := pv_transaction saved, c_status := pv_status saved\<rparr>;
          c2 = (if pv_status saved = Faulted then c1\<lparr>c_error_code := OtherError\<rparr> else c1)
      in if pv_availability saved = Inoperative \<and> is_idle (c_transaction c2)
         then c2\<lparr>c_status := Unavailable\<rparr> else c2)"

definition restore_saved :: "connector list \<Rightarrow> persisted_connector \<Rightarrow> connector list" where
  "restore_saved cs saved = update_first (\<lambda>c. c_id c = pv_id saved) (restore_connector saved) cs"

text \<open>An online start whose CALL was in flight never happened.\<close>

definition forget_lost_start :: "offline_queue \<Rightarrow> connector \<Rightarrow> connector" where
  "forget_lost_start q c =
     (case c_transaction c of
        PendingStart pending \<Rightarrow>
          if oq_find_by_tx q (ps_tx_id pending) = None
          then c\<lparr>c_transaction := Idle,
                 c_status := (if c_availability c = Inoperative then Unavailable
                              else if c_ev_connected c then Preparing else Available)\<rparr>
          else c
      | _ \<Rightarrow> c)"

text \<open>A stop that was in flight is queued.\<close>

definition restored_stop :: "instant \<Rightarrow> connector \<Rightarrow> stopping_transaction \<Rightarrow> stop_info" where
  "restored_stop now c x =
     \<lparr>si_id_tag = st_id_tag x, si_meter_stop_wh = unwrap_or (st_meter_stop_wh x) (c_meter_wh c),
      si_timestamp = unwrap_or (st_stopped_at x) now, si_reason = st_reason x,
      si_transaction_data = []\<rparr>"

definition queue_restored_stop :: "instant \<Rightarrow> connector \<Rightarrow> stopping_transaction \<Rightarrow> offline_queue \<Rightarrow> offline_queue" where
  "queue_restored_stop now c x q =
     (let stop = restored_stop now c x in
      if oq_find_by_tx_on q (c_id c) (st_tx_id x) \<noteq> None
      then update_first (on_tx (c_id c) (st_tx_id x)) (\<lambda>e. e\<lparr>ox_stop := Some stop\<rparr>) q
      else fst (oq_push q
             \<lparr>ox_key = foldl max 0 (oq_keys q) + 1, ox_connector = c_id c, ox_tx_id = st_tx_id x,
              ox_id_tag = unwrap_or (st_id_tag x) ''UNKNOWN'',
              ox_started_at = unwrap_or (st_stopped_at x) now, ox_meter_start_wh = 0,
              ox_reservation_id = None, ox_start_pending = False, ox_stop = Some stop\<rparr>))"

fun queue_stops :: "instant \<Rightarrow> offline_queue \<Rightarrow> connector list \<Rightarrow> offline_queue \<times> connector list" where
  "queue_stops now q [] = (q, [])"
| "queue_stops now q (c # cs) =
     (case c_transaction c of
        Stopping x \<Rightarrow>
          (case queue_stops now (queue_restored_stop now c x q) cs of
             (q', cs') \<Rightarrow> (q', c\<lparr>c_transaction := Idle\<rparr> # cs'))
      | _ \<Rightarrow> (case queue_stops now q cs of (q', cs') \<Rightarrow> (q', c # cs')))"

definition apply_waiting :: "connector \<Rightarrow> connector" where
  "apply_waiting c =
     (if is_idle (c_transaction c)
      then case c_pending_availability c of
             None \<Rightarrow> c
           | Some kind \<Rightarrow>
               let c1 = c\<lparr>c_pending_availability := None, c_availability := kind\<rparr>
               in c1\<lparr>c_status := status_after_availability_change c1 kind\<rparr>
      else c)"

text \<open>The connectors and the queue after \<open>restore\<close>.\<close>

definition restore_transactions ::
  "instant \<Rightarrow> persisted_station \<Rightarrow> connector list \<Rightarrow> offline_queue \<times> connector list" where
  "restore_transactions now p cs =
     (let cs1 = foldl restore_saved (grow_connectors cs (restored_count p cs)) (pd_connectors p);
          cs2 = map (forget_lost_start (pd_queue p)) cs1;
          (q, cs3) = queue_stops now (pd_queue p) cs2
      in (q, map apply_waiting cs3))"

definition restore_station :: "persisted_station \<Rightarrow> station \<Rightarrow> station" where
  "restore_station p s =
     (let (q, cs) = restore_transactions (s_now s) p (s_connectors s);
          count = restored_count p (s_connectors s)
      in s\<lparr>s_security_events := pd_security_events p,
           s_security := (s_security s)\<lparr>sy_certs := pd_certificates p\<rparr>,
           s_registry := fst (restore (set_connector_count (s_registry s) count) (saved_configuration p)),
           s_availability := pd_charge_point_availability p,
           s_charge_point := (s_charge_point s)
             \<lparr>c_availability := pd_charge_point_availability p,
              c_status := charge_point_status (pd_charge_point_availability p) Available\<rparr>,
           s_connectors := cs, s_queue := q,
           s_local_list := pd_local_list p, s_auth_cache := pd_auth_cache p,
           s_profiles := pd_profiles p\<rparr>)"

subsection \<open>A new actor\<close>

definition secrets_default :: secrets where
  "secrets_default =
     \<lparr>sx_authorization_key = None, sx_charge_point_key_pem = None, sx_pending_key_pem = None,
      sx_previous_charge_point_key_pem = None\<rparr>"

definition initial_maintenance :: maintenance where
  "initial_maintenance =
     \<lparr>mn_diagnostics_plan = [], mn_firmware_plan = [], mn_log_upload = [], mn_log_request_id = None,
      mn_signed_fw = [], mn_signed_fw_request_id = None, mn_last_firmware_signed = False,
      mn_diagnostics_status = Diag_Idle, mn_firmware_status = Fw_Idle, mn_log_status = Log_Idle,
      mn_signed_firmware_status = Sf_Idle, mn_shown_log_request = None, mn_shown_signed_request = None,
      mn_diagnostics_outcome = Diagnostics_Success, mn_firmware_outcome = Firmware_Success\<rparr>"

definition initial_security :: security_state where
  "initial_security =
     \<lparr>sy_certs = cert_store_default, sy_secrets = secrets_default, sy_use_fallback_root = False,
      sy_use_previous_cert = False, sy_failure_series = [], sy_connect_identity = Identity_None,
      sy_sign_series = None, sy_next_sign_series = 0\<rparr>"

definition initial_connectors :: "station_config \<Rightarrow> connector list" where
  "initial_connectors config =
     map new_connector [1..<Suc (max (max (sc_connector_count config) (sc_initial_connector config)) 1)]"

definition initial_station ::
  "time_lib \<Rightarrow> station_config \<Rightarrow> electrical_config \<Rightarrow> reconnect_config \<Rightarrow> instant \<Rightarrow> nat \<Rightarrow> bool \<Rightarrow> station" where
  "initial_station lib config el rc now ticks store =
     \<lparr>s_lib = lib, s_config = config, s_electrical = el, s_reconnect = rc, s_now = now, s_mono = ticks,
      s_connection = Disconnected, s_registration = None,
      s_heartbeat_interval_secs = sc_heartbeat_interval_secs config, s_last_heartbeat_at = None,
      s_availability = Operative, s_charge_point = new_connector STATION,
      s_connectors = initial_connectors config, s_registry = registry_new config,
      s_local_list = local_auth_list_default, s_auth_cache = cache_new, s_profiles = [],
      s_queue = [], s_next_local = 0, s_invalid_limits = Map.empty, s_meters = Map.empty,
      s_sync_outstanding = 0, s_sync_keys = [], s_sync_boot = False, s_sync_failed = False,
      s_sync_failures = Map.empty, s_reset_retries = None, s_hard_reset_deadline = None,
      s_security_events = [], s_startup_event_pending = True, s_timers = Map.empty,
      s_link = \<lparr>lk_conn = False, lk_generation = 0, lk_connecting = False, lk_wanted = False,
        lk_attempts = 0, lk_boot_in_flight = False\<rparr>,
      s_calls = [], s_next_call_token = 0, s_sample_calls = [], s_sample_overflow_warned = False,
      s_trackers = bt_empty,
      s_persistence = \<lparr>pe_store = store, pe_dirty = False, pe_in_flight = False, pe_queued = False,
        pe_secrets_dirty = False\<rparr>,
      s_maintenance = initial_maintenance, s_security = initial_security,
      s_response_rules = sc_response_rules config,
      s_out = []\<rparr>"

text \<open>
  \<open>StationActor::new\<close>: the saved secrets and state, if any, are restored; the counter of local keys
  starts at the wall clock, above every key still queued.
\<close>

definition new_station ::
  "time_lib \<Rightarrow> station_config \<Rightarrow> electrical_config \<Rightarrow> reconnect_config \<Rightarrow> instant \<Rightarrow> nat \<Rightarrow> bool
     \<Rightarrow> secrets option \<Rightarrow> persisted_station option \<Rightarrow> station" where
  "new_station lib config el rc now ticks store kept saved =
     (let s0 = initial_station lib config el rc now ticks store;
          s1 = (case kept of None \<Rightarrow> s0
                | Some x \<Rightarrow> s0\<lparr>s_registry :=
                      (case sx_authorization_key x of
                         None \<Rightarrow> s_registry s0 | Some key \<Rightarrow> set_authorization_key (s_registry s0) key),
                    s_security := (s_security s0)\<lparr>sy_secrets := x\<rparr>\<rparr>);
          s2 = (case saved of None \<Rightarrow> s1 | Some p \<Rightarrow> restore_station p s1)
      in s2\<lparr>s_profiles := fst (backfill_installed_at (s_profiles s2) now),
            s_heartbeat_interval_secs := heartbeat_interval_secs (s_registry s2),
            s_next_local := max (nat (max (timestamp_millis now) 1)) (foldl max 0 (oq_keys (s_queue s2)))\<rparr>)"

text \<open>The first lines of \<open>run\<close>.\<close>

definition start_station ::
  "time_lib \<Rightarrow> station_config \<Rightarrow> electrical_config \<Rightarrow> reconnect_config \<Rightarrow> instant \<Rightarrow> nat \<Rightarrow> bool
     \<Rightarrow> secrets option \<Rightarrow> persisted_station option \<Rightarrow> station" where
  "start_station lib config el rc now ticks store kept saved =
     settle_meters (after_restore (new_station lib config el rc now ticks store kept saved))"

end
