(* ===== verification/Recovery.thy ===== *)
theory Recovery
  imports Restart
begin

text \<open>
  A restart keeps the transactions: the state restored from what a running station saved satisfies
  the invariant, whatever the station was doing, and \<open>reachable\<close> closes the actor loop under
  turns and restarts.
\<close>

subsection \<open>Connectors\<close>

lemma restore_connector_fields [simp]:
  "c_id (restore_connector p c) = c_id c" "c_transaction (restore_connector p c) = pv_transaction p"
  by (simp_all add: restore_connector_def Let_def)

lemma restore_saved_ids [simp]: "map c_id (restore_saved cs p) = map c_id cs"
  by (simp add: restore_saved_def map_update_first)

lemma restore_all_ids [simp]: "map c_id (foldl restore_saved cs ps) = map c_id cs"
  by (induction ps arbitrary: cs) simp_all

lemma restore_saved_mem:
  "c \<in> set (restore_saved cs p) \<Longrightarrow> distinct (map c_id cs) \<Longrightarrow>
   (c \<in> set cs \<and> c_id c \<noteq> pv_id p) \<or> (c_id c = pv_id p \<and> c_transaction c = pv_transaction p)"
  unfolding restore_saved_def
  using in_update_firstD2 [of c "\<lambda>c. c_id c = pv_id p" "restore_connector p" cs c_id "pv_id p"] by auto

lemma restore_all_mem:
  assumes "c \<in> set (foldl restore_saved cs ps)" and "distinct (map c_id cs)" and "distinct (map pv_id ps)"
  shows "(c \<in> set cs \<and> c_id c \<notin> pv_id ` set ps)
    \<or> (\<exists>p\<in>set ps. pv_id p = c_id c \<and> c_transaction c = pv_transaction p)"
  using assms
proof (induction ps arbitrary: c rule: rev_induct)
  case (snoc p ps)
  have c: "c \<in> set (restore_saved (foldl restore_saved cs ps) p)" using snoc.prems(1) by simp
  have d: "distinct (map c_id (foldl restore_saved cs ps))" using snoc.prems(2) by simp
  from restore_saved_mem [OF c d] show ?case
  proof
    assume "c \<in> set (foldl restore_saved cs ps) \<and> c_id c \<noteq> pv_id p"
    with snoc.IH [of c] snoc.prems(2,3) show ?thesis by auto
  qed auto
qed simp

lemma forget_lost_start_fields [simp]: "c_id (forget_lost_start q c) = c_id c"
  by (simp add: forget_lost_start_def split: transaction_state.split)

lemma apply_waiting_fields [simp]:
  "c_id (apply_waiting c) = c_id c" "c_transaction (apply_waiting c) = c_transaction c"
  by (simp_all add: apply_waiting_def Let_def split: option.split)

subsection \<open>The queue\<close>

definition same_start :: "offline_tx \<Rightarrow> offline_tx \<Rightarrow> bool" where
  "same_start e e' = (\<exists>i. e' = e \<or> e' = e\<lparr>ox_stop := Some i\<rparr>)"

definition keeps :: "offline_queue \<Rightarrow> offline_queue \<Rightarrow> bool" where
  "keeps q q' = (\<forall>e\<in>set q. \<exists>e'\<in>set q'. same_start e e')"

lemma same_startD:
  "same_start e e' \<Longrightarrow> ox_key e' = ox_key e \<and> ox_connector e' = ox_connector e \<and> ox_tx_id e' = ox_tx_id e
     \<and> ox_start_pending e' = ox_start_pending e \<and> (ox_stop e \<noteq> None \<longrightarrow> ox_stop e' \<noteq> None)"
  by (auto simp: same_start_def)

lemma same_start_trans: "same_start e f \<Longrightarrow> same_start f g \<Longrightarrow> same_start e g"
  by (auto simp: same_start_def)

lemma keeps_refl [simp]: "keeps q q"
  by (auto simp: keeps_def same_start_def)

lemma keeps_trans: "keeps q r \<Longrightarrow> keeps r s \<Longrightarrow> keeps q s"
  unfolding keeps_def by (meson same_start_trans)

definition entries_ok :: "offline_queue \<Rightarrow> bool" where
  "entries_ok q = (queue_wf q \<and> (\<forall>e\<in>set q. entry_wf (ox_key e) e))"

definition stop_queued :: "offline_queue \<Rightarrow> connector_id \<Rightarrow> tx_id \<Rightarrow> bool" where
  "stop_queued q i tx = (\<exists>e\<in>set q. ox_connector e = i \<and> ox_tx_id e = tx \<and> ox_stop e \<noteq> None)"

lemma stop_queued_keeps: "stop_queued q i tx \<Longrightarrow> keeps q q' \<Longrightarrow> stop_queued q' i tx"
  unfolding stop_queued_def keeps_def by (metis same_startD)

lemma foldl_max_ge: "(a :: nat) \<le> foldl max a xs \<and> (\<forall>x\<in>set xs. x \<le> foldl max a xs)"
proof (induction xs arbitrary: a)
  case (Cons x xs)
  from Cons.IH [of "max a x"] show ?case by auto
qed simp

lemma update_first_mem:
  "find P xs = Some x \<Longrightarrow> f x \<in> set (update_first P f xs)"
  by (induction xs) (auto split: if_splits)

lemma queue_restored_stop_spec:
  assumes q: "entries_ok q" and room: "length q < MAX_QUEUED_TRANSACTIONS" and tx: "\<not> is_local (st_tx_id x)"
  shows "entries_ok (queue_restored_stop now c x q)" "length (queue_restored_stop now c x q) \<le> Suc (length q)"
    "keeps q (queue_restored_stop now c x q)" "stop_queued (queue_restored_stop now c x q) (c_id c) (st_tx_id x)"
proof -
  let ?q = "queue_restored_stop now c x q"
  have "entries_ok ?q \<and> length ?q \<le> Suc (length q) \<and> keeps q ?q \<and> stop_queued ?q (c_id c) (st_tx_id x)"
  proof (cases "oq_find_by_tx_on q (c_id c) (st_tx_id x)")
    case None
    let ?e = "\<lparr>ox_key = foldl max 0 (oq_keys q) + 1, ox_connector = c_id c, ox_tx_id = st_tx_id x,
              ox_id_tag = unwrap_or (st_id_tag x) ''UNKNOWN'',
              ox_started_at = unwrap_or (st_stopped_at x) now, ox_meter_start_wh = 0,
              ox_reservation_id = None, ox_start_pending = False, ox_stop = Some (restored_stop now c x)\<rparr>"
    have eq: "?q = q @ [?e]"
      using None room by (simp add: queue_restored_stop_def Let_def oq_push_room)
    have "ox_key ?e \<notin> set (oq_keys q)"
      using foldl_max_ge [of 0 "oq_keys q"] by fastforce
    then have "queue_wf (q @ [?e])" using q by (simp add: entries_ok_def queue_wf_def oq_keys_def)
    then show ?thesis
      using q tx unfolding eq by (auto simp: entries_ok_def entry_wf_def keeps_def same_start_def stop_queued_def)
  next
    case (Some e)
    let ?f = "\<lambda>e. e\<lparr>ox_stop := Some (restored_stop now c x)\<rparr>"
    have eq: "?q = update_first (on_tx (c_id c) (st_tx_id x)) ?f q"
      using Some by (simp add: queue_restored_stop_def Let_def)
    have mem: "e' \<in> set q \<or> (\<exists>e\<in>set q. e' = ?f e)" if "e' \<in> set ?q" for e'
      using in_update_firstD [of e' _ ?f q] that unfolding eq by auto
    have "queue_wf ?q"
      using q unfolding eq by (simp add: entries_ok_def queue_wf_def oq_keys_def map_update_first)
    moreover have "\<forall>e\<in>set ?q. entry_wf (ox_key e) e"
      using mem q by (fastforce simp: entries_ok_def entry_wf_def)
    moreover have "keeps q ?q"
      unfolding eq keeps_def
    proof
      fix e assume "e \<in> set q"
      then have "e \<in> set (update_first (on_tx (c_id c) (st_tx_id x)) ?f q)
          \<or> ?f e \<in> set (update_first (on_tx (c_id c) (st_tx_id x)) ?f q)"
        by (induction q) auto
      then show "\<exists>e'\<in>set (update_first (on_tx (c_id c) (st_tx_id x)) ?f q). same_start e e'"
        by (auto simp: same_start_def)
    qed
    moreover have "?f e \<in> set ?q" unfolding eq
      by (rule update_first_mem) (use Some in \<open>simp add: oq_find_by_tx_on_def\<close>)
    ultimately have "stop_queued ?q (c_id c) (st_tx_id x)"
      unfolding stop_queued_def
      by (intro bexI [of _ "?f e"]) (use oq_find_by_tx_onD [OF Some] in auto)
    moreover have "length ?q \<le> Suc (length q)" unfolding eq by simp
    moreover note \<open>queue_wf ?q\<close> \<open>\<forall>e\<in>set ?q. entry_wf (ox_key e) e\<close> \<open>keeps q ?q\<close>
    ultimately show ?thesis unfolding entries_ok_def by blast
  qed
  then show "entries_ok ?q" "length ?q \<le> Suc (length q)" "keeps q ?q" "stop_queued ?q (c_id c) (st_tx_id x)"
    by blast+
qed

text \<open>How many stops are in flight.\<close>

definition stopping :: "connector list \<Rightarrow> nat" where
  "stopping cs = length (filter (\<lambda>c. case c_transaction c of Stopping _ \<Rightarrow> True | _ \<Rightarrow> False) cs)"

lemma stopping_Cons [simp]:
  "stopping (c # cs) = (case c_transaction c of Stopping _ \<Rightarrow> Suc (stopping cs) | _ \<Rightarrow> stopping cs)"
  by (simp add: stopping_def split: transaction_state.split)

definition local_stops :: "connector list \<Rightarrow> bool" where
  "local_stops cs = (\<exists>c\<in>set cs. \<exists>x. c_transaction c = Stopping x \<and> is_local (st_tx_id x))"

definition settled :: "connector \<Rightarrow> connector" where
  "settled c = (case c_transaction c of Stopping _ \<Rightarrow> c\<lparr>c_transaction := Idle\<rparr> | _ \<Rightarrow> c)"

lemma queue_stops_spec:
  "entries_ok q \<Longrightarrow> length q + stopping cs \<le> MAX_QUEUED_TRANSACTIONS \<Longrightarrow> \<not> local_stops cs \<Longrightarrow>
   queue_stops now q cs = (q', cs') \<Longrightarrow>
   cs' = map settled cs \<and> entries_ok q' \<and> length q' \<le> length q + stopping cs \<and> keeps q q'
   \<and> (\<forall>c\<in>set cs. \<forall>x. c_transaction c = Stopping x \<longrightarrow> stop_queued q' (c_id c) (st_tx_id x))"
proof (induction cs arbitrary: q q' cs')
  case (Cons c cs)
  show ?case
  proof (cases "\<exists>x. c_transaction c = Stopping x")
    case True
    then obtain x where x: "c_transaction c = Stopping x" by blast
    let ?q = "queue_restored_stop now c x q"
    obtain r ds where r: "queue_stops now ?q cs = (r, ds)" by force
    have room: "length q < MAX_QUEUED_TRANSACTIONS" and tx: "\<not> is_local (st_tx_id x)"
      using Cons.prems(2,3) x by (auto simp: local_stops_def)
    note spec = queue_restored_stop_spec [OF Cons.prems(1) room tx, of now c]
    have "length ?q + stopping cs \<le> MAX_QUEUED_TRANSACTIONS" "\<not> local_stops cs"
      using Cons.prems(2,3) x spec(2) by (auto simp: local_stops_def)
    from Cons.IH [OF spec(1) this r]
    have ih: "ds = map settled cs" "entries_ok r" "length r \<le> length ?q + stopping cs" "keeps ?q r"
      "\<forall>c\<in>set cs. \<forall>x. c_transaction c = Stopping x \<longrightarrow> stop_queued r (c_id c) (st_tx_id x)" by blast+
    have "q' = r" "cs' = c\<lparr>c_transaction := Idle\<rparr> # ds" using Cons.prems(4) x r by auto
    moreover have "keeps q r" using spec(3) ih(4) by (rule keeps_trans)
    moreover have "stop_queued r (c_id c) (st_tx_id x)" using spec(4) ih(4) by (rule stop_queued_keeps)
    ultimately show ?thesis using ih spec(2) x by (auto simp: settled_def)
  next
    case False
    then obtain r ds where r: "queue_stops now q cs = (r, ds)" "q' = r" "cs' = c # ds"
      using Cons.prems(4) by (cases "c_transaction c") (auto split: prod.splits)
    have len: "length q + stopping cs \<le> MAX_QUEUED_TRANSACTIONS" and loc: "\<not> local_stops cs"
      using Cons.prems(2,3) False by (auto simp: local_stops_def split: transaction_state.splits)
    have "ds = map settled cs \<and> entries_ok r \<and> length r \<le> length q + stopping cs \<and> keeps q r
        \<and> (\<forall>c\<in>set cs. \<forall>x. c_transaction c = Stopping x \<longrightarrow> stop_queued r (c_id c) (st_tx_id x))"
      by (rule Cons.IH [OF Cons.prems(1) len loc r(1)])
    with r False show ?thesis by (cases "c_transaction c") (auto simp: settled_def)
  qed
qed (auto simp: stopping_def)

subsection \<open>All of \<open>restore\<close>\<close>

text \<open>What is left of a transaction after a crash.\<close>

definition restored_tx :: "offline_queue \<Rightarrow> transaction_state \<Rightarrow> transaction_state" where
  "restored_tx q t =
     (case t of
        Active a \<Rightarrow> t
      | PendingStart p \<Rightarrow> if oq_find_by_tx q (ps_tx_id p) = None then Idle else t
      | _ \<Rightarrow> Idle)"

lemma restored_tx_eq:
  "c_transaction (apply_waiting (settled (forget_lost_start q c))) = restored_tx q (c_transaction c)"
  by (auto simp: settled_def forget_lost_start_def restored_tx_def split: transaction_state.split)

lemma restored_tx_Idle [simp]: "restored_tx q Idle = Idle"
  by (simp add: restored_tx_def)

lemma settled_id [simp]: "c_id (settled c) = c_id c"
  by (simp add: settled_def split: transaction_state.split)

lemma ids_grow:
  "map c_id cs = [1..<Suc (length cs)] \<Longrightarrow>
   map c_id (grow_connectors cs k) = [1..<Suc (length (grow_connectors cs k))]"
proof -
  assume ids: "map c_id cs = [1..<Suc (length cs)]"
  have new: "map c_id (map new_connector xs) = xs" for xs
    by (simp add: comp_def new_connector_def)
  show ?thesis
  proof (cases "k \<le> length cs")
    case True
    then show ?thesis using ids by (simp add: grow_connectors_def del: upt_Suc)
  next
    case False
    then have "[1..<Suc k] = [1..<Suc (length cs)] @ [Suc (length cs)..<Suc k]"
      using upt_add_eq_append [of 1 "Suc (length cs)" "k - length cs"] by (simp del: upt_Suc)
    moreover have "length (grow_connectors cs k) = k" using False by (simp add: grow_connectors_def del: upt_Suc)
    ultimately show ?thesis using ids by (simp add: grow_connectors_def new del: upt_Suc map_map)
  qed
qed

lemma stopping_forget [simp]: "stopping (map (forget_lost_start q) cs) = stopping cs"
proof (induction cs)
  case (Cons c cs)
  then show ?case by (cases "c_transaction c") (simp_all add: forget_lost_start_def)
qed simp

lemma stopping_le:
  assumes "distinct (map c_id cs)"
    and "\<And>c x. c \<in> set cs \<Longrightarrow> c_transaction c = Stopping x \<Longrightarrow>
      \<exists>d\<in>set ds. c_id d = c_id c \<and> c_transaction d = Stopping x"
  shows "stopping cs \<le> stopping ds"
proof -
  let ?P = "\<lambda>c. case c_transaction c of Stopping _ \<Rightarrow> True | _ \<Rightarrow> False"
  have P: "?P c \<longleftrightarrow> (\<exists>x. c_transaction c = Stopping x)" for c by (cases "c_transaction c") auto
  have "distinct (map c_id (filter ?P cs))" using assms(1) by (rule distinct_map_filter)
  then have "stopping cs = card (c_id ` set (filter ?P cs))"
    by (metis stopping_def distinct_card length_map list.set_map)
  also have "\<dots> \<le> card (c_id ` set (filter ?P ds))"
  proof (rule card_mono)
    show "c_id ` set (filter ?P cs) \<subseteq> c_id ` set (filter ?P ds)"
    proof
      fix i assume "i \<in> c_id ` set (filter ?P cs)"
      then obtain c x where "c \<in> set cs" "c_transaction c = Stopping x" "i = c_id c" by (auto simp: P)
      with assms(2) obtain d where "d \<in> set ds" "c_id d = i" "c_transaction d = Stopping x" by blast
      then show "i \<in> c_id ` set (filter ?P ds)" by (force simp: P)
    qed
  qed simp
  also have "\<dots> \<le> stopping ds"
    unfolding stopping_def by (metis card_length length_map list.set_map)
  finally show ?thesis .
qed

text \<open>There is room in the queue for every stop in flight.\<close>

definition stops_fit :: "station \<Rightarrow> bool" where
  "stops_fit s = (length (s_queue s) + stopping (s_connectors s) \<le> MAX_QUEUED_TRANSACTIONS)"

lemma restored_count_ge:
  "length (s_connectors s) \<le> MAX_RESTORED_CONNECTORS \<Longrightarrow>
   length (s_connectors s) \<le> restored_count (build_persisted s) cs"
  by (simp add: restored_count_def build_persisted_def connector_count_def MAX_RESTORED_CONNECTORS_def
      u32_max_def le_max_iff_disj)

lemma restore_transactions_spec:
  assumes i: "Inv [] s" and fit: "stops_fit s" and ids: "map c_id cs0 = [1..<Suc (length cs0)]"
    and idle: "\<forall>c\<in>set cs0. c_transaction c = Idle"
    and r: "restore_transactions now (build_persisted s) cs0 = (q, cs)"
  shows "map c_id cs = [1..<Suc (length cs)]" "entries_ok q" "length q \<le> MAX_QUEUED_TRANSACTIONS"
    "keeps (s_queue s) q"
    "c \<in> set cs \<Longrightarrow> c_transaction c = Idle \<or> (\<exists>c0\<in>set (s_connectors s).
       c_id c0 = c_id c \<and> c_transaction c = restored_tx (s_queue s) (c_transaction c0))"
    "length (s_connectors s) \<le> MAX_RESTORED_CONNECTORS \<Longrightarrow> c0 \<in> set (s_connectors s) \<Longrightarrow>
       (\<exists>c\<in>set cs. c_id c = c_id c0 \<and> c_transaction c = restored_tx (s_queue s) (c_transaction c0))
       \<and> (\<forall>x. c_transaction c0 = Stopping x \<longrightarrow> stop_queued q (c_id c0) (st_tx_id x))"
proof -
  let ?p = "build_persisted s" and ?grown = "grow_connectors cs0 (restored_count (build_persisted s) cs0)"
  define cs1 where "cs1 = foldl restore_saved ?grown (pd_connectors ?p)"
  define cs2 where "cs2 = map (forget_lost_start (s_queue s)) cs1"
  have saved: "pd_connectors ?p = map persisted_of (s_connectors s)" "pd_queue ?p = s_queue s"
    by (simp_all add: build_persisted_def)
  have pids: "map pv_id (pd_connectors ?p) = map c_id (s_connectors s)"
    by (simp add: saved persisted_of_def)
  have grown: "map c_id ?grown = [1..<Suc (length ?grown)]" by (rule ids_grow [OF ids])
  have idle': "\<forall>c\<in>set ?grown. c_transaction c = Idle"
    using idle by (auto simp: grow_connectors_def new_connector_def)
  have dist: "distinct (map c_id ?grown)" "distinct (map pv_id (pd_connectors ?p))"
    unfolding grown pids by (rule distinct_upt, rule ids_okD(1) [OF InvD(1) [OF i]])
  have mem1: "(c_transaction c = Idle \<and> c_id c \<notin> c_id ` set (s_connectors s)) \<or>
      (\<exists>c0\<in>set (s_connectors s). c_id c0 = c_id c \<and> c_transaction c = c_transaction c0)"
    if "c \<in> set cs1" for c
    using restore_all_mem [OF that [unfolded cs1_def] dist] idle'
    by (auto simp: saved persisted_of_def image_image)
  have ids1: "map c_id cs1 = map c_id ?grown" by (simp add: cs1_def)
  have st: "stopping cs2 \<le> stopping (s_connectors s)"
    unfolding cs2_def stopping_forget
    by (rule stopping_le) (use ids1 dist mem1 in \<open>force+\<close>)
  have nl: "\<not> local_stops cs2"
  proof
    assume "local_stops cs2"
    then obtain c x where c: "c \<in> set cs1" "c_transaction (forget_lost_start (s_queue s) c) = Stopping x"
      "is_local (st_tx_id x)"
      by (auto simp: local_stops_def cs2_def)
    then have "c_transaction c = Stopping x"
      by (auto simp: forget_lost_start_def split: transaction_state.splits if_splits)
    with mem1 [OF c(1)] obtain c0 where "c0 \<in> set (s_connectors s)" "c_transaction c0 = Stopping x" by auto
    with InvD(3) [OF i] c(3) show False by fastforce
  qed
  have eok: "entries_ok (s_queue s)"
    using InvD(2) [OF i] by (auto simp: queue_ok_def entries_ok_def entry_wf_def)
  obtain cs3 where q3: "queue_stops now (s_queue s) cs2 = (q, cs3)" and cs: "cs = map apply_waiting cs3"
    using r by (auto simp: restore_transactions_def Let_def cs1_def cs2_def saved split: prod.splits)
  note spec = queue_stops_spec [OF eok _ nl q3]
  have fit2: "length (s_queue s) + stopping cs2 \<le> MAX_QUEUED_TRANSACTIONS"
    using st fit by (simp add: stops_fit_def)
  have cs_eq: "cs = map (\<lambda>c. apply_waiting (settled (forget_lost_start (s_queue s) c))) cs1"
    using spec [OF fit2] by (simp add: cs cs2_def)
  have ids_cs: "map c_id cs = map c_id cs1" unfolding cs_eq by simp
  show "map c_id cs = [1..<Suc (length cs)]"
    using ids_cs ids1 grown by (metis length_map)
  show "entries_ok q" "keeps (s_queue s) q" using spec [OF fit2] by blast+
  show "length q \<le> MAX_QUEUED_TRANSACTIONS" using spec [OF fit2] fit2 by linarith
  show "c_transaction c = Idle \<or> (\<exists>c0\<in>set (s_connectors s).
       c_id c0 = c_id c \<and> c_transaction c = restored_tx (s_queue s) (c_transaction c0))" if c: "c \<in> set cs"
  proof -
    from c obtain d where d: "d \<in> set cs1" "c_id c = c_id d"
      "c_transaction c = restored_tx (s_queue s) (c_transaction d)"
      unfolding cs_eq by (auto simp: restored_tx_eq [simplified])
    with mem1 [OF d(1)] show ?thesis by (metis restored_tx_Idle)
  qed
  assume small: "length (s_connectors s) \<le> MAX_RESTORED_CONNECTORS" and c0: "c0 \<in> set (s_connectors s)"
  have "c_id c0 \<in> set (map c_id (s_connectors s))" using c0 by simp
  then have "1 \<le> c_id c0 \<and> c_id c0 \<le> length (s_connectors s)"
    using InvD(1) [OF i] unfolding ids_ok_def by (metis atLeastLessThan_iff less_Suc_eq_le set_upt)
  moreover have "length (s_connectors s) \<le> length ?grown"
    using restored_count_ge [OF small, of cs0] by (simp add: grow_connectors_def del: upt_Suc)
  ultimately have "c_id c0 \<in> set (map c_id cs1)" unfolding ids1 grown by auto
  then obtain d where d: "d \<in> set cs1" "c_id d = c_id c0" by auto
  from mem1 [OF d(1)] d(2) c0 obtain c' where c': "c' \<in> set (s_connectors s)" "c_id c' = c_id c0"
    "c_transaction d = c_transaction c'" by force
  then have "c' = c0"
    using c0 ids_okD(1) [OF InvD(1) [OF i]] by (metis distinct_map inj_on_def)
  with c' d have tx: "c_transaction d = c_transaction c0" by simp
  have "\<exists>c\<in>set cs. c_id c = c_id c0 \<and> c_transaction c = restored_tx (s_queue s) (c_transaction c0)"
    unfolding cs_eq using d tx
    by (intro bexI [of _ "apply_waiting (settled (forget_lost_start (s_queue s) d))"]) (simp_all add: restored_tx_eq [simplified])
  moreover have "stop_queued q (c_id c0) (st_tx_id x)" if x: "c_transaction c0 = Stopping x" for x
  proof -
    have "forget_lost_start (s_queue s) d = d" using tx x by (simp add: forget_lost_start_def)
    then have "d \<in> set cs2" using d(1) unfolding cs2_def by (metis image_eqI list.set_map)
    with spec [OF fit2] tx x d(2) show ?thesis by force
  qed
  ultimately show "(\<exists>c\<in>set cs. c_id c = c_id c0 \<and> c_transaction c = restored_tx (s_queue s) (c_transaction c0))
       \<and> (\<forall>x. c_transaction c0 = Stopping x \<longrightarrow> stop_queued q (c_id c0) (st_tx_id x))" by blast
qed

subsection \<open>A new actor satisfies the invariant\<close>

lemma Inv_idle_machine:
  assumes "ids_ok s" and "s_calls s = []" and "s_sample_calls s = []" and "s_out s = []"
    and "entries_ok (s_queue s)" and "length (s_queue s) \<le> MAX_QUEUED_TRANSACTIONS"
    and "\<And>k. k \<in> set (oq_keys (s_queue s)) \<Longrightarrow> k \<le> s_next_local s"
    and tx: "\<And>c. c \<in> set (s_connectors s) \<Longrightarrow> c_transaction c = Idle \<or> tx_ok [] s (c_id c) (c_transaction c)"
  shows "Inv [] s"
proof -
  have "queue_ok s"
    using assms(4-7) by (auto simp: queue_ok_def drops_ok_def entries_ok_def entry_wf_def oq_keys_def)
  moreover have "tokens_ok s" using assms(2,3) by (simp add: tokens_ok_def)
  moreover have "tx_ok [] s (c_id c) (c_transaction c)" if "c \<in> set (s_connectors s)" for c
    using tx [OF that] by auto
  ultimately show ?thesis
    using assms(1,2) by (simp add: Inv_def flight_def conts_def)
qed

lemma new_station_fields:
  "s_calls (new_station lib config el rc now ticks store kept saved) = []"
  "s_sample_calls (new_station lib config el rc now ticks store kept saved) = []"
  "s_out (new_station lib config el rc now ticks store kept saved) = []"
  by (simp_all add: new_station_def Let_def initial_station_def restore_station_def
      split: option.split prod.split)

lemma initial_ids:
  "map c_id (initial_connectors config) = [1..<Suc (length (initial_connectors config))]"
  "c \<in> set (initial_connectors config) \<Longrightarrow> c_transaction c = Idle"
  by (auto simp: initial_connectors_def comp_def new_connector_def simp del: upt_Suc)

lemma Inv_new_station: "Inv [] (new_station lib config el rc now ticks store kept None)"
proof -
  let ?s = "new_station lib config el rc now ticks store kept None"
  have f: "s_connectors ?s = initial_connectors config" "s_queue ?s = []"
    by (simp_all add: new_station_def Let_def initial_station_def split: option.split)
  show ?thesis
    by (rule Inv_idle_machine)
       (use initial_ids in \<open>auto simp: f new_station_fields ids_ok_def entries_ok_def queue_wf_def oq_keys_def\<close>)
qed

lemma restored_fields:
  assumes "restore_transactions now (build_persisted s) (initial_connectors config) = (q, cs)"
    and t_def: "t = new_station lib config el rc now ticks store kept (Some (build_persisted s))"
  shows "s_connectors t = cs" "s_queue t = q" "foldl max 0 (oq_keys q) \<le> s_next_local t"
  using assms(1)
  by (simp_all add: t_def new_station_def Let_def initial_station_def restore_station_def
      split: option.split prod.split)

lemma Inv_restored:
  assumes i: "Inv [] s" and fit: "stops_fit s"
  shows "Inv [] (new_station lib config el rc now ticks store kept (Some (build_persisted s)))"
proof -
  let ?t = "new_station lib config el rc now ticks store kept (Some (build_persisted s))"
  obtain q cs where r: "restore_transactions now (build_persisted s) (initial_connectors config) = (q, cs)"
    by force
  note f = restored_fields [OF r refl, of lib el rc ticks store kept]
  have idle: "\<forall>c\<in>set (initial_connectors config). c_transaction c = Idle" using initial_ids(2) by blast
  note spec = restore_transactions_spec [OF i fit initial_ids(1) idle r]
  show ?thesis
  proof (rule Inv_idle_machine)
    show "ids_ok ?t" using spec(1) by (simp add: ids_ok_def f)
    show "\<And>k. k \<in> set (oq_keys (s_queue ?t)) \<Longrightarrow> k \<le> s_next_local ?t"
      using f(3) foldl_max_ge [of 0 "oq_keys q"] unfolding f(2) by fastforce
    fix c assume c: "c \<in> set (s_connectors ?t)"
    from spec(5) [of c] c f(1) consider "c_transaction c = Idle"
      | c0 where "c0 \<in> set (s_connectors s)" "c_id c0 = c_id c"
        "c_transaction c = restored_tx (s_queue s) (c_transaction c0)" by blast
    then show "c_transaction c = Idle \<or> tx_ok [] ?t (c_id c) (c_transaction c)"
    proof cases
      case 2
      show ?thesis
      proof (cases "c_transaction c0")
        case (Active a)
        with 2 InvD(3) [OF i 2(1)] show ?thesis by (simp add: restored_tx_def)
      next
        case (PendingStart p)
        show ?thesis
        proof (cases "oq_find_by_tx (s_queue s) (ps_tx_id p)")
          case (Some e)
          then have e: "e \<in> set (s_queue s)" "ox_tx_id e = ps_tx_id p"
            by (auto simp: oq_find_by_tx_def find_Some_iff)
          note own = pending_owner [OF i e(1) 2(1) PendingStart e(2)]
          from spec(4) e(1) obtain e' where "e' \<in> set q" "same_start e e'" by (auto simp: keeps_def)
          with own 2(2) have "queued_start ?t (c_id c) (ox_key e)"
            using same_startD [of e e'] by (auto simp: queued_start_def f)
          with own PendingStart Some 2(3) show ?thesis by (simp add: restored_tx_def)
        qed (use PendingStart 2(3) in \<open>simp add: restored_tx_def\<close>)
      qed (use 2(3) in \<open>simp_all add: restored_tx_def\<close>)
    qed simp
  qed (use spec(2,3) in \<open>simp_all add: new_station_fields f\<close>)
qed

lemma calm_release_expired: "calm s (fst (release_expired_reservations s))"
proof -
  obtain cs rel where e: "expire_due (s_connectors s) (s_now s) = (cs, rel)" by force
  have "calm s (s\<lparr>s_connectors := cs\<rparr>)"
    using reservation_views(1) [of "s_connectors s" "s_now s"] e
    by (simp add: calm_def tx_view_def conts_def tokens_ok_def)
  moreover have "quiet (s\<lparr>s_connectors := cs\<rparr>) (foldl released_one (s\<lparr>s_connectors := cs\<rparr>) rel)"
    by (rule quiet_foldl) (unfold released_one_def, intro quiets [THEN [2] quiet_trans] quiet_refl)
  ultimately have "calm s (foldl released_one (s\<lparr>s_connectors := cs\<rparr>) rel)"
    by (blast intro: calm_trans quiet_calm)
  then show ?thesis
    by (cases "rel = []")
       (auto simp: release_expired_reservations_def e Let_def intro: calm_trans [OF _ quiet_calm [OF quiet_flush_now]])
qed

lemma calm_arm_live: "calm s (arm_live s i)"
  unfolding arm_live_def by (auto split: option.split intro: quiet_calm quiets)

lemma calm_foldl: "(\<And>s x. calm s (f s x)) \<Longrightarrow> calm s (foldl f s xs)"
  by (induction xs arbitrary: s) (auto intro: calm_trans)

lemma calm_on_reservation_timer: "calm s (on_reservation_timer s)"
  unfolding on_reservation_timer_def Let_def
  by (rule calm_trans [OF calm_release_expired]) (rule calm_foldl, rule calm_arm_live)

lemma calm_arm_reservation: "calm s (arm_reservation i s)"
  unfolding arm_reservation_def
  by (auto split: option.split intro: calm_on_reservation_timer calm_arm_live)

lemma calm_start: "calm (new_station lib config el rc now ticks store kept saved)
    (start_station lib config el rc now ticks store kept saved)"
proof -
  have "calm s (after_restore s)" for s
    unfolding after_restore_def Let_def
    by (rule calm_trans [OF calm_release_expired], rule calm_trans [OF calm_foldl quiet_calm])
       (rule calm_arm_reservation, rule quiets)
  then show ?thesis
    unfolding start_station_def by (blast intro: calm_trans quiet_calm quiet_settle_meters)
qed

subsection \<open>Reachable states\<close>

text \<open>
  The first run has no saved state; a restart, after a crash or a shutdown at any moment, finds
  what the last run saved, with any configuration.
\<close>

inductive reachable :: "station \<Rightarrow> bool" where
  first_start: "reachable (start_station lib config el rc now ticks store kept None)"
| turn: "reachable s \<Longrightarrow> reachable (turn now ticks w s)"
| restart: "reachable s \<Longrightarrow> stops_fit s \<Longrightarrow>
    reachable (start_station lib config el rc now ticks store kept (Some (build_persisted s)))"

lemma reachable_Inv: "reachable s \<Longrightarrow> Inv [] s"
proof (induction rule: reachable.induct)
  case (first_start lib config el rc now ticks store kept)
  show ?case by (rule Inv_calm [OF Inv_new_station calm_start])
next
  case (turn s now ticks w)
  show ?case by (rule Inv_turn [OF turn.IH])
next
  case (restart s lib config el rc now ticks store kept)
  show ?case by (rule Inv_calm [OF Inv_restored [OF restart.IH restart.hyps(2)] calm_start])
qed

end
