(* ===== verification/Gate.thy ===== *)
theory Gate
  imports Recovery
begin

text \<open>
  The registration gate.  While the station is not connected and accepted (\<open>can_talk\<close>), no handler
  sends anything but a BootNotification, and none starts an offline sync; \<open>muted\<close> says so for every
  operation, and the collection \<open>muteds\<close> has one introduction rule per operation.
\<close>

named_theorems muteds \<open>operations that respect the gate\<close>

subsection \<open>The relation\<close>

definition only_boots :: "effect list \<Rightarrow> bool" where
  "only_boots outs =
     (\<forall>e\<in>set outs. case e of Sent _ rq \<Rightarrow> rq = Req_Boot | Sent_Raw _ _ _ _ \<Rightarrow> False | _ \<Rightarrow> True)"

definition sync_idle :: "station \<Rightarrow> bool" where
  "sync_idle s = (s_sync_outstanding s = 0 \<and> s_sync_keys s = [])"

definition muted :: "station \<Rightarrow> station \<Rightarrow> bool" where
  "muted s0 s =
     (can_talk s0
      \<or> (\<not> can_talk s \<and> (lk_conn (s_link s) \<longrightarrow> lk_conn (s_link s0))
         \<and> (\<exists>outs. s_out s = s_out s0 @ outs \<and> only_boots outs)
         \<and> (\<exists>nc. s_calls s = s_calls s0 @ nc \<and> (nc = [] \<or> lk_conn (s_link s0)))
         \<and> (sync_idle s0 \<longrightarrow> sync_idle s)))"

lemma only_boots_simps [simp]:
  "only_boots []" "only_boots (a @ b) = (only_boots a \<and> only_boots b)"
  "only_boots (e # a) = ((case e of Sent _ rq \<Rightarrow> rq = Req_Boot | Sent_Raw _ _ _ _ \<Rightarrow> False | _ \<Rightarrow> True) \<and> only_boots a)"
  by (auto simp: only_boots_def)

lemma muted_refl [muteds]: "muted s s"
  by (auto simp: muted_def)

lemma muted_trans: "muted s t \<Longrightarrow> muted t u \<Longrightarrow> muted s u"
  unfolding muted_def by (elim disjE conjE exE) auto

lemma muted_step:
  "muted s0 s \<Longrightarrow> can_talk s' = can_talk s \<Longrightarrow> lk_conn (s_link s') = lk_conn (s_link s) \<Longrightarrow>
   s_calls s' = s_calls s \<Longrightarrow> s_out s' = s_out s @ outs \<Longrightarrow> only_boots outs \<Longrightarrow>
   (sync_idle s \<Longrightarrow> sync_idle s') \<Longrightarrow> muted s0 s'"
  by (erule muted_trans) (auto simp: muted_def)

lemma muted_quiet: "muted s0 s \<Longrightarrow> quiet s s' \<Longrightarrow> muted s0 s'"
proof (erule muted_trans)
  assume q: "quiet s s'"
  then have c: "core s' = core s" by (simp add: quiet_def)
  from q obtain nc outs where g: "s_calls s' = s_calls s @ nc" "s_out s' = s_out s @ outs"
    "nc = [] \<or> can_talk s" "\<forall>e\<in>set outs. harmless (can_talk s) e"
    by (auto simp: quiet_def grow_def)
  show "muted s s'"
  proof (cases "can_talk s")
    case False
    with g have "only_boots outs" by (auto simp: only_boots_def split: effect.split)
    with False g core_fieldsD(5,7,8) [OF c] core_can_talk [OF c] show ?thesis
      by (auto simp: muted_def sync_idle_def)
  qed (simp add: muted_def)
qed

lemmas quiet_muteds [muteds] = quiets [THEN [2] muted_quiet]

lemma muted_fields [muteds]:
  "muted s0 s \<Longrightarrow> muted s0 (s\<lparr>s_registry := g\<rparr>)" "muted s0 s \<Longrightarrow> muted s0 (s\<lparr>s_queue := q\<rparr>)"
  "muted s0 s \<Longrightarrow> muted s0 (s\<lparr>s_connectors := cs\<rparr>)" "muted s0 s \<Longrightarrow> muted s0 (s\<lparr>s_charge_point := c\<rparr>)"
  "muted s0 s \<Longrightarrow> muted s0 (s\<lparr>s_next_local := n\<rparr>)" "muted s0 s \<Longrightarrow> muted s0 (s\<lparr>s_sync_boot := b\<rparr>)"
  "muted s0 s \<Longrightarrow> muted s0 (s\<lparr>s_now := t\<rparr>)" "muted s0 s \<Longrightarrow> muted s0 (s\<lparr>s_mono := m\<rparr>)"
  "muted s0 s \<Longrightarrow> muted s0 (update_connector i f s)"
  "muted s0 s \<Longrightarrow> muted s0 (s\<lparr>s_sync_outstanding := 0\<rparr>)"
  "muted s0 s \<Longrightarrow> muted s0 (sync_count_down s)"
  by (erule muted_step [where outs = "[]"]; simp add: can_talk_def sync_idle_def sync_count_down_def)+

lemma muted_respond [muteds]: "muted s0 s \<Longrightarrow> muted s0 (respond r x s)"
  by (erule muted_step [where outs = "[Respond r x]"])
     (simp_all add: can_talk_def sync_idle_def respond_def emit_def)

lemma muted_emit: "muted s0 s \<Longrightarrow> only_boots [e] \<Longrightarrow> muted s0 (emit e s)"
  by (erule muted_step [where outs = "[e]"]) (simp_all add: can_talk_def sync_idle_def emit_def)

lemma muted_respond_error [muteds]: "muted s0 s \<Longrightarrow> muted s0 (respond_error r c t s)"
  unfolding respond_error_def by (erule muted_emit) simp

lemmas muted_small = muted_fields muted_respond

lemma muted_if: "(P \<Longrightarrow> muted s0 a) \<Longrightarrow> (\<not> P \<Longrightarrow> muted s0 b) \<Longrightarrow> muted s0 (if P then a else b)"
  by simp

lemma muted_foldl: "muted s0 s \<Longrightarrow> (\<And>s x. muted s0 s \<Longrightarrow> muted s0 (f s x)) \<Longrightarrow> muted s0 (foldl f s xs)"
  by (induction xs arbitrary: s) auto

lemma muted_talk: "can_talk s0 \<Longrightarrow> muted s0 s"
  by (simp add: muted_def)

lemma muted_silent: "muted s0 s \<Longrightarrow> \<not> can_talk s0 \<Longrightarrow> \<not> can_talk s"
  by (auto simp: muted_def)

lemma call_muted:
  assumes "\<not> can_talk s" and "rq \<noteq> Req_Boot"
  obtains e where "call_refused s (action_name rq) From_Station = Some e"
  using assms action_boot_iff [of rq] call_refused_None_From_Station [of s "action_name rq"]
  by (cases "call_refused s (action_name rq) From_Station") auto

lemma muted_call:
  assumes m: "muted s0 s" and rq: "rq \<noteq> Req_Boot" and f: "\<And>e. muted s0 (f e s)"
  shows "muted s0 (call f From_Station rq k s)"
proof (cases "can_talk s0")
  case False
  with muted_silent [OF m] have "\<not> can_talk s" by blast
  from call_muted [OF this rq] obtain e where "call_refused s (action_name rq) From_Station = Some e" .
  then show ?thesis by (simp add: call_def f)
qed (rule muted_talk)

subsection \<open>Transactions\<close>

lemma muted_apply_pending [muteds]: "muted s0 s \<Longrightarrow> muted s0 (apply_pending_availability i s)"
  unfolding apply_pending_availability_def
  by (auto split: option.split intro!: quiet_muteds muted_small)

lemma muted_begin_charging [muteds]: "muted s0 s \<Longrightarrow> muted s0 (begin_charging i tag s)"
  unfolding begin_charging_def by (intro quiet_muteds muted_small)

lemma muted_push_queue [muteds]: "muted s0 s \<Longrightarrow> muted s0 (push_queue e s)"
proof -
  assume m: "muted s0 s"
  show ?thesis
  proof (cases "snd (oq_push (s_queue s) e)")
    case None
    then show ?thesis using m by (auto simp: push_queue_def split: prod.split intro: muted_small)
  next
    case (Some d)
    show ?thesis
      by (rule muted_step [OF m, where outs = "[Dropped d]"])
         (use Some in \<open>auto simp: push_queue_def emit_def can_talk_def sync_idle_def split: prod.split\<close>)
  qed
qed

lemma muted_queue_stop [muteds]: "muted s0 s \<Longrightarrow> muted s0 (fst (queue_stop i tx tag t m info s))"
  unfolding queue_stop_def next_key_def
  by (auto split: option.split intro!: muted_push_queue muted_small)

lemma muted_finish_stop [muteds]: "muted s0 s \<Longrightarrow> muted s0 (finish_stop i tx s)"
  unfolding finish_stop_def Let_def
  by (intro muted_apply_pending quiet_muteds muted_if muted_small)

lemma muted_abandon_start [muteds]: "muted s0 s \<Longrightarrow> muted s0 (abandon_start i s)"
  unfolding abandon_start_def Let_def by (intro muted_apply_pending quiet_muteds muted_small)

lemma muted_start_failed [muteds]: "muted s0 s \<Longrightarrow> muted s0 (start_failed i local k e s)"
  unfolding start_failed_def by (intro muted_abandon_start quiet_muteds muted_if)

lemma muted_give_up [muteds]: "muted s0 s \<Longrightarrow> muted s0 (give_up s k)"
  unfolding give_up_def by (intro quiet_muteds muted_small)

lemma muted_arm_sync_retry [muteds]: "muted s0 s \<Longrightarrow> muted s0 (arm_sync_retry s)"
  unfolding arm_sync_retry_def Let_def by (intro muted_if quiet_muteds muted_foldl muted_give_up)

lemma muted_arm_sync_retry_if_idle [muteds]: "muted s0 s \<Longrightarrow> muted s0 (arm_sync_retry_if_idle s)"
  unfolding arm_sync_retry_if_idle_def by (intro muted_if muted_arm_sync_retry quiet_muteds)

lemma muted_sync_finished [muteds]: "muted s0 s \<Longrightarrow> muted s0 (sync_finished s)"
  unfolding sync_finished_def Let_def
  by (intro muted_arm_sync_retry_if_idle muted_if quiet_muteds muted_small)

lemma sync_entry_call_not_boot: "sync_entry_call s key = Some (rq, k) \<Longrightarrow> rq \<noteq> Req_Boot"
  by (auto simp: sync_entry_call_def sync_stop_call_def split: option.splits if_splits)

lemma muted_sync_keys: "muted s0 s \<Longrightarrow> s_sync_keys s = key # keys \<Longrightarrow> muted s0 (s\<lparr>s_sync_keys := keys\<rparr>)"
  by (erule muted_step [where outs = "[]"]) (simp_all add: can_talk_def sync_idle_def)

lemma muted_run_sync [muteds]: "muted s0 s \<Longrightarrow> muted s0 (run_sync s)"
proof (induction s rule: run_sync.induct)
  case (1 s)
  show ?case
  proof (cases "can_talk s0")
    case False
    show ?thesis
    proof (cases "s_sync_keys s")
      case Nil
      with 1 show ?thesis by (simp add: run_sync_Nil muted_sync_finished)
    next
      case (Cons key keys)
      let ?s = "s\<lparr>s_sync_keys := keys\<rparr>"
      have s: "muted s0 ?s" using muted_sync_keys 1(3) Cons by blast
      show ?thesis
      proof (cases "sync_entry_call ?s key")
        case None
        with Cons 1(1) [OF Cons refl None] s show ?thesis
          by (subst run_sync.simps) (simp add: muted_small)
      next
        case (Some rk)
        obtain rq k where rk: "rk = (rq, k)" by force
        have "\<not> can_talk ?s" by (rule muted_silent [OF s False])
        from call_muted [OF this sync_entry_call_not_boot] Some rk obtain e
          where e: "call_refused ?s (action_name rq) From_Station = Some e" by blast
        have "muted s0 (sync_count_down (record_sync_failure key e ?s))"
          by (intro muted_small quiet_muteds s)
        from 1(2) [OF Cons refl Some rk [symmetric] e this] Cons Some rk e
        show ?thesis by (subst run_sync.simps) simp
      qed
    qed
  qed (rule muted_talk)
qed

lemma muted_sync_done [muteds]: "muted s0 s \<Longrightarrow> muted s0 (sync_done s)"
  unfolding sync_done_def by (intro muted_run_sync muted_small)

lemma muted_sync_failed [muteds]: "muted s0 s \<Longrightarrow> muted s0 (sync_failed k e s)"
  unfolding sync_failed_def by (intro muted_sync_done quiet_muteds)

lemma muted_stop_failed [muteds]:
  assumes "muted s0 s"
  shows "muted s0 (stop_failed i tx tag t m info k e s)"
proof -
  obtain s1 key where q: "queue_stop i tx tag t m info s = (s1, key)" by force
  with muted_queue_stop [OF assms, of i tx tag t m info] have "muted s0 s1" by simp
  then show ?thesis
    unfolding stop_failed_def q Let_def prod.case
    by (intro quiet_muteds muted_arm_sync_retry_if_idle muted_finish_stop)
qed

lemma muted_sync_stop:
  assumes "muted s0 s"
  shows "muted s0 (case sync_stop key s of (sent, s') \<Rightarrow> if sent then s' else sync_done s')"
proof (cases "sync_stop_call s key")
  case None
  then show ?thesis using assms by (simp add: sync_stop_def muted_sync_done)
next
  case (Some rk)
  obtain rq k where rk: "rk = (rq, k)" by force
  with Some have "rq \<noteq> Req_Boot" by (auto simp: sync_stop_call_def split: option.splits)
  then show ?thesis
    using Some rk by (simp add: sync_stop_def) (intro muted_call muted_sync_failed assms)
qed

lemma muted_drop_local [muteds]: "muted s0 s \<Longrightarrow> muted s0 (drop_local_transaction i tx s)"
  unfolding drop_local_transaction_def Let_def
  by (intro muted_apply_pending quiet_muteds muted_if muted_small)

lemma muted_verdict:
  "muted s0 s \<Longrightarrow> apply_verdict tag info s = (s', d) \<Longrightarrow> muted s0 s'"
  using quiet_apply_verdict [of s tag info] by (auto intro: muted_quiet)

lemma muted_sync_start_answered [muteds]:
  assumes m: "muted s0 s"
  shows "muted s0 (sync_start_answered key info tx s)"
proof (cases "oq_get (s_queue s) key")
  case None
  with m show ?thesis by (simp add: sync_start_answered_def muted_sync_done)
next
  case (Some e)
  obtain s1 d where v: "apply_verdict (ox_id_tag e) info s = (s1, d)" by force
  note m1 = muted_verdict [OF m v]
  show ?thesis
    unfolding sync_start_answered_def Some option.case v prod.case Let_def
    by (intro muted_if muted_sync_stop muted_sync_done muted_drop_local quiet_muteds muted_small m1)
qed

lemma muted_sync_stop_answered [muteds]: "muted s0 s \<Longrightarrow> muted s0 (sync_stop_answered key s)"
  unfolding sync_stop_answered_def by (intro muted_sync_done quiet_muteds muted_small)

lemma muted_start_answered [muteds]:
  assumes m: "muted s0 s"
  shows "muted s0 (start_answered i local p k info tx s)"
proof -
  obtain s1 d where v: "apply_verdict (ps_id_tag p) info s = (s1, d)" by force
  note m1 = muted_verdict [OF m v]
  show ?thesis
    unfolding start_answered_def v prod.case Let_def
    by (intro muted_if muted_begin_charging muted_abandon_start quiet_muteds muted_small m1)
qed

lemma muted_if_talk: "muted s0 s \<Longrightarrow> muted s0 (if can_talk s then x else s)"
  by (auto simp: muted_def)

lemma muted_stop_transaction [muteds]:
  assumes m0: "muted s0 s"
  shows "muted s0 (stop_transaction i reason tag k s)"
proof -
  define u where "u = flush_meters s"
  have m: "muted s0 u" unfolding u_def by (intro quiet_muteds m0)
  show ?thesis
  proof (cases "physical_connector u i")
    case (Inl e)
    then show ?thesis using m by (simp add: stop_transaction_def Let_def quiet_muteds flip: u_def)
  next
    case (Inr c)
    show ?thesis
    proof (cases "stoppable u c")
      case (Inl why)
      then show ?thesis using Inr m by (simp add: stop_transaction_def Let_def quiet_muteds flip: u_def)
    next
      case st: (Inr r)
      obtain tx t mw tg where r: "r = (tx, t, mw, tg)" by (cases r)
      obtain ev status where ev: "state_after_stop reason (c_ev_connected c) (c_availability c) = (ev, status)"
        by force
      obtain s1 rd where rd: "station_meter_reading i False u = (s1, rd)" by force
      define s2 where "s2 = clear_invalid_limit i (timer_cancel (T_MeterPeriodic i)
          (update_connector i (\<lambda>c. c\<lparr>c_ev_connected := ev, c_status := status\<rparr>) s1))"
      have "muted s0 s1" using quiet_station_meter_reading [of u i False] rd muted_quiet [OF m] by simp
      then have m2: "muted s0 s2" unfolding s2_def by (intro quiet_muteds muted_small)
      note unfolds = stop_transaction_def Let_def u_def [symmetric] Inr st r ev rd sum.case prod.case
        s2_def [symmetric]
      show ?thesis
        unfolding unfolds
        by (cases "wire tx"; simp only: option.case)
           (intro quiet_muteds muted_if muted_if_talk muted_finish_stop muted_queue_stop muted_call
             muted_stop_failed muted_small m2; simp)+
    qed
  qed
qed

lemma muted_start_transaction [muteds]:
  assumes m0: "muted s0 s"
  shows "muted s0 (start_transaction i tag k s)"
proof -
  define u where "u = flush_meters s"
  have m: "muted s0 u" unfolding u_def by (intro quiet_muteds m0)
  show ?thesis
    unfolding start_transaction_def next_key_def Let_def prod.case u_def [symmetric]
    by (auto split: sum.split option.split simp del: complete.simps
        intro!: quiet_muteds muted_push_queue muted_begin_charging muted_call muted_start_failed muted_small m)
qed

lemma muted_check_energy_limit [muteds]: "muted s0 s \<Longrightarrow> muted s0 (check_energy_limit i s)"
  unfolding check_energy_limit_def
  by (auto split: option.split intro!: muted_stop_transaction quiet_muteds)

lemma muted_authorized [muteds]: "muted s0 s \<Longrightarrow> muted s0 (authorized k res s)"
  by (cases k)
     (auto simp: begin_remote_start_def remote_start_reply_def Let_def split: sum.split
       intro!: muted_start_transaction muted_respond quiet_muteds)

lemma muted_authorize [muteds]: "muted s0 s \<Longrightarrow> muted s0 (authorize tag k s)"
  by (auto simp: authorize_def authorize_failed_def intro!: muted_authorized muted_call)

lemma muted_authorize_failed [muteds]: "muted s0 s \<Longrightarrow> muted s0 (authorize_failed k e s)"
  unfolding authorize_failed_def by (rule muted_authorized)

lemma muted_authorize_answered [muteds]: "muted s0 s \<Longrightarrow> muted s0 (authorize_answered tag k info s)"
  by (auto simp: authorize_answered_def split: prod.split intro: muted_authorized muted_verdict)

subsection \<open>Samples and handlers\<close>

lemma muted_sample_failed [muteds]: "muted s0 s \<Longrightarrow> muted s0 (sample_failed i ro e s)"
  unfolding sample_failed_def by (intro muted_check_energy_limit quiet_muteds)

lemma muted_sample_answered [muteds]: "muted s0 s \<Longrightarrow> muted s0 (sample_answered i ro s)"
  unfolding sample_answered_def by (intro muted_check_energy_limit quiet_muteds)

lemma muted_sample_meter [muteds]:
  assumes m0: "muted s0 s"
  shows "muted s0 (sample_meter i context delta_wh ms ro s)"
proof (cases "can_talk s0")
  case False
  define u where "u = flush_meters s"
  have m: "muted s0 u" unfolding u_def by (intro quiet_muteds m0)
  define s1 where "s1 = update_connector i (\<lambda>c. c\<lparr>c_meter_wh := min (c_meter_wh c + delta_wh) u64_max\<rparr>) u"
  define s2 where "s2 = (if 0 < delta_wh then mark_dirty s1 else s1)"
  have m2: "muted s0 s2" unfolding s2_def s1_def by (intro muted_if quiet_muteds muted_small m)
  then have "\<not> can_talk s2" by (rule muted_silent [OF _ False])
  then show ?thesis
    unfolding sample_meter_def Let_def u_def [symmetric] s1_def [symmetric] s2_def [symmetric]
    by (auto split: option.split intro!: muted_check_energy_limit quiet_muteds m m2)
qed (rule muted_talk)

lemma muted_meter_values_command [muteds]: "muted s0 s \<Longrightarrow> muted s0 (meter_values_command i d mso r s)"
  unfolding meter_values_command_def by (auto split: sum.split intro: quiet_muteds muted_sample_meter)

lemma muted_meter_timers [muteds]:
  "muted s0 s \<Longrightarrow> muted s0 (on_meter_periodic i s)" "muted s0 s \<Longrightarrow> muted s0 (on_meter_aligned s)"
proof -
  assume m: "muted s0 s"
  show "muted s0 (on_meter_periodic i s)"
    unfolding on_meter_periodic_def Let_def using m by (auto intro!: muted_sample_meter intro: quiet_muteds)
  show "muted s0 (on_meter_aligned s)"
    unfolding on_meter_aligned_def Let_def using m
    by (auto split: option.split intro!: muted_foldl muted_sample_meter intro: quiet_muteds)
qed

lemma muted_availability_target:
  "muted s0 (fst acc) \<Longrightarrow> muted s0 (fst (availability_target kind acc i))"
  by (cases acc) (auto simp: availability_target_def Let_def split: option.split intro!: muted_small)

lemma muted_availability_targets:
  "muted s0 (fst acc) \<Longrightarrow> muted s0 (fst (foldl (availability_target kind) acc is))"
proof (induction "is" arbitrary: acc)
  case (Cons i "is")
  show ?case using Cons.IH [OF muted_availability_target [OF Cons.prems]] by simp
qed simp

lemma muted_set_station_availability [muteds]:
  "muted s0 s \<Longrightarrow> muted s0 (set_station_availability kind s)"
  unfolding set_station_availability_def by (intro quiet_muteds muted_small)

lemma muted_change_availability [muteds]:
  assumes m: "muted s0 s"
  shows "muted s0 (change_availability r i kind s)"
proof -
  let ?acc = "if is_station i then (set_station_availability kind s, False, [STATION]) else (s, False, [])"
  let ?targets = "if is_station i then map c_id (s_connectors s) else [i]"
  obtain s2 scheduled changed where f: "foldl (availability_target kind) ?acc ?targets = (s2, scheduled, changed)"
    by (metis prod_cases3)
  have "muted s0 (fst ?acc)" using m by (auto intro: muted_set_station_availability)
  from muted_availability_targets [OF this, of kind ?targets] f have "muted s0 s2" by simp
  then show ?thesis
    using f m unfolding change_availability_def Let_def
    by (auto intro!: muted_foldl muted_respond quiet_muteds)
qed

lemma muted_unlock_connector [muteds]: "muted s0 s \<Longrightarrow> muted s0 (unlock_connector r i s)"
  unfolding unlock_connector_def Let_def
  by (auto split: sum.split intro!: muted_stop_transaction muted_respond)

lemma muted_release_expired: "muted s0 s \<Longrightarrow> muted s0 (fst (release_expired_reservations s))"
  unfolding release_expired_reservations_def Let_def released_one_def
  by (auto split: prod.split intro!: muted_foldl quiet_muteds muted_small)

lemma muted_arm_live: "muted s0 s \<Longrightarrow> muted s0 (arm_live s i)"
  unfolding arm_live_def by (auto split: option.split intro: quiet_muteds)

lemma muted_on_reservation_timer [muteds]: "muted s0 s \<Longrightarrow> muted s0 (on_reservation_timer s)"
  unfolding on_reservation_timer_def Let_def by (intro muted_foldl muted_arm_live muted_release_expired)

lemma muted_arm_reservation [muteds]: "muted s0 s \<Longrightarrow> muted s0 (arm_reservation i s)"
  unfolding arm_reservation_def by (auto split: option.split intro: muted_on_reservation_timer muted_arm_live)

lemma muted_reservation_handlers [muteds]:
  "muted s0 s \<Longrightarrow> muted s0 (reserve_now_handler r rq s)"
  "muted s0 s \<Longrightarrow> muted s0 (cancel_reservation_handler r n s)"
proof -
  assume m: "muted s0 s"
  show "muted s0 (reserve_now_handler r rq s)"
    unfolding reserve_now_handler_def Let_def
    by (auto split: prod.split sum.split option.split
        intro!: quiet_muteds muted_arm_reservation muted_small muted_release_expired m)
  show "muted s0 (cancel_reservation_handler r n s)"
    unfolding cancel_reservation_handler_def
    by (auto split: prod.split option.split intro!: quiet_muteds muted_small m)
qed

lemma muted_remote [muteds]:
  "muted s0 s \<Longrightarrow> muted s0 (remote_start r q tag po s)"
  "muted s0 s \<Longrightarrow> muted s0 (remote_stop r tx s)"
  unfolding remote_start_def remote_stop_def Let_def remote_start_reply_def begin_remote_start_def
  by (auto split: option.split intro!: muted_authorize muted_start_transaction muted_stop_transaction muted_respond)

lemma muted_profile_handlers [muteds]:
  "muted s0 s \<Longrightarrow> muted s0 (set_profile_handler r i p s)"
  "muted s0 s \<Longrightarrow> muted s0 (clear_profile_handler r f s)"
  "muted s0 s \<Longrightarrow> muted s0 (composite_handler r i d u s)"
proof -
  assume m: "muted s0 s"
  have "muted s0 (fst (set_charging_profile i p s))" using m by (intro quiet_muteds)
  then show "muted s0 (set_profile_handler r i p s)"
    by (auto simp: set_profile_handler_def split: prod.split intro!: muted_respond)
  show "muted s0 (clear_profile_handler r f s)"
    by (auto simp: clear_profile_handler_def split: prod.split intro!: muted_respond quiet_muteds m)
  show "muted s0 (composite_handler r i d u s)"
    unfolding composite_handler_def Let_def
    by (auto split: prod.split intro!: muted_respond quiet_muteds m)
qed

lemma muted_user_commands [muteds]:
  "muted s0 s \<Longrightarrow> muted s0 (fst (plug_in i s))" "muted s0 s \<Longrightarrow> muted s0 (unplug i k s)"
  "muted s0 s \<Longrightarrow> muted s0 (fst (set_status i st s))" "muted s0 s \<Longrightarrow> muted s0 (fst (cycle_status i s))"
  "muted s0 s \<Longrightarrow> muted s0 (fault i code info vendor k s)" "muted s0 s \<Longrightarrow> muted s0 (fst (clear_fault i s))"
  "muted s0 s \<Longrightarrow> muted s0 (fst (add_connector s))"
  unfolding plug_in_def unplug_def set_status_def cycle_status_def fault_def clear_fault_def
    add_connector_def Let_def
  by (auto split: sum.split option.split simp del: complete.simps
      intro!: quiet_muteds muted_stop_transaction muted_small)

subsection \<open>Boot, heartbeat, reset\<close>

lemma muted_link [muteds]:
  "muted s0 s \<Longrightarrow> lk_conn l = lk_conn (s_link s) \<Longrightarrow> muted s0 (s\<lparr>s_link := l\<rparr>)"
  by (erule muted_step [where outs = "[]"]) (simp_all add: can_talk_def sync_idle_def)

lemma muted_set_boot: "muted s0 s \<Longrightarrow> muted s0 (set_boot_in_flight b s)"
  unfolding set_boot_in_flight_def by (erule muted_link) simp

lemma muted_boot_failed [muteds]: "muted s0 s \<Longrightarrow> muted s0 (boot_failed g ro e s)"
  unfolding boot_failed_def boot_done_def Let_def by (intro quiet_muteds muted_if muted_set_boot)

lemma muted_submit_boot:
  assumes m: "muted s0 s" and c: "lk_conn (s_link s)"
  shows "muted s0 (submit From_Station Req_Boot k s)"
  by (rule muted_trans [OF m])
     (use c in \<open>auto simp: muted_def can_talk_def sync_idle_def submit_def emit_def Let_def\<close>)

lemma muted_send_boot [muteds]: "muted s0 s \<Longrightarrow> muted s0 (send_boot ro s)"
  unfolding send_boot_def Let_def call_def call_refused_def
  by (auto split: option.split intro!: muted_boot_failed muted_submit_boot muted_set_boot quiet_muteds)

lemma muted_heartbeat [muteds]:
  "muted s0 s \<Longrightarrow> muted s0 (send_heartbeat From_Station ro s)"
  "muted s0 s \<Longrightarrow> muted s0 (heartbeat_failed ro e s)" "muted s0 s \<Longrightarrow> muted s0 (heartbeat_answered ro t s)"
  unfolding send_heartbeat_def heartbeat_failed_def heartbeat_answered_def
  by (intro muted_call quiet_muteds; simp)+

lemma muted_on_heartbeat_timer [muteds]: "muted s0 s \<Longrightarrow> muted s0 (on_heartbeat_timer s)"
  unfolding on_heartbeat_timer_def arm_heartbeat_def by (intro muted_if muted_heartbeat quiet_muteds)

lemma muted_on_boot_retry_timer [muteds]: "muted s0 s \<Longrightarrow> muted s0 (on_boot_retry_timer s)"
  unfolding on_boot_retry_timer_def by (intro muted_if muted_send_boot)

lemma muted_failed [muteds]: "muted s0 s \<Longrightarrow> muted s0 (failed k e s)"
  by (cases k)
     (auto simp: failed_def intro: quiet_muteds muted_authorize_failed muted_start_failed muted_stop_failed
       muted_sync_failed muted_sample_failed muted_boot_failed muted_heartbeat)

lemma muted_unregister: "muted s0 s \<Longrightarrow> muted s0 (s\<lparr>s_registration := None\<rparr>)"
  unfolding muted_def by (auto simp: can_talk_def sync_idle_def)

lemma muted_reset [muteds]: "muted s0 s \<Longrightarrow> muted s0 (reset r kind s)"
proof -
  assume m: "muted s0 s"
  have r1: "muted s0 (reset_one reason t i)" if "muted s0 t" for reason t i
    unfolding reset_one_def using that by (intro quiet_muteds muted_small muted_stop_transaction)
  have r2: "muted s0 (unreserve_one t i)" if "muted s0 t" for t i
    unfolding unreserve_one_def using that by (intro quiet_muteds muted_small)
  show ?thesis
    unfolding reset_def perform_reset_def Let_def
    by (cases kind)
       (simp_all only: reset_type.case, (intro muted_if quiet_muteds muted_unregister muted_foldl
         muted_respond r1 r2 m; assumption?)+)
qed

subsection \<open>A turn\<close>

definition boots :: "station \<Rightarrow> station \<Rightarrow> bool" where
  "boots s0 s = (can_talk s0 \<or> (\<not> can_talk s \<and> (\<exists>outs. s_out s = s_out s0 @ outs \<and> only_boots outs)))"

lemma boots_trans: "boots s t \<Longrightarrow> boots t u \<Longrightarrow> boots s u"
  unfolding boots_def by (elim disjE conjE exE) auto

lemma boots_muted: "muted s0 s \<Longrightarrow> boots s0 s"
  by (auto simp: muted_def boots_def)

lemma boots_step:
  "boots s0 s \<Longrightarrow> s_out s' = s_out s \<Longrightarrow> (can_talk s' \<Longrightarrow> can_talk s) \<Longrightarrow> boots s0 s'"
  by (auto simp: boots_def)

lemma boots_quiet: "boots s0 s \<Longrightarrow> quiet s s' \<Longrightarrow> boots s0 s'"
  by (erule boots_trans) (rule boots_muted [OF muted_quiet [OF muted_refl]])

lemma muted_fail_list:
  "muted s0 s \<Longrightarrow> muted s0 (foldl (\<lambda>s' (_, pc). failed (pc_cont pc) e s') s cs)"
  by (induction cs arbitrary: s) (auto intro: muted_failed)

text \<open>The state in which \<open>link_down\<close> fails what was in flight.\<close>

definition cut :: "station \<Rightarrow> station" where
  "cut s =
     (let s1 = s\<lparr>s_link := (s_link s)\<lparr>lk_generation := lk_generation (s_link s) + 1,
                   lk_conn := False, lk_boot_in_flight := False\<rparr>\<rparr>;
          s2 = cancel_simulations (timer_cancel T_HardReset (timer_cancel T_BootRetry
                 (timer_cancel T_Heartbeat s1)))\<lparr>s_hard_reset_deadline := None\<rparr>;
          s3 = timer_cancel T_SyncRetry (s2\<lparr>s_sync_outstanding := 0, s_sync_keys := [],
                 s_sync_boot := False, s_sync_failed := False, s_sync_failures := Map.empty\<rparr>)
      in (reset_status_tracking s3)\<lparr>s_registration := None\<rparr>)"

lemma link_down_cut: "link_down code s = (fail_pending_calls (Closed code) (cut s))\<lparr>s_connection := Disconnected\<rparr>"
  by (simp add: link_down_def cut_def Let_def)

lemma cut_fields:
  "\<not> can_talk (cut s)" "\<not> lk_conn (s_link (cut s))" "s_out (cut s) = s_out s" "sync_idle (cut s)"
  "s_calls (cut s) = s_calls s"
  by (simp_all add: cut_def Let_def can_talk_def sync_idle_def reset_status_tracking_def
      timer_cancel_where_def timer_cancel_def cancel_simulations_def cancel_maintenance_def
      cancel_log_upload_def cancel_signed_firmware_def upd_maintenance_def)

lemma fail_pending_muted:
  assumes "\<not> can_talk s"
  shows "muted (s\<lparr>s_calls := []\<rparr>) (fail_pending_calls e s)"
  unfolding fail_pending_calls_def by (rule muted_fail_list [OF muted_refl])

lemma link_down_empty:
  "s_calls (link_down code s) = []" "sync_idle (link_down code s)" "\<not> can_talk (link_down code s)"
  "\<exists>outs. s_out (link_down code s) = s_out s @ outs \<and> only_boots outs"
proof -
  have "muted (cut s\<lparr>s_calls := []\<rparr>) (fail_pending_calls (Closed code) (cut s))"
    by (rule fail_pending_muted [OF cut_fields(1)])
  then show "s_calls (link_down code s) = []" "sync_idle (link_down code s)" "\<not> can_talk (link_down code s)"
    "\<exists>outs. s_out (link_down code s) = s_out s @ outs \<and> only_boots outs"
    using cut_fields [of s] unfolding link_down_cut
    by (auto simp: muted_def can_talk_def sync_idle_def)
qed

lemma boots_link_down: "boots s (link_down code s)"
  using link_down_empty [of code s] by (auto simp: boots_def)

lemma boots_link:
  "boots s0 s \<Longrightarrow> (lk_conn l \<Longrightarrow> lk_conn (s_link s)) \<Longrightarrow> boots s0 (s\<lparr>s_link := l\<rparr>)"
  by (erule boots_step) (auto simp: can_talk_def)

lemma boots_connection: "boots s0 s \<Longrightarrow> boots s0 (s\<lparr>s_connection := x\<rparr>)"
  by (erule boots_step) (simp_all add: can_talk_def)

lemma boots_refl [simp]: "boots s s"
  by (auto simp: boots_def)

lemma boots_if: "(P \<Longrightarrow> boots s a) \<Longrightarrow> (\<not> P \<Longrightarrow> boots s b) \<Longrightarrow> boots s (if P then a else b)"
  by simp

lemmas boots_quiets = quiets [THEN [2] boots_quiet]

lemma boots_emit: "boots s0 s \<Longrightarrow> only_boots [e] \<Longrightarrow> boots s0 (emit e s)"
  by (rule boots_trans [OF _ boots_muted [OF muted_emit [OF muted_refl]]])

lemma boots_start_connect: "boots s0 s \<Longrightarrow> boots s0 (start_connect s)"
proof -
  assume b: "boots s0 s"
  let ?s = "s\<lparr>s_link := (s_link s)\<lparr>lk_generation := lk_generation (s_link s) + 1, lk_connecting := True\<rparr>,
      s_connection := Connecting\<rparr>"
  obtain config which where "apply_security_transport ?s = (config, which)" by force
  then show ?thesis
    unfolding start_connect_def Let_def
    by (simp only: prod.case) (intro boots_emit boots_quiets boots_connection boots_link b; simp)
qed

lemma boots_connect: "boots s0 s \<Longrightarrow> boots s0 (connect s)"
  unfolding connect_def Let_def by (intro boots_if boots_start_connect boots_quiets boots_link) simp_all

lemma boots_down: "boots s0 s \<Longrightarrow> boots s0 (link_down code s)"
  by (rule boots_trans [OF _ boots_link_down])

lemma boots_disconnect: "boots s0 s \<Longrightarrow> boots s0 (disconnect s)"
  unfolding disconnect_def Let_def by (intro boots_connection boots_down boots_quiets boots_link) simp_all

lemma boots_schedule_reconnect: "boots s0 s \<Longrightarrow> boots s0 (schedule_reconnect s)"
  unfolding schedule_reconnect_def Let_def
  by (intro boots_if boots_quiets boots_connection boots_link) simp_all

lemma boots_send_boot: "boots s0 s \<Longrightarrow> boots s0 (send_boot ro s)"
  by (rule boots_trans [OF _ boots_muted [OF muted_send_boot [OF muted_refl]]])

subsection \<open>The end of a CALL, timers and turns\<close>

lemma muted_boot_not_accepted: "muted s0 s \<Longrightarrow> muted s0 (boot_not_accepted n s)"
  unfolding boot_not_accepted_def Let_def
  by (auto split: option.split prod.split intro!: quiet_muteds)

lemma muted_refused: "muted s0 s \<Longrightarrow> st \<noteq> Reg_Accepted \<Longrightarrow> muted s0 (s\<lparr>s_registration := Some st\<rparr>)"
  unfolding muted_def by (auto simp: can_talk_def sync_idle_def)

lemma muted_boot_answered:
  assumes "muted s0 s" and "st \<noteq> Reg_Accepted"
  shows "muted s0 (boot_answered g ro st t n s)"
  unfolding boot_answered_def boot_done_def Let_def if_not_P [OF assms(2)]
  by (intro quiet_muteds muted_boot_not_accepted muted_refused muted_if muted_set_boot assms)

text \<open>The answer that opens the gate.\<close>

definition accepts_boot :: "call_error + response \<Rightarrow> bool" where
  "accepts_boot res = (case res of Inr (Res_Boot status _ _) \<Rightarrow> status = Reg_Accepted | _ \<Rightarrow> False)"

lemma muted_answered:
  assumes m: "muted s0 s" and r: "\<not> accepts_boot (Inr r)"
  shows "muted s0 (answered k r s)"
proof (cases k)
  case (K_Boot g ro)
  with r muted_failed [OF m] show ?thesis
    by (cases r) (auto simp: answered_def accepts_boot_def intro: muted_boot_answered [OF m])
qed (use muted_failed [OF m, of k Decode] in
      \<open>cases r; simp add: answered_def muted_authorize_answered muted_start_answered stop_answered_def
        muted_finish_stop muted_sync_start_answered muted_sync_stop_answered muted_sample_answered
        muted_heartbeat quiet_muteds m\<close>)+

lemma boots_on_call_done:
  assumes "\<not> accepts_boot res"
  shows "boots s (on_call_done token gen res s)"
proof -
  have "muted t (resume k res t)" for k t
    using assms by (auto simp: resume_def split: sum.split intro: muted_failed muted_answered muted_refl)
  moreover have "boots s (s\<lparr>s_calls := cs\<rparr>)" for cs
    by (rule boots_step [OF boots_refl]) (simp_all add: can_talk_def)
  ultimately show ?thesis
    unfolding on_call_done_def by (auto split: option.split intro: boots_trans [OF _ boots_muted])
qed

lemma boots_on_hard_reset_timer: "boots s (on_hard_reset_timer s)"
  unfolding on_hard_reset_timer_def reconnect_for_hard_reset_def Let_def
  by (auto split: option.split
      intro!: boots_quiets boots_start_connect boots_link boots_down boots_refl)

text \<open>The effects one step adds.\<close>

definition emits :: "station \<Rightarrow> station \<Rightarrow> bool" where
  "emits s s' = (\<exists>outs. s_out s' = s_out s @ outs \<and> only_boots outs)"

lemma emits_boots: "boots s s' \<Longrightarrow> \<not> can_talk s \<Longrightarrow> emits s s'"
  by (auto simp: boots_def emits_def)

lemma emits_muted: "muted s s' \<Longrightarrow> \<not> can_talk s \<Longrightarrow> emits s s'"
  by (auto simp: muted_def emits_def)

lemma emits_same: "s_out s' = s_out s \<Longrightarrow> emits s s'"
  by (simp add: emits_def)

lemma emits_trans: "emits s t \<Longrightarrow> emits t u \<Longrightarrow> emits s u"
  by (auto simp: emits_def)

lemma emits_send_boot: "emits s (send_boot ro s)"
  by (auto simp: emits_def send_boot_def set_boot_in_flight_def call_def submit_def emit_def boot_failed_def
      boot_done_def timer_cancel_def timer_set_def answer_opt_def answer_def Let_def
      split: option.split)

lemma emits_on_connect_result:
  assumes n: "\<not> can_talk s" and r: "ok = None \<Longrightarrow> s_registration s \<noteq> Some Reg_Accepted"
  shows "emits s (on_connect_result gen ok s)"
proof (cases ok)
  case None
  let ?t = "s\<lparr>s_link := (s_link s)\<lparr>lk_connecting := False, lk_conn := True\<rparr>, s_connection := Connected\<rparr>"
  have "\<not> can_talk ?t" using r None by (simp add: can_talk_def)
  then have "emits ?t (established ?t)" by (intro emits_muted quiet_muteds muted_refl)
  then have "emits s (established ?t)" by (rule emits_trans [OF emits_same, rotated]) simp
  with None show ?thesis
    by (auto simp: on_connect_result_def intro: emits_trans [OF _ emits_send_boot] emits_same)
next
  case (Some e)
  have "boots s (on_connect_result gen (Some e) s)"
    unfolding on_connect_result_def option.case
    by (intro boots_if boots_schedule_reconnect boots_connection boots_quiets boots_link boots_refl) simp
  with Some n show ?thesis by (simp add: emits_boots)
qed

lemma muted_user_call: "muted s0 s \<Longrightarrow> rq \<noteq> Req_Boot \<Longrightarrow> muted s0 (user_call rq r s)"
  by (erule muted_quiet) (erule quiet_user_call)

lemma muted_configuration [muteds]:
  "muted s0 s \<Longrightarrow> muted s0 (fst (apply_configuration_change key v s))"
  "muted s0 s \<Longrightarrow> muted s0 (fst (set_configuration key v s))"
  "muted s0 s \<Longrightarrow> muted s0 (change_configuration r key v s)"
  "muted s0 s \<Longrightarrow> muted s0 (get_configuration_request r keys s)"
proof -
  show apply_ok: "muted s0 (fst (apply_configuration_change key v s))" if "muted s0 s"
    unfolding apply_configuration_change_def Let_def
    using that by (auto split: prod.split intro!: quiet_muteds intro: muted_small)
  show "muted s0 (fst (set_configuration key v s))" "muted s0 (change_configuration r key v s)" if "muted s0 s"
    using apply_ok [OF that] unfolding set_configuration_def change_configuration_def
    by (auto split: prod.split intro: muted_respond)
  show "muted s0 (get_configuration_request r keys s)" if "muted s0 s"
    unfolding get_configuration_request_def
    using that by (auto split: sum.split prod.split intro: muted_respond muted_respond_error)
qed

lemma muted_data_handlers [muteds]:
  "muted s0 s \<Longrightarrow> muted s0 (data_transfer r vendor data s)"
  "muted s0 s \<Longrightarrow> muted s0 (send_local_list_handler r lrq s)"
  "muted s0 s \<Longrightarrow> muted s0 (get_version_handler r s)"
  "muted s0 s \<Longrightarrow> muted s0 (clear_cache_handler r s)"
  unfolding data_transfer_def send_local_list_handler_def get_version_handler_def clear_cache_handler_def Let_def
  by (auto split: prod.split intro!: muted_respond quiet_muteds)

lemma muted_maintenance_handlers [muteds]:
  "muted s0 s \<Longrightarrow> muted s0 (get_diagnostics r n d s)" "muted s0 s \<Longrightarrow> muted s0 (get_log r lq s)"
  "muted s0 s \<Longrightarrow> muted s0 (update_firmware r n d t s)"
  unfolding get_diagnostics_def get_log_def update_firmware_def Let_def
  by (intro quiet_muteds muted_respond muted_if; assumption)+

lemma muted_signed_update_firmware [muteds]:
  assumes "muted s0 s"
  shows "muted s0 (signed_update_firmware r rq s)"
proof -
  have m: "muted s0 (fst (signed_refusal rq s))"
    using assms by (auto simp: signed_refusal_def split: option.split intro: quiet_muteds)
  obtain s1 refusal where r: "signed_refusal rq s = (s1, refusal)" by force
  show ?thesis
    using m unfolding signed_update_firmware_def r Let_def
    by (cases refusal) (simp_all only: option.case prod.case fst_conv,
      (intro quiet_muteds muted_respond muted_if; assumption)+)
qed

lemma muted_certificate_handlers [muteds]:
  "muted s0 s \<Longrightarrow> muted s0 (install_certificate r kind pem s)"
  "muted s0 s \<Longrightarrow> muted s0 (delete_certificate r wanted s)"
  "muted s0 s \<Longrightarrow> muted s0 (get_installed_certificate_ids r kind s)"
  "muted s0 s \<Longrightarrow> muted s0 (certificate_signed r chain s)"
  unfolding install_certificate_def delete_certificate_def get_installed_certificate_ids_def
    certificate_signed_def Let_def
  by (auto split: prod.split sum.split intro!: quiet_muteds muted_respond)

text \<open>A rule answers, holds back, drops or closes, but never sends a CALL.\<close>

lemma muted_apply_rule: "muted s0 s \<Longrightarrow> muted s0 (fst (apply_rule r action s))"
  unfolding apply_rule_def Let_def
  by (auto split: prod.split rule_outcome.split option.split
      intro!: muted_emit muted_respond_error intro: quiet_muteds)

lemma apply_rule_registration [simp]: "s_registration (fst (apply_rule r action s)) = s_registration s"
  by (auto simp: apply_rule_def Let_def respond_error_def emit_def split: prod.split rule_outcome.split option.split)

text \<open>What the central system may trigger before the registration.\<close>

definition may_trigger :: "station \<Rightarrow> bool" where
  "may_trigger s = (s_registration s \<in> {Some Reg_Accepted, Some Reg_Pending})"

lemma muted_trigger:
  assumes m: "muted s0 s" and n: "\<not> may_trigger s"
  shows "muted s0 (trigger_message r message connector s)"
    "muted s0 (extended_trigger_message r extended connector s)"
proof -
  have "muted s0 (start_triggered MT_Boot connector t)" if "muted s0 t" for t
    using that by (simp add: start_triggered_def muted_send_boot)
  then show "muted s0 (trigger_message r message connector s)"
    "muted s0 (extended_trigger_message r extended connector s)"
    using m n unfolding trigger_message_def extended_trigger_message_def decide_for_def may_trigger_def Let_def
    by (auto simp: start_extended_def muted_respond)
qed

definition triggering :: "inbound \<Rightarrow> bool" where
  "triggering q =
     (case q of In_TriggerMessage _ _ \<Rightarrow> True | In_ExtendedTriggerMessage _ _ \<Rightarrow> True | _ \<Rightarrow> False)"

lemma muted_run_handler:
  "muted s0 s \<Longrightarrow> \<not> (triggering q \<and> may_trigger s) \<Longrightarrow> muted s0 (run_handler r q s)"
  by (cases q)
     (simp_all add: triggering_def muted_trigger muted_change_availability muted_unlock_connector
       muted_reservation_handlers muted_remote muted_reset muted_profile_handlers muted_configuration
       muted_data_handlers muted_maintenance_handlers muted_signed_update_firmware
       muted_certificate_handlers muted_respond_error)

lemma muted_dispatch:
  assumes "muted s0 s" and "\<not> (triggering q \<and> may_trigger s)"
  shows "muted s0 (dispatch_incoming r q s)"
proof -
  obtain s1 run where a: "apply_rule r (inbound_action q) s = (s1, run)" by force
  have "muted s0 s1" "s_registration s1 = s_registration s"
    using muted_apply_rule [OF assms(1), of r "inbound_action q"]
      apply_rule_registration [of r "inbound_action q" s] by (simp_all add: a)
  with assms show ?thesis
    by (auto simp: dispatch_incoming_def a may_trigger_def intro: muted_run_handler)
qed

lemma muted_execute:
  assumes "muted s0 s" and "c \<notin> {Cmd_Connect, Cmd_Disconnect, Cmd_Reconnect, Cmd_Shutdown}"
    and "\<And>action payload validate. c \<noteq> Cmd_SendRaw action payload validate"
  shows "muted s0 (execute r c s)"
  using assms muted_user_commands(7) [of s0 s]
  by (cases c)
     (auto simp: reply_now_def split: prod.split intro!: quiet_muteds muted_send_boot muted_heartbeat
       muted_authorize muted_start_transaction muted_stop_transaction muted_meter_values_command
       muted_user_commands muted_configuration muted_user_call)

lemma boots_shutdown: "boots s0 s \<Longrightarrow> boots s0 (shutdown s)"
proof -
  assume b: "boots s0 s"
  let ?u = "flush_meters s"
  let ?t = "?u\<lparr>s_link := (s_link ?u)\<lparr>lk_wanted := False\<rparr>, s_timers := Map.empty\<rparr>"
  have "boots s0 ?u" by (intro boots_quiets b)
  then have "boots s0 (?t\<lparr>s_calls := []\<rparr>)" by (rule boots_step) (simp_all add: can_talk_def)
  moreover have "muted (?t\<lparr>s_calls := []\<rparr>) (fail_pending_calls (Closed None) ?t)"
    unfolding fail_pending_calls_def by (rule muted_fail_list [OF muted_refl])
  ultimately have f: "boots s0 (fail_pending_calls (Closed None) ?t)" by (blast intro: boots_trans boots_muted)
  show ?thesis
    unfolding shutdown_def Let_def
    by (rule boots_quiet [OF _ quiet_finish_persistence], rule boots_step [OF f])
       (simp_all add: can_talk_def)
qed

lemma boots_execute:
  assumes "\<And>action payload validate. c \<noteq> Cmd_SendRaw action payload validate"
  shows "boots s (execute r c s)"
proof (cases "c \<in> {Cmd_Connect, Cmd_Disconnect, Cmd_Reconnect, Cmd_Shutdown}")
  case True
  then show ?thesis by (auto intro!: boots_quiets boots_connect boots_disconnect boots_shutdown boots_refl)
qed (rule boots_muted [OF muted_execute [OF muted_refl _ assms]])

lemma boots_on_timer: "boots s (on_timer k s)"
proof (cases k)
  case T_Reconnect
  then show ?thesis by (auto simp: on_reconnect_timer_def intro: boots_start_connect boots_refl)
next
  case T_HardReset
  then show ?thesis by (simp add: boots_on_hard_reset_timer)
next
  case T_SyncRetry
  then show ?thesis by (auto simp: on_sync_retry_timer_def boots_def)
qed (auto intro!: boots_muted muted_on_heartbeat_timer muted_on_boot_retry_timer muted_on_reservation_timer
      muted_meter_timers quiet_muteds muted_refl)

text \<open>The wake-ups that may make the station send more than a boot.\<close>

fun opens_gate :: "station \<Rightarrow> wake \<Rightarrow> bool" where
  "opens_gate s (Call_Done token gen res) = accepts_boot res"
| "opens_gate s (Connect_Result gen failure) =
     (failure = None \<and> s_registration s = Some Reg_Accepted)"
| "opens_gate s (Inbound r q) = (triggering q \<and> may_trigger s)"
| "opens_gate s (Command r c) = (case c of Cmd_SendRaw _ _ _ \<Rightarrow> True | _ \<Rightarrow> False)"
| "opens_gate s _ = False"

lemma emits_handle:
  assumes "\<not> can_talk s" and "\<not> opens_gate s w"
  shows "emits s (handle w s)"
proof (cases w)
  case (Connect_Result gen ok)
  with assms show ?thesis by (auto intro: emits_on_connect_result)
next
  case (Call_Done token gen res)
  with assms show ?thesis by (auto intro!: emits_boots boots_on_call_done)
next
  case (Link_Closed code)
  have "boots s (on_closed code s)"
    unfolding on_closed_def by (intro boots_schedule_reconnect boots_connection boots_down boots_refl)
  with Link_Closed assms(1) show ?thesis by (simp add: emits_boots)
next
  case (Timer k)
  have "boots s (on_timer k (timer_cancel k s))"
    by (rule boots_trans [OF boots_quiet [OF boots_refl quiet_small(2)] boots_on_timer])
  with Timer assms(1) show ?thesis by (simp add: emits_boots)
next
  case (Command r c)
  with assms have "boots s (execute r c s)" by (intro boots_execute) (auto split: command.splits)
  with Command assms(1) show ?thesis by (simp add: emits_boots)
next
  case (Inbound r q)
  with assms show ?thesis by (auto intro!: emits_muted muted_dispatch muted_refl)
next
  case (Saved ok)
  with assms(1) show ?thesis by (auto intro!: emits_muted quiet_muteds muted_refl)
qed

lemma settle_meters_out [simp]: "s_out (settle_meters s) = s_out s"
proof -
  have one: "s_out (settle_one t ic) = s_out t" for t ic
    by (simp add: settle_one_def Let_def split: prod.split option.split)
  have "s_out (foldl settle_one t xs) = s_out t" for t xs
    by (induction xs arbitrary: t) (simp_all add: one)
  then show ?thesis by (simp add: settle_meters_def)
qed

lemma emits_turn:
  assumes n: "\<not> can_talk s" and w: "\<not> opens_gate s w"
  shows "emits s (turn now ticks w s)"
proof -
  let ?t = "s\<lparr>s_now := now, s_mono := ticks\<rparr>"
  let ?s = "settle_meters ?t"
  have "s_registration ?s = s_registration ?t"
    using quiet_settle_meters [of ?t] core_fieldsD(4) [of ?s ?t] by (simp add: quiet_def)
  then have "opens_gate ?s w = opens_gate s w"
    by (cases w) (simp_all add: may_trigger_def split: command.split)
  moreover have "can_talk ?s = can_talk ?t"
    by (rule can_talk_quiet [OF quiet_settle_meters])
  then have "\<not> can_talk ?s" using n by (simp add: can_talk_def)
  ultimately have "emits ?s (handle w ?s)" using w by (intro emits_handle) simp_all
  then show ?thesis
    unfolding turn_def by (auto simp: emits_def)
qed

end
