(* ===== verification/Sync_Serial.thy ===== *)
theory Sync_Serial
  imports Gate "HOL-Library.Multiset"
begin

text \<open>
  The delivery of the queue is serial and cannot wedge: while a sync is running exactly one of its
  messages is in flight, the counter of outstanding entries is one more than the keys that wait, and
  an idle sync has neither.  \<open>serial K\<close> says so of a state, with \<open>K\<close> as for \<open>Inv\<close>; the collection
  \<open>serials\<close> has one introduction rule per operation.
\<close>

named_theorems serials \<open>operations that keep the sync serial\<close>

subsection \<open>The invariant\<close>

fun is_sync :: "cont \<Rightarrow> bool" where
  "is_sync (K_SyncStart _) = True"
| "is_sync (K_SyncStop _) = True"
| "is_sync _ = False"

definition syncs :: "cont list \<Rightarrow> station \<Rightarrow> nat" where
  "syncs K s = length (filter is_sync (K @ conts s))"

definition serial :: "cont list \<Rightarrow> station \<Rightarrow> bool" where
  "serial K s =
     (if s_sync_outstanding s = 0 then s_sync_keys s = [] \<and> syncs K s = 0
      else s_sync_outstanding s = Suc (length (s_sync_keys s)) \<and> syncs K s = 1)"

lemma serial_step:
  "serial K s \<Longrightarrow> s_sync_outstanding s' = s_sync_outstanding s \<Longrightarrow> s_sync_keys s' = s_sync_keys s \<Longrightarrow>
   syncs K' s' = syncs K s \<Longrightarrow> serial K' s'"
  by (simp add: serial_def)

lemma serial_idle: "sync_idle s \<Longrightarrow> s_calls s = [] \<Longrightarrow> serial [] s"
  by (simp add: serial_def sync_idle_def syncs_def conts_def)

lemma serial_quiet: "serial K s \<Longrightarrow> quiet s s' \<Longrightarrow> serial K s'"
proof (erule serial_step)
  assume q: "quiet s s'"
  then have c: "core s' = core s" by (simp add: quiet_def)
  from q obtain nc where nc: "s_calls s' = s_calls s @ nc" "\<forall>c\<in>set nc. inert (pc_cont (snd c))"
    by (auto simp: quiet_def grow_def fresh_calls_def)
  have "\<not> is_sync k" if "inert k" for k using that by (cases k) auto
  with nc have "filter is_sync (map (pc_cont \<circ> snd) nc) = []" by (auto simp: filter_empty_conv)
  with nc show "syncs K s' = syncs K s" by (simp add: syncs_def conts_def)
  show "s_sync_outstanding s' = s_sync_outstanding s" "s_sync_keys s' = s_sync_keys s"
    by (rule core_fieldsD(7,8) [OF c])+
qed

lemmas quiet_serials [serials] = quiets [THEN [2] serial_quiet]

lemma serial_fields [serials]:
  "serial K s \<Longrightarrow> serial K (s\<lparr>s_registry := g\<rparr>)" "serial K s \<Longrightarrow> serial K (s\<lparr>s_queue := q\<rparr>)"
  "serial K s \<Longrightarrow> serial K (s\<lparr>s_connectors := cs\<rparr>)" "serial K s \<Longrightarrow> serial K (s\<lparr>s_charge_point := c\<rparr>)"
  "serial K s \<Longrightarrow> serial K (s\<lparr>s_next_local := n\<rparr>)" "serial K s \<Longrightarrow> serial K (s\<lparr>s_sync_boot := b\<rparr>)"
  "serial K s \<Longrightarrow> serial K (s\<lparr>s_now := t\<rparr>)" "serial K s \<Longrightarrow> serial K (s\<lparr>s_mono := m\<rparr>)"
  "serial K s \<Longrightarrow> serial K (update_connector i f s)"
  "serial K s \<Longrightarrow> serial K (s\<lparr>s_link := l\<rparr>)" "serial K s \<Longrightarrow> serial K (s\<lparr>s_registration := r\<rparr>)"
  by (erule serial_step; simp add: syncs_def conts_def)+

lemma serial_respond [serials]: "serial K s \<Longrightarrow> serial K (respond r x s)"
  by (erule serial_step) (simp_all add: syncs_def conts_def respond_def emit_def)

lemma serial_emit: "serial K s \<Longrightarrow> serial K (emit e s)"
  by (erule serial_step) (simp_all add: syncs_def conts_def emit_def)

lemma serial_respond_error [serials]: "serial K s \<Longrightarrow> serial K (respond_error r c t s)"
  unfolding respond_error_def by (rule serial_emit)

lemmas serial_small = serial_fields serial_respond

lemma serial_if: "(P \<Longrightarrow> serial K a) \<Longrightarrow> (\<not> P \<Longrightarrow> serial K b) \<Longrightarrow> serial K (if P then a else b)"
  by simp

lemma serial_foldl: "serial K s \<Longrightarrow> (\<And>s x. serial K s \<Longrightarrow> serial K (f s x)) \<Longrightarrow> serial K (foldl f s xs)"
  by (induction xs arbitrary: s) auto

lemma serial_submit:
  "serial (k # K) s \<Longrightarrow> is_sync k = is_sync k' \<Longrightarrow> serial K (submit orig rq k' s)"
  by (erule serial_step) (auto simp: syncs_def submit_def emit_def conts_def Let_def)

lemma serial_other: "\<not> is_sync k \<Longrightarrow> serial (k # K) s = serial K s"
  by (simp add: serial_def syncs_def)

lemma serial_call:
  "serial K s \<Longrightarrow> \<not> is_sync k \<Longrightarrow> (\<And>e. serial K (f e s)) \<Longrightarrow> serial K (call f orig rq k s)"
  by (auto simp: call_def serial_other split: option.split intro: serial_submit [of k])

subsection \<open>Transactions\<close>

lemma serial_apply_pending [serials]: "serial K s \<Longrightarrow> serial K (apply_pending_availability i s)"
  unfolding apply_pending_availability_def
  by (auto split: option.split intro!: quiet_serials serial_small)

lemma serial_begin_charging [serials]: "serial K s \<Longrightarrow> serial K (begin_charging i tag s)"
  unfolding begin_charging_def by (intro quiet_serials serial_small)

lemma serial_push_queue [serials]: "serial K s \<Longrightarrow> serial K (push_queue e s)"
  by (erule serial_step)
     (auto simp: syncs_def conts_def push_queue_def emit_def split: prod.split option.split)

lemma serial_queue_stop [serials]: "serial K s \<Longrightarrow> serial K (fst (queue_stop i tx tag t m info s))"
  unfolding queue_stop_def next_key_def
  by (auto split: option.split intro!: serial_push_queue serial_small)

lemma serial_finish_stop [serials]: "serial K s \<Longrightarrow> serial K (finish_stop i tx s)"
  unfolding finish_stop_def Let_def
  by (intro serial_apply_pending quiet_serials serial_if serial_small)

lemma serial_abandon_start [serials]: "serial K s \<Longrightarrow> serial K (abandon_start i s)"
  unfolding abandon_start_def Let_def by (intro serial_apply_pending quiet_serials serial_small)

lemma serial_start_failed [serials]: "serial K s \<Longrightarrow> serial K (start_failed i local k e s)"
  unfolding start_failed_def by (intro serial_abandon_start quiet_serials serial_if)

lemma serial_give_up [serials]: "serial K s \<Longrightarrow> serial K (give_up s k)"
  unfolding give_up_def by (intro quiet_serials serial_small)

lemma serial_arm_sync_retry [serials]: "serial K s \<Longrightarrow> serial K (arm_sync_retry s)"
  unfolding arm_sync_retry_def Let_def by (intro serial_if quiet_serials serial_foldl serial_give_up)

lemma serial_arm_sync_retry_if_idle [serials]: "serial K s \<Longrightarrow> serial K (arm_sync_retry_if_idle s)"
  unfolding arm_sync_retry_if_idle_def by (intro serial_if serial_arm_sync_retry quiet_serials)

text \<open>The sync that ends has nothing left to do.\<close>

lemma serial_sync_finished:
  assumes "s_sync_keys s = []" and "syncs K s = 0"
  shows "serial K (sync_finished s)"
proof -
  have "serial K (s\<lparr>s_sync_outstanding := 0, s_sync_boot := False\<rparr>)"
    using assms by (simp add: serial_def syncs_def conts_def)
  then show ?thesis
    unfolding sync_finished_def Let_def by (intro serial_arm_sync_retry_if_idle serial_if quiet_serials)
qed

text \<open>Between two entries: as many outstanding as keys, and nothing in flight.\<close>

definition between :: "cont list \<Rightarrow> station \<Rightarrow> bool" where
  "between K s = (s_sync_outstanding s = length (s_sync_keys s) \<and> syncs K s = 0)"

lemma sync_entry_call_is_sync: "sync_entry_call s key = Some (rq, k) \<Longrightarrow> is_sync k"
  by (auto simp: sync_entry_call_def sync_stop_call_def split: option.splits if_splits)

lemma serial_run_sync: "between K s \<Longrightarrow> serial K (run_sync s)"
proof (induction s rule: run_sync.induct)
  case (1 s)
  show ?case
  proof (cases "s_sync_keys s")
    case Nil
    with 1 show ?thesis by (simp add: run_sync_Nil serial_sync_finished between_def)
  next
    case (Cons key keys)
    let ?s = "s\<lparr>s_sync_keys := keys\<rparr>"
    have n: "s_sync_outstanding s = Suc (length keys)" "syncs K ?s = 0"
      using 1(3) Cons by (simp_all add: between_def syncs_def conts_def)
    show ?thesis
    proof (cases "sync_entry_call ?s key")
      case None
      have "between K (sync_count_down ?s)"
        using n by (simp add: between_def sync_count_down_def syncs_def conts_def)
      from 1(1) [OF Cons refl None this] Cons None show ?thesis
        by (subst run_sync.simps) simp
    next
      case (Some rk)
      obtain rq k where rk: "rk = (rq, k)" by force
      with Some have k: "is_sync k" using sync_entry_call_is_sync by blast
      show ?thesis
      proof (cases "call_refused ?s (action_name rq) From_Station")
        case None
        have "serial (k # K) ?s" using n k by (simp add: serial_def syncs_def)
        then have "serial K (submit From_Station rq k ?s)" by (rule serial_submit) simp
        with Cons Some rk None show ?thesis by (subst run_sync.simps) simp
      next
        case e: (Some e)
        have "between K (sync_count_down (record_sync_failure key e ?s))"
          using n by (simp add: between_def sync_count_down_def record_sync_failure_def syncs_def conts_def)
        from 1(2) [OF Cons refl Some rk [symmetric] e this] Cons Some rk e
        show ?thesis by (subst run_sync.simps) simp
      qed
    qed
  qed
qed

lemma serial_sync_done:
  assumes "serial (k # K) s" and "is_sync k"
  shows "serial K (sync_done s)"
  unfolding sync_done_def
  by (rule serial_run_sync)
     (use assms in \<open>auto simp: serial_def between_def sync_count_down_def syncs_def conts_def split: if_splits\<close>)

lemma serial_sync_failed: "serial (k # K) s \<Longrightarrow> is_sync k \<Longrightarrow> serial K (sync_failed key e s)"
  unfolding sync_failed_def by (rule serial_sync_done [of k]) (intro quiet_serials)

lemma serial_start_offline_sync [serials]:
  assumes "serial K s"
  shows "serial K (fst (start_offline_sync boot s))"
proof -
  let ?s = "timer_cancel T_SyncRetry s"
  have "serial K ?s" using assms by (intro quiet_serials)
  moreover have "between K (?s\<lparr>s_sync_outstanding := length ks, s_sync_boot := boot, s_sync_keys := ks\<rparr>)"
    if "s_sync_outstanding s = 0" for ks
    using assms that by (simp add: between_def serial_def syncs_def conts_def timer_cancel_def)
  ultimately show ?thesis
    using assms by (auto simp: start_offline_sync_def Let_def intro: serial_run_sync)
qed

lemma serial_stop_failed [serials]:
  assumes "serial K s"
  shows "serial K (stop_failed i tx tag t m info k e s)"
proof -
  obtain s1 key where q: "queue_stop i tx tag t m info s = (s1, key)" by force
  with serial_queue_stop [OF assms, of i tx tag t m info] have "serial K s1" by simp
  then show ?thesis
    unfolding stop_failed_def q Let_def prod.case
    by (intro quiet_serials serial_arm_sync_retry_if_idle serial_finish_stop)
qed

lemma serial_sync_stop:
  assumes "serial (k # K) s" and "is_sync k"
  shows "serial K (case sync_stop key s of (sent, s') \<Rightarrow> if sent then s' else sync_done s')"
proof (cases "sync_stop_call s key")
  case None
  then show ?thesis using assms by (simp add: sync_stop_def serial_sync_done)
next
  case (Some rk)
  obtain rq k' where rk: "rk = (rq, k')" by force
  with Some have "is_sync k'" by (auto simp: sync_stop_call_def split: option.splits)
  then show ?thesis
    using Some rk assms
    by (auto simp: sync_stop_def call_def split: option.split intro: serial_submit serial_sync_failed)
qed

lemma serial_drop_local [serials]: "serial K s \<Longrightarrow> serial K (drop_local_transaction i tx s)"
  unfolding drop_local_transaction_def Let_def
  by (intro serial_apply_pending quiet_serials serial_if serial_small)

lemma serial_verdict:
  "serial K s \<Longrightarrow> apply_verdict tag info s = (s', d) \<Longrightarrow> serial K s'"
  using quiet_apply_verdict [of s tag info] by (auto intro: serial_quiet)

lemma serial_sync_start_answered:
  assumes m: "serial (k # K) s" and k: "is_sync k"
  shows "serial K (sync_start_answered key info tx s)"
proof (cases "oq_get (s_queue s) key")
  case None
  with serial_sync_done [OF m k] show ?thesis by (simp add: sync_start_answered_def)
next
  case (Some e)
  obtain s1 d where v: "apply_verdict (ox_id_tag e) info s = (s1, d)" by force
  note m1 = serial_verdict [OF m v]
  show ?thesis
    unfolding sync_start_answered_def Some option.case v prod.case Let_def
    by (intro serial_if serial_sync_stop [OF _ k] serial_sync_done [OF _ k] serial_drop_local quiet_serials serial_small m1)
qed

lemma serial_sync_stop_answered:
  "serial (k # K) s \<Longrightarrow> is_sync k \<Longrightarrow> serial K (sync_stop_answered key s)"
  unfolding sync_stop_answered_def by (rule serial_sync_done [of k]) (intro quiet_serials serial_small)

lemma serial_start_answered [serials]:
  assumes m: "serial K s"
  shows "serial K (start_answered i local p k info tx s)"
proof -
  obtain s1 d where v: "apply_verdict (ps_id_tag p) info s = (s1, d)" by force
  note m1 = serial_verdict [OF m v]
  show ?thesis
    unfolding start_answered_def v prod.case Let_def
    by (intro serial_if serial_begin_charging serial_abandon_start quiet_serials serial_small m1)
qed

lemma serial_stop_transaction [serials]:
  assumes m0: "serial K s"
  shows "serial K (stop_transaction i reason tag k s)"
proof -
  define u where "u = flush_meters s"
  have m: "serial K u" unfolding u_def by (intro quiet_serials m0)
  show ?thesis
  proof (cases "physical_connector u i")
    case (Inl e)
    then show ?thesis using m by (simp add: stop_transaction_def Let_def quiet_serials flip: u_def)
  next
    case (Inr c)
    show ?thesis
    proof (cases "stoppable u c")
      case (Inl why)
      then show ?thesis using Inr m by (simp add: stop_transaction_def Let_def quiet_serials flip: u_def)
    next
      case st: (Inr r)
      obtain tx t mw tg where r: "r = (tx, t, mw, tg)" by (cases r)
      obtain ev status where ev: "state_after_stop reason (c_ev_connected c) (c_availability c) = (ev, status)"
        by force
      obtain s1 rd where rd: "station_meter_reading i False u = (s1, rd)" by force
      define s2 where "s2 = clear_invalid_limit i (timer_cancel (T_MeterPeriodic i)
          (update_connector i (\<lambda>c. c\<lparr>c_ev_connected := ev, c_status := status\<rparr>) s1))"
      have "serial K s1" using quiet_station_meter_reading [of u i False] rd serial_quiet [OF m] by simp
      then have m2: "serial K s2" unfolding s2_def by (intro quiet_serials serial_small)
      note unfolds = stop_transaction_def Let_def u_def [symmetric] Inr st r ev rd sum.case prod.case
        s2_def [symmetric]
      show ?thesis
        unfolding unfolds
        by (cases "wire tx"; simp only: option.case)
           (intro quiet_serials serial_if serial_start_offline_sync serial_finish_stop serial_queue_stop serial_call
             serial_stop_failed serial_small m2; simp)+
    qed
  qed
qed

lemma serial_start_transaction [serials]:
  assumes m0: "serial K s"
  shows "serial K (start_transaction i tag k s)"
proof -
  define u where "u = flush_meters s"
  have m: "serial K u" unfolding u_def by (intro quiet_serials m0)
  show ?thesis
    unfolding start_transaction_def next_key_def Let_def prod.case u_def [symmetric]
    by (auto split: sum.split option.split simp del: complete.simps
        intro!: quiet_serials serial_push_queue serial_begin_charging serial_call serial_start_failed serial_small m)
qed

lemma serial_check_energy_limit [serials]: "serial K s \<Longrightarrow> serial K (check_energy_limit i s)"
  unfolding check_energy_limit_def
  by (auto split: option.split intro!: serial_stop_transaction quiet_serials)

lemma serial_authorized [serials]: "serial K s \<Longrightarrow> serial K (authorized k res s)"
  by (cases k)
     (auto simp: begin_remote_start_def remote_start_reply_def Let_def split: sum.split
       intro!: serial_start_transaction serial_respond quiet_serials)

lemma serial_authorize [serials]: "serial K s \<Longrightarrow> serial K (authorize tag k s)"
  by (auto simp: authorize_def authorize_failed_def intro!: serial_authorized serial_call)

lemma serial_authorize_failed [serials]: "serial K s \<Longrightarrow> serial K (authorize_failed k e s)"
  unfolding authorize_failed_def by (rule serial_authorized)

lemma serial_authorize_answered [serials]: "serial K s \<Longrightarrow> serial K (authorize_answered tag k info s)"
  by (auto simp: authorize_answered_def split: prod.split intro: serial_authorized serial_verdict)

subsection \<open>Samples and handlers\<close>

lemma serial_sample_failed [serials]: "serial K s \<Longrightarrow> serial K (sample_failed i ro e s)"
  unfolding sample_failed_def by (intro serial_check_energy_limit quiet_serials)

lemma serial_sample_answered [serials]: "serial K s \<Longrightarrow> serial K (sample_answered i ro s)"
  unfolding sample_answered_def by (intro serial_check_energy_limit quiet_serials)

lemma serial_make_room:
  assumes i: "Inv K s" and m: "serial K s"
  shows "serial K (make_room_for_sample s)"
proof -
  let ?live = "filter (\<lambda>t. map_of (s_calls s) t \<noteq> None) (s_sample_calls s)"
  obtain ts cs w where a: "abandon_samples (max MAX_PENDING_SAMPLES (length (s_connectors s))) ?live
      (s_calls s) (s_sample_overflow_warned s) = (ts, cs, w)" by (metis prod_cases3)
  from abandon_samples_spec [OF a] obtain D where D: "D \<subseteq> set ?live"
    "cs = filter (\<lambda>(u, _). u \<notin> D) (s_calls s)" by blast
  have keep: "filter (is_sync \<circ> (pc_cont \<circ> snd)) cs = filter (is_sync \<circ> (pc_cont \<circ> snd)) (s_calls s)"
    unfolding D(2) filter_filter
  proof (rule filter_cong [OF refl], safe)
    fix t pc assume c: "(t, pc) \<in> set (s_calls s)" and d: "t \<in> D"
      and y: "(is_sync \<circ> (pc_cont \<circ> snd)) (t, pc)"
    have "is_sample (pc_cont pc)"
      using InvD(5) [OF i] c d D(1) by (auto simp: tokens_ok_def)
    with y show False by (cases "pc_cont pc") auto
  qed
  have "serial K (s\<lparr>s_sample_calls := ts, s_calls := cs, s_sample_overflow_warned := w\<rparr>)"
    by (rule serial_step [OF m]) (simp_all add: syncs_def conts_def filter_map keep)
  then show ?thesis unfolding make_room_for_sample_def a Let_def prod.case .
qed

lemma serial_sample_meter:
  assumes i0: "Inv K s" and m0: "serial K s"
  shows "serial K (sample_meter i context delta_wh ms ro s)"
proof -
  define u where "u = flush_meters s"
  have m: "serial K u" and iu: "Inv K u" unfolding u_def by (intro quiet_serials m0, intro quiet_invs i0)
  show ?thesis
  proof (cases "find_connector u i")
    case None
    then show ?thesis by (simp add: sample_meter_def u_def [symmetric] Let_def quiet_serials m)
  next
    case (Some c)
    define s1 where "s1 = update_connector i (\<lambda>c. c\<lparr>c_meter_wh := min (c_meter_wh c + delta_wh) u64_max\<rparr>) u"
    define s2 where "s2 = (if 0 < delta_wh then mark_dirty s1 else s1)"
    have m2: "serial K s2" and i2: "Inv K s2"
      unfolding s2_def s1_def
      by (intro serial_if quiet_serials serial_small m, intro Inv_if quiet_invs Inv_calm_update iu) simp_all
    obtain s3 rd where rd: "station_meter_reading i True s2 = (s3, rd)" by force
    have q3: "quiet s2 s3" using quiet_station_meter_reading [of s2 i True] rd by simp
    define s4 where "s4 = (if ro = None then make_room_for_sample s3 else s3)"
    have m4: "serial K s4"
      unfolding s4_def by (intro serial_if serial_make_room Inv_quiet [OF i2 q3] serial_quiet [OF m2 q3])
    let ?c = "call (sample_failed i ro) From_Station (Req_MeterValues \<lparr>vq_connector_id = i,
      vq_transaction_id = Option.bind (c_tx_id c) wire, vq_meter_value =
        [meter_value_of (s_power_model s3) rd (s_now s) ms context]\<rparr>) (K_Sample i ro) s4"
    have c: "serial K ?c" by (rule serial_call [OF m4]) (simp_all add: serial_sample_failed m4)
    have "serial K (?c\<lparr>s_sample_calls := x\<rparr>)" for x
      by (rule serial_step [OF c]) (simp_all add: syncs_def conts_def)
    with c m2 show ?thesis
      unfolding sample_meter_def Let_def u_def [symmetric] Some option.case s1_def [symmetric]
        s2_def [symmetric] rd prod.case s4_def [symmetric]
      by (intro serial_if) (simp_all add: serial_check_energy_limit quiet_serials)
  qed
qed

lemma serial_meter_values_command:
  "Inv K s \<Longrightarrow> serial K s \<Longrightarrow> serial K (meter_values_command i d mso r s)"
  unfolding meter_values_command_def
  by (auto split: sum.split intro: quiet_serials serial_sample_meter)

lemma serial_on_meter_periodic: "Inv K s \<Longrightarrow> serial K s \<Longrightarrow> serial K (on_meter_periodic i s)"
  unfolding on_meter_periodic_def Let_def
  by (auto intro!: serial_sample_meter intro: quiet_serials quiet_invs)

lemma serial_on_meter_aligned:
  assumes "Inv K s" and "serial K s"
  shows "serial K (on_meter_aligned s)"
proof -
  have fold: "Inv K t \<Longrightarrow> serial K t \<Longrightarrow>
      serial K (foldl (\<lambda>s' i. sample_meter i SampleClock 0 ms None s') t is)" for t ms "is"
    by (induction "is" arbitrary: t) (auto intro: serial_sample_meter Inv_sample_meter)
  show ?thesis
    using assms unfolding on_meter_aligned_def Let_def
    by (auto split: option.split intro!: fold intro: quiet_serials quiet_invs)
qed

subsection \<open>Handlers\<close>

lemma serial_availability_target:
  "serial K (fst acc) \<Longrightarrow> serial K (fst (availability_target kind acc i))"
  by (cases acc) (auto simp: availability_target_def Let_def split: option.split intro!: serial_small)

lemma serial_availability_targets:
  "serial K (fst acc) \<Longrightarrow> serial K (fst (foldl (availability_target kind) acc is))"
proof (induction "is" arbitrary: acc)
  case (Cons i "is")
  show ?case using Cons.IH [OF serial_availability_target [OF Cons.prems]] by simp
qed simp

lemma serial_set_station_availability [serials]:
  "serial K s \<Longrightarrow> serial K (set_station_availability kind s)"
  unfolding set_station_availability_def by (intro quiet_serials serial_small)

lemma serial_change_availability [serials]:
  assumes m: "serial K s"
  shows "serial K (change_availability r i kind s)"
proof -
  let ?acc = "if is_station i then (set_station_availability kind s, False, [STATION]) else (s, False, [])"
  let ?targets = "if is_station i then map c_id (s_connectors s) else [i]"
  obtain s2 scheduled changed where f: "foldl (availability_target kind) ?acc ?targets = (s2, scheduled, changed)"
    by (metis prod_cases3)
  have "serial K (fst ?acc)" using m by (auto intro: serial_set_station_availability)
  from serial_availability_targets [OF this, of kind ?targets] f have "serial K s2" by simp
  then show ?thesis
    using f m unfolding change_availability_def Let_def
    by (auto intro!: serial_foldl serial_respond quiet_serials)
qed

lemma serial_unlock_connector [serials]: "serial K s \<Longrightarrow> serial K (unlock_connector r i s)"
  unfolding unlock_connector_def Let_def
  by (auto split: sum.split intro!: serial_stop_transaction serial_respond)

lemma serial_release_expired: "serial K s \<Longrightarrow> serial K (fst (release_expired_reservations s))"
  unfolding release_expired_reservations_def Let_def released_one_def
  by (auto split: prod.split intro!: serial_foldl quiet_serials serial_small)

lemma serial_arm_live: "serial K s \<Longrightarrow> serial K (arm_live s i)"
  unfolding arm_live_def by (auto split: option.split intro: quiet_serials)

lemma serial_on_reservation_timer [serials]: "serial K s \<Longrightarrow> serial K (on_reservation_timer s)"
  unfolding on_reservation_timer_def Let_def by (intro serial_foldl serial_arm_live serial_release_expired)

lemma serial_arm_reservation [serials]: "serial K s \<Longrightarrow> serial K (arm_reservation i s)"
  unfolding arm_reservation_def by (auto split: option.split intro: serial_on_reservation_timer serial_arm_live)

lemma serial_reservation_handlers [serials]:
  "serial K s \<Longrightarrow> serial K (reserve_now_handler r rq s)"
  "serial K s \<Longrightarrow> serial K (cancel_reservation_handler r n s)"
proof -
  assume m: "serial K s"
  show "serial K (reserve_now_handler r rq s)"
    unfolding reserve_now_handler_def Let_def
    by (auto split: prod.split sum.split option.split
        intro!: quiet_serials serial_arm_reservation serial_small serial_release_expired m)
  show "serial K (cancel_reservation_handler r n s)"
    unfolding cancel_reservation_handler_def
    by (auto split: prod.split option.split intro!: quiet_serials serial_small m)
qed

lemma serial_remote [serials]:
  "serial K s \<Longrightarrow> serial K (remote_start r q tag po s)"
  "serial K s \<Longrightarrow> serial K (remote_stop r tx s)"
  unfolding remote_start_def remote_stop_def Let_def remote_start_reply_def begin_remote_start_def
  by (auto split: option.split intro!: serial_authorize serial_start_transaction serial_stop_transaction serial_respond)

lemma serial_profile_handlers [serials]:
  "serial K s \<Longrightarrow> serial K (set_profile_handler r i p s)"
  "serial K s \<Longrightarrow> serial K (clear_profile_handler r f s)"
  "serial K s \<Longrightarrow> serial K (composite_handler r i d u s)"
proof -
  assume m: "serial K s"
  have "serial K (fst (set_charging_profile i p s))" using m by (intro quiet_serials)
  then show "serial K (set_profile_handler r i p s)"
    by (auto simp: set_profile_handler_def split: prod.split intro!: serial_respond)
  show "serial K (clear_profile_handler r f s)"
    by (auto simp: clear_profile_handler_def split: prod.split intro!: serial_respond quiet_serials m)
  show "serial K (composite_handler r i d u s)"
    unfolding composite_handler_def Let_def
    by (auto split: prod.split intro!: serial_respond quiet_serials m)
qed

lemma serial_user_commands [serials]:
  "serial K s \<Longrightarrow> serial K (fst (plug_in i s))" "serial K s \<Longrightarrow> serial K (unplug i k s)"
  "serial K s \<Longrightarrow> serial K (fst (set_status i st s))" "serial K s \<Longrightarrow> serial K (fst (cycle_status i s))"
  "serial K s \<Longrightarrow> serial K (fault i code info vendor k s)" "serial K s \<Longrightarrow> serial K (fst (clear_fault i s))"
  "serial K s \<Longrightarrow> serial K (fst (add_connector s))"
  unfolding plug_in_def unplug_def set_status_def cycle_status_def fault_def clear_fault_def
    add_connector_def Let_def
  by (auto split: sum.split option.split simp del: complete.simps
      intro!: quiet_serials serial_stop_transaction serial_small)

subsection \<open>Boot, heartbeat, reset\<close>

lemma serial_set_boot: "serial K s \<Longrightarrow> serial K (set_boot_in_flight b s)"
  unfolding set_boot_in_flight_def by (rule serial_fields)

lemma serial_boot_failed [serials]: "serial K s \<Longrightarrow> serial K (boot_failed g ro e s)"
  unfolding boot_failed_def boot_done_def Let_def by (intro quiet_serials serial_if serial_set_boot)

lemma serial_send_boot [serials]: "serial K s \<Longrightarrow> serial K (send_boot ro s)"
  unfolding send_boot_def Let_def
  by (auto intro!: serial_call serial_boot_failed serial_set_boot quiet_serials)

lemma serial_heartbeat [serials]:
  "serial K s \<Longrightarrow> serial K (send_heartbeat orig ro s)"
  "serial K s \<Longrightarrow> serial K (heartbeat_failed ro e s)" "serial K s \<Longrightarrow> serial K (heartbeat_answered ro t s)"
  unfolding send_heartbeat_def heartbeat_failed_def heartbeat_answered_def
  by (intro serial_call quiet_serials; simp)+

lemma serial_on_heartbeat_timer [serials]: "serial K s \<Longrightarrow> serial K (on_heartbeat_timer s)"
  unfolding on_heartbeat_timer_def arm_heartbeat_def by (intro serial_if serial_heartbeat quiet_serials)

lemma serial_on_boot_retry_timer [serials]: "serial K s \<Longrightarrow> serial K (on_boot_retry_timer s)"
  unfolding on_boot_retry_timer_def by (intro serial_if serial_send_boot)

lemma serial_reset [serials]: "serial K s \<Longrightarrow> serial K (reset r kind s)"
proof -
  assume m: "serial K s"
  have r1: "serial K (reset_one reason t i)" if "serial K t" for reason t i
    unfolding reset_one_def using that by (intro quiet_serials serial_small serial_stop_transaction)
  have r2: "serial K (unreserve_one t i)" if "serial K t" for t i
    unfolding unreserve_one_def using that by (intro quiet_serials serial_small)
  show ?thesis
    unfolding reset_def perform_reset_def Let_def
    by (cases kind)
       (simp_all only: reset_type.case, (intro serial_if quiet_serials serial_small serial_foldl
         r1 r2 m; assumption?)+)
qed

lemma serial_on_boot_accepted [serials]:
  assumes i: "serial K s"
  shows "serial K (on_boot_accepted n s)"
proof -
  define s2 where "s2 = (if 0 < n
      then s\<lparr>s_link := (s_link s)\<lparr>lk_attempts := 0\<rparr>,
        s_registry := fst (cfg_change (s_registry s) ''HeartbeatInterval'' (show_int n))\<rparr>
      else s\<lparr>s_link := (s_link s)\<lparr>lk_attempts := 0\<rparr>\<rparr>)"
  define s4 where "s4 = (mark_dirty (arm_heartbeat (s2\<lparr>s_heartbeat_interval_secs :=
      heartbeat_interval_secs (s_registry s2)\<rparr>)))\<lparr>s_reset_retries := None\<rparr>"
  have "serial K s2" unfolding s2_def by (intro serial_if serial_fields i)
  then have "serial K s4" unfolding s4_def arm_heartbeat_def by (intro quiet_serials)
  moreover obtain s5 count where st: "start_offline_sync True s4 = (s5, count)" by force
  ultimately have "serial K s5" using serial_start_offline_sync [of K s4 True] by simp
  moreover have "on_boot_accepted n s = (if count = 0 then finish_boot_accepted s5 else s5)"
    using st by (cases "0 < n") (simp_all add: on_boot_accepted_def Let_def s2_def s4_def)
  ultimately show ?thesis by (simp add: quiet_serials)
qed

lemma serial_boot_not_accepted: "serial K s \<Longrightarrow> serial K (boot_not_accepted n s)"
  unfolding boot_not_accepted_def Let_def
  by (auto split: option.split prod.split intro!: quiet_serials)

lemma serial_boot_answered [serials]: "serial K s \<Longrightarrow> serial K (boot_answered g ro st t n s)"
  unfolding boot_answered_def boot_done_def Let_def
  by (intro quiet_serials serial_if serial_on_boot_accepted serial_boot_not_accepted serial_fields serial_set_boot)

subsection \<open>The end of a CALL\<close>

lemma serial_failed:
  assumes m: "serial (k # K) s"
  shows "serial K (failed k e s)"
proof (cases "is_sync k")
  case True
  with m show ?thesis by (cases k) (simp_all add: failed_def serial_sync_failed)
next
  case False
  with m have "serial K s" by (simp add: serial_other)
  with False show ?thesis
    by (cases k)
       (auto simp: failed_def intro: quiet_serials serial_authorize_failed serial_start_failed
         serial_stop_failed serial_sample_failed serial_boot_failed serial_heartbeat)
qed

lemma serial_answered:
  assumes m: "serial (k # K) s"
  shows "serial K (answered k r s)"
proof (cases "is_sync k")
  case True
  with m serial_failed [OF m, of Decode] show ?thesis
    by (cases k; cases r)
       (simp_all add: answered_def serial_sync_start_answered serial_sync_stop_answered)
next
  case False
  with m have "serial K s" by (simp add: serial_other)
  with False serial_failed [OF m, of Decode] show ?thesis
    by (cases k; cases r)
       (simp_all add: answered_def serial_authorize_answered serial_start_answered stop_answered_def
         serial_finish_stop serial_sample_answered serial_boot_answered serial_heartbeat quiet_serials)
qed

lemma serial_on_call_done:
  assumes i: "Inv [] s" and m: "serial [] s"
  shows "serial [] (on_call_done token gen res s)"
proof -
  have "serial [] (resume (pc_cont pc) res (s\<lparr>s_calls := filter (\<lambda>(t, _). t \<noteq> token) (s_calls s)\<rparr>))"
    if pc: "map_of (s_calls s) token = Some pc" for pc
  proof -
    have dist: "distinct (map fst (s_calls s))"
      using InvD(5) [OF i] by (simp add: tokens_ok_def strict_sorted_iff)
    have "length (filter is_sync (map (pc_cont \<circ> snd) cs)) =
        length (filter is_sync (pc_cont pc # map (pc_cont \<circ> snd) (filter (\<lambda>(t, _). t \<noteq> token) cs)))"
      if "distinct (map fst cs)" "map_of cs token = Some pc" for cs :: "(nat \<times> pending_call) list"
      using that
    proof (induction cs)
      case (Cons c cs)
      obtain t p where c: "c = (t, p)" by force
      show ?case
      proof (cases "t = token")
        case True
        with Cons.prems c have "filter (\<lambda>(t, _). t \<noteq> token) cs = cs"
          by (force simp: filter_id_conv)
        with True Cons.prems c show ?thesis by simp
      qed (use Cons c in auto)
    qed simp
    from this [OF dist pc]
    have "syncs [pc_cont pc] (s\<lparr>s_calls := filter (\<lambda>(t, _). t \<noteq> token) (s_calls s)\<rparr>) = syncs [] s"
      by (simp add: syncs_def conts_def)
    then have "serial [pc_cont pc] (s\<lparr>s_calls := filter (\<lambda>(t, _). t \<noteq> token) (s_calls s)\<rparr>)"
      by (intro serial_step [OF m]) simp_all
    then show ?thesis
      by (auto simp: resume_def split: sum.split intro: serial_failed serial_answered)
  qed
  then show ?thesis
    unfolding on_call_done_def using m by (auto split: option.split)
qed

subsection \<open>Every turn\<close>

lemma serial_link_down: "serial [] (link_down code s)"
  by (rule serial_idle) (rule link_down_empty)+

lemma serial_start_connect: "serial K s \<Longrightarrow> serial K (start_connect s)"
proof -
  assume b: "serial K s"
  let ?s = "s\<lparr>s_link := (s_link s)\<lparr>lk_generation := lk_generation (s_link s) + 1, lk_connecting := True\<rparr>,
      s_connection := Connecting\<rparr>"
  obtain config which where "apply_security_transport ?s = (config, which)" by force
  then show ?thesis
    unfolding start_connect_def Let_def
    by (simp only: prod.case) (intro serial_emit quiet_serials serial_fields b)
qed

lemma serial_connect: "serial K s \<Longrightarrow> serial K (connect s)"
  unfolding connect_def Let_def by (intro serial_if serial_start_connect quiet_serials serial_fields)

lemma serial_disconnect: "serial [] (disconnect s)"
  unfolding disconnect_def Let_def by (intro quiet_serials serial_link_down)

lemma serial_schedule_reconnect: "serial K s \<Longrightarrow> serial K (schedule_reconnect s)"
  unfolding schedule_reconnect_def Let_def by (intro serial_if quiet_serials serial_fields)

lemma serial_on_connect_result: "serial K s \<Longrightarrow> serial K (on_connect_result gen ok s)"
  unfolding on_connect_result_def
  by (cases ok; simp only: option.case)
     (intro serial_if serial_send_boot serial_schedule_reconnect quiet_serials serial_fields; assumption)+

lemma serial_on_hard_reset_timer: "serial [] s \<Longrightarrow> serial [] (on_hard_reset_timer s)"
  unfolding on_hard_reset_timer_def reconnect_for_hard_reset_def Let_def
  by (auto split: option.split intro!: serial_start_connect serial_fields serial_link_down intro: quiet_serials)

subsection \<open>The other requests\<close>

lemma serial_notify: "serial K s \<Longrightarrow> serial K (notify orig rq s)"
  unfolding notify_def by (rule serial_call) simp_all

lemma serial_user_call: "serial K s \<Longrightarrow> serial K (user_call rq r s)"
  unfolding user_call_def by (rule serial_call) (auto intro: quiet_serials)

lemma serial_send_raw: "serial K s \<Longrightarrow> serial K (send_raw action payload validate r s)"
proof -
  assume b: "serial K s"
  have "serial K (submit_raw action payload validate (K_Raw r) s)"
    by (rule serial_step [OF b]) (simp_all add: syncs_def conts_def submit_raw_def emit_def)
  with b show ?thesis unfolding send_raw_def by (auto split: option.split intro: quiet_serials)
qed

lemma serial_configuration:
  "serial K s \<Longrightarrow> serial K (fst (apply_configuration_change key v s))"
  "serial K s \<Longrightarrow> serial K (fst (set_configuration key v s))"
  "serial K s \<Longrightarrow> serial K (change_configuration r key v s)"
  "serial K s \<Longrightarrow> serial K (get_configuration_request r keys s)"
proof -
  show apply_ok: "serial K (fst (apply_configuration_change key v s))" if "serial K s"
    unfolding apply_configuration_change_def Let_def
    using that by (auto split: prod.split intro!: quiet_serials intro: serial_small)
  show "serial K (fst (set_configuration key v s))" "serial K (change_configuration r key v s)" if "serial K s"
    using apply_ok [OF that] unfolding set_configuration_def change_configuration_def
    by (auto split: prod.split intro: serial_respond)
  show "serial K (get_configuration_request r keys s)" if "serial K s"
    unfolding get_configuration_request_def
    using that by (auto split: sum.split prod.split intro: serial_respond serial_respond_error)
qed

lemma serial_data_handlers:
  "serial K s \<Longrightarrow> serial K (data_transfer r vendor data s)"
  "serial K s \<Longrightarrow> serial K (send_local_list_handler r lrq s)"
  "serial K s \<Longrightarrow> serial K (get_version_handler r s)"
  "serial K s \<Longrightarrow> serial K (clear_cache_handler r s)"
  unfolding data_transfer_def send_local_list_handler_def get_version_handler_def clear_cache_handler_def Let_def
  by (auto split: prod.split intro!: serial_respond quiet_serials)

lemma serial_maintenance_handlers:
  "serial K s \<Longrightarrow> serial K (get_diagnostics r n d s)" "serial K s \<Longrightarrow> serial K (get_log r lq s)"
  "serial K s \<Longrightarrow> serial K (update_firmware r n d t s)"
  unfolding get_diagnostics_def get_log_def update_firmware_def Let_def
  by (intro quiet_serials serial_respond serial_if; assumption)+

lemma serial_signed_update_firmware:
  assumes "serial K s"
  shows "serial K (signed_update_firmware r rq s)"
proof -
  have m: "serial K (fst (signed_refusal rq s))"
    using assms by (auto simp: signed_refusal_def split: option.split intro: quiet_serials)
  obtain s1 refusal where r: "signed_refusal rq s = (s1, refusal)" by force
  show ?thesis
    using m unfolding signed_update_firmware_def r Let_def
    by (cases refusal) (simp_all only: option.case prod.case fst_conv,
      (intro quiet_serials serial_respond serial_if; assumption)+)
qed

lemma serial_certificate_handlers:
  "serial K s \<Longrightarrow> serial K (install_certificate r kind pem s)"
  "serial K s \<Longrightarrow> serial K (delete_certificate r wanted s)"
  "serial K s \<Longrightarrow> serial K (get_installed_certificate_ids r kind s)"
  "serial K s \<Longrightarrow> serial K (certificate_signed r chain s)"
  unfolding install_certificate_def delete_certificate_def get_installed_certificate_ids_def
    certificate_signed_def Let_def
  by (auto split: prod.split sum.split intro!: quiet_serials serial_respond)

lemma serial_send_status: "serial K s \<Longrightarrow> serial K (send_status_forced i orig ro s)"
  unfolding send_status_forced_def dispatch_status_def Let_def
  by (auto split: option.split intro!: serial_call quiet_serials)

lemma serial_triggered_meter_values: "serial K s \<Longrightarrow> serial K (triggered_meter_values s i)"
  using quiet_station_meter_reading [of s i False]
  unfolding triggered_meter_values_def Let_def
  by (auto split: prod.split intro!: serial_notify intro: serial_quiet)

lemma serial_start_triggered: "serial K s \<Longrightarrow> serial K (start_triggered message connector s)"
  unfolding start_triggered_def
  by (cases message)
     (simp_all add: serial_send_boot serial_heartbeat serial_notify serial_foldl serial_send_status
       serial_triggered_meter_values)

lemma serial_triggers:
  "serial K s \<Longrightarrow> serial K (trigger_message r message connector s)"
  "serial K s \<Longrightarrow> serial K (extended_trigger_message r extended connector s)"
  unfolding trigger_message_def extended_trigger_message_def start_extended_def Let_def
  by (auto split: option.split intro!: serial_start_triggered serial_notify serial_respond quiet_serials)

lemma serial_apply_rule: "serial K s \<Longrightarrow> serial K (fst (apply_rule r action s))"
  unfolding apply_rule_def Let_def
  by (auto split: prod.split rule_outcome.split option.split
      intro!: serial_emit serial_respond_error intro: quiet_serials)

text \<open>Failing the calls in flight hands each continuation over.\<close>

lemma serial_fail_list:
  "serial (map (pc_cont \<circ> snd) cs @ K) s \<Longrightarrow>
   serial K (foldl (\<lambda>s' (_, pc). failed (pc_cont pc) e s') s cs)"
proof (induction cs arbitrary: s)
  case (Cons c cs)
  obtain t pc where c: "c = (t, pc)" by force
  with Cons.prems have "serial (pc_cont pc # map (pc_cont \<circ> snd) cs @ K) s" by (simp add: comp_def)
  from Cons.IH [OF serial_failed [OF this]] c show ?case by simp
qed simp

lemma serial_fail_pending: "serial [] s \<Longrightarrow> serial [] (fail_pending_calls e s)"
proof -
  assume b: "serial [] s"
  have "mset (map (pc_cont \<circ> snd) (sort_key fst (s_calls s))) = mset (conts s)"
    by (simp add: conts_def)
  then have "length (filter is_sync (map (pc_cont \<circ> snd) (sort_key fst (s_calls s)))) =
      length (filter is_sync (conts s))"
    by (metis mset_filter size_mset)
  then have "syncs (map (pc_cont \<circ> snd) (sort_key fst (s_calls s))) (s\<lparr>s_calls := []\<rparr>) = syncs [] s"
    by (simp add: syncs_def conts_def)
  then have "serial (map (pc_cont \<circ> snd) (sort_key fst (s_calls s)) @ []) (s\<lparr>s_calls := []\<rparr>)"
    by (intro serial_step [OF b]) simp_all
  then show ?thesis unfolding fail_pending_calls_def by (rule serial_fail_list)
qed

lemma serial_shutdown: "serial [] s \<Longrightarrow> serial [] (shutdown s)"
proof -
  assume "serial [] s"
  then have b: "serial [] (flush_meters s)" by (intro quiet_serials)
  have "serial [] ((flush_meters s)\<lparr>s_link := l, s_timers := t\<rparr>)" for l t
    by (rule serial_step [OF b]) (simp_all add: syncs_def conts_def)
  note f = serial_fail_pending [OF this, of "Closed None"]
  show ?thesis
    unfolding shutdown_def Let_def
    by (rule serial_quiet [OF _ quiet_finish_persistence], rule serial_step [OF f])
       (simp_all add: syncs_def conts_def)
qed

subsection \<open>All commands and requests\<close>

lemma serial_execute: "Inv [] s \<Longrightarrow> serial [] s \<Longrightarrow> serial [] (execute r c s)"
proof (cases c)
  case Cmd_AddConnector
  assume "serial [] s"
  then show ?thesis
    using serial_user_commands(7) [of "[]" s] Cmd_AddConnector by (auto split: prod.split intro: quiet_serials)
qed (auto simp: reply_now_def intro!: quiet_serials serial_connect serial_disconnect serial_send_boot
      serial_heartbeat serial_authorize serial_start_transaction serial_stop_transaction
      serial_meter_values_command serial_user_commands serial_configuration serial_user_call
      serial_send_raw serial_shutdown)

lemma serial_run_handler: "serial K s \<Longrightarrow> serial K (run_handler r q s)"
  by (cases q)
     (simp_all add: serial_triggers serial_change_availability serial_unlock_connector
       serial_reservation_handlers serial_remote serial_reset serial_profile_handlers serial_configuration
       serial_data_handlers serial_maintenance_handlers serial_signed_update_firmware
       serial_certificate_handlers serial_respond_error)

lemma serial_dispatch: "serial K s \<Longrightarrow> serial K (dispatch_incoming r q s)"
  using serial_apply_rule [of K s r "inbound_action q"]
  by (auto simp: dispatch_incoming_def split: prod.split intro: serial_run_handler)

lemma serial_on_timer: "Inv [] s \<Longrightarrow> serial [] s \<Longrightarrow> serial [] (on_timer k s)"
  by (cases k)
     (auto simp: on_reconnect_timer_def on_sync_retry_timer_def
       intro!: serial_on_heartbeat_timer serial_start_connect serial_on_boot_retry_timer
       serial_on_reservation_timer serial_on_meter_periodic serial_on_meter_aligned
       serial_on_hard_reset_timer serial_start_offline_sync quiet_serials)

lemma serial_handle: "Inv [] s \<Longrightarrow> serial [] s \<Longrightarrow> serial [] (handle w s)"
proof (cases w)
  case (Link_Closed code)
  then show ?thesis
    unfolding on_closed_def
    by (simp add: on_closed_def) (intro serial_schedule_reconnect quiet_serials serial_link_down)
qed (auto intro!: serial_execute serial_dispatch serial_on_connect_result serial_on_call_done
      serial_on_timer quiet_serials quiet_invs)

lemma serial_turn: "Inv [] s \<Longrightarrow> serial [] s \<Longrightarrow> serial [] (turn now ticks w s)"
  unfolding turn_def by (intro quiet_serials serial_handle quiet_invs Inv_calm_step serial_fields)

lemma serial_new_station: "serial [] (new_station lib config el rc now ticks store kept saved)"
proof (rule serial_idle)
  show "sync_idle (new_station lib config el rc now ticks store kept saved)"
    by (simp add: sync_idle_def new_station_def Let_def initial_station_def restore_station_def
        split: option.split prod.split)
qed (rule new_station_fields)

lemma serial_after_restore: "serial K s \<Longrightarrow> serial K (after_restore s)"
  unfolding after_restore_def Let_def
  by (intro quiet_serials serial_foldl serial_arm_reservation serial_release_expired)

lemma reachable_serial: "reachable s \<Longrightarrow> serial [] s"
proof (induction rule: reachable.induct)
  case (turn s now ticks w)
  then show ?case by (intro serial_turn reachable_Inv)
qed (auto simp: start_station_def intro!: quiet_serials serial_after_restore serial_new_station)

end
