(* ===== verification/Config_Laws.thy ===== *)
theory Config_Laws
  imports Config_Registry
begin

text \<open>
  The laws of the configuration registry: what \<open>ChangeConfiguration\<close> may change, that read-only
  keys and the shape of the registry survive any sequence of changes, that every stored value
  stays valid, and that a persisted snapshot restores the registry it was taken from.
\<close>

subsection \<open>Well-formed registries\<close>

text \<open>
  Keys are distinct up to case, and the \<open>*MaxLength\<close> key that bounds a list key is a read-only
  key of the registry.
\<close>

definition registry_wf :: "registry \<Rightarrow> bool" where
  "registry_wf r =
     (distinct (map (lower \<circ> ce_key) (rg_entries r))
      \<and> (\<forall>e\<in>set (rg_entries r). \<forall>k. ce_max_items_key e = Some k \<longrightarrow>
            (\<exists>m\<in>set (rg_entries r). ce_key m = k \<and> ce_readonly m)))"

definition fits :: "registry \<Rightarrow> config_entry \<Rightarrow> string \<Rightarrow> bool" where
  "fits r e v = is_none_or (ce_max_items_key e) (\<lambda>k. length (list_items v) \<le> count_limit r k)"

text \<open>Every writable, non-secret value passes its own validation.\<close>

definition registry_valid :: "registry \<Rightarrow> bool" where
  "registry_valid r =
     (\<forall>e\<in>set (rg_entries r). \<not> ce_readonly e \<and> \<not> secret e \<longrightarrow>
        kind_accepts (ce_kind e) (ce_value e) \<and> fits r e (ce_value e))"

definition with_entries :: "registry \<Rightarrow> (config_entry \<Rightarrow> config_entry) \<Rightarrow> registry" where
  "with_entries r g = r\<lparr>rg_entries := map g (rg_entries r)\<rparr>"

lemma rg_with_entries [simp]: "rg_entries (with_entries r g) = map g (rg_entries r)"
  by (simp add: with_entries_def)

lemma index_of_Some: "index_of r n = Some i \<Longrightarrow> i < length (rg_entries r)
    \<and> eq_ignore_ascii_case (ce_key (rg_entries r ! i)) n"
  by (auto simp: index_of_def dest: position_SomeD)

lemma cfg_get_Some: "cfg_get r n = Some e \<Longrightarrow> e \<in> set (rg_entries r) \<and> eq_ignore_ascii_case (ce_key e) n"
  by (auto simp: cfg_get_def dest: index_of_Some)

lemma index_of_nth:
  assumes d: "distinct (map (lower \<circ> ce_key) (rg_entries r))" and i: "i < length (rg_entries r)"
    and e: "eq_ignore_ascii_case (ce_key (rg_entries r ! i)) n"
  shows "index_of r n = Some i"
  unfolding index_of_def position_Some_iff
proof (intro conjI allI impI)
  fix j assume "j < i"
  with d i have "(lower \<circ> ce_key) (rg_entries r ! j) \<noteq> (lower \<circ> ce_key) (rg_entries r ! i)"
    by (auto simp: distinct_conv_nth dest!: spec [of _ j])
  with e show "\<not> eq_ignore_ascii_case (ce_key (rg_entries r ! j)) n"
    by (simp add: eq_ignore_ascii_case_def)
qed (use i e in auto)

lemma cfg_get_member:
  "distinct (map (lower \<circ> ce_key) (rg_entries r)) \<Longrightarrow> e \<in> set (rg_entries r) \<Longrightarrow>
   eq_ignore_ascii_case (ce_key e) n \<Longrightarrow> cfg_get r n = Some e"
  by (auto simp: cfg_get_def in_set_conv_nth index_of_nth)

lemma cfg_get_with_entries:
  "(\<And>e. ce_key (g e) = ce_key e) \<Longrightarrow> cfg_get (with_entries r g) n = map_option g (cfg_get r n)"
  by (auto simp: cfg_get_def index_of_def position_map comp_def option.map_comp
      intro!: map_option_cong dest: position_SomeD)

text \<open>Changing the value at one index, for distinct keys, is a pointwise update by key.\<close>

definition put :: "string \<Rightarrow> string \<Rightarrow> config_entry \<Rightarrow> config_entry" where
  "put n v e = (if eq_ignore_ascii_case (ce_key e) n then e\<lparr>ce_value := v\<rparr> else e)"

lemma put_key [simp]: "ce_key (put n v e) = ce_key e" "ce_readonly (put n v e) = ce_readonly e"
  "ce_kind (put n v e) = ce_kind e" "ce_max_items_key (put n v e) = ce_max_items_key e"
  by (simp_all add: put_def)

lemma update_is_put:
  assumes d: "distinct (map (lower \<circ> ce_key) (rg_entries r))" and i: "index_of r n = Some i"
  shows "(rg_entries r)[i := (rg_entries r ! i)\<lparr>ce_value := v\<rparr>] = map (put n v) (rg_entries r)"
proof (rule nth_equalityI)
  fix j assume j: "j < length ((rg_entries r)[i := (rg_entries r ! i)\<lparr>ce_value := v\<rparr>])"
  then have lj: "j < length (rg_entries r)" by simp
  have "eq_ignore_ascii_case (ce_key (rg_entries r ! j)) n \<longleftrightarrow> j = i"
    using index_of_nth [OF d lj] i index_of_Some [OF i] by auto
  with lj show "(rg_entries r)[i := (rg_entries r ! i)\<lparr>ce_value := v\<rparr>] ! j
      = map (put n v) (rg_entries r) ! j"
    by (auto simp: nth_list_update put_def)
qed simp

lemma set_internal_put:
  "distinct (map (lower \<circ> ce_key) (rg_entries r)) \<Longrightarrow>
   set_internal r n v = with_entries r (put n v)"
proof (cases "index_of r n")
  case None
  then have "\<forall>e\<in>set (rg_entries r). \<not> eq_ignore_ascii_case (ce_key e) n"
    by (simp add: index_of_def position_None)
  then have "map (put n v) (rg_entries r) = rg_entries r" by (intro map_idI) (simp add: put_def)
  with None show ?thesis by (simp add: set_internal_def with_entries_def)
qed (simp add: set_internal_def with_entries_def update_is_put)

lemma cfg_change_put:
  "distinct (map (lower \<circ> ce_key) (rg_entries r)) \<Longrightarrow>
   cfg_change r n v =
     (if cfg_check r n v = Conf_Accepted then with_entries r (put n v) else r, cfg_check r n v)"
  by (auto simp: cfg_change_def set_internal_put [symmetric] set_internal_def Let_def
      split: option.splits)

lemma cfg_check_accepted_iff:
  "cfg_check r n v = Conf_Accepted \<longleftrightarrow>
     (\<exists>e. cfg_get r n = Some e \<and> \<not> ce_readonly e \<and> kind_accepts (ce_kind e) v \<and> fits r e v)"
  by (auto simp: cfg_check_def fits_def Let_def split: option.splits if_splits)

text \<open>The limits that bound list keys are read from read-only keys, so no change moves them.\<close>

lemma count_limit_put:
  assumes wf: "registry_wf r" and e: "e \<in> set (rg_entries r)" "ce_max_items_key e = Some k"
    and n: "cfg_get r n = Some x" "\<not> ce_readonly x"
  shows "count_limit (with_entries r (put n v)) k = count_limit r k"
proof -
  have d: "distinct (map (lower \<circ> ce_key) (rg_entries r))" using wf by (simp add: registry_wf_def)
  obtain m where m: "m \<in> set (rg_entries r)" "ce_key m = k" "ce_readonly m"
    using wf e by (auto simp: registry_wf_def)
  then have gm: "cfg_get r k = Some m" by (intro cfg_get_member [OF d]) (auto simp: eq_ignore_ascii_case_def)
  have "\<not> eq_ignore_ascii_case (ce_key m) n"
    using cfg_get_member [OF d m(1), of n] n m(3) by auto
  then have "put n v m = m" by (simp add: put_def)
  with gm show ?thesis
    by (simp add: count_limit_def cfg_number_def cfg_value_def cfg_get_with_entries)
qed

lemma registry_wf_with_entries:
  assumes "registry_wf r"
    and "\<And>e. ce_key (g e) = ce_key e" "\<And>e. ce_max_items_key (g e) = ce_max_items_key e"
      "\<And>e. ce_readonly (g e) = ce_readonly e"
  shows "registry_wf (with_entries r g)"
  using assms by (auto simp: registry_wf_def comp_def)

lemma registry_wf_distinct: "registry_wf r \<Longrightarrow> distinct (map (lower \<circ> ce_key) (rg_entries r))"
  by (simp add: registry_wf_def)

lemma registry_wf_change [wf_intros]: "registry_wf r \<Longrightarrow> registry_wf (fst (cfg_change r n v))"
  by (auto simp: cfg_change_put registry_wf_distinct intro: registry_wf_with_entries)

lemma registry_valid_change [wf_intros]:
  assumes wf: "registry_wf r" and val: "registry_valid r"
  shows "registry_valid (fst (cfg_change r n v))"
proof (cases "cfg_check r n v = Conf_Accepted")
  case True
  then obtain x where x: "cfg_get r n = Some x" "\<not> ce_readonly x" "kind_accepts (ce_kind x) v"
      "fits r x v"
    by (auto simp: cfg_check_accepted_iff)
  have d: "distinct (map (lower \<circ> ce_key) (rg_entries r))" using wf by (simp add: registry_wf_def)
  have lim: "fits (with_entries r (put n v)) (put n v e) w \<longleftrightarrow> fits r e w"
    if "e \<in> set (rg_entries r)" for e w
    using count_limit_put [OF wf that _ x(1,2)] by (auto simp: fits_def is_none_or_iff)
  have "kind_accepts (ce_kind e) (ce_value (put n v e)) \<and> fits r e (ce_value (put n v e))"
    if e: "e \<in> set (rg_entries r)" "\<not> ce_readonly e" "\<not> secret e" for e
  proof (cases "eq_ignore_ascii_case (ce_key e) n")
    case True
    with cfg_get_member [OF d e(1)] x have "e = x" by auto
    with x True show ?thesis by (simp add: put_def)
  qed (use val e in \<open>auto simp: registry_valid_def put_def\<close>)
  then show ?thesis
    using True lim by (auto simp: cfg_change_put [OF d] registry_valid_def secret_def)
qed (simp add: cfg_change_def val Let_def)

subsection \<open>Changes\<close>


text \<open>A sequence of \<open>ChangeConfiguration\<close> requests.\<close>

definition cfg_changes :: "registry \<Rightarrow> (string \<times> string) list \<Rightarrow> registry" where
  "cfg_changes r cs = foldl (\<lambda>r (n, v). fst (cfg_change r n v)) r cs"

text \<open>
  C28: no sequence of \<open>ChangeConfiguration\<close> requests, accepted or not, changes a read-only key,
  adds or drops a key, or leaves an invalid value in a writable one.
\<close>

theorem cfg_changes_safe:
  assumes "registry_wf r" and "registry_valid r" and "cfg_changes r cs = r'"
  shows "registry_wf r' \<and> registry_valid r' \<and> map ce_key (rg_entries r') = map ce_key (rg_entries r)
    \<and> filter ce_readonly (rg_entries r') = filter ce_readonly (rg_entries r)"
  using assms
proof (induction cs arbitrary: r)
  case (Cons nv cs)
  obtain n v where nv: "nv = (n, v)" by force
  let ?r = "fst (cfg_change r n v)"
  have d: "distinct (map (lower \<circ> ce_key) (rg_entries r))" using Cons.prems(1) by (rule registry_wf_distinct)
  have keys: "map ce_key (rg_entries ?r) = map ce_key (rg_entries r)"
    by (simp add: cfg_change_put [OF d] comp_def)
  have ro: "filter ce_readonly (rg_entries ?r) = filter ce_readonly (rg_entries r)"
  proof (cases "cfg_check r n v = Conf_Accepted")
    case True
    then obtain x where x: "cfg_get r n = Some x" "\<not> ce_readonly x" by (auto simp: cfg_check_accepted_iff)
    have "put n v e = e" if "e \<in> set (rg_entries r)" "ce_readonly e" for e
      using cfg_get_member [OF d that(1), of n] x that(2) by (auto simp: put_def)
    then have "filter ce_readonly (map (put n v) (rg_entries r)) = filter ce_readonly (rg_entries r)"
      by (auto simp: filter_map comp_def intro: map_idI)
    with True show ?thesis by (simp add: cfg_change_put [OF d])
  qed (simp add: cfg_change_def Let_def)
  from Cons.IH [of ?r] Cons.prems keys ro nv show ?case
    by (simp add: registry_wf_change registry_valid_change cfg_changes_def)
qed (simp add: cfg_changes_def)

subsection \<open>Defaults\<close>

lemma list_items_trimmed:
  "i \<in> set (list_items v) \<Longrightarrow> i \<noteq> [] \<and> trim i = i \<and> CHR '','' \<notin> set i"
  unfolding list_items_def using set_trim split_parts_no_sep by fastforce

lemma list_items_join:
  assumes "\<forall>i\<in>set is. i \<noteq> [] \<and> trim i = i \<and> CHR '','' \<notin> set i"
  shows "list_items (join '','' is) = is"
proof (cases "is = []")
  case True
  then show ?thesis by (simp add: list_items_def trim_def)
next
  case False
  with assms have "split CHR '','' (join [CHR '',''] is) = is" by (intro split_join) auto
  then show ?thesis
    using assms by (auto simp: list_items_def filter_id_conv intro: map_idI)
qed

lemma trim_no_space: "\<forall>c\<in>set s. \<not> is_space c \<Longrightarrow> trim s = s"
  by (simp add: trim_def dropWhile_eq_self_iff) (metis hd_in_set dropWhile_eq_self_iff rev_rev_ident set_rev)

lemma show_nat_char: "c \<in> set (show_nat n) \<Longrightarrow> is_ascii_digit c"
  using show_nat_digits by (simp add: list_all_iff)

lemma unknown_rotation_item:
  "unknown_rotation n \<noteq> [] \<and> trim (unknown_rotation n) = unknown_rotation n
   \<and> CHR '','' \<notin> set (unknown_rotation n)"
proof -
  have "\<forall>c\<in>set (unknown_rotation n). \<not> is_space c \<and> c \<noteq> CHR '',''"
    by (auto simp: unknown_rotation_def is_space_def char_code_def
        dest!: show_nat_char dest: digit_not_space digit_not_comma)
  then show ?thesis by (auto simp: unknown_rotation_def trim_no_space)
qed

lemma split_once_digits:
  "\<forall>c\<in>set a. c \<noteq> d \<Longrightarrow> split_once d (a @ d # b) = Some (a, b)"
  by (induction a) auto

lemma split_once_unknown: "split_once CHR ''.'' (unknown_rotation n) = Some (show_nat n, ''Unknown'')"
  using split_once_digits [of "show_nat n" "CHR ''.''" "''Unknown''"] show_nat_char digit_not_dot
  by (auto simp: unknown_rotation_def)

lemma unknown_rotation_ok: "is_phase_rotation_item (unknown_rotation n)"
  using show_nat_digits by (simp add: is_phase_rotation_item_def split_once_unknown PHASE_ROTATIONS_def)

lemma kind_accepts_nonneg: "int n \<le> i32_max \<Longrightarrow> kind_accepts NonNegativeInt (show_nat n)"
  by (simp add: parse_int_def show_nat_digits digits_val_show_nat)

lemma kind_accepts_pos: "1 \<le> n \<Longrightarrow> int n \<le> i32_max \<Longrightarrow> kind_accepts PositiveInt (show_nat n)"
  by (simp add: parse_int_def show_nat_digits digits_val_show_nat)

lemma default_keys:
  "map ce_key (default_entries config n) = map ce_key (default_entries config' m)"
  by (simp add: default_entries_def first_half_entries_def second_half_entries_def writable_def
      writable_list_def read_only_def Let_def)

lemmas default_entries_defs =
  default_entries_def first_half_entries_def second_half_entries_def writable_def
  writable_list_def read_only_def Let_def

definition demo_config :: station_config where
  "demo_config = \<lparr>sc_charge_point_id = ''CP'', sc_vendor = ''V'', sc_model = ''M'',
     sc_connector_count = 1, sc_initial_connector = 1, sc_heartbeat_interval_secs = 60,
     sc_ws_ping_interval_secs = 30, sc_additional_root_certificate_check = False,
     sc_url = ''ws://h/p'', sc_tls_cert_file = False, sc_tls_skip_verify = False,
     sc_response_rules = []\<rparr>"

lemma default_keys_distinct: "distinct (map (lower \<circ> ce_key) (default_entries config n))"
proof -
  have "map ce_key (default_entries config n) = map ce_key (default_entries demo_config 1)"
    by (rule default_keys)
  moreover have "distinct (map lower (map ce_key (default_entries demo_config 1)))"
    by code_simp
  ultimately show ?thesis by (metis map_map)
qed

lemma registry_new_wf: "registry_wf (registry_new config)"
proof -
  have "\<forall>e\<in>set (default_entries config n). \<forall>k. ce_max_items_key e = Some k \<longrightarrow>
      (\<exists>m\<in>set (default_entries config n). ce_key m = k \<and> ce_readonly m)" for n
    by (simp add: default_entries_defs)
  then show ?thesis
    by (simp add: registry_wf_def registry_new_def default_keys_distinct Let_def)
qed


lemma count_limit_member:
  "distinct (map (lower \<circ> ce_key) (rg_entries r)) \<Longrightarrow> m \<in> set (rg_entries r) \<Longrightarrow> ce_key m = k \<Longrightarrow>
   count_limit r k = unwrap_or (parse_u32 (ce_value m)) 0"
  by (auto simp: count_limit_def cfg_number_def cfg_value_def eq_ignore_ascii_case_def cfg_get_member)

lemma default_constants_accepted:
  "kind_accepts Measurands default_measurands" "length (list_items default_measurands) \<le> 22"
  "kind_accepts NonNegativeInt ''0''" "kind_accepts NonNegativeInt ''5''"
  "kind_accepts NonNegativeInt ''20''" "kind_accepts NonNegativeInt ''60''"
  "kind_accepts PositiveInt ''60''" "kind_accepts PositiveInt ''1''"
  "kind_accepts PositiveInt ''30''" "kind_accepts SecurityProfile ''0''"
  "kind_accepts Boolean ''true''" "kind_accepts Boolean ''false''" "kind_accepts Name ''''"
  by code_simp+

lemma measurand_count: "length MEASURANDS = 22"
  by (simp add: MEASURANDS_def)

lemma default_rotations:
  "list_items (join '','' (map unknown_rotation [1..<n + 1])) = map unknown_rotation [1..<n + 1]"
  by (rule list_items_join) (use unknown_rotation_item in auto)

lemma default_rotations_accepted:
  "1 \<le> n \<Longrightarrow> kind_accepts PhaseRotations (join '','' (map unknown_rotation [1..<n + 1]))"
  using default_rotations [of n] by (simp add: list_all_iff unknown_rotation_ok del: upt_Suc)

definition config_in_range :: "station_config \<Rightarrow> bool" where
  "config_in_range config =
     (1 \<le> sc_heartbeat_interval_secs config \<and> int (sc_heartbeat_interval_secs config) \<le> i32_max
      \<and> int (sc_ws_ping_interval_secs config) \<le> i32_max
      \<and> sc_connector_count config < u32_max \<and> sc_initial_connector config < u32_max)"

lemma default_list_limits:
  fixes config :: station_config
  defines "r \<equiv> registry_new config"
  defines "n \<equiv> rg_connector_count r"
  assumes "n < u32_max"
  shows "count_limit r ''ConnectorPhaseRotationMaxLength'' = n + 1"
    "count_limit r ''MeterValuesAlignedDataMaxLength'' = 22"
    "count_limit r ''MeterValuesSampledDataMaxLength'' = 22"
    "count_limit r ''StopTxnAlignedDataMaxLength'' = 22"
    "count_limit r ''StopTxnSampledDataMaxLength'' = 22"
proof -
  have d: "distinct (map (lower \<circ> ce_key) (rg_entries r))"
    by (simp add: r_def registry_new_wf registry_wf_distinct)
  have e: "rg_entries r = default_entries config n" by (simp add: r_def n_def registry_new_def Let_def)
  have lim: "count_limit r k = m" if "read_only k (show_nat m) \<in> set (default_entries config n)"
    "m \<le> u32_max" for k m
    using count_limit_member [OF d, of "read_only k (show_nat m)" k] that e
    by (simp add: read_only_def parse_u32_show_nat)
  have in22: "read_only k (show_nat 22) \<in> set (second_half_entries config n)"
    if "k \<in> {''MeterValuesAlignedDataMaxLength'', ''MeterValuesSampledDataMaxLength'',
       ''StopTxnAlignedDataMaxLength'', ''StopTxnSampledDataMaxLength''}" for k
    using that
    by (elim insertE emptyE) (simp_all add: second_half_entries_def measurand_count Let_def)
  show "count_limit r ''ConnectorPhaseRotationMaxLength'' = n + 1"
    using assms by (intro lim) (simp_all add: default_entries_def first_half_entries_def)
  show "count_limit r ''MeterValuesAlignedDataMaxLength'' = 22"
    "count_limit r ''MeterValuesSampledDataMaxLength'' = 22"
    "count_limit r ''StopTxnAlignedDataMaxLength'' = 22"
    "count_limit r ''StopTxnSampledDataMaxLength'' = 22"
    by (rule lim; simp add: default_entries_def in22 u32_max_def)+
qed

lemma registry_new_valid:
  assumes "config_in_range config"
  shows "registry_valid (registry_new config)"
proof -
  let ?r = "registry_new config" and ?n = "rg_connector_count (registry_new config)"
  have e: "rg_entries ?r = default_entries config ?n" and n: "1 \<le> ?n" "?n < u32_max"
    using assms by (simp_all add: registry_new_def Let_def config_in_range_def u32_max_def)
  have hb: "kind_accepts PositiveInt (show_nat (sc_heartbeat_interval_secs config))"
    and ping: "kind_accepts NonNegativeInt (show_nat (sc_ws_ping_interval_secs config))"
    using assms by (simp_all add: config_in_range_def kind_accepts_pos kind_accepts_nonneg del: kind_accepts.simps)
  have rot: "length (list_items (join '','' (map unknown_rotation [1..<?n + 1]))) \<le> ?n + 1"
    using default_rotations [of ?n] by (simp del: upt_Suc)
  note ok = default_constants_accepted hb ping default_rotations_accepted [OF n(1)] rot
    default_list_limits [OF n(2)]
  show ?thesis
    unfolding registry_valid_def e default_entries_defs
    using ok
    by (simp add: secret_def fits_def del: kind_accepts.simps upt_Suc)
qed


subsection \<open>Snapshot and restore\<close>

definition puts :: "(string \<times> string) list \<Rightarrow> config_entry \<Rightarrow> config_entry" where
  "puts L e = foldl (\<lambda>e (n, v). put n v e) e L"

lemma puts_Nil [simp]: "puts [] = (\<lambda>e. e)"
  by (rule ext) (simp add: puts_def)

lemma puts_Cons [simp]: "puts ((n, v) # L) e = puts L (put n v e)"
  by (simp add: puts_def)

lemma puts_key [simp]: "ce_key (puts L e) = ce_key e"
  by (induction L arbitrary: e) auto

text \<open>A value the registry would accept for a key, whatever has been accepted for others before.\<close>

definition acceptable :: "registry \<Rightarrow> string \<times> string \<Rightarrow> bool" where
  "acceptable r nv = (\<exists>e\<in>set (rg_entries r). ce_key e = fst nv \<and> \<not> ce_readonly e
     \<and> kind_accepts (ce_kind e) (snd nv) \<and> fits r e (snd nv))"

lemma acceptable_check:
  "registry_wf r \<Longrightarrow> acceptable r (n, v) \<Longrightarrow>
   cfg_check r n v = Conf_Accepted \<and> (\<exists>e. cfg_get r n = Some e \<and> \<not> ce_readonly e)"
  using cfg_get_member [OF registry_wf_distinct]
  by (fastforce simp: cfg_check_accepted_iff acceptable_def eq_ignore_ascii_case_def)

lemma acceptable_put:
  assumes "registry_wf r" and "cfg_get r n = Some x" "\<not> ce_readonly x" and "acceptable r nv"
  shows "acceptable (with_entries r (put n v)) nv"
proof -
  obtain e where e: "e \<in> set (rg_entries r)" "ce_key e = fst nv" "\<not> ce_readonly e"
    "kind_accepts (ce_kind e) (snd nv)" "fits r e (snd nv)"
    using assms(4) by (auto simp: acceptable_def)
  have "fits (with_entries r (put n v)) (put n v e) (snd nv)"
    using e(5) count_limit_put [OF assms(1) e(1) _ assms(2,3)] by (auto simp: fits_def is_none_or_iff)
  with e show ?thesis by (auto simp: acceptable_def intro!: bexI [of _ e])
qed

lemma restore_values_acceptable:
  "registry_wf r \<Longrightarrow> \<forall>nv\<in>set L. acceptable r nv \<Longrightarrow>
   restore_values r L = (with_entries r (puts L), [])"
proof (induction L arbitrary: r)
  case (Cons nv L)
  obtain n v where nv: "nv = (n, v)" by force
  let ?r = "with_entries r (put n v)"
  from Cons.prems nv have "acceptable r (n, v)" by simp
  from acceptable_check [OF Cons.prems(1) this] obtain x
    where acc: "cfg_check r n v = Conf_Accepted" and x: "cfg_get r n = Some x" "\<not> ce_readonly x" by auto
  have wf: "registry_wf ?r" by (intro registry_wf_with_entries Cons.prems) simp_all
  have "restore_values ?r L = (with_entries ?r (puts L), [])"
    using Cons.prems acceptable_put [OF Cons.prems(1) x] by (intro Cons.IH wf) auto
  moreover have "cfg_change r n v = (?r, Conf_Accepted)"
    using acc Cons.prems(1) by (simp add: cfg_change_put registry_wf_distinct)
  ultimately show ?case by (simp add: nv with_entries_def comp_def)
qed (simp add: with_entries_def)

lemma puts_none: "\<forall>(n, v)\<in>set L. \<not> eq_ignore_ascii_case (ce_key e) n \<Longrightarrow> puts L e = e"
  by (induction L) (auto simp: put_def)

lemma puts_some:
  assumes "\<forall>(n, w)\<in>set L. eq_ignore_ascii_case (ce_key e) n \<longrightarrow> w = v"
    and "\<exists>(n, w)\<in>set L. eq_ignore_ascii_case (ce_key e) n"
  shows "puts L e = e\<lparr>ce_value := v\<rparr>"
  using assms
proof (induction L arbitrary: e)
  case (Cons nw L)
  obtain n w where nw: "nw = (n, w)" by force
  show ?case
  proof (cases "\<exists>(n, w)\<in>set L. eq_ignore_ascii_case (ce_key e) n")
    case True
    with Cons.IH [of "put n w e"] Cons.prems nw show ?thesis by (auto simp: put_def)
  next
    case False
    with Cons.prems nw have "puts L (put n w e) = put n w e" "eq_ignore_ascii_case (ce_key e) n" "w = v"
      by (auto intro!: puts_none)
    with nw show ?thesis by (simp add: put_def)
  qed
qed simp

lemma set_bt_insert_new: "k \<notin> fst ` set m \<Longrightarrow> set (bt_insert k v m) = insert (k, v) (set m)"
  by (induction m) (auto split: if_splits)

lemma set_insert_all:
  "distinct (map f es) \<Longrightarrow> \<forall>e\<in>set es. f e \<notin> fst ` set m \<Longrightarrow>
   set (foldl (\<lambda>m e. bt_insert (f e) (g e) m) m es) = (\<lambda>e. (f e, g e)) ` set es \<union> set m"
proof (induction es arbitrary: m)
  case (Cons e es)
  then have "\<forall>x\<in>set es. f x \<notin> fst ` set (bt_insert (f e) (g e) m)"
    by (subst set_bt_insert_new) (auto, metis imageI)
  with Cons show ?case by (auto simp: set_bt_insert_new)
qed simp

lemma set_snapshot:
  assumes "distinct (map (lower \<circ> ce_key) (rg_entries r))"
  shows "set (snapshot r) =
    (\<lambda>e. (ce_key e, ce_value e)) ` {e \<in> set (rg_entries r). \<not> ce_readonly e \<and> \<not> secret e}"
proof -
  have "distinct (map ce_key (rg_entries r))"
    using assms by (metis distinct_map map_map)
  then have "distinct (map ce_key (filter (\<lambda>e. \<not> ce_readonly e \<and> \<not> secret e) (rg_entries r)))"
    by (rule distinct_map_filter)
  then show ?thesis by (simp add: snapshot_def set_insert_all bt_empty_def)
qed

text \<open>Two registries with the same keys, types and read-only values, as two starts of one station have.\<close>

definition same_shape :: "registry \<Rightarrow> registry \<Rightarrow> bool" where
  "same_shape r r0 = list_all2 (\<lambda>e e0. \<exists>v. e0 = e\<lparr>ce_value := v\<rparr> \<and> (ce_readonly e \<longrightarrow> e0 = e))
     (rg_entries r) (rg_entries r0)"


lemma same_shape_nth:
  "same_shape r r0 \<Longrightarrow> i < length (rg_entries r) \<Longrightarrow>
   (\<exists>v. rg_entries r0 ! i = (rg_entries r ! i)\<lparr>ce_value := v\<rparr>)
   \<and> (ce_readonly (rg_entries r ! i) \<longrightarrow> rg_entries r0 ! i = rg_entries r ! i)"
  by (auto simp: same_shape_def list_all2_conv_all_nth)

lemma same_shape_length: "same_shape r r0 \<Longrightarrow> length (rg_entries r0) = length (rg_entries r)"
  by (simp add: same_shape_def list_all2_lengthD)

lemma same_shape_keys:
  assumes "same_shape r r0"
  shows "map (lower \<circ> ce_key) (rg_entries r0) = map (lower \<circ> ce_key) (rg_entries r)"
  by (rule nth_equalityI) (use same_shape_nth [OF assms] same_shape_length [OF assms] in \<open>fastforce+\<close>)

lemma same_shape_readonly:
  "same_shape r r0 \<Longrightarrow> m \<in> set (rg_entries r) \<Longrightarrow> ce_readonly m \<Longrightarrow> m \<in> set (rg_entries r0)"
  using same_shape_nth [of r r0] same_shape_length [of r r0] by (auto simp: in_set_conv_nth)

lemma same_shape_limit:
  assumes wf: "registry_wf r" and sh: "same_shape r r0" and e: "e \<in> set (rg_entries r)"
    "ce_max_items_key e = Some k"
  shows "count_limit r0 k = count_limit r k"
proof -
  obtain m where m: "m \<in> set (rg_entries r)" "ce_key m = k" "ce_readonly m"
    using wf e by (auto simp: registry_wf_def)
  then have "m \<in> set (rg_entries r0)" by (intro same_shape_readonly [OF sh])
  with m wf same_shape_keys [OF sh] show ?thesis
    using count_limit_member [of r m k] count_limit_member [of r0 m k] registry_wf_distinct [OF wf]
    by simp
qed

lemma snapshot_acceptable:
  assumes wf: "registry_wf r" and val: "registry_valid r" and sh: "same_shape r r0"
    and nv: "nv \<in> set (snapshot r)"
  shows "acceptable r0 nv"
proof -
  obtain e where e: "e \<in> set (rg_entries r)" "\<not> ce_readonly e" "\<not> secret e"
      "nv = (ce_key e, ce_value e)"
    using nv set_snapshot [OF registry_wf_distinct [OF wf]] by auto
  then obtain i where i: "i < length (rg_entries r)" "e = rg_entries r ! i"
    by (auto simp: in_set_conv_nth)
  from same_shape_nth [OF sh i(1)] i obtain v where v: "rg_entries r0 ! i = e\<lparr>ce_value := v\<rparr>" by auto
  have "e\<lparr>ce_value := v\<rparr> \<in> set (rg_entries r0)"
    using i same_shape_length [OF sh] v by (metis nth_mem)
  moreover have "fits r0 (e\<lparr>ce_value := v\<rparr>) (ce_value e)"
    using val e same_shape_limit [OF wf sh e(1)]
    by (auto simp: registry_valid_def fits_def is_none_or_iff)
  ultimately show ?thesis
    using e val by (auto simp: acceptable_def registry_valid_def intro!: bexI [of _ "e\<lparr>ce_value := v\<rparr>"])
qed

lemma same_shape_wf:
  assumes wf: "registry_wf r" and sh: "same_shape r r0"
  shows "registry_wf r0"
proof -
  have "\<exists>m\<in>set (rg_entries r0). ce_key m = k \<and> ce_readonly m"
    if e0: "e0 \<in> set (rg_entries r0)" "ce_max_items_key e0 = Some k" for e0 k
  proof -
    obtain i where "i < length (rg_entries r0)" and i0: "e0 = rg_entries r0 ! i"
      using e0(1) by (auto simp: in_set_conv_nth)
    then have i: "i < length (rg_entries r)" using same_shape_length [OF sh] by simp
    then have "ce_max_items_key (rg_entries r ! i) = Some k"
      using same_shape_nth [OF sh i] e0(2) i0 by auto
    then obtain m where "m \<in> set (rg_entries r)" "ce_key m = k" "ce_readonly m"
      using wf nth_mem [OF i] by (auto simp: registry_wf_def)
    then show ?thesis using same_shape_readonly [OF sh] by blast
  qed
  then show ?thesis using wf same_shape_keys [OF sh] by (simp add: registry_wf_def)
qed


subsection \<open>Reports\<close>

definition hide :: "config_entry \<Rightarrow> config_entry" where
  "hide e = (if secret e then e\<lparr>ce_value := ''''\<rparr> else e)"

lemma hide_key [simp]: "ce_key (hide e) = ce_key e" "ce_readonly (hide e) = ce_readonly e"
  "secret (hide e) = secret e"
  by (simp_all add: hide_def secret_def)

lemma cfg_get_hide: "cfg_get (with_entries r hide) = (\<lambda>n. map_option hide (cfg_get r n))"
  by (rule ext) (simp add: cfg_get_with_entries)

lemma map_filter_map_option: "List.map_filter (\<lambda>n. map_option g (f n)) xs = map g (List.map_filter f xs)"
  by (induction xs) (auto simp: List.map_filter_simps split: option.splits)

lemma set_map_filter_iff: "y \<in> set (List.map_filter f xs) \<longleftrightarrow> (\<exists>x\<in>set xs. f x = Some y)"
  by (induction xs) (auto simp: List.map_filter_simps split: option.splits)

lemma unwrap_then_some [simp]: "unwrap_or (then_some_list xs) [] = xs"
  by (simp add: then_some_list_def)

definition max_keys :: "registry \<Rightarrow> nat" where
  "max_keys r = cfg_number r GET_CONFIGURATION_MAX_KEYS"

text \<open>
  \<open>GetConfiguration\<close> answers with a CALLERROR exactly when a non-empty list names more keys
  than \<open>GetConfigurationMaxKeys\<close>.  Otherwise every requested key is either reported under its
  canonical spelling or listed as unknown, and nothing the answer carries depends on the value
  of a secret key.
\<close>

theorem get_configuration_answer:
  assumes "\<forall>e. cfg_get r GET_CONFIGURATION_MAX_KEYS = Some e \<longrightarrow> \<not> secret e"
  shows "(get_configuration_handler r key =
      Inl (OccurenceConstraintViolation, length (unwrap_or key []), max_keys r)
        \<longleftrightarrow> unwrap_or key [] \<noteq> [] \<and> length (unwrap_or key []) > max_keys r)
    \<and> get_configuration_handler (with_entries r hide) key = get_configuration_handler r key
    \<and> (\<forall>resp. get_configuration_handler r key = Inr resp \<and> unwrap_or key [] \<noteq> [] \<longrightarrow>
         (\<forall>n\<in>set (unwrap_or key []).
            case cfg_get r n of
              None \<Rightarrow> n \<in> set (unwrap_or (gr_unknown_key resp) [])
            | Some e \<Rightarrow> \<lparr>ck_key = ce_key e, ck_readonly = ce_readonly e,
                ck_value = (if secret e then None else Some (ce_value e))\<rparr>
                  \<in> set (unwrap_or (gr_configuration_key resp) [])))"
proof -
  let ?h = "with_entries r hide"
  have mx: "cfg_number ?h GET_CONFIGURATION_MAX_KEYS = max_keys r"
    using assms by (cases "cfg_get r GET_CONFIGURATION_MAX_KEYS")
      (simp_all add: cfg_number_def cfg_value_def cfg_get_hide max_keys_def hide_def)
  have view: "(\<lambda>e. \<lparr>ck_key = ce_key e, ck_readonly = ce_readonly e,
      ck_value = (if \<not> secret e then Some (ce_value e) else None)\<rparr>) \<circ> hide =
    (\<lambda>e. \<lparr>ck_key = ce_key e, ck_readonly = ce_readonly e,
      ck_value = (if \<not> secret e then Some (ce_value e) else None)\<rparr>)"
    by (auto simp: fun_eq_iff) (simp add: hide_def)
  have same: "get_configuration_handler ?h key = get_configuration_handler r key"
    using mx
    by (simp add: get_configuration_handler_def get_configuration_def max_keys_def view
        cfg_get_hide map_filter_map_option Let_def)
  have err: "get_configuration_handler r key =
      Inl (OccurenceConstraintViolation, length (unwrap_or key []), max_keys r)
        \<longleftrightarrow> unwrap_or key [] \<noteq> [] \<and> length (unwrap_or key []) > max_keys r"
    by (simp add: get_configuration_handler_def get_configuration_def max_keys_def Let_def)
  have "case cfg_get r n of
          None \<Rightarrow> n \<in> set (unwrap_or (gr_unknown_key resp) [])
        | Some e \<Rightarrow> \<lparr>ck_key = ce_key e, ck_readonly = ce_readonly e,
            ck_value = (if secret e then None else Some (ce_value e))\<rparr>
              \<in> set (unwrap_or (gr_configuration_key resp) [])"
    if "get_configuration_handler r key = Inr resp" "unwrap_or key [] \<noteq> []"
      "n \<in> set (unwrap_or key [])" for resp n
  proof (cases "cfg_get r n")
    case None
    with that show ?thesis
      by (auto simp: get_configuration_handler_def get_configuration_def Let_def split: if_splits)
  next
    case (Some e)
    then have "e \<in> set (List.map_filter (cfg_get r) (unwrap_or key []))"
      using that(3) set_map_filter_iff [of e] by blast
    with that Some show ?thesis
      by (auto simp: get_configuration_handler_def get_configuration_def Let_def image_iff
          split: if_splits)
  qed
  with same err show ?thesis by blast
qed

subsection \<open>Adding connectors\<close>

lemma cfg_get_set_internal:
  "registry_wf r \<Longrightarrow> cfg_get (set_internal r n v) m = map_option (put n v) (cfg_get r m)"
  by (simp add: set_internal_put registry_wf_distinct cfg_get_with_entries)

lemma cfg_value_set_internal:
  "registry_wf r \<Longrightarrow> cfg_value (set_internal r n v) m =
     (if eq_ignore_ascii_case m n then map_option (\<lambda>_. v) (cfg_value r m) else cfg_value r m)"
  by (cases "cfg_get r m")
    (auto simp: cfg_value_def cfg_get_set_internal put_def eq_ignore_ascii_case_def dest!: cfg_get_Some)

lemma cfg_get_set_internal_other:
  "registry_wf r \<Longrightarrow> \<not> eq_ignore_ascii_case m n \<Longrightarrow> cfg_get (set_internal r n v) m = cfg_get r m"
  by (cases "cfg_get r m")
    (auto simp: cfg_get_set_internal put_def eq_ignore_ascii_case_def dest!: cfg_get_Some)

lemma registry_wf_set_internal [wf_intros]: "registry_wf r \<Longrightarrow> registry_wf (set_internal r n v)"
  by (simp add: set_internal_put registry_wf_distinct) (intro registry_wf_with_entries; simp)

lemma set_internal_count [simp]: "rg_connector_count (set_internal r n v) = rg_connector_count r"
  by (simp add: set_internal_def split: option.split)

lemma cfg_get_count [simp]: "cfg_get (r\<lparr>rg_connector_count := n\<rparr>) m = cfg_get r m"
  by (simp add: cfg_get_def index_of_def)

lemma registry_wf_count [simp]: "registry_wf (r\<lparr>rg_connector_count := n\<rparr>) = registry_wf r"
  by (simp add: registry_wf_def)

text \<open>The rotation list after \<open>count\<close> connectors are known.\<close>

definition grown_items :: "string \<Rightarrow> nat \<Rightarrow> string list" where
  "grown_items v count = list_items v
     @ map unknown_rotation (filter (\<lambda>i. i \<notin> set (covered_connectors v)) [1..<count + 1])"

lemma list_items_grown: "list_items (join '','' (grown_items v count)) = grown_items v count"
  by (rule list_items_join)
    (auto simp: grown_items_def unknown_rotation_item simp del: upt_Suc dest: list_items_trimmed)

lemma grown_accepted:
  "kind_accepts PhaseRotations v \<Longrightarrow> kind_accepts PhaseRotations (join '','' (grown_items v count))"
  using list_items_grown [of v count]
  by (auto simp: grown_items_def list_all_iff unknown_rotation_ok simp del: upt_Suc)

lemma covered_append:
  "List.map_filter f (xs @ ys) = List.map_filter f xs @ List.map_filter f ys"
  by (simp add: List.map_filter_def)

lemma covered_unknown:
  "\<forall>i\<in>set is. i \<le> u32_max \<Longrightarrow>
   List.map_filter (\<lambda>(c, _). parse_u32 c)
     (List.map_filter (split_once CHR ''.'') (map unknown_rotation is)) = is"
  by (induction "is") (auto simp: List.map_filter_simps split_once_unknown parse_u32_show_nat)

lemma covered_grown:
  assumes "count < u32_max"
  shows "{1..count} \<subseteq> set (covered_connectors (join '','' (grown_items v count)))"
proof -
  let ?new = "filter (\<lambda>i. i \<notin> set (covered_connectors v)) [1..<count + 1]"
  have "covered_connectors (join '','' (grown_items v count)) = covered_connectors v @ ?new"
    unfolding covered_connectors_def [of "join '','' (grown_items v count)"] list_items_grown
    unfolding grown_items_def covered_append
    using covered_unknown [of ?new] assms
    by (simp add: covered_connectors_def [symmetric] del: upt_Suc)
  then show ?thesis by auto
qed

lemma connector_keys_differ:
  "\<not> eq_ignore_ascii_case NUMBER_OF_CONNECTORS CONNECTOR_PHASE_ROTATION"
  "\<not> eq_ignore_ascii_case NUMBER_OF_CONNECTORS CONNECTOR_PHASE_ROTATION_MAX_LENGTH"
  "\<not> eq_ignore_ascii_case CONNECTOR_PHASE_ROTATION NUMBER_OF_CONNECTORS"
  "\<not> eq_ignore_ascii_case CONNECTOR_PHASE_ROTATION CONNECTOR_PHASE_ROTATION_MAX_LENGTH"
  "\<And>n. eq_ignore_ascii_case n n"
  by (code_simp, code_simp, code_simp, code_simp) (simp add: eq_ignore_ascii_case_def)

text \<open>
  Adding connectors.  A larger count becomes the reported \<open>NumberOfConnectors\<close>, a valid
  rotation list stays valid, keeps its items and, when it names connectors one by one, afterwards
  covers every connector from 1 to the count; no other key changes and the count never shrinks.
\<close>

theorem set_connector_count_correct:
  assumes "registry_wf r" and "count < u32_max" and "r' = set_connector_count r count"
  shows "registry_wf r' \<and> rg_connector_count r' = max count (rg_connector_count r)
    \<and> (\<forall>m. m \<notin> {n. \<exists>k\<in>{NUMBER_OF_CONNECTORS, CONNECTOR_PHASE_ROTATION,
                CONNECTOR_PHASE_ROTATION_MAX_LENGTH}. eq_ignore_ascii_case n k} \<longrightarrow>
          cfg_get r' m = cfg_get r m)
    \<and> (rg_connector_count r < count \<and> cfg_get r NUMBER_OF_CONNECTORS \<noteq> None \<longrightarrow>
          cfg_number r' NUMBER_OF_CONNECTORS = count)
    \<and> (\<forall>v. rg_connector_count r < count \<and> cfg_value r CONNECTOR_PHASE_ROTATION = Some v
            \<and> kind_accepts PhaseRotations v \<longrightarrow>
          (\<exists>v'. cfg_value r' CONNECTOR_PHASE_ROTATION = Some v' \<and> kind_accepts PhaseRotations v'
            \<and> set (list_items v) \<subseteq> set (list_items v')
            \<and> (covered_connectors v \<noteq> [] \<longrightarrow> {1..count} \<subseteq> set (covered_connectors v'))))"
proof (cases "count \<le> rg_connector_count r")
  case True
  with assms show ?thesis by (simp add: set_connector_count_def)
next
  case False
  define r3 where "r3 = set_internal (set_internal (r\<lparr>rg_connector_count := count\<rparr>)
      NUMBER_OF_CONNECTORS (show_nat count)) CONNECTOR_PHASE_ROTATION_MAX_LENGTH (show_nat (count + 1))"
  have wf3: "registry_wf r3" unfolding r3_def using assms(1) by (intro wf_intros) simp
  have rot: "cfg_value r3 CONNECTOR_PHASE_ROTATION = cfg_value r CONNECTOR_PHASE_ROTATION"
    and num: "cfg_value r3 NUMBER_OF_CONNECTORS = map_option (\<lambda>_. show_nat count) (cfg_value r NUMBER_OF_CONNECTORS)"
    using assms(1) connector_keys_differ
    by (simp_all add: r3_def cfg_value_set_internal wf_intros) (simp_all add: cfg_value_def)
  have oth: "cfg_get r3 m = cfg_get r m" if "\<not> eq_ignore_ascii_case m NUMBER_OF_CONNECTORS"
    "\<not> eq_ignore_ascii_case m CONNECTOR_PHASE_ROTATION_MAX_LENGTH" for m
    using assms(1) that by (simp add: r3_def cfg_get_set_internal_other wf_intros)
  have cnt: "rg_connector_count r3 = count" by (simp add: r3_def)
  have r': "r' = (case cfg_value r CONNECTOR_PHASE_ROTATION of None \<Rightarrow> r3 | Some v \<Rightarrow>
      if covered_connectors v = [] then r3
      else set_internal r3 CONNECTOR_PHASE_ROTATION (join '','' (grown_items v count)))"
    unfolding assms(3) set_connector_count_def Let_def r3_def [symmetric] grown_items_def
    using False rot by (simp del: upt_Suc split: option.split)
  have wf': "registry_wf r'" using wf3 by (auto simp: r' intro: wf_intros split: option.split)
  have num': "cfg_value r' NUMBER_OF_CONNECTORS = cfg_value r3 NUMBER_OF_CONNECTORS"
    using wf3 connector_keys_differ by (auto simp: r' cfg_value_set_internal split: option.split)
  have oth': "cfg_get r' m = cfg_get r3 m" if "\<not> eq_ignore_ascii_case m CONNECTOR_PHASE_ROTATION" for m
    using wf3 that by (auto simp: r' cfg_get_set_internal_other split: option.split)
  have rot': "\<exists>v'. cfg_value r' CONNECTOR_PHASE_ROTATION = Some v' \<and> kind_accepts PhaseRotations v'
      \<and> set (list_items v) \<subseteq> set (list_items v')
      \<and> (covered_connectors v \<noteq> [] \<longrightarrow> {1..count} \<subseteq> set (covered_connectors v'))"
    if v: "cfg_value r CONNECTOR_PHASE_ROTATION = Some v" "kind_accepts PhaseRotations v" for v
  proof (cases "covered_connectors v = []")
    case False
    have "cfg_value r' CONNECTOR_PHASE_ROTATION = Some (join '','' (grown_items v count))"
      using v rot False wf3 connector_keys_differ(5) by (simp add: r' cfg_value_set_internal)
    then show ?thesis
      using grown_accepted [OF v(2)] covered_grown [OF assms(2)] list_items_grown [of v count]
      by (auto simp: grown_items_def simp del: upt_Suc kind_accepts.simps)
  qed (use v rot in \<open>simp add: r' del: kind_accepts.simps\<close>)
  have "cfg_number r' NUMBER_OF_CONNECTORS = count" if "cfg_get r NUMBER_OF_CONNECTORS \<noteq> None"
    using that assms(2) num num' by (auto simp: cfg_number_def cfg_value_def parse_u32_show_nat)
  moreover have "rg_connector_count r' = count"
    using cnt by (auto simp: r' split: option.split)
  ultimately show ?thesis
    using wf' oth oth' rot' False by auto
qed

subsection \<open>Concrete registries\<close>

lemma demo_in_range: "config_in_range demo_config"
  by (simp add: config_in_range_def demo_config_def i32_max_def u32_max_def)

lemma demo_check:
  "cfg_check (registry_new demo_config) ''blinkrepeat'' ''7'' = Conf_Accepted"
  "cfg_check (registry_new demo_config) ''NumberOfConnectors'' ''7'' = Conf_Rejected"
  by code_simp+

lemma cfg_change_status: "snd (cfg_change r n v) = cfg_check r n v"
  by (simp add: cfg_change_def Let_def)


theorem cfg_changes_safe_witness:
  "registry_valid (cfg_changes (registry_new demo_config)
     [(''blinkrepeat'', ''7''), (''NumberOfConnectors'', ''7''), (''HeartbeatInterval'', ''x'')])"
  using cfg_changes_safe [OF registry_new_wf registry_new_valid [OF demo_in_range] refl] by blast

lemma same_shape_change:
  assumes wf: "registry_wf r" shows "same_shape (fst (cfg_change r n v)) r"
proof (cases "cfg_check r n v = Conf_Accepted")
  case True
  then obtain x where x: "cfg_get r n = Some x" "\<not> ce_readonly x" by (auto simp: cfg_check_accepted_iff)
  have "put n v e = e" if "e \<in> set (rg_entries r)" "ce_readonly e" for e
    using cfg_get_member [OF registry_wf_distinct [OF wf] that(1), of n] x that(2) by (auto simp: put_def)
  moreover have "\<exists>w. e = (put n v e)\<lparr>ce_value := w\<rparr>" for e
    by (rule exI [of _ "ce_value e"]) (simp add: put_def)
  ultimately show ?thesis
    using True wf
    by (auto simp: same_shape_def cfg_change_put registry_wf_distinct list_all2_conv_all_nth)
next
  case False
  have "\<exists>v. e = e\<lparr>ce_value := v\<rparr>" for e :: config_entry by (rule exI [of _ "ce_value e"]) simp
  with False show ?thesis
    by (auto simp: same_shape_def cfg_change_def Let_def list_all2_conv_all_nth)
qed


lemma demo_max_keys_entry:
  "cfg_get (registry_new config) GET_CONFIGURATION_MAX_KEYS = Some (read_only ''GetConfigurationMaxKeys'' ''50'')"
  by (rule cfg_get_member [OF registry_wf_distinct [OF registry_new_wf]])
    (simp_all add: registry_new_def default_entries_def first_half_entries_def read_only_def
      GET_CONFIGURATION_MAX_KEYS_def eq_ignore_ascii_case_def Let_def)

theorem get_configuration_answer_witness:
  "get_configuration_handler (with_entries (registry_new demo_config) hide) (Some [''authorizationkey'', ''Nope''])
   = get_configuration_handler (registry_new demo_config) (Some [''authorizationkey'', ''Nope''])"
  using get_configuration_answer [of "registry_new demo_config" "Some [''authorizationkey'', ''Nope'']"]
  by (simp add: demo_max_keys_entry secret_def read_only_def)

theorem set_connector_count_correct_witness:
  "rg_connector_count (set_connector_count (registry_new demo_config) 3) = 3"
  using set_connector_count_correct [OF registry_new_wf _ refl, of 3 demo_config]
  by (simp add: u32_max_def registry_new_def demo_config_def)

text \<open>
  Growing a rotation list can push it past its own length limit: three entries for connector 1 are
  admitted with two connectors (limit 3), and with three connectors the grown list has five items
  against a limit of four, so restoring its snapshot would refuse it.
\<close>

lemma rotation_limit_exceeded:
  "length (grown_items ''1.RST,1.RST,1.RST'' 3) = 5"
  by code_simp

end
