(* ===== verification/Certificates_Laws.thy ===== *)
theory Certificates_Laws
  imports Certificates
begin

text \<open>
  Laws of the certificate store: its shape under any sequence of operations, the trust anchor that
  cannot be lost while TLS is in use, and what installing, listing and deleting have to do with each
  other.
\<close>

subsection \<open>Filters on lists of roots\<close>

abbreviation central :: "stored_root \<Rightarrow> bool" where
  "central r \<equiv> sr_kind r = CentralSystemRootCertificate"

definition primary_roots :: "stored_root list \<Rightarrow> stored_root list" where
  "primary_roots rs = filter (\<lambda>r. central r \<and> \<not> sr_fallback r) rs"

text \<open>At most one fallback, a Central System root, and never without a successor.\<close>

definition roots_ok :: "stored_root list \<Rightarrow> bool" where
  "roots_ok rs =
     (length (filter sr_fallback rs) \<le> 1 \<and> list_all (\<lambda>r. sr_fallback r \<longrightarrow> central r) rs
      \<and> (list_ex sr_fallback rs \<longrightarrow> primary_roots rs \<noteq> []))"

lemma primary_roots_simps [simp]:
  "primary_roots [] = []" "primary_roots (xs @ ys) = primary_roots xs @ primary_roots ys"
  "primary_roots (r # rs) = (if central r \<and> \<not> sr_fallback r then r # primary_roots rs else primary_roots rs)"
  by (simp_all add: primary_roots_def)

lemma primary_roots_ne: "primary_roots rs \<noteq> [] \<longleftrightarrow> (\<exists>r\<in>set rs. central r \<and> \<not> sr_fallback r)"
  by (auto simp: primary_roots_def filter_empty_conv)

lemma root_pems_ne: "root_pems CentralSystemRootCertificate st \<noteq> [] \<longleftrightarrow> primary_roots (ct_roots st) \<noteq> []"
  by (simp add: root_pems_def primary_roots_def)

lemma new_root_fields [simp]:
  "sr_kind (new_root kind pem) = kind" "sr_pem (new_root kind pem) = trim pem"
  "sr_fallback (new_root kind pem) = False"
  by (simp_all add: new_root_def)

lemma enumerate_filter_index:
  assumes "k < length rs"
  shows "map snd (filter (\<lambda>(i, r). P r \<or> i = n + k) (enumerate n rs))
     = filter P (take k rs) @ rs ! k # filter P (drop (Suc k) rs)"
  using assms
proof (induction rs arbitrary: n k)
  case (Cons r rs)
  have past: "map snd (filter (\<lambda>(i, r). P r \<or> i = n) (enumerate m xs)) = filter P xs" if "n < m" for n m and xs :: "'a list"
    using that by (induction xs arbitrary: m) auto
  show ?case
  proof (cases k)
    case 0
    then show ?thesis using past [of n "Suc n" rs] by simp
  next
    case (Suc j)
    with Cons.IH [of j "Suc n"] Cons.prems show ?thesis by simp
  qed
qed simp

lemma demote_spec:
  assumes "k < length rs" and "central (rs ! k)"
  shows "demote_to_fallback k rs =
     filter (\<lambda>r. \<not> central r) (take k rs) @ (rs ! k)\<lparr>sr_fallback := True\<rparr>
       # filter (\<lambda>r. \<not> central r) (drop (Suc k) rs)"
proof -
  let ?f = "\<lambda>r. if central r then r\<lparr>sr_fallback := True\<rparr> else r"
  have "demote_to_fallback k rs
      = map ?f (map snd (filter (\<lambda>(i, r). \<not> central r \<or> i = 0 + k) (enumerate 0 rs)))"
    by (simp add: demote_to_fallback_def comp_def case_prod_beta')
  also have "\<dots> = map ?f (filter (\<lambda>r. \<not> central r) (take k rs) @ rs ! k # filter (\<lambda>r. \<not> central r) (drop (Suc k) rs))"
    by (subst enumerate_filter_index [OF assms(1)]) simp
  also have "map ?f (filter (\<lambda>r. \<not> central r) xs) = filter (\<lambda>r. \<not> central r) xs" for xs
    by (rule map_idI) auto
  ultimately show ?thesis using assms(2) by simp
qed

lemma primaries_mem:
  "k \<in> set (primaries st) \<longleftrightarrow> k < length (ct_roots st) \<and> central (ct_roots st ! k) \<and> \<not> sr_fallback (ct_roots st ! k)"
  by (force simp: primaries_def in_set_enumerate_eq image_iff)

lemma filter_split_at: "k < length rs \<Longrightarrow> filter P rs = filter P (take k rs) @ filter P [rs ! k] @ filter P (drop (Suc k) rs)"
  by (metis append_Cons append_Nil filter_append id_take_nth_drop)

subsection \<open>What installing does\<close>

text \<open>The three ways an accepted certificate changes the roots.\<close>

lemma install_cases:
  assumes "install lib kind pem now max_len check st = (st', status)"
  obtains (unchanged) "st' = st"
  | (appended) "status = Install_Accepted" "length (ct_roots st) < max_len"
      "st' = st\<lparr>ct_roots := ct_roots st @ [new_root kind pem]\<rparr>"
  | (replaced) k where "status = Install_Accepted" "k \<in> set (primaries st)" "kind = CentralSystemRootCertificate"
      "length (filter (\<lambda>r. \<not> central r) (ct_roots st)) + 2 \<le> max_len"
      "st' = st\<lparr>ct_roots := demote_to_fallback k (ct_roots st) @ [new_root kind pem]\<rparr>"
proof -
  let ?prims = "if check \<and> kind = CentralSystemRootCertificate then primaries st else []"
  have mem: "find P ?prims = Some k \<Longrightarrow> k \<in> set (primaries st) \<and> kind = CentralSystemRootCertificate" for P k
    by (auto simp: find_Some_iff split: if_splits)
  show ?thesis
    using assms mem unfolding install_def Let_def
    by (auto split: if_splits sum.splits option.splits intro: unchanged appended) (rule replaced; auto)+
qed

lemma replaced_filters:
  fixes pem :: string
  assumes "k \<in> set (primaries st)"
  defines "rs \<equiv> demote_to_fallback k (ct_roots st) @ [new_root CentralSystemRootCertificate pem]"
  shows "length rs = length (filter (\<lambda>r. \<not> central r) (ct_roots st)) + 2"
    "roots_ok (ct_roots st) \<Longrightarrow> roots_ok rs"
proof -
  have k: "k < length (ct_roots st)" "central (ct_roots st ! k)" using assms(1) by (simp_all add: primaries_mem)
  note d = demote_spec [OF k]
  note sp = filter_split_at [OF k(1), of "\<lambda>r. \<not> central r"]
  show "length rs = length (filter (\<lambda>r. \<not> central r) (ct_roots st)) + 2"
    unfolding rs_def d using sp k(2) by simp
  assume ok: "roots_ok (ct_roots st)"
  have none: "filter sr_fallback (filter (\<lambda>r. \<not> central r) xs) = []" if "set xs \<subseteq> set (ct_roots st)" for xs
    using ok that by (auto simp: roots_ok_def list_all_iff filter_empty_conv)
  have sub: "set (take k (ct_roots st)) \<subseteq> set (ct_roots st)" "set (drop (Suc k) (ct_roots st)) \<subseteq> set (ct_roots st)"
    by (auto dest: in_set_takeD in_set_dropD)
  have "length (filter sr_fallback rs) \<le> 1"
    unfolding rs_def d using none [OF sub(1)] none [OF sub(2)] by simp
  moreover have "list_all (\<lambda>r. sr_fallback r \<longrightarrow> central r) rs"
    using ok sub k(2) unfolding rs_def d by (auto simp: roots_ok_def list_all_iff)
  moreover have "primary_roots rs \<noteq> []" unfolding rs_def by simp
  ultimately show "roots_ok rs" by (simp add: roots_ok_def)
qed

lemma install_ok:
  assumes "install lib kind pem now max_len check st = (st', status)" and "roots_ok (ct_roots st)"
  shows "roots_ok (ct_roots st')"
  using assms(1)
proof (cases rule: install_cases)
  case appended
  with assms(2) show ?thesis by (auto simp: roots_ok_def)
next
  case (replaced k)
  with replaced_filters(2) [OF replaced(2) assms(2)] show ?thesis by simp
qed (use assms in simp)

lemma install_bound:
  assumes "install lib kind pem now max_len check st = (st', status)" and "length (ct_roots st) \<le> max_len"
  shows "length (ct_roots st') \<le> max_len"
  using assms(1)
proof (cases rule: install_cases)
  case (replaced k)
  with replaced_filters(1) [OF replaced(2)] show ?thesis by simp
qed (use assms in simp_all)

lemma install_trust:
  assumes "install lib kind pem now max_len check st = (st', status)"
    and "primary_roots (ct_roots st) \<noteq> []"
  shows "primary_roots (ct_roots st') \<noteq> []"
  using assms(1)
  by (cases rule: install_cases) (use assms(2) in auto)

subsection \<open>What deleting does\<close>

lemma delete_cases:
  assumes "delete_root lib wanted keep st = (st', status)"
  obtains (unchanged) "st' = st" "status \<noteq> Delete_Accepted"
  | (removed) k where "status = Delete_Accepted" "k < length (ct_roots st)"
      "is_some_and (first_cert lib (ct_roots st ! k))
         (\<lambda>c. same_hash (root_hash_data lib (ch_hash_algorithm wanted) c) wanted)"
      "\<not> (keep \<and> central (ct_roots st ! k) \<and> length (filter central (ct_roots st)) \<le> 1)"
      "st' = st\<lparr>ct_roots := (if primary_roots (remove_nth k (ct_roots st)) \<noteq> [] then remove_nth k (ct_roots st)
          else map (\<lambda>r. r\<lparr>sr_fallback := False\<rparr>) (remove_nth k (ct_roots st)))\<rparr>"
proof (cases "position (\<lambda>r. is_some_and (first_cert lib r)
    (\<lambda>c. same_hash (root_hash_data lib (ch_hash_algorithm wanted) c) wanted)) (ct_roots st)")
  case None
  with assms show ?thesis by (intro unchanged) (auto simp: delete_root_def)
next
  case (Some k)
  note k = position_SomeD [OF Some]
  let ?keep = "keep \<and> central (ct_roots st ! k) \<and> length (filter central (ct_roots st)) \<le> 1"
  show ?thesis
  proof (cases ?keep)
    case True
    with assms Some show ?thesis by (intro unchanged) (auto simp: delete_root_def)
  next
    case False
    with assms Some have r: "status = Delete_Accepted"
      "st' = st\<lparr>ct_roots := (if primary_roots (remove_nth k (ct_roots st)) \<noteq> [] then remove_nth k (ct_roots st)
          else map (\<lambda>r. r\<lparr>sr_fallback := False\<rparr>) (remove_nth k (ct_roots st)))\<rparr>"
      by (simp_all add: delete_root_def Let_def primary_roots_ne del: One_nat_def)
    show ?thesis by (rule removed [OF r(1) _ _ False r(2)]) (use k in simp_all)
  qed
qed

lemma filter_remove_nth:
  assumes "k < length rs"
  shows "filter P rs = filter P (take k rs) @ (if P (rs ! k) then [rs ! k] else []) @ filter P (drop (Suc k) rs)"
    "filter P (remove_nth k rs) = filter P (take k rs) @ filter P (drop (Suc k) rs)"
  using filter_split_at [OF assms, of P] by (simp_all add: remove_nth_def)

lemma delete_ok:
  assumes "delete_root lib wanted keep st = (st', status)" and ok: "roots_ok (ct_roots st)"
  shows "roots_ok (ct_roots st')"
  using assms(1)
proof (cases rule: delete_cases)
  case (removed k)
  let ?rs = "remove_nth k (ct_roots st)"
  have "length (filter sr_fallback ?rs) \<le> 1" "list_all (\<lambda>r. sr_fallback r \<longrightarrow> central r) ?rs"
    using ok filter_remove_nth [OF removed(2), of sr_fallback] set_remove_nth_subset [of k "ct_roots st"]
    by (auto simp: roots_ok_def list_all_iff)
  then show ?thesis
    using removed(5) by (auto simp: roots_ok_def list_all_iff filter_empty_conv list_ex_iff filter_map comp_def)
qed (use ok in simp)

lemma delete_length:
  assumes "delete_root lib wanted keep st = (st', status)"
  shows "length (ct_roots st') = length (ct_roots st) - (if status = Delete_Accepted then 1 else 0)"
  using assms
proof (cases rule: delete_cases)
  case (removed k)
  then show ?thesis by (simp add: length_remove_nth)
qed simp

text \<open>With TLS in use the last root that a connection could be verified against stays.\<close>

lemma delete_trust:
  assumes "delete_root lib wanted True st = (st', status)"
    and ok: "roots_ok (ct_roots st)" and p: "primary_roots (ct_roots st) \<noteq> []"
  shows "primary_roots (ct_roots st') \<noteq> []"
  using assms(1)
proof (cases rule: delete_cases)
  case (removed k)
  let ?rs = "remove_nth k (ct_roots st)"
  show ?thesis
  proof (cases "primary_roots ?rs = []")
    case True
    have "filter central ?rs \<noteq> []"
    proof (cases "central (ct_roots st ! k)")
      case True
      with removed(4) have "1 < length (filter central (ct_roots st))" by simp
      then show ?thesis using filter_remove_nth [OF removed(2), of central] True by (auto split: if_splits)
    next
      case False
      from p obtain r where "r \<in> set (ct_roots st)" "central r" by (auto simp: primary_roots_ne)
      then have "filter central (ct_roots st) \<noteq> []" by (auto simp: filter_empty_conv)
      then show ?thesis using filter_remove_nth [OF removed(2), of central] False by simp
    qed
    then obtain r where "r \<in> set ?rs" "central r" by (auto simp: filter_empty_conv)
    then show ?thesis using True removed(5) by (auto simp: primary_roots_ne)
  qed (simp add: removed(5))
qed (use p in simp)

lemma drop_fallback_spec:
  "roots_ok (ct_roots st) \<Longrightarrow> roots_ok (ct_roots (fst (drop_fallback st)))"
  "primary_roots (ct_roots (fst (drop_fallback st))) = primary_roots (ct_roots st)"
  "length (ct_roots (fst (drop_fallback st))) \<le> length (ct_roots st)"
  "\<not> has_fallback (fst (drop_fallback st))"
proof -
  show "primary_roots (ct_roots (fst (drop_fallback st))) = primary_roots (ct_roots st)"
    by (auto simp: drop_fallback_def Let_def primary_roots_def intro: filter_cong)
qed (auto simp: drop_fallback_def Let_def roots_ok_def list_all_iff list_ex_iff has_fallback_def)

subsection \<open>Any sequence of operations\<close>

text \<open>
  What changes the roots: \<open>InstallCertificate\<close> and \<open>DeleteCertificate\<close> of the central system, the
  latter with \<open>SecurityProfile\<close> 2 or 3, and a connection verified against a new root.
\<close>

datatype cert_op =
  Op_Install certificate_use string instant bool
| Op_Delete certificate_hash_data
| Op_Connected

fun cert_step :: "cert_lib \<Rightarrow> nat \<Rightarrow> cert_store \<Rightarrow> cert_op \<Rightarrow> cert_store" where
  "cert_step lib max_len st (Op_Install kind pem now check) = fst (install lib kind pem now max_len check st)"
| "cert_step lib max_len st (Op_Delete wanted) = fst (delete_root lib wanted True st)"
| "cert_step lib max_len st Op_Connected = fst (drop_fallback st)"

lemma cert_step_ok:
  assumes "roots_ok (ct_roots st)" "length (ct_roots st) \<le> max_len" "primary_roots (ct_roots st) \<noteq> []"
  shows "roots_ok (ct_roots (cert_step lib max_len st op))
    \<and> length (ct_roots (cert_step lib max_len st op)) \<le> max_len
    \<and> primary_roots (ct_roots (cert_step lib max_len st op)) \<noteq> []"
proof (cases op)
  case (Op_Install kind pem now check)
  obtain st' status where i: "install lib kind pem now max_len check st = (st', status)" by force
  show ?thesis
    using install_ok [OF i assms(1)] install_bound [OF i assms(2)] install_trust [OF i assms(3)]
    by (simp add: Op_Install i)
next
  case (Op_Delete wanted)
  obtain st' status where d: "delete_root lib wanted True st = (st', status)" by force
  show ?thesis
    using delete_ok [OF d assms(1)] delete_length [OF d] delete_trust [OF d assms(1,3)] assms(2)
    by (simp add: Op_Delete d)
next
  case Op_Connected
  then show ?thesis
    using drop_fallback_spec(1,3) [of st] assms by (simp add: drop_fallback_spec(2) del: One_nat_def)
qed

text \<open>C38: a station that uses TLS cannot lose its trust anchors.  From a store with at least one
  Central System root in use, any sequence of certificate commands and connections leaves one in use,
  keeps the store within its bound, and keeps at most one superseded root, never without its
  successor.\<close>

theorem trust_anchor_kept:
  assumes "roots_ok (ct_roots st)" and "length (ct_roots st) \<le> max_len"
    and "root_pems CentralSystemRootCertificate st \<noteq> []"
  shows "let st' = foldl (cert_step lib max_len) st ops in
    root_pems CentralSystemRootCertificate st' \<noteq> [] \<and> length (ct_roots st') \<le> max_len
    \<and> length (fallback_pems st') \<le> 1 \<and> roots_ok (ct_roots st')"
proof -
  have "roots_ok (ct_roots (foldl (cert_step lib max_len) st ops))
      \<and> length (ct_roots (foldl (cert_step lib max_len) st ops)) \<le> max_len
      \<and> primary_roots (ct_roots (foldl (cert_step lib max_len) st ops)) \<noteq> []"
    using assms unfolding root_pems_ne
  proof (induction ops arbitrary: st)
    case (Cons op ops)
    from cert_step_ok [OF Cons.prems, of lib op] show ?case by (simp add: Cons.IH)
  qed simp
  then show ?thesis by (simp add: Let_def root_pems_ne fallback_pems_def roots_ok_def)
qed

text \<open>A library whose certificates are their own text: \<open>X/Y\<close> is X signed by Y.\<close>

definition demo_cert_lib :: cert_lib where
  "demo_cert_lib =
     \<lparr>cl_pem_items = (\<lambda>pem. [Inr (trim pem)]),
      cl_from_der = (\<lambda>der. Inr ([], \<lparr>xc_subject = take 1 der, xc_raw_serial = take 1 der,
        xc_not_before = 0, xc_not_after = 1000, xc_subject_raw = take 1 der, xc_issuer_raw = drop 2 der,
        xc_subject_public_key = take 1 der, xc_spki_raw = take 1 der\<rparr>)),
      cl_verify = (\<lambda>der key. unwrap_or key (take 1 der) = drop 2 der),
      cl_digest = (\<lambda>_ bs. bs), cl_key_info = (\<lambda>k. Inr k)\<rparr>"

definition demo_store :: cert_store where
  "demo_store = fst (install demo_cert_lib CentralSystemRootCertificate ''A/A'' 0 2 True cert_store_default)"

text \<open>The successor of A is signed by A; then both deletions that would remove the last root fail.\<close>

definition demo_cert_ops :: "cert_op list" where
  "demo_cert_ops =
     [Op_Install CentralSystemRootCertificate ''B/A'' 0 True, Op_Connected,
      Op_Delete \<lparr>ch_hash_algorithm = Sha256, ch_issuer_name_hash = ''42'', ch_issuer_key_hash = ''42'',
        ch_serial_number = ''42''\<rparr>]"

theorem trust_anchor_kept_witness:
  "root_pems CentralSystemRootCertificate (foldl (cert_step demo_cert_lib 2) demo_store demo_cert_ops) \<noteq> []
   \<and> ct_roots (foldl (cert_step demo_cert_lib 2) demo_store demo_cert_ops)
     = [\<lparr>sr_kind = CentralSystemRootCertificate, sr_pem = ''B/A'', sr_fallback = False\<rparr>]"
proof -
  have "roots_ok (ct_roots demo_store)" "length (ct_roots demo_store) \<le> 2"
    "root_pems CentralSystemRootCertificate demo_store \<noteq> []" by code_simp+
  from trust_anchor_kept [OF this, of demo_cert_lib demo_cert_ops]
  show ?thesis by (simp add: Let_def) code_simp
qed

subsection \<open>Installing, listing, deleting\<close>

lemma same_hash_refl [simp]: "same_hash h h"
  by (simp add: same_hash_def eq_ignore_ascii_case_def)

lemma same_hash_sym: "same_hash a b \<Longrightarrow> same_hash b a"
  by (simp add: same_hash_def eq_ignore_ascii_case_def)

lemma parsed_roots_append:
  "parsed_roots lib (st\<lparr>ct_roots := xs @ ys\<rparr>)
     = parsed_roots lib (st\<lparr>ct_roots := xs\<rparr>) @ parsed_roots lib (st\<lparr>ct_roots := ys\<rparr>)"
  by (simp add: parsed_roots_def map_filter_def)

text \<open>C39: what an accepted InstallCertificate promises and what a refused one leaves.  A refused
  certificate changes nothing; an accepted one is listed by GetInstalledCertificateIds under its own
  hash, and one that is listed already is accepted without using space.\<close>

theorem install_listed:
  assumes "cl_pem_items lib (trim pem) = cl_pem_items lib pem"
    and "install lib kind pem now max_len check st = (st', status)"
  shows "(status \<noteq> Install_Accepted \<longrightarrow> st' = st)
    \<and> (status = Install_Accepted \<longrightarrow>
        (\<exists>cert. parse_pem_chain lib pem = Inr [cert] \<and> valid_at cert now
           \<and> list_ex (\<lambda>h. same_hash h (root_hash_data lib Sha256 cert)) (installed_ids lib kind st')
           \<and> (list_ex (\<lambda>h. same_hash h (root_hash_data lib Sha256 cert)) (installed_ids lib kind st) \<longrightarrow> st' = st)))"
proof -
  have listed: "list_ex (\<lambda>h. same_hash h new) (installed_ids lib kind s)
      = (\<exists>(k, c)\<in>set (parsed_roots lib s). k = kind \<and> same_hash (root_hash_data lib Sha256 c) new)" for s new
    by (auto simp: installed_ids_def list_ex_iff)
  have fresh: "parsed_roots lib (st\<lparr>ct_roots := [new_root kind pem]\<rparr>) = [(kind, cert)]"
    if "parse_pem_chain lib pem = Inr [cert]" for cert
    using that assms(1) by (simp add: parsed_roots_def map_filter_def root_cert_def parse_pem_chain_def)
  have one: "parsed = [hd parsed]" if "length parsed = 1" for parsed :: "parsed_cert list"
    using that by (cases parsed) auto
  have suffix: "(kind, cert) \<in> set (parsed_roots lib (st\<lparr>ct_roots := xs @ [new_root kind pem]\<rparr>))"
    if "parse_pem_chain lib pem = Inr [cert]" for cert xs
    using fresh [OF that] by (simp add: parsed_roots_append)
  show ?thesis
  proof (cases "status = Install_Accepted")
    case False
    with assms(2) show ?thesis
      unfolding install_def Let_def by (auto split: if_splits sum.splits option.splits)
  next
    case acc: True
    then obtain cert where c: "parse_pem_chain lib pem = Inr [cert]" "valid_at cert now"
      using assms(2) one unfolding install_def Let_def by (fastforce split: if_splits sum.splits)
    let ?present = "\<exists>(k, c)\<in>set (parsed_roots lib st). k = kind
      \<and> same_hash (root_hash_data lib Sha256 c) (root_hash_data lib Sha256 cert)"
    show ?thesis
    proof (cases ?present)
      case True
      then have "st' = st" using assms(2) c acc unfolding install_def Let_def by (auto split: if_splits)
      with True c acc show ?thesis unfolding listed by blast
    next
      case False
      then obtain xs where "st' = st\<lparr>ct_roots := xs @ [new_root kind pem]\<rparr>"
        using assms(2) c acc unfolding install_def Let_def
        by (auto split: if_splits option.splits)
      with suffix [OF c(1), of xs] have "(kind, cert) \<in> set (parsed_roots lib st')" by simp
      then have "\<exists>(k, c)\<in>set (parsed_roots lib st'). k = kind
        \<and> same_hash (root_hash_data lib Sha256 c) (root_hash_data lib Sha256 cert)" by force
      with False c acc show ?thesis unfolding listed by blast
    qed
  qed
qed

theorem install_listed_witness:
  "list_ex (\<lambda>h. same_hash h \<lparr>ch_hash_algorithm = Sha256, ch_issuer_name_hash = ''42'',
        ch_issuer_key_hash = ''42'', ch_serial_number = ''42''\<rparr>)
     (installed_ids demo_cert_lib CentralSystemRootCertificate
        (fst (install demo_cert_lib CentralSystemRootCertificate ''B/A'' 0 2 True demo_store)))"
proof -
  let ?r = "install demo_cert_lib CentralSystemRootCertificate ''B/A'' 0 2 True demo_store"
  let ?c = "\<lparr>px_der = ''B/A'', px_subject = ''B'', px_serial = ''42'', px_not_before = 0, px_not_after = 1000,
    px_subject_raw = ''B'', px_issuer_raw = ''A'', px_key_bits = ''B'', px_spki_der = ''B'', px_self_signed = False\<rparr>"
  have "cl_pem_items demo_cert_lib (trim ''B/A'') = cl_pem_items demo_cert_lib ''B/A''"
    by (simp add: demo_cert_lib_def)
  note l = install_listed [OF this prod.collapse [symmetric, of ?r]]
  have p: "parse_pem_chain demo_cert_lib ''B/A'' = Inr [?c]" by code_simp
  have "snd ?r = Install_Accepted" by code_simp
  with l p have "list_ex (\<lambda>h. same_hash h (root_hash_data demo_cert_lib Sha256 ?c))
      (installed_ids demo_cert_lib CentralSystemRootCertificate (fst ?r))" by simp
  moreover have "root_hash_data demo_cert_lib Sha256 ?c = \<lparr>ch_hash_algorithm = Sha256,
      ch_issuer_name_hash = ''42'', ch_issuer_key_hash = ''42'', ch_serial_number = ''42''\<rparr>" by code_simp
  ultimately show ?thesis by simp
qed

end
