(* ===== verification/Station_Props.thy ===== *)
theory Station_Props
  imports Sync_Serial Config_Laws Certificates_Laws
begin

text \<open>
  What the actor guarantees as a whole: the properties of every reachable state that rest on the
  invariants of theories \<open>Recovery\<close>, \<open>Gate\<close> and \<open>Sync_Serial\<close>, the refusals of a stop, and the
  bound on the attempts of a CALL.  The predicates of the statements are executable and speak
  about the state only.
\<close>

subsection \<open>A station for the examples\<close>

definition demo_lib :: time_lib where
  "demo_lib = \<lparr>tl_add_ms = (\<lambda>t d. Some (t + d * ns_per_ms)), tl_add_std = (\<lambda>t d. Some (t + int d)),
     tl_secs_f64 = (\<lambda>d. f_zero), tl_stamp = (\<lambda>t. show_int t),
     tl_url = (\<lambda>url. if url = [] then None else Some (''ws'', False)),
     tl_url_password = (\<lambda>url. if url = [] then None else Some False),
     tl_url_login = (\<lambda>url user key. user @ '':'' @ key @ ''@'' @ url),
     tl_generate_csr = (\<lambda>t n name org. Inr (''CSR '' @ name, ''KEY '' @ show_nat n)),
     tl_cert = demo_cert_lib\<rparr>"

definition demo_start :: station where
  "demo_start = start_station demo_lib demo_config
     \<lparr>el_nominal_power_w = 11000, el_voltage_v = 230, el_phases = 3\<rparr>
     \<lparr>rc_enabled = True, rc_initial_delay_ms = 1000, rc_max_delay_ms = 60000, rc_max_attempts = 0\<rparr>
     (5 * ns_per_s) 7 True None None"

lemma demo_reachable: "reachable demo_start"
  unfolding demo_start_def by (rule reachable.first_start)

lemma demo_calm:
  "calm (new_station demo_lib demo_config \<lparr>el_nominal_power_w = 11000, el_voltage_v = 230, el_phases = 3\<rparr>
     \<lparr>rc_enabled = True, rc_initial_delay_ms = 1000, rc_max_delay_ms = 60000, rc_max_attempts = 0\<rparr>
     (5 * ns_per_s) 7 True None None) demo_start"
  unfolding demo_start_def by (rule calm_start)

lemma demo_view: "tx_view demo_start = [(1, Idle)]" "s_queue demo_start = []"
  using demo_calm
  by (simp_all add: calm_def tx_view_def new_station_def Let_def initial_station_def
      initial_connectors_def demo_config_def new_connector_def)

lemma demo_connectors:
  "length (s_connectors demo_start) = 1" "hd (s_connectors demo_start) \<in> set (s_connectors demo_start)"
  "c_id (hd (s_connectors demo_start)) = 1" "c_transaction (hd (s_connectors demo_start)) = Idle"
proof -
  have "length (tx_view demo_start) = 1" by (simp add: demo_view)
  then show l: "length (s_connectors demo_start) = 1" by (simp add: tx_view_def)
  then obtain c where c: "s_connectors demo_start = [c]" by (auto simp: length_Suc_conv)
  then show "hd (s_connectors demo_start) \<in> set (s_connectors demo_start)" by simp
  show "c_id (hd (s_connectors demo_start)) = 1" "c_transaction (hd (s_connectors demo_start)) = Idle"
    using demo_view(1) c by (simp_all add: tx_view_def)
qed

subsection \<open>Every transaction is accounted for\<close>

definition in_flight :: "(cont \<Rightarrow> bool) \<Rightarrow> station \<Rightarrow> bool" where
  "in_flight P s = list_ex (\<lambda>(_, pc). P (pc_cont pc)) (s_calls s)"

definition waiting_start :: "station \<Rightarrow> connector_id \<Rightarrow> u64 \<Rightarrow> bool" where
  "waiting_start s i key =
     list_ex (\<lambda>e. ox_key e = key \<and> ox_connector e = i \<and> ox_start_pending e) (s_queue s)"

definition lost_start :: "station \<Rightarrow> connector_id \<Rightarrow> u64 \<Rightarrow> bool" where
  "lost_start s i key =
     list_ex (\<lambda>e. case e of Dropped d \<Rightarrow> ox_key d = key \<and> ox_connector d = i \<and> ox_start_pending d
                 | _ \<Rightarrow> False) (s_out s)"

fun accounted :: "station \<Rightarrow> connector_id \<Rightarrow> transaction_state \<Rightarrow> bool" where
  "accounted s i Idle = True"
| "accounted s i (Active a) = (\<not> is_local (at_tx_id a))"
| "accounted s i (Stopping x) = (\<not> is_local (st_tx_id x) \<and> in_flight (stops i (st_tx_id x)) s)"
| "accounted s i (PendingStart p) =
     (case ps_tx_id p of
        Csms _ \<Rightarrow> False
      | Local key \<Rightarrow> in_flight (starts i (Local key)) s \<or> waiting_start s i key \<or> lost_start s i key)"

lemma in_flight_iff: "in_flight P s = (\<exists>k\<in>flight [] s. P k)"
  by (force simp: in_flight_def flight_def conts_def list_ex_iff)

lemma waiting_start_iff: "waiting_start s i key = queued_start s i key"
  by (auto simp: waiting_start_def queued_start_def list_ex_iff)

lemma lost_start_iff: "lost_start s i key = dropped_start s i key"
proof -
  have "(\<exists>e\<in>A. case e of Dropped d \<Rightarrow> ox_key d = key \<and> ox_connector d = i \<and> ox_start_pending d | _ \<Rightarrow> False)
      = (\<exists>d. Dropped d \<in> A \<and> ox_key d = key \<and> ox_connector d = i \<and> ox_start_pending d)" for A
  proof
    assume "\<exists>e\<in>A. case e of Dropped d \<Rightarrow> ox_key d = key \<and> ox_connector d = i \<and> ox_start_pending d | _ \<Rightarrow> False"
    then obtain e where e: "e \<in> A"
      "case e of Dropped d \<Rightarrow> ox_key d = key \<and> ox_connector d = i \<and> ox_start_pending d | _ \<Rightarrow> False" by blast
    then show "\<exists>d. Dropped d \<in> A \<and> ox_key d = key \<and> ox_connector d = i \<and> ox_start_pending d"
      by (cases e) auto
  qed (force split: effect.split)
  then show ?thesis by (simp add: lost_start_def dropped_start_def list_ex_iff)
qed

lemma accounted_iff: "accounted s i t = tx_ok [] s i t"
  by (cases t) (auto simp: in_flight_iff waiting_start_iff lost_start_iff split: tx_id.split)

text \<open>
  C1: no transaction gets stuck.  In every state the station reaches, through any sequence of
  commands, requests, answers, timers, link failures, crashes and restarts, a connector that is
  stopping has its StopTransaction in flight, an active one has an id of the central system, and a
  start without such an id is in flight, in the offline queue, or was reported as dropped from it.
\<close>

theorem no_stuck_transaction:
  assumes "reachable s"
  shows "list_all (\<lambda>c. accounted s (c_id c) (c_transaction c)) (s_connectors s)"
  unfolding accounted_iff list_all_iff by (intro ballI InvD(3) [OF reachable_Inv [OF assms]])

text \<open>A run: a start requested offline, a connection, its boot, a crash of the link.\<close>

definition demo_run :: station where
  "demo_run =
     turn (9 * ns_per_s) 11 (Link_Closed None)
       (turn (8 * ns_per_s) 10 (Call_Done 0 1 (Inr (Res_Boot Reg_Accepted (8 * ns_per_s) 60)))
         (turn (7 * ns_per_s) 9 (Connect_Result 1 None)
           (turn (6 * ns_per_s) 8 (Command 2 Cmd_Connect)
             (turn (6 * ns_per_s) 8 (Command 1 (Cmd_StartTransaction 1 ''TAG'')) demo_start))))"

lemma demo_run_reachable: "reachable demo_run"
  unfolding demo_run_def by (intro reachable.turn demo_reachable)

theorem no_stuck_transaction_witness:
  "list_all (\<lambda>c. accounted demo_run (c_id c) (c_transaction c)) (s_connectors demo_run)"
  by (rule no_stuck_transaction [OF demo_run_reachable])

subsection \<open>When the connection is gone\<close>

fun settled_offline :: "station \<Rightarrow> connector_id \<Rightarrow> transaction_state \<Rightarrow> bool" where
  "settled_offline s i (Stopping x) = False"
| "settled_offline s i (PendingStart p) =
     (case ps_tx_id p of
        Csms _ \<Rightarrow> False | Local key \<Rightarrow> waiting_start s i key \<or> lost_start s i key)"
| "settled_offline s i t = accounted s i t"

lemma flight_none: "s_calls s = [] \<Longrightarrow> in_flight P s = False"
  by (simp add: in_flight_def)

lemma settled_offline_iff: "s_calls s = [] \<Longrightarrow> settled_offline s i t = accounted s i t"
  by (cases t) (auto simp: flight_none split: tx_id.split)

text \<open>
  C5: a lost connection settles everything.  After \<open>link_down\<close> no CALL is in flight, no sync is
  running, the station may not talk, no connector is left stopping, and every start without an id
  is in the offline queue or was reported as dropped: nothing waits for an answer that cannot come.
\<close>

theorem link_down_settles:
  assumes "reachable s"
  shows "s_calls (link_down code s) = [] \<and> s_sync_outstanding (link_down code s) = 0
    \<and> s_sync_keys (link_down code s) = [] \<and> \<not> can_talk (link_down code s)
    \<and> list_all (\<lambda>c. settled_offline (link_down code s) (c_id c) (c_transaction c))
         (s_connectors (link_down code s))"
proof -
  have "Inv [] (link_down code s)" by (intro Inv_link_down reachable_Inv assms)
  note ok = InvD(3) [OF this, folded accounted_iff]
  show ?thesis
    using link_down_empty [of code s] ok by (simp add: sync_idle_def settled_offline_iff list_all_iff)
qed

theorem link_down_settles_witness:
  "s_calls (link_down (Some 1006) demo_run) = []
   \<and> list_all (\<lambda>c. settled_offline (link_down (Some 1006) demo_run) (c_id c) (c_transaction c))
        (s_connectors (link_down (Some 1006) demo_run))"
  using link_down_settles [OF demo_run_reachable] by blast

subsection \<open>The shape of the state\<close>

text \<open>
  C9: the state stays well formed.  The connectors are numbered from 1 without a gap, the offline
  queue keeps its bound and its keys are distinct, an entry whose start is pending carries its own
  key as local id and any other one an id of the central system, no key is above the counter of
  local ids, and every CALL in flight has a token of its own below the next one.
\<close>

theorem station_well_formed:
  assumes "reachable s"
  shows "map c_id (s_connectors s) = [1..<Suc (length (s_connectors s))]
    \<and> length (s_queue s) \<le> 1000 \<and> distinct (map ox_key (s_queue s))
    \<and> list_all (\<lambda>e. ox_key e \<le> s_next_local s
         \<and> (if ox_start_pending e then ox_tx_id e = Local (ox_key e) else \<not> is_local (ox_tx_id e)))
        (s_queue s)
    \<and> sorted_wrt (<) (map fst (s_calls s))
    \<and> list_all (\<lambda>t. t < s_next_call_token s) (map fst (s_calls s))"
proof -
  note inv = reachable_Inv [OF assms]
  show ?thesis
    using InvD(1,2,5) [OF inv]
    by (auto simp: ids_ok_def queue_ok_def queue_wf_def oq_keys_def tokens_ok_def entry_wf_def
        MAX_QUEUED_TRANSACTIONS_def list_all_iff simp del: upt_Suc)
qed

theorem station_well_formed_witness:
  "map c_id (s_connectors demo_run) = [1..<Suc (length (s_connectors demo_run))]
   \<and> length (s_queue demo_run) \<le> 1000"
  using station_well_formed [OF demo_run_reachable] by blast

text \<open>
  C3: one queued message at a time, and no wedge.  While the offline queue is being delivered
  exactly one of its messages is in flight and the counter is one more than the keys that wait; when
  no message is in flight the sync is over, so the next one can start.
\<close>

theorem sync_single_flight:
  assumes "reachable s"
  shows "s_sync_outstanding s
      = (if in_flight is_sync s then Suc (length (s_sync_keys s)) else 0)
    \<and> length (filter (\<lambda>(_, pc). is_sync (pc_cont pc)) (s_calls s)) \<le> 1
    \<and> (s_sync_outstanding s = 0 \<longrightarrow> s_sync_keys s = [])"
proof -
  have eq: "syncs [] s = length (filter (\<lambda>(_, pc). is_sync (pc_cont pc)) (s_calls s))"
    by (simp add: syncs_def conts_def filter_map comp_def case_prod_beta')
  have "in_flight is_sync s = (syncs [] s \<noteq> 0)"
    unfolding eq in_flight_def by (auto simp: list_ex_iff filter_empty_conv)
  with reachable_serial [OF assms] eq show ?thesis
    by (auto simp: serial_def split: if_splits)
qed

theorem sync_single_flight_witness:
  "s_sync_outstanding demo_run = (if in_flight is_sync demo_run then Suc (length (s_sync_keys demo_run)) else 0)"
  by (rule sync_single_flight [OF demo_run_reachable, THEN conjunct1])

definition unregistered_sends_only_boot :: "effect list \<Rightarrow> bool" where
  "unregistered_sends_only_boot =
     list_all (\<lambda>e. case e of
         Sent _ rq \<Rightarrow> action_name rq = ''BootNotification'' | Sent_Raw _ _ _ _ \<Rightarrow> False | _ \<Rightarrow> True)"

text \<open>
  The wake-ups that may send more: an accepted boot answer, a trigger of the central system once the
  registration is pending, a raw CALL of the user, and a connection that finds an accepted registration.
\<close>

fun may_send_more :: "station \<Rightarrow> wake \<Rightarrow> bool" where
  "may_send_more s (Call_Done token gen (Inr (Res_Boot status t interval))) = (status = Reg_Accepted)"
| "may_send_more s (Inbound r (In_TriggerMessage m c)) = (s_registration s \<in> {Some Reg_Accepted, Some Reg_Pending})"
| "may_send_more s (Inbound r (In_ExtendedTriggerMessage m c)) =
     (s_registration s \<in> {Some Reg_Accepted, Some Reg_Pending})"
| "may_send_more s (Command r (Cmd_SendRaw action payload validate)) = True"
| "may_send_more s (Connect_Result gen None) = (s_registration s = Some Reg_Accepted)"
| "may_send_more s _ = False"

lemma opens_gate_may: "opens_gate s w \<Longrightarrow> may_send_more s w"
proof (cases w)
  case (Call_Done token gen res)
  moreover assume "opens_gate s w"
  ultimately show ?thesis by (auto simp: accepts_boot_def split: sum.splits response.splits)
next
  case (Inbound r q)
  moreover assume "opens_gate s w"
  ultimately show ?thesis by (cases q) (auto simp: triggering_def may_trigger_def)
qed (auto split: command.splits)


lemma start_silent: "\<not> can_talk (start_station lib config el rc now ticks store kept saved)"
proof -
  let ?t = "new_station lib config el rc now ticks store kept saved"
  have "muted ?t (start_station lib config el rc now ticks store kept saved)"
    unfolding start_station_def after_restore_def Let_def
    by (intro quiet_muteds muted_foldl muted_arm_reservation muted_release_expired muted_refl)
  moreover have "\<not> can_talk ?t"
    by (simp add: can_talk_def new_station_def Let_def initial_station_def restore_station_def
        split: option.split prod.split)
  ultimately show ?thesis by (rule muted_silent)
qed

lemma demo_silent: "\<not> can_talk demo_start"
  unfolding demo_start_def by (rule start_silent)


subsection \<open>Crashes\<close>



subsection \<open>Attempts of a CALL\<close>

text \<open>
  C8: a CALL terminates.  With one outcome per permitted attempt the task returns, after at most
  that many attempts (one when none are configured); it reports the outcome of its last attempt,
  every attempt before it failed with an error worth retrying, and it gave up early only on an
  answer or an error that is not.
\<close>

theorem call_task_terminates:
  assumes "1 \<le> length outcomes" and "attempts \<le> length outcomes"
  shows "case call_task 1 attempts outcomes of
      None \<Rightarrow> False
    | Some (n, res) \<Rightarrow> 1 \<le> n \<and> n \<le> max attempts 1 \<and> res = outcomes ! (n - 1)
        \<and> list_all (\<lambda>x. case x of Inl e \<Rightarrow> retryable e | Inr _ \<Rightarrow> False) (take (n - 1) outcomes)
        \<and> (n = max attempts 1 \<or> (case res of Inl e \<Rightarrow> \<not> retryable e | Inr _ \<Rightarrow> True))"
proof -
  have gen: "\<exists>n res. call_task a attempts outcomes = Some (n, res) \<and> a \<le> n \<and> n \<le> max attempts a
      \<and> res = outcomes ! (n - a)
      \<and> list_all (\<lambda>x. case x of Inl e \<Rightarrow> retryable e | Inr _ \<Rightarrow> False) (take (n - a) outcomes)
      \<and> (n = max attempts a \<or> (case res of Inl e \<Rightarrow> \<not> retryable e | Inr _ \<Rightarrow> True))"
    if "1 \<le> length outcomes" "attempts < a + length outcomes" for a
    using that
  proof (induction outcomes arbitrary: a)
    case (Cons x xs)
    show ?case
    proof (cases "\<exists>e. x = Inl e \<and> a < attempts \<and> retryable e")
      case True
      then obtain e where e: "x = Inl e" "a < attempts" "retryable e" by blast
      with Cons.prems have "1 \<le> length xs" "attempts < Suc a + length xs" by auto
      from Cons.IH [OF this] obtain n res where "call_task (Suc a) attempts xs = Some (n, res)"
        "Suc a \<le> n" "n \<le> max attempts (Suc a)" "res = xs ! (n - Suc a)"
        "list_all (\<lambda>x. case x of Inl e \<Rightarrow> retryable e | Inr _ \<Rightarrow> False) (take (n - Suc a) xs)"
        "n = max attempts (Suc a) \<or> (case res of Inl e \<Rightarrow> \<not> retryable e | Inr _ \<Rightarrow> True)" by blast
      with e show ?thesis
        by (intro exI [of _ n] exI [of _ res])
           (auto simp: nth_Cons take_Cons split: nat.split nat_diff_split)
    next
      case False
      then have "call_task a attempts (x # xs) = Some (a, x)" by (auto split: sum.split)
      with False show ?thesis by (auto split: sum.split)
    qed
  qed simp
  from gen [of 1] assms show ?thesis by fastforce
qed

theorem call_task_terminates_witness:
  "call_task 1 3 [Inl Timeout, Inl Timeout, Inr (Res_Stop None)] = Some (3, Inr (Res_Stop None))"
  using call_task_terminates [of "[Inl Timeout, Inl Timeout, Inr (Res_Stop None)]" 3]
  by (auto split: option.splits)

subsection \<open>Stops that are refused\<close>

lemma settle_out [simp]: "s_out (settle_meters s) = s_out s" "s_calls (settle_meters s) = s_calls s"
proof -
  have "s_out (foldl settle_one s xs) = s_out s \<and> s_calls (foldl settle_one s xs) = s_calls s" for xs
    by (induction xs arbitrary: s)
       (auto simp: settle_one_def Let_def split: prod.split option.split)
  then show "s_out (settle_meters s) = s_out s" "s_calls (settle_meters s) = s_calls s"
    by (simp_all add: settle_meters_def)
qed

lemma flush_out [simp]: "s_out (flush_meters s) = s_out s" "s_calls (flush_meters s) = s_calls s"
  by (simp_all add: flush_meters_def Let_def mark_dirty_def timer_set_if_idle_def timer_set_def
      split: prod.split)

definition stop_refusal :: "station \<Rightarrow> connector_id \<Rightarrow> station_error option" where
  "stop_refusal s i =
     (case (if i = 0 then None else find (\<lambda>(j, _). j = i) (tx_view s)) of
        None \<Rightarrow> Some (Err_UnknownConnector i)
      | Some (_, tx) \<Rightarrow>
          map_option (\<lambda>why. InvalidState (Some i) (''connector '' @ show_nat i @ '': '' @ why))
            (case tx of
               Idle \<Rightarrow> Some ''has no transaction''
             | Stopping _ \<Rightarrow> Some ''transaction is already stopping''
             | PendingStart p \<Rightarrow>
                 if list_ex (\<lambda>e. ox_tx_id e = ps_tx_id p) (s_queue s) then None
                 else Some ''transaction start is still in progress''
             | Active _ \<Rightarrow> None))"

lemma find_view:
  "find (\<lambda>(j, _). j = i) (map (\<lambda>c. (c_id c, c_transaction c)) cs)
     = map_option (\<lambda>c. (c_id c, c_transaction c)) (find (\<lambda>c. c_id c = i) cs)"
  by (induction cs) auto

lemma stop_refusalD:
  assumes "stop_refusal s i = Some e"
  shows "physical_connector s i = Inl e \<and> e = Err_UnknownConnector i
    \<or> (\<exists>c why. physical_connector s i = Inr c \<and> stoppable s c = Inl why \<and> e = invalid i why)"
proof (cases "i = 0")
  case True
  with assms show ?thesis by (simp add: stop_refusal_def physical_connector_def is_station_def find_None_iff)
next
  case False
  show ?thesis
  proof (cases "find (\<lambda>c. c_id c = i) (s_connectors s)")
    case None
    with False assms show ?thesis
      by (simp add: stop_refusal_def tx_view_def find_view physical_connector_def find_connector_def is_station_def)
  next
    case (Some c)
    have "list_ex (\<lambda>e. ox_tx_id e = x) (s_queue s) = (\<exists>e\<in>set (s_queue s). ox_tx_id e = x)" for x
      by (simp add: list_ex_iff)
    with Some False assms show ?thesis
      by (auto simp: stop_refusal_def tx_view_def find_view physical_connector_def find_connector_def
          is_station_def stoppable_def invalid_def split: transaction_state.splits if_splits)
  qed
qed

text \<open>
  C7: the refusals of a stop.  Stopping a connector the station does not have, one without a
  transaction, one that is already stopping, or one whose start is neither acknowledged nor in the
  offline queue answers with exactly that error and touches nothing else: no CALL, no queue entry,
  no transaction.
\<close>

theorem stop_refused:
  assumes "stop_refusal s i = Some e"
  shows "let s' = stop_transaction i reason tag (Reply_To r) s in
    s_out s' = s_out s @ [Answer r (Inl e)] \<and> s_calls s' = s_calls s \<and> s_queue s' = s_queue s
    \<and> tx_view s' = tx_view s"
proof -
  let ?u = "flush_meters s"
  have q: "quiet s ?u" by (rule quiets)
  have view: "tx_view ?u = tx_view s" "s_queue ?u = s_queue s"
    using quiet_calm [OF q] by (simp_all add: calm_def)
  have "stop_refusal ?u i = stop_refusal s i" unfolding stop_refusal_def view ..
  with assms have "stop_refusal ?u i = Some e" by simp
  from stop_refusalD [OF this] have "stop_transaction i reason tag (Reply_To r) s = answer r (Inl e) ?u"
    by (auto simp: stop_transaction_def Let_def)
  then show ?thesis by (simp add: answer_def emit_def view tx_view_def [of "_\<lparr>s_out := _\<rparr>"] flip: tx_view_def)
qed

theorem stop_refused_witness:
  "s_out (stop_transaction 1 Stop_Local None (Reply_To 9) demo_start)
     = s_out demo_start @ [Answer 9 (Inl (InvalidState (Some 1) ''connector 1: has no transaction''))]
   \<and> s_out (stop_transaction 7 Stop_Local None (Reply_To 9) demo_start)
     = s_out demo_start @ [Answer 9 (Inl (Err_UnknownConnector 7))]"
proof -
  have "show_nat 1 = ''1''" by code_simp
  then have "stop_refusal demo_start 1 = Some (InvalidState (Some 1) ''connector 1: has no transaction'')"
    "stop_refusal demo_start 7 = Some (Err_UnknownConnector 7)"
    by (simp_all add: stop_refusal_def demo_view)
  from this [THEN stop_refused, of Stop_Local None 9] show ?thesis by (simp add: Let_def)
qed

subsection \<open>Availability\<close>

lemma update_first_map:
  "distinct (map c_id cs) \<Longrightarrow>
   update_first (\<lambda>c. c_id c = i) f cs = map (\<lambda>c. if c_id c = i then f c else c) cs"
proof (induction cs)
  case (Cons c cs)
  have "c_id c \<notin> c_id ` set cs" using Cons.prems by simp
  then have "\<forall>x\<in>set cs. c_id x \<noteq> c_id c" by (metis image_eqI)
  then have "map (\<lambda>c. if c_id c = i then f c else c) cs = cs" if "c_id c = i"
    using that by (auto intro: map_idI)
  with Cons show ?case by simp
qed simp

definition make_available :: "availability_type \<Rightarrow> connector \<Rightarrow> connector" where
  "make_available kind c =
     (if is_idle (c_transaction c)
      then c\<lparr>c_pending_availability := None, c_availability := kind,
             c_status := status_after_availability_change
               (c\<lparr>c_pending_availability := None, c_availability := kind\<rparr>) kind\<rparr>
      else c\<lparr>c_pending_availability := Some kind\<rparr>)"

lemma make_available_id [simp]: "c_id (make_available kind c) = c_id c"
  by (simp add: make_available_def)

lemma availability_targets:
  "distinct (map c_id (s_connectors s)) \<Longrightarrow> distinct is \<Longrightarrow> 0 \<notin> set is \<Longrightarrow>
   set is \<subseteq> c_id ` set (s_connectors s) \<Longrightarrow>
   foldl (availability_target kind) (s, sch, ch) is = (s', sch', ch') \<Longrightarrow>
   s' = s\<lparr>s_connectors := map (\<lambda>c. if c_id c \<in> set is then make_available kind c else c) (s_connectors s)\<rparr>
   \<and> (sch' \<longleftrightarrow> sch \<or> (\<exists>c\<in>set (s_connectors s). c_id c \<in> set is \<and> \<not> is_idle (c_transaction c)))"
proof (induction "is" arbitrary: s sch ch)
  case (Cons i "is")
  obtain c where c: "find (\<lambda>c. c_id c = i) (s_connectors s) = Some c" "c_id c = i" "c \<in> set (s_connectors s)"
    using Cons.prems(4) by (cases "find (\<lambda>c. c_id c = i) (s_connectors s)")
      (auto simp: find_None_iff find_Some_iff)
  have i: "i \<noteq> 0" using Cons.prems(3) by auto
  let ?f = "if is_idle (c_transaction c) then (\<lambda>c. let c1 = c\<lparr>c_pending_availability := None, c_availability := kind\<rparr>
         in c1\<lparr>c_status := status_after_availability_change c1 kind\<rparr>) else (\<lambda>c. c\<lparr>c_pending_availability := Some kind\<rparr>)"
  let ?s = "update_connector i ?f s"
  have only: "d = c" if "d \<in> set (s_connectors s)" "c_id d = i" for d
    using that c Cons.prems(1) by (metis distinct_map inj_on_def)
  have s: "?s = s\<lparr>s_connectors := map (\<lambda>d. if c_id d = i then make_available kind d else d) (s_connectors s)\<rparr>"
    using i only by (auto simp: update_connector_def is_station_def update_first_map [OF Cons.prems(1)]
        make_available_def Let_def intro!: station.fold_congs map_cong)
  have step: "foldl (availability_target kind) (s, sch, ch) (i # is)
      = foldl (availability_target kind) (?s, sch \<or> \<not> is_idle (c_transaction c),
          if is_idle (c_transaction c) then ch @ [i] else ch) is"
    using i c(1) by (simp add: availability_target_def find_connector_def is_station_def)
  have ids: "map c_id (s_connectors ?s) = map c_id (s_connectors s)" by (subst s) simp
  then have ids': "c_id ` set (s_connectors ?s) = c_id ` set (s_connectors s)" by (metis list.set_map)
  have "s' = ?s\<lparr>s_connectors := map (\<lambda>c. if c_id c \<in> set is then make_available kind c else c) (s_connectors ?s)\<rparr>
   \<and> (sch' \<longleftrightarrow> (sch \<or> \<not> is_idle (c_transaction c))
        \<or> (\<exists>c\<in>set (s_connectors ?s). c_id c \<in> set is \<and> \<not> is_idle (c_transaction c)))"
    by (rule Cons.IH) (use Cons.prems ids ids' step in auto)
  then have s': "s' = ?s\<lparr>s_connectors := map (\<lambda>c. if c_id c \<in> set is then make_available kind c else c) (s_connectors ?s)\<rparr>"
    and sch': "sch' \<longleftrightarrow> (sch \<or> \<not> is_idle (c_transaction c))
        \<or> (\<exists>c\<in>set (s_connectors ?s). c_id c \<in> set is \<and> \<not> is_idle (c_transaction c))" by blast+
  have i': "i \<notin> set is" using Cons.prems(2) by simp
  have "s' = s\<lparr>s_connectors := map (\<lambda>c. if c_id c \<in> set (i # is) then make_available kind c else c) (s_connectors s)\<rparr>"
    unfolding s' s using i' by (simp add: comp_def cong: map_cong)
  moreover have "(\<exists>d\<in>set (s_connectors ?s). c_id d \<in> set is \<and> \<not> is_idle (c_transaction d))
      = (\<exists>d\<in>set (s_connectors s). c_id d \<in> set is \<and> \<not> is_idle (c_transaction d))"
    unfolding s using i' by auto
  moreover have "(\<exists>d\<in>set (s_connectors s). c_id d = i \<and> \<not> is_idle (c_transaction d))
      = (\<not> is_idle (c_transaction c))"
    using c only by blast
  ultimately show ?case using sch' by auto
qed auto

fun is_response :: "effect \<Rightarrow> bool" where
  "is_response (Respond _ _) = True"
| "is_response _ = False"

lemma quiet_out_view:
  assumes "quiet s s'"
  shows "map no_meter (s_connectors s') = map no_meter (s_connectors s)"
    "no_meter (s_charge_point s') = no_meter (s_charge_point s)"
    "\<exists>rest. s_out s' = s_out s @ rest \<and> filter is_response rest = []"
proof -
  have c: "core s' = core s" using assms by (simp add: quiet_def)
  show "map no_meter (s_connectors s') = map no_meter (s_connectors s)"
    "no_meter (s_charge_point s') = no_meter (s_charge_point s)" using core_fieldsD(1,12) [OF c] .
  from assms obtain outs where o: "s_out s' = s_out s @ outs" "\<forall>e\<in>set outs. harmless (can_talk s) e"
    by (auto simp: quiet_def grow_def)
  have "\<not> is_response e" if "harmless b e" for b e using that by (cases e) auto
  with o show "\<exists>rest. s_out s' = s_out s @ rest \<and> filter is_response rest = []"
    by (auto simp: filter_empty_conv)
qed

text \<open>
  C6: ChangeAvailability.  An unknown connector is refused and nothing changes.  Otherwise every
  target (connector 0 means all of them) with a transaction keeps its state and remembers the change,
  every other one takes it at once, dropping a change that waited, no other connector changes, and
  the answer is Scheduled exactly if some target has to wait.
\<close>

theorem change_availability_correct:
  assumes "reachable s"
  shows "let s' = change_availability r i kind s;
             targets = (if i = 0 then s_connectors s else filter (\<lambda>c. c_id c = i) (s_connectors s));
             refused = (i \<noteq> 0 \<and> targets = []);
             waits = list_ex (\<lambda>c. \<not> is_idle (c_transaction c)) targets
    in map no_meter (s_connectors s')
         = map (\<lambda>c. no_meter (if i = 0 \<or> c_id c = i then make_available kind c else c)) (s_connectors s)
       \<and> c_availability (s_charge_point s') = (if i = 0 then kind else c_availability (s_charge_point s))
       \<and> (\<exists>rest. s_out s' = s_out s @ Respond r (ChangeAvailability_conf
                 (if refused then Avail_Rejected else if waits then Avail_Scheduled else Avail_Accepted)) # rest
            \<and> filter is_response rest = [])"
proof -
  note ids = ids_okD [OF InvD(1) [OF reachable_Inv [OF assms(1)]]]
  have pos: "0 \<notin> c_id ` set (s_connectors s)" using ids(2) by force
  let ?s = "if i = 0 then set_station_availability kind s else s"
  let ?is = "if i = 0 then map c_id (s_connectors s) else [i]"
  have cs: "s_connectors ?s = s_connectors s" by (simp add: set_station_availability_def)
  show ?thesis
  proof (cases "i \<noteq> 0 \<and> (\<forall>c\<in>set (s_connectors s). c_id c \<noteq> i)")
    case True
    then have none: "physical_connector s i = Inl (Err_UnknownConnector i)"
      by (auto simp: physical_connector_def find_connector_def is_station_def find_None_iff split: option.split)
    have "filter (\<lambda>c. c_id c = i) (s_connectors s) = []" using True by (auto simp: filter_empty_conv)
    moreover have "map (\<lambda>c. no_meter (if i = 0 \<or> c_id c = i then make_available kind c else c)) (s_connectors s)
        = map no_meter (s_connectors s)" using True by auto
    ultimately show ?thesis
      using True none
      by (auto simp: change_availability_def is_station_def respond_def emit_def Let_def)
  next
    case False
    then have known: "i = 0 \<or> (\<exists>c\<in>set (s_connectors s). c_id c = i)" by blast
    then have phys: "\<not> (i \<noteq> 0 \<and> (\<exists>e. physical_connector s i = Inl e))"
      by (auto simp: physical_connector_def find_connector_def is_station_def find_None_iff split: option.split)
    obtain s2 sch ch where fold: "foldl (availability_target kind) (?s, False, if i = 0 then [STATION] else []) ?is = (s2, sch, ch)"
      by (metis prod_cases3)
    have "s2 = ?s\<lparr>s_connectors := map (\<lambda>c. if c_id c \<in> set ?is then make_available kind c else c) (s_connectors ?s)\<rparr>
      \<and> (sch \<longleftrightarrow> False \<or> (\<exists>c\<in>set (s_connectors ?s). c_id c \<in> set ?is \<and> \<not> is_idle (c_transaction c)))"
      by (rule availability_targets [OF _ _ _ _ fold]) (use ids(1) pos known cs in auto)
    then have s2: "s_connectors s2 = map (\<lambda>c. if i = 0 \<or> c_id c = i then make_available kind c else c) (s_connectors s)"
      "s_charge_point s2 = s_charge_point ?s" "s_out s2 = s_out s"
      and sch: "sch \<longleftrightarrow> (\<exists>c\<in>set (s_connectors s). (i = 0 \<or> c_id c = i) \<and> \<not> is_idle (c_transaction c))"
      by (auto simp: set_station_availability_def cong: map_cong)
    let ?st = "if sch then Avail_Scheduled else Avail_Accepted"
    let ?t = "respond r (ChangeAvailability_conf ?st) s2"
    have eq: "change_availability r i kind s = foldl (\<lambda>s' j. status_changed j s') (flush_now ?t) ch"
      using phys fold unfolding change_availability_def Let_def is_station_def by (simp split: if_splits)
    have "quiet ?t (change_availability r i kind s)"
      unfolding eq by (rule quiet_trans [OF quiet_flush_now quiet_foldl]) (rule quiets)
    note q = quiet_out_view [OF this]
    have t: "s_connectors ?t = s_connectors s2" "s_charge_point ?t = s_charge_point s2"
      "s_out ?t = s_out s @ [Respond r (ChangeAvailability_conf ?st)]"
      by (simp_all add: respond_def emit_def s2)
    have "c_availability (s_charge_point (change_availability r i kind s)) = c_availability (s_charge_point ?s)"
      using q(2) unfolding t s2 by (metis no_meter_fields(4))
    moreover have "(i \<noteq> 0 \<and> filter (\<lambda>c. c_id c = i) (s_connectors s) = []) = False"
      using known by (auto simp: filter_empty_conv)
    moreover have "list_ex (\<lambda>c. \<not> is_idle (c_transaction c))
        (if i = 0 then s_connectors s else filter (\<lambda>c. c_id c = i) (s_connectors s)) = sch"
      using sch by (auto simp: list_ex_iff)
    ultimately show ?thesis
      using q(3) unfolding Let_def q(1) t s2
      by (auto simp: set_station_availability_def)
  qed
qed

theorem change_availability_correct_witness:
  "c_availability (s_charge_point (change_availability 3 0 Inoperative demo_start)) = Inoperative
   \<and> s_out (change_availability 3 0 Inoperative demo_start) ! length (s_out demo_start)
       = Respond 3 (ChangeAvailability_conf Avail_Accepted)"
proof -
  obtain c where c: "s_connectors demo_start = [c]" "c_transaction c = Idle"
    using demo_connectors(1,4) by (cases "s_connectors demo_start") auto
  from change_availability_correct [OF demo_reachable, of 3 0 Inoperative] c
  show ?thesis by (auto simp: Let_def)
qed

subsection \<open>The key of a failed certificate request\<close>

abbreviation pending_key :: "station \<Rightarrow> string option" where
  "pending_key s \<equiv> sx_pending_key_pem (sy_secrets (s_security s))"

lemma pending_key_timers [simp]:
  "pending_key (timer_set k d s) = pending_key s" "pending_key (timer_cancel k s) = pending_key s"
  "pending_key (mark_secrets_dirty s) = pending_key s" "pending_key (answer_opt ro r s) = pending_key s"
  by (simp_all add: timer_set_def timer_set_if_idle_def timer_cancel_def mark_secrets_dirty_def
      answer_opt_def answer_def emit_def upd_security_def mark_dirty_def Let_def split: option.split)

lemma pending_key_retry [simp]: "pending_key (arm_cert_signing_retry i s) = pending_key s"
  by (simp add: arm_cert_signing_retry_def stop_sign_series_def upd_security_def split: option.split)

lemma pending_key_restore [simp]:
  "pending_key (restore_pending_key key previous s) = (if pending_key s = Some key then previous else pending_key s)"
  by (simp add: restore_pending_key_def upd_secrets_def upd_security_def)

text \<open>
  Two requests are in flight, the second with the key of the first as its previous one.  When both are
  refused in the order they were sent, the key of the first one stays pending although nothing can sign it.
\<close>

lemma refused_key_stays_pending:
  assumes "pending_key s = Some second" "first \<noteq> second"
  shows "pending_key (sign_answered j second (Some first) ro2 Gen_Rejected
           (sign_answered i first None ro1 Gen_Rejected s)) = Some first"
  using assms by (simp add: sign_answered_def)

end
