(* ===== verification/Smart_Laws.thy ===== *)
theory Smart_Laws
  imports Smart_Charging
begin

text \<open>
  The laws of smart charging: between two instants without a change instant a profile stays in the
  same period, so the composite schedule, which evaluates only the seconds around change instants, is
  exact at every second of its window; the precedence between the three purposes; the bounds of the
  answer; and the bounds of power and energy.
\<close>

subsection \<open>Milliseconds and the date library\<close>

lemma le_div_iff:
  fixes n :: int assumes "0 < n" shows "q \<le> d div n \<longleftrightarrow> q * n \<le> d"
proof
  assume "q \<le> d div n"
  then have "q * n \<le> (d div n) * n" using assms by (simp add: mult_right_mono)
  also have "\<dots> \<le> d" using assms by (simp add: minus_mod_eq_div_mult [symmetric])
  finally show "q * n \<le> d" .
next
  assume "q * n \<le> d"
  then have "(q * n) div n \<le> d div n" using assms by (intro zdiv_mono1)
  with assms show "q \<le> d div n" by simp
qed

lemma ns_per_ms_pos: "0 < ns_per_ms"
  by (simp add: ns_per_ms_def)

lemma le_num_ms_iff: "0 \<le> d \<Longrightarrow> q \<le> num_ms d \<longleftrightarrow> q * ns_per_ms \<le> d"
  by (simp add: num_ms_def trunc_div_nonneg le_div_iff ns_per_ms_pos)

lemma num_ms_mono: "x \<le> y \<Longrightarrow> num_ms x \<le> num_ms y"
  by (simp add: num_ms_def trunc_div_mono ns_per_ms_pos)

text \<open>
  What the date library promises: within the representable range \<open>lo\<close> to \<open>hi\<close> the addition is exact,
  outside it fails; the range is short enough for 64-bit milliseconds.
\<close>

definition date_library ::
  "(instant \<Rightarrow> i64 \<Rightarrow> instant option) \<Rightarrow> instant \<Rightarrow> instant \<Rightarrow> bool" where
  "date_library add lo hi \<longleftrightarrow>
     hi - lo \<le> i64_max * ns_per_ms
     \<and> (\<forall>i ms. add i ms = (if lo \<le> i + ms * ns_per_ms \<and> i + ms * ns_per_ms \<le> hi
                          then Some (i + ms * ns_per_ms) else None))"

lemma date_library_add:
  "date_library add lo hi \<Longrightarrow> lo \<le> i + ms * ns_per_ms \<Longrightarrow> i + ms * ns_per_ms \<le> hi \<Longrightarrow>
   add i ms = Some (i + ms * ns_per_ms)"
  by (simp add: date_library_def)

lemma date_library_sat:
  assumes lib: "date_library add lo hi" and lo: "lo \<le> base" and x: "base \<le> x" "x \<le> hi"
    and c: "base + c * ns_per_ms \<le> x" "0 \<le> c"
  shows "sat_i64 c = c"
proof -
  have "c * ns_per_ms \<le> i64_max * ns_per_ms" using lib lo x c by (simp add: date_library_def)
  then have "c \<le> i64_max" using ns_per_ms_pos by simp
  with c show ?thesis by (simp add: sat_i64_def i64_max_def)
qed

subsection \<open>A profile between change instants\<close>

lemma recurrence_period_pos: "recurrence_period_ms p = Some c \<Longrightarrow> 0 < c"
  by (auto simp: recurrence_period_ms_def DAY_SECONDS_def WEEK_SECONDS_def
      split: if_splits option.splits recurrency_kind.splits)

lemma in_change_instants:
  "x \<in> set (change_instants add p base from until) \<longleftrightarrow>
     from \<le> x \<and> x \<le> until
     \<and> (cp_valid_from p = Some x \<or> cp_valid_to p = Some x \<or> x = base
        \<or> (case recurrence_period_ms p of
             None \<Rightarrow> Some x \<in> set (cycle_candidates add (cp_schedule p) base)
           | Some c \<Rightarrow> \<exists>n. num_ms (from - base) div c - 1 \<le> n \<and> n \<le> num_ms (until - base) div c + 1
               \<and> (\<exists>s. add base (sat_i64 (n * c)) = Some s
                    \<and> Some x \<in> set (cycle_candidates add (cp_schedule p) s))))"
proof -
  have mem: "y \<in> set (List.map_filter id xs) \<longleftrightarrow> Some y \<in> set xs" for y :: instant and xs
    by (induction xs) (auto simp: List.map_filter_simps split: option.splits)
  show ?thesis
    by (auto simp: change_instants_def mem Let_def split: option.splits)
qed

lemma in_cycle_candidates:
  "Some x \<in> set (cycle_candidates add sch s) \<longleftrightarrow>
     (\<exists>q\<in>set (sch_periods sch). add s (sp_start q * 1000) = Some x)
     \<or> (\<exists>d. sch_duration sch = Some d \<and> add s (d * 1000) = Some x)"
  by (auto simp: cycle_candidates_def bind_eq_Some_conv dest: sym)

text \<open>
  \<open>elapsed\<close> is what \<open>period_at\<close> compares the periods with: milliseconds into the schedule, or into
  the running cycle.
\<close>

definition elapsed :: "charging_profile \<Rightarrow> instant \<Rightarrow> instant \<Rightarrow> int" where
  "elapsed p t base =
     (case recurrence_period_ms p of None \<Rightarrow> num_ms (t - base) | Some c \<Rightarrow> num_ms (t - base) mod c)"

lemma period_at_cong:
  assumes "is_valid_at p t1 = is_valid_at p t2" and "t1 < base \<longleftrightarrow> t2 < base"
    and "\<not> t1 < base \<Longrightarrow> \<forall>d. sch_duration (cp_schedule p) = Some d \<longrightarrow>
          (d * 1000 \<le> elapsed p t1 base \<longleftrightarrow> d * 1000 \<le> elapsed p t2 base)"
    and "\<not> t1 < base \<Longrightarrow> \<forall>q\<in>set (sch_periods (cp_schedule p)).
          (sp_start q * 1000 \<le> elapsed p t1 base \<longleftrightarrow> sp_start q * 1000 \<le> elapsed p t2 base)"
  shows "period_at p t1 base = period_at p t2 base"
proof (cases "t1 < base")
  case False
  have "filter (\<lambda>q. sp_start q * 1000 \<le> elapsed p t1 base) (sch_periods (cp_schedule p))
      = filter (\<lambda>q. sp_start q * 1000 \<le> elapsed p t2 base) (sch_periods (cp_schedule p))"
    using assms(4) [OF False] by (intro filter_cong) auto
  moreover have "is_some_and (sch_duration (cp_schedule p)) (\<lambda>d. d * 1000 \<le> elapsed p t1 base)
      = is_some_and (sch_duration (cp_schedule p)) (\<lambda>d. d * 1000 \<le> elapsed p t2 base)"
    using assms(3) [OF False] by (auto simp: is_some_and_iff)
  ultimately show ?thesis
    using assms(1,2) by (simp add: period_at_def Let_def elapsed_def [symmetric])
qed (use assms in \<open>simp add: period_at_def\<close>)

text \<open>The start of the cycle an instant lies in; the base itself when the profile does not recur.\<close>

definition cycle_start :: "charging_profile \<Rightarrow> instant \<Rightarrow> instant \<Rightarrow> instant" where
  "cycle_start p t base =
     (case recurrence_period_ms p of None \<Rightarrow> base
      | Some c \<Rightarrow> base + (num_ms (t - base) div c) * c * ns_per_ms)"

lemma le_elapsed_iff:
  assumes "base \<le> t" shows "q \<le> elapsed p t base \<longleftrightarrow> cycle_start p t base + q * ns_per_ms \<le> t"
proof (cases "recurrence_period_ms p")
  case None
  with assms show ?thesis by (auto simp: elapsed_def cycle_start_def le_num_ms_iff)
next
  case (Some c)
  let ?n = "num_ms (t - base) div c"
  have "elapsed p t base = num_ms (t - base) - ?n * c"
    using Some by (simp add: elapsed_def minus_div_mult_eq_mod)
  then have "q \<le> elapsed p t base \<longleftrightarrow> q + ?n * c \<le> num_ms (t - base)" by linarith
  also have "\<dots> \<longleftrightarrow> (q + ?n * c) * ns_per_ms \<le> t - base" using assms by (simp add: le_num_ms_iff)
  finally show ?thesis using Some by (simp add: cycle_start_def algebra_simps)
qed

lemma cycle_start_le: "base \<le> t \<Longrightarrow> cycle_start p t base \<le> t"
proof (cases "recurrence_period_ms p")
  case (Some c)
  assume t: "base \<le> t"
  have "0 \<le> elapsed p t base" using Some recurrence_period_pos [OF Some] by (simp add: elapsed_def)
  with le_elapsed_iff [OF t, of 0 p] show ?thesis by simp
qed (simp add: cycle_start_def)

lemma cycle_start_ge: "base \<le> t \<Longrightarrow> base \<le> cycle_start p t base"
proof (cases "recurrence_period_ms p")
  case (Some c)
  assume t: "base \<le> t"
  then have "0 \<le> num_ms (t - base)" using le_num_ms_iff [of "t - base" 0] by simp
  then have "0 \<le> num_ms (t - base) div c"
    using recurrence_period_pos [OF Some] by (simp add: pos_imp_zdiv_nonneg_iff)
  then show ?thesis
    using Some recurrence_period_pos [OF Some] by (simp add: cycle_start_def ns_per_ms_def)
qed (simp add: cycle_start_def)

text \<open>The instants of the running cycle that lie in the window are change instants.\<close>

lemma cycle_instants:
  assumes lib: "date_library add lo hi" and lo: "lo \<le> base" and b: "base \<le> t"
    and w: "from \<le> t" "t \<le> until" "until \<le> hi"
    and x: "x = cycle_start p t base + q * 1000 * ns_per_ms" "from \<le> x" "x \<le> until" "lo \<le> x"
    and q: "(\<exists>r\<in>set (sch_periods (cp_schedule p)). sp_start r = q) \<or> sch_duration (cp_schedule p) = Some q"
  shows "x \<in> set (change_instants add p base from until)"
proof -
  let ?s = "cycle_start p t base"
  have adds: "add ?s (q * 1000) = Some x"
    using date_library_add [OF lib, of ?s "q * 1000"] x w(3) by (simp add: algebra_simps)
  then have cand: "Some x \<in> set (cycle_candidates add (cp_schedule p) ?s)"
    using q by (auto simp: in_cycle_candidates)
  show ?thesis
  proof (cases "recurrence_period_ms p")
    case None
    with cand x(2,3) show ?thesis by (auto simp: in_change_instants cycle_start_def)
  next
    case (Some c)
    let ?n = "num_ms (t - base) div c"
    have c: "0 < c" by (rule recurrence_period_pos [OF Some])
    have s: "?s = base + (?n * c) * ns_per_ms" using Some by (simp add: cycle_start_def)
    have "0 \<le> ?n * c"
      using cycle_start_ge [OF b, of p] by (simp add: s ns_per_ms_def mult.commute)
    then have sat: "sat_i64 (?n * c) = ?n * c"
      using date_library_sat [OF lib lo b _ _] w cycle_start_le [OF b, of p] by (simp add: s)
    have "add base (?n * c) = Some ?s"
      using date_library_add [OF lib, of base "?n * c"] lo cycle_start_ge [OF b, of p]
        cycle_start_le [OF b, of p] w by (simp add: s)
    moreover have "num_ms (from - base) div c - 1 \<le> ?n" "?n \<le> num_ms (until - base) div c + 1"
      using w c zdiv_mono1 [OF num_ms_mono [of "from - base" "t - base"], of c]
        zdiv_mono1 [OF num_ms_mono [of "t - base" "until - base"], of c] by auto
    ultimately show ?thesis
      using Some cand x(2,3) sat by (auto simp: in_change_instants)
  qed
qed

lemma period_unchanged:
  assumes lib: "date_library add lo hi" and lo: "lo \<le> base" "lo \<le> from" and w: "from \<le> t1" "t1 \<le> t2" "t2 \<le> until" "until \<le> hi"
    and shape: "\<exists>r\<in>set (sch_periods (cp_schedule p)). sp_start r = 0"
    and none: "\<And>x. x \<in> set (change_instants add p base from until) \<Longrightarrow> x < t1 \<or> t2 < x"
  shows "period_at p t1 base = period_at p t2 base"
proof (rule period_at_cong)
  have in_c: "x < t1 \<or> t2 < x" if "cp_valid_from p = Some x \<or> cp_valid_to p = Some x \<or> x = base" for x
    using none [of x] that w by (fastforce simp: in_change_instants)
  show "is_valid_at p t1 = is_valid_at p t2"
    using in_c w(2) by (fastforce simp: is_valid_at_def is_none_or_iff)
  show base: "t1 < base \<longleftrightarrow> t2 < base" using in_c [of base] w(2) by auto
  assume "\<not> t1 < base"
  then have b1: "base \<le> t1" and b2: "base \<le> t2" using w(2) by auto
  have cyc: "x < t1 \<or> t2 < x"
    if "t = t1 \<or> t = t2" "x = cycle_start p t base + q * 1000 * ns_per_ms"
      "(\<exists>r\<in>set (sch_periods (cp_schedule p)). sp_start r = q) \<or> sch_duration (cp_schedule p) = Some q" for t x q
  proof (rule ccontr)
    assume n: "\<not> (x < t1 \<or> t2 < x)"
    have "x \<in> set (change_instants add p base from until)"
      using that n b1 b2 w lo by (intro cycle_instants [OF lib lo(1), where t = t]) auto
    from none [OF this] n show False by simp
  qed
  have same: "cycle_start p t1 base = cycle_start p t2 base"
  proof (cases "recurrence_period_ms p")
    case (Some c)
    have "cycle_start p t2 base < t1" using cyc [of t2 "cycle_start p t2 base" 0] shape cycle_start_le [OF b2, of p] by auto
    let ?n = "num_ms (t1 - base) div c" and ?m = "num_ms (t2 - base) div c"
    have c: "0 < c" by (rule recurrence_period_pos [OF Some])
    have "?n \<le> ?m" using num_ms_mono [of "t1 - base" "t2 - base"] w(2) c by (intro zdiv_mono1) auto
    moreover have "?m * c * ns_per_ms \<le> t1 - base"
      using \<open>cycle_start p t2 base < t1\<close> Some by (simp add: cycle_start_def)
    then have "?m * c \<le> num_ms (t1 - base)" using b1 by (simp add: le_num_ms_iff)
    then have "?m \<le> ?n" using c by (simp add: le_div_iff)
    ultimately show ?thesis using Some by (simp add: cycle_start_def)
  qed (simp add: cycle_start_def)
  have "q * 1000 \<le> elapsed p t1 base \<longleftrightarrow> q * 1000 \<le> elapsed p t2 base"
    if "(\<exists>r\<in>set (sch_periods (cp_schedule p)). sp_start r = q) \<or> sch_duration (cp_schedule p) = Some q" for q
    using cyc [of t1 "cycle_start p t1 base + q * 1000 * ns_per_ms" q] that w(2)
    by (auto simp: le_elapsed_iff [OF b1] le_elapsed_iff [OF b2] same)
  then show "\<forall>d. sch_duration (cp_schedule p) = Some d \<longrightarrow>
          (d * 1000 \<le> elapsed p t1 base \<longleftrightarrow> d * 1000 \<le> elapsed p t2 base)"
    and "\<forall>q\<in>set (sch_periods (cp_schedule p)).
          (sp_start q * 1000 \<le> elapsed p t1 base \<longleftrightarrow> sp_start q * 1000 \<le> elapsed p t2 base)"
    by blast+
qed

subsection \<open>The seconds between change offsets\<close>

lemma resolve_at_cong:
  assumes "\<And>e base. (e, base) \<in> set us \<Longrightarrow> period_at (pf_profile e) t1 base = period_at (pf_profile e) t2 base"
  shows "resolve_at us c tx t1 f = resolve_at us c tx t2 f"
proof -
  have "foldl (resolve_step c tx t1 f) b us = foldl (resolve_step c tx t2 f) b us" for b
    using assms
    by (intro foldl_cong) (auto simp: resolve_step_def candidate_at_def split: prod.split)
  then show ?thesis by (simp add: resolve_at_def)
qed

lemma change_offsets_strict: "sorted_wrt (<) (change_offsets add us start d)"
  by (simp add: change_offsets_def strict_sorted_iff)

lemma in_change_offsets:
  "o' \<in> set (change_offsets add us start d) \<longleftrightarrow> 0 \<le> o' \<and> o' < d \<and>
     (o' = 0 \<or> (\<exists>(e, base)\<in>set us. \<exists>x\<in>set (change_instants add (pf_profile e) base start (start + d * ns_per_s)).
        o' = (num_ms (x - start) + 999) div 1000 \<or> o' = num_ms (x - start) div 1000 + 1))"
  by (auto simp: change_offsets_def Let_def split_beta)

lemma ns_per_s_ms: "ns_per_s = 1000 * ns_per_ms"
  by (simp add: ns_per_s_def ns_per_ms_def)

text \<open>An instant between two whole seconds rounds to an offset between them.\<close>

lemma offset_between:
  assumes "0 \<le> a" and "a < b" and "start + a * ns_per_s \<le> x" and "x \<le> start + b * ns_per_s"
  defines "ms \<equiv> num_ms (x - start)"
  shows "(a < (ms + 999) div 1000 \<and> (ms + 999) div 1000 \<le> b) \<or> (a < ms div 1000 + 1 \<and> ms div 1000 + 1 \<le> b)"
proof -
  have "0 \<le> a * ns_per_s" using assms(1) by (simp add: ns_per_s_def)
  then have x: "0 \<le> x - start" using assms(3) by simp
  have lo: "a * 1000 \<le> ms"
    using assms(3) by (simp add: ms_def le_num_ms_iff [OF x] ns_per_s_ms algebra_simps)
  have hi: "ms \<le> b * 1000"
  proof (rule ccontr)
    assume "\<not> ms \<le> b * 1000"
    then have "b * 1000 + 1 \<le> num_ms (x - start)" by (simp add: ms_def)
    then have "(b * 1000 + 1) * ns_per_ms \<le> x - start" by (simp add: le_num_ms_iff [OF x])
    with assms(4) show False by (simp add: ns_per_s_ms ns_per_ms_def algebra_simps)
  qed
  show ?thesis
  proof (cases "ms = b * 1000")
    case True
    then have "(ms + 999) div 1000 = b" by simp
    with assms(2) show ?thesis by simp
  next
    case False
    with hi have "ms div 1000 < b" by (simp add: div_less_iff_less_mult algebra_simps)
    moreover have "a \<le> ms div 1000" using lo by (simp add: le_div_iff)
    ultimately show ?thesis by simp
  qed
qed

definition bases_in :: "usable \<Rightarrow> instant \<Rightarrow> bool" where
  "bases_in us lo = (\<forall>(e, base)\<in>set us. lo \<le> base \<and> shape_error_of (pf_profile e) = None)"

lemma shape_first_zero: "shape_error_of p = None \<Longrightarrow> \<exists>r\<in>set (sch_periods (cp_schedule p)). sp_start r = 0"
  by (auto simp: shape_error_of_def Let_def split: if_splits list.splits)

lemma resolve_between_offsets:
  assumes lib: "date_library add lo hi" and us: "bases_in us lo"
    and w: "lo \<le> start" "start + d * ns_per_s \<le> hi"
    and k: "o' \<le> k" "0 \<le> o'" "k < d"
    and none: "\<forall>j\<in>set (change_offsets add us start d). j \<le> o' \<or> k < j"
  shows "resolve_at us c tx (start + o' * ns_per_s) f = resolve_at us c tx (start + k * ns_per_s) f"
proof (cases "o' = k")
  case False
  have s: "0 < ns_per_s" by (simp add: ns_per_s_def)
  show ?thesis
  proof (rule resolve_at_cong)
    fix e base assume eb: "(e, base) \<in> set us"
    then have base: "lo \<le> base" and shape: "shape_error_of (pf_profile e) = None"
      using us by (auto simp: bases_in_def)
    show "period_at (pf_profile e) (start + o' * ns_per_s) base = period_at (pf_profile e) (start + k * ns_per_s) base"
    proof (rule period_unchanged [OF lib base w(1) _ _ _ w(2) shape_first_zero [OF shape]])
      show "start \<le> start + o' * ns_per_s" using k s by simp
      show "start + o' * ns_per_s \<le> start + k * ns_per_s" using k s by simp
      show "start + k * ns_per_s \<le> start + d * ns_per_s" using k s by simp
      fix x assume x: "x \<in> set (change_instants add (pf_profile e) base start (start + d * ns_per_s))"
      show "x < start + o' * ns_per_s \<or> start + k * ns_per_s < x"
      proof (rule ccontr)
        assume "\<not> ?thesis"
        then have "start + o' * ns_per_s \<le> x" "x \<le> start + k * ns_per_s" by auto
        from offset_between [OF k(2) _ this] False k(1)
        obtain j where j: "o' < j" "j \<le> k"
            "j = (num_ms (x - start) + 999) div 1000 \<or> j = num_ms (x - start) div 1000 + 1" by force
        then have "j \<in> set (change_offsets add us start d)"
          using eb x k by (auto simp: in_change_offsets)
        with none j show False by auto
      qed
    qed
  qed
qed simp

subsection \<open>Merging equal neighbours\<close>

text \<open>The value of a list of periods at an offset: that of the last period not after it.\<close>

definition value_at :: "schedule_period list \<Rightarrow> i64 \<Rightarrow> (f64 \<times> i32 option) option" where
  "value_at ps k =
     (let qs = filter (\<lambda>q. sp_start q \<le> k) ps in
      if qs = [] then None else Some (sp_limit (last qs), sp_phases (last qs)))"

definition point_at :: "(i64 \<times> 'v) list \<Rightarrow> i64 \<Rightarrow> 'v option" where
  "point_at pts k =
     (let qs = filter (\<lambda>q. fst q \<le> k) pts in if qs = [] then None else Some (snd (last qs)))"

definition differ :: "schedule_period \<Rightarrow> schedule_period \<Rightarrow> bool" where
  "differ a b = (sp_limit a \<noteq> sp_limit b \<or> sp_phases a \<noteq> sp_phases b)"

lemma windows2_snoc: "xs \<noteq> [] \<Longrightarrow> windows2 (xs @ [x]) = windows2 xs @ [(last xs, x)]"
  by (induction xs rule: induct_list012) auto

lemma point_at_snoc:
  "\<forall>q\<in>set pts. fst q < o' \<Longrightarrow> point_at (pts @ [(o', v)]) k = (if o' \<le> k then Some v else point_at pts k)"
  by (simp add: point_at_def)

lemma value_at_snoc:
  "\<forall>q\<in>set ps. sp_start q < sp_start x \<Longrightarrow>
   value_at (ps @ [x]) k = (if sp_start x \<le> k then Some (sp_limit x, sp_phases x) else value_at ps k)"
  by (simp add: value_at_def)

lemma value_at_last:
  "ps \<noteq> [] \<Longrightarrow> \<forall>q\<in>set ps. sp_start q \<le> k \<Longrightarrow> value_at ps k = Some (sp_limit (last ps), sp_phases (last ps))"
  by (simp add: value_at_def)

definition merged :: "(i64 \<times> f64 \<times> i32 option) list \<Rightarrow> schedule_period list \<Rightarrow> bool" where
  "merged pts ps \<longleftrightarrow>
     (\<forall>k. value_at ps k = point_at pts k)
     \<and> (pts \<noteq> [] \<longrightarrow> ps \<noteq> [] \<and> (sp_limit (last ps), sp_phases (last ps)) = snd (last pts)
          \<and> sp_start (hd ps) = fst (hd pts))
     \<and> sp_start ` set ps \<subseteq> fst ` set pts
     \<and> sorted_wrt (\<lambda>a b. sp_start a < sp_start b) ps
     \<and> (\<forall>(a, b)\<in>set (windows2 ps). differ a b)"

lemma merged_push:
  assumes m: "merged pts ps" and lt: "\<forall>q\<in>set pts. fst q < fst pt" and max: "fst pt \<le> i32_max"
    and nil: "pts = [] \<Longrightarrow> ps = []"
  shows "merged (pts @ [pt]) (push_period ps pt)"
proof -
  obtain o' l ph where pt: "pt = (o', l, ph)" by (cases pt)
  have starts: "\<forall>q\<in>set ps. sp_start q < o'" using m lt pt by (force simp: merged_def)
  have min: "min o' i32_max = o'" using max pt by simp
  show ?thesis
  proof (cases "ps \<noteq> [] \<and> sp_limit (last ps) = l \<and> sp_phases (last ps) = ph")
    case True
    then have push: "push_period ps pt = ps" by (simp add: push_period_def pt same_bits_def)
    have "value_at ps k = (if o' \<le> k then Some (l, ph) else point_at pts k)" for k
    proof (cases "o' \<le> k")
      case True
      with starts have "\<forall>q\<in>set ps. sp_start q \<le> k" by force
      with True \<open>ps \<noteq> [] \<and> _\<close> show ?thesis using value_at_last [of ps k] by simp
    qed (use m in \<open>simp add: merged_def\<close>)
    then have val: "\<forall>k. value_at ps k = point_at (pts @ [pt]) k"
      using lt by (simp add: pt point_at_snoc)
    have "pts \<noteq> []" using True nil by blast
    then have hd: "sp_start (hd ps) = fst (hd (pts @ [pt]))" using m by (simp add: merged_def)
    show ?thesis
      unfolding merged_def push
      by (intro conjI val) (use m True hd in \<open>auto simp: pt merged_def\<close>)
  next
    case False
    let ?x = "\<lparr>sp_start = o', sp_limit = l, sp_phases = ph\<rparr>"
    have push: "push_period ps pt = ps @ [?x]"
      using False min by (auto simp: push_period_def pt same_bits_def)
    have val: "\<forall>k. value_at (ps @ [?x]) k = point_at (pts @ [pt]) k"
      using m lt starts by (simp add: value_at_snoc pt point_at_snoc merged_def)
    have win: "\<forall>(a, b)\<in>set (windows2 (ps @ [?x])). differ a b"
      using m False by (cases "ps = []") (auto simp: windows2_snoc merged_def differ_def)
    have hd: "sp_start (hd (ps @ [?x])) = fst (hd (pts @ [pt]))"
      using m nil pt by (cases "pts = []") (auto simp: merged_def)
    show ?thesis
      using m starts unfolding merged_def push
      by (intro conjI) (use val win hd in \<open>auto simp: pt sorted_wrt_append\<close>)
  qed
qed

lemma merged_foldl:
  "sorted_wrt (<) (map fst pts) \<Longrightarrow> \<forall>pt\<in>set pts. fst pt \<le> i32_max \<Longrightarrow>
   merged pts (foldl push_period [] pts) \<and> (pts = [] \<longrightarrow> foldl push_period [] pts = [])"
proof (induction pts rule: rev_induct)
  case Nil
  show ?case by (simp add: merged_def value_at_def point_at_def)
next
  case (snoc pt pts)
  then have "merged pts (foldl push_period [] pts) \<and> (pts = [] \<longrightarrow> foldl push_period [] pts = [])"
    by (intro snoc.IH) (auto simp: sorted_wrt_append)
  moreover have "\<forall>q\<in>set pts. fst q < fst pt" using snoc.prems(1) by (simp add: sorted_wrt_append)
  ultimately show ?case using snoc.prems(2) by (simp add: merged_push)
qed

text \<open>Cutting the tail of the periods does not change the values before the first cut period.\<close>

lemma value_at_take:
  assumes "sorted_wrt (\<lambda>a b. sp_start a < sp_start b) ps" and "n < length ps" and "k < sp_start (ps ! n)"
  shows "value_at (take n ps) k = value_at ps k"
proof -
  have "filter (\<lambda>q. sp_start q \<le> k) (drop n ps) = []"
  proof (rule filter_False, rule ballI)
    fix q assume q: "q \<in> set (drop n ps)"
    have d: "drop n ps = ps ! n # drop (Suc n) ps" by (rule Cons_nth_drop_Suc [OF assms(2), symmetric])
    have "sorted_wrt (\<lambda>a b. sp_start a < sp_start b) (drop n ps)" by (rule sorted_wrt_drop [OF assms(1)])
    then have "sp_start (ps ! n) \<le> sp_start q" using q unfolding d by auto
    with assms(3) show "\<not> sp_start q \<le> k" by simp
  qed
  then have "filter (\<lambda>q. sp_start q \<le> k) ps = filter (\<lambda>q. sp_start q \<le> k) (take n ps)"
    by (metis append_Nil2 append_take_drop_id filter_append)
  then show ?thesis by (simp add: value_at_def)
qed

subsection \<open>The composite schedule is exact\<close>

lemma point_at_offsets:
  assumes "sorted_wrt (<) os" and "0 \<in> set os" and "0 \<le> k"
  obtains o' where "o' \<in> set os" "o' \<le> k" "\<forall>j\<in>set os. j \<le> o' \<or> k < j"
    "point_at (map (\<lambda>o'. (o', f o')) os) k = Some (f o')"
proof -
  let ?qs = "filter (\<lambda>j. j \<le> k) os"
  have ne: "?qs \<noteq> []" using assms(2,3) by (auto simp: filter_empty_conv)
  have s: "sorted ?qs" using assms(1) by (simp add: sorted_wrt_filter strict_sorted_imp_sorted)
  have "last ?qs \<in> set ?qs" using ne by (rule last_in_set)
  moreover have "j \<le> last ?qs" if "j \<in> set ?qs" for j
  proof -
    obtain i where "i < length ?qs" "j = ?qs ! i" using \<open>j \<in> set ?qs\<close> by (metis in_set_conv_nth)
    with s ne show ?thesis by (simp add: last_conv_nth sorted_nth_mono)
  qed
  moreover have "point_at (map (\<lambda>o'. (o', f o')) os) k = Some (f (last ?qs))"
    using ne by (simp add: point_at_def filter_map comp_def last_map)
  ultimately show ?thesis
    by (intro that [of "last ?qs"]) (auto simp: not_le)
qed

lemma composite_cases:
  assumes "composite_schedule add entries req = Inr cc"
  defines "start \<equiv> truncate_to_second (cq_now req)"
    and "d \<equiv> min (cq_duration_s req) MAX_COMPOSITE_DURATION_S"
    and "unit \<equiv> sch_unit (cc_schedule cc)"
  defines "us \<equiv> usable_profiles entries req unit start"
  defines "pts \<equiv> map (\<lambda>o'. (o', shown (station_limit (cq_model req) unit)
      (resolve_at us (cq_connector req) (cq_active_tx req) (start + o' * ns_per_s) (\<lambda>_ p. sp_limit p))))
      (change_offsets add us start d)"
  defines "ps \<equiv> foldl push_period [] pts"
  shows "0 < d" and "cc_connector cc = cq_connector req" and "cc_schedule_start cc = start"
    and "is_known_connector (cq_connector req) (cq_connector_count req)"
    and "sch_periods (cc_schedule cc) = take MAX_COMPOSITE_PERIODS ps"
    and "sch_duration (cc_schedule cc) =
      Some (if length ps > MAX_COMPOSITE_PERIODS then min (sp_start (ps ! MAX_COMPOSITE_PERIODS)) d else d)"
    and "unit = (case cq_unit req of Some u \<Rightarrow> u | None \<Rightarrow> default_unit entries req start)"
    and "sch_start (cc_schedule cc) = Some start"
proof -
  define u where "u = (case cq_unit req of Some u \<Rightarrow> u | None \<Rightarrow> default_unit entries req start)"
  have unit: "unit = u"
    using assms(1) unfolding unit_def u_def start_def
    by (auto simp: composite_schedule_def Let_def split: if_splits)
  show "0 < d" and "cc_connector cc = cq_connector req" and "cc_schedule_start cc = start"
    and "is_known_connector (cq_connector req) (cq_connector_count req)"
    and "sch_start (cc_schedule cc) = Some start"
    using assms(1) unfolding start_def d_def
    by (auto simp: composite_schedule_def Let_def MAX_COMPOSITE_DURATION_S_def split: if_splits)
  show "unit = (case cq_unit req of Some u \<Rightarrow> u | None \<Rightarrow> default_unit entries req start)"
    using unit by (simp add: u_def)
  show "sch_periods (cc_schedule cc) = take MAX_COMPOSITE_PERIODS ps"
    and "sch_duration (cc_schedule cc) =
      Some (if length ps > MAX_COMPOSITE_PERIODS then min (sp_start (ps ! MAX_COMPOSITE_PERIODS)) d else d)"
    using assms(1) unfolding ps_def pts_def us_def unit u_def start_def d_def
    by (auto simp: composite_schedule_def Let_def comp_def split: if_splits)
qed

lemma windows2_take: "set (windows2 (take n xs)) \<subseteq> set (windows2 xs)"
  by (fastforce simp: windows2_def set_zip nth_tl)

lemma periods_exact:
  fixes f :: "i64 \<Rightarrow> f64 \<times> i32 option"
  assumes os: "sorted_wrt (<) os" "0 \<in> set os" "\<forall>o'\<in>set os. 0 \<le> o' \<and> o' < d" and d: "d \<le> i32_max"
  defines "ps \<equiv> foldl push_period [] (map (\<lambda>o'. (o', f o')) os)"
  defines "d' \<equiv> if length ps > MAX_COMPOSITE_PERIODS then min (sp_start (ps ! MAX_COMPOSITE_PERIODS)) d else d"
  shows "sorted_wrt (\<lambda>a b. sp_start a < sp_start b) (take MAX_COMPOSITE_PERIODS ps)
    \<and> sp_start (hd (take MAX_COMPOSITE_PERIODS ps)) = 0
    \<and> (\<forall>(a, b)\<in>set (windows2 (take MAX_COMPOSITE_PERIODS ps)). differ a b)"
    and "0 < d' \<and> d' \<le> d"
    and "\<And>k. 0 \<le> k \<Longrightarrow> k < d' \<Longrightarrow> \<exists>o'\<in>set os. o' \<le> k \<and> (\<forall>j\<in>set os. j \<le> o' \<or> k < j)
        \<and> value_at (take MAX_COMPOSITE_PERIODS ps) k = Some (f o')"
proof -
  let ?pts = "map (\<lambda>o'. (o', f o')) os"
  have m: "merged ?pts ps"
    unfolding ps_def using os d by (intro conjunct1 [OF merged_foldl]) (auto simp: comp_def)
  have srt: "sorted_wrt (\<lambda>a b. sp_start a < sp_start b) ps" using m by (simp add: merged_def)
  have ne: "os \<noteq> []" "ps \<noteq> []" using os(2) m by (auto simp: merged_def)
  have "hd os = 0" using os ne by (cases os) auto
  then have hd: "sp_start (hd ps) = 0" using m ne by (simp add: merged_def hd_map)
  have hd_take: "hd (take MAX_COMPOSITE_PERIODS ps) = hd ps"
    using ne by (simp add: hd_conv_nth MAX_COMPOSITE_PERIODS_def)
  show "sorted_wrt (\<lambda>a b. sp_start a < sp_start b) (take MAX_COMPOSITE_PERIODS ps)
    \<and> sp_start (hd (take MAX_COMPOSITE_PERIODS ps)) = 0
    \<and> (\<forall>(a, b)\<in>set (windows2 (take MAX_COMPOSITE_PERIODS ps)). differ a b)"
    using srt hd hd_take m windows2_take [of MAX_COMPOSITE_PERIODS ps]
    by (auto simp: sorted_wrt_take merged_def)
  have cut: "0 < sp_start (ps ! MAX_COMPOSITE_PERIODS)" if "length ps > MAX_COMPOSITE_PERIODS"
    using sorted_wrt_nth_less [OF srt _ that, of 0] hd ne by (simp add: hd_conv_nth MAX_COMPOSITE_PERIODS_def)
  have "0 < d" using os by force
  with cut show "0 < d' \<and> d' \<le> d" by (simp add: d'_def)
  fix k assume k: "0 \<le> k" "k < d'"
  have "value_at (take MAX_COMPOSITE_PERIODS ps) k = value_at ps k"
    using value_at_take [OF srt, of MAX_COMPOSITE_PERIODS k] k by (auto simp: d'_def split: if_splits)
  moreover have "value_at ps k = point_at ?pts k" using m by (simp add: merged_def)
  ultimately show "\<exists>o'\<in>set os. o' \<le> k \<and> (\<forall>j\<in>set os. j \<le> o' \<or> k < j)
        \<and> value_at (take MAX_COMPOSITE_PERIODS ps) k = Some (f o')"
    by (rule_tac point_at_offsets [OF os(1,2) k(1), of f]) auto
qed

text \<open>
  C35: \<open>GetCompositeSchedule\<close> is exact.  The answer starts at the truncated request time with a period
  at 0, its start times strictly increase, neighbouring periods differ, there are at most 1000 of them
  and the duration is positive and at most the one requested; and at every second of that duration the period in
  force shows exactly what the precedence rules give for that second: the winning limit and
  phases, or the station's own maximum where no profile applies.
\<close>

theorem composite_exact:
  assumes lib: "date_library add lo hi"
    and ok: "composite_schedule add entries req = Inr cc"
    and us: "us = usable_profiles entries req (sch_unit (cc_schedule cc)) (cc_schedule_start cc)"
      "bases_in us lo"
    and w: "lo \<le> cc_schedule_start cc" "cc_schedule_start cc + MAX_COMPOSITE_DURATION_S * ns_per_s \<le> hi"
  shows "cc_schedule_start cc = truncate_to_second (cq_now req)
    \<and> sorted_wrt (\<lambda>a b. sp_start a < sp_start b) (sch_periods (cc_schedule cc))
    \<and> sp_start (hd (sch_periods (cc_schedule cc))) = 0
    \<and> (\<forall>(a, b)\<in>set (windows2 (sch_periods (cc_schedule cc))). differ a b)
    \<and> length (sch_periods (cc_schedule cc)) \<le> MAX_COMPOSITE_PERIODS
    \<and> (\<exists>d. sch_duration (cc_schedule cc) = Some d \<and> 0 < d \<and> d \<le> cq_duration_s req
        \<and> d \<le> MAX_COMPOSITE_DURATION_S
        \<and> (\<forall>k. 0 \<le> k \<and> k < d \<longrightarrow>
             value_at (sch_periods (cc_schedule cc)) k =
               Some (shown (station_limit (cq_model req) (sch_unit (cc_schedule cc)))
                 (resolve_at us (cq_connector req) (cq_active_tx req)
                    (cc_schedule_start cc + k * ns_per_s) (\<lambda>_ p. sp_limit p)))))"
proof -
  define start where "start = truncate_to_second (cq_now req)"
  define d where "d = min (cq_duration_s req) MAX_COMPOSITE_DURATION_S"
  note c = composite_cases [OF ok, folded start_def d_def]
  have start: "cc_schedule_start cc = start" by (rule c(3))
  define f where "f = (\<lambda>o'. shown (station_limit (cq_model req) (sch_unit (cc_schedule cc)))
      (resolve_at us (cq_connector req) (cq_active_tx req) (start + o' * ns_per_s) (\<lambda>_ p. sp_limit p)))"
  define os where "os = change_offsets add us start d"
  define ps where "ps = foldl push_period [] (map (\<lambda>o'. (o', f o')) os)"
  have us': "us = usable_profiles entries req (sch_unit (cc_schedule cc)) start" using us(1) start by simp
  have periods: "sch_periods (cc_schedule cc) = take MAX_COMPOSITE_PERIODS ps"
    and dur: "sch_duration (cc_schedule cc) =
      Some (if length ps > MAX_COMPOSITE_PERIODS then min (sp_start (ps ! MAX_COMPOSITE_PERIODS)) d else d)"
    using c(5,6) by (simp_all add: ps_def f_def os_def us')
  have os: "sorted_wrt (<) os" "0 \<in> set os" "\<forall>o'\<in>set os. 0 \<le> o' \<and> o' < d"
    using c(1) by (auto simp: os_def change_offsets_strict in_change_offsets)
  have d: "d \<le> MAX_COMPOSITE_DURATION_S" "d \<le> cq_duration_s req" "d \<le> i32_max"
    by (simp_all add: d_def MAX_COMPOSITE_DURATION_S_def i32_max_def)
  have hi: "start + d * ns_per_s \<le> hi"
    using w(2) start mult_right_mono [OF d(1), of ns_per_s] by (simp add: ns_per_s_def)
  have const: "f o' = f k" if "o' \<in> set os" "o' \<le> k" "k < d" "\<forall>j\<in>set os. j \<le> o' \<or> k < j" for o' k
    using resolve_between_offsets [OF lib us(2) _ hi that(2) _ that(3)] that os(3) w(1) start
    by (simp add: f_def os_def)
  note ex = periods_exact [OF os d(3), where f = f, folded ps_def]
  have "value_at (sch_periods (cc_schedule cc)) k = Some (f k)"
    if "0 \<le> k" "k < (if length ps > MAX_COMPOSITE_PERIODS then min (sp_start (ps ! MAX_COMPOSITE_PERIODS)) d else d)" for k
  proof -
    have "k < d" using that(2) by (simp split: if_splits)
    with ex(3) [OF that] const show ?thesis by (metis periods)
  qed
  then show ?thesis
    using ex(1,2) d start by (simp add: periods dur f_def start_def)
qed

text \<open>
  The start of a composite schedule.  It is less than a second before the request and never after
  it; it is a whole second exactly when the clock shows whole milliseconds, because only the
  millisecond part is dropped.
\<close>

theorem truncate_to_second_spec:
  "truncate_to_second t \<le> t \<and> t - truncate_to_second t < ns_per_s
   \<and> (truncate_to_second t mod ns_per_s = 0 \<longleftrightarrow> t mod ns_per_ms = 0)"
proof -
  let ?m = "t mod ns_per_s"
  have m: "0 \<le> ?m" "?m < ns_per_s" by (simp_all add: ns_per_s_def)
  have tr: "truncate_to_second t = t - (?m - ?m mod ns_per_ms)"
    by (simp add: truncate_to_second_def minus_mod_eq_div_mult)
  have mm: "?m mod ns_per_ms = t mod ns_per_ms"
    by (simp add: ns_per_s_ms mod_mod_cancel)
  have r: "0 \<le> t mod ns_per_ms" "t mod ns_per_ms < ns_per_s" by (simp_all add: ns_per_ms_def ns_per_s_def)
  have "truncate_to_second t = (t div ns_per_s) * ns_per_s + t mod ns_per_ms"
    using tr mm div_mult_mod_eq [of t ns_per_s] by linarith
  then have "truncate_to_second t mod ns_per_s = t mod ns_per_ms"
    using r by (simp add: mod_pos_pos_trivial)
  moreover have "t mod ns_per_ms \<le> ?m"
    using mm m(1) by (metis ns_per_ms_pos zmod_le_nonneg_dividend)
  moreover have "t - truncate_to_second t < ns_per_s" using tr mm m r by linarith
  ultimately show ?thesis using tr mm by auto
qed

subsection \<open>Precedence\<close>

definition active :: "usable \<Rightarrow> connector_id \<Rightarrow> instant \<Rightarrow> limit_of \<Rightarrow> (stored_profile \<Rightarrow> bool) \<Rightarrow> candidate list" where
  "active us c t f P = List.map_filter (candidate_at c t f) (filter (\<lambda>eb. P (fst eb)) us)"

definition bound_tx_profile :: "connector_id \<Rightarrow> tx_id option \<Rightarrow> stored_profile \<Rightarrow> bool" where
  "bound_tx_profile c tx e \<longleftrightarrow> cp_purpose (pf_profile e) = TxProfile \<and> pf_connector e = c
     \<and> tx \<noteq> None \<and> pf_bound_tx e = tx"

definition default_profile :: "stored_profile \<Rightarrow> bool" where
  "default_profile e \<longleftrightarrow> cp_purpose (pf_profile e) = TxDefaultProfile"

definition cap_profile :: "stored_profile \<Rightarrow> bool" where
  "cap_profile e \<longleftrightarrow> cp_purpose (pf_profile e) = ChargePointMaxProfile \<and> is_station (pf_connector e)"

definition best_of :: "candidate option \<Rightarrow> candidate list \<Rightarrow> candidate option" where
  "best_of b cs = foldl (\<lambda>b x. Some (keep_higher b x)) b cs"

definition top_candidate :: "candidate list \<Rightarrow> candidate \<Rightarrow> bool" where
  "top_candidate cs m \<longleftrightarrow> m \<in> set cs \<and> (\<forall>x\<in>set cs. cd_rank x \<le> cd_rank m)"

lemma best_of_None [simp]: "best_of b cs = None \<longleftrightarrow> b = None \<and> cs = []"
  by (induction cs arbitrary: b) (auto simp: best_of_def)

lemma best_of_Nil [simp]: "best_of b [] = b"
  by (simp add: best_of_def)

lemma combine_both:
  assumes "cd_limit m \<noteq> NaN" and "cd_limit k \<noteq> NaN"
  shows "\<exists>x. combine (Some m) (Some k) = Some x \<and> rs_limit x \<in> {cd_limit m, cd_limit k}
    \<and> f_le (rs_limit x) (cd_limit m) \<and> f_le (rs_limit x) (cd_limit k)"
  using assms f_not_lt [of "cd_limit k" "cd_limit m"] f_le_refl [of "cd_limit m"] f_le_refl [of "cd_limit k"]
  by (auto simp: combine_def partial_cmp_def Let_def f_le_def)

lemma best_of_top: "best_of b cs = Some m \<Longrightarrow> top_candidate ((case b of None \<Rightarrow> [] | Some x \<Rightarrow> [x]) @ cs) m"
proof (induction cs arbitrary: b)
  case (Cons x cs)
  from Cons.prems have "best_of (Some (keep_higher b x)) cs = Some m" by (simp add: best_of_def)
  from Cons.IH [OF this] show ?case
    by (cases b) (auto simp: top_candidate_def keep_higher_def split: if_splits)
qed (auto simp: best_of_def top_candidate_def)

lemma resolve_fold:
  "foldl (resolve_step c tx t f) (a, b, d) us =
     (best_of a (active us c t f (bound_tx_profile c tx)), best_of b (active us c t f default_profile),
      best_of d (active us c t f cap_profile))"
proof (induction us arbitrary: a b d)
  case (Cons eb us)
  show ?case
  proof (cases "candidate_at c t f eb")
    case None
    then show ?thesis
      using Cons.IH by (simp add: resolve_step_def active_def List.map_filter_simps)
  next
    case (Some x)
    then show ?thesis
      using Cons.IH
      by (cases "cp_purpose (pf_profile (fst eb))")
        (auto simp: resolve_step_def active_def List.map_filter_simps best_of_def bound_tx_profile_def
          default_profile_def cap_profile_def)
  qed
qed (simp add: active_def best_of_def List.map_filter_simps)

text \<open>
  Precedence.  At any instant the highest-ranked active TxProfile of the running transaction
  decides, else the highest-ranked active TxDefaultProfile; the highest-ranked active
  ChargePointMaxProfile caps it, so the limit is the smaller of the two; there is no limit exactly when
  none of the three is active.
\<close>

theorem resolve_precedence:
  assumes "txs = active us c t f (bound_tx_profile c tx)" and "defs = active us c t f default_profile"
    and "caps = active us c t f cap_profile" and "\<forall>x\<in>set (txs @ defs @ caps). cd_limit x \<noteq> NaN"
  shows "case resolve_at us c tx t f of
      None \<Rightarrow> txs = [] \<and> defs = [] \<and> caps = []
    | Some r \<Rightarrow>
        (if caps = [] then \<exists>m. top_candidate (if txs \<noteq> [] then txs else defs) m \<and> rs_limit r = cd_limit m
         else if txs = [] \<and> defs = [] then \<exists>k. top_candidate caps k \<and> rs_limit r = cd_limit k
         else \<exists>m k. top_candidate (if txs \<noteq> [] then txs else defs) m \<and> top_candidate caps k
            \<and> rs_limit r \<in> {cd_limit m, cd_limit k}
            \<and> f_le (rs_limit r) (cd_limit m) \<and> f_le (rs_limit r) (cd_limit k))"
proof -
  let ?sel = "option_or (best_of None txs) (best_of None defs)" and ?cap = "best_of None caps"
  have r: "resolve_at us c tx t f = combine ?sel ?cap"
    using assms(1-3) by (simp add: resolve_at_def resolve_fold)
  have sel_top: "top_candidate (if txs \<noteq> [] then txs else defs) m" if "?sel = Some m" for m
    using that best_of_top [of None txs m] best_of_top [of None defs m]
    by (cases "best_of None txs") (auto split: if_splits)
  have cap_top: "top_candidate caps k" if "?cap = Some k" for k
    using best_of_top [OF that] by simp

  have none: "(?sel = None) = (txs = [] \<and> defs = [])" "(?cap = None) = (caps = [])" by simp_all
  show ?thesis
  proof (cases ?sel)
    case None
    then show ?thesis
      using none cap_top by (cases ?cap) (auto simp: r combine_def Let_def)
  next
    case (Some m)
    then have m: "top_candidate (if txs \<noteq> [] then txs else defs) m" "\<not> (txs = [] \<and> defs = [])"
      using sel_top none by auto
    show ?thesis
    proof (cases ?cap)
      case None
      then show ?thesis using Some m none by (auto simp: r combine_def Let_def)
    next
      case cap: (Some k)
      have in_m: "m \<in> set (txs @ defs)" using m by (auto simp: top_candidate_def split: if_splits)
      have k: "top_candidate caps k" by (rule cap_top [OF cap])
      then have in_k: "k \<in> set caps" by (simp add: top_candidate_def)
      have n: "cd_limit m \<noteq> NaN" "cd_limit k \<noteq> NaN" using assms(4) in_m in_k by auto
      obtain x where x: "combine ?sel ?cap = Some x" "rs_limit x \<in> {cd_limit m, cd_limit k}"
          "f_le (rs_limit x) (cd_limit m)" "f_le (rs_limit x) (cd_limit k)"
        using combine_both [OF n] Some cap by auto
      then show ?thesis using m k none cap r by auto
    qed
  qed
qed

subsection \<open>Power and energy\<close>

text \<open>A sound model: finite parameters that are not negative, and at least one phase.\<close>

definition model_ok :: "power_model \<Rightarrow> bool" where
  "model_ok m \<longleftrightarrow>
     (\<exists>w\<ge>0. pm_nominal_w m = Fin False w) \<and> (\<exists>v\<ge>0. pm_voltage_v m = Fin False v) \<and> 1 \<le> pm_phases m"

lemma nonneg_rnd: "0 \<le> q \<Longrightarrow> nonneg (rnd False q)"
  by (rule rnd_nonneg)

lemma rnd_zero [simp]: "rnd s 0 = Fin s 0"
  by (simp add: rnd_def)

lemma nonneg_mul_finite:
  assumes "nonneg x" and "is_finite x" and "0 \<le> k"
  shows "nonneg (f_mul x (Fin False k))"
  using assms rnd_nonneg by (auto simp: nonneg_iff [of x] nonneg_iff [of "Fin True 0"])

lemma nonneg_mul_pos: "nonneg x \<Longrightarrow> 0 < k \<Longrightarrow> nonneg (f_mul x (Fin False k))"
  using rnd_nonneg [of "_ * k"] by (auto simp: nonneg_iff [of x]) (auto simp: nonneg_iff)

lemma nonneg_div_pos: "nonneg x \<Longrightarrow> 0 < k \<Longrightarrow> nonneg (f_div x (Fin False k))"
  using rnd_nonneg [of "_ / k"] by (auto simp: nonneg_iff [of x]) (auto simp: nonneg_iff)

lemma nonneg_add: "nonneg x \<Longrightarrow> nonneg y \<Longrightarrow> nonneg (f_add x y)"
  using rnd_nonneg by (auto simp: nonneg_iff [of x] nonneg_iff [of y] Let_def nonneg_iff [of "Inf _"]
      nonneg_iff [of "Fin _ 0"])

lemma f64_from_pos: "0 < i \<Longrightarrow> \<exists>k>0. f64_from i = Fin False k"
  by (simp add: f64_from_def)

lemma period_at_member: "period_at p t base = Some q \<Longrightarrow> q \<in> set (sch_periods (cp_schedule p))"
  by (auto simp: period_at_def Let_def split: if_splits dest: max_by_key_SomeD)

lemma shape_limit:
  assumes "shape_error_of p = None" and "q \<in> set (sch_periods (cp_schedule p))" and "f64_wf (sp_limit q)"
  shows "nonneg (sp_limit q) \<and> is_finite (sp_limit q)"
proof -
  have "is_finite (sp_limit q) \<and> \<not> f_lt (sp_limit q) f_zero"
    using assms(1,2) by (auto simp: shape_error_of_def Let_def split: if_splits list.splits)
  with assms(3) show ?thesis
    by (cases "sp_limit q") (auto simp: nonneg_def f_le_def f_zero_def)
qed

definition limits_wf :: "profile_store \<Rightarrow> bool" where
  "limits_wf s = (\<forall>e\<in>set s. shape_error_of (pf_profile e) = None
     \<and> (\<forall>q\<in>set (sch_periods (cp_schedule (pf_profile e))). f64_wf (sp_limit q)))"

lemma power_limit_nonneg:
  assumes m: "model_ok (pq_model req)" and s: "limits_wf s" "e \<in> set s"
    and q: "q \<in> set (sch_periods (cp_schedule (pf_profile e)))"
  shows "nonneg (power_limit_of req e q)"
proof -
  have lim: "nonneg (sp_limit q)" "is_finite (sp_limit q)"
    using s q shape_limit by (auto simp: limits_wf_def)
  obtain v where v: "0 \<le> v" "pm_voltage_v (pq_model req) = Fin False v" using m by (auto simp: model_ok_def)
  have "1 \<le> pm_phases (pq_model req)" using m by (simp add: model_ok_def)
  then have "0 < (case sp_phases q of None \<Rightarrow> int (pm_phases (pq_model req))
      | Some n \<Rightarrow> max 1 (min n (int (pm_phases (pq_model req)))))" by (auto split: option.split)
  then obtain k where k: "0 < k" "period_phases (pq_model req) (sp_phases q) = Fin False k"
    using f64_from_pos by (fastforce simp: period_phases_def Let_def)
  have "nonneg (amps_to_watts (pq_model req) (sp_limit q) (sp_phases q))"
    unfolding amps_to_watts_def v(2) k(2) using lim v(1) k(1) by (intro nonneg_mul_pos nonneg_mul_finite)
  moreover obtain d where "0 < d" "f64_from (int (max (pq_charging_connectors req) 1)) = Fin False d"
    using f64_from_pos [of "int (max (pq_charging_connectors req) 1)"] by (auto simp: less_max_iff_disj)
  ultimately show ?thesis
    using lim(1) by (auto simp: power_limit_of_def Let_def nonneg_div_pos split: charging_rate_unit.split)
qed

lemma limit_w_nonneg:
  assumes "model_ok (pq_model req)" and "limits_wf s" and us: "set (map fst us) \<subseteq> set s"
    and l: "limit_w_resolved us req t = Some l"
  shows "nonneg l"
proof -
  let ?c = "pq_connector req" and ?tx = "pq_active_tx req" and ?f = "power_limit_of req"
  have cand: "nonneg (cd_limit x)" if "x \<in> set (active us ?c t ?f P)" for x P
  proof -
    obtain e base where eb: "(e, base) \<in> set us" "candidate_at ?c t ?f (e, base) = Some x"
      using \<open>x \<in> set (active us ?c t ?f P)\<close>
      by (auto simp: active_def List.map_filter_def)
    then obtain q where "period_at (pf_profile e) t base = Some q" "cd_limit x = ?f e q"
      by (auto simp: candidate_at_def)
    with eb us show ?thesis
      using power_limit_nonneg [OF assms(1,2)] period_at_member by (metis fst_conv image_eqI list.set_map subsetD)
  qed
  obtain r where r: "resolve_at us ?c ?tx t ?f = Some r" "l = rs_limit r"
    using l by (auto simp: limit_w_resolved_def)
  have best: "nonneg (cd_limit m)" if "best_of None (active us ?c t ?f P) = Some m" for m P
    using best_of_top [OF that] cand by (auto simp: top_candidate_def)
  define sel where "sel = option_or (best_of None (active us ?c t ?f (bound_tx_profile ?c ?tx)))
      (best_of None (active us ?c t ?f default_profile))"
  define cap where "cap = best_of None (active us ?c t ?f cap_profile)"
  have "nonneg (cd_limit m)" if "sel = Some m" for m
    using that best unfolding sel_def
    by (cases "best_of None (active us ?c t ?f (bound_tx_profile ?c ?tx))") auto
  moreover have "nonneg (cd_limit k)" if "cap = Some k" for k using that best by (simp add: cap_def)
  moreover have "combine sel cap = Some r" using r by (simp add: resolve_at_def resolve_fold sel_def cap_def)
  ultimately show ?thesis
    using r(2) by (auto simp: combine_def Let_def split: option.splits ordering.splits)
qed

text \<open>
  The power of a connector.  With well-formed profiles the limit in watts is a number at least zero, and
  the power the connector may draw lies between zero and the nominal power whatever the profiles say.
\<close>

theorem power_within_nominal:
  assumes "model_ok (pq_model req)" and "limits_wf s" and "limit = limit_w_at s req t"
  shows "(\<forall>l. limit = Some l \<longrightarrow> nonneg l)
    \<and> f_le f_zero (effective_w (pq_model req) limit)
    \<and> f_le (effective_w (pq_model req) limit) (pm_nominal_w (pq_model req))"
proof -
  have us: "set (map fst (power_profiles s req t)) \<subseteq> set s" by (auto simp: power_profiles_def)
  have nn: "\<forall>l. limit = Some l \<longrightarrow> nonneg l"
    using limit_w_nonneg [OF assms(1,2) us] assms(3) by (auto simp: limit_w_at_def)
  have nom: "f_le f_zero (pm_nominal_w (pq_model req))"
    using assms(1) by (auto simp: model_ok_def f_le_def f_zero_def)
  show ?thesis
  proof (cases limit)
    case None
    then show ?thesis using nom nn f_le_not_NaN [OF nom] by (simp add: effective_w_def f_le_refl)
  next
    case (Some l)
    with nn have "l \<noteq> NaN" using nonneg_not_NaN by blast
    then show ?thesis using f_clamp_between [OF _ nom, of l] Some nn by (simp add: effective_w_def)
  qed
qed

text \<open>
  The energy counted over any stretch of time is a number at least zero (so the register never runs
  backwards), and zero over an empty stretch; the conversion of a span to seconds only has to be finite and
  not negative for spans that are not negative.
\<close>

theorem energy_nonneg:
  assumes m: "model_ok (pq_model req)" and s: "limits_wf s"
    and secs: "\<And>d. 0 \<le> d \<Longrightarrow> \<exists>k\<ge>0. secs_f64 d = Fin False k"
  shows "nonneg (energy_wh add secs_f64 s req from to)
    \<and> (to \<le> from \<longrightarrow> energy_wh add secs_f64 s req from to = f_zero)"
proof -
  let ?us = "power_profiles s req from"
  let ?cuts = "sort (remdups ([from, to] @ concat (map (\<lambda>(e, base).
      change_instants add (pf_profile e) base from to) ?us)))"
  let ?part = "\<lambda>(a, b). f_div (f_mul (effective_w (pq_model req) (limit_w_resolved ?us req (a + trunc_div (b - a) 2)))
      (secs_f64 (b - a))) (f64_from 3600)"
  have us: "set (map fst ?us) \<subseteq> set s" by (auto simp: power_profiles_def)
  have each: "nonneg (?part ab)" if "ab \<in> set (windows2 ?cuts)" for ab
  proof -
    obtain a b where ab: "ab = (a, b)" by force
    have "sorted ?cuts" by simp
    then have "a \<le> b"
      using that ab sorted_nth_mono [of ?cuts] by (fastforce simp: windows2_def set_zip nth_tl)
    then obtain k where k: "0 \<le> k" "secs_f64 (b - a) = Fin False k" using secs [of "b - a"] by auto
    let ?p = "effective_w (pq_model req) (limit_w_resolved ?us req (a + trunc_div (b - a) 2))"
    obtain w where w: "0 \<le> w" "pm_nominal_w (pq_model req) = Fin False w" using m by (auto simp: model_ok_def)
    have "nonneg ?p \<and> is_finite ?p"
    proof (cases "limit_w_resolved ?us req (a + trunc_div (b - a) 2)")
      case (Some l)
      then have "nonneg l" using limit_w_nonneg [OF m s us] by blast
      with Some w show ?thesis
        by (auto simp: effective_w_def f_clamp_def f_zero_def nonneg_iff [of l] Let_def nonneg_iff [of "Fin _ _"])
    qed (use w in \<open>simp add: effective_w_def nonneg_iff\<close>)
    then show ?thesis
      using k ab by (simp add: f64_from_def nonneg_div_pos nonneg_mul_finite)
  qed
  have sum: "nonneg (foldl f_add z xs)" if "nonneg z" "\<forall>x\<in>set xs. nonneg x" for z xs
    using that by (induction xs arbitrary: z) (auto simp: nonneg_add)
  have "nonneg (foldl f_add (Fin True 0) (map ?part (windows2 ?cuts)))"
    using each by (intro sum) (auto simp: nonneg_iff)
  moreover have "nonneg f_zero" by (simp add: nonneg_iff f_zero_def)
  ultimately show ?thesis
    unfolding energy_wh_def Let_def by (cases "to \<le> from") (simp_all only: if_True if_False simp_thms)
qed

subsection \<open>A concrete schedule\<close>

definition demo_add :: "instant \<Rightarrow> i64 \<Rightarrow> instant option" where
  "demo_add i ms = (if - (10 ^ 24) \<le> i + ms * ns_per_ms \<and> i + ms * ns_per_ms \<le> 10 ^ 24
     then Some (i + ms * ns_per_ms) else None)"

definition demo_default :: charging_profile where
  "demo_default = \<lparr>cp_id = 1, cp_transaction_id = None, cp_stack_level = 0, cp_purpose = TxDefaultProfile,
     cp_kind = Absolute, cp_recurrency = None, cp_valid_from = None, cp_valid_to = None,
     cp_schedule = \<lparr>sch_duration = None, sch_start = Some 0, sch_unit = Unit_A,
       sch_periods = [\<lparr>sp_start = 0, sp_limit = f64_from 16, sp_phases = None\<rparr>,
                      \<lparr>sp_start = 60, sp_limit = f64_from 10, sp_phases = Some 1\<rparr>],
       sch_min_rate = None\<rparr>\<rparr>"

definition demo_entries :: profile_store where
  "demo_entries = [\<lparr>pf_connector = 0, pf_profile = demo_default, pf_bound_tx = None, pf_installed_at = Some 0\<rparr>]"

definition demo_model :: power_model where
  "demo_model = \<lparr>pm_nominal_w = f64_from 11040, pm_voltage_v = f64_from 230, pm_phases = 3\<rparr>"

definition demo_composite :: composite_request where
  "demo_composite = \<lparr>cq_connector = 1, cq_duration_s = 100, cq_unit = None, cq_now = 0,
     cq_connector_count = 1, cq_active_tx = None, cq_tx_started_at = None, cq_model = demo_model\<rparr>"

definition demo_answer :: composite where
  "demo_answer = \<lparr>cc_connector = 1, cc_schedule_start = 0, cc_schedule =
     \<lparr>sch_duration = Some 100, sch_start = Some 0, sch_unit = Unit_A,
       sch_periods = [\<lparr>sp_start = 0, sp_limit = f64_from 16, sp_phases = None\<rparr>,
                      \<lparr>sp_start = 60, sp_limit = f64_from 10, sp_phases = Some 1\<rparr>],
       sch_min_rate = None\<rparr>\<rparr>"

lemma demo_composite_eq: "composite_schedule demo_add demo_entries demo_composite = Inr demo_answer"
  by code_simp

lemma demo_library: "date_library demo_add (- (10 ^ 24)) (10 ^ 24)"
  by (simp add: date_library_def demo_add_def i64_max_def ns_per_ms_def)

lemma demo_shape: "shape_error_of demo_default = None"
  by code_simp

theorem composite_exact_witness:
  "value_at (sch_periods (cc_schedule demo_answer)) 59 =
     Some (shown (station_limit demo_model Unit_A)
       (resolve_at (usable_profiles demo_entries demo_composite Unit_A 0) 1 None (59 * ns_per_s) (\<lambda>_ p. sp_limit p)))"
proof -
  have "bases_in (usable_profiles demo_entries demo_composite Unit_A 0) (- (10 ^ 24))"
    by (simp add: bases_in_def usable_profiles_def demo_entries_def demo_shape schedule_base_def)
      (simp add: demo_default_def)
  then show ?thesis
    using composite_exact [OF demo_library demo_composite_eq refl]
    by (auto simp: demo_answer_def demo_composite_def ns_per_s_def MAX_COMPOSITE_DURATION_S_def)
qed

lemma demo_limits_wf: "limits_wf demo_entries"
  by (simp add: limits_wf_def demo_entries_def demo_shape) (simp add: demo_default_def f64_from_def)

definition demo_power :: power_request where
  "demo_power = \<lparr>pq_connector = 1, pq_active_tx = None, pq_tx_started_at = None, pq_model = demo_model,
     pq_charging_connectors = 1\<rparr>"

lemma demo_model_ok: "model_ok (pq_model demo_power)"
  by (simp add: model_ok_def demo_power_def demo_model_def f64_from_def)

theorem resolve_precedence_witness:
  "resolve_at (usable_profiles demo_entries demo_composite Unit_A 0) 1 None 0 (\<lambda>_ p. sp_limit p) \<noteq> None"
proof -
  let ?us = "usable_profiles demo_entries demo_composite Unit_A 0"
  have "active ?us 1 0 (\<lambda>_ p. sp_limit p) (bound_tx_profile 1 None) = []
      \<and> map cd_limit (active ?us 1 0 (\<lambda>_ p. sp_limit p) default_profile) = [f64_from 16]
      \<and> active ?us 1 0 (\<lambda>_ p. sp_limit p) cap_profile = []"
    by code_simp
  then show ?thesis
    using resolve_precedence [OF refl refl refl, of ?us 1 0 "\<lambda>_ p. sp_limit p" None]
    by (auto simp: f64_from_def split: option.splits)
qed

theorem power_within_nominal_witness:
  "f_le (effective_w demo_model (limit_w_at demo_entries demo_power 0)) (f64_from 11040)"
  using power_within_nominal [OF demo_model_ok demo_limits_wf refl, of 0]
  by (simp add: demo_power_def demo_model_def)

definition demo_secs :: "int \<Rightarrow> f64" where
  "demo_secs d = Fin False (of_int \<bar>d\<bar> / 1000000000)"

theorem energy_nonneg_witness:
  "nonneg (energy_wh demo_add demo_secs demo_entries demo_power 0 ns_per_s)"
proof -
  have "\<exists>k\<ge>0. demo_secs d = Fin False k" if "0 \<le> d" for d
    using that by (intro exI [of _ "of_int d / 1000000000"]) (simp add: demo_secs_def)
  from energy_nonneg [OF demo_model_ok demo_limits_wf this] show ?thesis by simp
qed

end
