(* ===== verification/Response_Rules_Laws.thy ===== *)
theory Response_Rules_Laws
  imports Response_Rules
begin

text \<open>
  Laws of response rules: which rules survive the trip through their text form, and what a list of
  rules does to a sequence of CALLs.
\<close>

subsection \<open>Splitting and trimming\<close>

lemma split_once_append: "d \<notin> set a \<Longrightarrow> split_once d (a @ d # b) = Some (a, b)"
  by (induction a) auto

lemma split_once_None: "split_once d s = None \<longleftrightarrow> d \<notin> set s"
  by (induction s) auto

lemma split_once_SomeD: "split_once d s = Some (a, b) \<Longrightarrow> s = a @ d # b \<and> d \<notin> set a"
  by (induction s arbitrary: a) (auto split: if_splits)

lemma rsplit_once_append: "d \<notin> set b \<Longrightarrow> rsplit_once d (a @ d # b) = Some (a, b)"
  by (simp add: rsplit_once_def split_once_append)

lemma rsplit_once_None: "rsplit_once d s = None \<longleftrightarrow> d \<notin> set s"
  by (simp add: rsplit_once_def split_once_None)

lemma rsplit_once_suffix: "d \<in> set b \<Longrightarrow> rsplit_once d (a @ b) = map_option (\<lambda>(h, t). (a @ h, t)) (rsplit_once d b)"
proof -
  assume "d \<in> set b"
  then obtain h t where b: "b = h @ d # t" "d \<notin> set t" by (meson split_list_last)
  then show ?thesis using rsplit_once_append [of d t h] rsplit_once_append [of d t "a @ h"] by simp
qed

text \<open>A text without white space at its ends.\<close>

definition trimmed :: "string \<Rightarrow> bool" where
  "trimmed s = (s = [] \<or> \<not> is_space (hd s) \<and> \<not> is_space (last s))"

lemma trim_end_id: "s = [] \<or> \<not> is_space (last s) \<Longrightarrow> trim_end s = s"
  unfolding trim_end_def using dropWhile_id [of "rev s" is_space] by (auto simp: hd_rev)

lemma trim_id: "trimmed s \<Longrightarrow> trim s = s"
  using dropWhile_id [of s is_space] trim_end_id [of s] by (auto simp: trim_def trimmed_def trim_end_def)

lemma trimmed_trim: "trimmed (trim s)"
proof -
  have "dropWhile is_space (trim s) = trim s"
  proof -
    let ?a = "dropWhile is_space s"
    have a: "?a = [] \<or> \<not> is_space (hd ?a)" using hd_dropWhile by blast
    show ?thesis
      by (rule dropWhile_id)
        (use dropWhile_rev_dropWhile_hd [where P = is_space and s = ?a and t = "trim s", OF a] in \<open>simp add: trim_def\<close>)
  qed
  then have "trim s = [] \<or> \<not> is_space (hd (trim s))" by (metis hd_dropWhile)
  moreover have "trim s = [] \<or> \<not> is_space (last (trim s))"
    unfolding trim_def by (metis hd_dropWhile hd_rev rev_is_Nil_conv rev_rev_ident)
  ultimately show ?thesis by (auto simp: trimmed_def)
qed

lemma trim_suffix: "\<exists>pre post. s = pre @ trim s @ post \<and> (\<forall>c\<in>set post. is_space c)"
proof -
  let ?a = "dropWhile is_space s"
  have "s = takeWhile is_space s @ ?a" by simp
  moreover have "?a = trim s @ rev (takeWhile is_space (rev ?a))"
    unfolding trim_def by (metis rev_append rev_rev_ident takeWhile_dropWhile_id)
  ultimately show ?thesis
    by (metis set_rev set_takeWhileD)
qed

lemma digits_not: "list_all is_ascii_digit s \<Longrightarrow> CHR ''*'' \<notin> set s" "list_all is_ascii_digit s \<Longrightarrow> trimmed s"
proof -
  assume d: "list_all is_ascii_digit s"
  show "CHR ''*'' \<notin> set s"
    using d by (auto simp: list_all_iff is_ascii_digit_def char_code_def)
  have "c \<in> set s \<Longrightarrow> \<not> is_space c" for c using d digit_not_space by (auto simp: list_all_iff)
  then show "trimmed s" by (cases s) (auto simp: trimmed_def)
qed

lemma parse_u64_show_nat: "n \<le> u64_bound \<Longrightarrow> parse_u64 (show_nat n) = Some n"
proof -
  assume n: "n \<le> u64_bound"
  obtain c r where s: "show_nat n = c # r" by (cases "show_nat n") auto
  with show_nat_digits [of n] have "c \<noteq> CHR ''+''" by (auto dest: digit_not_plus)
  with s n parse_digits_show_nat [of n] show ?thesis by (simp add: parse_u64_def)
qed

subsection \<open>Well-formed rules\<close>

definition behavior_wf :: "behavior \<Rightarrow> bool" where
  "behavior_wf b =
     (case b of
        Beh_Delay ms \<Rightarrow> ms \<le> MAX_DELAY_MS
      | Beh_Error code description \<Rightarrow>
          code \<in> set STANDARD \<and> is_none_or description (\<lambda>t. t \<noteq> [] \<and> trimmed t)
      | _ \<Rightarrow> True)"

text \<open>
  A rule the text form can carry: its parts are in range, and without a count its behavior does not end
  like one.
\<close>

definition rule_wf :: "response_rule \<Rightarrow> bool" where
  "rule_wf r =
     (ru_action r \<in> set INBOUND_ACTIONS \<and> behavior_wf (ru_behavior r)
      \<and> (case ru_remaining r of
           None \<Rightarrow> star_count (show_behavior (ru_behavior r)) = None
         | Some count \<Rightarrow> 0 < count \<and> count \<le> u32_max))"

lemma action_facts:
  assumes "a \<in> set INBOUND_ACTIONS"
  shows "canonical_action a = Inr a" "CHR ''='' \<notin> set a"
proof -
  have "list_all (\<lambda>a. canonical_action a = Inr a \<and> CHR ''='' \<notin> set a) INBOUND_ACTIONS" by code_simp
  with assms show "canonical_action a = Inr a" "CHR ''='' \<notin> set a" by (auto simp: list_all_iff)
qed

lemma canonical_in: "canonical_action s = Inr a \<Longrightarrow> a \<in> set INBOUND_ACTIONS"
  by (auto simp: canonical_action_def find_Some_iff split: option.splits)

lemma code_facts:
  assumes "c \<in> set STANDARD"
  shows "find (\<lambda>known. eq_ignore_ascii_case (code_str known) (code_str c)) STANDARD = Some c"
    "CHR '':'' \<notin> set (code_str c)" "CHR ''*'' \<notin> set (code_str c)" "trimmed (code_str c)" "code_str c \<noteq> []"
proof -
  have "list_all (\<lambda>c. find (\<lambda>known. eq_ignore_ascii_case (code_str known) (code_str c)) STANDARD = Some c
      \<and> CHR '':'' \<notin> set (code_str c) \<and> CHR ''*'' \<notin> set (code_str c) \<and> trimmed (code_str c) \<and> code_str c \<noteq> []) STANDARD"
    by code_simp
  with assms show "find (\<lambda>known. eq_ignore_ascii_case (code_str known) (code_str c)) STANDARD = Some c"
    "CHR '':'' \<notin> set (code_str c)" "CHR ''*'' \<notin> set (code_str c)" "trimmed (code_str c)" "code_str c \<noteq> []"
    by (auto simp: list_all_iff)
qed

lemma name_facts:
  "trim ''delay'' = ''delay''" "trim ''error'' = ''error''" "lower ''delay'' = ''delay''" "lower ''error'' = ''error''"
  by code_simp+

lemma parse_show_error:
  assumes "behavior_wf (Beh_Error code description)"
  shows "parse_error (code_str code @ (case description of None \<Rightarrow> [] | Some t \<Rightarrow> '':'' @ t)) = Inr (Beh_Error code description)"
proof (cases description)
  case None
  then show ?thesis
    using assms code_facts [of code] by (simp add: parse_error_def behavior_wf_def split_once_None [THEN iffD2] trim_id)
next
  case (Some t)
  then have "trim t = t" "t \<noteq> []" using assms by (simp_all add: behavior_wf_def trim_id)
  then show ?thesis
    using assms code_facts [of code] by (simp add: parse_error_def behavior_wf_def Some split_once_append trim_id)
qed

lemma plain_behaviors:
  "parse_behavior (show_behavior Beh_Reject) = Inr Beh_Reject" "parse_behavior (show_behavior Beh_Drop) = Inr Beh_Drop"
  "parse_behavior (show_behavior Beh_Ignore) = Inr Beh_Ignore" "trimmed (show_behavior Beh_Reject)"
  "trimmed (show_behavior Beh_Drop)" "trimmed (show_behavior Beh_Ignore)"
  by code_simp+

lemma parse_show_behavior:
  assumes "behavior_wf b"
  shows "parse_behavior (show_behavior b) = Inr b"
proof (cases b)
  case (Beh_Delay ms)
  have "ms \<le> u64_bound" using assms by (simp add: behavior_wf_def Beh_Delay MAX_DELAY_MS_def u64_bound_def)
  moreover have "trim (show_nat ms) = show_nat ms" by (simp add: trim_id digits_not show_nat_digits)
  ultimately show ?thesis
    using assms name_facts by (simp add: Beh_Delay parse_behavior_def parse_u64_show_nat behavior_wf_def)
next
  case (Beh_Error code description)
  then show ?thesis using assms parse_show_error [of code description] name_facts by (simp add: parse_behavior_def)
qed (simp_all only: plain_behaviors)

lemma show_behavior_ends:
  assumes "behavior_wf b"
  shows "trimmed (show_behavior b)" "show_behavior b \<noteq> []"
proof -
  have app: "trimmed t \<Longrightarrow> t \<noteq> [] \<Longrightarrow> trimmed (c # s @ t)" if "\<not> is_space c" for c s t
    using that by (auto simp: trimmed_def)
  have sp: "\<not> is_space CHR ''d''" "\<not> is_space CHR ''e''" by code_simp+
  show "trimmed (show_behavior b)"
  proof (cases b)
    case (Beh_Delay ms)
    then show ?thesis using app [OF sp(1), of "show_nat ms" "''elay:''"] by (simp add: digits_not show_nat_digits)
  next
    case (Beh_Error code description)
    then show ?thesis
      using assms code_facts [of code] app [OF sp(2), of "code_str code" "''rror:''"]
        app [OF sp(2), of _ "''rror:'' @ code_str code @ '':''"]
      by (cases description) (simp_all add: behavior_wf_def)
  qed (simp_all only: plain_behaviors)
  show "show_behavior b \<noteq> []" by (cases b) simp_all
qed

lemma parse_show_rule:
  assumes "rule_wf r"
  shows "parse_rule (show_rule r) = Inr r"
proof -
  let ?b = "show_behavior (ru_behavior r)"
  let ?rest = "?b @ (case ru_remaining r of None \<Rightarrow> [] | Some count \<Rightarrow> ''*'' @ show_nat count)"
  have a: "canonical_action (ru_action r) = Inr (ru_action r)" "CHR ''='' \<notin> set (ru_action r)"
    and b: "behavior_wf (ru_behavior r)"
    using assms action_facts [of "ru_action r"] by (simp_all add: rule_wf_def)
  note e = show_behavior_ends [OF b]
  have "last (show_nat n) \<in> set (show_nat n)" for n by simp
  then have "\<not> is_space (last (show_nat n))" for n
    using show_nat_digits [of n] digit_not_space by (auto simp: list_all_iff)
  then have "trimmed ?rest" using e by (auto simp: trimmed_def split: option.split)
  then have rest: "trim ?rest = ?rest" by (rule trim_id)
  have "star_count (?b @ CHR ''*'' # show_nat n) = Some (?b, show_nat n)" for n
    using digits_not(1) [OF show_nat_digits [of n]] by (simp add: star_count_def rsplit_once_append show_nat_digits)
  moreover have "trim_end ?b = ?b" using e by (auto simp: trimmed_def intro: trim_end_id)
  moreover have "split_once CHR ''='' (show_rule r) = Some (ru_action r, ?rest)"
    using a(2) by (simp add: show_rule_def split_once_append)
  ultimately show ?thesis
    using assms parse_show_behavior [OF b] a(1) rest
    by (cases "ru_remaining r") (simp_all add: parse_rule_def and_then_def rule_wf_def parse_u32_show_nat)
qed

subsection \<open>What the parser accepts\<close>

lemma parse_behavior_wf: "parse_behavior s = Inr b \<Longrightarrow> behavior_wf b"
proof -
  assume p: "parse_behavior s = Inr b"
  have "parse_error a = Inr b \<Longrightarrow> behavior_wf b" for a
    using trimmed_trim
    by (auto simp: parse_error_def behavior_wf_def find_Some_iff is_none_or_iff Let_def split: option.splits)
  with p show ?thesis
    by (auto simp: parse_behavior_def behavior_wf_def Let_def split: option.splits if_splits)
qed

lemma behavior_star:
  assumes p: "parse_behavior s = Inr b" and s: "trimmed s" "star_count s = None"
  shows "star_count (show_behavior b) = None"
proof (cases "\<exists>code t. b = Beh_Error code (Some t) \<and> CHR ''*'' \<in> set t")
  case True
  then obtain code t where b: "b = Beh_Error code (Some t)" "CHR ''*'' \<in> set t" by blast
  then obtain n a where a: "split_once CHR '':'' s = Some (n, a)" "parse_error a = Inr b"
    using p by (auto simp: parse_behavior_def Let_def split: option.splits if_splits)
  then obtain c d where d: "split_once CHR '':'' a = Some (c, d)" "t = trim d"
    using b(1) by (auto simp: parse_error_def Let_def split: option.splits if_splits)
  then have sd: "s = n @ CHR '':'' # c @ CHR '':'' # d" using a split_once_SomeD by fastforce
  obtain pre post where dt: "d = pre @ t @ post" "\<forall>c\<in>set post. is_space c"
    using trim_suffix [of d] d(2) by blast
  have "post = []"
  proof (rule ccontr)
    assume "post \<noteq> []"
    then have "is_space (last s)" using dt sd by simp
    then show False using s(1) sd by (auto simp: trimmed_def)
  qed
  then have "s = (n @ CHR '':'' # c @ CHR '':'' # pre) @ t" using sd dt by simp
  then have "rsplit_once CHR ''*'' s = map_option (\<lambda>(h, u). ((n @ CHR '':'' # c @ CHR '':'' # pre) @ h, u)) (rsplit_once CHR ''*'' t)"
    using rsplit_once_suffix [OF b(2)] by metis
  moreover have "rsplit_once CHR ''*'' (show_behavior b)
      = map_option (\<lambda>(h, u). ((''error:'' @ code_str code @ '':'') @ h, u)) (rsplit_once CHR ''*'' t)"
    using rsplit_once_suffix [OF b(2), of "''error:'' @ code_str code @ '':''"] by (simp add: b(1))
  ultimately show ?thesis
    using s(2) by (cases "rsplit_once CHR ''*'' t") (auto simp: star_count_def)
next
  case False
  have "CHR ''*'' \<notin> set (show_behavior b)"
    using False parse_behavior_wf [OF p] digits_not(1) [OF show_nat_digits] code_facts(3)
    by (cases b) (auto simp: behavior_wf_def split: option.splits)
  then show ?thesis by (simp add: star_count_def rsplit_once_None [THEN iffD2])
qed

lemma parse_rule_wf: "parse_rule s = Inr r \<Longrightarrow> rule_wf r"
proof -
  assume p: "parse_rule s = Inr r"
  obtain a rest where s: "split_once CHR ''='' s = Some (a, rest)" "canonical_action a = Inr (ru_action r)"
    using p by (auto simp: parse_rule_def and_then_def Let_def split: option.splits sum.splits if_splits)
  then have a: "ru_action r \<in> set INBOUND_ACTIONS" using canonical_in by blast
  show ?thesis
  proof (cases "star_count (trim rest)")
    case None
    then obtain b where "parse_behavior (trim rest) = Inr b" "r = \<lparr>ru_action = ru_action r, ru_behavior = b, ru_remaining = None\<rparr>"
      using p s by (auto simp: parse_rule_def and_then_def split: sum.splits)
    then have "parse_behavior (trim rest) = Inr (ru_behavior r)" "ru_remaining r = None"
      by (metis response_rule.select_convs(2), metis response_rule.select_convs(3))
    then show ?thesis
      using a None parse_behavior_wf behavior_star trimmed_trim by (simp add: rule_wf_def)
  next
    case (Some ht)
    then obtain count b where "0 < count" "count \<le> u32_max" "parse_behavior (trim_end (fst ht)) = Inr b"
        "r = \<lparr>ru_action = ru_action r, ru_behavior = b, ru_remaining = Some count\<rparr>"
      using p s by (auto simp: parse_rule_def and_then_def parse_u32_def Let_def option_filter_eq_Some
          split: sum.splits option.splits if_splits prod.splits)
    then have "0 < count" "count \<le> u32_max" "parse_behavior (trim_end (fst ht)) = Inr (ru_behavior r)" "ru_remaining r = Some count"
      by (simp, simp, metis response_rule.select_convs(2), metis response_rule.select_convs(3))
    then show ?thesis using a parse_behavior_wf by (simp add: rule_wf_def)
  qed
qed

text \<open>C36: the text form of a rule is read back as the rule exactly for the well-formed rules, and the
  parser only ever yields those: the action is a command the central system may send, a delay is at most an
  hour, an error has one of the ten codes and a trimmed, non-empty description, a count is a positive
  32-bit number, and a rule without a count does not end in a star and digits.\<close>

theorem rule_text_roundtrip:
  "(parse_rule (show_rule r) = Inr r) = rule_wf r \<and> (\<forall>s. parse_rule s = Inr r \<longrightarrow> rule_wf r)"
  using parse_show_rule parse_rule_wf by blast

theorem rule_text_roundtrip_witness:
  "rule_wf \<lparr>ru_action = ''Reset'', ru_behavior = Beh_Error GenericError (Some ''no * 2''), ru_remaining = Some 3\<rparr>"
proof -
  have "parse_rule '' reset =error:genericerror: no * 2 *3'' = Inr
      \<lparr>ru_action = ''Reset'', ru_behavior = Beh_Error GenericError (Some ''no * 2''), ru_remaining = Some 3\<rparr>"
    by code_simp
  with rule_text_roundtrip show ?thesis by blast
qed

text \<open>The comment on the printer promises more: a rule built otherwise may be read back as another one.\<close>

lemma rule_text_not_injective:
  "parse_rule (show_rule \<lparr>ru_action = ''Reset'', ru_behavior = Beh_Error GenericError (Some ''try*5''), ru_remaining = None\<rparr>)
   = Inr \<lparr>ru_action = ''Reset'', ru_behavior = Beh_Error GenericError (Some ''try''), ru_remaining = Some 5\<rparr>"
  by code_simp

subsection \<open>Lists of rules\<close>

definition one_per_action :: "response_rule list \<Rightarrow> bool" where
  "one_per_action rules = distinct (map ru_action rules)"

text \<open>The rule in force for an action.\<close>

definition rule_of :: "response_rule list \<Rightarrow> string \<Rightarrow> response_rule option" where
  "rule_of rules action = find (\<lambda>r. ru_action r = action) rules"

lemma rule_of_SomeD: "rule_of rules a = Some r \<Longrightarrow> \<exists>xs ys. rules = xs @ r # ys \<and> ru_action r = a \<and> (\<forall>x\<in>set xs. ru_action x \<noteq> a)"
  unfolding rule_of_def find_Some_iff
  by (metis id_take_nth_drop in_set_conv_nth length_take min.absorb4 nth_take)

lemma rule_of_append: "rule_of (xs @ ys) a = (case rule_of xs a of None \<Rightarrow> rule_of ys a | Some r \<Rightarrow> Some r)"
  by (induction xs) (auto simp: rule_of_def)

lemma rule_of_Cons: "rule_of (r # ys) a = (if ru_action r = a then Some r else rule_of ys a)"
  by (simp add: rule_of_def)

lemma rule_of_single: "rule_of [r] a = (if ru_action r = a then Some r else None)"
  by (simp add: rule_of_def)

lemma rule_of_None: "rule_of rules a = None \<longleftrightarrow> a \<notin> ru_action ` set rules"
  by (auto simp: rule_of_def find_None_iff)

lemma update_first_split:
  "\<forall>x\<in>set xs. \<not> P x \<Longrightarrow> P y \<Longrightarrow> update_first P f (xs @ y # ys) = xs @ f y # ys"
  by (induction xs) auto

lemma set_rule_spec:
  assumes "one_per_action rules"
  shows "one_per_action (set_rule rule rules)"
    "rule_of (set_rule rule rules) a = (if a = ru_action rule then Some rule else rule_of rules a)"
proof -
  show "one_per_action (set_rule rule rules)"
    and "rule_of (set_rule rule rules) a = (if a = ru_action rule then Some rule else rule_of rules a)"
  proof (atomize(full), cases "rule_of rules (ru_action rule)")
    case None
    then have "set_rule rule rules = rules @ [rule]" by (simp add: set_rule_def rule_of_def)
    then show "one_per_action (set_rule rule rules)
        \<and> rule_of (set_rule rule rules) a = (if a = ru_action rule then Some rule else rule_of rules a)"
      using assms None rule_of_None [of rules "ru_action rule"] by (simp add: one_per_action_def rule_of_append rule_of_single split: option.split)
  next
    case (Some r)
    then obtain xs ys where s: "rules = xs @ r # ys" "ru_action r = ru_action rule" "\<forall>x\<in>set xs. ru_action x \<noteq> ru_action rule"
      using rule_of_SomeD [OF Some] by blast
    have "set_rule rule rules = xs @ rule # ys"
      using Some s update_first_split [of xs "\<lambda>r. ru_action r = ru_action rule" r] by (simp add: set_rule_def rule_of_def)
    then show "one_per_action (set_rule rule rules)
        \<and> rule_of (set_rule rule rules) a = (if a = ru_action rule then Some rule else rule_of rules a)"
      using assms s rule_of_None [of xs "ru_action rule"]
      by (auto simp: one_per_action_def rule_of_append rule_of_Cons split: option.split)
  qed
qed

definition spent :: "response_rule \<Rightarrow> response_rule option" where
  "spent r = (case ru_remaining r of None \<Rightarrow> Some r | Some n \<Rightarrow> if n \<le> 1 then None else Some (r\<lparr>ru_remaining := Some (n - 1)\<rparr>))"

lemma take_rule_spec:
  assumes "one_per_action rules"
  shows "fst (take_rule a rules) = map_option ru_behavior (rule_of rules a)"
    "one_per_action (snd (take_rule a rules))"
    "rule_of (snd (take_rule a rules)) b = (if b = a then Option.bind (rule_of rules a) spent else rule_of rules b)"
proof -
  have "fst (take_rule a rules) = map_option ru_behavior (rule_of rules a) \<and> one_per_action (snd (take_rule a rules))
    \<and> rule_of (snd (take_rule a rules)) b = (if b = a then Option.bind (rule_of rules a) spent else rule_of rules b)"
  proof (cases "rule_of rules a")
    case None
    then have "position (\<lambda>r. ru_action r = a) rules = None" by (auto simp: rule_of_None position_None)
    then show ?thesis using assms None by (simp add: take_rule_def)
  next
    case (Some r)
    then obtain xs ys where s: "rules = xs @ r # ys" "ru_action r = a" "\<forall>x\<in>set xs. ru_action x \<noteq> a"
      using rule_of_SomeD [OF Some] by blast
    have p: "position (\<lambda>r. ru_action r = a) rules = Some (length xs)"
      unfolding position_Some_iff using s by (auto simp: nth_append)
    have t: "take_rule a rules = (Some (ru_behavior r), case spent r of None \<Rightarrow> xs @ ys | Some r' \<Rightarrow> xs @ r' # ys)"
      by (cases "ru_remaining r")
         (auto simp: take_rule_def p [unfolded s(1)] Let_def s(1) nth_append list_update_append remove_nth_def spent_def)
    have r': "spent r = Some r' \<Longrightarrow> ru_action r' = a" for r'
      using s(2) by (auto simp: spent_def split: option.splits if_splits)
    have no: "rule_of xs a = None" "rule_of ys a = None"
      using assms s by (auto simp: rule_of_None one_per_action_def)
    show ?thesis
    proof (cases "spent r")
      case None
      then show ?thesis using assms s no
        by (auto simp: t [unfolded s(1)] one_per_action_def rule_of_append rule_of_Cons \<open>rule_of rules a = Some r\<close> [unfolded s(1)]
            split: option.split)
    next
      case (Some q)
      then show ?thesis using assms s no r' [OF Some]
        by (auto simp: t [unfolded s(1)] one_per_action_def rule_of_append rule_of_Cons \<open>rule_of rules a = Some r\<close> [unfolded s(1)]
            split: option.split)
    qed
  qed
  then show "fst (take_rule a rules) = map_option ru_behavior (rule_of rules a)"
    "one_per_action (snd (take_rule a rules))"
    "rule_of (snd (take_rule a rules)) b = (if b = a then Option.bind (rule_of rules a) spent else rule_of rules b)"
    by blast+
qed

text \<open>A sequence of CALLs, as the outcomes of its rules.\<close>

fun outcomes :: "string list \<Rightarrow> response_rule list \<Rightarrow> rule_outcome list" where
  "outcomes [] rules = []"
| "outcomes (a # as) rules = (case apply_response_rule a rules of (oc, rules') \<Rightarrow> oc # outcomes as rules')"

text \<open>The same for one action against the rule in force for it.\<close>

fun outcomes_of :: "string \<Rightarrow> nat \<Rightarrow> response_rule option \<Rightarrow> rule_outcome list" where
  "outcomes_of a 0 r = []"
| "outcomes_of a (Suc k) r =
     (case r of None \<Rightarrow> Run_Handler None | Some rule \<Rightarrow> behavior_outcome a (ru_behavior rule)) # outcomes_of a k (Option.bind r spent)"

lemma outcomes_projection:
  "one_per_action rules \<Longrightarrow>
   map snd (filter (\<lambda>(b, oc). b = a) (zip as (outcomes as rules))) = outcomes_of a (count_list as a) (rule_of rules a)"
proof (induction as arbitrary: rules)
  case (Cons c as)
  obtain b rules' where t: "take_rule c rules = (b, rules')" by force
  note s = take_rule_spec(1,2) [OF Cons.prems, of c, unfolded t, simplified]
    take_rule_spec(3) [OF Cons.prems, of c a, unfolded t, simplified]
  have o1: "apply_response_rule c rules = (case b of None \<Rightarrow> Run_Handler None | Some x \<Rightarrow> behavior_outcome c x, rules')"
    by (simp add: apply_response_rule_def t split: option.split)
  show ?case
    using Cons.IH [OF s(2)] s(1,3) by (cases "rule_of rules c") (auto simp: o1)
qed simp

lemma outcomes_of_count:
  "ru_remaining r = Some (Suc n) \<Longrightarrow>
   outcomes_of a k (Some r) = replicate (min k (Suc n)) (behavior_outcome a (ru_behavior r)) @ replicate (k - Suc n) (Run_Handler None)"
proof (induction n arbitrary: r k)
  case 0
  have none: "outcomes_of a j None = replicate j (Run_Handler None)" for j by (induction j) simp_all
  show ?case using 0 by (cases k) (simp_all add: spent_def none)
next
  case (Suc n)
  show ?case using Suc.IH [of "r\<lparr>ru_remaining := Some (Suc n)\<rparr>"] Suc.prems by (cases k) (simp_all add: spent_def)
qed

lemma outcomes_of_unlimited:
  "ru_remaining r = None \<Longrightarrow> outcomes_of a k (Some r) = replicate k (behavior_outcome a (ru_behavior r))"
  by (induction k) (simp_all add: spent_def)

text \<open>C37: whatever CALLs arrive in whatever order, a rule set for an action answers the CALLs of that
  action and no others: with a count of \<open>n\<close> the first \<open>n\<close> of them, after which the normal handler runs
  again, and without a count all of them.  Of the behaviors only a delay lets the handler run.\<close>

theorem rule_applies_exactly:
  assumes "one_per_action rules" "ru_remaining rule = Some (Suc n)"
  shows "map snd (filter (\<lambda>(b, oc). b = ru_action rule) (zip as (outcomes as (set_rule rule rules))))
      = (let k = count_list as (ru_action rule) in
         replicate (min k (Suc n)) (behavior_outcome (ru_action rule) (ru_behavior rule)) @ replicate (k - Suc n) (Run_Handler None))
    \<and> (a \<noteq> ru_action rule \<longrightarrow>
         map snd (filter (\<lambda>(b, oc). b = a) (zip as (outcomes as (set_rule rule rules))))
         = map snd (filter (\<lambda>(b, oc). b = a) (zip as (outcomes as rules))))
    \<and> ((\<exists>d. behavior_outcome (ru_action rule) (ru_behavior rule) = Run_Handler d) \<longleftrightarrow> (\<exists>ms. ru_behavior rule = Beh_Delay ms))"
proof -
  note s = set_rule_spec [OF assms(1), of rule]
  have "(\<exists>d. behavior_outcome (ru_action rule) (ru_behavior rule) = Run_Handler d) \<longleftrightarrow> (\<exists>ms. ru_behavior rule = Beh_Delay ms)"
    by (cases "ru_behavior rule") (auto split: option.split)
  then show ?thesis
    using outcomes_of_count [OF assms(2)] by (simp add: outcomes_projection [OF s(1)] outcomes_projection [OF assms(1)] s(2) Let_def)
qed

theorem rule_applies_exactly_witness:
  "map snd (filter (\<lambda>(b, oc). b = ''Reset'') (zip [''Reset'', ''GetLog'', ''Reset'', ''Reset'']
     (outcomes [''Reset'', ''GetLog'', ''Reset'', ''Reset'']
        (set_rule \<lparr>ru_action = ''Reset'', ru_behavior = Beh_Drop, ru_remaining = Some 2\<rparr> []))))
   = [Rule_Close, Rule_Close, Run_Handler None]"
proof -
  have "one_per_action []" by (simp add: one_per_action_def)
  from rule_applies_exactly [OF this, of "\<lparr>ru_action = ''Reset'', ru_behavior = Beh_Drop, ru_remaining = Some 2\<rparr>" 1
      "[''Reset'', ''GetLog'', ''Reset'', ''Reset'']"]
  show ?thesis by (simp add: numeral_2_eq_2)
qed

end
