(* ===== verification/Scenario.thy ===== *)
theory Scenario
  imports Actor Ws_Task
begin

text \<open>
  Scenarios (\<open>scenario/model.rs\<close>, \<open>scenario/runner.rs\<close>): steps as data, their validation, and the runner
  that executes them against a station and stops at the first failure.  TOML and serde are third-party:
  a scenario arrives decoded.  The runner's environment is an argument: what the event subscription
  delivers, the snapshots it sees, the answers to its commands and how a wait ends.
\<close>

subsection \<open>Scenarios as data\<close>

datatype condition =
  Cond_Connected
| Cond_Disconnected
| Cond_Registration registration_status
| Cond_ConnectorStatus connector_id connector_status
| Cond_TxActive connector_id
| Cond_TxIdle connector_id
| Cond_NoPendingMessages

datatype step_action =
  Act_Connect | Act_Disconnect | Act_Reconnect | Act_Boot | Act_Heartbeat
| Act_Plug connector_id
| Act_Unplug connector_id
| Act_Authorize id_tag
| Act_StartTx connector_id id_tag
| Act_StopTx connector_id stop_reason "id_tag option"
| Act_Meter connector_id u64
| Act_Status connector_id connector_status
| Act_Fault connector_id charge_point_error_code "string option"
| Act_ClearFault connector_id
| Act_Sleep u64
| Act_WaitFor condition u64
| Act_ExpectCall string "bool option" "json option" u64
| Act_SendRaw string json bool
| Act_DataTransfer string "string option" "string option"
| Act_SetRule response_rule
| Act_RequestCertificate
| Act_SecurityEvent string "string option"
| Act_ClearRules "string option"

record expect =
  ex_status :: "string option"
  ex_payload :: "json option"
  ex_error :: bool

definition expect_default :: expect where
  "expect_default = \<lparr>ex_status = None, ex_payload = None, ex_error = False\<rparr>"

record scenario_step =
  sp_name :: "string option"
  sp_expect :: "expect option"
  sp_action :: step_action

record scenario =
  so_name :: string
  so_steps :: "scenario_step list"

text \<open>\<open>Snapshot::connector\<close> is \<open>find_connector\<close>.\<close>

fun condition_holds :: "condition \<Rightarrow> station \<Rightarrow> bool" where
  "condition_holds Cond_Connected s = (s_connection s = Connected)"
| "condition_holds Cond_Disconnected s = (s_connection s = Disconnected)"
| "condition_holds (Cond_Registration status) s = (s_registration s = Some status)"
| "condition_holds (Cond_ConnectorStatus i status) s =
     is_some_and (find_connector s i) (\<lambda>c. c_status c = status)"
| "condition_holds (Cond_TxActive i) s =
     is_some_and (find_connector s i) (\<lambda>c. case c_transaction c of Active _ \<Rightarrow> True | _ \<Rightarrow> False)"
| "condition_holds (Cond_TxIdle i) s = is_some_and (find_connector s i) (\<lambda>c. is_idle (c_transaction c))"
| "condition_holds Cond_NoPendingMessages s = (pending_messages (s_queue s) = 0)"

fun action_tag :: "step_action \<Rightarrow> string" where
  "action_tag Act_Connect = ''connect''"
| "action_tag Act_Disconnect = ''disconnect''"
| "action_tag Act_Reconnect = ''reconnect''"
| "action_tag Act_Boot = ''boot''"
| "action_tag Act_Heartbeat = ''heartbeat''"
| "action_tag (Act_Plug _) = ''plug''"
| "action_tag (Act_Unplug _) = ''unplug''"
| "action_tag (Act_Authorize _) = ''authorize''"
| "action_tag (Act_StartTx _ _) = ''start_tx''"
| "action_tag (Act_StopTx _ _ _) = ''stop_tx''"
| "action_tag (Act_Meter _ _) = ''meter''"
| "action_tag (Act_Status _ _) = ''status''"
| "action_tag (Act_Fault _ _ _) = ''fault''"
| "action_tag (Act_ClearFault _) = ''clear_fault''"
| "action_tag (Act_Sleep _) = ''sleep''"
| "action_tag (Act_WaitFor _ _) = ''wait_for''"
| "action_tag (Act_ExpectCall _ _ _ _) = ''expect_call''"
| "action_tag (Act_SendRaw _ _ _) = ''send_raw''"
| "action_tag (Act_DataTransfer _ _ _) = ''data_transfer''"
| "action_tag (Act_SetRule _) = ''set_rule''"
| "action_tag (Act_ClearRules _) = ''clear_rules''"
| "action_tag Act_RequestCertificate = ''request_certificate''"
| "action_tag (Act_SecurityEvent _ _) = ''security_event''"

definition step_label :: "scenario_step \<Rightarrow> string" where
  "step_label st = unwrap_or (sp_name st) (action_tag (sp_action st))"

subsection \<open>Validation\<close>

definition MAX_WAIT_MS :: u64 where
  "MAX_WAIT_MS = 86400000"

definition scenario_step_error :: "nat \<Rightarrow> string \<Rightarrow> string" where
  "scenario_step_error index message = ''step '' @ show_nat (index + 1) @ '': '' @ message"

text \<open>The first complaint about an action, in the order of the match arms.\<close>

definition action_complaint :: "step_action \<Rightarrow> string option" where
  "action_complaint a =
     (let bound = (case a of Act_Plug i \<Rightarrow> Some i | Act_Unplug i \<Rightarrow> Some i | Act_StartTx i _ \<Rightarrow> Some i
                    | Act_StopTx i _ _ \<Rightarrow> Some i | Act_Meter i _ \<Rightarrow> Some i | _ \<Rightarrow> None);
          waits = (case a of Act_WaitFor _ ms \<Rightarrow> Some ms | Act_ExpectCall _ _ _ ms \<Rightarrow> Some ms | _ \<Rightarrow> None);
          ms = (case a of Act_Sleep ms \<Rightarrow> Some ms | _ \<Rightarrow> waits);
          called = (case a of Act_SendRaw nm _ _ \<Rightarrow> Some nm
                    | Act_ExpectCall nm _ _ _ \<Rightarrow> Some nm | _ \<Rightarrow> None)
      in if is_some_and bound is_station then Some ''`connector` must be 1 or more''
         else if waits = Some 0 then Some ''`timeout_ms` must be positive''
         else if is_some_and ms (\<lambda>n. MAX_WAIT_MS < n)
         then Some ''`timeout_ms` / `ms` must be at most 86400000 (one day)''
         else if called = Some [] then Some ''`call` must not be empty''
         else case a of
           Act_SecurityEvent ty _ \<Rightarrow>
             if canonical_event_type ty = None then Some (''unknown security event type `'' @ ty @ ''`'') else None
         | Act_ClearRules (Some nm) \<Rightarrow>
             (case canonical_action nm of Inl e \<Rightarrow> Some (rule_error_str e) | Inr _ \<Rightarrow> None)
         | _ \<Rightarrow> None)"

fun first_complaint :: "nat \<Rightarrow> scenario_step list \<Rightarrow> string option" where
  "first_complaint i [] = None"
| "first_complaint i (st # sts) =
     (case action_complaint (sp_action st) of
        Some message \<Rightarrow> Some (scenario_step_error i message)
      | None \<Rightarrow> first_complaint (i + 1) sts)"

definition scenario_validate :: "scenario \<Rightarrow> string + unit" where
  "scenario_validate sc =
     (case first_complaint 0 (so_steps sc) of Some e \<Rightarrow> Inl e | None \<Rightarrow> Inr ())"

text \<open>The checks of \<open>from_toml\<close> on the decoded text.\<close>

definition scenario_check :: "scenario \<Rightarrow> string + scenario" where
  "scenario_check sc =
     (if trim (so_name sc) = [] then Inl ''`name` must not be empty''
      else if so_steps sc = [] then Inl ''a scenario needs at least one `[[steps]]`''
      else case scenario_validate sc of Inl e \<Rightarrow> Inl e | Inr _ \<Rightarrow> Inr sc)"

fun retarget_action :: "connector_id option \<Rightarrow> id_tag option \<Rightarrow> step_action \<Rightarrow> step_action" where
  "retarget_action i tag (Act_Plug c) = Act_Plug (unwrap_or i c)"
| "retarget_action i tag (Act_Unplug c) = Act_Unplug (unwrap_or i c)"
| "retarget_action i tag (Act_Meter c wh) = Act_Meter (unwrap_or i c) wh"
| "retarget_action i tag (Act_Fault c code info) = Act_Fault (unwrap_or i c) code info"
| "retarget_action i tag (Act_ClearFault c) = Act_ClearFault (unwrap_or i c)"
| "retarget_action i tag (Act_Status c st) = Act_Status (unwrap_or i c) st"
| "retarget_action i tag (Act_WaitFor (Cond_ConnectorStatus c st) ms) =
     Act_WaitFor (Cond_ConnectorStatus (unwrap_or i c) st) ms"
| "retarget_action i tag (Act_WaitFor (Cond_TxActive c) ms) = Act_WaitFor (Cond_TxActive (unwrap_or i c)) ms"
| "retarget_action i tag (Act_WaitFor (Cond_TxIdle c) ms) = Act_WaitFor (Cond_TxIdle (unwrap_or i c)) ms"
| "retarget_action i tag (Act_StartTx c t) = Act_StartTx (unwrap_or i c) (unwrap_or tag t)"
| "retarget_action i tag (Act_StopTx c reason t) =
     Act_StopTx (unwrap_or i c) reason (map_option (\<lambda>old. unwrap_or tag old) t)"
| "retarget_action i tag (Act_Authorize t) = Act_Authorize (unwrap_or tag t)"
| "retarget_action i tag a = a"

definition retarget :: "connector_id option \<Rightarrow> id_tag option \<Rightarrow> scenario \<Rightarrow> scenario" where
  "retarget i tag sc =
     sc\<lparr>so_steps := map (\<lambda>st. st\<lparr>sp_action := retarget_action i tag (sp_action st)\<rparr>) (so_steps sc)\<rparr>"

lemma first_complaint_None:
  "first_complaint i sts = None \<longleftrightarrow> (\<forall>st\<in>set sts. action_complaint (sp_action st) = None)"
  by (induction sts arbitrary: i) (auto split: option.splits)

lemma scenario_validate_ok:
  "scenario_validate sc = Inr () \<longleftrightarrow> (\<forall>st\<in>set (so_steps sc). action_complaint (sp_action st) = None)"
  by (auto simp: scenario_validate_def first_complaint_None [of 0, symmetric] split: option.splits)

text \<open>Pointing a valid scenario at another connector, not the station itself, keeps it valid.\<close>

lemma retarget_action_valid:
  assumes "action_complaint a = None" "\<not> is_some_and i is_station"
  shows "action_complaint (retarget_action i tag a) = None"
  using assms
  by (cases "(i, tag, a)" rule: retarget_action.cases; cases i)
    (auto simp: action_complaint_def Let_def split: if_splits)

lemma retarget_valid:
  assumes "scenario_validate sc = Inr ()" "\<not> is_some_and i is_station"
  shows "scenario_validate (retarget i tag sc) = Inr ()"
  using assms by (auto simp: scenario_validate_ok retarget_def retarget_action_valid)

subsection \<open>JSON matching\<close>

fun number_eq :: "number \<Rightarrow> number \<Rightarrow> bool" where
  "number_eq (PosInt a) (PosInt b) = (a = b)"
| "number_eq (NegInt a) (NegInt b) = (a = b)"
| "number_eq (Float a) (Float b) = f_eq a b"
| "number_eq _ _ = False"

fun json_subset :: "json \<Rightarrow> json \<Rightarrow> bool"
  and fields_subset :: "(string \<times> json) list \<Rightarrow> (string \<times> json) list \<Rightarrow> bool"
  and items_subset :: "json list \<Rightarrow> json list \<Rightarrow> bool"
where
  "json_subset (JObject e) v = (case v of JObject a \<Rightarrow> fields_subset e a | _ \<Rightarrow> False)"
| "json_subset (JArray e) v =
     (case v of JArray a \<Rightarrow> length e = length a \<and> items_subset e a | _ \<Rightarrow> False)"
| "json_subset JNull v = (v = JNull)"
| "json_subset (JBool b) v = (v = JBool b)"
| "json_subset (JString s) v = (v = JString s)"
| "json_subset (JNumber n) v = (case v of JNumber k \<Rightarrow> number_eq n k | _ \<Rightarrow> False)"
| "fields_subset [] a = True"
| "fields_subset ((key, w) # e) a =
     ((case map_of a key of None \<Rightarrow> False | Some x \<Rightarrow> json_subset w x) \<and> fields_subset e a)"
| "items_subset (x # e) (y # a) = (json_subset x y \<and> items_subset e a)"
| "items_subset _ _ = True"

lemma fields_subset_iff:
  "fields_subset e a \<longleftrightarrow> (\<forall>(key, w)\<in>set e. is_some_and (map_of a key) (json_subset w))"
  by (induction e) (auto simp: is_some_and_iff split: option.splits)

lemma items_subset_iff: "items_subset e a \<longleftrightarrow> (\<forall>(x, y)\<in>set (zip e a). json_subset x y)"
  by (induction e a rule: list_induct2') auto

lemma f_eq_trans: "f_eq x y \<Longrightarrow> f_eq y z \<Longrightarrow> f_eq x z"
  by (cases x; cases y; cases z) auto

lemma number_eq_trans: "number_eq a b \<Longrightarrow> number_eq b c \<Longrightarrow> number_eq a c"
  by (cases a; cases b; cases c) (auto intro: f_eq_trans)

text \<open>What a pattern contained in a second one contains, the second one's values contain.\<close>

lemma json_subset_trans:
  "json_subset u v \<Longrightarrow> json_subset v w \<Longrightarrow> json_subset u w"
  "fields_subset e a \<Longrightarrow> fields_subset a d \<Longrightarrow> fields_subset e d"
  "length xs = length ys \<Longrightarrow> length ys = length zs \<Longrightarrow> items_subset xs ys \<Longrightarrow> items_subset ys zs \<Longrightarrow>
   items_subset xs zs"
proof (induction u v and e a and xs ys arbitrary: w and d and zs
       rule: json_subset_fields_subset_items_subset.induct)
  case (8 key w e a)
  from "8.prems"(1) obtain x where x: "map_of a key = Some x" "json_subset w x" "fields_subset e a"
    by (auto split: option.splits)
  from "8.prems"(2) map_of_SomeD [OF x(1)] obtain y where y: "map_of d key = Some y" "json_subset x y"
    by (fastforce simp: fields_subset_iff is_some_and_iff)
  from "8.IH"(1) [OF x(1,2) y(2)] "8.IH"(2) [OF x(3) "8.prems"(2)] y(1) show ?case by simp
qed (auto split: json.splits simp: Suc_length_conv intro: number_eq_trans)

end
