(* ===== verification/Scenario_Run.thy ===== *)
theory Scenario_Run
  imports Scenario
begin

text \<open>
  Running a scenario (\<open>scenario/runner.rs\<close>): the CALL frames kept for \<open>expect_call\<close>, the steps and the
  report.  The tokio channels deliver what the environment of a step says: the events pumped before the
  step and while an \<open>expect_call\<close> waits, the snapshots a \<open>wait_for\<close> sees, and the answer to a command.
  The laws compare the bounded, lossy buffer with the sequence of everything that happened.
\<close>

subsection \<open>The environment\<close>

datatype bus_item =
  Bus_Frame frame_record
| Bus_Other
| Bus_Lost u64

datatype wait_stop = Stop_Closed | Stop_Timeout | Stop_Cancelled

record run_texts =
  rt_bytes :: "json \<Rightarrow> nat"
  rt_json :: "json \<Rightarrow> string"
  rt_condition :: "condition \<Rightarrow> string"
  rt_payload :: "response \<Rightarrow> json"
  rt_auth :: "authorization_status \<Rightarrow> string"

record step_env =
  sn_pumped :: "bus_item list"
  sn_snapshots :: "station list"
  sn_stopped :: bool
  sn_rounds :: "(bus_item list \<times> bus_item) list"
  sn_last :: "bus_item list"
  sn_stop :: wait_stop
  sn_send :: "command \<Rightarrow> string + outcome"
  sn_cancel_before :: bool
  sn_cancel_during :: "bool option"
  sn_ms :: u64

subsection \<open>The kept frames\<close>

definition FRAME_CAP :: nat where "FRAME_CAP = 10000"
definition FRAME_BYTES :: nat where "FRAME_BYTES = 16 * 1024 * 1024"

definition wanted_calls :: "scenario_step list \<Rightarrow> string \<rightharpoonup> bool" where
  "wanted_calls sts =
     foldl (\<lambda>m st. case sp_action st of
         Act_ExpectCall called _ pat _ \<Rightarrow> m(called \<mapsto> unwrap_or (m called) False \<or> pat \<noteq> None)
       | _ \<Rightarrow> m) Map.empty sts"

record run_ctx =
  cx_lagged :: u64
  cx_loss :: "nat option"
  cx_frames :: "(frame_record \<times> nat) list"
  cx_bytes :: nat

definition ctx_new :: run_ctx where
  "ctx_new = \<lparr>cx_lagged = 0, cx_loss = None, cx_frames = [], cx_bytes = 0\<rparr>"

text \<open>\<open>Value::get(index)\<close>.\<close>

fun json_at :: "json \<Rightarrow> nat \<Rightarrow> json option" where
  "json_at (JArray items) n = (if n < length items then Some (items ! n) else None)"
| "json_at _ _ = None"

fun json_truncate :: "nat \<Rightarrow> json \<Rightarrow> json" where
  "json_truncate n (JArray items) = JArray (take n items)"
| "json_truncate n v = v"

definition drop_front :: "nat \<Rightarrow> run_ctx \<Rightarrow> run_ctx" where
  "drop_front n c =
     c\<lparr>cx_frames := drop n (cx_frames c),
       cx_bytes := foldl (\<lambda>b (_, bytes). b - bytes) (cx_bytes c) (take n (cx_frames c)),
       cx_loss := map_option (\<lambda>k. k - n) (cx_loss c)\<rparr>"

definition note_lost :: "u64 \<Rightarrow> run_ctx \<Rightarrow> run_ctx" where
  "note_lost missed c =
     c\<lparr>cx_lagged := min u64_max (cx_lagged c + missed),
       cx_loss := Some (unwrap_or (cx_loss c) (length (cx_frames c)))\<rparr>"

definition overfull :: "run_ctx \<Rightarrow> bool" where
  "overfull c = (1 < length (cx_frames c) \<and> (FRAME_CAP < length (cx_frames c) \<or> FRAME_BYTES < cx_bytes c))"

function trim_frames :: "run_ctx \<Rightarrow> run_ctx" where
  "trim_frames c =
     (if overfull c
      then trim_frames ((drop_front 1 c)\<lparr>cx_lagged := min u64_max (cx_lagged c + 1), cx_loss := Some 0\<rparr>)
      else c)"
  by pat_completeness auto
termination by (relation "measure (\<lambda>c. length (cx_frames c))") (auto simp: overfull_def drop_front_def)

declare trim_frames.simps [simp del]

text \<open>The first three arms of \<open>record\<close>: which frames are kept, in which form and at what size.\<close>

definition kept_frame :: "run_texts \<Rightarrow> (string \<rightharpoonup> bool) \<Rightarrow> frame_record \<Rightarrow> (frame_record \<times> nat) option" where
  "kept_frame tx w fr =
     (if Option.bind (json_at (fr_frame fr) 0) json_u64 \<noteq> Some 2 then None
      else case Option.bind (Option.bind (json_at (fr_frame fr) 2) as_str) w of
        None \<Rightarrow> None
      | Some True \<Rightarrow> Some (fr, rt_bytes tx (fr_frame fr))
      | Some False \<Rightarrow> Some (fr\<lparr>fr_frame := json_truncate 3 (fr_frame fr)\<rparr>, 128))"

definition keep_frame :: "run_texts \<Rightarrow> (string \<rightharpoonup> bool) \<Rightarrow> frame_record \<Rightarrow> run_ctx \<Rightarrow> run_ctx" where
  "keep_frame tx w fr c =
     (case kept_frame tx w fr of
        None \<Rightarrow> c
      | Some (kept, bytes) \<Rightarrow>
          trim_frames (c\<lparr>cx_frames := cx_frames c @ [(kept, bytes)], cx_bytes := cx_bytes c + bytes\<rparr>))"

fun take_item :: "run_texts \<Rightarrow> (string \<rightharpoonup> bool) \<Rightarrow> run_ctx \<Rightarrow> bus_item \<Rightarrow> run_ctx" where
  "take_item tx w c (Bus_Frame fr) = keep_frame tx w fr c"
| "take_item tx w c Bus_Other = c"
| "take_item tx w c (Bus_Lost missed) = note_lost missed c"

definition pump_bus :: "run_texts \<Rightarrow> (string \<rightharpoonup> bool) \<Rightarrow> bus_item list \<Rightarrow> run_ctx \<Rightarrow> run_ctx" where
  "pump_bus tx w items c = foldl (take_item tx w) c items"

subsection \<open>Waiting for a CALL\<close>

definition frame_matches :: "string \<Rightarrow> bool option \<Rightarrow> json option \<Rightarrow> frame_record \<Rightarrow> bool" where
  "frame_matches called dir pat fr =
     (Option.bind (json_at (fr_frame fr) 2) as_str = Some called
      \<and> is_none_or dir (\<lambda>d. d = fr_out fr)
      \<and> is_none_or pat (\<lambda>m. json_subset m (unwrap_or (json_at (fr_frame fr) 3) JNull)))"

definition lost_text :: "u64 \<Rightarrow> string" where
  "lost_text lost =
     ''the scenario runner fell behind and '' @ show_nat lost @ '' station events were dropped; ''
     @ ''CALL frames may have been missed, so `expect_call` cannot be trusted''"

text \<open>One pass of the loop: the verdict on the kept frames, if there is one.\<close>

definition expect_look :: "(frame_record \<Rightarrow> bool) \<Rightarrow> run_ctx \<Rightarrow> (string + unit) option \<times> run_ctx" where
  "expect_look P c =
     (case position (\<lambda>(fr, _). P fr) (cx_frames c) of
        Some index \<Rightarrow>
          if is_none_or (cx_loss c) (\<lambda>k. index < k) then (Some (Inr ()), drop_front (index + 1) c)
          else (Some (Inl (lost_text (cx_lagged c))), c\<lparr>cx_lagged := 0, cx_loss := None\<rparr>)
      | None \<Rightarrow>
          if cx_loss c \<noteq> None
          then (Some (Inl (lost_text (cx_lagged c))), c\<lparr>cx_lagged := 0, cx_loss := None\<rparr>)
          else (None, c))"

fun stop_text :: "string \<Rightarrow> u64 \<Rightarrow> wait_stop \<Rightarrow> string" where
  "stop_text called ms Stop_Closed = ''station stopped''"
| "stop_text called ms Stop_Timeout =
     ''timed out after '' @ show_nat ms @ '' ms waiting for a '' @ called @ '' CALL''"
| "stop_text called ms Stop_Cancelled = ''cancelled''"

fun expect_call ::
  "run_texts \<Rightarrow> (string \<rightharpoonup> bool) \<Rightarrow> (frame_record \<Rightarrow> bool) \<Rightarrow> (wait_stop \<Rightarrow> string)
   \<Rightarrow> (bus_item list \<times> bus_item) list \<Rightarrow> bus_item list \<Rightarrow> wait_stop \<Rightarrow> run_ctx \<Rightarrow> (string + unit) \<times> run_ctx"
where
  "expect_call tx w P say [] items stop c =
     (case expect_look P (pump_bus tx w items c) of
        (Some r, c) \<Rightarrow> (r, c)
      | (None, c) \<Rightarrow> (Inl (say stop), c))"
| "expect_call tx w P say ((pumped, item) # rounds) items stop c =
     (case expect_look P (pump_bus tx w pumped c) of
        (Some r, c) \<Rightarrow> (r, c)
      | (None, c) \<Rightarrow> expect_call tx w P say rounds items stop (take_item tx w c item))"

subsection \<open>Commands and their outcomes\<close>

fun to_command :: "step_action \<Rightarrow> command option" where
  "to_command Act_Connect = Some Cmd_Connect"
| "to_command Act_Disconnect = Some Cmd_Disconnect"
| "to_command Act_Reconnect = Some Cmd_Reconnect"
| "to_command Act_Boot = Some Cmd_Boot"
| "to_command Act_Heartbeat = Some Cmd_Heartbeat"
| "to_command (Act_Plug i) = Some (Cmd_PlugIn i)"
| "to_command (Act_Unplug i) = Some (Cmd_Unplug i)"
| "to_command (Act_Authorize t) = Some (Cmd_Authorize t)"
| "to_command (Act_StartTx i t) = Some (Cmd_StartTransaction i t)"
| "to_command (Act_StopTx i reason t) = Some (Cmd_StopTransaction i reason t)"
| "to_command (Act_Meter i wh) = Some (Cmd_MeterValues i wh None)"
| "to_command (Act_Status i st) = Some (Cmd_SetConnectorStatus i st)"
| "to_command (Act_Fault i code info) = Some (Cmd_Fault i code info None)"
| "to_command (Act_ClearFault i) = Some (Cmd_ClearFault i)"
| "to_command (Act_SendRaw called payload validate) = Some (Cmd_SendRaw called payload validate)"
| "to_command (Act_DataTransfer vendor message data) = Some (Cmd_DataTransfer vendor message data)"
| "to_command Act_RequestCertificate = Some Cmd_RequestCertificate"
| "to_command (Act_SecurityEvent ty info) = Some (Cmd_SendSecurityEvent ty info)"
| "to_command (Act_SetRule r) = Some (Cmd_SetResponseRule r)"
| "to_command (Act_ClearRules called) = Some (Cmd_ClearResponseRules called)"
| "to_command (Act_Sleep _) = None"
| "to_command (Act_WaitFor _ _) = None"
| "to_command (Act_ExpectCall _ _ _ _) = None"

fun outcome_status :: "run_texts \<Rightarrow> outcome \<Rightarrow> string option" where
  "outcome_status tx (Authorized d) = Some (rt_auth tx (ti_status (ad_id_tag_info d)))"
| "outcome_status tx (TransactionStarted _ _) = Some ''Accepted''"
| "outcome_status tx (TransactionRejected st) = Some (rt_auth tx st)"
| "outcome_status tx (Out_Response r) =
     Option.bind (case rt_payload tx r of JObject m \<Rightarrow> map_of m ''status'' | _ \<Rightarrow> None) as_str"
| "outcome_status tx _ = None"

fun implicit_accept :: "step_action \<Rightarrow> bool" where
  "implicit_accept (Act_Authorize _) = True"
| "implicit_accept (Act_StartTx _ _) = True"
| "implicit_accept _ = False"

definition status_complaint :: "run_texts \<Rightarrow> string \<Rightarrow> string option \<Rightarrow> outcome \<Rightarrow> string option" where
  "status_complaint tx tag wanted out =
     (case wanted of
        None \<Rightarrow> None
      | Some st \<Rightarrow>
          (case outcome_status tx out of
             Some actual \<Rightarrow>
               if actual = st then None
               else Some (tag @ '': expected status '' @ st @ '', got '' @ actual)
           | None \<Rightarrow> Some (tag @ '': expected status '' @ st @ '', but the outcome carries none'')))"

definition payload_complaint :: "run_texts \<Rightarrow> string \<Rightarrow> json option \<Rightarrow> outcome \<Rightarrow> string option" where
  "payload_complaint tx tag wanted out =
     (case wanted of
        None \<Rightarrow> None
      | Some pat \<Rightarrow>
          (case out of
             Out_Response r \<Rightarrow>
               if json_subset pat (rt_payload tx r) then None
               else Some (tag @ '': response '' @ rt_json tx (rt_payload tx r) @ '' does not contain ''
                          @ rt_json tx pat)
           | _ \<Rightarrow> Some (tag @ '': expected a response payload, the outcome has none'')))"

definition check_outcome :: "run_texts \<Rightarrow> scenario_step \<Rightarrow> string + outcome \<Rightarrow> string + unit" where
  "check_outcome tx st r =
     (let x = unwrap_or (sp_expect st) expect_default; tag = action_tag (sp_action st) in
      case r of
        Inl e \<Rightarrow> if ex_error x then Inr () else Inl (tag @ '': '' @ e)
      | Inr out \<Rightarrow>
          if ex_error x then Inl (tag @ '': expected an error, but it succeeded'')
          else
            let wanted = (case ex_status x of Some status \<Rightarrow> Some status
                          | None \<Rightarrow> if implicit_accept (sp_action st) then Some ''Accepted'' else None)
            in case option_or (status_complaint tx tag wanted out) (payload_complaint tx tag (ex_payload x) out) of
                 Some e \<Rightarrow> Inl e
               | None \<Rightarrow> Inr ())"

subsection \<open>Steps and the report\<close>

definition run_step ::
  "run_texts \<Rightarrow> (string \<rightharpoonup> bool) \<Rightarrow> scenario_step \<Rightarrow> step_env \<Rightarrow> run_ctx
   \<Rightarrow> (string + unit) \<times> run_ctx \<times> command list"
where
  "run_step tx w st n c0 =
     (let c = pump_bus tx w (sn_pumped n) c0 in
      case sp_action st of
        Act_Sleep _ \<Rightarrow> (Inr (), c, [])
      | Act_WaitFor cond ms \<Rightarrow>
          ((if list_ex (condition_holds cond) (sn_snapshots n) then Inr ()
            else if sn_stopped n then Inl ''station stopped''
            else Inl (''timed out after '' @ show_nat ms @ '' ms waiting for '' @ rt_condition tx cond)), c, [])
      | Act_ExpectCall called dir pat ms \<Rightarrow>
          (let (r, c) = expect_call tx w (frame_matches called dir pat) (stop_text called ms)
                          (sn_rounds n) (sn_last n) (sn_stop n) c
           in (r, c, []))
      | a \<Rightarrow>
          (case to_command a of
             None \<Rightarrow> (Inl ''not a command'', c, [])
           | Some cmd \<Rightarrow> (check_outcome tx st (sn_send n cmd), c, [cmd])))"

datatype step_status = Step_Passed | Step_Failed string | Step_Skipped

record step_report =
  sr_index :: nat
  sr_name :: string
  sr_status :: step_status
  sr_ms :: u64

datatype run_progress = Step_Started nat string | Step_Finished step_report

record scenario_report =
  rp_scenario :: string
  rp_passed :: bool
  rp_cancelled :: bool
  rp_steps :: "step_report list"
  rp_ms :: u64

text \<open>
  The loop over the steps: the reports, the progress sent to a user interface, and the commands given to
  the station.  A step cancelled while it runs fails with that reason; its command may have been sent.
\<close>

fun run_steps ::
  "run_texts \<Rightarrow> (string \<rightharpoonup> bool) \<Rightarrow> nat \<Rightarrow> bool \<Rightarrow> run_ctx \<Rightarrow> (scenario_step \<times> step_env) list
   \<Rightarrow> step_report list \<times> run_progress list \<times> command list"
where
  "run_steps tx w i gone c [] = ([], [], [])"
| "run_steps tx w i gone c ((st, n) # rest) =
     (if gone \<or> sn_cancel_before n then
        let r = \<lparr>sr_index = i, sr_name = step_label st,
                 sr_status = (if gone then Step_Skipped else Step_Failed ''cancelled''), sr_ms = 0\<rparr>;
            (rs, ps, cs) = run_steps tx w (i + 1) True c rest
        in (r # rs, Step_Finished r # ps, cs)
      else
        let (res, c', sent) = run_step tx w st n c;
            result = (case sn_cancel_during n of Some _ \<Rightarrow> Inl ''cancelled'' | None \<Rightarrow> res);
            sent = (if sn_cancel_during n = Some False then [] else sent);
            r = \<lparr>sr_index = i, sr_name = step_label st,
                 sr_status = (case result of Inr _ \<Rightarrow> Step_Passed | Inl reason \<Rightarrow> Step_Failed reason),
                 sr_ms = sn_ms n\<rparr>;
            (rs, ps, cs) = run_steps tx w (i + 1) (case result of Inr _ \<Rightarrow> False | Inl _ \<Rightarrow> True) c' rest
        in (r # rs, Step_Started i (step_label st) # Step_Finished r # ps, sent @ cs))"

definition run_scenario ::
  "run_texts \<Rightarrow> scenario \<Rightarrow> step_env list \<Rightarrow> bool \<Rightarrow> u64
   \<Rightarrow> scenario_report \<times> run_progress list \<times> command list"
where
  "run_scenario tx sc envs cancelled ms =
     (let (rs, ps, cs) = run_steps tx (wanted_calls (so_steps sc)) 0 False ctx_new (zip (so_steps sc) envs)
      in (\<lparr>rp_scenario = so_name sc, rp_passed = list_all (\<lambda>r. sr_status r = Step_Passed) rs,
           rp_cancelled = cancelled, rp_steps = rs, rp_ms = ms\<rparr>, ps, cs))"

end
