(* ===== verification/Scenario_Laws.thy ===== *)
theory Scenario_Laws
  imports Scenario_Run
begin

text \<open>
  What a scenario run promises.  The kept frames are compared with the unbounded history of what the
  station did: an \<open>expect_call\<close> that passes took the first matching CALL since the previous match, and
  no event before it was lost.  The memory kept is bounded, and a run stops at its first failure.
\<close>

subsection \<open>The history\<close>

text \<open>The history of a run: the frames some step asks for, and the places where events were lost.\<close>

datatype mark = Seen frame_record | Gap

fun marks_of :: "run_texts \<Rightarrow> (string \<rightharpoonup> bool) \<Rightarrow> bus_item \<Rightarrow> mark list" where
  "marks_of tx w (Bus_Frame fr) = (case kept_frame tx w fr of None \<Rightarrow> [] | Some (kept, _) \<Rightarrow> [Seen kept])"
| "marks_of tx w Bus_Other = []"
| "marks_of tx w (Bus_Lost _) = [Gap]"

definition marks :: "run_texts \<Rightarrow> (string \<rightharpoonup> bool) \<Rightarrow> bus_item list \<Rightarrow> mark list" where
  "marks tx w items = concat (map (marks_of tx w) items)"

text \<open>What an expectation should find: the first match with nothing lost before it, and what follows.\<close>

datatype verdict = Waiting | Lost | Got frame_record "mark list"

fun await :: "(frame_record \<Rightarrow> bool) \<Rightarrow> mark list \<Rightarrow> verdict" where
  "await P [] = Waiting"
| "await P (Gap # h) = Lost"
| "await P (Seen fr # h) = (if P fr then Got fr h else await P h)"

lemma marks_Nil [simp]: "marks tx w [] = []"
  by (simp add: marks_def)

lemma marks_append [simp]: "marks tx w (xs @ ys) = marks tx w xs @ marks tx w ys"
  by (simp add: marks_def)

lemma marks_Cons [simp]: "marks tx w (x # xs) = marks_of tx w x @ marks tx w xs"
  by (simp add: marks_def)

lemma await_append_Got: "await P h = Got fr r \<Longrightarrow> await P (h @ k) = Got fr (r @ k)"
  by (induction P h rule: await.induct) (auto split: if_splits)

lemma await_Seen_all: "\<forall>fr\<in>set frs. \<not> P fr \<Longrightarrow> await P (map Seen frs @ h) = await P h"
  by (induction frs) auto

subsection \<open>The invariant of the context\<close>

definition run_ctx_ok :: "run_ctx \<Rightarrow> bool" where
  "run_ctx_ok c \<longleftrightarrow>
     is_none_or (cx_loss c) (\<lambda>k. k \<le> length (cx_frames c))
     \<and> cx_bytes c = sum_list (map snd (cx_frames c)) \<and> \<not> overfull c"

text \<open>The frames before the first loss are the beginning of the history; without a loss, all of it.\<close>

definition clean :: "run_ctx \<Rightarrow> frame_record list" where
  "clean c = map fst (take (unwrap_or (cx_loss c) (length (cx_frames c))) (cx_frames c))"

definition faithful :: "mark list \<Rightarrow> run_ctx \<Rightarrow> bool" where
  "faithful h c \<longleftrightarrow> (\<exists>rest. h = map Seen (clean c) @ rest \<and> (cx_loss c = None \<longrightarrow> rest = []))"

lemma faithful_new: "faithful [] ctx_new" and run_ctx_ok_new: "run_ctx_ok ctx_new"
  by (auto simp: faithful_def clean_def ctx_new_def run_ctx_ok_def overfull_def)

lemma foldl_minus_sum:
  "foldl (\<lambda>b (_, bytes). b - bytes) (sum_list (map snd xs) + (n::nat)) xs = n"
  by (induction xs) (auto simp: add.assoc)

lemma drop_front_sum:
  assumes "cx_bytes c = sum_list (map snd (cx_frames c))"
  shows "cx_bytes (drop_front n c) = sum_list (map snd (drop n (cx_frames c)))"
proof -
  have "sum_list (map snd (cx_frames c)) =
      sum_list (map snd (take n (cx_frames c))) + sum_list (map snd (drop n (cx_frames c)))"
    by (metis append_take_drop_id map_append sum_list_append)
  then show ?thesis using assms by (simp add: drop_front_def foldl_minus_sum)
qed

lemma drop_front_sel [simp]:
  "cx_frames (drop_front n c) = drop n (cx_frames c)"
  "cx_loss (drop_front n c) = map_option (\<lambda>k. k - n) (cx_loss c)"
  "cx_lagged (drop_front n c) = cx_lagged c"
  by (simp_all add: drop_front_def)

lemma sum_list_drop_le: "sum_list (map snd (drop n xs)) \<le> (sum_list (map snd xs) :: nat)"
  by (metis append_take_drop_id le_add2 map_append sum_list_append)

lemma drop_front_ok: "run_ctx_ok c \<Longrightarrow> run_ctx_ok (drop_front n c)"
  using sum_list_drop_le [of n "cx_frames c"]
  by (cases "cx_loss c") (auto simp: run_ctx_ok_def overfull_def drop_front_sum)

lemma note_lost_ok: "run_ctx_ok c \<Longrightarrow> run_ctx_ok (note_lost m c)"
  by (cases "cx_loss c") (auto simp: run_ctx_ok_def overfull_def note_lost_def)

lemma trim_frames_ok:
  assumes "is_none_or (cx_loss c) (\<lambda>k. k \<le> length (cx_frames c))"
    "cx_bytes c = sum_list (map snd (cx_frames c))"
  shows "run_ctx_ok (trim_frames c)"
  using assms
proof (induction c rule: trim_frames.induct)
  case (1 c)
  show ?case
  proof (cases "overfull c")
    case True
    with 1 drop_front_sum [of c 1] show ?thesis by (subst trim_frames.simps) simp
  next
    case False
    with "1.prems" show ?thesis by (subst trim_frames.simps) (simp add: run_ctx_ok_def)
  qed
qed

lemma faithful_all_lost: "cx_loss c = Some 0 \<Longrightarrow> faithful h c"
  by (simp add: faithful_def clean_def)

lemma faithful_push:
  assumes "faithful h c" "run_ctx_ok c"
  shows "faithful (h @ [Seen fr]) (c\<lparr>cx_frames := cx_frames c @ [(fr, n)], cx_bytes := b\<rparr>)"
  using assms by (cases "cx_loss c") (auto simp: faithful_def clean_def run_ctx_ok_def)

lemma trim_frames_faithful: "faithful h c \<Longrightarrow> faithful h (trim_frames c)"
proof (induction c rule: trim_frames.induct)
  case (1 c)
  show ?case
  proof (cases "overfull c")
    case True
    then show ?thesis
      using "1.IH" [OF True faithful_all_lost] by (simp add: trim_frames.simps [of c])
  qed (use "1.prems" in \<open>simp add: trim_frames.simps [of c]\<close>)
qed

lemma take_item_ok: "run_ctx_ok c \<Longrightarrow> run_ctx_ok (take_item tx w c x)"
proof (cases x)
  case (Bus_Frame fr)
  assume c: "run_ctx_ok c"
  show ?thesis
  proof (cases "kept_frame tx w fr")
    case (Some p)
    with c Bus_Frame show ?thesis
      by (cases p; cases "cx_loss c") (auto simp: keep_frame_def run_ctx_ok_def intro!: trim_frames_ok [unfolded run_ctx_ok_def])
  qed (use c Bus_Frame in \<open>simp add: keep_frame_def\<close>)
qed (simp_all add: note_lost_ok)

lemma take_item_faithful:
  assumes f: "faithful h c" and ok: "run_ctx_ok c"
  shows "faithful (h @ marks_of tx w x) (take_item tx w c x)"
proof (cases x)
  case (Bus_Frame fr)
  show ?thesis
  proof (cases "kept_frame tx w fr")
    case (Some p)
    with f ok Bus_Frame show ?thesis
      by (cases p) (auto simp: keep_frame_def intro: trim_frames_faithful faithful_push)
  qed (use f Bus_Frame in \<open>simp add: keep_frame_def\<close>)
next
  case (Bus_Lost m)
  with f show ?thesis by (cases "cx_loss c") (auto simp: note_lost_def faithful_def clean_def)
qed (use f in simp)

lemma pump_bus_ok: "run_ctx_ok c \<Longrightarrow> run_ctx_ok (pump_bus tx w xs c)"
  by (induction xs arbitrary: c) (auto simp: pump_bus_def take_item_ok)

lemma pump_bus_faithful: "faithful h c \<Longrightarrow> run_ctx_ok c \<Longrightarrow> faithful (h @ marks tx w xs) (pump_bus tx w xs c)"
proof (induction xs arbitrary: h c)
  case (Cons x xs)
  from Cons.IH [OF take_item_faithful [OF Cons.prems, of tx w x] take_item_ok [OF Cons.prems(2), of tx w x]]
  show ?case by (simp add: pump_bus_def)
qed (simp add: pump_bus_def)

subsection \<open>Expecting a CALL\<close>

lemma clean_no_loss: "cx_loss c = None \<Longrightarrow> clean c = map fst (cx_frames c)"
  by (simp add: clean_def)

lemma position_pair_None:
  "position (\<lambda>(fr, _). P fr) xs = None \<longleftrightarrow> (\<forall>fr\<in>set (map fst xs). \<not> P fr)"
  by (auto simp: position_None)

text \<open>A match within the clean frames is what the history holds first.\<close>

lemma look_found:
  assumes f: "faithful h c" and ok: "run_ctx_ok c"
    and at: "position (\<lambda>(fr, _). P fr) (cx_frames c) = Some i"
    and lt: "is_none_or (cx_loss c) (\<lambda>k. i < k)"
  shows "\<exists>fr r. await P h = Got fr r \<and> faithful r (drop_front (i + 1) c)"
proof -
  from position_SomeD [OF at] obtain fr n where i: "i < length (cx_frames c)" "cx_frames c ! i = (fr, n)" "P fr"
    and before: "\<forall>j<i. \<not> P (fst (cx_frames c ! j))"
    by (cases "cx_frames c ! i") (auto simp: case_prod_unfold)
  have len: "i < length (clean c)" using i(1) lt ok by (cases "cx_loss c") (auto simp: clean_def run_ctx_ok_def)
  have nth: "clean c ! j = fst (cx_frames c ! j)" if "j < length (clean c)" for j
    using that by (cases "cx_loss c") (auto simp: clean_def)
  have parts: "map Seen (clean c) = map Seen (take i (clean c)) @ Seen fr # map Seen (drop (i + 1) (clean c))"
    using arg_cong [OF id_take_nth_drop [OF len], of "map Seen"] nth [OF len] i(2) by simp
  from f obtain rest where h: "h = map Seen (clean c) @ rest" and none: "cx_loss c = None \<longrightarrow> rest = []"
    by (auto simp: faithful_def)
  have "\<forall>x\<in>set (take i (clean c)). \<not> P x" using before nth len by (auto simp: in_set_conv_nth)
  then have "await P h = Got fr (map Seen (drop (i + 1) (clean c)) @ rest)"
    unfolding h parts by (simp add: await_Seen_all i(3))
  moreover have "clean (drop_front (i + 1) c) = drop (i + 1) (clean c)"
    by (cases "cx_loss c") (simp_all add: clean_def drop_map drop_take)
  then have "faithful (map Seen (drop (i + 1) (clean c)) @ rest) (drop_front (i + 1) c)"
    using none by (auto simp: faithful_def)
  ultimately show ?thesis by blast
qed

lemma expect_look_laws:
  assumes f: "faithful h c" and ok: "run_ctx_ok c" and look: "expect_look P c = (r, c')"
  shows "run_ctx_ok c'"
    and "r = Some (Inr ()) \<Longrightarrow> \<exists>fr k. await P h = Got fr k \<and> faithful k c'"
    and "r = Some (Inl e) \<Longrightarrow> cx_loss c \<noteq> None \<and> e = lost_text (cx_lagged c)"
    and "r = None \<Longrightarrow> c' = c \<and> cx_loss c = None \<and> await P h = Waiting"
proof -
  have reset: "run_ctx_ok (c\<lparr>cx_lagged := 0, cx_loss := None\<rparr>)" using ok by (auto simp: run_ctx_ok_def overfull_def)
  show "run_ctx_ok c'" using look ok reset
    by (auto simp: expect_look_def drop_front_ok split: option.splits if_splits)
  show "r = Some (Inr ()) \<Longrightarrow> \<exists>fr k. await P h = Got fr k \<and> faithful k c'"
    using look look_found [OF f ok] by (auto simp: expect_look_def split: option.splits if_splits)
  show "r = Some (Inl e) \<Longrightarrow> cx_loss c \<noteq> None \<and> e = lost_text (cx_lagged c)"
    using look by (cases "cx_loss c") (auto simp: expect_look_def split: option.splits if_splits)
  show "r = None \<Longrightarrow> c' = c \<and> cx_loss c = None \<and> await P h = Waiting"
    using look f await_Seen_all [of "clean c" P "[]"]
    by (auto simp: expect_look_def faithful_def clean_no_loss position_pair_None split: option.splits if_splits)
qed

definition observed :: "(bus_item list \<times> bus_item) list \<Rightarrow> bus_item list \<Rightarrow> bus_item list" where
  "observed rounds items = concat (map (\<lambda>(pumped, x). pumped @ [x]) rounds) @ items"

lemma observed_Nil [simp]: "observed [] items = items"
  and observed_Cons [simp]: "observed ((pumped, x) # rounds) items = pumped @ x # observed rounds items"
  by (simp_all add: observed_def)

lemma expect_call_laws:
  assumes "faithful h c" "run_ctx_ok c" "expect_call tx w P say rounds items stop c = (r, c')"
  shows "run_ctx_ok c'
    \<and> (r = Inr () \<longrightarrow> (\<exists>seen unseen fr k. observed rounds items = seen @ unseen
         \<and> await P (h @ marks tx w seen) = Got fr k \<and> faithful k c'))
    \<and> (\<forall>e. r = Inl e \<longrightarrow> (\<exists>n. e = lost_text n)
         \<or> e = say stop \<and> await P (h @ marks tx w (observed rounds items)) = Waiting)"
  using assms
proof (induction tx w P say rounds items stop c arbitrary: h rule: expect_call.induct)
  case (1 tx w P say items stop c)
  note laws = expect_look_laws [OF pump_bus_faithful [OF "1.prems"(1,2), of tx w items] pump_bus_ok [OF "1.prems"(2), of tx w items]]
  obtain v d where look: "expect_look P (pump_bus tx w items c) = (v, d)" by fastforce
  note laws = laws [OF look]
  show ?case
  proof (cases v)
    case None
    with laws(1,4) "1.prems"(3) look show ?thesis by auto
  next
    case (Some q)
    then have q: "r = q" "c' = d" using "1.prems"(3) look by auto
    show ?thesis
    proof (cases q)
      case (Inl e)
      with laws(1) laws(3) [of e] Some q show ?thesis by auto
    next
      case (Inr u)
      with Inr laws(1,2) Some q show ?thesis by (metis append_Nil2 observed_Nil sum.distinct(1))
    qed
  qed
next
  case (2 tx w P say pumped x rounds items stop c)
  let ?d = "pump_bus tx w pumped c"
  have f: "faithful (h @ marks tx w pumped) ?d" and ok: "run_ctx_ok ?d"
    using pump_bus_faithful [OF "2.prems"(1,2)] pump_bus_ok [OF "2.prems"(2)] by auto
  obtain v d where look: "expect_look P ?d = (v, d)" by fastforce
  note laws = expect_look_laws [OF f ok look]
  show ?case
  proof (cases v)
    case None
    then have d: "d = ?d" and more: "expect_call tx w P say rounds items stop (take_item tx w ?d x) = (r, c')"
      using laws(4) "2.prems"(3) look by auto
    from "2.IH" [OF look [symmetric] None take_item_faithful [OF f ok, of tx w x, folded d]
        take_item_ok [OF ok, of tx w x, folded d]] more d
    have ih: "run_ctx_ok c'" "r = Inr () \<Longrightarrow> \<exists>seen unseen fr k. observed rounds items = seen @ unseen
         \<and> await P ((h @ marks tx w pumped @ marks_of tx w x) @ marks tx w seen) = Got fr k \<and> faithful k c'"
      "\<And>e. r = Inl e \<Longrightarrow> (\<exists>n. e = lost_text n)
         \<or> e = say stop \<and> await P (h @ marks tx w (observed ((pumped, x) # rounds) items)) = Waiting"
      by auto
    have "\<exists>seen unseen fr k. observed ((pumped, x) # rounds) items = seen @ unseen
         \<and> await P (h @ marks tx w seen) = Got fr k \<and> faithful k c'" if "r = Inr ()"
    proof -
      from ih(2) [OF that] obtain seen unseen fr k where "observed rounds items = seen @ unseen"
        "await P ((h @ marks tx w pumped @ marks_of tx w x) @ marks tx w seen) = Got fr k" "faithful k c'" by blast
      then show ?thesis
        by (intro exI [of _ "pumped @ x # seen"] exI [of _ unseen] exI [of _ fr] exI [of _ k]) simp
    qed
    with ih(1,3) show ?thesis by blast
  next
    case (Some q)
    then have q: "r = q" "c' = d" using "2.prems"(3) look by auto
    show ?thesis
    proof (cases q)
      case (Inl e)
      with laws(1) laws(3) [of e] Some q show ?thesis by auto
    next
      case (Inr u)
      with laws(1,2) Some q show ?thesis by (metis observed_Cons sum.distinct(1))
    qed
  qed
qed

subsection \<open>Within the bounds nothing is lost\<close>

fun item_load :: "run_texts \<Rightarrow> (string \<rightharpoonup> bool) \<Rightarrow> bus_item \<Rightarrow> nat" where
  "item_load tx w (Bus_Frame fr) = (case kept_frame tx w fr of None \<Rightarrow> 0 | Some (_, n) \<Rightarrow> n)"
| "item_load tx w _ = 0"

definition load :: "run_texts \<Rightarrow> (string \<rightharpoonup> bool) \<Rightarrow> bus_item list \<Rightarrow> nat" where
  "load tx w items = sum_list (map (item_load tx w) items)"

lemma load_simps [simp]: "load tx w [] = 0" "load tx w (x # xs) = item_load tx w x + load tx w xs"
  "load tx w (xs @ ys) = load tx w xs + load tx w ys"
  by (simp_all add: load_def)

text \<open>There is room for these events: none was lost and what they add fits.\<close>

definition room :: "run_texts \<Rightarrow> (string \<rightharpoonup> bool) \<Rightarrow> bus_item list \<Rightarrow> run_ctx \<Rightarrow> bool" where
  "room tx w items c \<longleftrightarrow>
     cx_loss c = None \<and> Gap \<notin> set (marks tx w items)
     \<and> length (cx_frames c) + length (marks tx w items) \<le> FRAME_CAP
     \<and> cx_bytes c + load tx w items \<le> FRAME_BYTES"

lemma trim_frames_idle: "\<not> overfull c \<Longrightarrow> trim_frames c = c"
  by (simp add: trim_frames.simps [of c])

lemma room_take_item: "room tx w (x # items) c \<Longrightarrow> room tx w items (take_item tx w c x)"
  by (cases x)
    (auto simp: room_def keep_frame_def trim_frames_idle overfull_def split: option.splits)

lemma room_pump: "room tx w (xs @ items) c \<Longrightarrow> room tx w items (pump_bus tx w xs c)"
  by (induction xs arbitrary: c) (auto simp: pump_bus_def dest: room_take_item)

lemma expect_call_room:
  assumes "run_ctx_ok c" "faithful h c" "room tx w (observed rounds items) c"
    "expect_call tx w P say rounds items stop c = (Inl e, c')"
  shows "e = say stop"
  using assms
proof (induction tx w P say rounds items stop c arbitrary: h rule: expect_call.induct)
  case (1 tx w P say items stop c)
  then have "cx_loss (pump_bus tx w items c) = None" using room_pump [of tx w items "[]" c] by (simp add: room_def)
  with "1.prems"(4) show ?case by (auto simp: expect_look_def split: option.splits if_splits)
next
  case (2 tx w P say pumped x rounds items stop c)
  let ?d = "pump_bus tx w pumped c"
  from room_pump [of tx w pumped "x # observed rounds items" c] "2.prems"(3)
  have r: "room tx w (x # observed rounds items) ?d" by simp
  then have "cx_loss ?d = None" by (simp add: room_def)
  moreover obtain v d where look: "expect_look P ?d = (v, d)" by fastforce
  ultimately have v: "v = None \<and> d = ?d"
    using "2.prems"(4) by (auto simp: expect_look_def split: option.splits if_splits)
  then have "expect_call tx w P say rounds items stop (take_item tx w ?d x) = (Inl e, c')"
    using "2.prems"(4) look by simp
  moreover have "run_ctx_ok ?d" "faithful (h @ marks tx w pumped) ?d"
    using pump_bus_ok [OF "2.prems"(1)] pump_bus_faithful [OF "2.prems"(2,1)] by auto
  ultimately show ?case
    using "2.IH" [OF look [symmetric]] v take_item_ok take_item_faithful room_take_item [OF r] by blast
qed


subsection \<open>The run stops at its first failure\<close>

lemma run_step_sent:
  "run_step tx w st n c = (r, c', cs) \<Longrightarrow>
   cs = (case to_command (sp_action st) of None \<Rightarrow> [] | Some cmd \<Rightarrow> [cmd])"
  by (cases "sp_action st") (auto simp: run_step_def Let_def split: prod.splits)

lemma run_steps_gone:
  "run_steps tx w i True c xs = (rs, ps, cs) \<Longrightarrow>
   map sr_index rs = [i..<i + length xs] \<and> map sr_name rs = map (step_label \<circ> fst) xs
   \<and> map sr_status rs = replicate (length xs) Step_Skipped \<and> cs = []"
proof (induction xs arbitrary: i c rs ps cs)
  case (Cons x xs)
  obtain st n where x: "x = (st, n)" by (cases x)
  obtain rs' ps' cs' where more: "run_steps tx w (Suc i) True c xs = (rs', ps', cs')" by (cases rule: prod_cases3)
  from Cons.IH [OF more] Cons.prems x more show ?case
    by (auto simp: Let_def upt_conv_Cons comp_def simp del: upt_Suc)
qed simp

definition step_commands :: "scenario_step list \<Rightarrow> command list" where
  "step_commands sts = List.map_filter (to_command \<circ> sp_action) sts"

lemma step_commands_simps [simp]:
  "step_commands [] = []"
  "step_commands (st # sts) =
     (case to_command (sp_action st) of None \<Rightarrow> [] | Some cmd \<Rightarrow> [cmd]) @ step_commands sts"
  by (simp_all add: step_commands_def map_filter_simps split: option.splits)

text \<open>The statuses of a run of \<open>n\<close> steps of which the first \<open>k\<close> pass, and the run with its reports.\<close>

definition fail_fast :: "nat \<Rightarrow> nat \<Rightarrow> step_status list \<Rightarrow> bool" where
  "fail_fast k n ss \<longleftrightarrow>
     k \<le> n
     \<and> (if k = n then ss = replicate k Step_Passed
        else \<exists>reason. ss = replicate k Step_Passed @ Step_Failed reason # replicate (n - k - 1) Step_Skipped)"

definition stopped_at :: "nat \<Rightarrow> nat \<Rightarrow> scenario_step list \<Rightarrow> step_report list \<Rightarrow> command list \<Rightarrow> bool" where
  "stopped_at k i sts rs cs \<longleftrightarrow>
     fail_fast k (length sts) (map sr_status rs)
     \<and> map sr_index rs = [i..<i + length sts] \<and> map sr_name rs = map step_label sts
     \<and> (if k = length sts then cs = step_commands sts
        else cs = step_commands (take k sts) \<or> cs = step_commands (take (k + 1) sts))"

lemma fail_fast_Nil [simp]: "fail_fast k 0 ss \<longleftrightarrow> k = 0 \<and> ss = []"
  by (auto simp: fail_fast_def)

lemma fail_fast_Passed: "fail_fast k n ss \<Longrightarrow> fail_fast (Suc k) (Suc n) (Step_Passed # ss)"
  by (auto simp: fail_fast_def split: if_splits)

lemma fail_fast_Failed: "ss = replicate n Step_Skipped \<Longrightarrow> fail_fast 0 (Suc n) (Step_Failed reason # ss)"
  by (auto simp: fail_fast_def)

lemma fail_fast_all: "fail_fast k n ss \<Longrightarrow> list_all (\<lambda>s. s = Step_Passed) ss \<longleftrightarrow> k = n"
  by (auto simp: fail_fast_def list_all_iff split: if_splits)

lemma run_steps_bad:
  assumes "run_steps tx w i False c ((st, n) # xs) = (rs, ps, cs)" "run_step tx w st n c = (res, c', sent)"
    "sn_cancel_before n \<or> sn_cancel_during n \<noteq> None \<or> (\<exists>e. res = Inl e)"
  shows "\<exists>d rs' ps' cs' reason t. run_steps tx w (Suc i) True d xs = (rs', ps', cs')
    \<and> rs = \<lparr>sr_index = i, sr_name = step_label st, sr_status = Step_Failed reason, sr_ms = t\<rparr> # rs'
    \<and> (cs = cs' \<or> cs = sent @ cs')"
proof (cases "sn_cancel_before n")
  case True
  with assms(1) show ?thesis by (auto simp: Let_def split: prod.splits) blast
next
  case False
  show ?thesis
  proof (cases "sn_cancel_during n")
    case None
    with False assms show ?thesis by (auto simp: Let_def split: prod.splits) blast
  next
    case (Some b)
    with False assms(1,2) show ?thesis by (cases b; auto simp: Let_def split: prod.splits; blast)
  qed
qed

lemma run_steps_shape:
  "run_steps tx w i False c xs = (rs, ps, cs) \<Longrightarrow> \<exists>k. stopped_at k i (map fst xs) rs cs"
proof (induction xs arbitrary: i c rs ps cs)
  case Nil
  then show ?case by (auto simp: stopped_at_def)
next
  case (Cons x xs)
  obtain st n where x: "x = (st, n)" by (cases x)
  obtain res c' sent where step: "run_step tx w st n c = (res, c', sent)" by (cases rule: prod_cases3)
  note sent = run_step_sent [OF step]
  show ?case
  proof (cases "sn_cancel_before n \<or> sn_cancel_during n \<noteq> None \<or> (\<exists>e. res = Inl e)")
    case True
    from run_steps_bad [OF Cons.prems [unfolded x] step True] obtain d rs' ps' cs' reason t
      where more: "run_steps tx w (Suc i) True d xs = (rs', ps', cs')"
        and rs: "rs = \<lparr>sr_index = i, sr_name = step_label st, sr_status = Step_Failed reason, sr_ms = t\<rparr> # rs'"
        and cs: "cs = cs' \<or> cs = sent @ cs'" by blast
    from run_steps_gone [OF more] rs cs x sent show ?thesis
      by (intro exI [of _ 0]) (auto simp: stopped_at_def upt_conv_Cons comp_def fail_fast_Failed simp del: upt_Suc)
  next
    case False
    obtain rs' ps' cs' where more: "run_steps tx w (Suc i) False c' xs = (rs', ps', cs')" by (cases rule: prod_cases3)
    with False Cons.prems x step have rs: "map sr_index rs = i # map sr_index rs'"
        "map sr_name rs = step_label st # map sr_name rs'" "map sr_status rs = Step_Passed # map sr_status rs'"
        "cs = sent @ cs'"
      by (auto simp: Let_def split: sum.splits)
    from Cons.IH [OF more] obtain k where "stopped_at k (Suc i) (map fst xs) rs' cs'" by blast
    with rs x sent show ?thesis
      by (intro exI [of _ "Suc k"]) (auto simp: stopped_at_def upt_conv_Cons comp_def fail_fast_Passed simp del: upt_Suc split: if_splits)
  qed
qed

lemma run_scenario_shape:
  assumes "length envs = length (so_steps sc)" "run_scenario tx sc envs cancelled ms = (rep, progress, cmds)"
  shows "\<exists>k. stopped_at k 0 (so_steps sc) (rp_steps rep) cmds
    \<and> (rp_passed rep \<longleftrightarrow> k = length (so_steps sc))"
proof -
  obtain rs ps cs where run:
    "run_steps tx (wanted_calls (so_steps sc)) 0 False ctx_new (zip (so_steps sc) envs) = (rs, ps, cs)"
    by (cases rule: prod_cases3)
  from run_steps_shape [OF run] assms(1) obtain k where k: "stopped_at k 0 (so_steps sc) rs cs" by auto
  then have "list_all (\<lambda>r. sr_status r = Step_Passed) rs \<longleftrightarrow> k = length (so_steps sc)"
    using fail_fast_all [of k "length (so_steps sc)" "map sr_status rs"] by (auto simp: stopped_at_def list_all_iff)
  with k run assms(2) show ?thesis by (auto simp: run_scenario_def intro!: exI [of _ k])
qed

text \<open>
  A run reports every step once and in order: the steps before the first failure passed, those behind it
  are skipped, the report passed exactly when every step did, and the station got the commands of the
  steps that ran, in their order, and none afterwards.
\<close>

theorem scenario_fail_fast:
  assumes "length envs = length (so_steps sc)" "run_scenario tx sc envs cancelled ms = (rep, progress, cmds)"
  shows "\<exists>k. stopped_at k 0 (so_steps sc) (rp_steps rep) cmds
    \<and> (rp_passed rep \<longleftrightarrow> k = length (so_steps sc))"
  using assms by (rule run_scenario_shape)

subsection \<open>A concrete run\<close>

definition demo_texts :: run_texts where
  "demo_texts = \<lparr>rt_bytes = (\<lambda>_. 10), rt_json = (\<lambda>_. []), rt_condition = (\<lambda>_. []), rt_payload = (\<lambda>_. JNull),
     rt_auth = (\<lambda>_. [])\<rparr>"

definition demo_frame :: "string \<Rightarrow> frame_record" where
  "demo_frame called = \<lparr>fr_out = True, fr_msg_id = Some ''1'', fr_action = Some called,
     fr_frame = JArray [JNumber (PosInt 2), JString ''1'', JString called, JObject []]\<rparr>"

definition demo_wanted :: "string \<rightharpoonup> bool" where
  "demo_wanted = [''Heartbeat'' \<mapsto> False]"

definition demo_step_env :: "string + outcome \<Rightarrow> step_env" where
  "demo_step_env reply_r = \<lparr>sn_pumped = [], sn_snapshots = [], sn_stopped = False, sn_rounds = [], sn_last = [],
     sn_stop = Stop_Timeout, sn_send = (\<lambda>_. reply_r), sn_cancel_before = False, sn_cancel_during = None, sn_ms = 0\<rparr>"

definition demo_scenario :: scenario where
  "demo_scenario = \<lparr>so_name = ''demo'',
     so_steps = map (\<lambda>a. \<lparr>sp_name = None, sp_expect = None, sp_action = a\<rparr>) [Act_Connect, Act_Boot, Act_Heartbeat]\<rparr>"

definition demo_envs :: "step_env list" where
  "demo_envs = [demo_step_env (Inr Out_Done), demo_step_env (Inl ''not connected''), demo_step_env (Inr Out_Done)]"

lemmas demo_run_defs = demo_texts_def demo_frame_def demo_wanted_def demo_step_env_def demo_scenario_def demo_envs_def


lemma scenario_fail_fast_witness:
  "\<exists>rep progress cmds. run_scenario demo_texts demo_scenario demo_envs False 7 = (rep, progress, cmds)
     \<and> \<not> rp_passed rep \<and> cmds = [Cmd_Connect, Cmd_Boot] \<and> length (rp_steps rep) = 3
     \<and> (\<exists>k. stopped_at k 0 (so_steps demo_scenario) (rp_steps rep) cmds \<and> k \<noteq> 3)"
proof -
  obtain rep progress cmds where run: "run_scenario demo_texts demo_scenario demo_envs False 7 = (rep, progress, cmds)"
    by (cases rule: prod_cases3)
  have len: "length demo_envs = length (so_steps demo_scenario)" by (simp add: demo_run_defs)
  have "\<not> rp_passed rep \<and> cmds = [Cmd_Connect, Cmd_Boot] \<and> length (rp_steps rep) = 3"
    using run by (auto simp: run_scenario_def run_step_def check_outcome_def expect_default_def demo_run_defs
        pump_bus_def Let_def status_complaint_def payload_complaint_def)
  with scenario_fail_fast [OF len run] run show ?thesis by (auto simp: demo_scenario_def)
qed

end
