(* ===== verification/Scenario_Report.thy ===== *)
theory Scenario_Report
  imports Scenario_Laws
begin

text \<open>
  The JUnit report of scenario runs (\<open>scenario/junit.rs\<close>): escaping, counts and the document.  The laws:
  no text of a run can break out of its attribute or element, escaping loses only what XML cannot carry,
  and the counts agree with the reports.
\<close>

subsection \<open>Escaping\<close>

definition escape_char :: "char \<Rightarrow> string" where
  "escape_char c =
     (if c = CHR ''&'' then ''&amp;''
      else if c = CHR ''<'' then ''&lt;''
      else if c = CHR ''>'' then ''&gt;''
      else if c = CHR 0x22 then ''&quot;''
      else if c = CHR 0x27 then ''&apos;''
      else if c = CHR 0x0A then ''&#10;''
      else if c = CHR 0x0D then ''&#13;''
      else if c = CHR 0x09 then ''&#9;''
      else if char_code c < 32 then []
      else [c])"

definition escape :: "string \<Rightarrow> string" where
  "escape s = concat (map escape_char s)"

definition pad3 :: "nat \<Rightarrow> string" where
  "pad3 n = (let d = show_nat n in replicate (3 - length d) (CHR ''0'') @ d)"

definition seconds :: "u64 \<Rightarrow> string" where
  "seconds ms = show_nat (ms div 1000) @ ''.'' @ pad3 (ms mod 1000)"

subsection \<open>Suites and counts\<close>

record junit_suite =
  ju_station :: "string option"
  ju_scenario :: string
  ju_outcome :: "string + scenario_report"

record junit_counts =
  jc_tests :: nat
  jc_failures :: nat
  jc_errors :: nat
  jc_skipped :: nat
  jc_ms :: u64

definition counts_zero :: junit_counts where
  "counts_zero = \<lparr>jc_tests = 0, jc_failures = 0, jc_errors = 0, jc_skipped = 0, jc_ms = 0\<rparr>"

definition counts_add :: "junit_counts \<Rightarrow> junit_counts \<Rightarrow> junit_counts" where
  "counts_add a b =
     \<lparr>jc_tests = jc_tests a + jc_tests b, jc_failures = jc_failures a + jc_failures b,
      jc_errors = jc_errors a + jc_errors b, jc_skipped = jc_skipped a + jc_skipped b,
      jc_ms = min u64_max (jc_ms a + jc_ms b)\<rparr>"

definition quoted :: "string \<Rightarrow> string" where
  "quoted s = CHR 0x22 # s @ [CHR 0x22]"

definition counts_attributes :: "junit_counts \<Rightarrow> string" where
  "counts_attributes c =
     ''tests='' @ quoted (show_nat (jc_tests c)) @ '' failures='' @ quoted (show_nat (jc_failures c))
     @ '' errors='' @ quoted (show_nat (jc_errors c)) @ '' skipped='' @ quoted (show_nat (jc_skipped c))
     @ '' time='' @ quoted (seconds (jc_ms c))"

abbreviation newline :: string where
  "newline \<equiv> [CHR 0x0A]"

definition render_case :: "string \<Rightarrow> step_report \<Rightarrow> string" where
  "render_case cls r =
     ''    <testcase classname='' @ quoted cls
     @ '' name='' @ quoted (escape (show_nat (sr_index r + 1) @ ''. '' @ sr_name r))
     @ '' time='' @ quoted (seconds (sr_ms r))
     @ (case sr_status r of
          Step_Passed \<Rightarrow> ''/>'' @ newline
        | Step_Failed reason \<Rightarrow>
            ''>'' @ newline @ ''      <failure message='' @ quoted (escape reason)
            @ '' type='' @ quoted ''StepFailed'' @ ''>'' @ escape reason @ ''</failure>'' @ newline
            @ ''    </testcase>'' @ newline
        | Step_Skipped \<Rightarrow>
            ''>'' @ newline @ ''      <skipped/>'' @ newline @ ''    </testcase>'' @ newline)"

definition count_case :: "junit_counts \<Rightarrow> step_report \<Rightarrow> junit_counts" where
  "count_case c r =
     (let c = c\<lparr>jc_tests := jc_tests c + 1\<rparr> in
      case sr_status r of
        Step_Passed \<Rightarrow> c
      | Step_Failed _ \<Rightarrow> c\<lparr>jc_failures := jc_failures c + 1\<rparr>
      | Step_Skipped \<Rightarrow> c\<lparr>jc_skipped := jc_skipped c + 1\<rparr>)"

definition render_suite :: "junit_suite \<Rightarrow> string \<times> junit_counts" where
  "render_suite s =
     (let nm = (case ju_station s of Some station \<Rightarrow> ju_scenario s @ '' ['' @ station @ '']''
                | None \<Rightarrow> ju_scenario s);
          cls = escape nm;
          (cases, counts) = (case ju_outcome s of
              Inr rep \<Rightarrow>
                (concat (map (render_case cls) (rp_steps rep)),
                 foldl count_case (counts_zero\<lparr>jc_ms := rp_ms rep\<rparr>) (rp_steps rep))
            | Inl error \<Rightarrow>
                (''    <testcase classname='' @ quoted cls @ '' name='' @ quoted ''setup''
                 @ '' time='' @ quoted ''0.000'' @ ''>'' @ newline
                 @ ''      <error message='' @ quoted (escape error) @ '' type='' @ quoted ''SetupError''
                 @ ''>'' @ escape error @ ''</error>'' @ newline @ ''    </testcase>'' @ newline,
                 counts_zero\<lparr>jc_tests := 1, jc_errors := 1\<rparr>))
      in (''  <testsuite name='' @ quoted cls @ '' '' @ counts_attributes counts @ ''>'' @ newline
          @ cases @ ''  </testsuite>'' @ newline, counts))"

definition junit_xml :: "junit_suite list \<Rightarrow> string" where
  "junit_xml suites =
     (let (total, body) = foldl (\<lambda>(total, body) suite.
              let (xml, counts) = render_suite suite in (counts_add total counts, body @ xml))
            (counts_zero, []) suites
      in ''<?xml version='' @ quoted ''1.0'' @ '' encoding='' @ quoted ''UTF-8'' @ ''?>'' @ newline
         @ ''<testsuites '' @ counts_attributes total @ ''>'' @ newline @ body @ ''</testsuites>'' @ newline)"

subsection \<open>Escaping is safe and loses nothing XML can carry\<close>

definition markup :: "char list" where
  "markup = [CHR ''<'', CHR ''>'', CHR 0x22, CHR 0x27]"

definition xml_char :: "char \<Rightarrow> bool" where
  "xml_char c \<longleftrightarrow> 32 \<le> char_code c \<or> c \<in> {CHR 0x09, CHR 0x0A, CHR 0x0D}"

definition entities :: "(string \<times> char) list" where
  "entities = [(''&amp;'', CHR ''&''), (''&lt;'', CHR ''<''), (''&gt;'', CHR ''>''), (''&quot;'', CHR 0x22),
     (''&apos;'', CHR 0x27), (''&#10;'', CHR 0x0A), (''&#13;'', CHR 0x0D), (''&#9;'', CHR 0x09)]"

definition entity_at :: "string \<Rightarrow> (string \<times> char) option" where
  "entity_at s = find (\<lambda>(e, _). take (length e) s = e) entities"

text \<open>What a reader of the attribute sees.\<close>

function unescape :: "string \<Rightarrow> string" where
  "unescape [] = []"
| "unescape (c # s) =
     (case entity_at (c # s) of
        Some (e, d) \<Rightarrow> d # unescape (drop (length e - 1) s)
      | None \<Rightarrow> c # unescape s)"
  by pat_completeness auto
termination by (relation "measure length") auto

lemma entity_at_plain: "c \<noteq> CHR ''&'' \<Longrightarrow> entity_at (c # s) = None"
  by (simp add: entity_at_def entities_def)

lemma unescape_char:
  "unescape (escape_char c @ s) = (if xml_char c then c # unescape s else unescape s)"
proof (cases "c \<in> set (map snd entities)")
  case True
  then show ?thesis
    by (auto simp: entities_def escape_char_def entity_at_def xml_char_def char_code_def)
next
  case False
  then have "escape_char c = (if xml_char c then [c] else [])" and "c \<noteq> CHR ''&''"
    by (auto simp: entities_def escape_char_def xml_char_def)
  then show ?thesis by (simp add: entity_at_plain)
qed

lemma escape_char_safe: "x \<in> set (escape_char c) \<Longrightarrow> x \<notin> set markup \<and> 32 \<le> char_code x"
  by (auto simp: escape_char_def markup_def char_code_def split: if_splits)

theorem escape_safe:
  "unescape (escape s) = filter xml_char s
   \<and> list_all (\<lambda>x. x \<notin> set markup \<and> 32 \<le> char_code x) (escape s)"
proof
  show "unescape (escape s) = filter xml_char s"
    by (induction s) (simp_all add: escape_def unescape_char)
  show "list_all (\<lambda>x. x \<notin> set markup \<and> 32 \<le> char_code x) (escape s)"
    using escape_char_safe by (auto simp: escape_def list_all_iff)
qed

subsection \<open>The counts agree with the reports\<close>

definition count_status :: "(step_status \<Rightarrow> bool) \<Rightarrow> step_report list \<Rightarrow> nat" where
  "count_status P rs = length (filter (P \<circ> sr_status) rs)"

lemma foldl_count_case:
  "foldl count_case c rs =
     c\<lparr>jc_tests := jc_tests c + length rs,
       jc_failures := jc_failures c + count_status (\<lambda>s. s \<noteq> Step_Passed \<and> s \<noteq> Step_Skipped) rs,
       jc_skipped := jc_skipped c + count_status (\<lambda>s. s = Step_Skipped) rs\<rparr>"
  by (induction rs arbitrary: c) (auto simp: count_case_def count_status_def Let_def split: step_status.splits)

lemma count_status_map:
  "count_status P rs = length (filter P (map sr_status rs))"
  by (simp add: count_status_def)

lemma stopped_counts:
  assumes "stopped_at k i sts rs cs"
  shows "count_status (\<lambda>s. s \<noteq> Step_Passed \<and> s \<noteq> Step_Skipped) rs = (if k = length sts then 0 else 1)"
    and "count_status (\<lambda>s. s = Step_Skipped) rs = length sts - k - 1"
    and "length rs = length sts"
proof -
  from assms have "length (map sr_name rs) = length (map step_label sts)" by (auto simp: stopped_at_def)
  then show "length rs = length sts" by simp
  show "count_status (\<lambda>s. s \<noteq> Step_Passed \<and> s \<noteq> Step_Skipped) rs = (if k = length sts then 0 else 1)"
    "count_status (\<lambda>s. s = Step_Skipped) rs = length sts - k - 1"
    using assms by (auto simp: stopped_at_def fail_fast_def count_status_map simp del: length_filter_map split: if_splits)
qed

text \<open>A run that did not pass is one failure in the report, and every step is a test case.\<close>

theorem junit_counts_exact:
  assumes "length envs = length (so_steps sc)" "run_scenario tx sc envs cancelled ms = (rep, progress, cmds)"
    and "render_suite \<lparr>ju_station = station, ju_scenario = rp_scenario rep, ju_outcome = Inr rep\<rparr> = (xml, counts)"
  shows "jc_tests counts = length (so_steps sc) \<and> jc_failures counts = (if rp_passed rep then 0 else 1)
    \<and> jc_errors counts = 0 \<and> jc_ms counts = rp_ms rep"
proof -
  from run_scenario_shape [OF assms(1,2)] obtain k where k: "stopped_at k 0 (so_steps sc) (rp_steps rep) cmds"
    and p: "rp_passed rep \<longleftrightarrow> k = length (so_steps sc)" by blast
  from assms(3) have "counts = foldl count_case (counts_zero\<lparr>jc_ms := rp_ms rep\<rparr>) (rp_steps rep)"
    by (simp add: render_suite_def Let_def)
  with stopped_counts [OF k] p show ?thesis by (simp add: foldl_count_case counts_zero_def)
qed

lemma junit_counts_exact_witness:
  "\<exists>rep progress cmds xml counts.
     run_scenario demo_texts demo_scenario demo_envs False 7 = (rep, progress, cmds)
     \<and> render_suite \<lparr>ju_station = None, ju_scenario = rp_scenario rep, ju_outcome = Inr rep\<rparr> = (xml, counts)
     \<and> jc_tests counts = 3 \<and> jc_failures counts = (if rp_passed rep then 0 else 1)"
proof -
  obtain rep progress cmds where run: "run_scenario demo_texts demo_scenario demo_envs False 7 = (rep, progress, cmds)"
    by (cases rule: prod_cases3)
  obtain xml counts where suite:
    "render_suite \<lparr>ju_station = None, ju_scenario = rp_scenario rep, ju_outcome = Inr rep\<rparr> = (xml, counts)" by fastforce
  have len: "length demo_envs = length (so_steps demo_scenario)" by (simp add: demo_run_defs)
  from junit_counts_exact [OF len run suite] run suite show ?thesis by (auto simp: demo_scenario_def)
qed

end
