(* ===== verification/Csms_Script.thy ===== *)
theory Csms_Script
  imports Csms_Session Scenario_Laws
begin

text \<open>
  Scripts of the central system (\<open>kirby-csms/src/script.rs\<close>): steps with their validation and titles, the
  backlog of inbound CALLs a pump task collects, and the runner over the registry of \<open>Csms_Server\<close>.
  TOML is third-party: a script arrives decoded.  The environment of a step says what the pump saw, how
  the registry moved on meanwhile, and what a CALL was answered.
\<close>

subsection \<open>Scripts as data\<close>

datatype fault_kind = CallErrorKind | SilenceKind | CloseKind | InvalidPayloadKind

fun fault_kind_debug :: "fault_kind \<Rightarrow> string" where
  "fault_kind_debug CallErrorKind = ''CallError''"
| "fault_kind_debug SilenceKind = ''Silence''"
| "fault_kind_debug CloseKind = ''Close''"
| "fault_kind_debug InvalidPayloadKind = ''InvalidPayload''"

datatype script_action =
  Sc_WaitStation "string option" "nat option" bool u64
| Sc_WaitCall "string option" string "json option" u64
| Sc_Call string string json "string option" bool u64
| Sc_Sleep u64
| Sc_Respond string json
| Sc_ClearRespond string
| Sc_InjectFault string fault_kind "json option" nat

record script_step =
  cp_name :: "string option"
  cp_action :: script_action

record csms_script =
  ct_name :: string
  ct_steps :: "script_step list"

definition check_wait :: "u64 \<Rightarrow> string option" where
  "check_wait ms =
     (if ms = 0 then Some ''`timeout_ms` must be positive''
      else if MAX_WAIT_MS < ms then Some ''`timeout_ms` must be at most 86400000 (one day)''
      else None)"

fun script_complaint :: "script_action \<Rightarrow> string option" where
  "script_complaint (Sc_WaitStation station cnt booted ms) =
     option_or (check_wait ms)
       (if cnt = Some 0 then Some ''`count` must be 1 or more''
        else if station = Some [] then Some ''`station` must not be empty'' else None)"
| "script_complaint (Sc_WaitCall station called pat ms) =
     option_or (check_wait ms) (if called = [] then Some ''`call` must not be empty'' else None)"
| "script_complaint (Sc_Call station called payload status err ms) =
     option_or (check_wait ms)
       (if station = [] \<or> called = [] then Some ''`station` and `call` must not be empty''
        else if err \<and> status \<noteq> None then Some ''`expect_status` and `expect_error` exclude each other''
        else None)"
| "script_complaint (Sc_Sleep ms) =
     (if MAX_WAIT_MS < ms then Some ''`ms` must be at most 86400000 (one day)'' else None)"
| "script_complaint (Sc_Respond called payload) =
     (if called = [] then Some ''`call` must not be empty'' else None)"
| "script_complaint (Sc_ClearRespond called) =
     (if called = [] then Some ''`call` must not be empty'' else None)"
| "script_complaint (Sc_InjectFault called kind payload uses) =
     (if called = [] then Some ''`call` must not be empty''
      else if uses = 0 then Some ''`times` must be 1 or more''
      else if kind = InvalidPayloadKind \<and> payload = None
      then Some ''kind `invalid_payload` needs a `payload`''
      else None)"

fun first_script_complaint :: "nat \<Rightarrow> script_step list \<Rightarrow> string option" where
  "first_script_complaint i [] = None"
| "first_script_complaint i (st # sts) =
     (case script_complaint (cp_action st) of
        Some e \<Rightarrow> Some (''invalid script: step '' @ show_nat (i + 1) @ '': '' @ e)
      | None \<Rightarrow> first_script_complaint (i + 1) sts)"

text \<open>The checks of \<open>from_toml\<close> on the decoded text.\<close>

definition script_check :: "csms_script \<Rightarrow> string + csms_script" where
  "script_check sc =
     (if trim (ct_name sc) = [] then Inl ''invalid script: `name` must not be empty''
      else if ct_steps sc = [] then Inl ''invalid script: a script needs at least one `[[steps]]`''
      else case first_script_complaint 0 (ct_steps sc) of Some e \<Rightarrow> Inl e | None \<Rightarrow> Inr sc)"

definition script_title :: "script_step \<Rightarrow> string" where
  "script_title st =
     unwrap_or (cp_name st)
       (case cp_action st of
          Sc_WaitStation (Some station) (Some cnt) _ _ \<Rightarrow>
            ''wait_station '' @ station @ '' (>= '' @ show_nat cnt @ '')''
        | Sc_WaitStation (Some station) None _ _ \<Rightarrow> ''wait_station '' @ station
        | Sc_WaitStation None cnt _ _ \<Rightarrow> ''wait_station (>= '' @ show_nat (unwrap_or cnt 1) @ '')''
        | Sc_WaitCall (Some station) called _ _ \<Rightarrow> ''wait_call '' @ station @ '' '' @ called
        | Sc_WaitCall None called _ _ \<Rightarrow> ''wait_call '' @ called
        | Sc_Call station called _ _ _ _ \<Rightarrow> ''call '' @ station @ '' '' @ called
        | Sc_Sleep ms \<Rightarrow> ''sleep '' @ show_nat ms @ '' ms''
        | Sc_Respond called _ \<Rightarrow> ''respond '' @ called
        | Sc_ClearRespond called \<Rightarrow> ''clear_respond '' @ called
        | Sc_InjectFault called kind _ _ \<Rightarrow> ''inject_fault '' @ called @ '' '' @ fault_kind_debug kind)"

subsection \<open>The backlog\<close>

definition SEEN_CAP :: nat where "SEEN_CAP = 10000"
definition SEEN_BYTES :: nat where "SEEN_BYTES = 16 * 1024 * 1024"

record seen_call =
  sn_station :: string
  sn_action :: string
  sn_payload :: json
  sn_consumed :: bool
  sn_bytes :: nat

record backlog =
  bl_calls :: "seen_call list"
  bl_bytes :: nat
  bl_wanted :: "string \<rightharpoonup> bool"
  bl_max_bytes :: nat
  bl_lagged :: bool
  bl_closed :: bool

definition with_wanted :: "(string \<rightharpoonup> bool) \<Rightarrow> nat \<Rightarrow> backlog" where
  "with_wanted w max_bytes =
     \<lparr>bl_calls = [], bl_bytes = 0, bl_wanted = w, bl_max_bytes = max_bytes, bl_lagged = False, bl_closed = False\<rparr>"

definition backlog_new :: "csms_script \<Rightarrow> backlog" where
  "backlog_new sc =
     with_wanted
       (foldl (\<lambda>m st. case cp_action st of
            Sc_WaitCall _ called pat _ \<Rightarrow> m(called \<mapsto> unwrap_or (m called) False \<or> pat \<noteq> None)
          | _ \<Rightarrow> m) Map.empty (ct_steps sc))
       SEEN_BYTES"

function evict_seen :: "nat \<Rightarrow> seen_call list \<Rightarrow> nat \<Rightarrow> seen_call list \<times> nat" where
  "evict_seen max_bytes calls bytes =
     (if 1 < length calls \<and> (SEEN_CAP < length calls \<or> max_bytes < bytes)
      then evict_seen max_bytes (tl calls) (bytes - sn_bytes (hd calls))
      else (calls, bytes))"
  by pat_completeness auto
termination by (relation "measure (\<lambda>(_, calls, _). length calls)") auto

declare evict_seen.simps [simp del]

definition seen_of :: "csms_env \<Rightarrow> bool \<Rightarrow> string \<Rightarrow> string \<Rightarrow> json \<Rightarrow> seen_call" where
  "seen_of env needs_payload station action payload =
     \<lparr>sn_station = station, sn_action = action, sn_payload = (if needs_payload then payload else JNull),
      sn_consumed = False,
      sn_bytes = length (utf8 station) + length (utf8 action) + 64
                 + (if needs_payload then length (utf8 (ce_print env payload)) else 0)\<rparr>"

definition backlog_record :: "csms_env \<Rightarrow> csms_event \<Rightarrow> backlog \<Rightarrow> backlog" where
  "backlog_record env ev b =
     (case ev of
        Cs_Frame station False (Frame_Call _ action payload) \<Rightarrow>
          (case bl_wanted b action of
             None \<Rightarrow> b
           | Some needs_payload \<Rightarrow>
               let seen = seen_of env needs_payload station action payload;
                   (calls, bytes) = evict_seen (bl_max_bytes b) (bl_calls b @ [seen]) (bl_bytes b + sn_bytes seen)
               in b\<lparr>bl_calls := calls, bl_bytes := bytes\<rparr>)
      | _ \<Rightarrow> b)"

definition seen_fits :: "string option \<Rightarrow> string \<Rightarrow> json option \<Rightarrow> seen_call \<Rightarrow> bool" where
  "seen_fits station called pat seen =
     (\<not> sn_consumed seen \<and> sn_action seen = called \<and> is_none_or station (\<lambda>i. sn_station seen = i)
      \<and> is_none_or pat (\<lambda>m. json_subset m (sn_payload seen)))"

definition take_seen :: "string option \<Rightarrow> string \<Rightarrow> json option \<Rightarrow> backlog \<Rightarrow> backlog option" where
  "take_seen station called pat b =
     (case position (seen_fits station called pat) (bl_calls b) of
        None \<Rightarrow> None
      | Some i \<Rightarrow> Some (b\<lparr>bl_calls := (bl_calls b)[i := (bl_calls b ! i)\<lparr>sn_consumed := True\<rparr>]\<rparr>))"

text \<open>The pump task, one item of the event stream at a time.\<close>

datatype pump_item = Pump_Event csms_event | Pump_Lagged | Pump_Closed

definition pump_item :: "csms_env \<Rightarrow> pump_item \<Rightarrow> backlog \<Rightarrow> backlog" where
  "pump_item env x b =
     (if bl_closed b then b
      else case x of
        Pump_Event ev \<Rightarrow> backlog_record env ev b
      | Pump_Lagged \<Rightarrow> b\<lparr>bl_lagged := True\<rparr>
      | Pump_Closed \<Rightarrow> b\<lparr>bl_closed := True\<rparr>)"

definition pump_items :: "csms_env \<Rightarrow> pump_item list \<Rightarrow> backlog \<Rightarrow> backlog" where
  "pump_items env xs b = fold (pump_item env) xs b"

subsection \<open>The steps\<close>

text \<open>
  The environment of one step: what the pump collects and how the registry changes before each look of a
  wait (the first entry before the step itself), and the answer to a CALL (\<open>None\<close> when it was still queued
  after its time).  A wait whose list ends has passed its own end.
\<close>

record script_env =
  ze_first :: "pump_item list"
  ze_moved :: "csms_server \<Rightarrow> csms_server"
  ze_rounds :: "(pump_item list \<times> (csms_server \<Rightarrow> csms_server)) list"
  ze_answer :: "(csms_error + frame) option"
  ze_deadline :: bool
  ze_ms :: u64

fun wait_loop ::
  "csms_env \<Rightarrow> (backlog \<Rightarrow> csms_server \<Rightarrow> backlog option)
   \<Rightarrow> (pump_item list \<times> (csms_server \<Rightarrow> csms_server)) list \<Rightarrow> backlog \<Rightarrow> csms_server
   \<Rightarrow> bool \<times> backlog \<times> csms_server"
where
  "wait_loop env look [] b sv =
     (case look b sv of Some b \<Rightarrow> (True, b, sv) | None \<Rightarrow> (False, b, sv))"
| "wait_loop env look ((items, moved) # rest) b sv =
     (case look b sv of
        Some b \<Rightarrow> (True, b, sv)
      | None \<Rightarrow>
          if bl_closed b then (False, b, sv)
          else wait_loop env look rest (pump_items env items b) (moved sv))"

definition station_booted :: "csms_server \<Rightarrow> string \<Rightarrow> bool \<Rightarrow> bool" where
  "station_booted sv i booted = (\<not> booted \<or> is_some_and (cs_state sv i) (\<lambda>st. ss_boot st \<noteq> None))"

definition connected_count :: "csms_server \<Rightarrow> bool \<Rightarrow> nat" where
  "connected_count sv booted =
     length (filter (\<lambda>i. in_connected i \<and> station_booted sv (in_id i) booted) (cs_stations sv))"

definition stations_ready :: "csms_server \<Rightarrow> string option \<Rightarrow> nat option \<Rightarrow> bool \<Rightarrow> bool" where
  "stations_ready sv station cnt booted =
     (is_none_or station (\<lambda>i. is_some_and (cs_station sv i) (\<lambda>info. in_connected info \<and> station_booted sv i booted))
      \<and> (case (station, cnt) of
           (Some _, None) \<Rightarrow> True
         | _ \<Rightarrow> unwrap_or cnt 1 \<le> connected_count sv booted))"

fun check_answer :: "(csms_error \<Rightarrow> string) \<Rightarrow> (json \<Rightarrow> string) \<Rightarrow> csms_error + frame \<Rightarrow> string \<Rightarrow> string option \<Rightarrow> bool \<Rightarrow> string + unit"
where
  "check_answer er pr (Inr (Frame_Result _ payload)) called status err =
     (if err then Inl (called @ '': expected a CALLERROR, got a CALLRESULT'')
      else case status of
        None \<Rightarrow> Inr ()
      | Some expected \<Rightarrow>
          let actual = Option.bind (json_get payload ''status'') as_str in
          if actual = Some expected then Inr ()
          else Inl (called @ '': expected status '' @ expected @ '', got ''
                    @ (case actual of None \<Rightarrow> ''payload '' @ pr payload | Some st \<Rightarrow> st)))"
| "check_answer er pr (Inr (Frame_Error _ code description _)) called status err =
     (if err then Inr () else Inl (called @ '': CALLERROR '' @ code_str code @ '': '' @ description))"
| "check_answer er pr (Inr (Frame_Call _ _ _)) called status err =
     Inl (called @ '': unexpected CALL as an answer'')"
| "check_answer er pr (Inl e) called status err = Inl (er e)"

fun script_fault :: "string \<Rightarrow> fault_kind \<Rightarrow> json option \<Rightarrow> csms_fault" where
  "script_fault called CallErrorKind _ = fault_call_error called"
| "script_fault called SilenceKind _ = fault_silence called"
| "script_fault called CloseKind _ = fault_close called"
| "script_fault called InvalidPayloadKind payload = fault_invalid_payload called (unwrap_or payload JNull)"

definition execute_step ::
  "csms_env \<Rightarrow> (csms_error \<Rightarrow> string) \<Rightarrow> script_action \<Rightarrow> script_env \<Rightarrow> backlog \<Rightarrow> csms_server
   \<Rightarrow> (string + unit) \<times> backlog \<times> csms_server"
where
  "execute_step env er a ze b0 sv0 =
     (let b = pump_items env (ze_first ze) b0; sv = ze_moved ze sv0 in
      case a of
        Sc_WaitStation station cnt booted ms \<Rightarrow>
          (let (ok, b, sv) = wait_loop env (\<lambda>b sv. if stations_ready sv station cnt booted then Some b else None)
                               (ze_rounds ze) b sv
           in (if ok then Inr ()
               else Inl ((case station of
                   Some i \<Rightarrow> ''station '' @ i @ '' did not connect within '' @ show_nat ms @ '' ms (''
                 | None \<Rightarrow> ''fewer than '' @ show_nat (unwrap_or cnt 1) @ '' stations connected within ''
                     @ show_nat ms @ '' ms ('')
                 @ show_nat (connected_count sv booted) @ '' connected)''), b, sv))
      | Sc_WaitCall station called pat ms \<Rightarrow>
          (let (ok, b, sv) = wait_loop env (\<lambda>b _. take_seen station called pat b) (ze_rounds ze) b sv
           in (if ok then Inr ()
               else Inl (''no matching '' @ called @ '' CALL within '' @ show_nat ms @ '' ms''
                 @ (if bl_lagged b then '' (events were dropped, a CALL may have been missed)'' else [])), b, sv))
      | Sc_Call station called payload status err ms \<Rightarrow>
          ((case ze_answer ze of
              None \<Rightarrow> Inl (called @ '' was still queued after '' @ show_nat ms @ '' ms'')
            | Some r \<Rightarrow> check_answer er (ce_print env) r called status err), b, sv)
      | Sc_Sleep _ \<Rightarrow> (Inr (), b, sv)
      | Sc_Respond called payload \<Rightarrow> (Inr (), b, cs_respond called (\<lambda>_. Reply_Result payload) sv)
      | Sc_ClearRespond called \<Rightarrow> (Inr (), b, clear_responder called sv)
      | Sc_InjectFault called kind payload uses \<Rightarrow>
          (Inr (), b, cs_inject (fault_times uses (script_fault called kind payload)) sv))"

text \<open>The steps that are done the first time they are polled, which a deadline cannot interrupt.\<close>

fun instant_step :: "script_action \<Rightarrow> bool" where
  "instant_step (Sc_Respond _ _) = True"
| "instant_step (Sc_ClearRespond _) = True"
| "instant_step (Sc_InjectFault _ _ _ _) = True"
| "instant_step _ = False"

definition script_status :: "script_action \<Rightarrow> bool \<Rightarrow> string + unit \<Rightarrow> step_status" where
  "script_status a deadline r =
     (if deadline \<and> \<not> instant_step a then Step_Failed ''the script --timeout was reached''
      else case r of Inr _ \<Rightarrow> Step_Passed | Inl reason \<Rightarrow> Step_Failed reason)"

fun script_steps ::
  "csms_env \<Rightarrow> (csms_error \<Rightarrow> string) \<Rightarrow> nat \<Rightarrow> bool \<Rightarrow> (script_step \<times> script_env) list \<Rightarrow> backlog \<Rightarrow> csms_server
   \<Rightarrow> step_report list \<times> backlog \<times> csms_server"
where
  "script_steps env er i gone [] b sv = ([], b, sv)"
| "script_steps env er i gone ((st, ze) # rest) b sv =
     (let (status, b, sv) =
            (if gone then (Step_Skipped, b, sv)
             else let (r, b, sv) = execute_step env er (cp_action st) ze b sv in
               (script_status (cp_action st) (ze_deadline ze) r, b, sv));
          (rs, b, sv) = script_steps env er (i + 1)
            (gone \<or> (case status of Step_Failed _ \<Rightarrow> True | _ \<Rightarrow> False)) rest b sv
      in (\<lparr>sr_index = i, sr_name = script_title st, sr_status = status, sr_ms = ze_ms ze\<rparr> # rs, b, sv))"

definition run_script ::
  "csms_env \<Rightarrow> (csms_error \<Rightarrow> string) \<Rightarrow> csms_script \<Rightarrow> script_env list \<Rightarrow> csms_server \<Rightarrow> u64
   \<Rightarrow> scenario_report \<times> csms_server"
where
  "run_script env er sc envs sv0 ms =
     (let (rs, _, sv) = script_steps env er 0 False (zip (ct_steps sc) envs) (backlog_new sc) sv0
      in (\<lparr>rp_scenario = ct_name sc,
           rp_passed = (\<not> list_ex (\<lambda>r. case sr_status r of Step_Failed _ \<Rightarrow> True | _ \<Rightarrow> False) rs),
           rp_cancelled = False, rp_steps = rs, rp_ms = ms\<rparr>, sv))"

end
