(* ===== verification/Csms_Script_Laws.thy ===== *)
theory Csms_Script_Laws
  imports Csms_Script
begin

text \<open>
  What a script run of the central system promises: a CALL of a station serves at most one \<open>wait_call\<close>,
  the oldest fitting one first; the backlog stays bounded; validated waits are bounded; a run stops at its
  first failure and the steps behind it leave the server alone.
\<close>

subsection \<open>Validation\<close>

fun action_wait :: "script_action \<Rightarrow> u64 option" where
  "action_wait (Sc_WaitStation _ _ _ ms) = Some ms"
| "action_wait (Sc_WaitCall _ _ _ ms) = Some ms"
| "action_wait (Sc_Call _ _ _ _ _ ms) = Some ms"
| "action_wait (Sc_Sleep ms) = Some ms"
| "action_wait _ = None"

lemma first_script_complaint_None:
  "first_script_complaint i sts = None \<longleftrightarrow> (\<forall>st\<in>set sts. script_complaint (cp_action st) = None)"
  by (induction sts arbitrary: i) (auto split: option.splits)

lemma script_waits_bounded:
  assumes "script_check sc = Inr sc'" "st \<in> set (ct_steps sc')" "action_wait (cp_action st) = Some ms"
  shows "ms \<le> MAX_WAIT_MS"
proof -
  from assms(1,2) have "script_complaint (cp_action st) = None"
    by (auto simp: script_check_def first_script_complaint_None [of 0, symmetric] split: if_splits option.splits)
      (simp add: first_script_complaint_None)
  with assms(3) show ?thesis
    by (cases "cp_action st") (auto simp: check_wait_def split: if_splits)
qed

subsection \<open>The backlog is bounded\<close>

definition backlog_ok :: "backlog \<Rightarrow> bool" where
  "backlog_ok b \<longleftrightarrow>
     bl_bytes b = sum_list (map sn_bytes (bl_calls b))
     \<and> (length (bl_calls b) \<le> 1 \<or> length (bl_calls b) \<le> SEEN_CAP \<and> bl_bytes b \<le> bl_max_bytes b)"

lemma evict_seen_suffix:
  "bytes = sum_list (map sn_bytes calls) \<Longrightarrow> evict_seen m calls bytes = (calls', bytes') \<Longrightarrow>
   (\<exists>old. calls = old @ calls') \<and> bytes' = sum_list (map sn_bytes calls')
   \<and> (length calls' \<le> 1 \<or> length calls' \<le> SEEN_CAP \<and> bytes' \<le> m)"
proof (induction m calls bytes arbitrary: calls' bytes' rule: evict_seen.induct)
  case (1 m calls bytes)
  show ?case
  proof (cases "1 < length calls \<and> (SEEN_CAP < length calls \<or> m < bytes)")
    case True
    then obtain c cs where calls: "calls = c # cs" by (cases calls) auto
    from True "1.prems" have "evict_seen m cs (bytes - sn_bytes c) = (calls', bytes')"
      using calls by (subst (asm) evict_seen.simps) auto
    then have "evict_seen m (tl calls) (bytes - sn_bytes (hd calls)) = (calls', bytes')" using calls by simp
    moreover have "bytes - sn_bytes (hd calls) = sum_list (map sn_bytes (tl calls))" using "1.prems"(1) calls by simp
    ultimately have "(\<exists>old. tl calls = old @ calls') \<and> bytes' = sum_list (map sn_bytes calls')
        \<and> (length calls' \<le> 1 \<or> length calls' \<le> SEEN_CAP \<and> bytes' \<le> m)" by (rule "1.IH" [OF True, rotated])
    with calls show ?thesis by (metis append_Cons list.sel(3))
  next
    case False
    with "1.prems" have "calls' = calls" "bytes' = bytes" by (auto simp: evict_seen.simps [of m calls])
    with False "1.prems"(1) show ?thesis by auto
  qed
qed

lemma backlog_record_cases:
  assumes "bl_bytes b = sum_list (map sn_bytes (bl_calls b))"
  obtains "backlog_record env ev b = b"
  | station i action payload needs old calls bytes
    where "ev = Cs_Frame station False (Frame_Call i action payload)"
      "bl_calls b @ [seen_of env needs station action payload] = old @ calls"
      "bytes = sum_list (map sn_bytes calls)"
      "length calls \<le> 1 \<or> length calls \<le> SEEN_CAP \<and> bytes \<le> bl_max_bytes b"
      "backlog_record env ev b = b\<lparr>bl_calls := calls, bl_bytes := bytes\<rparr>"
proof (cases "\<exists>station i action payload needs.
    ev = Cs_Frame station False (Frame_Call i action payload) \<and> bl_wanted b action = Some needs")
  case True
  then obtain station i action payload needs where ev: "ev = Cs_Frame station False (Frame_Call i action payload)"
    and w: "bl_wanted b action = Some needs" by blast
  let ?s = "seen_of env needs station action payload"
  obtain calls bytes where e: "evict_seen (bl_max_bytes b) (bl_calls b @ [?s]) (bl_bytes b + sn_bytes ?s) = (calls, bytes)"
    by fastforce
  have sum: "bl_bytes b + sn_bytes ?s = sum_list (map sn_bytes (bl_calls b @ [?s]))" using assms by simp
  from evict_seen_suffix [OF sum e] obtain old where "bl_calls b @ [?s] = old @ calls"
    "bytes = sum_list (map sn_bytes calls)" "length calls \<le> 1 \<or> length calls \<le> SEEN_CAP \<and> bytes \<le> bl_max_bytes b" by blast
  moreover have "backlog_record env ev b = b\<lparr>bl_calls := calls, bl_bytes := bytes\<rparr>"
    using ev w e by (simp add: backlog_record_def Let_def)
  ultimately show ?thesis using that(2) ev by blast
next
  case False
  then have "backlog_record env ev b = b"
    by (auto simp: backlog_record_def split: csms_event.splits bool.splits frame.splits option.splits)
  then show ?thesis by (rule that(1))
qed

lemma backlog_record_ok: "backlog_ok b \<Longrightarrow> backlog_ok (backlog_record env ev b)"
proof -
  assume ok: "backlog_ok b"
  then have "bl_bytes b = sum_list (map sn_bytes (bl_calls b))" by (simp add: backlog_ok_def)
  then show ?thesis by (cases rule: backlog_record_cases [of b env ev]) (use ok in \<open>auto simp: backlog_ok_def\<close>)
qed

lemma backlog_ok_flags [simp]:
  "backlog_ok (b\<lparr>bl_lagged := f\<rparr>) = backlog_ok b" "backlog_ok (b\<lparr>bl_closed := f\<rparr>) = backlog_ok b"
  by (simp_all add: backlog_ok_def)

lemma pump_item_ok: "backlog_ok b \<Longrightarrow> backlog_ok (pump_item env x b)"
  by (cases x) (auto simp: pump_item_def backlog_record_ok)

lemma pump_items_ok: "backlog_ok b \<Longrightarrow> backlog_ok (pump_items env xs b)"
  by (induction xs arbitrary: b) (auto simp: pump_items_def pump_item_ok)

subsection \<open>Taking a CALL\<close>

text \<open>The oldest unconsumed CALL that fits is consumed, and nothing else changes.\<close>

lemma take_seen_Some:
  assumes "take_seen station called pat b = Some b'"
  shows "\<exists>before seen after. bl_calls b = before @ seen # after \<and> seen_fits station called pat seen
    \<and> (\<forall>x\<in>set before. \<not> seen_fits station called pat x)
    \<and> b' = b\<lparr>bl_calls := before @ seen\<lparr>sn_consumed := True\<rparr> # after\<rparr>"
proof -
  from assms obtain i where i: "position (seen_fits station called pat) (bl_calls b) = Some i"
    and b': "b' = b\<lparr>bl_calls := (bl_calls b)[i := (bl_calls b ! i)\<lparr>sn_consumed := True\<rparr>]\<rparr>"
    by (auto simp: take_seen_def split: option.splits)
  from position_SomeD [OF i] have i: "i < length (bl_calls b)" "seen_fits station called pat (bl_calls b ! i)"
    "\<forall>j<i. \<not> seen_fits station called pat (bl_calls b ! j)" by auto
  show ?thesis
    using i b' by (intro exI [of _ "take i (bl_calls b)"] exI [of _ "bl_calls b ! i"] exI [of _ "drop (Suc i) (bl_calls b)"])
      (auto simp: id_take_nth_drop [symmetric] upd_conv_take_nth_drop in_set_conv_nth)
qed

lemma take_seen_None:
  "take_seen station called pat b = None \<longleftrightarrow> (\<forall>x\<in>set (bl_calls b). \<not> seen_fits station called pat x)"
  using position_None [of "seen_fits station called pat" "bl_calls b"]
  by (auto simp: take_seen_def split: option.splits)

lemma take_seen_ok: "backlog_ok b \<Longrightarrow> take_seen station called pat b = Some b' \<Longrightarrow> backlog_ok b'"
  using take_seen_Some [of station called pat b b'] by (auto simp: backlog_ok_def)

subsection \<open>Each CALL serves at most one wait\<close>

text \<open>The CALLs of an action, of one station or of any, in the event stream and unconsumed in the backlog.\<close>

definition is_arrival :: "string option \<Rightarrow> string \<Rightarrow> pump_item \<Rightarrow> bool" where
  "is_arrival who called x =
     (case x of
        Pump_Event (Cs_Frame station False (Frame_Call _ action _)) \<Rightarrow>
          action = called \<and> is_none_or who (\<lambda>i. i = station)
      | _ \<Rightarrow> False)"

definition arrivals :: "string option \<Rightarrow> string \<Rightarrow> pump_item list \<Rightarrow> nat" where
  "arrivals who called xs = length (filter (is_arrival who called) xs)"

definition is_waiting :: "string option \<Rightarrow> string \<Rightarrow> seen_call \<Rightarrow> bool" where
  "is_waiting who called x =
     (\<not> sn_consumed x \<and> sn_action x = called \<and> is_none_or who (\<lambda>i. i = sn_station x))"

definition waiting :: "string option \<Rightarrow> string \<Rightarrow> backlog \<Rightarrow> nat" where
  "waiting who called b = length (filter (is_waiting who called) (bl_calls b))"

definition waits_for :: "string option \<Rightarrow> string \<Rightarrow> script_step \<Rightarrow> bool" where
  "waits_for who called st =
     (case cp_action st of
        Sc_WaitCall station nm _ _ \<Rightarrow> nm = called \<and> (who = None \<or> station = who)
      | _ \<Rightarrow> False)"

definition ze_items :: "script_env \<Rightarrow> pump_item list" where
  "ze_items ze = ze_first ze @ concat (map fst (ze_rounds ze))"

lemma arrivals_simps [simp]:
  "arrivals who called [] = 0"
  "arrivals who called (x # xs) = (if is_arrival who called x then 1 else 0) + arrivals who called xs"
  "arrivals who called (xs @ ys) = arrivals who called xs + arrivals who called ys"
  by (simp_all add: arrivals_def)

lemma waiting_record:
  assumes "backlog_ok b"
  shows "waiting who called (backlog_record env ev b) \<le>
    waiting who called b + (if is_arrival who called (Pump_Event ev) then 1 else 0)"
proof -
  from assms have sum: "bl_bytes b = sum_list (map sn_bytes (bl_calls b))" by (simp add: backlog_ok_def)
  show ?thesis
  proof (cases rule: backlog_record_cases [OF sum, of env ev])
    case (2 station i action payload needs old calls bytes)
    have "length (filter (is_waiting who called) calls) \<le> length (filter (is_waiting who called) (old @ calls))" by simp
    then show ?thesis unfolding 2(2) [symmetric]
      using 2(1,5) by (auto simp: waiting_def is_arrival_def is_waiting_def seen_of_def split: if_splits)
  qed simp
qed

lemma waiting_flags [simp]:
  "waiting who called (b\<lparr>bl_lagged := f\<rparr>) = waiting who called b"
  "waiting who called (b\<lparr>bl_closed := f\<rparr>) = waiting who called b"
  by (simp_all add: waiting_def)

lemma waiting_pump_item:
  assumes "backlog_ok b"
  shows "waiting who called (pump_item env x b) \<le>
    waiting who called b + (if is_arrival who called x then 1 else 0)"
proof (cases x)
  case (Pump_Event ev)
  with waiting_record [OF assms, of who called env ev] show ?thesis
    by (cases "bl_closed b") (simp_all add: pump_item_def)
qed (simp_all add: pump_item_def)

lemma waiting_pump_items:
  "backlog_ok b \<Longrightarrow> waiting who called (pump_items env xs b) \<le> waiting who called b + arrivals who called xs"
proof (induction xs arbitrary: b)
  case (Cons x xs)
  from Cons.IH [OF pump_item_ok [OF Cons.prems, of env x]] waiting_pump_item [OF Cons.prems, of who called env x]
  show ?case by (simp add: pump_items_def)
qed (simp add: pump_items_def)

lemma waiting_take_call:
  assumes "take_seen station nm pat b = Some b'"
  shows "waiting who called b' + (if nm = called \<and> (who = None \<or> station = who) then 1 else 0) \<le> waiting who called b"
  using take_seen_Some [OF assms]
  by (cases who) (auto simp: waiting_def is_waiting_def seen_fits_def)

lemma wait_loop_waiting:
  assumes look: "\<And>b sv b'. look b sv = Some b' \<Longrightarrow> backlog_ok b \<Longrightarrow> backlog_ok b' \<and> waiting who called b' + n \<le> waiting who called b"
    and "backlog_ok b" "wait_loop env look rounds b sv = (ok, b', sv')"
  shows "backlog_ok b' \<and> waiting who called b' + (if ok then n else 0)
    \<le> waiting who called b + arrivals who called (concat (map fst rounds))"
  using assms(2,3)
proof (induction rounds arbitrary: b sv)
  case Nil
  then show ?case using look [of b sv] by (auto split: option.splits)
next
  case (Cons r rest)
  obtain items moved where r: "r = (items, moved)" by (cases r)
  show ?case
  proof (cases "look b sv")
    case (Some d)
    with Cons.prems look [OF Some] r show ?thesis by auto
  next
    case None
    show ?thesis
    proof (cases "bl_closed b")
      case True
      with None Cons.prems r show ?thesis by auto
    next
      case False
      with None Cons.prems(2) r have "wait_loop env look rest (pump_items env items b) (moved sv) = (ok, b', sv')" by simp
      from Cons.IH [OF pump_items_ok [OF Cons.prems(1)] this] waiting_pump_items [OF Cons.prems(1), of who called env items] r
      show ?thesis by auto
    qed
  qed
qed

lemma execute_waiting:
  assumes "backlog_ok b" "execute_step env er (cp_action st) ze b sv = (r, b', sv')"
  shows "backlog_ok b' \<and> waiting who called b' + (if waits_for who called st \<and> r = Inr () then 1 else 0)
    \<le> waiting who called b + arrivals who called (ze_items ze)"
proof -
  let ?b = "pump_items env (ze_first ze) b"
  have ok: "backlog_ok ?b" and w: "waiting who called ?b \<le> waiting who called b + arrivals who called (ze_first ze)"
    using pump_items_ok [OF assms(1)] waiting_pump_items [OF assms(1)] by auto
  note loop = wait_loop_waiting [OF _ ok, of _ who called _ env]
  show ?thesis
  proof (cases "cp_action st")
    case (Sc_WaitStation station cnt booted ms)
    obtain g d sv2 where run: "wait_loop env (\<lambda>b sv. if stations_ready sv station cnt booted then Some b else None)
        (ze_rounds ze) ?b (ze_moved ze sv) = (g, d, sv2)" by (cases rule: prod_cases3)
    have "backlog_ok d \<and> waiting who called d + (if g then 0 else 0)
        \<le> waiting who called ?b + arrivals who called (concat (map fst (ze_rounds ze)))"
      by (rule loop [OF _ run]) (auto split: if_splits)
    with w assms(2) run Sc_WaitStation show ?thesis
      by (auto simp: execute_step_def Let_def waits_for_def ze_items_def)
  next
    case (Sc_WaitCall station nm pat ms)
    obtain g d sv2 where run: "wait_loop env (\<lambda>b _. take_seen station nm pat b)
        (ze_rounds ze) ?b (ze_moved ze sv) = (g, d, sv2)" by (cases rule: prod_cases3)
    let ?n = "if nm = called \<and> (who = None \<or> station = who) then 1 else 0 :: nat"
    have "backlog_ok d \<and> waiting who called d + (if g then ?n else 0)
        \<le> waiting who called ?b + arrivals who called (concat (map fst (ze_rounds ze)))"
      by (rule loop [OF _ run]) (use take_seen_ok waiting_take_call in blast)
    with w assms(2) run Sc_WaitCall show ?thesis
      by (auto simp: execute_step_def Let_def waits_for_def ze_items_def split: if_splits)
  qed (use ok w assms(2) in \<open>auto simp: execute_step_def Let_def waits_for_def ze_items_def\<close>)
qed

lemma script_status_Passed: "script_status a d r = Step_Passed \<Longrightarrow> r = Inr ()"
  by (auto simp: script_status_def split: if_splits sum.splits)

lemma script_status_cases: "script_status a d r = Step_Passed \<or> (\<exists>reason. script_status a d r = Step_Failed reason)"
  by (simp add: script_status_def split: sum.splits)

definition served :: "string option \<Rightarrow> string \<Rightarrow> script_step list \<Rightarrow> step_report list \<Rightarrow> nat" where
  "served who called sts rs =
     length (filter (\<lambda>(st, r). waits_for who called st \<and> sr_status r = Step_Passed) (zip sts rs))"

lemma served_simps [simp]:
  "served who called [] rs = 0"
  "served who called (st # sts) (r # rs) =
     (if waits_for who called st \<and> sr_status r = Step_Passed then 1 else 0) + served who called sts rs"
  by (simp_all add: served_def)

lemma script_steps_waiting:
  "backlog_ok b \<Longrightarrow> script_steps env er i gone xs b sv = (rs, b', sv') \<Longrightarrow>
   served who called (map fst xs) rs + waiting who called b'
     \<le> waiting who called b + arrivals who called (concat (map (ze_items \<circ> snd) xs))"
proof (induction xs arbitrary: i gone b sv rs b' sv')
  case (Cons x xs)
  obtain st ze where x: "x = (st, ze)" by (cases x)
  show ?case
  proof (cases gone)
    case True
    obtain rs1 b1 sv1 where more: "script_steps env er (i + 1) True xs b sv = (rs1, b1, sv1)" by (cases rule: prod_cases3)
    from Cons.IH [OF Cons.prems(1) more] Cons.prems(2) more True x show ?thesis by (auto simp: Let_def)
  next
    case False
    obtain r b2 sv2 where ex: "execute_step env er (cp_action st) ze b sv = (r, b2, sv2)" by (cases rule: prod_cases3)
    let ?s = "script_status (cp_action st) (ze_deadline ze) r"
    let ?g = "case ?s of Step_Failed _ \<Rightarrow> True | _ \<Rightarrow> False"
    obtain rs1 b1 sv1 where more: "script_steps env er (i + 1) ?g xs b2 sv2 = (rs1, b1, sv1)" by (cases rule: prod_cases3)
    have out: "rs = \<lparr>sr_index = i, sr_name = script_title st, sr_status = ?s, sr_ms = ze_ms ze\<rparr> # rs1" "b' = b1"
      using Cons.prems(2) x ex more False by (simp_all add: Let_def)
    from execute_waiting [OF Cons.prems(1) ex, of who called] have ok: "backlog_ok b2"
      and one: "waiting who called b2 + (if waits_for who called st \<and> r = Inr () then 1 else 0)
        \<le> waiting who called b + arrivals who called (ze_items ze)" by auto
    with one script_status_Passed Cons.IH [OF ok more] out x show ?thesis by (auto split: if_splits)
  qed
qed simp

text \<open>The steps behind a failure do nothing, and a run stops at its first failure.\<close>

lemma script_steps_gone:
  "script_steps env er i True xs b sv = (rs, b', sv') \<Longrightarrow>
   map sr_status rs = replicate (length xs) Step_Skipped \<and> map sr_name rs = map (script_title \<circ> fst) xs
   \<and> b' = b \<and> sv' = sv"
proof (induction xs arbitrary: i rs b' sv')
  case (Cons x xs)
  obtain st ze where x: "x = (st, ze)" by (cases x)
  obtain rs1 b1 sv1 where more: "script_steps env er (i + 1) True xs b sv = (rs1, b1, sv1)" by (cases rule: prod_cases3)
  from Cons.IH [OF more] Cons.prems more x show ?case by (auto simp: Let_def)
qed simp

lemma script_steps_shape:
  "script_steps env er i False xs b sv = (rs, b', sv') \<Longrightarrow>
   \<exists>k. fail_fast k (length xs) (map sr_status rs) \<and> map sr_name rs = map (script_title \<circ> fst) xs"
proof (induction xs arbitrary: i b sv rs b' sv')
  case (Cons x xs)
  obtain st ze where x: "x = (st, ze)" by (cases x)
  obtain r b2 sv2 where ex: "execute_step env er (cp_action st) ze b sv = (r, b2, sv2)" by (cases rule: prod_cases3)
  let ?s = "script_status (cp_action st) (ze_deadline ze) r"
  let ?g = "case ?s of Step_Failed _ \<Rightarrow> True | _ \<Rightarrow> False"
  obtain rs1 b1 sv1 where more: "script_steps env er (i + 1) ?g xs b2 sv2 = (rs1, b1, sv1)" by (cases rule: prod_cases3)
  have out: "rs = \<lparr>sr_index = i, sr_name = script_title st, sr_status = ?s, sr_ms = ze_ms ze\<rparr> # rs1" "b' = b1"
    using Cons.prems x ex more by (simp_all add: Let_def)
  show ?case
  proof (cases "\<exists>reason. ?s = Step_Failed reason")
    case True
    then obtain reason where bad: "?s = Step_Failed reason" by blast
    with more have "script_steps env er (i + 1) True xs b2 sv2 = (rs1, b1, sv1)" by simp
    from script_steps_gone [OF this] out bad x show ?thesis
      by (intro exI [of _ 0]) (simp add: fail_fast_Failed)
  next
    case False
    then have good: "?s = Step_Passed" using script_status_cases by blast
    with more have "script_steps env er (i + 1) False xs b2 sv2 = (rs1, b1, sv1)" by simp
    from Cons.IH [OF this] obtain k where "fail_fast k (length xs) (map sr_status rs1)"
      "map sr_name rs1 = map (script_title \<circ> fst) xs" using out(2) by auto
    with out good x show ?thesis by (intro exI [of _ "Suc k"]) (simp add: fail_fast_Passed)
  qed
qed simp

lemma backlog_new_ok [simp]: "backlog_ok (backlog_new sc)" "waiting who called (backlog_new sc) = 0"
  by (simp_all add: backlog_new_def with_wanted_def backlog_ok_def waiting_def)

lemma no_failure_all_passed:
  assumes "fail_fast k n (map sr_status rs)"
  shows "\<not> list_ex (\<lambda>r. case sr_status r of Step_Failed _ \<Rightarrow> True | _ \<Rightarrow> False) rs \<longleftrightarrow> k = n"
proof (cases "k = n")
  case True
  with assms have "set (map sr_status rs) \<subseteq> {Step_Passed}" by (auto simp: fail_fast_def simp del: set_map)
  with True show ?thesis by (auto simp: list_ex_iff split: step_status.splits)
next
  case False
  with assms obtain reason where "Step_Failed reason \<in> set (map sr_status rs)"
    by (auto simp: fail_fast_def simp del: set_map)
  then obtain r where "r \<in> set rs" "sr_status r = Step_Failed reason" by auto
  then have "list_ex (\<lambda>r. case sr_status r of Step_Failed _ \<Rightarrow> True | _ \<Rightarrow> False) rs"
    by (auto simp: list_ex_iff intro!: bexI [of _ r])
  with False show ?thesis by simp
qed

text \<open>
  C32: a script run reports every step and stops at its first failure, it passes exactly when every step did,
  and the waits for an action that passed, of one station or of any, are no more than the CALLs of that
  action the stations sent.
\<close>

theorem script_wait_once:
  assumes "length envs = length (ct_steps sc)" "run_script env er sc envs sv ms = (rep, sv')"
  shows "served who called (ct_steps sc) (rp_steps rep) \<le> arrivals who called (concat (map ze_items envs))
    \<and> (\<exists>k. fail_fast k (length (ct_steps sc)) (map sr_status (rp_steps rep))
         \<and> (rp_passed rep \<longleftrightarrow> k = length (ct_steps sc)))"
proof -
  obtain rs b' sv2 where run: "script_steps env er 0 False (zip (ct_steps sc) envs) (backlog_new sc) sv = (rs, b', sv2)"
    by (cases rule: prod_cases3)
  with assms(2) have rep: "rp_steps rep = rs"
    "rp_passed rep = (\<not> list_ex (\<lambda>r. case sr_status r of Step_Failed _ \<Rightarrow> True | _ \<Rightarrow> False) rs)"
    by (auto simp: run_script_def)
  have "map (ze_items \<circ> snd) (zip (ct_steps sc) envs) = map ze_items envs" "map fst (zip (ct_steps sc) envs) = ct_steps sc"
    using assms(1) by (simp_all flip: map_map)
  with script_steps_waiting [OF backlog_new_ok(1) run, of who called] rep(1)
  have once: "served who called (ct_steps sc) (rp_steps rep) \<le> arrivals who called (concat (map ze_items envs))" by simp
  from script_steps_shape [OF run] assms(1) obtain k where k: "fail_fast k (length (ct_steps sc)) (map sr_status rs)" by auto
  with once rep no_failure_all_passed [OF k] show ?thesis by auto
qed

definition demo_script_env :: csms_env where
  "demo_script_env = \<lparr>ce_serde = demo_serde, ce_iso = (\<lambda>_. []), ce_parse = (\<lambda>_. Inl []), ce_print = (\<lambda>_. ''{}''),
     ce_knows = (\<lambda>_. True), ce_request = (\<lambda>_ _. None), ce_listening = True\<rparr>"

definition demo_script :: csms_script where
  "demo_script = \<lparr>ct_name = ''demo'', ct_steps = map (\<lambda>a. \<lparr>cp_name = None, cp_action = a\<rparr>)
     [Sc_WaitCall None ''Heartbeat'' None 50, Sc_WaitCall (Some ''CP-1'') ''Heartbeat'' None 50,
      Sc_InjectFault ''Heartbeat'' SilenceKind None 1]\<rparr>"

definition demo_script_envs :: "script_env list" where
  "demo_script_envs = map (\<lambda>xs. \<lparr>ze_first = xs, ze_moved = (\<lambda>sv. sv), ze_rounds = [], ze_answer = None,
       ze_deadline = False, ze_ms = 0\<rparr>)
     [[Pump_Event (Cs_Frame ''CP-1'' False (Frame_Call ''1'' ''Heartbeat'' (JObject [])))], [], []]"

lemma script_wait_once_witness:
  "\<exists>rep sv'. run_script demo_script_env (\<lambda>_. []) demo_script demo_script_envs (new_server default_csms_config) 9 = (rep, sv')
     \<and> served None ''Heartbeat'' (ct_steps demo_script) (rp_steps rep) = 1
     \<and> arrivals None ''Heartbeat'' (concat (map ze_items demo_script_envs)) = 1
     \<and> (\<exists>k. fail_fast k 3 (map sr_status (rp_steps rep)) \<and> k \<noteq> 3) \<and> sv_faults sv' = []"
proof -
  obtain rep sv' where run: "run_script demo_script_env (\<lambda>_. []) demo_script demo_script_envs
      (new_server default_csms_config) 9 = (rep, sv')" by fastforce
  have len: "length demo_script_envs = length (ct_steps demo_script)"
    by (simp add: demo_script_envs_def demo_script_def)
  have vals: "(case run_script demo_script_env (\<lambda>_. []) demo_script demo_script_envs
      (new_server default_csms_config) 9 of (rep, sv') \<Rightarrow>
        served None ''Heartbeat'' (ct_steps demo_script) (rp_steps rep) = 1 \<and> \<not> rp_passed rep \<and> sv_faults sv' = [])"
    by code_simp
  have arrived: "arrivals None ''Heartbeat'' (concat (map ze_items demo_script_envs)) = 1" by code_simp
  have n: "length (ct_steps demo_script) = 3" by (simp add: demo_script_def)
  from script_wait_once [OF len run, of None "''Heartbeat''"] run vals arrived n show ?thesis by auto
qed

end
