(* ===== verification/Spec2Isabelle.thy ===== *)
theory Spec2Isabelle
  imports Csms_Props Ws_Props Station_Props Btree_Map Reservation Status_Tracker Authorization Smart_Laws
    Response_Rules_Laws Certificates_Laws Scenario_Report Csms_Script_Laws
begin

text \<open>
  A verification of kirby-ocpp: a charge point emulator for OCPP 1.6J (\<open>kirby-ocpp-core\<close>) and a central
  system for testing charge points (\<open>kirby-csms-core\<close>).  This text says which theory models which part of
  the program, what the lemmas show, what the model is parametric in and what it leaves out.  Paths without
  a crate are relative to \<open>src/crates/kirby-ocpp-core/src\<close>.

  \<^bold>\<open>The program.\<close>  An emulated station is one actor (\<open>station/actor.rs\<close>).  Its loop takes one turn at a
  time: a command of the user, a CALL of the central system, the end of one of its own CALLs, a timer, or a
  change of the link.  A handler changes the station's state and asks for effects: CALLs, replies, timers,
  events, a save of the state.  The CALLs go through a task that repeats them (\<open>station/calls.rs\<close>) to the
  connection task (\<open>ws/task.rs\<close>), which owns the socket, keeps CALLs in order and matches answers to
  callers.  The central system (\<open>kirby-csms-core/src/server.rs\<close>) keeps a registry of stations behind a lock,
  one session per connection with its own queue of CALLs, and a record of what each station reported
  (\<open>state.rs\<close>).

  \<^bold>\<open>Foundations.\<close>
  \<^item> \<open>Kirby_Prelude\<close>: Rust's integers (\<open>nat\<close> and \<open>int\<close> with saturation and wrap-around written out),
    instants and durations in nanoseconds, \<open>Option\<close> and iterator functions.
  \<^item> \<open>Rust_Strings\<close>: the functions of \<open>str\<close> the code calls; a string is a list of its bytes.
  \<^item> \<open>F64\<close>: IEEE 754 doubles with rounding to nearest even, NaN, infinities and signed zero.
  \<^item> \<open>Btree_Map\<close>: \<open>BTreeMap\<close> as ordered association lists, with the locale its users rely on.
  \<^item> \<open>Bounded_Store\<close>: a locale for stores that promise a bound after every operation; interpreted by the
    local list, the authorization cache, the profile store and the offline queue.
  \<^item> \<open>Call_Accounting\<close>: tickets as multisets, the counting behind \<open>one result per CALL\<close> of the connection
    task and of the central system.

  \<^bold>\<open>The station's data.\<close>
  \<^item> \<open>Ocpp_Types\<close>, \<open>Connector\<close>: identifiers and enumerations (\<open>ids.rs\<close>, \<open>ocpp/types.rs\<close>), the transaction
    state machine and the connector record with its status rules (\<open>station/transaction.rs\<close>,
    \<open>station/connector.rs\<close>).
  \<^item> \<open>Charging_Profiles\<close>, \<open>Smart_Charging\<close>, \<open>Smart_Laws\<close>: the profile store, schedule evaluation, the power
    model (\<open>station/charging_profiles.rs\<close>, \<open>station/smart_charging.rs\<close>).  The laws: the store's invariant
    under any operations, SetChargingProfile on every branch, and the composite schedule, which evaluates
    only the seconds near change instants, agrees with the precedence rules at every second of its window.
  \<^item> \<open>Metering\<close>: readings, sampled values, clock-aligned instants (\<open>station/metering.rs\<close>).
  \<^item> \<open>Config_Registry\<close>, \<open>Config_Laws\<close>: the configuration keys (\<open>station/config_registry.rs\<close>): which changes
    are accepted, safety under any sequence of changes, snapshot and restore, reports.
  \<^item> \<open>Local_Auth_List\<close>, \<open>Authorization\<close>: the local list as a refinement of map update, the cache of
    verdicts and its eviction, the decision tables.
  \<^item> \<open>Reservation\<close>: ReserveNow, cancelling, expiry (\<open>station/reservation.rs\<close>).
  \<^item> \<open>Status_Tracker\<close>: which StatusNotification is due (\<open>station/status.rs\<close>), as a refinement of the pair
    of current state and the time since it holds.
  \<^item> \<open>Offline_Queue\<close>: transactions the central system has not fully seen (\<open>station/offline.rs\<close>), with the
    bound and the uniqueness of its keys under any sequence of operations.
  \<^item> \<open>Response_Rules\<close>, \<open>Response_Rules_Laws\<close>: the rules that override answers to inbound CALLs, their
    text form, and what a rule does to a sequence of CALLs.
  \<^item> \<open>Maintenance\<close>: the plans of simulated uploads and firmware updates (\<open>station/maintenance.rs\<close>).
  \<^item> \<open>Certificates\<close>, \<open>Certificates_Laws\<close>: the certificate store (\<open>station/certificates.rs\<close>) and what no
    sequence of installations and deletions can do to the trust anchors.

  \<^bold>\<open>The station's actor.\<close>  \<open>Station\<close> has the record \<open>station\<close> (the fields of \<open>StationActor\<close> and
  \<open>StationState\<close>) and the operations all handlers use: timers, persistence, the call gate.  An operation
  takes the station and returns it, with its effects appended to \<open>s_out\<close> in the order the code asks for
  them; a CALL carries the continuation (\<open>cont\<close>) that \<open>on_call_done\<close> resumes.
  \<^item> \<open>Transactions\<close>: authorizing, starting, stopping, meter values, the delivery of the offline queue
    (\<open>station/transactions.rs\<close>).
  \<^item> \<open>Handlers\<close>: samples, availability, reservations, remote start and stop, charging profiles, user
    commands (\<open>station/handlers\<close>, \<open>station/sampling.rs\<close>, \<open>station/commands.rs\<close>).
  \<^item> \<open>Secure\<close>: certificate requests and their back-off, what a connection is opened with and what its
    outcome means for the certificates, the rules for the security profile (\<open>station/secure.rs\<close>).
  \<^item> \<open>Upkeep\<close>: diagnostics, logs and firmware (\<open>handlers/maintenance.rs\<close>).
  \<^item> \<open>Lifecycle\<close>: boot, heartbeat, the end of a CALL, the link, reset (\<open>station/link.rs\<close>,
    \<open>station/calls.rs\<close>, \<open>handlers/remote.rs\<close>).
  \<^item> \<open>Requests\<close>: configuration, data transfer, the local list, triggers, certificates, response rules, local
    edits, the user's own CALLs, shutdown.
  \<^item> \<open>Action_Table\<close>, \<open>Actor\<close>: the actions, the dispatch of commands, requests and timers, and \<open>turn\<close>, one
    turn of the loop (\<open>station/actor.rs\<close>, \<open>handlers/mod.rs\<close>).
  \<^item> \<open>Restart\<close>: what is saved and how it is restored (\<open>station/persistence.rs\<close>).
  The laws go by layers.  \<open>Station_Frame\<close> says what operations leave alone; \<open>Station_Inv\<close> states the
  invariant \<open>Inv K s\<close> of the transaction machinery, where \<open>K\<close> are the continuations that are being
  resumed; \<open>Transaction_Inv\<close>, \<open>Station_Safe\<close>, \<open>Reachable\<close> and \<open>Recovery\<close> show that every operation, every
  turn and every restart keeps it, so that it holds in the inductive set \<open>reachable\<close>.  \<open>Gate\<close> is the
  registration gate as a relation between the state before and after; \<open>Sync_Serial\<close> the delivery of the
  queue.  \<open>Station_Props\<close> draws the properties from them.

  \<^bold>\<open>The connection.\<close>  \<open>Ocpp_Frame\<close> models frames (\<open>ocpp/frame.rs\<close>): encoding, decoding with every error,
  the reply to a broken frame, redaction.  \<open>Ws_Task\<close> models the task of one connection (\<open>ws/task.rs\<close>):
  \<open>ws_run\<close> folds any sequence of events over its state.  \<open>Ws_Laws\<close> and \<open>Ws_Props\<close> show that every caller
  gets one result, that CALLs go out in order and never stall, and that replies answer received frames.

  \<^bold>\<open>The central system.\<close>  \<open>Csms_State\<close> and \<open>Csms_State_Laws\<close>: the record of a station and its bounds
  (\<open>kirby-csms-core/src/state.rs\<close>).  \<open>Csms_Auth\<close>: who may connect (\<open>auth.rs\<close>, \<open>policy.rs\<close>, \<open>config.rs\<close>).
  \<open>Csms_Server\<close>: registration, recording, faults, default answers.  \<open>Csms_Session\<close>: the loop of a session and
  the calls through the handle; \<open>csms_run\<close> folds any sequence of steps of the registry, the sessions and
  the callers over the whole system, so that every interleaving is covered.  \<open>Csms_Server_Laws\<close>,
  \<open>Csms_Session_Laws\<close>, \<open>Csms_Session_Books\<close> and \<open>Csms_World\<close> have the invariant of the whole system;
  \<open>Csms_Props\<close> the properties.

  \<^bold>\<open>Scripted tests.\<close>  \<open>Scenario\<close>: scenarios as data, their validation, retargeting and the matching of JSON
  patterns (\<open>scenario/model.rs\<close>).  \<open>Scenario_Run\<close>: the runner (\<open>scenario/runner.rs\<close>) with the frames it
  keeps for \<open>expect_call\<close>, over an environment that says what the event stream delivers and how commands
  end.  \<open>Scenario_Laws\<close> compares the bounded, lossy buffer with the history of everything that happened and
  gives the shape of a report; \<open>Scenario_Report\<close> is the JUnit document (\<open>scenario/junit.rs\<close>).  \<open>Csms_Script\<close>
  and \<open>Csms_Script_Laws\<close>: the scripts of the central system (\<open>kirby-csms/src/script.rs\<close>) over its registry;
  a CALL serves at most one wait.

  \<^bold>\<open>Bounds and fuel.\<close>  Every function is total and none runs on fuel.  The recursions that are not
  structural have a measure: the entries left of the offline queue (\<open>run_sync\<close>), the queued CALLs (\<open>pump\<close>,
  \<open>pump_calls\<close>), the size of the cache (\<open>make_room\<close>), the frames kept by a scenario or a script
  (\<open>trim_frames\<close>, \<open>evict_seen\<close>), a number's digits (\<open>show_nat\<close>).  A loop that runs as
  long as the process does (the actor, the connection task, a session) is a fold of its body over an
  arbitrary list of events.

  \<^bold>\<open>Parameters.\<close>  Code that is not in the repository enters as an argument: \<open>time_lib\<close> (calendar arithmetic,
  the printing of instants, URLs, fresh key pairs with their certificate requests), \<open>secs_f64\<close> and \<open>add\<close> (chrono and \<open>Duration\<close>
  conversions),
  \<open>parse_json\<close> and \<open>print_json\<close> (serde\_json), \<open>serde\<close> (the decoders of the typed messages), \<open>ws_env\<close>
  (the schemas and the text codec), \<open>http_lib\<close> (base64, names in client certificates), \<open>csms_env\<close>,
  \<open>session_io\<close> and \<open>io_write\<close> (sockets), \<open>cert_lib\<close> (PEM, X.509, digests, key pairs), \<open>parse_url\<close>,
  \<open>run_texts\<close> (derived texts and the JSON of responses), \<open>step_env\<close> and \<open>script_env\<close> (channels and time).  Where a
  property needs a law of such code the law is a named hypothesis and the witness has a concrete function.

  \<^bold>\<open>Not modelled.\<close>  The text of JSON and its schemas, TLS, HTTP upgrades and sockets, X.509 and key
  generation, the TOML of scenarios and scripts, files, rendering and key handling of the terminal interfaces, argument parsing, process glue
  and the test kits: they are third-party code or I/O.  Of the actor the model leaves out logging, the
  publishing of snapshots and the views made for them, and the command channel that closes without a
  Shutdown command.  A payload reaches the station's handlers decoded, or as one that serde refuses.
\<close>

end
